(* ===== verification/Prelude.thy ===== *)
theory Prelude
  imports Complex_Main "HOL-Library.AList" "HOL-Library.Char_ord" "HOL-Library.List_Lexorder"
    "HOL-Library.Log_Nat" "HOL-Library.Signed_Division" "HOL-Library.Sublist"
begin

text \<open>
  Shared vocabulary of the development.

  \<^item> Go maps are association lists with distinct keys.  The order of the list stands for the
    order in which a \<open>range\<close> loop visits the map in one execution, so a theorem about
    an arbitrary list holds for every order the Go runtime may choose.
  \<^item> Go's \<open>int\<close> is a HOL \<open>int\<close>; \<open>wrap64\<close> is written wherever the source's arithmetic can
    leave the 64 bit range.
  \<^item> Go's \<open>float64\<close> arithmetic (used for percentages) is rounding to 53 significant bits,
    ties to even, on rationals.
  \<^item> Strings are byte lists, ordered lexicographically as Go orders them.
\<close>

section \<open>Collections of rules\<close>

named_theorems gomap_simps "equations of the association list model of Go maps"
named_theorems stage_simps "equations of the package stage machine"

section \<open>Go maps\<close>

type_synonym ('k, 'v) gomap = "('k \<times> 'v) list"

abbreviation gput :: "'k \<Rightarrow> 'v \<Rightarrow> ('k, 'v) gomap \<Rightarrow> ('k, 'v) gomap" where
  "gput \<equiv> AList.update"

abbreviation gdel :: "'k \<Rightarrow> ('k, 'v) gomap \<Rightarrow> ('k, 'v) gomap" where
  "gdel \<equiv> AList.delete"

abbreviation gkeys :: "('k, 'v) gomap \<Rightarrow> 'k list" where
  "gkeys m \<equiv> map fst m"

abbreviation gomap_ok :: "('k, 'v) gomap \<Rightarrow> bool" where
  "gomap_ok m \<equiv> distinct (gkeys m)"

text \<open>
  A \<open>range\<close> loop whose body writes to the map it ranges over visits the keys the map had when
  the loop began and reads each value at the moment it is visited; a key deleted before its
  turn is not visited.
\<close>

fun grange :: "('k \<Rightarrow> 'v \<Rightarrow> 's \<Rightarrow> 's) \<Rightarrow> ('s \<Rightarrow> 'k \<Rightarrow> 'v option) \<Rightarrow> 'k list \<Rightarrow> 's \<Rightarrow> 's" where
  "grange body look [] s = s"
| "grange body look (k # ks) s =
     grange body look ks (case look s k of None \<Rightarrow> s | Some v \<Rightarrow> body k v s)"

section \<open>Machine integers and floats\<close>

definition wrap64 :: "int \<Rightarrow> int" where
  "wrap64 x = (x + 2 ^ 63) mod 2 ^ 64 - 2 ^ 63"

definition int64 :: "int \<Rightarrow> bool" where
  "int64 x \<longleftrightarrow> - (2 ^ 63) \<le> x \<and> x < 2 ^ 63"

text \<open>Rounding a rational to an integer, ties to even.\<close>

definition round_even :: "rat \<Rightarrow> int" where
  "round_even y =
     (let f = \<lfloor>y\<rfloor>; r = y - of_int f
      in if r < 1 / 2 then f else if 1 / 2 < r then f + 1
         else if even f then f else f + 1)"

text \<open>The exponent \<open>e\<close> with \<open>2 ^ e \<le> n / d < 2 ^ (e + 1)\<close>, for positive \<open>n\<close> and \<open>d\<close>.\<close>

definition ilog2 :: "int \<Rightarrow> int \<Rightarrow> int" where
  "ilog2 n d =
     (let e = bitlen n - bitlen d
      in if (if 0 \<le> e then d * 2 ^ nat e \<le> n else d \<le> n * 2 ^ nat (- e)) then e else e - 1)"

text \<open>
  \<open>f64 x\<close> is the double nearest to \<open>x\<close>.  Overflow and subnormal numbers do not occur: the
  source only divides an \<open>int\<close> by 100 and multiplies by an \<open>int\<close>.
\<close>

definition pow2 :: "int \<Rightarrow> rat" where
  "pow2 e = (if 0 \<le> e then 2 ^ nat e else 1 / 2 ^ nat (- e))"

definition f64_pos :: "rat \<Rightarrow> rat" where
  "f64_pos x =
     (let (n, d) = quotient_of x; u = pow2 (ilog2 n d - 52)
      in of_int (round_even (x / u)) * u)"

definition f64 :: "rat \<Rightarrow> rat" where
  "f64 x = (if x = 0 then 0 else if 0 < x then f64_pos x else - f64_pos (- x))"

text \<open>\<open>int(f)\<close> of the source: truncation towards zero.\<close>

definition trunc_f64 :: "rat \<Rightarrow> int" where
  "trunc_f64 x = (if 0 \<le> x then \<lfloor>x\<rfloor> else - \<lfloor>- x\<rfloor>)"

section \<open>Strings\<close>

definition has_suffix :: "string \<Rightarrow> string \<Rightarrow> bool" where
  "has_suffix s suf \<longleftrightarrow> suffix suf s"

definition has_prefix :: "string \<Rightarrow> string \<Rightarrow> bool" where
  "has_prefix s p \<longleftrightarrow> prefix p s"

text \<open>\<open>strings.CutPrefix\<close>: the rest after the prefix, if the prefix is there.\<close>

fun cut_prefix :: "string \<Rightarrow> string \<Rightarrow> string option" where
  "cut_prefix s [] = Some s"
| "cut_prefix [] (p # ps) = None"
| "cut_prefix (c # cs) (p # ps) = (if c = p then cut_prefix cs ps else None)"

fun join_with :: "string \<Rightarrow> string list \<Rightarrow> string" where
  "join_with sep [] = []"
| "join_with sep [s] = s"
| "join_with sep (s # t # ss) = s @ sep @ join_with sep (t # ss)"

text \<open>Decimal digits of a natural number, most significant first.\<close>

function show_nat :: "nat \<Rightarrow> string" where
  "show_nat n =
     (if n < 10 then [char_of (48 + n)] else show_nat (n div 10) @ [char_of (48 + n mod 10)])"
  by pat_completeness auto
termination
  by (relation "measure (\<lambda>n. n)") auto

declare show_nat.simps [simp del]

definition show_int :: "int \<Rightarrow> string" where
  "show_int i = (if i < 0 then ''-'' @ show_nat (nat (- i)) else show_nat (nat i))"

definition hex_digit :: "nat \<Rightarrow> char" where
  "hex_digit n = (if n < 10 then char_of (48 + n) else char_of (87 + n))"

text \<open>\<open>strings.ToLower\<close> on ASCII strings.\<close>

definition lower_char :: "char \<Rightarrow> char" where
  "lower_char c = (let n = of_char c :: nat in if 65 \<le> n \<and> n \<le> 90 then char_of (n + 32) else c)"

definition to_lower :: "string \<Rightarrow> string" where
  "to_lower s = map lower_char s"

section \<open>Lemmas on maps\<close>

lemmas gput_lookup [simp, gomap_simps] = update_conv'
lemmas gdel_lookup [simp, gomap_simps] = delete_conv'
lemmas gput_ok [simp, intro] = distinct_update
lemmas gdel_ok [simp, intro] = distinct_delete

lemma gkeys_lookup: "k \<in> set (gkeys m) \<longleftrightarrow> map_of m k \<noteq> None"
  by (induction m) auto

lemma length_gkeys_card: "gomap_ok m \<Longrightarrow> length m = card (dom (map_of m))"
  by (metis distinct_card dom_map_of_conv_image_fst length_map set_map)

lemma map_of_eq_length:
  "gomap_ok m \<Longrightarrow> gomap_ok m' \<Longrightarrow> map_of m = map_of m' \<Longrightarrow> length m = length m'"
  by (simp add: length_gkeys_card)

lemma gomap_mset_eq: "gomap_ok m \<Longrightarrow> gomap_ok m' \<Longrightarrow> map_of m = map_of m' \<Longrightarrow> set m = set m'"
  by (auto simp: map_of_eq_Some_iff set_eq_iff)
     (metis map_of_eq_Some_iff)+

lemma map_of_filter_key:
  "map_of (filter (\<lambda>(k, v). P k) m) k = (if P k then map_of m k else None)"
  by (induction m) auto

section \<open>Lemmas on integers and floats\<close>

lemma wrap64_id [simp]: "int64 x \<Longrightarrow> wrap64 x = x"
  by (auto simp: wrap64_def int64_def)

lemma wrap64_int64 [simp]: "int64 (wrap64 x)"
proof -
  have "0 \<le> (x + 2 ^ 63) mod 2 ^ 64" "(x + 2 ^ 63) mod 2 ^ 64 < (2 ^ 64 :: int)"
    by simp_all
  then show ?thesis by (simp add: wrap64_def int64_def)
qed

lemma sdiv_nonneg: "0 \<le> a \<Longrightarrow> 0 < b \<Longrightarrow> a sdiv b = a div (b :: int)"
  by (cases "a = 0") (auto simp: signed_divide_int_def sgn_if)

lemma int_div_less_iff:
  assumes "0 < (b :: int)"
  shows "x div b < t \<longleftrightarrow> x < t * b"
proof
  assume "x div b < t"
  then show "x < t * b" using zdiv_mono1[of "t * b" x b] assms by (cases "t * b \<le> x") auto
next
  assume "x < t * b"
  moreover have "x div b * b \<le> x" using assms by (simp add: minus_mod_eq_div_mult [symmetric])
  ultimately have "x div b * b < t * b" by linarith
  then show "x div b < t" using assms by (simp add: mult_less_cancel_right)
qed

end
