(* ===== verification/Graph.thy ===== *)
theory Graph
  imports Prelude
begin

text \<open>
  The package dependency graph: \<open>operator/internal/graph/dependency_graph.go\<close>.

  A \<open>dag\<close> holds the vertices added so far and placeholders for vertices that were named as a
  dependency before they were added.  Go's \<open>[]*vertex\<close> edges are the names of the vertices they
  point to: every name has one vertex object, which moves from \<open>placeholders\<close> to \<open>vertices\<close>.
  The walk interface is the locale \<open>dependency_walk\<close>; its client lemmas (a walk visits every
  vertex once, dependencies first) are interpreted on \<open>Next\<close>.
\<close>

section \<open>Definitions\<close>

datatype graph_error =
    VertexExists string
  | MissingVertices "string list"

record 'a vertex =
  edges :: "string list"
  parents :: "string list"
  vname :: string
  object :: "'a option"

record 'a dag =
  vertices :: "(string, 'a vertex) gomap"
  placeholders :: "(string, 'a vertex) gomap"

definition New :: "'a dag" where
  "New = \<lparr>vertices = [], placeholders = []\<rparr>"

definition IsRoot :: "'a vertex \<Rightarrow> bool" where
  "IsRoot v \<longleftrightarrow> edges v = []"

text \<open>One round of the loop over the dependencies in \<open>Add\<close>.\<close>

definition add_dependency :: "string \<Rightarrow> string \<Rightarrow> 'a dag \<Rightarrow> 'a dag" where
  "add_dependency name dep d =
     (case map_of (vertices d) dep of
        Some v \<Rightarrow> d\<lparr>vertices := gput dep (v\<lparr>edges := edges v @ [name]\<rparr>) (vertices d)\<rparr>
      | None \<Rightarrow>
          (let place = (case map_of (placeholders d) dep of
                          Some p \<Rightarrow> p
                        | None \<Rightarrow> \<lparr>edges = [], parents = [], vname = dep, object = None\<rparr>)
           in d\<lparr>placeholders := gput dep (place\<lparr>edges := edges place @ [name]\<rparr>) (placeholders d)\<rparr>))"

text \<open>The vertex taken from its placeholder, or made afresh, and moved into \<open>vertices\<close>.\<close>

definition place_vertex :: "'a dag \<Rightarrow> string \<Rightarrow> 'a \<Rightarrow> string list \<Rightarrow> 'a dag" where
  "place_vertex d name obj dependencies =
     (let vert = (case map_of (placeholders d) name of
                    None \<Rightarrow> \<lparr>edges = [], parents = dependencies, vname = name, object = Some obj\<rparr>
                  | Some p \<Rightarrow> p\<lparr>object := Some obj, parents := dependencies\<rparr>)
      in d\<lparr>placeholders := gdel name (placeholders d),
           vertices := gput name vert (vertices d)\<rparr>)"

definition Add :: "'a dag \<Rightarrow> string \<Rightarrow> 'a \<Rightarrow> string list \<Rightarrow> graph_error + 'a dag" where
  "Add d name obj dependencies =
     (if map_of (vertices d) name \<noteq> None then Inl (VertexExists name)
      else Inr (fold (add_dependency name) dependencies (place_vertex d name obj dependencies)))"

definition Valid :: "'a dag \<Rightarrow> graph_error + unit" where
  "Valid d =
     (if placeholders d \<noteq> [] then Inl (MissingVertices (gkeys (placeholders d))) else Inr ())"

text \<open>The filter in \<open>Next\<close>: not done yet, and every parent done.\<close>

definition is_ready :: "string list \<Rightarrow> 'a vertex \<Rightarrow> bool" where
  "is_ready done v \<longleftrightarrow> vname v \<notin> set done \<and> (\<forall>p \<in> set (parents v). p \<in> set done)"

definition sortEdges :: "'a vertex list \<Rightarrow> 'a vertex list" where
  "sortEdges vs = sort_key vname vs"

definition getNames :: "'a vertex list \<Rightarrow> string list" where
  "getNames vs = map vname vs"

definition Next :: "'a dag \<Rightarrow> string list \<Rightarrow> graph_error + string list" where
  "Next d from =
     (case Valid d of
        Inl e \<Rightarrow> Inl e
      | Inr _ \<Rightarrow> Inr (getNames (sortEdges (filter (is_ready from) (map snd (vertices d))))))"

text \<open>\<open>Get\<close> dereferences \<open>d.vertices[f]\<close>: an unknown name is a nil dereference, \<open>None\<close> here.\<close>

fun Get :: "'a dag \<Rightarrow> string list \<Rightarrow> 'a option list option" where
  "Get d [] = Some []"
| "Get d (f # fs) =
     (case map_of (vertices d) f of
        None \<Rightarrow> None
      | Some v \<Rightarrow> map_option (\<lambda>xs. object v # xs) (Get d fs))"

text \<open>
  The loop of \<open>PrintGraph\<close>, for any implementation \<open>next\<close> of the walk interface (an error makes
  the step empty, which ends the loop).  The fuel bounds the number of rounds; \<open>None\<close> means it
  ran out, and \<open>walk_total\<close> below says how much is enough.
\<close>

fun walk_steps :: "(string list \<Rightarrow> string list option) \<Rightarrow> nat \<Rightarrow> string list \<Rightarrow> string list list option" where
  "walk_steps nxt 0 completed = None"
| "walk_steps nxt (Suc fuel) completed =
     (case nxt completed of
        None \<Rightarrow> Some []
      | Some [] \<Rightarrow> Some []
      | Some (s # ss) \<Rightarrow>
          map_option (\<lambda>rest. (s # ss) # rest) (walk_steps nxt fuel (completed @ s # ss)))"

definition next_step :: "'a dag \<Rightarrow> string list \<Rightarrow> string list option" where
  "next_step d from = (case Next d from of Inl _ \<Rightarrow> None | Inr ns \<Rightarrow> Some ns)"

text \<open>\<open>PrintGraph\<close>: the steps joined by arrows, each printed as Go prints a string slice.\<close>

definition PrintGraph :: "'a dag \<Rightarrow> nat \<Rightarrow> string option" where
  "PrintGraph d fuel =
     map_option (\<lambda>steps. join_with '' -> '' (map (\<lambda>s. ''['' @ join_with '' '' s @ '']'') steps))
       (walk_steps (next_step d) fuel [])"

section \<open>The graph invariant\<close>

text \<open>The names, the dependencies, the objects and the missing names a graph records.\<close>

definition names_of :: "'a dag \<Rightarrow> string set" where
  "names_of d = set (gkeys (vertices d))"

definition deps_of :: "'a dag \<Rightarrow> string \<Rightarrow> string set" where
  "deps_of d n = (case map_of (vertices d) n of None \<Rightarrow> {} | Some v \<Rightarrow> set (parents v))"

definition obj_of :: "'a dag \<Rightarrow> string \<Rightarrow> 'a option" where
  "obj_of d n = (case map_of (vertices d) n of None \<Rightarrow> None | Some v \<Rightarrow> object v)"

definition missing_of :: "'a dag \<Rightarrow> string set" where
  "missing_of d = set (gkeys (placeholders d))"

text \<open>
  What \<open>Add\<close> keeps: keys are distinct and name their vertices, and the placeholders are exactly
  the names somebody depends on that have not been added.
\<close>

definition dag_ok :: "'a dag \<Rightarrow> bool" where
  "dag_ok d \<longleftrightarrow>
     gomap_ok (vertices d) \<and> gomap_ok (placeholders d) \<and>
     (\<forall>k v. map_of (vertices d) k = Some v \<longrightarrow> vname v = k) \<and>
     (\<forall>k v. map_of (placeholders d) k = Some v \<longrightarrow> vname v = k) \<and>
     missing_of d = (\<Union>n \<in> names_of d. deps_of d n) - names_of d"

lemma names_of_dom: "names_of d = dom (map_of (vertices d))"
  by (simp add: names_of_def dom_map_of_conv_image_fst)

lemma missing_of_dom: "missing_of d = dom (map_of (placeholders d))"
  by (simp add: missing_of_def dom_map_of_conv_image_fst)

lemmas view_defs = names_of_dom deps_of_def obj_of_def missing_of_dom

lemma add_dependency_vertices:
  "map_of (vertices (add_dependency n dep d)) k =
     map_option (\<lambda>v. if k = dep then v\<lparr>edges := edges v @ [n]\<rparr> else v) (map_of (vertices d) k)"
  by (cases "map_of (vertices d) k")
     (auto simp: add_dependency_def Let_def split: option.split)

lemma add_dependency_views [simp]:
  "names_of (add_dependency n dep d) = names_of d"
  "deps_of (add_dependency n dep d) = deps_of d"
  "obj_of (add_dependency n dep d) = obj_of d"
  by (auto simp: view_defs add_dependency_vertices fun_eq_iff split: option.splits)

lemma add_dependency_missing [simp]:
  "missing_of (add_dependency n dep d) =
     (if dep \<in> names_of d then missing_of d else insert dep (missing_of d))"
  by (auto simp: view_defs add_dependency_def Let_def split: option.splits)

lemma add_dependency_keys [simp]:
  "gomap_ok (vertices d) \<Longrightarrow> gomap_ok (vertices (add_dependency n dep d))"
  "gomap_ok (placeholders d) \<Longrightarrow> gomap_ok (placeholders (add_dependency n dep d))"
  by (auto simp: add_dependency_def Let_def split: option.splits)

text \<open>Keys name their vertices, in both maps.\<close>

definition keys_named :: "'a dag \<Rightarrow> bool" where
  "keys_named d \<longleftrightarrow>
     (\<forall>k v. map_of (vertices d) k = Some v \<longrightarrow> vname v = k) \<and>
     (\<forall>k v. map_of (placeholders d) k = Some v \<longrightarrow> vname v = k)"

lemma add_dependency_named: "keys_named d \<Longrightarrow> keys_named (add_dependency n dep d)"
  by (auto simp: keys_named_def add_dependency_def Let_def split: option.splits)

lemma fold_add_dependency [simp]:
  "names_of (fold (add_dependency n) ds d) = names_of d"
  "deps_of (fold (add_dependency n) ds d) = deps_of d"
  "obj_of (fold (add_dependency n) ds d) = obj_of d"
  "missing_of (fold (add_dependency n) ds d) = missing_of d \<union> (set ds - names_of d)"
  by (induction ds arbitrary: d) auto

lemma fold_add_dependency_keys:
  "gomap_ok (vertices d) \<Longrightarrow> gomap_ok (vertices (fold (add_dependency n) ds d))"
  "gomap_ok (placeholders d) \<Longrightarrow> gomap_ok (placeholders (fold (add_dependency n) ds d))"
  "keys_named d \<Longrightarrow> keys_named (fold (add_dependency n) ds d)"
  by (induction ds arbitrary: d) (auto intro: add_dependency_named)

lemma dag_ok_alt:
  "dag_ok d \<longleftrightarrow> gomap_ok (vertices d) \<and> gomap_ok (placeholders d) \<and> keys_named d \<and>
     missing_of d = (\<Union>n \<in> names_of d. deps_of d n) - names_of d"
  by (auto simp: dag_ok_def keys_named_def)

lemma dag_ok_New [simp]: "dag_ok New"
  by (simp add: dag_ok_def New_def view_defs)

lemma place_vertex_views [simp]:
  "names_of (place_vertex d n x ds) = insert n (names_of d)"
  "deps_of (place_vertex d n x ds) = (deps_of d)(n := set ds)"
  "obj_of (place_vertex d n x ds) = (obj_of d)(n := Some x)"
  "missing_of (place_vertex d n x ds) = missing_of d - {n}"
  by (auto simp: place_vertex_def Let_def view_defs fun_eq_iff split: option.splits)

lemma place_vertex_keys:
  "gomap_ok (vertices d) \<Longrightarrow> gomap_ok (vertices (place_vertex d n x ds))"
  "gomap_ok (placeholders d) \<Longrightarrow> gomap_ok (placeholders (place_vertex d n x ds))"
  "keys_named d \<Longrightarrow> keys_named (place_vertex d n x ds)"
  by (auto simp: place_vertex_def Let_def keys_named_def split: option.splits)

lemma Add_views:
  assumes "Add d n x ds = Inr d'"
  shows "n \<notin> names_of d"
    and "names_of d' = insert n (names_of d)"
    and "deps_of d' = (deps_of d)(n := set ds)"
    and "obj_of d' = (obj_of d)(n := Some x)"
    and "missing_of d' = missing_of d - {n} \<union> (set ds - insert n (names_of d))"
  using assms by (auto simp: Add_def names_of_dom[of d] split: if_splits)

lemma deps_of_notin: "n \<notin> names_of d \<Longrightarrow> deps_of d n = {}"
  by (auto simp: view_defs split: option.splits)

lemma Add_ok:
  assumes "dag_ok d" and "Add d n x ds = Inr d'"
  shows "dag_ok d'"
proof -
  have "missing_of d = (\<Union>m \<in> names_of d. deps_of d m) - names_of d"
    using assms(1) by (simp add: dag_ok_alt)
  then have "missing_of d' = (\<Union>m \<in> names_of d'. deps_of d' m) - names_of d'"
    using Add_views[OF assms(2)] by auto
  moreover have "d' = fold (add_dependency n) ds (place_vertex d n x ds)"
    using assms(2) by (simp add: Add_def split: if_splits)
  ultimately show ?thesis
    using assms(1) by (simp add: dag_ok_alt fold_add_dependency_keys place_vertex_keys)
qed

lemma Add_succeeds: "n \<notin> names_of d \<Longrightarrow> \<exists>d'. Add d n x ds = Inr d'"
  by (auto simp: Add_def names_of_dom)

lemma Valid_iff: "Valid d = Inr () \<longleftrightarrow> missing_of d = {}"
  by (cases "placeholders d") (auto simp: Valid_def missing_of_dom)

lemma Valid_iff_closed:
  "dag_ok d \<Longrightarrow> Valid d = Inr () \<longleftrightarrow> (\<forall>n \<in> names_of d. deps_of d n \<subseteq> names_of d)"
  by (auto simp: Valid_iff dag_ok_def)

section \<open>Building a graph\<close>

text \<open>The loop of \<open>BuildGraph\<close>: one \<open>Add\<close> per package, stopping at the first error.\<close>

fun add_all :: "'a dag \<Rightarrow> (string \<times> 'a \<times> string list) list \<Rightarrow> graph_error + 'a dag" where
  "add_all d [] = Inr d"
| "add_all d ((n, x, ds) # rest) = (case Add d n x ds of Inl e \<Rightarrow> Inl e | Inr d' \<Rightarrow> add_all d' rest)"

lemma add_all_views:
  assumes "distinct (map fst ps)" and "set (map fst ps) \<inter> names_of d = {}" and "dag_ok d"
  shows "\<exists>d'. add_all d ps = Inr d' \<and> dag_ok d' \<and> names_of d' = names_of d \<union> set (map fst ps) \<and>
     (\<forall>(n, x, ds) \<in> set ps. deps_of d' n = set ds \<and> obj_of d' n = Some x) \<and>
     (\<forall>n. n \<notin> set (map fst ps) \<longrightarrow> deps_of d' n = deps_of d n \<and> obj_of d' n = obj_of d n)"
  using assms
proof (induction ps arbitrary: d)
  case Nil
  then show ?case by auto
next
  case (Cons p ps)
  obtain n x ds where p: "p = (n, x, ds)" by (cases p) auto
  with Cons.prems have "n \<notin> names_of d" by auto
  then obtain d1 where d1: "Add d n x ds = Inr d1" using Add_succeeds[of n d x ds] by auto
  note v = Add_views[OF d1]
  have ok: "dag_ok d1" using Cons.prems(3) d1 by (rule Add_ok)
  have "set (map fst ps) \<inter> names_of d1 = {}" "distinct (map fst ps)"
    using Cons.prems p v by auto
  from Cons.IH[OF this(2,1) ok] obtain d' where
    "add_all d1 ps = Inr d'" "dag_ok d'" "names_of d' = names_of d1 \<union> set (map fst ps)"
    and in_ps: "\<forall>(n, x, ds) \<in> set ps. deps_of d' n = set ds \<and> obj_of d' n = Some x"
    and out_ps: "\<forall>n. n \<notin> set (map fst ps) \<longrightarrow> deps_of d' n = deps_of d1 n \<and> obj_of d' n = obj_of d1 n"
    by blast
  moreover have "n \<notin> set (map fst ps)" using Cons.prems(1) p by auto
  ultimately show ?case using p d1 v by auto
qed

section \<open>The walk\<close>

lemma vertex_entry:
  assumes "dag_ok d"
  shows "(k, v) \<in> set (vertices d) \<longleftrightarrow> map_of (vertices d) k = Some v"
    and "map_of (vertices d) k = Some v \<Longrightarrow> vname v = k"
  using assms by (simp_all add: dag_ok_def)

lemma set_Next:
  assumes ok: "dag_ok d" and nx: "Next d from = Inr ns"
  shows "set ns = {n \<in> names_of d. n \<notin> set from \<and> deps_of d n \<subseteq> set from}"
proof -
  have "n \<in> set ns \<longleftrightarrow> (\<exists>v. map_of (vertices d) n = Some v \<and> n \<notin> set from \<and> set (parents v) \<subseteq> set from)"
    for n
  proof -
    have "n \<in> set ns \<longleftrightarrow> (\<exists>(k, v) \<in> set (vertices d). is_ready from v \<and> n = vname v)"
      using nx by (force simp: Next_def getNames_def sortEdges_def split: sum.splits)
    also have "\<dots> \<longleftrightarrow> (\<exists>k v. map_of (vertices d) k = Some v \<and> is_ready from v \<and> n = vname v)"
      using vertex_entry(1)[OF ok] by (auto simp: Bex_def)
    also have "\<dots> \<longleftrightarrow> (\<exists>v. map_of (vertices d) n = Some v \<and> is_ready from v)"
      using vertex_entry(2)[OF ok] by metis
    finally show ?thesis
      using vertex_entry(2)[OF ok] by (auto simp: is_ready_def subset_iff)
  qed
  then show ?thesis by (auto simp: names_of_dom deps_of_def split: option.splits)
qed

lemma distinct_Next:
  assumes ok: "dag_ok d" and nx: "Next d from = Inr ns"
  shows "distinct ns"
proof -
  have "\<forall>(k, v) \<in> set (vertices d). vname v = k"
    using vertex_entry[OF ok] by auto
  then have "map vname (map snd (vertices d)) = gkeys (vertices d)" by auto
  moreover have "gomap_ok (vertices d)" using ok by (simp add: dag_ok_def)
  ultimately have "distinct (map vname (map snd (vertices d)))" by metis
  then have "distinct (map vname (filter (is_ready from) (map snd (vertices d))))"
    by (rule distinct_map_filter)
  then have "distinct (map vname (sort_key vname (filter (is_ready from) (map snd (vertices d)))))"
    by (simp add: distinct_map)
  then show ?thesis
    using nx by (auto simp: Next_def getNames_def sortEdges_def split: sum.splits)
qed

lemma sorted_Next: "Next d from = Inr ns \<Longrightarrow> sorted ns"
  by (auto simp: Next_def getNames_def sortEdges_def split: sum.splits)

lemma Next_ok_iff: "(\<exists>ns. Next d from = Inr ns) \<longleftrightarrow> Valid d = Inr ()"
  by (auto simp: Next_def split: sum.splits)

section \<open>The walk interface\<close>

text \<open>
  What a client of the graph relies on: on a graph in order, the step after \<open>from\<close> is exactly
  the set of vertices not in \<open>from\<close> all of whose dependencies are, without repetition.
\<close>

locale dependency_walk =
  fixes ok :: "'g \<Rightarrow> bool"
    and names :: "'g \<Rightarrow> string set"
    and deps :: "'g \<Rightarrow> string \<Rightarrow> string set"
    and nxt :: "'g \<Rightarrow> string list \<Rightarrow> string list option"
  assumes finite_names: "ok g \<Longrightarrow> finite (names g)"
    and closed: "ok g \<Longrightarrow> n \<in> names g \<Longrightarrow> deps g n \<subseteq> names g"
    and nxt_total: "ok g \<Longrightarrow> nxt g from \<noteq> None"
    and nxt_ready: "ok g \<Longrightarrow> nxt g from = Some ns \<Longrightarrow>
          set ns = {n \<in> names g. n \<notin> set from \<and> deps g n \<subseteq> set from}"
    and nxt_distinct: "ok g \<Longrightarrow> nxt g from = Some ns \<Longrightarrow> distinct ns"
begin

lemma walk_total:
  assumes "ok g" and "card (names g - set cs) < fuel"
  shows "\<exists>steps. walk_steps (nxt g) fuel cs = Some steps"
  using assms(2)
proof (induction fuel arbitrary: cs)
  case 0
  then show ?case by simp
next
  case (Suc fuel)
  show ?case
  proof (cases "nxt g cs")
    case None
    then show ?thesis by simp
  next
    case (Some ns)
    show ?thesis
    proof (cases ns)
      case Nil
      then show ?thesis using Some by simp
    next
      case (Cons s ss)
      have "s \<in> names g - set cs" using nxt_ready[OF assms(1) Some] Cons by auto
      then have "names g - set (cs @ s # ss) \<subset> names g - set cs" by auto
      then have "card (names g - set (cs @ s # ss)) < card (names g - set cs)"
        using finite_names[OF assms(1)] by (simp add: psubset_card_mono)
      then show ?thesis
        using Suc.IH[of "cs @ s # ss"] Suc.prems Some Cons by auto
    qed
  qed
qed

lemma walk_ordered:
  assumes "ok g" and "walk_steps (nxt g) fuel cs = Some steps"
  shows "set (concat steps) \<subseteq> names g - set cs \<and> distinct (concat steps) \<and>
     (\<forall>pre s post. steps = pre @ s # post \<longrightarrow>
        (\<forall>n \<in> set s. deps g n \<subseteq> set cs \<union> set (concat pre)))"
  using assms(2)
proof (induction fuel arbitrary: cs steps)
  case 0
  then show ?case by simp
next
  case (Suc fuel)
  obtain ns where ns: "nxt g cs = Some ns" using nxt_total[OF assms(1)] by blast
  show ?case
  proof (cases ns)
    case Nil
    then show ?thesis using Suc.prems ns by simp
  next
    case (Cons a as)
    with Suc.prems ns obtain rest where
      steps: "steps = ns # rest" and rest: "walk_steps (nxt g) fuel (cs @ ns) = Some rest"
      by auto
    note ih = Suc.IH[OF rest]
    have ready: "set ns = {n \<in> names g. n \<notin> set cs \<and> deps g n \<subseteq> set cs}"
      by (rule nxt_ready[OF assms(1) ns])
    have order: "deps g n \<subseteq> set cs \<union> set (concat pre)"
      if "steps = pre @ s # post" and "n \<in> set s" for pre s post n
    proof (cases pre)
      case Nil
      then show ?thesis using that steps ready by auto
    next
      case (Cons b pre')
      then have "rest = pre' @ s # post" "b = ns" using that(1) steps by auto
      then have "deps g n \<subseteq> set (cs @ ns) \<union> set (concat pre')" using ih that(2) by blast
      then show ?thesis using Cons \<open>b = ns\<close> by auto
    qed
    have "set (concat steps) \<subseteq> names g - set cs" "distinct (concat steps)"
      using ih ready steps nxt_distinct[OF assms(1) ns] by auto
    then show ?thesis using order by blast
  qed
qed

text \<open>The walk stops only where nothing is ready.\<close>

lemma walk_stops:
  assumes "ok g" and "walk_steps (nxt g) fuel cs = Some steps"
  shows "nxt g (cs @ concat steps) = Some []"
  using assms(2)
proof (induction fuel arbitrary: cs steps)
  case 0
  then show ?case by simp
next
  case (Suc fuel)
  obtain ns where ns: "nxt g cs = Some ns" using nxt_total[OF assms(1)] by blast
  show ?case
  proof (cases ns)
    case Nil
    then show ?thesis using Suc.prems ns by simp
  next
    case (Cons a as)
    then obtain rest where "steps = ns # rest" "walk_steps (nxt g) fuel (cs @ ns) = Some rest"
      using Suc.prems ns by auto
    then show ?thesis using Suc.IH[of "cs @ ns" rest] by simp
  qed
qed

definition dep_rel :: "'g \<Rightarrow> (string \<times> string) set" where
  "dep_rel g = {(m, n). n \<in> names g \<and> m \<in> deps g n}"

lemma wf_dep_rel:
  assumes "ok g" and "acyclic (dep_rel g)"
  shows "wf (dep_rel g)"
proof -
  have "dep_rel g \<subseteq> names g \<times> names g" using closed[OF assms(1)] by (auto simp: dep_rel_def)
  then have "finite (dep_rel g)" using finite_names[OF assms(1)] by (simp add: finite_subset)
  then show ?thesis using assms(2) by (rule finite_acyclic_wf)
qed

lemma progress:
  assumes "ok g" and "acyclic (dep_rel g)" and "\<not> names g \<subseteq> set from"
  shows "\<exists>n ns. nxt g from = Some (n # ns)"
proof -
  obtain ns where ns: "nxt g from = Some ns" using nxt_total[OF assms(1)] by blast
  obtain n where "n \<in> names g - set from" using assms(3) by blast
  then obtain m where m: "m \<in> names g - set from"
    and least: "\<And>y. (y, m) \<in> dep_rel g \<Longrightarrow> y \<notin> names g - set from"
    by (rule wfE_min[OF wf_dep_rel[OF assms(1,2)]]) blast
  then have "deps g m \<subseteq> set from" using closed[OF assms(1)] by (auto simp: dep_rel_def)
  then have "m \<in> set ns" using m nxt_ready[OF assms(1) ns] by auto
  then show ?thesis using ns by (cases ns) auto
qed

lemma walk_complete:
  assumes "ok g" and "acyclic (dep_rel g)" and "walk_steps (nxt g) fuel cs = Some steps"
  shows "set (concat steps) = names g - set cs"
proof -
  have "names g \<subseteq> set (cs @ concat steps)"
    using progress[OF assms(1,2), of "cs @ concat steps"] walk_stops[OF assms(1,3)] by auto
  then show ?thesis using walk_ordered[OF assms(1,3)] by auto
qed

text \<open>A set of vertices each of which waits for another of the set is never offered.\<close>

lemma cycle_never_offered:
  assumes "ok g" and "nxt g from = Some ns" and "C \<inter> set from = {}"
    and "\<forall>n \<in> C. deps g n \<inter> C \<noteq> {}"
  shows "C \<inter> set ns = {}"
  using nxt_ready[OF assms(1,2)] assms(3,4) by blast

lemma walk_avoids:
  assumes "ok g" and "walk_steps (nxt g) fuel cs = Some steps"
    and "\<forall>n \<in> C. deps g n \<inter> C \<noteq> {}" and "C \<inter> set cs = {}"
  shows "C \<inter> set (concat steps) = {}"
  using assms(2,4)
proof (induction fuel arbitrary: cs steps)
  case 0
  then show ?case by simp
next
  case (Suc fuel)
  obtain ns where ns: "nxt g cs = Some ns" using nxt_total[OF assms(1)] by blast
  have avoid: "C \<inter> set ns = {}" using cycle_never_offered[OF assms(1) ns Suc.prems(2) assms(3)] .
  show ?case
  proof (cases ns)
    case Nil
    then show ?thesis using Suc.prems ns by simp
  next
    case (Cons a as)
    then obtain rest where rest: "steps = ns # rest" "walk_steps (nxt g) fuel (cs @ ns) = Some rest"
      using Suc.prems ns by auto
    have "C \<inter> set (cs @ ns) = {}" using avoid Suc.prems(2) by auto
    then show ?thesis using Suc.IH[OF rest(2)] rest(1) avoid by auto
  qed
qed

end

text \<open>A graph is in order when its invariant holds and \<open>Valid\<close> accepts it.\<close>

definition graph_ok :: "'a dag \<Rightarrow> bool" where
  "graph_ok d \<longleftrightarrow> dag_ok d \<and> Valid d = Inr ()"

lemma finite_names_of [simp]: "finite (names_of d)"
  by (simp add: names_of_dom finite_dom_map_of)

interpretation dw: dependency_walk graph_ok names_of deps_of next_step
proof unfold_locales
  fix g :: "'a dag" and fr n ns
  assume ok: "graph_ok g"
  show "finite (names_of g)" by simp
  show "n \<in> names_of g \<Longrightarrow> deps_of g n \<subseteq> names_of g"
    using ok Valid_iff_closed[of g] by (auto simp: graph_ok_def)
  show "next_step g fr \<noteq> None"
    using ok Next_ok_iff[of g fr] by (auto simp: graph_ok_def next_step_def)
  assume "next_step g fr = Some ns"
  then have "Next g fr = Inr ns" by (simp add: next_step_def split: sum.splits)
  then show "set ns = {n \<in> names_of g. n \<notin> set fr \<and> deps_of g n \<subseteq> set fr}" and "distinct ns"
    using ok set_Next distinct_Next by (auto simp: graph_ok_def)
qed

section \<open>Properties\<close>

lemma sorted_distinct_eq:
  "sorted xs \<Longrightarrow> distinct xs \<Longrightarrow> set xs = A \<Longrightarrow> xs = sorted_list_of_set A"
  using sorted_list_of_set.idem_if_sorted_distinct[of xs] by simp

lemma add_all_New:
  fixes ps :: "(string \<times> 'a \<times> string list) list"
  assumes "distinct (map fst ps)"
  obtains d where "add_all New ps = Inr d" "dag_ok d" "names_of d = set (map fst ps)"
    "\<forall>(n, x, ds) \<in> set ps. deps_of d n = set ds \<and> obj_of d n = Some x"
proof -
  have New: "names_of (New :: 'a dag) = {}" by (simp add: names_of_dom New_def)
  then have "set (map fst ps) \<inter> names_of (New :: 'a dag) = {}" by simp
  from add_all_views[OF assms this dag_ok_New] show ?thesis using that New by blast
qed

text \<open>
  Building a graph from packages with distinct names never fails, whatever order the packages
  come in and however their dependencies point forwards or backwards; the graph has exactly those
  packages, each with its object and exactly its declared dependencies (a package that was a
  placeholder first loses none), its invariant holds, and \<open>Valid\<close> accepts it exactly when every
  dependency is itself a package.
\<close>

theorem build_graph_correct:
  assumes "distinct (map fst ps)"
  shows "\<exists>d. add_all New ps = Inr d \<and> dag_ok d \<and> names_of d = set (map fst ps) \<and>
     (\<forall>(n, x, ds) \<in> set ps. deps_of d n = set ds \<and> obj_of d n = Some x) \<and>
     (Valid d = Inr () \<longleftrightarrow> (\<forall>(n, x, ds) \<in> set ps. set ds \<subseteq> set (map fst ps)))"
proof -
  obtain d where d: "add_all New ps = Inr d" "dag_ok d" "names_of d = set (map fst ps)"
    and views: "\<forall>(n, x, ds) \<in> set ps. deps_of d n = set ds \<and> obj_of d n = Some x"
    using add_all_New[OF assms] .
  have "Valid d = Inr () \<longleftrightarrow> (\<forall>(n, x, ds) \<in> set ps. set ds \<subseteq> set (map fst ps))"
    using Valid_iff_closed[OF d(2)] d(3) views by fastforce
  then show ?thesis using d views by blast
qed

theorem build_graph_correct_witness:
  "\<exists>d. add_all New [(''a'', 1 :: int, [''b'']), (''b'', 2, [])] = Inr d \<and> dag_ok d \<and>
     names_of d = {''a'', ''b''} \<and> Valid d = Inr ()"
  using build_graph_correct[of "[(''a'', 1 :: int, [''b'']), (''b'', 2, [])]"] by auto

text \<open>
  On a graph in order, \<open>Next\<close> returns, in alphabetical order and without repetition, exactly the
  vertices that are not done and whose dependencies are all done.
\<close>

theorem Next_exact:
  assumes "graph_ok d"
  shows "Next d fr = Inr (sorted_list_of_set {n \<in> names_of d. n \<notin> set fr \<and> deps_of d n \<subseteq> set fr})"
proof -
  obtain ns where ns: "Next d fr = Inr ns" using assms Next_ok_iff[of d fr] by (auto simp: graph_ok_def)
  have "dag_ok d" using assms by (simp add: graph_ok_def)
  then show ?thesis
    using sorted_distinct_eq[OF sorted_Next[OF ns] distinct_Next[OF _ ns] set_Next[OF _ ns]] ns by simp
qed

text \<open>A graph of three packages, built in an order that needs a placeholder.\<close>

definition sample_graph :: "int dag" where
  "sample_graph =
     (case add_all New [(''c'', 3, [''a'', ''b'']), (''a'', 1, []), (''b'', 2, [''a''])] of
        Inr d \<Rightarrow> d | Inl _ \<Rightarrow> New)"

lemma sample_graph_ok: "graph_ok sample_graph"
  and sample_graph_views: "names_of sample_graph = {''a'', ''b'', ''c''}"
    "deps_of sample_graph ''a'' = {}" "deps_of sample_graph ''b'' = {''a''}"
    "deps_of sample_graph ''c'' = {''a'', ''b''}"
proof -
  let ?ps = "[(''c'', 3, [''a'', ''b'']), (''a'', 1, []), (''b'', 2, [''a''])] :: (string \<times> int \<times> string list) list"
  obtain d where d: "add_all New ?ps = Inr d" "dag_ok d"
    "names_of d = {''a'', ''b'', ''c''}"
    "deps_of d ''a'' = {}" "deps_of d ''b'' = {''a''}" "deps_of d ''c'' = {''a'', ''b''}"
    by (rule add_all_New[of ?ps]) (simp_all add: insert_commute del: add_all.simps)
  then have "d = sample_graph" by (simp add: sample_graph_def del: add_all.simps)
  moreover have "Valid sample_graph = Inr ()" by code_simp
  ultimately show "graph_ok sample_graph" "names_of sample_graph = {''a'', ''b'', ''c''}"
    "deps_of sample_graph ''a'' = {}" "deps_of sample_graph ''b'' = {''a''}"
    "deps_of sample_graph ''c'' = {''a'', ''b''}"
    using d by (auto simp add: graph_ok_def)
qed

theorem Next_exact_witness: "graph_ok sample_graph \<and> Next sample_graph [''a''] = Inr [''b'']"
proof -
  have "{n \<in> names_of sample_graph. n \<notin> set [''a''] \<and> deps_of sample_graph n \<subseteq> set [''a'']} = {''b''}"
  proof -
    have "Next sample_graph [''a''] = Inr [''b'']" by code_simp
    then show ?thesis using set_Next[of sample_graph "[''a'']" "[''b'']"] sample_graph_ok
      by (simp add: graph_ok_def)
  qed
  then show ?thesis using Next_exact[OF sample_graph_ok, of "[''a'']"] sample_graph_ok by simp
qed

text \<open>
  C14. Walking a graph in order whose dependencies have no cycle ends, takes every package exactly
  once, and takes a package only in a step after those of all its dependencies; as many rounds as
  there are packages, and one more, are enough.
\<close>

theorem walk_correct:
  assumes "graph_ok d" and "acyclic (dw.dep_rel d)"
  shows "\<exists>steps. walk_steps (next_step d) (Suc (card (names_of d))) [] = Some steps \<and>
     set (concat steps) = names_of d \<and> distinct (concat steps) \<and>
     (\<forall>pre s post. steps = pre @ s # post \<longrightarrow> (\<forall>n \<in> set s. deps_of d n \<subseteq> set (concat pre)))"
proof -
  obtain steps where steps: "walk_steps (next_step d) (Suc (card (names_of d))) [] = Some steps"
    using dw.walk_total[OF assms(1), of "[]" "Suc (card (names_of d))"] by (auto simp del: walk_steps.simps)
  then show ?thesis
    using dw.walk_complete[OF assms steps] dw.walk_ordered[OF assms(1) steps]
    by (auto simp del: walk_steps.simps)
qed

theorem walk_correct_witness:
  "graph_ok sample_graph \<and> acyclic (dw.dep_rel sample_graph) \<and>
   (\<exists>steps. walk_steps (next_step sample_graph) (Suc (card (names_of sample_graph))) [] = Some steps \<and>
      set (concat steps) = names_of sample_graph)"
proof -
  let ?r = "\<lambda>n :: string. if n = ''a'' then 0 else if n = ''b'' then 1 else (2 :: nat)"
  have "dw.dep_rel sample_graph \<subseteq> measure ?r"
  proof (rule subrelI)
    fix m n assume "(m, n) \<in> dw.dep_rel sample_graph"
    then have "n \<in> {''a'', ''b'', ''c''}" and m: "m \<in> deps_of sample_graph n"
      unfolding dw.dep_rel_def sample_graph_views(1) by blast+
    then consider "n = ''a''" | "n = ''b''" | "n = ''c''" by blast
    then have "?r m < ?r n" using m by cases (simp_all add: sample_graph_views, fastforce)
    then show "(m, n) \<in> measure ?r" by simp
  qed
  then have "acyclic (dw.dep_rel sample_graph)"
    by (meson acyclic_subset wf_acyclic wf_measure)
  with walk_correct[OF sample_graph_ok this] sample_graph_ok show ?thesis
    by blast
qed

text \<open>
  \<open>Valid\<close> does not look for cycles: a graph whose packages depend on each other is accepted, and
  no walk ever offers any package of a set in which each waits for another of the set.
\<close>

theorem cycle_accepted_and_stuck:
  assumes "distinct (map fst ps)" and "\<forall>(n, x, ds) \<in> set ps. set ds \<subseteq> set (map fst ps)"
    and "C \<subseteq> set (map fst ps)" and "\<forall>(n, x, ds) \<in> set ps. n \<in> C \<longrightarrow> set ds \<inter> C \<noteq> {}"
  shows "\<exists>d. add_all New ps = Inr d \<and> Valid d = Inr () \<and>
     (\<forall>fuel. \<forall>steps. walk_steps (next_step d) fuel [] = Some steps \<longrightarrow> C \<inter> set (concat steps) = {})"
proof -
  obtain d where d: "add_all New ps = Inr d" "dag_ok d" "names_of d = set (map fst ps)"
    and views: "\<forall>(n, x, ds) \<in> set ps. deps_of d n = set ds \<and> obj_of d n = Some x"
    using add_all_New[OF assms(1)] .
  have entry: "\<exists>x ds. (n, x, ds) \<in> set ps" if "n \<in> set (map fst ps)" for n
    using that by (metis imageE prod.collapse set_map)
  have ok: "graph_ok d"
  proof -
    have "deps_of d n \<subseteq> names_of d" if n: "n \<in> names_of d" for n
    proof -
      obtain x ds where "(n, x, ds) \<in> set ps" using n d(3) entry by metis
      then show ?thesis using views assms(2) d(3) by fastforce
    qed
    then show ?thesis using Valid_iff_closed[OF d(2)] d(2) by (simp add: graph_ok_def)
  qed
  have cyc: "\<forall>n \<in> C. deps_of d n \<inter> C \<noteq> {}"
  proof
    fix n assume n: "n \<in> C"
    then obtain x ds where "(n, x, ds) \<in> set ps" using entry assms(3) by (metis subsetD)
    then show "deps_of d n \<inter> C \<noteq> {}" using n views assms(4) by fastforce
  qed
  have "C \<inter> set (concat steps) = {}" if w: "walk_steps (next_step d) fuel [] = Some steps" for fuel steps
    using dw.walk_avoids[OF ok w cyc] by simp
  then show ?thesis using d(1) ok by (auto simp: graph_ok_def)
qed

theorem cycle_accepted_and_stuck_witness:
  "\<exists>d. add_all New [(''a'', 1 :: int, [''b'']), (''b'', 2, [''a''])] = Inr d \<and> Valid d = Inr () \<and>
     (\<forall>fuel steps. walk_steps (next_step d) fuel [] = Some steps \<longrightarrow>
        {''a'', ''b''} \<inter> set (concat steps) = {})"
  by (rule cycle_accepted_and_stuck) auto

end
