(* ===== verification/Labels.thy ===== *)
theory Labels
  imports Prelude
begin

text \<open>
  Kubernetes label selectors, as the operator uses them to choose nodes:
  \<open>operator/vendor/k8s.io/apimachinery/pkg/apis/meta/v1/helpers.go\<close> (\<open>LabelSelectorAsSelector\<close>),
  \<open>pkg/labels/selector.go\<close> (\<open>NewRequirement\<close>, \<open>Matches\<close>) and
  \<open>pkg/api/validate/content/kube.go\<close>, \<open>dns.go\<close> (the format of keys and values).
\<close>

section \<open>Label keys and values\<close>

definition is_lower_alnum :: "char \<Rightarrow> bool" where
  "is_lower_alnum c \<longleftrightarrow>
     (let n = of_char c :: nat in (97 \<le> n \<and> n \<le> 122) \<or> (48 \<le> n \<and> n \<le> 57))"

definition is_alnum :: "char \<Rightarrow> bool" where
  "is_alnum c \<longleftrightarrow> is_lower_alnum c \<or> (let n = of_char c :: nat in 65 \<le> n \<and> n \<le> 90)"

text \<open>\<open>strings.Split\<close> on a one character separator: never empty.\<close>

fun split_on :: "char \<Rightarrow> string \<Rightarrow> string list" where
  "split_on sep [] = [[]]"
| "split_on sep (c # cs) =
     (if c = sep then [] # split_on sep cs
      else case split_on sep cs of [] \<Rightarrow> [[c]] | p # ps \<Rightarrow> (c # p) # ps)"

text \<open>\<open>dns1123LabelFmt\<close> and \<open>labelKeyFmt\<close>: a first and a last character, and what stands between.\<close>

definition framed_by :: "(char \<Rightarrow> bool) \<Rightarrow> (char \<Rightarrow> bool) \<Rightarrow> string \<Rightarrow> bool" where
  "framed_by ends inner s \<longleftrightarrow> s \<noteq> [] \<and> ends (hd s) \<and> ends (last s) \<and> list_all inner s"

definition is_dns_label :: "string \<Rightarrow> bool" where
  "is_dns_label s = framed_by is_lower_alnum (\<lambda>c. is_lower_alnum c \<or> c = CHR ''-'') s"

definition IsDNS1123Subdomain :: "string \<Rightarrow> bool" where
  "IsDNS1123Subdomain s \<longleftrightarrow> length s \<le> 253 \<and> list_all is_dns_label (split_on CHR ''.'' s)"

definition matches_label_key :: "string \<Rightarrow> bool" where
  "matches_label_key s =
     framed_by is_alnum (\<lambda>c. is_alnum c \<or> c = CHR ''-'' \<or> c = CHR ''_'' \<or> c = CHR ''.'') s"

definition IsLabelKey :: "string \<Rightarrow> bool" where
  "IsLabelKey s =
     (let name_ok = (\<lambda>n. n \<noteq> [] \<and> length n \<le> 63 \<and> matches_label_key n)
      in case split_on CHR ''/'' s of
           [n] \<Rightarrow> name_ok n
         | [p, n] \<Rightarrow> p \<noteq> [] \<and> IsDNS1123Subdomain p \<and> name_ok n
         | _ \<Rightarrow> False)"

definition IsLabelValue :: "string \<Rightarrow> bool" where
  "IsLabelValue s \<longleftrightarrow> length s \<le> 63 \<and> (s = [] \<or> matches_label_key s)"

section \<open>Selectors\<close>

datatype LabelSelectorOperator = OpIn | OpNotIn | OpExists | OpDoesNotExist | OpOther string

text \<open>A nil map or slice is \<open>None\<close>: \<open>reflect.DeepEqual\<close> tells it from an empty one.\<close>

record LabelSelectorRequirement =
  req_key :: string
  req_op :: LabelSelectorOperator
  req_values :: "string list option"

record LabelSelector =
  matchLabels :: "(string, string) gomap option"
  matchExpressions :: "LabelSelectorRequirement list option"

datatype requirement =
    ReqIn string "string list"
  | ReqNotIn string "string list"
  | ReqExists string
  | ReqDoesNotExist string

definition NewRequirement :: "string \<Rightarrow> LabelSelectorOperator \<Rightarrow> string list \<Rightarrow> requirement option" where
  "NewRequirement key op vals =
     (if \<not> IsLabelKey key \<or> \<not> list_all IsLabelValue vals then None
      else case op of
             OpIn \<Rightarrow> if vals = [] then None else Some (ReqIn key vals)
           | OpNotIn \<Rightarrow> if vals = [] then None else Some (ReqNotIn key vals)
           | OpExists \<Rightarrow> if vals \<noteq> [] then None else Some (ReqExists key)
           | OpDoesNotExist \<Rightarrow> if vals \<noteq> [] then None else Some (ReqDoesNotExist key)
           | OpOther _ \<Rightarrow> None)"

fun collect_some :: "'a option list \<Rightarrow> 'a list option" where
  "collect_some [] = Some []"
| "collect_some (None # xs) = None"
| "collect_some (Some x # xs) = map_option (\<lambda>ys. x # ys) (collect_some xs)"

text \<open>
  The requirements of a selector, or \<open>None\<close> when the source returns an error.  The requirement of
  a label equality is an \<open>In\<close> with one value; no requirement at all is \<open>labels.Everything()\<close>.
\<close>

definition LabelSelectorAsSelector :: "LabelSelector \<Rightarrow> requirement list option" where
  "LabelSelectorAsSelector ps =
     collect_some
       (map (\<lambda>(k, v). NewRequirement k OpIn [v]) (case matchLabels ps of None \<Rightarrow> [] | Some m \<Rightarrow> m) @
        map (\<lambda>e. NewRequirement (req_key e) (req_op e)
            (case req_values e of None \<Rightarrow> [] | Some vs \<Rightarrow> vs))
          (case matchExpressions ps of None \<Rightarrow> [] | Some es \<Rightarrow> es))"

fun requirement_matches :: "(string, string) gomap \<Rightarrow> requirement \<Rightarrow> bool" where
  "requirement_matches ls (ReqIn k vs) = (case map_of ls k of None \<Rightarrow> False | Some v \<Rightarrow> v \<in> set vs)"
| "requirement_matches ls (ReqNotIn k vs) = (case map_of ls k of None \<Rightarrow> True | Some v \<Rightarrow> v \<notin> set vs)"
| "requirement_matches ls (ReqExists k) = (map_of ls k \<noteq> None)"
| "requirement_matches ls (ReqDoesNotExist k) = (map_of ls k = None)"

definition selector_matches :: "requirement list \<Rightarrow> (string, string) gomap \<Rightarrow> bool" where
  "selector_matches rs ls = list_all (requirement_matches ls) rs"

text \<open>\<open>reflect.DeepEqual\<close> on two selectors: maps are compared as maps, slices in order.\<close>

definition same_gomap :: "('k, 'v) gomap \<Rightarrow> ('k, 'v) gomap \<Rightarrow> bool" where
  "same_gomap m m' \<longleftrightarrow>
     length m = length m' \<and> list_all (\<lambda>k. map_of m k = map_of m' k) (gkeys m @ gkeys m')"

definition selector_equal :: "LabelSelector \<Rightarrow> LabelSelector \<Rightarrow> bool" where
  "selector_equal s s' \<longleftrightarrow>
     matchExpressions s = matchExpressions s' \<and>
     (case (matchLabels s, matchLabels s') of
        (None, None) \<Rightarrow> True
      | (Some m, Some m') \<Rightarrow> same_gomap m m'
      | _ \<Rightarrow> False)"

section \<open>Lemmas\<close>

lemma same_gomap_iff:
  assumes "gomap_ok m" and "gomap_ok m'"
  shows "same_gomap m m' \<longleftrightarrow> map_of m = map_of m'"
proof
  assume s: "same_gomap m m'"
  show "map_of m = map_of m'"
  proof
    fix k
    show "map_of m k = map_of m' k"
    proof (cases "k \<in> set (gkeys m @ gkeys m')")
      case True
      then show ?thesis using s by (auto simp: same_gomap_def list_all_iff)
    next
      case False
      then show ?thesis using gkeys_lookup[of k m] gkeys_lookup[of k m'] by auto
    qed
  qed
next
  assume "map_of m = map_of m'"
  then show "same_gomap m m'"
    using map_of_eq_length[OF assms] by (simp add: same_gomap_def list_all_iff)
qed

lemma collect_some_map:
  "collect_some xs = Some ys \<longleftrightarrow> xs = map Some ys"
proof (induction xs arbitrary: ys)
  case (Cons x xs)
  then show ?case by (cases x) (auto simp: map_eq_Cons_conv Cons_eq_map_conv)
qed auto

text \<open>Selecting with no label and no expression selects every node.\<close>

lemma selector_everything:
  "matchLabels s = None \<Longrightarrow> matchExpressions s = None \<Longrightarrow>
     LabelSelectorAsSelector s = Some [] \<and> selector_matches [] ls"
  by (simp add: LabelSelectorAsSelector_def selector_matches_def)

text \<open>A selector of label equalities selects the nodes that carry all of them.\<close>

lemma selector_labels:
  assumes "matchLabels s = Some m" and "matchExpressions s = None"
    and "LabelSelectorAsSelector s = Some rs"
  shows "selector_matches rs ls \<longleftrightarrow> (\<forall>(k, v) \<in> set m. map_of ls k = Some v)"
proof -
  have "map (\<lambda>(k, v). NewRequirement k OpIn [v]) m = map Some rs"
    using assms by (simp add: LabelSelectorAsSelector_def collect_some_map)
  then have "selector_matches rs ls \<longleftrightarrow> (\<forall>(k, v) \<in> set m. map_of ls k = Some v)"
  proof (induction m arbitrary: rs)
    case Nil
    then show ?case by (simp add: selector_matches_def)
  next
    case (Cons p m)
    obtain k v where p: "p = (k, v)" by (cases p)
    with Cons.prems obtain r rs' where rs: "rs = r # rs'" "NewRequirement k OpIn [v] = Some r"
      and tl: "map (\<lambda>(k, v). NewRequirement k OpIn [v]) m = map Some rs'"
      by (cases rs) auto
    have "r = ReqIn k [v]" using rs(2) by (simp add: NewRequirement_def split: if_splits)
    then have "requirement_matches ls r \<longleftrightarrow> map_of ls k = Some v"
      by (simp split: option.splits)
    then show ?case using Cons.IH[OF tl] p rs(1) by (simp add: selector_matches_def)
  qed
  then show ?thesis .
qed

end
