(* ===== verification/Deployment_Policy.thy ===== *)
theory Deployment_Policy
  imports Labels
begin

text \<open>
  Deployment policies and their batch strategies:
  \<open>operator/api/nodewright/v1alpha1/deployment_policy_types.go\<close> and
  \<open>deployment_policy_webhook.go\<close>.

  The optional fields (\<open>*int\<close>) of a strategy are options.  A method that dereferences a nil
  field panics in Go; here it returns \<open>None\<close>.  Arithmetic on \<open>int\<close> wraps at 64 bits, division
  truncates towards zero.  The interface \<open>batch_strategy\<close> states what the rollout relies on (a size
  between one and the number of nodes left); the three strategies and the defaulted
  \<open>DeploymentStrategy\<close> are its instances.
\<close>

section \<open>Data\<close>

record FixedStrategy =
  fx_InitialBatch :: "int option"
  fx_BatchThreshold :: "int option"
  fx_FailureThreshold :: "int option"
  fx_SafetyLimit :: "int option"

record LinearStrategy =
  ln_InitialBatch :: "int option"
  ln_Delta :: "int option"
  ln_BatchThreshold :: "int option"
  ln_FailureThreshold :: "int option"
  ln_SafetyLimit :: "int option"

record ExponentialStrategy =
  ex_InitialBatch :: "int option"
  ex_GrowthFactor :: "int option"
  ex_BatchThreshold :: "int option"
  ex_FailureThreshold :: "int option"
  ex_SafetyLimit :: "int option"

record DeploymentStrategy =
  Fixed :: "FixedStrategy option"
  Linear :: "LinearStrategy option"
  Exponential :: "ExponentialStrategy option"

record DeploymentBudget =
  Percent :: "int option"
  Count :: "int option"

definition DefaultCompartmentName :: string where
  "DefaultCompartmentName = ''__default__''"

record PolicyDefault =
  pd_Budget :: DeploymentBudget
  pd_Strategy :: "DeploymentStrategy option"

record Compartment =
  cp_Name :: string
  cp_Selector :: LabelSelector
  cp_Budget :: DeploymentBudget
  cp_Strategy :: "DeploymentStrategy option"

record DeploymentPolicySpec =
  Default :: PolicyDefault
  Compartments :: "Compartment list"
  ResetBatchStateOnCompletion :: "bool option"

record DeploymentPolicy =
  dp_Name :: string
  dp_Spec :: DeploymentPolicySpec

record BatchProcessingState =
  CurrentBatch :: int
  ConsecutiveFailures :: int
  CompletedNodes :: int
  FailedNodes :: int
  ShouldStop :: bool
  LastBatchSize :: int
  LastBatchFailed :: bool

section \<open>Defaults\<close>

definition or_default :: "'a \<Rightarrow> 'a option \<Rightarrow> 'a option" where
  "or_default d x = (case x of None \<Rightarrow> Some d | Some v \<Rightarrow> Some v)"

definition FixedStrategy_Default :: "FixedStrategy \<Rightarrow> FixedStrategy" where
  "FixedStrategy_Default s =
     s\<lparr>fx_InitialBatch := or_default 1 (fx_InitialBatch s),
       fx_BatchThreshold := or_default 100 (fx_BatchThreshold s),
       fx_SafetyLimit := or_default 50 (fx_SafetyLimit s)\<rparr>"

definition LinearStrategy_Default :: "LinearStrategy \<Rightarrow> LinearStrategy" where
  "LinearStrategy_Default s =
     s\<lparr>ln_InitialBatch := or_default 1 (ln_InitialBatch s),
       ln_BatchThreshold := or_default 100 (ln_BatchThreshold s),
       ln_SafetyLimit := or_default 50 (ln_SafetyLimit s),
       ln_Delta := or_default 1 (ln_Delta s)\<rparr>"

definition ExponentialStrategy_Default :: "ExponentialStrategy \<Rightarrow> ExponentialStrategy" where
  "ExponentialStrategy_Default s =
     s\<lparr>ex_InitialBatch := or_default 1 (ex_InitialBatch s),
       ex_BatchThreshold := or_default 100 (ex_BatchThreshold s),
       ex_SafetyLimit := or_default 50 (ex_SafetyLimit s),
       ex_GrowthFactor := or_default 2 (ex_GrowthFactor s)\<rparr>"

text \<open>The \<open>switch\<close> of the source: only the first strategy that is set gets its defaults.\<close>

definition DeploymentStrategy_Default :: "DeploymentStrategy \<Rightarrow> DeploymentStrategy" where
  "DeploymentStrategy_Default s =
     (case Fixed s of
        Some f \<Rightarrow> s\<lparr>Fixed := Some (FixedStrategy_Default f)\<rparr>
      | None \<Rightarrow>
          (case Linear s of
             Some l \<Rightarrow> s\<lparr>Linear := Some (LinearStrategy_Default l)\<rparr>
           | None \<Rightarrow>
               (case Exponential s of
                  Some e \<Rightarrow> s\<lparr>Exponential := Some (ExponentialStrategy_Default e)\<rparr>
                | None \<Rightarrow> s)))"

definition DeploymentPolicy_Default :: "DeploymentPolicy \<Rightarrow> DeploymentPolicy" where
  "DeploymentPolicy_Default p =
     (let sp = dp_Spec p; d = Default sp
      in p\<lparr>dp_Spec := sp
             \<lparr>Default := d\<lparr>pd_Strategy := map_option DeploymentStrategy_Default (pd_Strategy d)\<rparr>,
              Compartments := map (\<lambda>c. c\<lparr>cp_Strategy := map_option DeploymentStrategy_Default (cp_Strategy c)\<rparr>)
                (Compartments sp)\<rparr>\<rparr>)"

section \<open>Validation\<close>

datatype policy_error =
    NotOneStrategy
  | BudgetMissing
  | BudgetBoth
  | CompartmentBudget string policy_error
  | CompartmentStrategy string policy_error
  | InvalidSelector string
  | DefaultBudget policy_error
  | DefaultStrategy policy_error
  | ReservedName string
  | DuplicateName string
  | CompartmentInvalid string policy_error
  | IdenticalSelector string string
  | StillReferenced string "string list"

definition DeploymentStrategy_Validate :: "DeploymentStrategy \<Rightarrow> policy_error + unit" where
  "DeploymentStrategy_Validate s =
     (let count = (if Fixed s \<noteq> None then 1 else 0) + (if Linear s \<noteq> None then 1 else 0) +
                  (if Exponential s \<noteq> None then 1 else (0 :: int))
      in if count \<noteq> 1 then Inl NotOneStrategy else Inr ())"

definition DeploymentBudget_Validate :: "DeploymentBudget \<Rightarrow> policy_error + unit" where
  "DeploymentBudget_Validate b =
     (if Percent b = None \<and> Count b = None then Inl BudgetMissing
      else if Percent b \<noteq> None \<and> Count b \<noteq> None then Inl BudgetBoth
      else Inr ())"

definition Compartment_Validate :: "Compartment \<Rightarrow> policy_error + unit" where
  "Compartment_Validate c =
     (case DeploymentBudget_Validate (cp_Budget c) of
        Inl e \<Rightarrow> Inl (CompartmentBudget (cp_Name c) e)
      | Inr _ \<Rightarrow>
          (case (case cp_Strategy c of None \<Rightarrow> Inr () | Some s \<Rightarrow> DeploymentStrategy_Validate s) of
             Inl e \<Rightarrow> Inl (CompartmentStrategy (cp_Name c) e)
           | Inr _ \<Rightarrow>
               if LabelSelectorAsSelector (cp_Selector c) = None then Inl (InvalidSelector (cp_Name c))
               else Inr ()))"

text \<open>The loop over the compartments, with the names and selectors seen so far.\<close>

fun validate_compartments ::
  "string list \<Rightarrow> (string, LabelSelector) gomap \<Rightarrow> Compartment list \<Rightarrow> policy_error + unit" where
  "validate_compartments names selectors [] = Inr ()"
| "validate_compartments names selectors (c # cs) =
     (if cp_Name c = DefaultCompartmentName then Inl (ReservedName (cp_Name c))
      else if cp_Name c \<in> set names then Inl (DuplicateName (cp_Name c))
      else case Compartment_Validate c of
             Inl e \<Rightarrow> Inl (CompartmentInvalid (cp_Name c) e)
           | Inr _ \<Rightarrow>
               (case List.find (\<lambda>(n, sel). selector_equal (cp_Selector c) sel) selectors of
                  Some (n, _) \<Rightarrow> Inl (IdenticalSelector (cp_Name c) n)
                | None \<Rightarrow>
                    validate_compartments (cp_Name c # names) (gput (cp_Name c) (cp_Selector c) selectors) cs))"

definition DeploymentPolicy_Validate :: "DeploymentPolicy \<Rightarrow> policy_error + unit" where
  "DeploymentPolicy_Validate p =
     (let sp = dp_Spec p
      in case DeploymentBudget_Validate (pd_Budget (Default sp)) of
           Inl e \<Rightarrow> Inl (DefaultBudget e)
         | Inr _ \<Rightarrow>
             (case (case pd_Strategy (Default sp) of None \<Rightarrow> Inr () | Some s \<Rightarrow> DeploymentStrategy_Validate s) of
                Inl e \<Rightarrow> Inl (DefaultStrategy e)
              | Inr _ \<Rightarrow> validate_compartments [] [] (Compartments sp)))"

text \<open>
  \<open>ValidateDelete\<close>, with the (name, referenced policy) pairs of the NodeWrights the client lists.
\<close>

definition DeploymentPolicy_ValidateDelete :: "(string \<times> string) list \<Rightarrow> DeploymentPolicy \<Rightarrow> policy_error + unit" where
  "DeploymentPolicy_ValidateDelete skyhooks p =
     (let refs = map fst (filter (\<lambda>(n, pol). pol = dp_Name p) skyhooks)
      in if refs \<noteq> [] then Inl (StillReferenced (dp_Name p) refs) else Inr ())"

section \<open>Batch sizes\<close>

definition processed_nodes :: "BatchProcessingState \<Rightarrow> int" where
  "processed_nodes st = wrap64 (CompletedNodes st + FailedNodes st)"

definition progress_percent :: "BatchProcessingState \<Rightarrow> int \<Rightarrow> int" where
  "progress_percent st totalNodes = wrap64 (wrap64 (processed_nodes st * 100) sdiv totalNodes)"

text \<open>The tail the three strategies share: nothing left is 0, otherwise between 1 and what is left.\<close>

definition cap_remaining :: "int \<Rightarrow> BatchProcessingState \<Rightarrow> int \<Rightarrow> int" where
  "cap_remaining totalNodes st batchSize =
     (let remaining = wrap64 (totalNodes - processed_nodes st)
      in if remaining \<le> 0 then 0
         else max 1 (if batchSize > remaining then remaining else batchSize))"

definition Fixed_CalculateBatchSize :: "FixedStrategy \<Rightarrow> int \<Rightarrow> BatchProcessingState \<Rightarrow> int option" where
  "Fixed_CalculateBatchSize s totalNodes st =
     (case fx_InitialBatch s of None \<Rightarrow> None | Some b \<Rightarrow> Some (cap_remaining totalNodes st b))"

definition Linear_CalculateBatchSize :: "LinearStrategy \<Rightarrow> int \<Rightarrow> BatchProcessingState \<Rightarrow> int option" where
  "Linear_CalculateBatchSize s totalNodes st =
     (if totalNodes = 0 then Some 0
      else map_option (cap_remaining totalNodes st)
        (if LastBatchSize st > 0 then
           (case (if LastBatchFailed st
                  then map_option (\<lambda>l. progress_percent st totalNodes < l) (ln_SafetyLimit s)
                  else Some False) of
              None \<Rightarrow> None
            | Some slow \<Rightarrow>
                map_option (\<lambda>d. if slow then max 1 (wrap64 (LastBatchSize st - d))
                                else wrap64 (LastBatchSize st + d)) (ln_Delta s))
         else ln_InitialBatch s))"

definition Exponential_CalculateBatchSize ::
  "ExponentialStrategy \<Rightarrow> int \<Rightarrow> BatchProcessingState \<Rightarrow> int option" where
  "Exponential_CalculateBatchSize s totalNodes st =
     (if totalNodes = 0 then Some 0
      else map_option (cap_remaining totalNodes st)
        (case (if LastBatchSize st > 0 then map_option (\<lambda>g. g > 0) (ex_GrowthFactor s) else Some False) of
           None \<Rightarrow> None
         | Some False \<Rightarrow> ex_InitialBatch s
         | Some True \<Rightarrow>
             (case (if LastBatchFailed st
                    then map_option (\<lambda>l. progress_percent st totalNodes < l) (ex_SafetyLimit s)
                    else Some False) of
                None \<Rightarrow> None
              | Some slow \<Rightarrow>
                  map_option (\<lambda>g. let b = (if slow then max 1 (wrap64 (LastBatchSize st sdiv g))
                                           else wrap64 (LastBatchSize st * g))
                                  in if b > totalNodes then totalNodes else b) (ex_GrowthFactor s))))"

definition CalculateBatchSize :: "DeploymentStrategy \<Rightarrow> int \<Rightarrow> BatchProcessingState \<Rightarrow> int option" where
  "CalculateBatchSize s totalNodes st =
     (case Fixed s of
        Some f \<Rightarrow> Fixed_CalculateBatchSize f totalNodes st
      | None \<Rightarrow>
          (case Linear s of
             Some l \<Rightarrow> Linear_CalculateBatchSize l totalNodes st
           | None \<Rightarrow>
               (case Exponential s of
                  Some e \<Rightarrow> Exponential_CalculateBatchSize e totalNodes st
                | None \<Rightarrow> Some 1)))"

section \<open>Evaluating a batch\<close>

text \<open>The getters are nil-safe: \<open>None\<close> is a nil strategy.  Each case tests its own field.\<close>

fun first_some :: "'a option list \<Rightarrow> 'a option" where
  "first_some [] = None"
| "first_some (None # xs) = first_some xs"
| "first_some (Some x # xs) = Some x"

definition getBatchThreshold :: "DeploymentStrategy option \<Rightarrow> int" where
  "getBatchThreshold so =
     (case so of
        None \<Rightarrow> 100
      | Some s \<Rightarrow>
          (case first_some [Option.bind (Fixed s) fx_BatchThreshold, Option.bind (Linear s) ln_BatchThreshold,
                            Option.bind (Exponential s) ex_BatchThreshold] of
             Some b \<Rightarrow> b | None \<Rightarrow> 100))"

definition getSafetyLimit :: "DeploymentStrategy option \<Rightarrow> int" where
  "getSafetyLimit so =
     (case so of
        None \<Rightarrow> 50
      | Some s \<Rightarrow>
          (case first_some [Option.bind (Fixed s) fx_SafetyLimit, Option.bind (Linear s) ln_SafetyLimit,
                            Option.bind (Exponential s) ex_SafetyLimit] of
             Some b \<Rightarrow> b | None \<Rightarrow> 50))"

definition getFailureThreshold :: "DeploymentStrategy option \<Rightarrow> int option" where
  "getFailureThreshold so =
     (case so of
        None \<Rightarrow> None
      | Some s \<Rightarrow>
          (case Fixed s of
             Some f \<Rightarrow> fx_FailureThreshold f
           | None \<Rightarrow>
               (case Linear s of
                  Some l \<Rightarrow> ln_FailureThreshold l
                | None \<Rightarrow>
                    (case Exponential s of Some e \<Rightarrow> ex_FailureThreshold e | None \<Rightarrow> None))))"

definition batch_failed :: "DeploymentStrategy option \<Rightarrow> int \<Rightarrow> int \<Rightarrow> bool" where
  "batch_failed so batchSize successCount \<longleftrightarrow>
     wrap64 (wrap64 (successCount * 100) sdiv batchSize) < getBatchThreshold so"

definition EvaluateBatchResult ::
  "DeploymentStrategy option \<Rightarrow> BatchProcessingState \<Rightarrow> int \<Rightarrow> int \<Rightarrow> int \<Rightarrow> int \<Rightarrow> BatchProcessingState" where
  "EvaluateBatchResult so st batchSize successCount failureCount totalNodes =
     (if batchSize = 0 then st
      else
        (let progress = (if totalNodes > 0 then progress_percent st totalNodes else 0);
             failed = batch_failed so batchSize successCount;
             st1 = st\<lparr>LastBatchSize := batchSize, LastBatchFailed := failed\<rparr>;
             st2 = (if failed then
                      (let cf = wrap64 (ConsecutiveFailures st + 1)
                       in st1\<lparr>ConsecutiveFailures := cf,
                              ShouldStop :=
                                (case getFailureThreshold so of
                                   Some ft \<Rightarrow>
                                     if progress < getSafetyLimit so \<and> ft \<le> cf then True else ShouldStop st
                                 | None \<Rightarrow> ShouldStop st)\<rparr>)
                    else st1\<lparr>ConsecutiveFailures := 0\<rparr>)
         in st2\<lparr>CurrentBatch := wrap64 (CurrentBatch st + 1)\<rparr>))"

section \<open>The batch interface\<close>

text \<open>
  Counters as the operator keeps them: not negative, and small enough for a hundredfold to fit.
\<close>

definition counts_ok :: "int \<Rightarrow> BatchProcessingState \<Rightarrow> bool" where
  "counts_ok n st \<longleftrightarrow>
     0 \<le> n \<and> n < 2 ^ 56 \<and> 0 \<le> CompletedNodes st \<and> 0 \<le> FailedNodes st \<and>
     CompletedNodes st + FailedNodes st \<le> n"

definition remaining_nodes :: "int \<Rightarrow> BatchProcessingState \<Rightarrow> int" where
  "remaining_nodes n st = n - (CompletedNodes st + FailedNodes st)"

text \<open>A batch size in order: zero when no node is left, otherwise between one and what is left.\<close>

definition within_remaining :: "int \<Rightarrow> BatchProcessingState \<Rightarrow> int \<Rightarrow> bool" where
  "within_remaining n st b \<longleftrightarrow>
     (if remaining_nodes n st = 0 then b = 0 else 1 \<le> b \<and> b \<le> remaining_nodes n st)"

lemma processed_exact: "counts_ok n st \<Longrightarrow> processed_nodes st = CompletedNodes st + FailedNodes st"
  by (simp add: counts_ok_def processed_nodes_def int64_def)

lemma cap_exact:
  assumes "counts_ok n st"
  shows "cap_remaining n st b =
     (if remaining_nodes n st = 0 then 0 else max 1 (min b (remaining_nodes n st)))"
proof -
  have "wrap64 (n - processed_nodes st) = remaining_nodes n st" "0 \<le> remaining_nodes n st"
    using assms processed_exact[OF assms] by (simp_all add: counts_ok_def remaining_nodes_def int64_def)
  then show ?thesis by (auto simp: cap_remaining_def Let_def)
qed

lemma div_percent:
  fixes a b t :: int
  assumes "0 \<le> a" "a < 2 ^ 56" "0 < b"
  shows "wrap64 (wrap64 (a * 100) sdiv b) < t \<longleftrightarrow> a * 100 < t * b"
proof -
  have "wrap64 (a * 100) = a * 100" using assms by (simp add: int64_def)
  moreover have "a * 100 sdiv b = a * 100 div b"
    using assms by (simp add: sdiv_nonneg)
  moreover have "0 \<le> a * 100 div b" "a * 100 div b \<le> a * 100"
    using assms zdiv_mono2[of "a * 100" 1 b] by (simp_all add: pos_imp_zdiv_nonneg_iff)
  then have "wrap64 (a * 100 div b) = a * 100 div b" using assms by (simp add: int64_def)
  ultimately show ?thesis using assms(3) by (simp add: int_div_less_iff)
qed

lemma Evaluate_counters [simp]:
  "CompletedNodes (EvaluateBatchResult so st b s f n) = CompletedNodes st"
  "FailedNodes (EvaluateBatchResult so st b s f n) = FailedNodes st"
  by (simp_all add: EvaluateBatchResult_def Let_def)

locale batch_strategy =
  fixes ready :: "'s \<Rightarrow> bool"
    and bsize :: "'s \<Rightarrow> int \<Rightarrow> BatchProcessingState \<Rightarrow> int option"
  assumes bsize_bounds: "ready s \<Longrightarrow> counts_ok n st \<Longrightarrow>
     \<exists>b. bsize s n st = Some b \<and> within_remaining n st b"
begin

lemma batch_fits:
  assumes "ready s" and "counts_ok n st"
  shows "\<exists>b. bsize s n st = Some b \<and> 0 \<le> b \<and> b \<le> remaining_nodes n st \<and> (0 < remaining_nodes n st \<longrightarrow> 0 < b)"
proof -
  have "0 \<le> remaining_nodes n st" using assms(2) by (simp add: counts_ok_def remaining_nodes_def)
  with bsize_bounds [OF assms] show ?thesis by (auto simp: within_remaining_def split: if_splits)
qed

end

section \<open>The three strategies meet the interface\<close>

definition fixed_ready :: "FixedStrategy \<Rightarrow> bool" where
  "fixed_ready s \<longleftrightarrow> FixedStrategy_Default s = s"

definition linear_ready :: "LinearStrategy \<Rightarrow> bool" where
  "linear_ready s \<longleftrightarrow> LinearStrategy_Default s = s"

definition exponential_ready :: "ExponentialStrategy \<Rightarrow> bool" where
  "exponential_ready s \<longleftrightarrow> ExponentialStrategy_Default s = s"

definition strategy_ready :: "DeploymentStrategy \<Rightarrow> bool" where
  "strategy_ready s \<longleftrightarrow> DeploymentStrategy_Validate s = Inr () \<and> DeploymentStrategy_Default s = s"

lemma or_default_fix: "or_default d x = x \<longleftrightarrow> x \<noteq> None"
  by (cases x) (auto simp: or_default_def)

lemma or_default_idem [simp]: "or_default d (or_default d x) = or_default d x"
  by (cases x) (auto simp: or_default_def)

lemma fixed_ready_fields: "fixed_ready s \<Longrightarrow> fx_InitialBatch s \<noteq> None"
  by (cases s) (auto simp: fixed_ready_def FixedStrategy_Default_def or_default_fix)

lemma linear_ready_fields:
  "linear_ready s \<Longrightarrow> ln_InitialBatch s \<noteq> None \<and> ln_Delta s \<noteq> None \<and> ln_SafetyLimit s \<noteq> None"
  by (cases s) (auto simp: linear_ready_def LinearStrategy_Default_def or_default_fix)

lemma exponential_ready_fields:
  "exponential_ready s \<Longrightarrow>
     ex_InitialBatch s \<noteq> None \<and> ex_GrowthFactor s \<noteq> None \<and> ex_SafetyLimit s \<noteq> None"
  by (cases s) (auto simp: exponential_ready_def ExponentialStrategy_Default_def or_default_fix)

lemma cap_bounds:
  assumes "counts_ok n st"
  shows "within_remaining n st (cap_remaining n st b)"
proof -
  have "0 \<le> remaining_nodes n st" using assms by (simp add: counts_ok_def remaining_nodes_def)
  then show ?thesis by (auto simp: cap_exact[OF assms] within_remaining_def)
qed

lemma no_nodes: "counts_ok 0 st \<Longrightarrow> within_remaining 0 st 0"
  by (auto simp: within_remaining_def counts_ok_def remaining_nodes_def)

interpretation fixed: batch_strategy fixed_ready Fixed_CalculateBatchSize
proof
  fix s n st
  assume "fixed_ready s" and "counts_ok n st"
  then show "\<exists>b. Fixed_CalculateBatchSize s n st = Some b \<and> within_remaining n st b"
    using fixed_ready_fields[of s] cap_bounds[of n st] by (auto simp: Fixed_CalculateBatchSize_def)
qed

lemma capped:
  assumes "counts_ok n st" and "x \<noteq> None"
  shows "\<exists>b. (if n = 0 then Some 0 else map_option (cap_remaining n st) x) = Some b \<and> within_remaining n st b"
  using assms cap_bounds[OF assms(1)] no_nodes[of st] by (cases "n = 0") auto

interpretation linear: batch_strategy linear_ready Linear_CalculateBatchSize
proof
  fix s n st
  assume "linear_ready s" and ok: "counts_ok n st"
  then show "\<exists>b. Linear_CalculateBatchSize s n st = Some b \<and> within_remaining n st b"
    unfolding Linear_CalculateBatchSize_def
    by (intro capped[OF ok]) (use linear_ready_fields[of s] in \<open>auto split: option.splits if_splits\<close>)
qed

interpretation exponential: batch_strategy exponential_ready Exponential_CalculateBatchSize
proof
  fix s n st
  assume "exponential_ready s" and ok: "counts_ok n st"
  then show "\<exists>b. Exponential_CalculateBatchSize s n st = Some b \<and> within_remaining n st b"
    unfolding Exponential_CalculateBatchSize_def
    by (intro capped[OF ok]) (use exponential_ready_fields[of s] in \<open>auto split: option.splits if_splits bool.splits\<close>)
qed

lemma strategy_ready_cases:
  assumes "strategy_ready s"
  obtains f where "Fixed s = Some f" "fixed_ready f"
  | l where "Fixed s = None" "Linear s = Some l" "linear_ready l"
  | e where "Fixed s = None" "Linear s = None" "Exponential s = Some e" "exponential_ready e"
  using assms
  by (cases s) (auto simp: strategy_ready_def DeploymentStrategy_Validate_def DeploymentStrategy_Default_def
      fixed_ready_def linear_ready_def exponential_ready_def split: option.splits if_splits)

interpretation strategy: batch_strategy strategy_ready CalculateBatchSize
proof
  fix s n st
  assume r: "strategy_ready s" and ok: "counts_ok n st"
  from r show "\<exists>b. CalculateBatchSize s n st = Some b \<and> within_remaining n st b"
  proof (cases rule: strategy_ready_cases)
    case (1 f)
    then show ?thesis using fixed.bsize_bounds[OF 1(2) ok] by (simp add: CalculateBatchSize_def)
  next
    case (2 l)
    then show ?thesis using linear.bsize_bounds[OF 2(3) ok] by (simp add: CalculateBatchSize_def)
  next
    case (3 e)
    then show ?thesis using exponential.bsize_bounds[OF 3(4) ok] by (simp add: CalculateBatchSize_def)
  qed
qed

lemma Default_ready:
  assumes "DeploymentStrategy_Validate s = Inr ()"
  shows "strategy_ready (DeploymentStrategy_Default s)"
  using assms
  by (cases s) (auto simp: strategy_ready_def DeploymentStrategy_Validate_def DeploymentStrategy_Default_def
      FixedStrategy_Default_def LinearStrategy_Default_def ExponentialStrategy_Default_def
      split: option.splits if_splits)

section \<open>Properties\<close>

text \<open>
  C25. A strategy the webhook accepted and defaulted never panics on a missing field, and the batch it
  gives is zero when no node is left and otherwise between one node and all the nodes left, even
  where growing the last batch overflows the machine integer.
\<close>

theorem batch_size_bounds:
  assumes "DeploymentStrategy_Validate s = Inr ()" and "counts_ok n st"
  shows "\<exists>b. CalculateBatchSize (DeploymentStrategy_Default s) n st = Some b \<and>
     (if n = CompletedNodes st + FailedNodes st then b = 0
      else 1 \<le> b \<and> b \<le> n - (CompletedNodes st + FailedNodes st))"
  using strategy.bsize_bounds[OF Default_ready[OF assms(1)] assms(2)]
  by (auto simp: within_remaining_def remaining_nodes_def)

text \<open>An exponential strategy with everything but its growth factor left to the defaults.\<close>

definition sample_strategy :: DeploymentStrategy where
  "sample_strategy =
     \<lparr>Fixed = None, Linear = None,
      Exponential = Some \<lparr>ex_InitialBatch = None, ex_GrowthFactor = Some (2 ^ 62), ex_BatchThreshold = None,
        ex_FailureThreshold = Some 3, ex_SafetyLimit = None\<rparr>\<rparr>"

definition sample_batch_state :: BatchProcessingState where
  "sample_batch_state =
     \<lparr>CurrentBatch = 2, ConsecutiveFailures = 0, CompletedNodes = 2, FailedNodes = 0, ShouldStop = False,
      LastBatchSize = 2, LastBatchFailed = False\<rparr>"

theorem batch_size_bounds_witness:
  "\<exists>b. CalculateBatchSize (DeploymentStrategy_Default sample_strategy) 10 sample_batch_state = Some b \<and>
     1 \<le> b \<and> b \<le> 8"
proof -
  have "DeploymentStrategy_Validate sample_strategy = Inr ()" "counts_ok 10 sample_batch_state"
    by (simp_all add: sample_strategy_def sample_batch_state_def DeploymentStrategy_Validate_def counts_ok_def)
  from batch_size_bounds[OF this] show ?thesis by (simp add: sample_batch_state_def)
qed

text \<open>
  The result of a batch without the rounding: percentages of whole nodes are compared with the thresholds exactly as the
  code's integer divisions compare them.
\<close>

definition below_percent :: "int \<Rightarrow> int \<Rightarrow> int \<Rightarrow> bool" where
  "below_percent part limit whole \<longleftrightarrow> part * 100 < limit * whole"

lemma batch_result_exact:
  assumes "counts_ok n st" and "0 < n" and "0 < b" and "0 \<le> succ" and "succ < 2 ^ 56"
    and "0 \<le> ConsecutiveFailures st" and "ConsecutiveFailures st < 2 ^ 56" and "0 \<le> CurrentBatch st" and "CurrentBatch st < 2 ^ 56"
  shows "EvaluateBatchResult so st b succ f n =
     (let failed = below_percent succ (getBatchThreshold so) b; cf = (if failed then ConsecutiveFailures st + 1 else 0);
          stop = failed \<and> below_percent (CompletedNodes st + FailedNodes st) (getSafetyLimit so) n \<and>
            (case getFailureThreshold so of None \<Rightarrow> False | Some ft \<Rightarrow> ft \<le> cf)
      in st\<lparr>CurrentBatch := CurrentBatch st + 1, ConsecutiveFailures := cf, ShouldStop := ShouldStop st \<or> stop,
            LastBatchSize := b, LastBatchFailed := failed\<rparr>)"
proof -
  have "CompletedNodes st + FailedNodes st < 2 ^ 56" "0 \<le> CompletedNodes st + FailedNodes st"
    using assms(1) by (simp_all add: counts_ok_def)
  then have "progress_percent st n < l \<longleftrightarrow> below_percent (CompletedNodes st + FailedNodes st) l n" for l
    using div_percent[of "CompletedNodes st + FailedNodes st" n l] assms(2) processed_exact[OF assms(1)]
    by (simp add: progress_percent_def below_percent_def)
  moreover have "batch_failed so b succ \<longleftrightarrow> below_percent succ (getBatchThreshold so) b"
    using div_percent[of succ b] assms(3-5) by (simp add: batch_failed_def below_percent_def)
  moreover have "wrap64 (ConsecutiveFailures st + 1) = ConsecutiveFailures st + 1" "wrap64 (CurrentBatch st + 1) = CurrentBatch st + 1"
    using assms(6-9) by (simp_all add: int64_def)
  ultimately show ?thesis
    using assms(2,3) by (cases st) (auto simp: EvaluateBatchResult_def Let_def split: option.splits)
qed

lemma set_gput_new: "k \<notin> set (gkeys m) \<Longrightarrow> set (gput k v m) = insert (k, v) (set m)"
  by (induction m) auto

lemma gkeys_gput: "set (gkeys (gput k v m)) = insert k (set (gkeys m))"
  by (induction m) auto

lemma find_none: "List.find P xs = None \<longleftrightarrow> (\<forall>x \<in> set xs. \<not> P x)"
  by (auto simp: find_None_iff)

lemma validate_compartments_iff:
  assumes "set (gkeys sels) \<subseteq> set names"
  shows "validate_compartments names sels cs = Inr () \<longleftrightarrow>
     (\<forall>c \<in> set cs. cp_Name c \<noteq> DefaultCompartmentName \<and> cp_Name c \<notin> set names \<and>
        Compartment_Validate c = Inr () \<and> (\<forall>(n, sel) \<in> set sels. \<not> selector_equal (cp_Selector c) sel)) \<and>
     distinct (map cp_Name cs) \<and>
     sorted_wrt (\<lambda>c c'. \<not> selector_equal (cp_Selector c') (cp_Selector c)) cs"
  using assms
proof (induction cs arbitrary: names sels)
  case Nil
  then show ?case by simp
next
  case (Cons c cs)
  show ?case
  proof (cases "cp_Name c \<noteq> DefaultCompartmentName \<and> cp_Name c \<notin> set names \<and>
      Compartment_Validate c = Inr () \<and> (\<forall>(n, sel) \<in> set sels. \<not> selector_equal (cp_Selector c) sel)")
    case False
    then have "validate_compartments names sels (c # cs) \<noteq> Inr ()"
      by (auto simp: find_none split: sum.splits option.splits)
    then show ?thesis using False by auto
  next
    case True
    have fresh: "cp_Name c \<notin> set (gkeys sels)" using True Cons.prems by auto
    have keys: "set (gkeys (gput (cp_Name c) (cp_Selector c) sels)) \<subseteq> set (cp_Name c # names)"
      using Cons.prems by (auto simp: gkeys_gput simp del: set_map)
    have none: "List.find (\<lambda>(n, sel). selector_equal (cp_Selector c) sel) sels = None"
      using True by (auto simp: find_none)
    have step: "validate_compartments names sels (c # cs) =
        validate_compartments (cp_Name c # names) (gput (cp_Name c) (cp_Selector c) sels) cs"
      using True none by simp
    show ?thesis
      unfolding step Cons.IH[OF keys] set_gput_new[OF fresh] using True by (auto simp: image_iff)
  qed
qed

text \<open>What the documentation asks of a policy: one budget and at most one kind of strategy each.\<close>

definition budget_ok :: "DeploymentBudget \<Rightarrow> bool" where
  "budget_ok b \<longleftrightarrow> (Percent b = None) \<noteq> (Count b = None)"

definition one_strategy :: "DeploymentStrategy \<Rightarrow> bool" where
  "one_strategy s \<longleftrightarrow>
     length (filter id [Fixed s \<noteq> None, Linear s \<noteq> None, Exponential s \<noteq> None]) = 1"

definition compartment_ok :: "Compartment \<Rightarrow> bool" where
  "compartment_ok c \<longleftrightarrow>
     budget_ok (cp_Budget c) \<and> pred_option one_strategy (cp_Strategy c) \<and>
     LabelSelectorAsSelector (cp_Selector c) \<noteq> None"

lemma DeploymentBudget_Validate_iff: "DeploymentBudget_Validate b = Inr () \<longleftrightarrow> budget_ok b"
  by (auto simp: DeploymentBudget_Validate_def budget_ok_def)

lemma DeploymentStrategy_Validate_iff: "DeploymentStrategy_Validate s = Inr () \<longleftrightarrow> one_strategy s"
  by (auto simp: DeploymentStrategy_Validate_def one_strategy_def)

lemma Compartment_Validate_iff: "Compartment_Validate c = Inr () \<longleftrightarrow> compartment_ok c"
  using DeploymentBudget_Validate_iff[of "cp_Budget c"]
  by (auto simp: Compartment_Validate_def compartment_ok_def pred_option_def
      DeploymentStrategy_Validate_iff [symmetric] split: sum.splits option.splits)

text \<open>
  The policy webhook accepts exactly the policies in which the default and every compartment have
  exactly one of percent and count, every strategy given is of exactly one kind, compartment names
  are distinct and not the reserved one, and selectors are well formed and pairwise different.
\<close>

theorem policy_validate_iff:
  "DeploymentPolicy_Validate p = Inr () \<longleftrightarrow>
     (let sp = dp_Spec p; cs = Compartments sp
      in budget_ok (pd_Budget (Default sp)) \<and> pred_option one_strategy (pd_Strategy (Default sp)) \<and>
         DefaultCompartmentName \<notin> set (map cp_Name cs) \<and> distinct (map cp_Name cs) \<and>
         list_all compartment_ok cs \<and>
         sorted_wrt (\<lambda>c c'. \<not> selector_equal (cp_Selector c') (cp_Selector c)) cs)"
proof -
  have "DeploymentPolicy_Validate p = Inr () \<longleftrightarrow>
      budget_ok (pd_Budget (Default (dp_Spec p))) \<and>
      pred_option one_strategy (pd_Strategy (Default (dp_Spec p))) \<and>
      validate_compartments [] [] (Compartments (dp_Spec p)) = Inr ()"
    using DeploymentBudget_Validate_iff[of "pd_Budget (Default (dp_Spec p))"]
    by (auto simp: DeploymentPolicy_Validate_def Let_def pred_option_def
        DeploymentStrategy_Validate_iff [symmetric] split: sum.splits option.splits)
  then show ?thesis
    using validate_compartments_iff[of "[]" "[]" "Compartments (dp_Spec p)"]
    by (auto simp: Let_def Compartment_Validate_iff list_all_iff image_iff)
qed

end
