(* ===== verification/NodeWright_Types.thy ===== *)
theory NodeWright_Types
  imports Graph Deployment_Policy
begin

text \<open>
  The NodeWright resource and the per-node package state:
  \<open>operator/api/nodewright/v1alpha1/nodewright_types.go\<close>.

  \<open>Stage\<close>, \<open>State\<close>, \<open>Status\<close> and \<open>InterruptType\<close> are string types with named constants; they are
  datatypes with one constructor per constant and one for any other string.  A map that the code
  tests for nil is an option.  \<open>NodeState\<close>, the map from a package's unique name to where it stands
  in its lifecycle, is the state every later component reads and writes.  Times and durations are
  integers.  The fields of the specification that only reach the pod template (environment,
  tolerations) are left out.
\<close>

section \<open>Stages, states, statuses\<close>

datatype Stage =
    StageUninstall | StageUninstallInterrupt | StageUpgrade | StageApply
  | StageInterrupt | StagePostInterrupt | StageConfig | StageOther string

definition Stages :: "Stage list" where
  "Stages = [StageUninstall, StageUninstallInterrupt, StageUpgrade, StageApply,
             StageInterrupt, StagePostInterrupt, StageConfig]"

fun stage_string :: "Stage \<Rightarrow> string" where
  "stage_string StageUninstall = ''uninstall''"
| "stage_string StageUninstallInterrupt = ''uninstall-interrupt''"
| "stage_string StageUpgrade = ''upgrade''"
| "stage_string StageApply = ''apply''"
| "stage_string StageInterrupt = ''interrupt''"
| "stage_string StagePostInterrupt = ''post-interrupt''"
| "stage_string StageConfig = ''config''"
| "stage_string (StageOther s) = s"

definition stage_of :: "string \<Rightarrow> Stage" where
  "stage_of s = (case List.find (\<lambda>g. stage_string g = s) Stages of Some g \<Rightarrow> g | None \<Rightarrow> StageOther s)"

datatype State =
    StateComplete | StateInProgress | StateSkipped | StateErroring | StateUnknown | StateOther string

definition States :: "State list" where
  "States = [StateComplete, StateInProgress, StateSkipped, StateErroring, StateUnknown]"

fun state_string :: "State \<Rightarrow> string" where
  "state_string StateComplete = ''complete''"
| "state_string StateInProgress = ''in_progress''"
| "state_string StateSkipped = ''skipped''"
| "state_string StateErroring = ''erroring''"
| "state_string StateUnknown = ''unknown''"
| "state_string (StateOther s) = s"

definition state_of :: "string \<Rightarrow> State" where
  "state_of s = (case List.find (\<lambda>g. state_string g = s) States of Some g \<Rightarrow> g | None \<Rightarrow> StateOther s)"

datatype Status =
    StatusComplete | StatusBlocked | StatusWaiting | StatusDisabled | StatusPaused
  | StatusInProgress | StatusErroring | StatusUnknown | StatusOther string

definition Statuses :: "Status list" where
  "Statuses = [StatusComplete, StatusBlocked, StatusWaiting, StatusDisabled, StatusPaused,
               StatusInProgress, StatusErroring, StatusUnknown]"

fun status_string :: "Status \<Rightarrow> string" where
  "status_string StatusComplete = ''complete''"
| "status_string StatusBlocked = ''blocked''"
| "status_string StatusWaiting = ''waiting''"
| "status_string StatusDisabled = ''disabled''"
| "status_string StatusPaused = ''paused''"
| "status_string StatusInProgress = ''in_progress''"
| "status_string StatusErroring = ''erroring''"
| "status_string StatusUnknown = ''unknown''"
| "status_string (StatusOther s) = s"

text \<open>\<open>GetStatus\<close>: any other string is unknown.\<close>

definition GetStatus :: "string \<Rightarrow> Status" where
  "GetStatus s =
     (if s = ''complete'' then StatusComplete
      else if s = ''blocked'' then StatusBlocked
      else if s = ''waiting'' then StatusWaiting
      else if s = ''disabled'' then StatusDisabled
      else if s = ''paused'' then StatusPaused
      else if s = ''in_progress'' then StatusInProgress
      else if s = ''erroring'' then StatusErroring
      else StatusUnknown)"

fun StateToStatus :: "State \<Rightarrow> Status" where
  "StateToStatus StateComplete = StatusComplete"
| "StateToStatus StateErroring = StatusErroring"
| "StateToStatus StateInProgress = StatusInProgress"
| "StateToStatus _ = StatusUnknown"

section \<open>Packages\<close>

datatype InterruptType = REBOOT | SERVICE | NOOP | RESTART_ALL_SERVICES | InterruptTypeOther string

record Interrupt =
  int_Type :: InterruptType
  int_Services :: "string list"

record PackageRef =
  ref_Name :: string
  ref_Version :: string

definition unique_name :: "string \<Rightarrow> string \<Rightarrow> string" where
  "unique_name name ver = name @ ''|'' @ ver"

definition PackageRef_GetUniqueName :: "PackageRef \<Rightarrow> string" where
  "PackageRef_GetUniqueName p = unique_name (ref_Name p) (ref_Version p)"

text \<open>Kubernetes quantities are exact decimal numbers.\<close>

record ResourceRequirements =
  CPURequest :: rat
  CPULimit :: rat
  MemoryRequest :: rat
  MemoryLimit :: rat

text \<open>
  Environment variables.  A source of a value is a field of the pod (version and path), a resource of a container
  (container, resource and the divisor as it is written), a key of a config map or secret (name, key and whether it is
  optional), or a key of a file (volume, path, key and whether it is optional).
\<close>

record EnvVarSource =
  FieldRef :: "(string \<times> string) option"
  ResourceFieldRef :: "(string \<times> string \<times> string) option"
  ConfigMapKeyRef :: "(string \<times> string \<times> bool option) option"
  SecretKeyRef :: "(string \<times> string \<times> bool option) option"
  FileKeyRef :: "(string \<times> string \<times> string \<times> bool option) option"

record EnvVar =
  env_Name :: string
  env_Value :: string
  env_ValueFrom :: "EnvVarSource option"

record Uninstall =
  Enabled :: bool
  Apply :: bool

record Package =
  p_Name :: string
  p_Version :: string
  p_Image :: string
  p_ContainerSHA :: string
  p_AgentImageOverride :: string
  p_Interrupt :: "Interrupt option"
  p_DependsOn :: "(string, string) gomap"
  p_ConfigInterrupts :: "(string, Interrupt) gomap"
  p_ConfigMap :: "(string, string) gomap"
  p_Env :: "EnvVar list"
  p_Resources :: "ResourceRequirements option"
  p_GracefulShutdown :: "int option"
  p_StageTimeout :: "int option"
  p_Uninstall :: "Uninstall option"

type_synonym Packages = "(string, Package) gomap"

definition GetUniqueName :: "Package \<Rightarrow> string" where
  "GetUniqueName p = unique_name (p_Name p) (p_Version p)"

definition package_ref :: "Package \<Rightarrow> PackageRef" where
  "package_ref p = \<lparr>ref_Name = p_Name p, ref_Version = p_Version p\<rparr>"

definition Package_HasInterrupt :: "Package \<Rightarrow> bool" where
  "Package_HasInterrupt p \<longleftrightarrow> p_Interrupt p \<noteq> None"

definition UninstallEnabled :: "Package \<Rightarrow> bool" where
  "UninstallEnabled p = (case p_Uninstall p of None \<Rightarrow> False | Some u \<Rightarrow> Enabled u)"

definition IsUninstalling :: "Package \<Rightarrow> bool" where
  "IsUninstalling p \<longleftrightarrow>
     UninstallEnabled p \<and> (case p_Uninstall p of None \<Rightarrow> False | Some u \<Rightarrow> Apply u)"

text \<open>\<open>Packages.Names\<close>, called when the map is decoded: an empty name becomes the map key.\<close>

definition Names :: "Packages \<Rightarrow> Packages" where
  "Names f = map (\<lambda>(k, m). (k, if p_Name m = [] then m\<lparr>p_Name := k\<rparr> else m)) f"

text \<open>\<open>strings.LastIndex\<close> of a character, \<open>-1\<close> when it is absent.\<close>

definition last_index :: "char \<Rightarrow> string \<Rightarrow> int" where
  "last_index c s =
     (if c \<in> set s then int (length s) - 1 - int (length (takeWhile (\<lambda>x. x \<noteq> c) (rev s))) else -1)"

definition splitImageReference :: "string \<Rightarrow> string \<times> string option \<times> string option" where
  "splitImageReference img =
     (let atIdx = last_index CHR ''@'' img;
          (repository, digest) = (if atIdx \<ge> 0 then (take (nat atIdx) img, Some (drop (nat atIdx + 1) img))
                                  else (img, None));
          lastSlash = last_index CHR ''/'' repository;
          lastColon = last_index CHR '':'' repository
      in if lastColon > lastSlash
         then (take (nat lastColon) repository, Some (drop (nat lastColon + 1) repository), digest)
         else (repository, None, digest))"

section \<open>The resource\<close>

datatype SequencingMode = SequencingNode | SequencingAll | SequencingOther string

record InterruptionBudget =
  ib_Percent :: "int option"
  ib_Count :: "int option"

record DrainConfig =
  DisableEviction :: "bool option"
  DeleteEmptyDirData :: "bool option"
  Force :: "bool option"
  IgnoreDaemonSets :: "bool option"
  dc_Timeout :: "int option"
  dc_GracePeriod :: "int option"

record DeploymentPolicyOptions =
  dpo_ResetBatchStateOnCompletion :: "bool option"

record Toleration =
  tol_Key :: string
  tol_Operator :: string
  tol_Value :: string
  tol_Effect :: string

record NodeWrightSpec =
  Serial :: bool
  PodNonInterruptLabels :: LabelSelector
  NodeSelector :: LabelSelector
  spec_DeploymentPolicy :: string
  spec_DeploymentPolicyOptions :: "DeploymentPolicyOptions option"
  spec_InterruptionBudget :: InterruptionBudget
  spec_DrainConfig :: "DrainConfig option"
  spec_Packages :: Packages
  RuntimeRequired :: bool
  RuntimeRequiredCordonAfter :: bool
  AutoTaintNewNodes :: bool
  AdditionalTolerations :: "Toleration list"
  Priority :: int
  Sequencing :: SequencingMode

record CompartmentStatus =
  cs_Matched :: int
  cs_Ceiling :: int
  cs_InProgress :: int
  cs_Completed :: int
  cs_ProgressPercent :: int
  cs_BatchState :: "BatchProcessingState option"

record PackageStatus =
  ps_Name :: string
  ps_Version :: string
  ps_Image :: string
  ps_ContainerSHA :: string
  ps_Stage :: Stage
  ps_State :: State
  ps_Restarts :: int

type_synonym NodeState = "(string, PackageStatus) gomap option"

record Condition =
  c_Type :: string
  c_Status :: string
  c_ObservedGeneration :: int
  c_LastTransitionTime :: int
  c_Reason :: string
  c_Message :: string

record NodeWrightStatus =
  ObservedGeneration :: int
  st_NodeState :: "(string, NodeState) gomap option"
  st_NodeStatus :: "(string, Status) gomap option"
  st_Status :: Status
  st_Conditions :: "Condition list"
  NodeBootIds :: "(string, string) gomap option"
  NodePriority :: "(string, int) gomap option"
  NodeOrderOffset :: int
  ConfigUpdates :: "(string, string list) gomap option"
  CompartmentStatuses :: "(string, CompartmentStatus) gomap option"
  NodesInProgress :: int
  CompleteNodes :: string
  PackageList :: string

record NodeWright =
  nw_Name :: string
  nw_UID :: string
  Generation :: int
  nw_Annotations :: "(string, string) gomap option"
  nw_Finalizers :: "string list"
  DeletionTimestamp :: "int option"
  CreationTimestamp :: int
  nw_Spec :: NodeWrightSpec
  nw_Status :: NodeWrightStatus

abbreviation or_empty :: "'a list option \<Rightarrow> 'a list" where
  "or_empty m \<equiv> (case m of None \<Rightarrow> [] | Some l \<Rightarrow> l)"

definition METADATA_PREFIX :: string where
  "METADATA_PREFIX = ''nodewright.nvidia.com''"

definition IsPerNodeSequencing :: "NodeWrightSpec \<Rightarrow> bool" where
  "IsPerNodeSequencing spec \<longleftrightarrow> Sequencing spec \<noteq> SequencingAll"

datatype spec_error =
    EmptyDependsOnVersion string
  | GraphError graph_error
  | BudgetNotExclusive
  | DrainTimeoutNegative
  | DrainGracePeriodNegative

text \<open>The inner loop of \<open>BuildGraph\<close>: the dependencies' unique names, or the first empty version.\<close>

fun dependency_names :: "(string, string) gomap \<Rightarrow> spec_error + string list" where
  "dependency_names [] = Inr []"
| "dependency_names ((dep, ver) # rest) =
     (if ver = [] then Inl (EmptyDependsOnVersion dep)
      else case dependency_names rest of
             Inl e \<Rightarrow> Inl e
           | Inr ds \<Rightarrow> Inr (unique_name dep ver # ds))"

fun build_graph :: "Package dag \<Rightarrow> Package list \<Rightarrow> spec_error + Package dag" where
  "build_graph g [] = Inr g"
| "build_graph g (p # ps) =
     (case dependency_names (p_DependsOn p) of
        Inl e \<Rightarrow> Inl e
      | Inr deps \<Rightarrow>
          (case Add g (GetUniqueName p) p deps of
             Inl e \<Rightarrow> Inl (GraphError e)
           | Inr g' \<Rightarrow> build_graph g' ps))"

definition BuildGraph :: "NodeWrightSpec \<Rightarrow> spec_error + Package dag" where
  "BuildGraph spec = build_graph New (map snd (spec_Packages spec))"

definition InterruptionBudget_Validate :: "InterruptionBudget \<Rightarrow> spec_error + unit" where
  "InterruptionBudget_Validate b =
     (if ib_Count b \<noteq> None \<and> ib_Percent b \<noteq> None then Inl BudgetNotExclusive else Inr ())"

definition DrainConfig_Validate :: "DrainConfig option \<Rightarrow> spec_error + unit" where
  "DrainConfig_Validate d =
     (case d of
        None \<Rightarrow> Inr ()
      | Some c \<Rightarrow>
          if (case dc_Timeout c of Some t \<Rightarrow> t < 0 | None \<Rightarrow> False) then Inl DrainTimeoutNegative
          else if (case dc_GracePeriod c of Some t \<Rightarrow> t < 0 | None \<Rightarrow> False) then Inl DrainGracePeriodNegative
          else Inr ())"

section \<open>Node state\<close>

text \<open>Reads of a Go map: a nil map reads as empty.\<close>

definition ns_get :: "NodeState \<Rightarrow> string \<Rightarrow> PackageStatus option" where
  "ns_get ns k = map_of (or_empty ns) k"

definition Upsert ::
  "NodeState \<Rightarrow> PackageRef \<Rightarrow> string \<Rightarrow> State \<Rightarrow> Stage \<Rightarrow> int \<Rightarrow> string \<Rightarrow> NodeState \<times> bool" where
  "Upsert ns p img state stage restarts containerSHA =
     (let m = or_empty ns;
          status = \<lparr>ps_Name = ref_Name p, ps_Version = ref_Version p, ps_Image = img,
                    ps_ContainerSHA = containerSHA, ps_Stage = stage, ps_State = state,
                    ps_Restarts = restarts\<rparr>
      in if map_of m (PackageRef_GetUniqueName p) = Some status then (Some m, False)
         else (Some (gput (PackageRef_GetUniqueName p) status m), True))"

definition RemoveState :: "NodeState \<Rightarrow> PackageRef \<Rightarrow> NodeState \<times> bool" where
  "RemoveState ns p =
     (case ns of
        None \<Rightarrow> (None, False)
      | Some m \<Rightarrow>
          if map_of m (PackageRef_GetUniqueName p) \<noteq> None
          then (Some (gdel (PackageRef_GetUniqueName p) m), True) else (Some m, False))"

definition IsUninstallCycleInProgress :: "NodeState \<Rightarrow> string \<Rightarrow> bool" where
  "IsUninstallCycleInProgress ns k =
     (case ns_get ns k of
        None \<Rightarrow> False
      | Some s \<Rightarrow> ps_Stage s = StageUninstall \<or> ps_Stage s = StageUninstallInterrupt)"

definition IsUninstalled :: "NodeState \<Rightarrow> string \<Rightarrow> bool" where
  "IsUninstalled ns k \<longleftrightarrow> ns_get ns k = None"

type_synonym InterruptMap = "(string, Interrupt list) gomap"
type_synonym ConfigMap = "(string, string list) gomap"

text \<open>\<open>len(m[k])\<close> for a map of slices.\<close>

definition len_at :: "(string, 'a list) gomap \<Rightarrow> string \<Rightarrow> nat" where
  "len_at m k = length (or_empty (map_of m k))"

definition HasInterrupt :: "Package \<Rightarrow> InterruptMap \<Rightarrow> ConfigMap \<Rightarrow> bool" where
  "HasInterrupt p interrupt config =
     (if len_at config (p_Name p) > 0 then len_at interrupt (p_Name p) > 0 else Package_HasInterrupt p)"

fun next_stage_plain :: "Stage \<Rightarrow> Stage option" where
  "next_stage_plain StageUninstall = Some StageApply"
| "next_stage_plain StageApply = Some StageConfig"
| "next_stage_plain StageUpgrade = Some StageConfig"
| "next_stage_plain StageInterrupt = Some StagePostInterrupt"
| "next_stage_plain _ = None"

fun next_stage_interrupt :: "Stage \<Rightarrow> Stage option" where
  "next_stage_interrupt StageUpgrade = Some StageConfig"
| "next_stage_interrupt StageApply = Some StageConfig"
| "next_stage_interrupt StageConfig = Some StageInterrupt"
| "next_stage_interrupt StageInterrupt = Some StagePostInterrupt"
| "next_stage_interrupt _ = None"

definition NextStage :: "NodeState \<Rightarrow> Package \<Rightarrow> InterruptMap \<Rightarrow> ConfigMap \<Rightarrow> Stage option" where
  "NextStage ns p interrupt config =
     (case ns_get ns (GetUniqueName p) of
        None \<Rightarrow> None
      | Some s \<Rightarrow>
          if ps_State s \<noteq> StateComplete then None
          else if HasInterrupt p interrupt config then next_stage_interrupt (ps_Stage s)
          else next_stage_plain (ps_Stage s))"

definition Contains :: "NodeState \<Rightarrow> Packages \<Rightarrow> bool" where
  "Contains ns packages =
     (if length (or_empty ns) < length packages then False
      else list_all (\<lambda>(k, v). case ns_get ns (GetUniqueName v) of
                                None \<Rightarrow> False
                              | Some v2 \<Rightarrow> ps_Version v2 = p_Version v) packages)"

definition IsPackageComplete :: "NodeState \<Rightarrow> Package \<Rightarrow> InterruptMap \<Rightarrow> ConfigMap \<Rightarrow> bool" where
  "IsPackageComplete ns p interrupt config =
     (case ns_get ns (GetUniqueName p) of
        None \<Rightarrow> False
      | Some s \<Rightarrow>
          if p_Version p \<noteq> ps_Version s \<or> ps_State s \<noteq> StateComplete then False
          else if ps_Stage s = StagePostInterrupt then True
          else ps_Stage s = StageConfig \<and> \<not> HasInterrupt p interrupt config)"

definition GetComplete :: "NodeState \<Rightarrow> Packages \<Rightarrow> InterruptMap \<Rightarrow> ConfigMap \<Rightarrow> string list" where
  "GetComplete ns packages interrupt config =
     sort (map GetUniqueName (filter (\<lambda>p. IsPackageComplete ns p interrupt config) (map snd packages)))"

definition active_packages :: "NodeState \<Rightarrow> Packages \<Rightarrow> Packages" where
  "active_packages ns packages =
     filter (\<lambda>(k, p). \<not> (IsUninstalling p \<and> IsUninstalled ns (GetUniqueName p))) packages"

definition IsComplete :: "NodeState \<Rightarrow> Packages \<Rightarrow> InterruptMap \<Rightarrow> ConfigMap \<Rightarrow> bool" where
  "IsComplete ns packages interrupt config =
     (let active = active_packages ns packages
      in if length active \<le> length (GetComplete ns active interrupt config) then
           (if list_ex (\<lambda>(k, p). IsUninstallCycleInProgress ns (GetUniqueName p)) active then False
            else Contains ns active)
         else False)"

text \<open>
  The body of the loop of \<open>ProgressSkipped\<close>; the entry is read from the map being ranged over and
  written under the unique name of the package in the specification.
\<close>

definition progress_skipped_step ::
  "Packages \<Rightarrow> string \<Rightarrow> PackageStatus \<Rightarrow> (string, PackageStatus) gomap \<times> bool \<Rightarrow> (string, PackageStatus) gomap \<times> bool" where
  "progress_skipped_step packages k s acc =
     (case map_of packages (ps_Name s) of
        None \<Rightarrow> acc
      | Some f \<Rightarrow>
          if ps_Stage s = StageInterrupt \<and> ps_State s = StateSkipped
          then (gput (GetUniqueName f) (s\<lparr>ps_State := StateComplete\<rparr>) (fst acc), True)
          else acc)"

definition ProgressSkipped :: "NodeState \<Rightarrow> Packages \<Rightarrow> NodeState \<times> bool" where
  "ProgressSkipped ns packages =
     (case ns of
        None \<Rightarrow> (None, False)
      | Some m \<Rightarrow>
          (let (m', changed) = grange (progress_skipped_step packages) (\<lambda>acc k. map_of (fst acc) k)
                                 (gkeys m) (m, False)
           in (Some m', changed)))"

definition IsInterruptStage :: "PackageStatus option \<Rightarrow> bool" where
  "IsInterruptStage s =
     (case s of None \<Rightarrow> False | Some t \<Rightarrow> ps_Stage t = StageInterrupt \<or> ps_Stage t = StageUninstallInterrupt)"

definition IsActive :: "PackageStatus option \<Rightarrow> bool" where
  "IsActive s =
     (case s of None \<Rightarrow> False | Some t \<Rightarrow> ps_State t = StateInProgress \<or> ps_State t = StateErroring)"

definition IsSkipped :: "PackageStatus option \<Rightarrow> bool" where
  "IsSkipped s = (case s of None \<Rightarrow> False | Some t \<Rightarrow> ps_State t = StateSkipped)"

section \<open>Methods of the resource\<close>

definition WasUpdated :: "NodeWright \<Rightarrow> bool" where
  "WasUpdated s \<longleftrightarrow> Generation s > 1 \<and> Generation s > ObservedGeneration (nw_Status s)"

definition IsPaused :: "NodeWright \<Rightarrow> bool" where
  "IsPaused s \<longleftrightarrow> map_of (or_empty (nw_Annotations s)) (METADATA_PREFIX @ ''/pause'') = Some ''true''"

definition IsDisabled :: "NodeWright \<Rightarrow> bool" where
  "IsDisabled s \<longleftrightarrow> map_of (or_empty (nw_Annotations s)) (METADATA_PREFIX @ ''/disable'') = Some ''true''"

definition ShouldResetBatchStateOnCompletion :: "NodeWright \<Rightarrow> DeploymentPolicy option \<Rightarrow> bool" where
  "ShouldResetBatchStateOnCompletion s policy =
     (case Option.bind (spec_DeploymentPolicyOptions (nw_Spec s)) dpo_ResetBatchStateOnCompletion of
        Some b \<Rightarrow> b
      | None \<Rightarrow>
          (case Option.bind policy (\<lambda>p. ResetBatchStateOnCompletion (dp_Spec p)) of
             Some b \<Rightarrow> b
           | None \<Rightarrow> False))"

definition fresh_batch_state :: BatchProcessingState where
  "fresh_batch_state =
     \<lparr>CurrentBatch = 1, ConsecutiveFailures = 0, CompletedNodes = 0, FailedNodes = 0,
      ShouldStop = False, LastBatchSize = 0, LastBatchFailed = False\<rparr>"

definition ResetCompartmentBatchStates :: "NodeWright \<Rightarrow> NodeWright \<times> bool" where
  "ResetCompartmentBatchStates s =
     (case CompartmentStatuses (nw_Status s) of
        None \<Rightarrow> (s, False)
      | Some [] \<Rightarrow> (s, False)
      | Some m \<Rightarrow>
          (s\<lparr>nw_Status := (nw_Status s)
              \<lparr>CompartmentStatuses := Some (map (\<lambda>(n, cs). (n, cs\<lparr>cs_BatchState := Some fresh_batch_state\<rparr>)) m)\<rparr>\<rparr>,
           True))"

section \<open>Node state as a map\<close>

definition state_ok :: "NodeState \<Rightarrow> bool" where
  "state_ok ns \<longleftrightarrow> gomap_ok (or_empty ns)"

text \<open>
  What the controllers rely on of a store of package statuses: one entry per unique name, and an
  update or a removal reports a change exactly when the store's content changes.
\<close>

locale package_store =
  fixes ok :: "'s \<Rightarrow> bool"
    and get :: "'s \<Rightarrow> string \<Rightarrow> PackageStatus option"
    and put :: "'s \<Rightarrow> PackageStatus \<Rightarrow> 's \<times> bool"
    and del :: "'s \<Rightarrow> PackageRef \<Rightarrow> 's \<times> bool"
  assumes put_ok: "ok s \<Longrightarrow> ok (fst (put s x))"
    and del_ok: "ok s \<Longrightarrow> ok (fst (del s r))"
    and get_put: "get (fst (put s x)) = (get s)(unique_name (ps_Name x) (ps_Version x) \<mapsto> x)"
    and get_del: "ok s \<Longrightarrow> get (fst (del s r)) = (get s)(PackageRef_GetUniqueName r := None)"
    and put_changed: "snd (put s x) \<longleftrightarrow> get (fst (put s x)) \<noteq> get s"
    and del_changed: "ok s \<Longrightarrow> snd (del s r) \<longleftrightarrow> get (fst (del s r)) \<noteq> get s"
begin

lemma put_idempotent: "\<not> snd (put (fst (put s x)) x)"
  by (simp add: put_changed get_put)

lemma del_idempotent: "ok s \<Longrightarrow> \<not> snd (del (fst (del s r)) r)"
  by (simp add: del_changed get_del del_ok)

lemma put_del:
  "ok s \<Longrightarrow> get s (unique_name (ps_Name x) (ps_Version x)) = None \<Longrightarrow>
     get (fst (del (fst (put s x)) \<lparr>ref_Name = ps_Name x, ref_Version = ps_Version x\<rparr>)) = get s"
  by (auto simp: get_put get_del put_ok PackageRef_GetUniqueName_def fun_eq_iff)

lemma puts_commute:
  "unique_name (ps_Name x) (ps_Version x) \<noteq> unique_name (ps_Name y) (ps_Version y) \<Longrightarrow>
     get (fst (put (fst (put s x)) y)) = get (fst (put (fst (put s y)) x))"
  by (simp add: get_put fun_upd_twist)

end

definition upsert_status :: "NodeState \<Rightarrow> PackageStatus \<Rightarrow> NodeState \<times> bool" where
  "upsert_status ns s =
     Upsert ns \<lparr>ref_Name = ps_Name s, ref_Version = ps_Version s\<rparr> (ps_Image s) (ps_State s) (ps_Stage s)
       (ps_Restarts s) (ps_ContainerSHA s)"

lemma ns_get_Upsert [simp]:
  "ns_get (fst (Upsert ns p img st sg r sha)) =
     (ns_get ns)(PackageRef_GetUniqueName p \<mapsto>
       \<lparr>ps_Name = ref_Name p, ps_Version = ref_Version p, ps_Image = img, ps_ContainerSHA = sha,
        ps_Stage = sg, ps_State = st, ps_Restarts = r\<rparr>)"
  by (auto simp: Upsert_def ns_get_def Let_def fun_eq_iff)

lemma Upsert_changed: "snd (Upsert ns p img st sg r sha) \<longleftrightarrow>
     ns_get (fst (Upsert ns p img st sg r sha)) \<noteq> ns_get ns"
proof
  assume "snd (Upsert ns p img st sg r sha)"
  then show "ns_get (fst (Upsert ns p img st sg r sha)) \<noteq> ns_get ns"
    unfolding ns_get_Upsert
    by (auto simp: Upsert_def Let_def ns_get_def fun_eq_iff split: if_splits)
next
  assume "ns_get (fst (Upsert ns p img st sg r sha)) \<noteq> ns_get ns"
  then show "snd (Upsert ns p img st sg r sha)"
    by (auto simp: Upsert_def Let_def ns_get_def split: if_splits option.splits)
qed

lemma ns_get_RemoveState [simp]:
  "ns_get (fst (RemoveState ns p)) = (ns_get ns)(PackageRef_GetUniqueName p := None)"
  by (auto simp: RemoveState_def ns_get_def fun_eq_iff split: option.splits)

lemma RemoveState_changed: "snd (RemoveState ns p) \<longleftrightarrow> ns_get (fst (RemoveState ns p)) \<noteq> ns_get ns"
  unfolding ns_get_RemoveState
  by (auto simp: RemoveState_def ns_get_def fun_eq_iff split: option.splits)

lemma Upsert_ok [simp]: "state_ok ns \<Longrightarrow> state_ok (fst (Upsert ns p img st sg r sha))"
  by (auto simp: state_ok_def Upsert_def Let_def split: option.splits)

lemma RemoveState_ok [simp]: "state_ok ns \<Longrightarrow> state_ok (fst (RemoveState ns p))"
  by (auto simp: state_ok_def RemoveState_def split: option.splits)

interpretation node_state: package_store state_ok ns_get upsert_status RemoveState
proof
  fix s x r
  show "state_ok s \<Longrightarrow> state_ok (fst (upsert_status s x))" by (simp add: upsert_status_def)
  show "state_ok s \<Longrightarrow> state_ok (fst (RemoveState s r))" by simp
  show "ns_get (fst (upsert_status s x)) = (ns_get s)(unique_name (ps_Name x) (ps_Version x) \<mapsto> x)"
    by (cases x) (simp add: upsert_status_def PackageRef_GetUniqueName_def)
  show "ns_get (fst (RemoveState s r)) = (ns_get s)(PackageRef_GetUniqueName r := None)" by simp
  show "snd (upsert_status s x) \<longleftrightarrow> ns_get (fst (upsert_status s x)) \<noteq> ns_get s"
    unfolding upsert_status_def by (rule Upsert_changed)
  show "snd (RemoveState s r) \<longleftrightarrow> ns_get (fst (RemoveState s r)) \<noteq> ns_get s"
    by (rule RemoveState_changed)
qed

section \<open>The package lifecycle\<close>

text \<open>
  One move of the lifecycle on a node: with the package's work of its stage complete, the next stage
  is entered and its work completed.  The interrupt and config-update signals may differ from one
  move to the next: they are read afresh at every reconcile.
\<close>

inductive lifecycle_step :: "Package \<Rightarrow> NodeState \<Rightarrow> NodeState \<Rightarrow> bool" for p where
  advance: "NextStage ns p interrupt config = Some sg \<Longrightarrow>
     lifecycle_step p ns (fst (Upsert ns (package_ref p) (p_Image p) StateComplete sg 0 (p_ContainerSHA p)))"

inductive_cases lifecycle_stepE: "lifecycle_step p ns ns'"

text \<open>How far a stage is along the lifecycle.\<close>

fun stage_rank :: "Stage \<Rightarrow> nat" where
  "stage_rank StageUninstall = 0"
| "stage_rank StageApply = 1"
| "stage_rank StageUpgrade = 1"
| "stage_rank StageConfig = 2"
| "stage_rank StageInterrupt = 3"
| "stage_rank StagePostInterrupt = 4"
| "stage_rank _ = 4"

definition install_stage :: "Stage \<Rightarrow> bool" where
  "install_stage sg \<longleftrightarrow> sg \<in> {StageApply, StageUpgrade, StageConfig, StageInterrupt, StagePostInterrupt}"

text \<open>The package's work at the stage it is in is complete, at the version in the specification.\<close>

definition settled_at :: "NodeState \<Rightarrow> Package \<Rightarrow> Stage \<Rightarrow> bool" where
  "settled_at ns p sg \<longleftrightarrow>
     (\<exists>s. ns_get ns (GetUniqueName p) = Some s \<and> ps_Version s = p_Version p \<and>
        ps_State s = StateComplete \<and> ps_Stage s = sg)"

lemma package_ref_sel [simp]:
  "ref_Name (package_ref p) = p_Name p" "ref_Version (package_ref p) = p_Version p"
  "PackageRef_GetUniqueName (package_ref p) = GetUniqueName p"
  by (simp_all add: PackageRef_GetUniqueName_def package_ref_def GetUniqueName_def)

lemma next_stage_rank:
  "next_stage_plain sg = Some sg' \<Longrightarrow> stage_rank sg < stage_rank sg' \<and> install_stage sg'"
  "next_stage_interrupt sg = Some sg' \<Longrightarrow> stage_rank sg < stage_rank sg' \<and> install_stage sg'"
  by (cases sg; auto simp: install_stage_def)+

lemma NextStage_settled [stage_simps]:
  "settled_at ns p sg \<Longrightarrow>
     NextStage ns p interrupt config =
       (if HasInterrupt p interrupt config then next_stage_interrupt sg else next_stage_plain sg)"
  by (auto simp: settled_at_def NextStage_def)

lemma IsPackageComplete_settled [stage_simps]:
  "settled_at ns p sg \<Longrightarrow>
     IsPackageComplete ns p interrupt config \<longleftrightarrow>
       sg = StagePostInterrupt \<or> (sg = StageConfig \<and> \<not> HasInterrupt p interrupt config)"
  by (auto simp: settled_at_def IsPackageComplete_def)

lemma settled_complete_or_next:
  "settled_at ns p sg \<Longrightarrow> install_stage sg \<Longrightarrow>
     IsPackageComplete ns p interrupt config \<longleftrightarrow> NextStage ns p interrupt config = None"
  by (cases sg) (auto simp: install_stage_def stage_simps)

lemma lifecycle_step_settled:
  assumes "lifecycle_step p ns ns'" and "settled_at ns p sg"
  shows "\<exists>sg'. settled_at ns' p sg' \<and> stage_rank sg < stage_rank sg' \<and> install_stage sg'"
proof -
  obtain interrupt config sg' where
    1: "ns' = fst (Upsert ns (package_ref p) (p_Image p) StateComplete sg' 0 (p_ContainerSHA p))"
      "NextStage ns p interrupt config = Some sg'"
    using assms(1) by (elim lifecycle_stepE)
  have "settled_at ns' p sg'" using 1 by (simp add: settled_at_def)
  then show ?thesis
    using 1(2) assms(2) next_stage_rank[of sg sg'] by (auto simp: stage_simps split: if_splits)
qed

lemma lifecycle_chain:
  assumes "settled_at ns p sg" and "(lifecycle_step p ^^ n) ns ns'"
  shows "\<exists>sg'. settled_at ns' p sg' \<and> stage_rank sg + n \<le> stage_rank sg' \<and> (n > 0 \<longrightarrow> install_stage sg')"
  using assms(2)
proof (induction n arbitrary: ns')
  case 0
  then show ?case using assms(1) by auto
next
  case (Suc n)
  then obtain ns1 where "(lifecycle_step p ^^ n) ns ns1" and st: "lifecycle_step p ns1 ns'" by auto
  then obtain sg1 where "settled_at ns1 p sg1" "stage_rank sg + n \<le> stage_rank sg1" using Suc.IH by blast
  with lifecycle_step_settled[OF st] show ?case by fastforce
qed

text \<open>
  C5. A package whose work is complete at a stage of the install lifecycle is never stuck and never
  both finished and moving: whatever the interrupt and config signals are, either the package counts
  as complete on the node or there is a next stage, and not both.
\<close>

theorem lifecycle_not_stuck:
  assumes "settled_at ns p sg" and "install_stage sg"
  shows "IsPackageComplete ns p interrupt config \<longleftrightarrow> NextStage ns p interrupt config = None"
  using settled_complete_or_next[OF assms] .

definition sample_package :: Package where
  "sample_package =
     \<lparr>p_Name = ''tuning'', p_Version = ''1.0.0'', p_Image = ''ghcr.io/tuning'', p_ContainerSHA = [],
      p_AgentImageOverride = [], p_Interrupt = Some \<lparr>int_Type = REBOOT, int_Services = []\<rparr>,
      p_DependsOn = [], p_ConfigInterrupts = [], p_ConfigMap = [], p_Env = [], p_Resources = None,
      p_GracefulShutdown = None, p_StageTimeout = None, p_Uninstall = None\<rparr>"

definition sample_state :: "Stage \<Rightarrow> State \<Rightarrow> NodeState" where
  "sample_state sg st = fst (Upsert None (package_ref sample_package) ''ghcr.io/tuning'' st sg 0 [])"

lemma sample_settled: "settled_at (sample_state sg StateComplete) sample_package sg"
  by (simp add: settled_at_def sample_state_def)

theorem lifecycle_not_stuck_witness:
  "IsPackageComplete (sample_state StageConfig StateComplete) sample_package [] [] \<longleftrightarrow>
     NextStage (sample_state StageConfig StateComplete) sample_package [] [] = None"
  by (rule lifecycle_not_stuck[OF sample_settled]) (simp add: install_stage_def)

text \<open>
  C19. The lifecycle of a package ends: with the signals free to change between moves, no chain of moves
  that starts from settled work is longer than four, every move lands in a stage of the install
  lifecycle, and where a chain has made a move and can make no other for any signals, the package is
  complete for all of them.
\<close>

theorem lifecycle_ends:
  assumes "settled_at ns p sg" and "(lifecycle_step p ^^ n) ns ns'"
  shows "n \<le> 4 - stage_rank sg \<and>
     (n > 0 \<longrightarrow> (\<exists>sg'. settled_at ns' p sg' \<and> install_stage sg') \<and>
        ((\<nexists>ns''. lifecycle_step p ns' ns'') \<longrightarrow> IsPackageComplete ns' p interrupt config))"
proof -
  obtain sg' where sg': "settled_at ns' p sg'" "stage_rank sg + n \<le> stage_rank sg'"
    "n > 0 \<longrightarrow> install_stage sg'" using lifecycle_chain[OF assms] by blast
  moreover have "stage_rank sg' \<le> 4" by (cases sg') auto
  moreover have "IsPackageComplete ns' p interrupt config"
    if "install_stage sg'" and "\<nexists>ns''. lifecycle_step p ns' ns''"
  proof -
    have "NextStage ns' p interrupt config = None" using that(2) advance by (metis not_Some_eq)
    then show ?thesis using settled_complete_or_next[OF sg'(1) that(1)] by simp
  qed
  ultimately show ?thesis by auto
qed

theorem lifecycle_ends_witness:
  "\<exists>ns'. (lifecycle_step sample_package ^^ 1) (sample_state StageApply StateComplete) ns' \<and>
     (\<exists>sg'. settled_at ns' sample_package sg' \<and> install_stage sg')"
proof -
  have "NextStage (sample_state StageApply StateComplete) sample_package [] [] = Some StageConfig"
    by (simp add: NextStage_settled[OF sample_settled])
  then obtain ns' where "(lifecycle_step sample_package ^^ 1) (sample_state StageApply StateComplete) ns'"
    using advance by fastforce
  then show ?thesis using lifecycle_ends[OF sample_settled, of 1 StageApply ns'] by auto
qed

section \<open>Completion of a node\<close>

text \<open>Packages as the webhook admits them: keyed by their names, which have no separator.\<close>

definition packages_ok :: "Packages \<Rightarrow> bool" where
  "packages_ok pk \<longleftrightarrow>
     gomap_ok pk \<and> list_all (\<lambda>(k, p). p_Name p = k \<and> CHR ''|'' \<notin> set k) pk"

lemma unique_name_inject:
  assumes "CHR ''|'' \<notin> set a" and "CHR ''|'' \<notin> set c"
  shows "unique_name a b = unique_name c d \<longleftrightarrow> a = c \<and> b = d"
proof
  assume eq: "unique_name a b = unique_name c d"
  have tw: "takeWhile (\<lambda>x. x \<noteq> CHR ''|'') (unique_name x y) = x" if "CHR ''|'' \<notin> set x" for x y
    using that by (simp add: unique_name_def takeWhile_append)
  have "a = c" using tw[OF assms(1), of b] tw[OF assms(2), of d] eq by simp
  then show "a = c \<and> b = d" using eq by (simp add: unique_name_def)
qed simp

lemma packages_ok_filter: "packages_ok pk \<Longrightarrow> packages_ok (filter P pk)"
  by (auto simp: packages_ok_def list_all_iff distinct_map_filter)

lemma packages_ok_unique:
  assumes "packages_ok pk"
  shows "distinct (map (\<lambda>(k, p). GetUniqueName p) pk)"
proof -
  have "distinct pk" using assms by (simp add: packages_ok_def distinct_map)
  moreover have "inj_on (\<lambda>(k, p). GetUniqueName p) (set pk)"
  proof (rule inj_onI)
    fix x y
    assume x: "x \<in> set pk" and y: "y \<in> set pk"
      and eq: "(case x of (k, p) \<Rightarrow> GetUniqueName p) = (case y of (k, p) \<Rightarrow> GetUniqueName p)"
    have "fst x = fst y"
      using assms x y eq by (auto simp: packages_ok_def list_all_iff GetUniqueName_def unique_name_inject split: prod.splits)
    moreover have "inj_on fst (set pk)" using assms by (simp add: packages_ok_def distinct_map)
    ultimately show "x = y" using x y by (simp add: inj_on_eq_iff)
  qed
  ultimately show ?thesis by (simp add: distinct_map)
qed

lemma length_filter_all: "length xs \<le> length (filter P xs) \<longleftrightarrow> list_all P xs"
  by (induction xs) (auto simp: not_less_eq_eq[symmetric] Suc_le_eq le_simps intro: le_trans[OF _ length_filter_le])

lemma GetComplete_length:
  "length active \<le> length (GetComplete ns active i c) \<longleftrightarrow> list_all (\<lambda>(k, p). IsPackageComplete ns p i c) active"
proof -
  have "length (GetComplete ns active i c) = length (filter (\<lambda>(k, p). IsPackageComplete ns p i c) active)"
    by (induction active) (auto simp: GetComplete_def)
  then show ?thesis by (simp add: length_filter_all)
qed

lemma complete_entry:
  assumes "IsPackageComplete ns p i c"
  shows "\<not> IsUninstallCycleInProgress ns (GetUniqueName p)"
    and "\<exists>s. ns_get ns (GetUniqueName p) = Some s \<and> ps_Version s = p_Version p"
  using assms
  by (auto simp: IsPackageComplete_def IsUninstallCycleInProgress_def split: option.splits if_splits)

lemma complete_Contains:
  assumes "state_ok ns" and "packages_ok pk" and "list_all (\<lambda>(k, p). IsPackageComplete ns p i c) pk"
  shows "Contains ns pk"
proof -
  let ?names = "map (\<lambda>(k, p). GetUniqueName p) pk"
  have "set ?names \<subseteq> set (gkeys (or_empty ns))"
  proof
    fix u assume "u \<in> set ?names"
    then obtain k p where "(k, p) \<in> set pk" "u = GetUniqueName p" by auto
    then have "map_of (or_empty ns) u \<noteq> None"
      using assms(3) complete_entry(2)[of ns p i c] by (auto simp: list_all_iff ns_get_def)
    then show "u \<in> set (gkeys (or_empty ns))" by (simp only: gkeys_lookup not_False_eq_True)
  qed
  then have "card (set ?names) \<le> card (set (gkeys (or_empty ns)))" by (rule card_mono[OF finite_set])
  then have "length pk \<le> length (or_empty ns)"
    using assms(1) packages_ok_unique[OF assms(2)]
    by (simp only: distinct_card length_map state_ok_def)
  then show ?thesis
    using assms(3) complete_entry(2) by (fastforce simp: Contains_def list_all_iff split: option.splits)
qed

lemma node_complete_packages:
  assumes "state_ok ns" and "packages_ok pk"
  shows "IsComplete ns pk i c \<longleftrightarrow>
     (\<forall>(k, p) \<in> set pk. (IsUninstalling p \<and> IsUninstalled ns (GetUniqueName p)) \<or> IsPackageComplete ns p i c)"
proof -
  let ?A = "active_packages ns pk"
  have ok: "packages_ok ?A" unfolding active_packages_def by (rule packages_ok_filter[OF assms(2)])
  have "IsComplete ns pk i c \<longleftrightarrow> list_all (\<lambda>(k, p). IsPackageComplete ns p i c) ?A"
  proof (cases "list_all (\<lambda>(k, p). IsPackageComplete ns p i c) ?A")
    case True
    then have "\<not> list_ex (\<lambda>(k, p). IsUninstallCycleInProgress ns (GetUniqueName p)) ?A"
      using complete_entry(1)[of ns _ i c] by (auto simp: list_all_iff list_ex_iff)
    then show ?thesis
      using True complete_Contains[OF assms(1) ok True] by (simp add: IsComplete_def Let_def GetComplete_length)
  next
    case False
    then show ?thesis by (simp add: IsComplete_def Let_def GetComplete_length)
  qed
  then show ?thesis by (auto simp: active_packages_def list_all_iff)
qed

lemma IsPackageComplete_iff:
  "IsPackageComplete ns p i c \<longleftrightarrow>
     (\<exists>s. ns_get ns (GetUniqueName p) = Some s \<and> ps_Version s = p_Version p \<and> ps_State s = StateComplete \<and>
        (ps_Stage s = StagePostInterrupt \<or> (ps_Stage s = StageConfig \<and> \<not> HasInterrupt p i c)))"
  by (auto simp: IsPackageComplete_def split: option.splits)

text \<open>
  C1. A node is complete exactly when each package of the specification is either uninstalled as
  requested (absent from the node) or recorded complete on the node at the specification's version, past
  its interrupt, or at the config stage when it needs none: comparing counts, as the code does, misses
  nothing and lets nothing else through.
\<close>

theorem node_complete_iff:
  assumes "state_ok ns" and "packages_ok pk"
  shows "IsComplete ns pk i c \<longleftrightarrow>
     (\<forall>(k, p) \<in> set pk.
        (IsUninstalling p \<and> ns_get ns (GetUniqueName p) = None) \<or>
        (\<exists>s. ns_get ns (GetUniqueName p) = Some s \<and> ps_Version s = p_Version p \<and> ps_State s = StateComplete \<and>
           (ps_Stage s = StagePostInterrupt \<or> (ps_Stage s = StageConfig \<and> \<not> HasInterrupt p i c))))"
  unfolding node_complete_packages[OF assms] IsPackageComplete_iff IsUninstalled_def by simp

theorem node_complete_iff_witness:
  "IsComplete (sample_state StagePostInterrupt StateComplete) [(''tuning'', sample_package)] [] []"
proof -
  let ?ns = "sample_state StagePostInterrupt StateComplete" and ?pk = "[(''tuning'', sample_package)]"
  have ok: "state_ok ?ns" unfolding sample_state_def by (rule Upsert_ok) (simp add: state_ok_def)
  have pk: "packages_ok ?pk" by (simp add: packages_ok_def sample_package_def)
  show ?thesis
    unfolding node_complete_iff[OF ok pk] using sample_settled[of StagePostInterrupt] by (auto simp: settled_at_def)
qed

section \<open>Skipped interrupts\<close>

text \<open>What \<open>ProgressSkipped\<close> does to one entry, and the entries it writes back under their own key.\<close>

definition skip_done :: "Packages \<Rightarrow> PackageStatus \<Rightarrow> PackageStatus" where
  "skip_done packages s =
     (if map_of packages (ps_Name s) \<noteq> None \<and> ps_Stage s = StageInterrupt \<and> ps_State s = StateSkipped
      then s\<lparr>ps_State := StateComplete\<rparr> else s)"

definition skip_keyed :: "Packages \<Rightarrow> (string, PackageStatus) gomap \<Rightarrow> bool" where
  "skip_keyed packages m \<longleftrightarrow>
     (\<forall>k s f. map_of m k = Some s \<longrightarrow> ps_Stage s = StageInterrupt \<longrightarrow> ps_State s = StateSkipped \<longrightarrow>
        map_of packages (ps_Name s) = Some f \<longrightarrow> GetUniqueName f = k)"

lemma progress_skipped_range:
  assumes "distinct ks" and "\<forall>k \<in> set ks. map_of (fst acc) k = map_of m k" and "skip_keyed packages m"
  shows "map_of (fst (grange (progress_skipped_step packages) (\<lambda>acc k. map_of (fst acc) k) ks acc)) k =
     (if k \<in> set ks then map_option (skip_done packages) (map_of m k) else map_of (fst acc) k)"
  using assms(1,2)
proof (induction ks arbitrary: acc)
  case Nil
  then show ?case by simp
next
  case (Cons a ks)
  let ?acc = "case map_of (fst acc) a of None \<Rightarrow> acc | Some v \<Rightarrow> progress_skipped_step packages a v acc"
  have a: "map_of (fst acc) a = map_of m a" using Cons.prems by simp
  have step: "map_of (fst ?acc) k = (if k = a then map_option (skip_done packages) (map_of m a) else map_of (fst acc) k)" for k
    using a assms(3)
    by (auto simp: progress_skipped_step_def skip_done_def skip_keyed_def split: option.splits)
  have "\<forall>k \<in> set ks. map_of (fst ?acc) k = map_of m k" using Cons.prems step by auto
  from Cons.IH[OF _ this] show ?case using Cons.prems(1) step by auto
qed

lemma ProgressSkipped_get:
  assumes "state_ok ns" and "skip_keyed packages (or_empty ns)"
  shows "ns_get (fst (ProgressSkipped ns packages)) k = map_option (skip_done packages) (ns_get ns k)"
proof (cases ns)
  case None
  then show ?thesis by (simp add: ProgressSkipped_def ns_get_def)
next
  case (Some m)
  have "distinct (gkeys m)" using assms(1) Some by (simp add: state_ok_def)
  let ?r = "grange (progress_skipped_step packages) (\<lambda>acc k. map_of (fst acc) k) (gkeys m) (m, False)"
  have "map_of (fst ?r) k =
      (if k \<in> set (gkeys m) then map_option (skip_done packages) (map_of m k) else map_of m k)"
    using progress_skipped_range[OF \<open>distinct (gkeys m)\<close>, of "(m, False)" m packages k] assms(2) Some by simp
  moreover have "map_of m k = None" if "k \<notin> set (gkeys m)" using that gkeys_lookup[of k m] by simp
  ultimately have "map_of (fst ?r) k = map_option (skip_done packages) (map_of m k)" by auto
  then show ?thesis using Some by (simp add: ProgressSkipped_def ns_get_def split_beta)
qed

text \<open>
  On a node whose skipped interrupts are at the specification's versions, \<open>ProgressSkipped\<close> completes
  exactly the packages of the specification that are skipped at the interrupt stage and changes
  nothing else; the packages it promotes can then move on to post-interrupt.
\<close>

theorem ProgressSkipped_exact:
  assumes "state_ok ns" and "skip_keyed packages (or_empty ns)"
  shows "ns_get (fst (ProgressSkipped ns packages)) =
     (\<lambda>k. map_option (\<lambda>s. if map_of packages (ps_Name s) \<noteq> None \<and> ps_Stage s = StageInterrupt \<and> ps_State s = StateSkipped
        then s\<lparr>ps_State := StateComplete\<rparr> else s) (ns_get ns k))"
  using ProgressSkipped_get[OF assms] by (auto simp: skip_done_def[abs_def] fun_eq_iff)

theorem ProgressSkipped_exact_witness:
  "map_option ps_State (ns_get (fst (ProgressSkipped (sample_state StageInterrupt StateSkipped) [(''tuning'', sample_package)]))
     (GetUniqueName sample_package)) = Some StateComplete"
proof -
  let ?ns = "sample_state StageInterrupt StateSkipped" and ?pk = "[(''tuning'', sample_package)]"
  have ok: "state_ok ?ns" unfolding sample_state_def by (rule Upsert_ok) (simp add: state_ok_def)
  have keyed: "skip_keyed ?pk (or_empty ?ns)"
    by (auto simp: skip_keyed_def sample_state_def Upsert_def package_ref_def sample_package_def
        GetUniqueName_def PackageRef_GetUniqueName_def split: if_splits)
  have "p_Name sample_package = ''tuning''" by (simp add: sample_package_def)
  then show ?thesis
    unfolding ProgressSkipped_exact[OF ok keyed] by (simp add: sample_state_def)
qed

text \<open>
  An entry of an older version is written under the unique name of the newer one: the update of the
  map, whatever the new version's entry was.
\<close>

definition stale_skip :: "(string, PackageStatus) gomap \<Rightarrow> Packages \<Rightarrow> string \<Rightarrow> PackageStatus \<Rightarrow> Package \<Rightarrow> bool" where
  "stale_skip m packages ko s f \<longleftrightarrow>
     map_of m ko = Some s \<and> ps_Stage s = StageInterrupt \<and> ps_State s = StateSkipped \<and>
     map_of packages (ps_Name s) = Some f \<and> GetUniqueName f \<noteq> ko \<and>
     list_all (\<lambda>(k, t). k = ko \<or> \<not> (ps_Stage t = StageInterrupt \<and> ps_State t = StateSkipped)) m"

lemma stale_skip_step:
  assumes "stale_skip m packages ko s f"
    and "map_of (fst acc) = map_of m \<or> map_of (fst acc) = (map_of m)(GetUniqueName f \<mapsto> s\<lparr>ps_State := StateComplete\<rparr>)"
  shows "map_of (fst (case map_of (fst acc) a of None \<Rightarrow> acc | Some v \<Rightarrow> progress_skipped_step packages a v acc)) =
     (if a = ko then (map_of m)(GetUniqueName f \<mapsto> s\<lparr>ps_State := StateComplete\<rparr>) else map_of (fst acc))"
proof (cases "a = ko")
  case True
  then have "map_of (fst acc) a = Some s" using assms by (auto simp: stale_skip_def)
  then show ?thesis
    using True assms by (auto simp: progress_skipped_step_def stale_skip_def)
next
  case False
  have "\<not> (ps_Stage t = StageInterrupt \<and> ps_State t = StateSkipped)" if "map_of (fst acc) a = Some t" for t
  proof -
    from that assms(2) have "map_of m a = Some t \<or> t = s\<lparr>ps_State := StateComplete\<rparr>" by (auto split: if_splits)
    then show ?thesis using assms(1) False by (auto simp: stale_skip_def list_all_iff dest!: map_of_SomeD)
  qed
  then show ?thesis using False by (auto simp: progress_skipped_step_def split: option.splits)
qed

lemma stale_skip_range:
  assumes "stale_skip m packages ko s f"
  defines "new \<equiv> (map_of m)(GetUniqueName f \<mapsto> s\<lparr>ps_State := StateComplete\<rparr>)"
    and "loop \<equiv> \<lambda>ks acc. map_of (fst (grange (progress_skipped_step packages) (\<lambda>acc k. map_of (fst acc) k) ks acc))"
  shows "map_of (fst acc) = new \<Longrightarrow> loop ks acc = new"
    and "map_of (fst acc) = map_of m \<Longrightarrow> ko \<in> set ks \<Longrightarrow> loop ks acc = new"
proof -
  note step = stale_skip_step[OF assms(1), folded new_def]
  show A: "map_of (fst acc) = new \<Longrightarrow> loop ks acc = new" for acc ks
  proof (induction ks arbitrary: acc)
    case (Cons a ks)
    then show ?case using step[of acc a] by (simp add: loop_def)
  qed (simp add: loop_def)
  show "map_of (fst acc) = map_of m \<Longrightarrow> ko \<in> set ks \<Longrightarrow> loop ks acc = new"
  proof (induction ks arbitrary: acc)
    case (Cons a ks)
    let ?acc = "case map_of (fst acc) a of None \<Rightarrow> acc | Some v \<Rightarrow> progress_skipped_step packages a v acc"
    have "loop (a # ks) acc = loop ks ?acc" by (simp add: loop_def)
    then show ?case using Cons step[of acc a] A[of ?acc ks] by (auto split: if_splits)
  qed simp
qed

text \<open>
  When a package was skipped at its interrupt and its version was then changed in the specification,
  \<open>ProgressSkipped\<close> replaces the new version's entry, whatever it was, by the old version's: the entry
  under the new unique name reports the old version as complete at the interrupt stage, so the new
  version's own stages are not run before it.
\<close>

theorem ProgressSkipped_overwrites_new_version:
  assumes "stale_skip m packages ko s f"
  shows "ns_get (fst (ProgressSkipped (Some m) packages)) =
     (map_of m)(GetUniqueName f \<mapsto> s\<lparr>ps_State := StateComplete\<rparr>)"
proof -
  have "ko \<in> set (gkeys m)" using assms by (auto simp: stale_skip_def dest: map_of_SomeD intro: rev_image_eqI)
  from stale_skip_range(2)[OF assms, of "(m, False)", OF _ this] show ?thesis
    by (simp add: ProgressSkipped_def ns_get_def[abs_def] split_beta)
qed

theorem ProgressSkipped_overwrites_new_version_witness:
  "map_option ps_Version
     (ns_get (fst (ProgressSkipped (fst (Upsert (sample_state StageInterrupt StateSkipped)
          \<lparr>ref_Name = ''tuning'', ref_Version = ''2.0.0''\<rparr> ''ghcr.io/tuning'' StateInProgress StageUpgrade 0 []))
        [(''tuning'', sample_package\<lparr>p_Version := ''2.0.0''\<rparr>)])) ''tuning|2.0.0'') = Some ''1.0.0''"
proof -
  let ?s = "\<lparr>ps_Name = ''tuning'', ps_Version = ''1.0.0'', ps_Image = ''ghcr.io/tuning'', ps_ContainerSHA = [],
      ps_Stage = StageInterrupt, ps_State = StateSkipped, ps_Restarts = 0\<rparr>"
  let ?n = "?s\<lparr>ps_Version := ''2.0.0'', ps_Stage := StageUpgrade, ps_State := StateInProgress\<rparr>"
  let ?f = "sample_package\<lparr>p_Version := ''2.0.0''\<rparr>"
  let ?m = "[(''tuning|1.0.0'', ?s), (''tuning|2.0.0'', ?n)]"
  have m: "fst (Upsert (sample_state StageInterrupt StateSkipped)
        \<lparr>ref_Name = ''tuning'', ref_Version = ''2.0.0''\<rparr> ''ghcr.io/tuning'' StateInProgress StageUpgrade 0 []) = Some ?m"
    by (simp add: sample_state_def Upsert_def package_ref_def sample_package_def PackageRef_GetUniqueName_def unique_name_def)
  have f: "GetUniqueName ?f = ''tuning|2.0.0''" by (simp add: GetUniqueName_def unique_name_def sample_package_def)
  have "stale_skip ?m [(''tuning'', ?f)] ''tuning|1.0.0'' ?s ?f" by (simp add: stale_skip_def f)
  from ProgressSkipped_overwrites_new_version[OF this] show ?thesis unfolding m f by simp
qed

section \<open>The dependency graph of a specification\<close>

definition depends_ok :: "Package \<Rightarrow> bool" where
  "depends_ok p \<longleftrightarrow> list_all (\<lambda>(d, v). v \<noteq> []) (p_DependsOn p)"

definition depends_names :: "Package \<Rightarrow> string list" where
  "depends_names p = map (\<lambda>(d, v). unique_name d v) (p_DependsOn p)"

lemma dependency_names_ok:
  "list_all (\<lambda>(d, v). v \<noteq> []) ds \<Longrightarrow> dependency_names ds = Inr (map (\<lambda>(d, v). unique_name d v) ds)"
  "\<not> list_all (\<lambda>(d, v). v \<noteq> []) ds \<Longrightarrow> \<exists>e. dependency_names ds = Inl e"
  by (induction ds) auto

lemma build_graph_add_all:
  "list_all depends_ok ps \<Longrightarrow>
     build_graph g ps =
       (case add_all g (map (\<lambda>p. (GetUniqueName p, p, depends_names p)) ps) of
          Inl e \<Rightarrow> Inl (GraphError e) | Inr g' \<Rightarrow> Inr g')"
proof (induction ps arbitrary: g)
  case (Cons p ps)
  have "dependency_names (p_DependsOn p) = Inr (depends_names p)"
    using Cons.prems by (simp add: dependency_names_ok depends_ok_def depends_names_def)
  then show ?case using Cons by (auto split: sum.splits)
qed simp

lemma build_graph_empty_version: "\<not> list_all depends_ok ps \<Longrightarrow> \<exists>e. build_graph g ps = Inl e"
proof (induction ps arbitrary: g)
  case (Cons p ps)
  show ?case
  proof (cases "depends_ok p")
    case True
    then show ?thesis using Cons by (auto split: sum.splits)
  next
    case False
    then show ?thesis using dependency_names_ok(2)[of "p_DependsOn p"] by (auto simp: depends_ok_def)
  qed
qed simp

lemma BuildGraph_cases:
  assumes "packages_ok (spec_Packages spec)"
  shows "if \<forall>(k, p) \<in> set (spec_Packages spec). depends_ok p
     then \<exists>g. BuildGraph spec = Inr g \<and> dag_ok g \<and>
       names_of g = GetUniqueName ` snd ` set (spec_Packages spec) \<and>
       (\<forall>(k, p) \<in> set (spec_Packages spec). deps_of g (GetUniqueName p) = set (depends_names p) \<and>
          obj_of g (GetUniqueName p) = Some p)
     else \<exists>e. BuildGraph spec = Inl e"
proof -
  let ?ps = "map snd (spec_Packages spec)"
  let ?es = "map (\<lambda>p. (GetUniqueName p, p, depends_names p)) ?ps"
  have "map fst ?es = map (\<lambda>(k, p). GetUniqueName p) (spec_Packages spec)" by auto
  then have "distinct (map fst ?es)" using packages_ok_unique[OF assms] by metis
  then obtain d where d: "add_all New ?es = Inr d" "dag_ok d" "names_of d = set (map fst ?es)"
    "\<forall>(n, x, ds) \<in> set ?es. deps_of d n = set ds \<and> obj_of d n = Some x"
    by (rule add_all_New)
  have all: "list_all depends_ok ?ps \<longleftrightarrow> (\<forall>(k, p) \<in> set (spec_Packages spec). depends_ok p)"
    by (auto simp: list_all_iff split_beta)
  show ?thesis
  proof (cases "list_all depends_ok ?ps")
    case True
    then have "BuildGraph spec = Inr d" using build_graph_add_all[of ?ps New] d(1) by (simp add: BuildGraph_def)
    moreover have "\<forall>(k, p) \<in> set (spec_Packages spec). deps_of d (GetUniqueName p) = set (depends_names p) \<and>
          obj_of d (GetUniqueName p) = Some p" using d(4) by auto
    moreover have "names_of d = GetUniqueName ` snd ` set (spec_Packages spec)" using d(3) by (auto simp: image_image)
    ultimately show ?thesis using True d(2) unfolding all by simp
  next
    case False
    then have "\<exists>e. BuildGraph spec = Inl e" unfolding BuildGraph_def by (rule build_graph_empty_version)
    then show ?thesis using False unfolding all if_not_P[OF False[unfolded all]] by blast
  qed
qed

lemma BuildGraph_views:
  assumes "packages_ok (spec_Packages spec)" and "BuildGraph spec = Inr g"
  shows "dag_ok g" and "names_of g = GetUniqueName ` snd ` set (spec_Packages spec)"
    and "\<forall>(k, p) \<in> set (spec_Packages spec). deps_of g (GetUniqueName p) = set (depends_names p) \<and>
       obj_of g (GetUniqueName p) = Some p"
  using BuildGraph_cases[OF assms(1)] assms(2) by (simp_all split: if_splits)

text \<open>
  For packages as the webhook admits them, \<open>BuildGraph\<close> succeeds exactly when no dependency has an
  empty version; the graph then has one vertex per package under its unique name, depending on
  exactly the unique names its \<open>dependsOn\<close> lists.
\<close>

theorem BuildGraph_correct:
  assumes "packages_ok (spec_Packages spec)"
  shows "if \<forall>(k, p) \<in> set (spec_Packages spec). depends_ok p
     then \<exists>g. BuildGraph spec = Inr g \<and> dag_ok g \<and>
       names_of g = GetUniqueName ` snd ` set (spec_Packages spec) \<and>
       (\<forall>(k, p) \<in> set (spec_Packages spec). deps_of g (GetUniqueName p) = set (depends_names p) \<and>
          obj_of g (GetUniqueName p) = Some p)
     else \<exists>e. BuildGraph spec = Inl e"
  using BuildGraph_cases[OF assms] .

definition sample_spec :: "Packages \<Rightarrow> NodeWrightSpec" where
  "sample_spec pk =
     \<lparr>Serial = False, PodNonInterruptLabels = \<lparr>matchLabels = None, matchExpressions = None\<rparr>,
      NodeSelector = \<lparr>matchLabels = None, matchExpressions = None\<rparr>, spec_DeploymentPolicy = [],
      spec_DeploymentPolicyOptions = None,
      spec_InterruptionBudget = \<lparr>ib_Percent = None, ib_Count = None\<rparr>, spec_DrainConfig = None,
      spec_Packages = pk, RuntimeRequired = False, RuntimeRequiredCordonAfter = False,
      AutoTaintNewNodes = False, AdditionalTolerations = [], Priority = 200, Sequencing = SequencingNode\<rparr>"

theorem BuildGraph_correct_witness:
  "\<exists>g. BuildGraph (sample_spec [(''tuning'', sample_package)]) = Inr g \<and> names_of g = {''tuning|1.0.0''}"
proof -
  have ok: "packages_ok (spec_Packages (sample_spec [(''tuning'', sample_package)]))"
    by (simp add: packages_ok_def sample_spec_def sample_package_def)
  show ?thesis
    using BuildGraph_correct[OF ok]
    by (auto simp: sample_spec_def depends_ok_def sample_package_def GetUniqueName_def unique_name_def)
qed

end
