(* ===== verification/Version.thy ===== *)
theory Version
  imports Labels "HOL-Library.Product_Lexorder"
begin

text \<open>
  Semantic versions: \<open>operator/internal/version/version.go\<close> over
  \<open>operator/vendor/golang.org/x/mod/semver/semver.go\<close>.

  The order of versions decides what is an upgrade and what a downgrade.  \<open>Compare\<close> is shown to be
  the comparison of a key in a linear order, which gives the laws of the locale \<open>version_order\<close>.
\<close>

section \<open>Parsing\<close>

definition is_digit :: "char \<Rightarrow> bool" where
  "is_digit c \<longleftrightarrow> (let n = of_char c :: nat in 48 \<le> n \<and> n \<le> 57)"

definition isIdentChar :: "char \<Rightarrow> bool" where
  "isIdentChar c \<longleftrightarrow> is_alnum c \<or> c = CHR ''-''"

definition isNum :: "string \<Rightarrow> bool" where
  "isNum v = list_all is_digit v"

definition isBadNum :: "string \<Rightarrow> bool" where
  "isBadNum v \<longleftrightarrow> isNum v \<and> length v > 1 \<and> hd v = CHR ''0''"

definition parseInt :: "string \<Rightarrow> (string \<times> string) option" where
  "parseInt v =
     (let t = takeWhile is_digit v
      in if t = [] \<or> (hd t = CHR ''0'' \<and> length t \<noteq> 1) then None else Some (t, dropWhile is_digit v))"

text \<open>
  \<open>parsePrerelease\<close> and \<open>parseBuild\<close> after their first character: the dot-separated identifiers, and
  the rest.  A prerelease ends at the first plus sign, a build at the end.
\<close>

definition parsePrerelease :: "string \<Rightarrow> (string list \<times> string) option" where
  "parsePrerelease v =
     (let t = takeWhile (\<lambda>c. c \<noteq> CHR ''+'') v; ids = split_on CHR ''.'' t
      in if list_all (\<lambda>i. i \<noteq> [] \<and> list_all isIdentChar i \<and> \<not> isBadNum i) ids
         then Some (ids, dropWhile (\<lambda>c. c \<noteq> CHR ''+'') v) else None)"

definition parseBuild :: "string \<Rightarrow> string list option" where
  "parseBuild v =
     (let ids = split_on CHR ''.'' v
      in if list_all (\<lambda>i. i \<noteq> [] \<and> list_all isIdentChar i) ids then Some ids else None)"

record parsed =
  major :: string
  minor :: string
  patch :: string
  prerelease :: "string list"
  build :: "string list"

text \<open>The suffix after the patch number: an optional prerelease, an optional build, nothing else.\<close>

definition parse_suffix :: "string \<Rightarrow> (string list \<times> string list) option" where
  "parse_suffix v =
     (case (case v of
              c # cs \<Rightarrow> if c = CHR ''-'' then parsePrerelease cs else Some ([], v)
            | [] \<Rightarrow> Some ([], [])) of
        None \<Rightarrow> None
      | Some (pre, rest) \<Rightarrow>
          (case rest of
             [] \<Rightarrow> Some (pre, [])
           | c # cs \<Rightarrow> if c = CHR ''+'' then map_option (\<lambda>b. (pre, b)) (parseBuild cs) else None))"

definition parse :: "string \<Rightarrow> parsed option" where
  "parse v =
     (case v of
        [] \<Rightarrow> None
      | c # v1 \<Rightarrow>
          if c \<noteq> CHR ''v'' then None
          else case parseInt v1 of
            None \<Rightarrow> None
          | Some (mj, []) \<Rightarrow> Some \<lparr>major = mj, minor = ''0'', patch = ''0'', prerelease = [], build = []\<rparr>
          | Some (mj, d # v2) \<Rightarrow>
              if d \<noteq> CHR ''.'' then None
              else case parseInt v2 of
                None \<Rightarrow> None
              | Some (mn, []) \<Rightarrow> Some \<lparr>major = mj, minor = mn, patch = ''0'', prerelease = [], build = []\<rparr>
              | Some (mn, e # v3) \<Rightarrow>
                  if e \<noteq> CHR ''.'' then None
                  else case parseInt v3 of
                    None \<Rightarrow> None
                  | Some (pt, v4) \<Rightarrow>
                      (case parse_suffix v4 of
                         None \<Rightarrow> None
                       | Some (pre, b) \<Rightarrow>
                           Some \<lparr>major = mj, minor = mn, patch = pt, prerelease = pre, build = b\<rparr>))"

section \<open>Comparing\<close>

definition compareInt :: "string \<Rightarrow> string \<Rightarrow> int" where
  "compareInt x y =
     (if x = y then 0
      else if length x < length y then -1
      else if length x > length y then 1
      else if x < y then -1 else 1)"

text \<open>The body of the loop in \<open>comparePrerelease\<close>, for two identifiers that differ.\<close>

definition compare_ident :: "string \<Rightarrow> string \<Rightarrow> int" where
  "compare_ident dx dy =
     (if isNum dx \<noteq> isNum dy then (if isNum dx then -1 else 1)
      else if isNum dx \<and> length dx < length dy then -1
      else if isNum dx \<and> length dx > length dy then 1
      else if dx < dy then -1 else 1)"

fun compare_idents :: "string list \<Rightarrow> string list \<Rightarrow> int" where
  "compare_idents [] [] = 0"
| "compare_idents [] (y # ys) = -1"
| "compare_idents (x # xs) [] = 1"
| "compare_idents (x # xs) (y # ys) = (if x \<noteq> y then compare_ident x y else compare_idents xs ys)"

definition comparePrerelease :: "string list \<Rightarrow> string list \<Rightarrow> int" where
  "comparePrerelease x y =
     (if x = y then 0 else if x = [] then 1 else if y = [] then -1 else compare_idents x y)"

definition compare_parsed :: "parsed \<Rightarrow> parsed \<Rightarrow> int" where
  "compare_parsed p q =
     (let c1 = compareInt (major p) (major q); c2 = compareInt (minor p) (minor q);
          c3 = compareInt (patch p) (patch q)
      in if c1 \<noteq> 0 then c1 else if c2 \<noteq> 0 then c2 else if c3 \<noteq> 0 then c3
         else comparePrerelease (prerelease p) (prerelease q))"

definition semver_Compare :: "string \<Rightarrow> string \<Rightarrow> int" where
  "semver_Compare v w =
     (case (parse v, parse w) of
        (None, None) \<Rightarrow> 0
      | (None, Some _) \<Rightarrow> -1
      | (Some _, None) \<Rightarrow> 1
      | (Some p, Some q) \<Rightarrow> compare_parsed p q)"

section \<open>The operator's wrappers\<close>

text \<open>\<open>version[0]\<close> of an empty string panics: \<open>None\<close>.\<close>

definition with_v :: "string \<Rightarrow> string option" where
  "with_v v = (case v of [] \<Rightarrow> None | c # cs \<Rightarrow> Some (if c \<noteq> CHR ''v'' then CHR ''v'' # v else v))"

definition IsValid :: "string \<Rightarrow> bool" where
  "IsValid v = (case with_v v of None \<Rightarrow> False | Some w \<Rightarrow> parse w \<noteq> None)"

definition Compare :: "string \<Rightarrow> string \<Rightarrow> int option" where
  "Compare v w =
     (case (with_v v, with_v w) of
        (Some v', Some w') \<Rightarrow> Some (semver_Compare v' w')
      | _ \<Rightarrow> None)"

section \<open>The order of versions\<close>

definition cmp :: "'a::linorder \<Rightarrow> 'a \<Rightarrow> int" where
  "cmp a b = (if a < b then -1 else if a = b then 0 else 1)"

text \<open>Keys whose order the comparisons follow.\<close>

definition int_key :: "string \<Rightarrow> nat \<times> string" where
  "int_key x = (length x, x)"

definition ident_key :: "string \<Rightarrow> nat \<times> nat \<times> string" where
  "ident_key x = (if isNum x then (0, length x, x) else (1, 0, x))"

definition version_key :: "parsed \<Rightarrow> (nat \<times> string) \<times> (nat \<times> string) \<times> (nat \<times> string) \<times> nat \<times> (nat \<times> nat \<times> string) list" where
  "version_key p =
     (int_key (major p), int_key (minor p), int_key (patch p),
      if prerelease p = [] then 1 else 0, map ident_key (prerelease p))"

lemma ident_key_inject: "ident_key x = ident_key y \<longleftrightarrow> x = y"
  by (auto simp: ident_key_def split: if_splits)

lemma compareInt_key: "compareInt x y = cmp (int_key x) (int_key y)"
  by (auto simp: compareInt_def cmp_def int_key_def)

lemma compare_ident_key: "x \<noteq> y \<Longrightarrow> compare_ident x y = cmp (ident_key x) (ident_key y)"
  by (auto simp: compare_ident_def cmp_def ident_key_def)

lemma compare_idents_key: "compare_idents xs ys = cmp (map ident_key xs) (map ident_key ys)"
proof (induction xs ys rule: compare_idents.induct)
  case (4 x xs y ys)
  then show ?case
    using compare_ident_key[of x y] ident_key_inject[of x y] by (auto simp: cmp_def)
qed (auto simp: cmp_def)

lemma cmp_pair: "cmp (a, b) (c, d) = (if cmp a c \<noteq> 0 then cmp a c else cmp b d)"
  by (auto simp: cmp_def)

lemma comparePrerelease_key:
  "comparePrerelease x y = cmp (if x = [] then 1 else 0 :: nat, map ident_key x) (if y = [] then 1 else 0, map ident_key y)"
proof -
  have "map ident_key x = map ident_key y \<longleftrightarrow> x = y"
    by (rule inj_map_eq_map) (auto simp: inj_def ident_key_inject)
  then show ?thesis by (auto simp: comparePrerelease_def compare_idents_key cmp_def)
qed

lemma compare_parsed_key: "compare_parsed p q = cmp (version_key p) (version_key q)"
  unfolding compare_parsed_def version_key_def cmp_pair[of "int_key _"] compareInt_key comparePrerelease_key
  by (simp add: Let_def)

text \<open>What the controllers rely on of the version order.\<close>

locale version_order =
  fixes valid :: "'v \<Rightarrow> bool"
    and vcmp :: "'v \<Rightarrow> 'v \<Rightarrow> int"
  assumes vcmp_range: "vcmp a b \<in> {-1, 0, 1}"
    and vcmp_refl: "vcmp a a = 0"
    and vcmp_sym: "vcmp a b = - vcmp b a"
    and vcmp_trans: "vcmp a b \<le> 0 \<Longrightarrow> vcmp b c \<le> 0 \<Longrightarrow> vcmp a c \<le> 0"
    and vcmp_invalid: "\<not> valid a \<Longrightarrow> vcmp a b \<le> 0"
begin

lemma downgrade_not_upgrade: "vcmp a b = -1 \<Longrightarrow> vcmp b a = 1"
  using vcmp_sym[of b a] by simp

lemma vcmp_total: "vcmp a b = -1 \<or> vcmp a b = 0 \<or> vcmp b a = -1"
  using vcmp_range[of a b] vcmp_sym[of b a] by auto

lemma downgrade_trans: "vcmp a b = -1 \<Longrightarrow> vcmp b c = -1 \<Longrightarrow> vcmp a c = -1"
  using vcmp_trans[of a b c] vcmp_trans[of b c a] vcmp_range[of a c] vcmp_sym[of c a] vcmp_sym[of b a] by force

end

lemma cmp_laws:
  "cmp a b \<in> {-1, 0, 1}" "cmp a a = 0" "cmp a b = - cmp b a"
  "cmp a b \<le> 0 \<Longrightarrow> cmp b c \<le> 0 \<Longrightarrow> cmp a c \<le> 0"
  by (auto simp: cmp_def split: if_splits)

interpretation semver: version_order "\<lambda>v. parse v \<noteq> None" semver_Compare
proof
  fix a b c
  show "semver_Compare a b \<in> {-1, 0, 1}" and "semver_Compare a a = 0" and "semver_Compare a b = - semver_Compare b a"
    using cmp_laws by (auto simp: semver_Compare_def compare_parsed_key split: option.splits)
  show "semver_Compare a b \<le> 0 \<Longrightarrow> semver_Compare b c \<le> 0 \<Longrightarrow> semver_Compare a c \<le> 0"
    using cmp_laws(4) by (auto simp: semver_Compare_def compare_parsed_key split: option.splits)
  show "\<not> parse a \<noteq> None \<Longrightarrow> semver_Compare a b \<le> 0"
    by (auto simp: semver_Compare_def split: option.splits)
qed

section \<open>Numbers compare by value\<close>

definition digit :: "char \<Rightarrow> nat" where
  "digit c = of_char c - 48"

fun num_val :: "string \<Rightarrow> nat" where
  "num_val [] = 0"
| "num_val (c # cs) = digit c * 10 ^ length cs + num_val cs"

lemma digit_range: "is_digit c \<Longrightarrow> digit c \<le> 9"
  by (auto simp: is_digit_def digit_def Let_def)

lemma digit_less: "is_digit c \<Longrightarrow> is_digit d \<Longrightarrow> digit c < digit d \<longleftrightarrow> c < d"
  by (auto simp: is_digit_def digit_def Let_def less_char_def)

lemma digit_inject: "is_digit c \<Longrightarrow> is_digit d \<Longrightarrow> digit c = digit d \<longleftrightarrow> c = d"
  using digit_less[of c d] digit_less[of d c] by (metis less_linear less_irrefl)

lemma num_val_bound: "list_all is_digit x \<Longrightarrow> num_val x < 10 ^ length x"
proof (induction x)
  case (Cons c x)
  then have "digit c * 10 ^ length x \<le> 9 * 10 ^ length x" 
    using digit_range[of c] Cons.prems by (intro mult_le_mono1) simp
  moreover have "num_val x < 10 ^ length x" using Cons by simp
  ultimately have "digit c * 10 ^ length x + num_val x < 10 * 10 ^ length x" by linarith
  then show ?case by simp
qed simp

lemma num_val_less:
  assumes "list_all is_digit x" and "list_all is_digit y" and "length x = length y"
  shows "(num_val x < num_val y \<longleftrightarrow> x < y) \<and> (num_val x = num_val y \<longleftrightarrow> x = y)"
  using assms(3,1,2)
proof (induction x y rule: list_induct2)
  case (Cons c x d y)
  let ?k = "10 ^ length x :: nat"
  have b: "num_val x < ?k" "num_val y < ?k" using Cons num_val_bound[of x] num_val_bound[of y] by auto
  have less: "digit a * ?k + u < digit e * ?k + w" if "digit a < digit e" "u < ?k" for a e u w
  proof -
    have "digit a * ?k + u < (digit a + 1) * ?k" using that(2) by simp
    also have "\<dots> \<le> digit e * ?k" using that(1) by (intro mult_le_mono1) simp
    finally show ?thesis by simp
  qed
  have eq: "num_val (c # x) = digit c * ?k + num_val x" "num_val (d # y) = digit d * ?k + num_val y"
    using Cons.hyps by simp_all
  consider "c = d" | "digit c < digit d" | "digit d < digit c"
    using digit_inject[of c d] Cons.prems by fastforce
  then show ?case
  proof cases
    case 1
    then show ?thesis unfolding eq using Cons by auto
  next
    case 2
    then have "c < d" using Cons.prems digit_less[of c d] by simp
    then show ?thesis unfolding eq using less[OF 2 b(1), of "num_val y"] by auto
  next
    case 3
    then have "d < c" using Cons.prems digit_less[of d c] by simp
    then show ?thesis unfolding eq using less[OF 3 b(2), of "num_val x"] by auto
  qed
qed simp

lemma num_val_length:
  assumes "list_all is_digit y" and "length x < length y" and "list_all is_digit x" and "hd y \<noteq> CHR ''0''"
  shows "num_val x < num_val y"
proof -
  obtain c cs where y: "y = c # cs" using assms(2) by (cases y) auto
  have "digit c \<noteq> 0" using assms(1,4) y digit_inject[of c "CHR ''0''"] by (auto simp: is_digit_def digit_def)
  then have "10 ^ length cs \<le> num_val y" using y by simp (metis One_nat_def Suc_leI mult_le_mono1 nat_mult_1 neq0_conv trans_le_add1)
  moreover have "(10 :: nat) ^ length x \<le> 10 ^ length cs" using assms(2) y by (intro power_increasing) auto
  ultimately show ?thesis using num_val_bound[OF assms(3)] by linarith
qed

text \<open>A number as \<open>parseInt\<close> accepts it: digits, and no leading zero unless it is the only digit.\<close>

definition plain_number :: "string \<Rightarrow> bool" where
  "plain_number x \<longleftrightarrow> x \<noteq> [] \<and> list_all is_digit x \<and> (hd x = CHR ''0'' \<longrightarrow> length x = 1)"

lemma parseInt_plain: "parseInt v = Some (t, r) \<Longrightarrow> plain_number t"
  using set_takeWhileD[of _ is_digit v]
  by (auto simp: parseInt_def plain_number_def Let_def list_all_iff split: if_splits)

lemma compareInt_value:
  assumes "plain_number x" and "plain_number y"
  shows "compareInt x y = cmp (num_val x) (num_val y)"
proof -
  have longer: "num_val a < num_val b" if "plain_number a" "plain_number b" "length a < length b" for a b
    using that num_val_length[of b a] by (cases a) (auto simp: plain_number_def)
  show ?thesis
    using num_val_less[of x y] longer[OF assms] longer[OF assms(2,1)] assms
    by (cases "length x" "length y" rule: linorder_cases)
       (auto simp: compareInt_def cmp_def plain_number_def)
qed

definition well_parsed :: "parsed \<Rightarrow> bool" where
  "well_parsed p \<longleftrightarrow> plain_number (major p) \<and> plain_number (minor p) \<and> plain_number (patch p)"

lemma parse_well: "parse v = Some p \<Longrightarrow> well_parsed p"
  using parseInt_plain
  by (auto simp: parse_def well_parsed_def plain_number_def is_digit_def split: list.splits if_splits option.splits prod.splits)

text \<open>
  Versions compare as semantic versioning says, on the parsed numbers: a larger major, minor or patch
  number wins whatever the number of its digits, and on equal numbers a prerelease is older than the
  release; a missing leading \<open>v\<close> makes no difference.
\<close>

theorem version_compare_numbers:
  assumes "with_v v = Some v'" and "with_v w = Some w'" and "parse v' = Some p" and "parse w' = Some q"
  shows "Compare v w = Some
     (cmp (num_val (major p), num_val (minor p), num_val (patch p), if prerelease p = [] then 1 else 0 :: nat, map ident_key (prerelease p))
          (num_val (major q), num_val (minor q), num_val (patch q), if prerelease q = [] then 1 else 0, map ident_key (prerelease q)))"
proof -
  have "compareInt (major p) (major q) = cmp (num_val (major p)) (num_val (major q))"
    "compareInt (minor p) (minor q) = cmp (num_val (minor p)) (num_val (minor q))"
    "compareInt (patch p) (patch q) = cmp (num_val (patch p)) (num_val (patch q))"
    using parse_well[OF assms(3)] parse_well[OF assms(4)] compareInt_value by (auto simp: well_parsed_def)
  then show ?thesis
    using assms by (simp add: Compare_def semver_Compare_def compare_parsed_def comparePrerelease_key cmp_pair[of "_ :: nat"] Let_def)
qed

theorem version_compare_numbers_witness: "Compare ''1.10.0'' ''v1.9.0'' = Some 1"
proof -
  have "with_v ''1.10.0'' = Some ''v1.10.0''" "with_v ''v1.9.0'' = Some ''v1.9.0''" by code_simp+
  moreover have "parse ''v1.10.0'' = Some \<lparr>major = ''1'', minor = ''10'', patch = ''0'', prerelease = [], build = []\<rparr>"
    "parse ''v1.9.0'' = Some \<lparr>major = ''1'', minor = ''9'', patch = ''0'', prerelease = [], build = []\<rparr>"
    by code_simp+
  ultimately show ?thesis
    using version_compare_numbers by (simp add: cmp_def digit_def)
qed

end
