(* ===== verification/Webhook.thy ===== *)
theory Webhook
  imports NodeWright_Types Version
begin

text \<open>
  Admission of NodeWright resources: \<open>operator/api/nodewright/v1alpha1/nodewright_webhook.go\<close>.

  The API server the webhook asks for a deployment policy is a parameter: what it answers for a
  name.  Messages are left out of the errors, their arguments are kept.  The properties say what an
  admitted resource guarantees to the components behind the webhook.
\<close>

section \<open>Glob patterns\<close>

text \<open>
  \<open>filepath.Match\<close> of the standard library: a star for any run of characters but the separator, a
  question mark for one, classes, and escapes.  A malformed pattern matches nothing.
\<close>

datatype glob = GStar | GAny | GClass bool "(char \<times> char) list" | GLit char

definition glob_escape :: "string \<Rightarrow> (char \<times> string) option" where
  "glob_escape s =
     (case s of
        [] \<Rightarrow> None
      | c # cs \<Rightarrow>
          if c = CHR ''-'' \<or> c = CHR '']'' then None
          else if c = CHR 0x5C then (case cs of [] \<Rightarrow> None | d # ds \<Rightarrow> if ds = [] then None else Some (d, ds))
          else if cs = [] then None else Some (c, cs))"

text \<open>The ranges of a class up to its closing bracket; at least one.\<close>

function glob_ranges :: "(char \<times> char) list \<Rightarrow> string \<Rightarrow> ((char \<times> char) list \<times> string) option" where
  "glob_ranges acc s =
     (case s of
        [] \<Rightarrow> None
      | c # cs \<Rightarrow>
          if c = CHR '']'' \<and> acc \<noteq> [] then Some (rev acc, cs)
          else case glob_escape s of
                 None \<Rightarrow> None
               | Some (lo, s1) \<Rightarrow>
                   (case s1 of
                      [] \<Rightarrow> None
                    | d # s2 \<Rightarrow>
                        if d = CHR ''-'' then
                          (case glob_escape s2 of
                             None \<Rightarrow> None
                           | Some (hi, s3) \<Rightarrow>
                               if length s3 < length s then glob_ranges ((lo, hi) # acc) s3 else None)
                        else if length s1 < length s then glob_ranges ((lo, lo) # acc) s1 else None))"
  by pat_completeness auto
termination
  by (relation "measure (\<lambda>(acc, s). length s)") auto

function glob_parse :: "string \<Rightarrow> glob list option" where
  "glob_parse [] = Some []"
| "glob_parse (c # cs) =
     (if c = CHR ''*'' then map_option (\<lambda>g. GStar # g) (glob_parse cs)
      else if c = CHR ''?'' then map_option (\<lambda>g. GAny # g) (glob_parse cs)
      else if c = CHR 0x5C then
        (case cs of [] \<Rightarrow> None | d # ds \<Rightarrow> map_option (\<lambda>g. GLit d # g) (glob_parse ds))
      else if c = CHR ''['' then
        (let neg = (case cs of d # _ \<Rightarrow> d = CHR ''^'' | [] \<Rightarrow> False)
         in case glob_ranges [] (if neg then tl cs else cs) of
              None \<Rightarrow> None
            | Some (rs, rest) \<Rightarrow>
                if length rest \<le> length cs then map_option (\<lambda>g. GClass neg rs # g) (glob_parse rest) else None)
      else map_option (\<lambda>g. GLit c # g) (glob_parse cs))"
  by pat_completeness auto
termination
  by (relation "measure length") auto

declare glob_ranges.simps [simp del]

function glob_match :: "glob list \<Rightarrow> string \<Rightarrow> bool" where
  "glob_match [] s = (s = [])"
| "glob_match (GStar # g) s =
     (glob_match g s \<or> (case s of [] \<Rightarrow> False | c # cs \<Rightarrow> c \<noteq> CHR ''/'' \<and> glob_match (GStar # g) cs))"
| "glob_match (GAny # g) s = (case s of [] \<Rightarrow> False | c # cs \<Rightarrow> c \<noteq> CHR ''/'' \<and> glob_match g cs)"
| "glob_match (GLit d # g) s = (case s of [] \<Rightarrow> False | c # cs \<Rightarrow> c = d \<and> glob_match g cs)"
| "glob_match (GClass neg rs # g) s =
     (case s of
        [] \<Rightarrow> False
      | c # cs \<Rightarrow> (list_ex (\<lambda>(lo, hi). lo \<le> c \<and> c \<le> hi) rs \<noteq> neg) \<and> glob_match g cs)"
  by pat_completeness auto
termination
  by (relation "measures [\<lambda>(g, s). length g + length s]") auto

definition filepath_Match :: "string \<Rightarrow> string \<Rightarrow> bool" where
  "filepath_Match pattern name = (case glob_parse pattern of None \<Rightarrow> False | Some g \<Rightarrow> glob_match g name)"

section \<open>Validation\<close>

datatype webhook_error =
    SpecError spec_error
  | PolicyAndBudget
  | BadPodSelector
  | BadNodeSelector
  | NameMismatch string string
  | DuplicatePackage string
  | BadPackageName string
  | GlobMatchesNothing string
  | NoSuchConfigKey string
  | InlineDigest string string
  | InlineTag string string
  | BadVersion string string
  | ResourcesPartial string
  | CpuLimitBelow string
  | MemoryLimitBelow string
  | ResourcesNotPositive string
  | ApplyWithoutEnabled string
  | StageTimeoutNegative string
  | GraphInvalid graph_error
  | RemovedNotUninstalled string
  | DowngradeNeedsApply string
  | DowngradeNotFinished string
  | PolicyNotFound string
  | PolicyLookupFailed string

definition is_lower :: "char \<Rightarrow> bool" where
  "is_lower c \<longleftrightarrow> (let n = of_char c :: nat in 97 \<le> n \<and> n \<le> 122)"

text \<open>The regular expression of \<open>validPackageName\<close>.\<close>

definition validPackageName :: "string \<Rightarrow> bool" where
  "validPackageName s \<longleftrightarrow>
     2 \<le> length s \<and> length s \<le> 43 \<and> is_lower (hd s) \<and> is_lower (last s) \<and>
     list_all (\<lambda>c. is_lower_alnum c \<or> c = CHR ''-'') s"

definition validateResourceOverrides :: "string \<Rightarrow> ResourceRequirements option \<Rightarrow> webhook_error + unit" where
  "validateResourceOverrides name res =
     (case res of
        None \<Rightarrow> Inr ()
      | Some r \<Rightarrow>
          (let vals = [CPURequest r, CPULimit r, MemoryRequest r, MemoryLimit r];
               anySet = list_ex (\<lambda>x. x \<noteq> 0) vals; allSet = list_all (\<lambda>x. x \<noteq> 0) vals
           in if anySet \<and> \<not> allSet then Inl (ResourcesPartial name)
              else if allSet \<and> CPULimit r < CPURequest r then Inl (CpuLimitBelow name)
              else if allSet \<and> MemoryLimit r < MemoryRequest r then Inl (MemoryLimitBelow name)
              else if allSet \<and> list_ex (\<lambda>x. x \<le> 0) vals then Inl (ResourcesNotPositive name)
              else Inr ()))"

text \<open>The loop over the config interrupts of a package: exact keys, then globs with a star.\<close>

fun validate_config_interrupts :: "(string, string) gomap \<Rightarrow> string list \<Rightarrow> webhook_error + unit" where
  "validate_config_interrupts configMap [] = Inr ()"
| "validate_config_interrupts configMap (pat # rest) =
     (if map_of configMap pat \<noteq> None then validate_config_interrupts configMap rest
      else if CHR ''*'' \<in> set pat then
        (if list_ex (filepath_Match pat) (gkeys configMap) then validate_config_interrupts configMap rest
         else Inl (GlobMatchesNothing pat))
      else Inl (NoSuchConfigKey pat))"

definition validate_package :: "string list \<Rightarrow> string \<Rightarrow> Package \<Rightarrow> webhook_error + unit" where
  "validate_package names name v =
     (if p_Name v \<noteq> name then Inl (NameMismatch name (p_Name v))
      else if p_Name v \<in> set names then Inl (DuplicatePackage (p_Name v))
      else if \<not> validPackageName (p_Name v) then Inl (BadPackageName (p_Name v))
      else case validate_config_interrupts (p_ConfigMap v) (gkeys (p_ConfigInterrupts v)) of
        Inl e \<Rightarrow> Inl e
      | Inr _ \<Rightarrow>
          (case splitImageReference (p_Image v) of
             (_, _, Some digest) \<Rightarrow> Inl (InlineDigest name (p_Image v))
           | (_, Some tag, None) \<Rightarrow> Inl (InlineTag name tag)
           | (_, None, None) \<Rightarrow>
               if \<not> IsValid (p_Version v) then Inl (BadVersion (p_Name v) (p_Version v))
               else case validateResourceOverrides name (p_Resources v) of
                 Inl e \<Rightarrow> Inl e
               | Inr _ \<Rightarrow>
                   if (case p_Uninstall v of Some u \<Rightarrow> Apply u \<and> \<not> Enabled u | None \<Rightarrow> False)
                   then Inl (ApplyWithoutEnabled name)
                   else if (case p_StageTimeout v of Some t \<Rightarrow> t < 0 | None \<Rightarrow> False)
                   then Inl (StageTimeoutNegative name)
                   else Inr ()))"

fun validate_packages :: "string list \<Rightarrow> Packages \<Rightarrow> webhook_error + unit" where
  "validate_packages names [] = Inr ()"
| "validate_packages names ((name, v) # rest) =
     (case validate_package names name v of
        Inl e \<Rightarrow> Inl e
      | Inr _ \<Rightarrow> validate_packages (p_Name v # names) rest)"

definition NodeWright_Validate :: "NodeWright \<Rightarrow> webhook_error + unit" where
  "NodeWright_Validate r =
     (let spec = nw_Spec r; budget = spec_InterruptionBudget spec
      in case InterruptionBudget_Validate budget of
           Inl e \<Rightarrow> Inl (SpecError e)
         | Inr _ \<Rightarrow>
           (case DrainConfig_Validate (spec_DrainConfig spec) of
              Inl e \<Rightarrow> Inl (SpecError e)
            | Inr _ \<Rightarrow>
              if spec_DeploymentPolicy spec \<noteq> [] \<and> (ib_Percent budget \<noteq> None \<or> ib_Count budget \<noteq> None)
              then Inl PolicyAndBudget
              else if LabelSelectorAsSelector (PodNonInterruptLabels spec) = None then Inl BadPodSelector
              else if LabelSelectorAsSelector (NodeSelector spec) = None then Inl BadNodeSelector
              else case validate_packages [] (spec_Packages spec) of
                Inl e \<Rightarrow> Inl e
              | Inr _ \<Rightarrow>
                (case BuildGraph spec of
                   Inl e \<Rightarrow> Inl (SpecError e)
                 | Inr g \<Rightarrow> (case Valid g of Inl e \<Rightarrow> Inl (GraphInvalid e) | Inr _ \<Rightarrow> Inr ()))))"

definition isPackageFullyUninstalled :: "NodeWright \<Rightarrow> string \<Rightarrow> bool" where
  "isPackageFullyUninstalled skyhook packageName =
     (case map_of (spec_Packages (nw_Spec skyhook)) packageName of
        None \<Rightarrow> False
      | Some pkg \<Rightarrow>
          list_all (\<lambda>(node, nodeState). ns_get nodeState (GetUniqueName pkg) = None)
            (or_empty (st_NodeState (nw_Status skyhook))))"

text \<open>What the API server answers when asked for a deployment policy.\<close>

datatype lookup_result = Found | NotFound | LookupError

definition validateDeploymentPolicyExists :: "(string \<Rightarrow> lookup_result) \<Rightarrow> NodeWright \<Rightarrow> webhook_error + unit" where
  "validateDeploymentPolicyExists client skyhook =
     (let name = spec_DeploymentPolicy (nw_Spec skyhook)
      in if name = [] then Inr ()
         else case client name of
           Found \<Rightarrow> Inr ()
         | NotFound \<Rightarrow> Inl (PolicyNotFound name)
         | LookupError \<Rightarrow> Inl (PolicyLookupFailed name))"

definition ValidateCreate :: "(string \<Rightarrow> lookup_result) \<Rightarrow> NodeWright \<Rightarrow> webhook_error + unit" where
  "ValidateCreate client skyhook =
     (case NodeWright_Validate skyhook of
        Inl e \<Rightarrow> Inl e
      | Inr _ \<Rightarrow> validateDeploymentPolicyExists client skyhook)"

text \<open>The two rejecting loops of \<open>ValidateUpdate\<close>, one old package at a time.\<close>

definition check_removed :: "NodeWright \<Rightarrow> NodeWright \<Rightarrow> string \<Rightarrow> Package \<Rightarrow> webhook_error + unit" where
  "check_removed old new name oldPkg =
     (if map_of (spec_Packages (nw_Spec new)) name = None \<and> UninstallEnabled oldPkg \<and>
         \<not> isPackageFullyUninstalled old name
      then Inl (RemovedNotUninstalled name) else Inr ())"

definition check_downgrade :: "NodeWright \<Rightarrow> NodeWright \<Rightarrow> string \<Rightarrow> Package \<Rightarrow> webhook_error + unit" where
  "check_downgrade old new name oldPkg =
     (case map_of (spec_Packages (nw_Spec new)) name of
        None \<Rightarrow> Inr ()
      | Some newPkg \<Rightarrow>
          if p_Version newPkg = p_Version oldPkg then Inr ()
          else if \<not> IsValid (p_Version newPkg) \<or> \<not> IsValid (p_Version oldPkg) then Inr ()
          else if Compare (p_Version newPkg) (p_Version oldPkg) \<noteq> Some (-1) then Inr ()
          else if \<not> UninstallEnabled oldPkg then Inr ()
          else if \<not> IsUninstalling oldPkg then Inl (DowngradeNeedsApply name)
          else if \<not> isPackageFullyUninstalled old name then Inl (DowngradeNotFinished name)
          else Inr ())"

fun check_each :: "(string \<Rightarrow> Package \<Rightarrow> webhook_error + unit) \<Rightarrow> Packages \<Rightarrow> webhook_error + unit" where
  "check_each chk [] = Inr ()"
| "check_each chk ((name, p) # rest) = (case chk name p of Inl e \<Rightarrow> Inl e | Inr _ \<Rightarrow> check_each chk rest)"

text \<open>The names the cancel loop warns about.\<close>

definition cancelled_names :: "NodeWright \<Rightarrow> NodeWright \<Rightarrow> string list" where
  "cancelled_names old new =
     map fst (filter (\<lambda>(name, oldPkg).
       case map_of (spec_Packages (nw_Spec new)) name of
         None \<Rightarrow> False
       | Some newPkg \<Rightarrow> IsUninstalling oldPkg \<and> \<not> IsUninstalling newPkg) (spec_Packages (nw_Spec old)))"

definition ValidateUpdate ::
  "(string \<Rightarrow> lookup_result) \<Rightarrow> NodeWright option \<Rightarrow> NodeWright \<Rightarrow> string list \<times> (webhook_error + unit)" where
  "ValidateUpdate client oldo new =
     (case NodeWright_Validate new of
        Inl e \<Rightarrow> ([], Inl e)
      | Inr _ \<Rightarrow>
          (case oldo of
             None \<Rightarrow> ([], validateDeploymentPolicyExists client new)
           | Some old \<Rightarrow>
               (case check_each (check_removed old new) (spec_Packages (nw_Spec old)) of
                  Inl e \<Rightarrow> ([], Inl e)
                | Inr _ \<Rightarrow>
                    (case check_each (check_downgrade old new) (spec_Packages (nw_Spec old)) of
                       Inl e \<Rightarrow> ([], Inl e)
                     | Inr _ \<Rightarrow> (cancelled_names old new, validateDeploymentPolicyExists client new)))))"

section \<open>What admission guarantees\<close>

lemma validPackageName_no_bar: "validPackageName s \<Longrightarrow> CHR ''|'' \<notin> set s"
  by (auto simp: validPackageName_def list_all_iff is_lower_alnum_def)

lemma validate_package_ok:
  assumes "validate_package names k v = Inr ()"
  shows "p_Name v = k" and "validPackageName k" and "IsValid (p_Version v)"
    and "fst (snd (splitImageReference (p_Image v))) = None"
    and "snd (snd (splitImageReference (p_Image v))) = None"
  using assms
  by (auto simp: validate_package_def split: if_splits sum.splits prod.splits option.splits)

lemma admitted_packages:
  "validate_packages names pk = Inr () \<Longrightarrow> (k, v) \<in> set pk \<Longrightarrow> \<exists>ns. validate_package ns k v = Inr ()"
proof (induction pk arbitrary: names)
  case (Cons e pk)
  then show ?case by (cases e) (auto split: sum.splits)
qed simp

lemma validate_stages:
  assumes "NodeWright_Validate r = Inr ()"
  shows "validate_packages [] (spec_Packages (nw_Spec r)) = Inr ()"
    and "\<exists>g. BuildGraph (nw_Spec r) = Inr g \<and> Valid g = Inr ()"
  using assms by (auto simp: NodeWright_Validate_def Let_def split: sum.splits if_splits)

lemma admitted_packages_ok:
  assumes "NodeWright_Validate r = Inr ()" and "gomap_ok (spec_Packages (nw_Spec r))"
  shows "packages_ok (spec_Packages (nw_Spec r))"
proof -
  have "p_Name p = k \<and> CHR ''|'' \<notin> set k" if "(k, p) \<in> set (spec_Packages (nw_Spec r))" for k p
    using admitted_packages[OF validate_stages(1)[OF assms(1)] that] validate_package_ok(1,2) validPackageName_no_bar
    by blast
  then show ?thesis using assms(2) by (auto simp: packages_ok_def list_all_iff)
qed

text \<open>
  An admitted resource meets what the rest of the operator relies on: packages are keyed by their
  names, which have no separator, so unique names do not collide; every version is a semantic
  version; and the dependency graph builds, satisfies its invariant and is closed, so that walking it
  never fails.
\<close>

theorem admitted_guarantees:
  assumes "NodeWright_Validate r = Inr ()" and "gomap_ok (spec_Packages (nw_Spec r))"
  shows "packages_ok (spec_Packages (nw_Spec r)) \<and>
     (\<forall>(k, p) \<in> set (spec_Packages (nw_Spec r)). IsValid (p_Version p)) \<and>
     (\<exists>g. BuildGraph (nw_Spec r) = Inr g \<and> graph_ok g \<and>
        names_of g = GetUniqueName ` snd ` set (spec_Packages (nw_Spec r)))"
proof -
  have ok: "packages_ok (spec_Packages (nw_Spec r))" by (rule admitted_packages_ok[OF assms])
  obtain g where g: "BuildGraph (nw_Spec r) = Inr g" "Valid g = Inr ()"
    using validate_stages(2)[OF assms(1)] by blast
  have "dag_ok g" and "names_of g = GetUniqueName ` snd ` set (spec_Packages (nw_Spec r))"
    using BuildGraph_views[OF ok g(1)] by blast+
  moreover have "\<forall>(k, p) \<in> set (spec_Packages (nw_Spec r)). IsValid (p_Version p)"
    using admitted_packages[OF validate_stages(1)[OF assms(1)]] validate_package_ok(3) by blast
  ultimately show ?thesis using ok g by (auto simp: graph_ok_def)
qed

lemma check_each_ok: "check_each chk pk = Inr () \<longleftrightarrow> (\<forall>(name, p) \<in> set pk. chk name p = Inr ())"
  by (induction pk) (auto split: sum.splits)

lemma fully_uninstalled_iff:
  "map_of (spec_Packages (nw_Spec s)) name = Some p \<Longrightarrow>
     isPackageFullyUninstalled s name \<longleftrightarrow>
       (\<forall>(node, ns) \<in> set (or_empty (st_NodeState (nw_Status s))). ns_get ns (GetUniqueName p) = None)"
  by (simp add: isPackageFullyUninstalled_def list_all_iff)

text \<open>
  C26. An accepted update never strands an installed package: a package with uninstall support leaves the
  specification, or goes back to an older version, only after it is gone from every node's state, and
  a downgrade also only where uninstalling had been requested.
\<close>

theorem update_safe:
  assumes "ValidateUpdate client (Some old) new = (warnings, Inr ())"
    and "gomap_ok (spec_Packages (nw_Spec old))"
    and "(name, oldPkg) \<in> set (spec_Packages (nw_Spec old))" and "UninstallEnabled oldPkg"
    and "(node, ns) \<in> set (or_empty (st_NodeState (nw_Status old)))"
    and "ns_get ns (GetUniqueName oldPkg) \<noteq> None"
  shows "\<exists>newPkg. map_of (spec_Packages (nw_Spec new)) name = Some newPkg \<and>
     (p_Version newPkg = p_Version oldPkg \<or> \<not> IsValid (p_Version newPkg) \<or> \<not> IsValid (p_Version oldPkg) \<or>
      Compare (p_Version newPkg) (p_Version oldPkg) \<noteq> Some (-1))"
proof -
  have "check_each (check_removed old new) (spec_Packages (nw_Spec old)) = Inr ()"
    and "check_each (check_downgrade old new) (spec_Packages (nw_Spec old)) = Inr ()"
    using assms(1) by (auto simp: ValidateUpdate_def split: sum.splits)
  then have rem: "check_removed old new name oldPkg = Inr ()" and down: "check_downgrade old new name oldPkg = Inr ()"
    using assms(3) by (auto simp: check_each_ok)
  have "map_of (spec_Packages (nw_Spec old)) name = Some oldPkg" using assms(2,3) by simp
  then have "\<not> isPackageFullyUninstalled old name"
    using fully_uninstalled_iff assms(5,6) by fastforce
  then show ?thesis
    using rem down assms(4)
    by (auto simp: check_removed_def check_downgrade_def split: if_splits option.splits)
qed

section \<open>Image references\<close>

text \<open>The last path segment of a reference.\<close>

definition last_segment :: "string \<Rightarrow> string" where
  "last_segment s = rev (takeWhile (\<lambda>x. x \<noteq> CHR ''/'') (rev s))"

lemma takeWhile_order:
  "c \<noteq> d \<Longrightarrow> c \<in> set xs \<Longrightarrow>
     length (takeWhile (\<lambda>x. x \<noteq> c) xs) < length (takeWhile (\<lambda>x. x \<noteq> d) xs) \<longleftrightarrow> c \<in> set (takeWhile (\<lambda>x. x \<noteq> d) xs)"
  by (induction xs) auto

lemma takeWhile_before: "c \<in> set xs \<Longrightarrow> length (takeWhile (\<lambda>x. x \<noteq> c) xs) < length xs"
  by (induction xs) auto

lemma last_index_less:
  assumes "c \<noteq> d"
  shows "last_index d s < last_index c s \<longleftrightarrow> c \<in> set (takeWhile (\<lambda>x. x \<noteq> d) (rev s))"
proof (cases "c \<in> set s")
  case True
  then have c: "length (takeWhile (\<lambda>x. x \<noteq> c) (rev s)) < length s" using takeWhile_before[of c "rev s"] by simp
  show ?thesis
  proof (cases "d \<in> set s")
    case True
    then show ?thesis
      using takeWhile_order[OF assms, of "rev s"] \<open>c \<in> set s\<close> by (auto simp: last_index_def)
  next
    case False
    then have tw: "takeWhile (\<lambda>x. x \<noteq> d) (rev s) = rev s" by (auto simp: takeWhile_eq_all_conv)
    show ?thesis unfolding tw using c \<open>c \<in> set s\<close> False by (auto simp: last_index_def)
  qed
next
  case False
  have "-1 \<le> last_index d s" using takeWhile_before[of d "rev s"] by (auto simp: last_index_def)
  then show ?thesis using False set_takeWhileD[of c _ "rev s"] by (auto simp: last_index_def)
qed

text \<open>
  The webhook takes an image reference as bare exactly when it has no digest separator and no colon in
  its last path segment: a colon before the last slash is a registry port, and an empty tag or digest
  is not let through.
\<close>

theorem bare_image_iff:
  "splitImageReference img = (img, None, None) \<longleftrightarrow>
     CHR ''@'' \<notin> set img \<and> CHR '':'' \<notin> set (last_segment img)"
proof -
  have digest: "0 \<le> last_index CHR ''@'' img \<longleftrightarrow> CHR ''@'' \<in> set img"
    using takeWhile_before[of "CHR ''@''" "rev img"] by (auto simp: last_index_def)
  show ?thesis
    using last_index_less[of "CHR '':''" "CHR ''/''" img] digest
    by (auto simp: splitImageReference_def last_segment_def Let_def split: if_splits)
qed

section \<open>Witnesses\<close>

definition sample_nodewright :: "Packages \<Rightarrow> (string, NodeState) gomap \<Rightarrow> NodeWright" where
  "sample_nodewright pk states =
     \<lparr>nw_Name = ''tune'', nw_UID = ''u'', Generation = 1, nw_Annotations = None, nw_Finalizers = [], DeletionTimestamp = None,
      CreationTimestamp = 0, nw_Spec = sample_spec pk,
      nw_Status = \<lparr>ObservedGeneration = 1, st_NodeState = Some states, st_NodeStatus = None,
        st_Status = StatusInProgress, st_Conditions = [], NodeBootIds = None, NodePriority = None,
        NodeOrderOffset = 0, ConfigUpdates = None, CompartmentStatuses = None, NodesInProgress = 0,
        CompleteNodes = [], PackageList = []\<rparr>\<rparr>"

definition sample_uninstallable :: Package where
  "sample_uninstallable = sample_package\<lparr>p_Uninstall := Some \<lparr>Enabled = True, Apply = False\<rparr>\<rparr>"

lemma sample_admitted:
  "NodeWright_Validate (sample_nodewright [(''tuning'', sample_package)] []) = Inr ()"
  "NodeWright_Validate (sample_nodewright [(''tuning'', sample_uninstallable)] []) = Inr ()"
  by code_simp+

theorem admitted_guarantees_witness:
  "packages_ok (spec_Packages (nw_Spec (sample_nodewright [(''tuning'', sample_package)] [])))"
  using admitted_guarantees[OF sample_admitted(1)] by (simp add: sample_nodewright_def sample_spec_def)

theorem update_safe_witness:
  "\<exists>newPkg. map_of (spec_Packages (nw_Spec (sample_nodewright [(''tuning'', sample_uninstallable)] []))) ''tuning'' = Some newPkg"
proof -
  let ?old = "sample_nodewright [(''tuning'', sample_uninstallable)] [(''node1'', sample_state StageConfig StateComplete)]"
  let ?new = "sample_nodewright [(''tuning'', sample_uninstallable)] []"
  have upd: "ValidateUpdate (\<lambda>_. Found) (Some ?old) ?new = ([], Inr ())" by code_simp
  have "ns_get (sample_state StageConfig StateComplete) (GetUniqueName sample_uninstallable) \<noteq> None" by code_simp
  from update_safe[OF upd _ _ _ _ this, of "''tuning''" "''node1''"] show ?thesis
    by (auto simp: sample_nodewright_def sample_spec_def sample_uninstallable_def UninstallEnabled_def)
qed

end
