(* ===== verification/Json.thy ===== *)
theory Json
  imports NodeWright_Types
begin

text \<open>
  The part of Go's \<open>encoding/json\<close> that the operator uses to keep a node's package state in an
  annotation: compact output with escaped strings and sorted map keys, and a parser for any JSON text.

  Strings are bytes.  Bytes from 0x80 up are copied, as the encoder copies well-formed UTF-8; the two
  line separators it escapes and the replacement of malformed UTF-8 are not modelled, nor is the depth
  limit of the scanner.  A parsed number keeps its literal.  The round trip is proved for every value
  that has integer literals, and for every node state in the canonical spelling of stages and states.
\<close>

section \<open>Values and printing\<close>

datatype json =
    JNull
  | JBool bool
  | JNum string
  | JStr string
  | JArr "json list"
  | JObj "(string \<times> json) list"

definition bslash :: char where
  "bslash = CHR 0x5C"

definition dquote :: char where
  "dquote = CHR 0x22"

text \<open>One byte of a string, escaped.\<close>

definition escape :: "char \<Rightarrow> string" where
  "escape c =
     (let n = of_char c :: nat
      in if c = dquote \<or> c = bslash then [bslash, c]
         else if n = 8 then [bslash, CHR ''b'']
         else if n = 12 then [bslash, CHR ''f'']
         else if n = 10 then [bslash, CHR ''n'']
         else if n = 13 then [bslash, CHR ''r'']
         else if n = 9 then [bslash, CHR ''t'']
         else if n < 32 \<or> c = CHR ''<'' \<or> c = CHR ''>'' \<or> c = CHR ''&''
         then [bslash, CHR ''u'', CHR ''0'', CHR ''0'', hex_digit (n div 16), hex_digit (n mod 16)]
         else [c])"

definition quote :: "string \<Rightarrow> string" where
  "quote s = dquote # concat (map escape s) @ [dquote]"

fun print :: "json \<Rightarrow> string" where
  "print JNull = ''null''"
| "print (JBool b) = (if b then ''true'' else ''false'')"
| "print (JNum l) = l"
| "print (JStr s) = quote s"
| "print (JArr xs) = ''['' @ join_with '','' (map print xs) @ '']''"
| "print (JObj kvs) = ''{'' @ join_with '','' (map (\<lambda>(k, v). quote k @ '':'' @ print v) kvs) @ ''}''"

section \<open>Parsing\<close>

definition is_ws :: "char \<Rightarrow> bool" where
  "is_ws c \<longleftrightarrow> (let n = of_char c :: nat in n = 32 \<or> n = 9 \<or> n = 10 \<or> n = 13)"

definition skip_ws :: "string \<Rightarrow> string" where
  "skip_ws s = dropWhile is_ws s"

definition hex_val :: "char \<Rightarrow> nat option" where
  "hex_val c =
     (let n = of_char c :: nat
      in if 48 \<le> n \<and> n \<le> 57 then Some (n - 48)
         else if 97 \<le> n \<and> n \<le> 102 then Some (n - 87)
         else if 65 \<le> n \<and> n \<le> 70 then Some (n - 55)
         else None)"

definition hex4 :: "char \<Rightarrow> char \<Rightarrow> char \<Rightarrow> char \<Rightarrow> nat option" where
  "hex4 a b c d =
     (case (hex_val a, hex_val b, hex_val c, hex_val d) of
        (Some w, Some x, Some y, Some z) \<Rightarrow> Some (((w * 16 + x) * 16 + y) * 16 + z)
      | _ \<Rightarrow> None)"

text \<open>The UTF-8 bytes of a code point.\<close>

definition utf8 :: "nat \<Rightarrow> string" where
  "utf8 n =
     (if n < 128 then [char_of n]
      else if n < 2048 then map char_of [192 + n div 64, 128 + n mod 64]
      else if n < 65536 then map char_of [224 + n div 4096, 128 + n div 64 mod 64, 128 + n mod 64]
      else map char_of [240 + n div 262144, 128 + n div 4096 mod 64, 128 + n div 64 mod 64, 128 + n mod 64])"

definition simple_escape :: "char \<Rightarrow> char option" where
  "simple_escape c =
     (if c = dquote \<or> c = bslash \<or> c = CHR ''/'' then Some c
      else if c = CHR ''b'' then Some (char_of (8 :: nat))
      else if c = CHR ''f'' then Some (char_of (12 :: nat))
      else if c = CHR ''n'' then Some (char_of (10 :: nat))
      else if c = CHR ''r'' then Some (char_of (13 :: nat))
      else if c = CHR ''t'' then Some (char_of (9 :: nat))
      else None)"

text \<open>
  A surrogate escape: with a low surrogate escape behind a high one the pair is one code point,
  otherwise the replacement character.  Returns the bytes and what is left.
\<close>

definition unicode_escape :: "nat \<Rightarrow> string \<Rightarrow> string \<times> string" where
  "unicode_escape n s =
     (if n < 55296 \<or> 57343 < n then (utf8 n, s)
      else case s of
        p # u # a # b # c # d # rest \<Rightarrow>
          if p = bslash \<and> u = CHR ''u'' \<and> n < 56320 then
            (case hex4 a b c d of
               Some m \<Rightarrow>
                 if 56320 \<le> m \<and> m \<le> 57343 then (utf8 (65536 + (n - 55296) * 1024 + (m - 56320)), rest)
                 else (utf8 65533, s)
             | None \<Rightarrow> (utf8 65533, s))
          else (utf8 65533, s)
      | _ \<Rightarrow> (utf8 65533, s))"

lemma unicode_escape_length: "length (snd (unicode_escape n s)) \<le> length s"
  by (auto simp: unicode_escape_def split: list.splits option.splits)

text \<open>The body of a string after its opening quote.\<close>

function parse_str :: "string \<Rightarrow> (string \<times> string) option" where
  "parse_str [] = None"
| "parse_str (c # s) =
     (if c = dquote then Some ([], s)
      else if (of_char c :: nat) < 32 then None
      else if c \<noteq> bslash then map_option (\<lambda>(t, r). (c # t, r)) (parse_str s)
      else case s of
        [] \<Rightarrow> None
      | e # s1 \<Rightarrow>
          if e = CHR ''u'' then
            (case s1 of
               a # b # x # d # s2 \<Rightarrow>
                 (case hex4 a b x d of
                    None \<Rightarrow> None
                  | Some n \<Rightarrow>
                      map_option (\<lambda>(t, r). (fst (unicode_escape n s2) @ t, r)) (parse_str (snd (unicode_escape n s2))))
             | _ \<Rightarrow> None)
          else (case simple_escape e of
                  None \<Rightarrow> None
                | Some x \<Rightarrow> map_option (\<lambda>(t, r). (x # t, r)) (parse_str s1)))"
  by pat_completeness auto
termination
  by (relation "measure length") (auto intro!: le_less_trans[OF unicode_escape_length])

definition is_dig :: "char \<Rightarrow> bool" where
  "is_dig c \<longleftrightarrow> (let n = of_char c :: nat in 48 \<le> n \<and> n \<le> 57)"

text \<open>The integer part of a number: a zero, or digits that do not start with one.\<close>

definition scan_int :: "string \<Rightarrow> (string \<times> string) option" where
  "scan_int s =
     (case s of
        [] \<Rightarrow> None
      | c # cs \<Rightarrow>
          if c = CHR ''0'' then Some ([c], cs)
          else if is_dig c then Some (takeWhile is_dig s, dropWhile is_dig s)
          else None)"

definition scan_frac :: "string \<Rightarrow> (string \<times> string) option" where
  "scan_frac s =
     (case s of
        c # cs \<Rightarrow>
          if c = CHR ''.'' then
            (if takeWhile is_dig cs = [] then None else Some (c # takeWhile is_dig cs, dropWhile is_dig cs))
          else Some ([], s)
      | [] \<Rightarrow> Some ([], []))"

definition scan_exp :: "string \<Rightarrow> (string \<times> string) option" where
  "scan_exp s =
     (case s of
        c # cs \<Rightarrow>
          if c = CHR ''e'' \<or> c = CHR ''E'' then
            (let (sg, r) = (case cs of
                              d # ds \<Rightarrow> if d = CHR ''+'' \<or> d = CHR ''-'' then ([d], ds) else ([], cs)
                            | [] \<Rightarrow> ([], []))
             in if takeWhile is_dig r = [] then None
                else Some (c # sg @ takeWhile is_dig r, dropWhile is_dig r))
          else Some ([], s)
      | [] \<Rightarrow> Some ([], []))"

definition parse_num :: "string \<Rightarrow> (string \<times> string) option" where
  "parse_num s =
     (let (sg, s1) = (case s of c # cs \<Rightarrow> if c = CHR ''-'' then ([c], cs) else ([], s) | [] \<Rightarrow> ([], []))
      in case scan_int s1 of
           None \<Rightarrow> None
         | Some (i, s2) \<Rightarrow>
             (case scan_frac s2 of
                None \<Rightarrow> None
              | Some (f, s3) \<Rightarrow>
                  (case scan_exp s3 of
                     None \<Rightarrow> None
                   | Some (e, s4) \<Rightarrow> Some (sg @ i @ f @ e, s4))))"

text \<open>
  Values, object members after the opening brace, and array elements after the opening bracket.  The
  fuel bounds the depth and the number of members; the length of the text is enough.
\<close>

fun parse_val :: "nat \<Rightarrow> string \<Rightarrow> (json \<times> string) option"
  and parse_members :: "nat \<Rightarrow> string \<Rightarrow> ((string \<times> json) list \<times> string) option"
  and parse_elems :: "nat \<Rightarrow> string \<Rightarrow> (json list \<times> string) option"
where
  "parse_val 0 s = None"
| "parse_val (Suc n) s =
     (case skip_ws s of
        [] \<Rightarrow> None
      | c # cs \<Rightarrow>
          if c = dquote then map_option (\<lambda>(t, r). (JStr t, r)) (parse_str cs)
          else if c = CHR ''{'' then
            (case skip_ws cs of
               [] \<Rightarrow> None
             | d # ds \<Rightarrow>
                 if d = CHR ''}'' then Some (JObj [], ds)
                 else map_option (\<lambda>(kvs, r). (JObj kvs, r)) (parse_members n cs))
          else if c = CHR ''['' then
            (case skip_ws cs of
               [] \<Rightarrow> None
             | d # ds \<Rightarrow>
                 if d = CHR '']'' then Some (JArr [], ds)
                 else map_option (\<lambda>(xs, r). (JArr xs, r)) (parse_elems n cs))
          else case cut_prefix (c # cs) ''null'' of Some r \<Rightarrow> Some (JNull, r) | None \<Rightarrow>
          (case cut_prefix (c # cs) ''true'' of Some r \<Rightarrow> Some (JBool True, r) | None \<Rightarrow>
          (case cut_prefix (c # cs) ''false'' of Some r \<Rightarrow> Some (JBool False, r) | None \<Rightarrow>
             map_option (\<lambda>(l, r). (JNum l, r)) (parse_num (c # cs)))))"
| "parse_members 0 s = None"
| "parse_members (Suc n) s =
     (case skip_ws s of
        [] \<Rightarrow> None
      | c # cs \<Rightarrow>
          if c \<noteq> dquote then None
          else case parse_str cs of
            None \<Rightarrow> None
          | Some (k, r) \<Rightarrow>
              (case skip_ws r of
                 [] \<Rightarrow> None
               | d # ds \<Rightarrow>
                   if d \<noteq> CHR '':'' then None
                   else case parse_val n ds of
                     None \<Rightarrow> None
                   | Some (v, r1) \<Rightarrow>
                       (case skip_ws r1 of
                          [] \<Rightarrow> None
                        | e # es \<Rightarrow>
                            if e = CHR ''}'' then Some ([(k, v)], es)
                            else if e = CHR '','' then map_option (\<lambda>(kvs, r). ((k, v) # kvs, r)) (parse_members n es)
                            else None)))"
| "parse_elems 0 s = None"
| "parse_elems (Suc n) s =
     (case parse_val n s of
        None \<Rightarrow> None
      | Some (v, r1) \<Rightarrow>
          (case skip_ws r1 of
             [] \<Rightarrow> None
           | e # es \<Rightarrow>
               if e = CHR '']'' then Some ([v], es)
               else if e = CHR '','' then map_option (\<lambda>(xs, r). (v # xs, r)) (parse_elems n es)
               else None))"

text \<open>A whole text: one value and nothing but white space behind it.\<close>

definition parse_json :: "string \<Rightarrow> json option" where
  "parse_json s =
     (case parse_val (Suc (length s)) s of
        None \<Rightarrow> None
      | Some (v, r) \<Rightarrow> if skip_ws r = [] then Some v else None)"

section \<open>Strings round trip\<close>

lemma of_char_bound: "(of_char c :: nat) < 256"
  using of_char_of[of "of_char c :: nat"] by (metis of_char_of char_of_char mod_less_divisor zero_less_numeral)

lemma hex_val_digit: "k < 16 \<Longrightarrow> hex_val (hex_digit k) = Some k"
  by (auto simp: hex_val_def hex_digit_def)

lemma hex4_byte:
  "n < 256 \<Longrightarrow> hex4 CHR ''0'' CHR ''0'' (hex_digit (n div 16)) (hex_digit (n mod 16)) = Some n"
  by (auto simp: hex4_def hex_val_digit) (simp add: hex_val_def)

lemma special_chars [simp]: "of_char dquote = (34 :: nat)" "of_char bslash = (92 :: nat)" "dquote \<noteq> bslash" "bslash \<noteq> dquote"
  by (simp_all add: dquote_def bslash_def)

lemma parse_str_plain:
  "c \<noteq> dquote \<Longrightarrow> c \<noteq> bslash \<Longrightarrow> \<not> (of_char c :: nat) < 32 \<Longrightarrow>
     parse_str (c # s) = map_option (\<lambda>(t, r). (c # t, r)) (parse_str s)"
  by simp

lemma parse_str_simple:
  "simple_escape e = Some x \<Longrightarrow> e \<noteq> CHR ''u'' \<Longrightarrow>
     parse_str (bslash # e # s) = map_option (\<lambda>(t, r). (x # t, r)) (parse_str s)"
  by simp

lemma parse_str_unicode:
  assumes "(of_char c :: nat) < 128"
  shows "parse_str (bslash # CHR ''u'' # CHR ''0'' # CHR ''0'' # hex_digit (of_char c div 16) # hex_digit (of_char c mod 16) # s) =
     map_option (\<lambda>(t, r). (c # t, r)) (parse_str s)"
  using assms by (simp add: hex4_byte unicode_escape_def utf8_def)

lemma of_char_eqD: "of_char c = (n :: nat) \<Longrightarrow> c = char_of n"
  by auto

lemma parse_str_escape: "parse_str (escape c @ s) = map_option (\<lambda>(t, r). (c # t, r)) (parse_str s)"
proof -
  let ?n = "of_char c :: nat"
  consider "c = dquote \<or> c = bslash" | "c \<noteq> dquote" "c \<noteq> bslash" "?n \<in> {8, 9, 10, 12, 13}"
    | "c \<noteq> dquote" "c \<noteq> bslash" "?n \<notin> {8, 9, 10, 12, 13}" "?n < 32 \<or> c = CHR ''<'' \<or> c = CHR ''>'' \<or> c = CHR ''&''"
    | "c \<noteq> dquote" "c \<noteq> bslash" "\<not> ?n < 32" "c \<noteq> CHR ''<''" "c \<noteq> CHR ''>''" "c \<noteq> CHR ''&''"
    by blast
  then show ?thesis
  proof cases
    case 1
    then have "c \<noteq> CHR ''u''" "escape c = [bslash, c]" by (auto simp: dquote_def bslash_def escape_def)
    moreover have "simple_escape c = Some c" using 1 by (auto simp: simple_escape_def)
    ultimately show ?thesis using parse_str_simple[of c c s] by simp
  next
    case 2
    then have "char_of ?n \<in> char_of ` {8, 9, 10, 12, 13 :: nat}" by (intro imageI)
    then have "c \<in> {char_of (8 :: nat), char_of (9 :: nat), char_of (10 :: nat), char_of (12 :: nat), char_of (13 :: nat)}"
      by simp
    then show ?thesis
      by (elim insertE emptyE) (simp_all add: escape_def simple_escape_def dquote_def bslash_def)
  next
    case 3
    then have "escape c = [bslash, CHR ''u'', CHR ''0'', CHR ''0'', hex_digit (?n div 16), hex_digit (?n mod 16)]"
      by (auto simp: escape_def Let_def)
    moreover have "?n < 128" using 3 by auto
    ultimately show ?thesis using parse_str_unicode[of c s] by simp
  next
    case 4
    then have "escape c = [c]" by (auto simp: escape_def Let_def)
    then show ?thesis using 4 parse_str_plain by simp
  qed
qed

lemma parse_str_quote: "parse_str (concat (map escape s) @ dquote # rest) = Some (s, rest)"
proof (induction s)
  case (Cons c s)
  have "parse_str (concat (map escape (c # s)) @ dquote # rest) = parse_str (escape c @ concat (map escape s) @ dquote # rest)" by simp
  then show ?case unfolding parse_str_escape Cons.IH by simp
qed simp

section \<open>Numbers round trip\<close>

definition delim :: "string \<Rightarrow> bool" where
  "delim rest \<longleftrightarrow> rest = [] \<or> hd rest \<in> {CHR '','', CHR ''}'', CHR '']''}"

lemma char_zero [simp]: "char_of (48 :: nat) = CHR ''0''"
  by code_simp

lemma show_nat_digits: "list_all is_dig (show_nat n) \<and> show_nat n \<noteq> []"
proof (induction n rule: show_nat.induct)
  case (1 n)
  have "is_dig (char_of (48 + k))" if "k < 10" for k :: nat
    using that by (simp add: is_dig_def)
  then show ?case using 1 by (subst (1 2) show_nat.simps) auto
qed

lemma show_nat_zero: "hd (show_nat n) = CHR ''0'' \<longleftrightarrow> n = 0"
proof (induction n rule: show_nat.induct)
  case (1 n)
  show ?case
  proof (cases "n < 10")
    case True
    then have "char_of (48 + n) = CHR ''0'' \<longleftrightarrow> n = 0"
      by (auto dest: arg_cong[where f = "of_char :: char \<Rightarrow> nat"])
    then show ?thesis using True by (simp add: show_nat.simps[of n])
  next
    case False
    then show ?thesis using 1 show_nat_digits[of "n div 10"] by (simp add: show_nat.simps[of n])
  qed
qed

lemma takeWhile_digits:
  "list_all is_dig x \<Longrightarrow> rest = [] \<or> \<not> is_dig (hd rest) \<Longrightarrow>
     takeWhile is_dig (x @ rest) = x \<and> dropWhile is_dig (x @ rest) = rest"
  by (induction x) (cases rest; simp)+

lemma scan_int_show:
  assumes "rest = [] \<or> \<not> is_dig (hd rest)"
  shows "scan_int (show_nat n @ rest) = Some (show_nat n, rest)"
proof (cases "n = 0")
  case True
  then show ?thesis by (simp add: show_nat.simps scan_int_def)
next
  case False
  obtain c cs where s: "show_nat n = c # cs" using show_nat_digits[of n] by (cases "show_nat n") auto
  have "c \<noteq> CHR ''0''" "is_dig c" using False show_nat_zero[of n] show_nat_digits[of n] s by auto
  then show ?thesis using takeWhile_digits[of "show_nat n" rest] assms show_nat_digits[of n]
    by (simp add: scan_int_def s)
qed

lemma delim_not_num:
  assumes "delim rest"
  shows "rest = [] \<or> \<not> is_dig (hd rest)" and "scan_frac rest = Some ([], rest)" and "scan_exp rest = Some ([], rest)"
  using assms by (cases rest; auto simp: delim_def is_dig_def scan_frac_def scan_exp_def)+

lemma parse_num_show: "delim rest \<Longrightarrow> parse_num (show_int i @ rest) = Some (show_int i, rest)"
proof -
  assume d: "delim rest"
  obtain c cs where s: "show_nat (nat i) = c # cs" using show_nat_digits[of "nat i"] by (cases "show_nat (nat i)") auto
  have "is_dig c" using show_nat_digits[of "nat i"] s by simp
  then have "c \<noteq> CHR ''-''" by (auto simp: is_dig_def)
  then show ?thesis
    using scan_int_show[OF delim_not_num(1)[OF d], of "nat i"] scan_int_show[OF delim_not_num(1)[OF d], of "nat (- i)"]
      delim_not_num(2,3)[OF d] s
    by (auto simp: parse_num_def show_int_def)
qed

section \<open>Values round trip\<close>

text \<open>Values whose numbers are printed integers.\<close>

fun json_ok :: "json \<Rightarrow> bool" where
  "json_ok (JNum l) = (\<exists>i. l = show_int i)"
| "json_ok (JArr xs) = (\<forall>x \<in> set xs. json_ok x)"
| "json_ok (JObj kvs) = (\<forall>kv \<in> set kvs. json_ok (snd kv))"
| "json_ok _ = True"

fun jsize :: "json \<Rightarrow> nat" where
  "jsize (JArr xs) = Suc (sum_list (map (\<lambda>x. Suc (jsize x)) xs))"
| "jsize (JObj kvs) = Suc (sum_list (map (\<lambda>kv. Suc (jsize (snd kv))) kvs))"
| "jsize _ = 1"

lemma skip_ws_non: "s \<noteq> [] \<Longrightarrow> \<not> is_ws (hd s) \<Longrightarrow> skip_ws s = s"
  by (cases s) (auto simp: skip_ws_def)

lemma skip_ws_delim: "delim rest \<Longrightarrow> skip_ws rest = rest"
  by (cases rest) (auto simp: skip_ws_def delim_def is_ws_def)

lemma skip_ws_Cons: "\<not> is_ws c \<Longrightarrow> skip_ws (c # s) = c # s"
  by (simp add: skip_ws_def)

lemma not_ws [simp]:
  "\<not> is_ws dquote" "\<not> is_ws CHR ''{''" "\<not> is_ws CHR ''}''" "\<not> is_ws CHR ''[''" "\<not> is_ws CHR '']''"
  "\<not> is_ws CHR '',''" "\<not> is_ws CHR '':''" "\<not> is_ws CHR ''n''" "\<not> is_ws CHR ''t''" "\<not> is_ws CHR ''f''"
  by (simp_all add: is_ws_def)

lemma dquote_neq [simp]:
  "dquote \<noteq> CHR ''{''" "dquote \<noteq> CHR ''}''" "dquote \<noteq> CHR '']''" "CHR ''{'' \<noteq> dquote" "CHR ''['' \<noteq> dquote"
  "CHR ''n'' \<noteq> dquote" "CHR ''t'' \<noteq> dquote" "CHR ''f'' \<noteq> dquote"
  by (simp_all add: dquote_def)

lemma num_head:
  obtains c cs where "show_int i = c # cs" "is_dig c \<or> c = CHR ''-''"
proof (cases "i < 0")
  case True
  then show ?thesis using that by (simp add: show_int_def)
next
  case False
  then show ?thesis using that show_nat_digits[of "nat i"] by (cases "show_nat (nat i)") (auto simp: show_int_def)
qed

lemma parse_val_num:
  assumes "delim rest"
  shows "parse_val (Suc n) (show_int i @ rest) = Some (JNum (show_int i), rest)"
proof -
  obtain c cs where s: "show_int i = c # cs" "is_dig c \<or> c = CHR ''-''" by (rule num_head)
  have "\<not> is_ws c" "c \<noteq> dquote" "c \<noteq> CHR ''{''" "c \<noteq> CHR ''[''" "c \<noteq> CHR ''n''" "c \<noteq> CHR ''t''" "c \<noteq> CHR ''f''"
    using s(2) by (auto simp: is_dig_def is_ws_def dquote_def Let_def)
  then show ?thesis using parse_num_show[OF assms, of i] by (simp add: s(1) skip_ws_Cons)
qed

lemma parse_val_str: "parse_val (Suc n) (quote t @ rest) = Some (JStr t, rest)"
  using parse_str_quote[of t rest] by (simp add: quote_def skip_ws_Cons)

definition member_text :: "string \<times> json \<Rightarrow> string" where
  "member_text kv = quote (fst kv) @ '':'' @ print (snd kv)"

definition good :: "json \<Rightarrow> bool" where
  "good v \<longleftrightarrow> (\<forall>n rest. jsize v \<le> n \<longrightarrow> delim rest \<longrightarrow> parse_val n (print v @ rest) = Some (v, rest))"

lemma goodD: "good v \<Longrightarrow> jsize v \<le> n \<Longrightarrow> delim rest \<Longrightarrow> parse_val n (print v @ rest) = Some (v, rest)"
  by (simp add: good_def)

lemma delim_simps [simp]: "delim (CHR '','' # s)" "delim (CHR ''}'' # s)" "delim (CHR '']'' # s)" "delim []"
  by (simp_all add: delim_def)

lemma parse_members_print:
  assumes "kvs \<noteq> []" and "\<forall>kv \<in> set kvs. good (snd kv)"
    and "sum_list (map (\<lambda>kv. Suc (jsize (snd kv))) kvs) \<le> n"
  shows "parse_members n (join_with '','' (map member_text kvs) @ CHR ''}'' # rest) = Some (kvs, rest)"
  using assms
proof (induction kvs arbitrary: n)
  case (Cons kv kvs)
  obtain k v where kv: "kv = (k, v)" by (cases kv)
  obtain m where n: "n = Suc m" using Cons.prems(3) by (cases n) auto
  have gv: "good v" and fuel: "jsize v \<le> m" "sum_list (map (\<lambda>kv. Suc (jsize (snd kv))) kvs) \<le> m"
    using Cons.prems kv n by auto
  let ?tail = "(case kvs of [] \<Rightarrow> [] | _ \<Rightarrow> CHR '','' # join_with '','' (map member_text kvs)) @ CHR ''}'' # rest"
  have shape: "join_with '','' (map member_text (kv # kvs)) @ CHR ''}'' # rest =
      dquote # concat (map escape k) @ dquote # CHR '':'' # print v @ ?tail"
    by (cases kvs) (simp_all add: kv member_text_def quote_def)
  have d: "delim ?tail" by (cases kvs) auto
  have v: "parse_val m (print v @ ?tail) = Some (v, ?tail)" by (rule goodD[OF gv fuel(1) d])
  have rest: "parse_members m (join_with '','' (map member_text kvs) @ CHR ''}'' # rest) = Some (kvs, rest)" if "kvs \<noteq> []"
    using Cons.IH[OF that] Cons.prems(2) fuel(2) by auto
  show ?case
    unfolding shape n using v rest parse_str_quote[of k "CHR '':'' # print v @ ?tail"] kv
    by (cases kvs) (simp_all add: skip_ws_Cons)
qed simp

lemma parse_elems_print:
  assumes "xs \<noteq> []" and "\<forall>x \<in> set xs. good x" and "sum_list (map (\<lambda>x. Suc (jsize x)) xs) \<le> n"
  shows "parse_elems n (join_with '','' (map print xs) @ CHR '']'' # rest) = Some (xs, rest)"
  using assms
proof (induction xs arbitrary: n)
  case (Cons x xs)
  obtain m where n: "n = Suc m" using Cons.prems(3) by (cases n) auto
  have gv: "good x" and fuel: "jsize x \<le> m" "sum_list (map (\<lambda>x. Suc (jsize x)) xs) \<le> m"
    using Cons.prems n by auto
  let ?tail = "(case xs of [] \<Rightarrow> [] | _ \<Rightarrow> CHR '','' # join_with '','' (map print xs)) @ CHR '']'' # rest"
  have shape: "join_with '','' (map print (x # xs)) @ CHR '']'' # rest = print x @ ?tail"
    by (cases xs) simp_all
  have d: "delim ?tail" by (cases xs) auto
  have v: "parse_val m (print x @ ?tail) = Some (x, ?tail)" by (rule goodD[OF gv fuel(1) d])
  have rest: "parse_elems m (join_with '','' (map print xs) @ CHR '']'' # rest) = Some (xs, rest)" if "xs \<noteq> []"
    using Cons.IH[OF that] Cons.prems(2) fuel(2) by auto
  show ?case unfolding shape n using v rest by (cases xs) (simp_all add: skip_ws_Cons)
qed simp

lemma print_head: "json_ok v \<Longrightarrow> \<exists>c cs. print v = c # cs \<and> \<not> is_ws c \<and> c \<noteq> CHR '']''"
proof (cases v)
  case (JNum l)
  assume "json_ok v"
  then obtain i where "l = show_int i" using JNum by auto
  moreover obtain c cs where "show_int i = c # cs" "is_dig c \<or> c = CHR ''-''" by (rule num_head)
  ultimately show ?thesis using JNum by (auto simp: is_dig_def is_ws_def Let_def)
qed (auto simp: quote_def)

lemma print_obj: "print (JObj kvs) = CHR ''{'' # join_with '','' (map member_text kvs) @ ''}''"
  by (simp add: member_text_def[abs_def] split_beta')

lemma print_good: "json_ok v \<Longrightarrow> good v"
proof (induction v)
  case (JNum l)
  then show ?case using parse_val_num by (auto simp: good_def Suc_le_eq gr0_conv_Suc)
next
  case (JStr t)
  then show ?case using parse_val_str by (auto simp: good_def Suc_le_eq gr0_conv_Suc)
next
  case (JArr xs)
  have all: "\<forall>x \<in> set xs. good x" using JArr by auto
  show ?case unfolding good_def
  proof (intro allI impI)
    fix n rest assume n: "jsize (JArr xs) \<le> n"
    then obtain m where m: "n = Suc m" "sum_list (map (\<lambda>x. Suc (jsize x)) xs) \<le> m" by (cases n) auto
    show "parse_val n (print (JArr xs) @ rest) = Some (JArr xs, rest)"
    proof (cases xs)
      case Nil
      then show ?thesis using m by (simp add: skip_ws_Cons)
    next
      case (Cons x ys)
      obtain c cs where "print x = c # cs" "\<not> is_ws c" "c \<noteq> CHR '']''"
        using print_head[of x] JArr.prems Cons by auto
      then have "\<exists>cs. join_with '','' (map print xs) = c # cs" using Cons by (cases ys) auto
      then show ?thesis
        using parse_elems_print[of xs m rest] all m Cons \<open>\<not> is_ws c\<close> \<open>c \<noteq> CHR '']''\<close>
        by (auto simp: skip_ws_Cons simp del: parse_elems.simps join_with.simps)
    qed
  qed
next
  case (JObj kvs)
  have all: "\<forall>kv \<in> set kvs. good (snd kv)" using JObj by (metis json_ok.simps(3) snds.intros)
  show ?case unfolding good_def
  proof (intro allI impI)
    fix n rest assume n: "jsize (JObj kvs) \<le> n"
    then obtain m where m: "n = Suc m" "sum_list (map (\<lambda>kv. Suc (jsize (snd kv))) kvs) \<le> m" by (cases n) auto
    show "parse_val n (print (JObj kvs) @ rest) = Some (JObj kvs, rest)"
    proof (cases kvs)
      case Nil
      then show ?thesis using m by (simp add: skip_ws_Cons)
    next
      case (Cons kv ys)
      have "\<exists>cs. join_with '','' (map member_text kvs) = dquote # cs"
        using Cons by (cases ys) (auto simp: member_text_def quote_def)
      then show ?thesis
        unfolding print_obj using parse_members_print[of kvs m rest] all m Cons
        by (auto simp: skip_ws_Cons simp del: parse_members.simps join_with.simps)
    qed
  qed
qed (auto simp: good_def Suc_le_eq gr0_conv_Suc skip_ws_Cons)

lemma jsize_print: "json_ok v \<Longrightarrow> jsize v \<le> length (print v)"
proof (induction v)
  case (JNum l)
  then show ?case using num_head by (metis One_nat_def Suc_leI jsize.simps(5) json_ok.simps(1) length_greater_0_conv list.distinct(1) print.simps(3))
next
  case (JArr xs)
  have "sum_list (map (\<lambda>x. Suc (jsize x)) xs) \<le> Suc (length (join_with '','' (map print xs)))"
    using JArr
  proof (induction xs)
    case (Cons x xs)
    then have "jsize x \<le> length (print x)" by simp
    then show ?case using Cons by (cases xs) force+
  qed simp
  then show ?case by simp
next
  case (JObj kvs)
  have "sum_list (map (\<lambda>kv. Suc (jsize (snd kv))) kvs) \<le> Suc (length (join_with '','' (map member_text kvs)))"
    using JObj
  proof (induction kvs)
    case (Cons kv kvs)
    obtain k v where "kv = (k, v)" by (cases kv)
    then have "jsize (snd kv) \<le> length (member_text kv)" using Cons.prems by (fastforce simp: member_text_def intro: le_trans)
    then show ?case using Cons by (cases kvs) force+
  qed simp
  then show ?case unfolding print_obj by simp
qed (auto simp: quote_def)

lemma parse_json_print: "json_ok v \<Longrightarrow> parse_json (print v) = Some v"
  using goodD[OF print_good, of v "Suc (length (print v))" "[]"] jsize_print[of v]
  by (simp add: parse_json_def skip_ws_def del: parse_val.simps)

section \<open>Node state as JSON\<close>

text \<open>
  \<open>json.Marshal\<close> of a \<open>PackageStatus\<close>: the fields in the order of the struct, those marked
  \<open>omitempty\<close> left out when empty.
\<close>

definition encode_status :: "PackageStatus \<Rightarrow> json" where
  "encode_status s =
     JObj ([(''name'', JStr (ps_Name s)), (''version'', JStr (ps_Version s)), (''image'', JStr (ps_Image s))] @
       (if ps_ContainerSHA s = [] then [] else [(''containerSHA'', JStr (ps_ContainerSHA s))]) @
       [(''stage'', JStr (stage_string (ps_Stage s)))] @
       (if state_string (ps_State s) = [] then [] else [(''state'', JStr (state_string (ps_State s)))]) @
       (if ps_Restarts s = 0 then [] else [(''restarts'', JNum (show_int (ps_Restarts s)))]))"

text \<open>\<open>json.Marshal\<close> of a map: an object with its keys sorted.\<close>

definition encode_state :: "(string, PackageStatus) gomap \<Rightarrow> json" where
  "encode_state m = JObj (map (\<lambda>(k, s). (k, encode_status s)) (sort_key fst m))"

definition marshal_state :: "(string, PackageStatus) gomap \<Rightarrow> string" where
  "marshal_state m = print (encode_state m)"

definition dec_val :: "string \<Rightarrow> nat" where
  "dec_val ds = foldl (\<lambda>a c. 10 * a + (of_char c - 48)) 0 ds"

definition int_of_literal :: "string \<Rightarrow> int option" where
  "int_of_literal l =
     (case l of
        c # ds \<Rightarrow>
          if c = CHR ''-'' then (if ds \<noteq> [] \<and> list_all is_dig ds then Some (- int (dec_val ds)) else None)
          else if list_all is_dig l then Some (int (dec_val l)) else None
      | [] \<Rightarrow> None)"

text \<open>
  One member of a decoded status object: field names match without regard to case, unknown members
  are skipped, null leaves a field as it is, a value of the wrong kind is an error.
\<close>

definition set_field :: "string \<Rightarrow> json \<Rightarrow> PackageStatus \<Rightarrow> PackageStatus option" where
  "set_field k v s =
     (let str = (\<lambda>f. case v of JStr t \<Rightarrow> Some (f t) | JNull \<Rightarrow> Some s | _ \<Rightarrow> None); key = to_lower k
      in if key = ''name'' then str (\<lambda>t. s\<lparr>ps_Name := t\<rparr>)
         else if key = ''version'' then str (\<lambda>t. s\<lparr>ps_Version := t\<rparr>)
         else if key = ''image'' then str (\<lambda>t. s\<lparr>ps_Image := t\<rparr>)
         else if key = ''containersha'' then str (\<lambda>t. s\<lparr>ps_ContainerSHA := t\<rparr>)
         else if key = ''stage'' then str (\<lambda>t. s\<lparr>ps_Stage := stage_of t\<rparr>)
         else if key = ''state'' then str (\<lambda>t. s\<lparr>ps_State := state_of t\<rparr>)
         else if key = ''restarts'' then
           (case v of
              JNum l \<Rightarrow>
                (case int_of_literal l of
                   Some i \<Rightarrow> if - (2 ^ 31) \<le> i \<and> i < 2 ^ 31 then Some (s\<lparr>ps_Restarts := i\<rparr>) else None
                 | None \<Rightarrow> None)
            | JNull \<Rightarrow> Some s
            | _ \<Rightarrow> None)
         else Some s)"

fun set_fields :: "(string \<times> json) list \<Rightarrow> PackageStatus \<Rightarrow> PackageStatus option" where
  "set_fields [] s = Some s"
| "set_fields ((k, v) # kvs) s = (case set_field k v s of None \<Rightarrow> None | Some s' \<Rightarrow> set_fields kvs s')"

definition zero_status :: PackageStatus where
  "zero_status =
     \<lparr>ps_Name = [], ps_Version = [], ps_Image = [], ps_ContainerSHA = [], ps_Stage = StageOther [],
      ps_State = StateOther [], ps_Restarts = 0\<rparr>"

definition decode_status :: "json \<Rightarrow> PackageStatus option" where
  "decode_status v =
     (case v of JObj kvs \<Rightarrow> set_fields kvs zero_status | JNull \<Rightarrow> Some zero_status | _ \<Rightarrow> None)"

fun decode_entries ::
  "(string, PackageStatus) gomap \<Rightarrow> (string \<times> json) list \<Rightarrow> (string, PackageStatus) gomap option" where
  "decode_entries m [] = Some m"
| "decode_entries m ((k, v) # kvs) =
     (case decode_status v of None \<Rightarrow> None | Some s \<Rightarrow> decode_entries (gput k s m) kvs)"

text \<open>\<open>json.Unmarshal\<close> into an empty \<open>NodeState\<close>; \<open>None\<close> is an error, null makes the map nil.\<close>

definition unmarshal_state :: "string \<Rightarrow> NodeState option" where
  "unmarshal_state s =
     (case parse_json s of
        Some (JObj kvs) \<Rightarrow> map_option Some (decode_entries [] kvs)
      | Some JNull \<Rightarrow> Some None
      | _ \<Rightarrow> None)"

section \<open>Node state round trips\<close>

text \<open>A status in the canonical spelling, with a restart count of its width.\<close>

definition status_canonical :: "PackageStatus \<Rightarrow> bool" where
  "status_canonical s \<longleftrightarrow>
     stage_of (stage_string (ps_Stage s)) = ps_Stage s \<and> state_of (state_string (ps_State s)) = ps_State s \<and>
     - (2 ^ 31) \<le> ps_Restarts s \<and> ps_Restarts s < 2 ^ 31"

definition entries_canonical :: "(string, PackageStatus) gomap \<Rightarrow> bool" where
  "entries_canonical m \<longleftrightarrow> list_all (\<lambda>(k, s). status_canonical s) m"

lemma dec_val_show: "dec_val (show_nat n) = n"
proof (induction n rule: show_nat.induct)
  case (1 n)
  then show ?case by (subst show_nat.simps) (auto simp: dec_val_def)
qed

lemma int_of_literal_show: "int_of_literal (show_int i) = Some i"
proof (cases "i < 0")
  case True
  then show ?thesis using show_nat_digits[of "nat (- i)"] by (simp add: int_of_literal_def show_int_def dec_val_show)
next
  case False
  obtain c cs where s: "show_nat (nat i) = c # cs" using show_nat_digits[of "nat i"] by (cases "show_nat (nat i)") auto
  have dig: "list_all is_dig (c # cs)" using show_nat_digits[of "nat i"] s by simp
  then have "c \<noteq> CHR ''-''" by (auto simp: is_dig_def)
  then show ?thesis
    using False dec_val_show[of "nat i"] s dig by (simp add: int_of_literal_def show_int_def)
qed

lemma field_names [simp]:
  "to_lower ''name'' = ''name''" "to_lower ''version'' = ''version''" "to_lower ''image'' = ''image''"
  "to_lower ''containerSHA'' = ''containersha''" "to_lower ''stage'' = ''stage''" "to_lower ''state'' = ''state''"
  "to_lower ''restarts'' = ''restarts''"
  by code_simp+

lemma set_field_encoded [simp]:
  "set_field ''name'' (JStr t) s = Some (s\<lparr>ps_Name := t\<rparr>)"
  "set_field ''version'' (JStr t) s = Some (s\<lparr>ps_Version := t\<rparr>)"
  "set_field ''image'' (JStr t) s = Some (s\<lparr>ps_Image := t\<rparr>)"
  "set_field ''containerSHA'' (JStr t) s = Some (s\<lparr>ps_ContainerSHA := t\<rparr>)"
  "set_field ''stage'' (JStr t) s = Some (s\<lparr>ps_Stage := stage_of t\<rparr>)"
  "set_field ''state'' (JStr t) s = Some (s\<lparr>ps_State := state_of t\<rparr>)"
  "- (2 ^ 31) \<le> i \<Longrightarrow> i < 2 ^ 31 \<Longrightarrow> set_field ''restarts'' (JNum (show_int i)) s = Some (s\<lparr>ps_Restarts := i\<rparr>)"
  by (simp_all add: set_field_def int_of_literal_show)

lemma state_of_empty: "state_string g = [] \<Longrightarrow> state_of (state_string g) = g \<Longrightarrow> g = StateOther []"
  by (cases g) auto

lemma decode_encode_status:
  assumes "status_canonical s"
  shows "decode_status (encode_status s) = Some s"
proof -
  have "ps_State s = StateOther []" if "state_string (ps_State s) = []"
    using that assms state_of_empty by (simp add: status_canonical_def)
  then show ?thesis
    using assms unfolding status_canonical_def
    by (cases s) (simp add: encode_status_def decode_status_def zero_status_def)
qed

lemma update_fresh: "k \<notin> set (gkeys m) \<Longrightarrow> gput k v m = m @ [(k, v)]"
  by (induction m) auto

lemma decode_encode_entries:
  "gomap_ok (m @ es) \<Longrightarrow> entries_canonical es \<Longrightarrow>
     decode_entries m (map (\<lambda>(k, s). (k, encode_status s)) es) = Some (m @ es)"
proof (induction es arbitrary: m)
  case (Cons e es)
  obtain k s where e: "e = (k, s)" by (cases e)
  then have "k \<notin> set (gkeys m)" "decode_status (encode_status s) = Some s"
    using Cons.prems decode_encode_status by (auto simp: entries_canonical_def)
  then show ?case using Cons.IH[of "m @ [e]"] Cons.prems e by (simp add: update_fresh entries_canonical_def)
qed simp

lemma encode_state_ok: "json_ok (encode_state m)"
  by (auto simp: encode_state_def encode_status_def split: if_splits)

lemma unmarshal_marshal:
  assumes "gomap_ok m" and "entries_canonical m"
  shows "unmarshal_state (marshal_state m) = Some (Some (sort_key fst m))"
proof -
  have "gomap_ok (sort_key fst m)" "entries_canonical (sort_key fst m)"
    using assms by (simp_all add: distinct_map entries_canonical_def list_all_iff)
  then show ?thesis
    using decode_encode_entries[of "[]" "sort_key fst m"] parse_json_print[OF encode_state_ok, of m]
    by (simp add: unmarshal_state_def marshal_state_def encode_state_def)
qed

text \<open>
  C20. What is written to the node-state annotation is read back: for any package state with canonical
  stages and states, unmarshalling the marshalled text succeeds and gives a map with the same entries,
  whatever characters the strings contain.
\<close>

theorem state_json_roundtrip:
  assumes "gomap_ok m" and "entries_canonical m"
  shows "\<exists>m'. unmarshal_state (marshal_state m) = Some (Some m') \<and> gomap_ok m' \<and> map_of m' = map_of m"
proof -
  have "gomap_ok (sort_key fst m)" using assms(1) by (simp add: distinct_map)
  moreover have "map_of (sort_key fst m) = map_of m"
    using assms(1) calculation by (intro map_of_inject_set[THEN iffD2]) simp_all
  ultimately show ?thesis using unmarshal_marshal[OF assms] by blast
qed

theorem state_json_roundtrip_witness:
  "\<exists>m'. unmarshal_state (marshal_state (or_empty (sample_state StageApply StateInProgress))) = Some (Some m') \<and>
     map_of m' = map_of (or_empty (sample_state StageApply StateInProgress))"
proof -
  have "gomap_ok (or_empty (sample_state StageApply StateInProgress))"
    "entries_canonical (or_empty (sample_state StageApply StateInProgress))"
    by (code_simp, code_simp)
  from state_json_roundtrip[OF this] show ?thesis by blast
qed

end
