(* ===== verification/Skyhook_Wrapper.thy ===== *)
theory Skyhook_Wrapper
  imports Webhook Json
begin

text \<open>
  The wrapper of a NodeWright resource: \<open>operator/internal/wrapper/skyhook.go\<close> and
  \<open>skyhook_conditions.go\<close>.

  A method that changes the wrapper returns the new wrapper; \<open>Updated\<close> records whether the resource
  has to be written back.  The clock is a parameter where the code asks for the time, and the
  operator's version is a parameter because the build sets it.  Time zero is the zero time.
\<close>

record Skyhook =
  sk_NodeWright :: NodeWright
  Updated :: bool

definition NewSkyhookWrapper :: "NodeWright \<Rightarrow> Skyhook" where
  "NewSkyhookWrapper s = \<lparr>sk_NodeWright = s, Updated = False\<rparr>"

abbreviation sk_Status :: "Skyhook \<Rightarrow> NodeWrightStatus" where
  "sk_Status s \<equiv> nw_Status (sk_NodeWright s)"

abbreviation sk_Spec :: "Skyhook \<Rightarrow> NodeWrightSpec" where
  "sk_Spec s \<equiv> nw_Spec (sk_NodeWright s)"

text \<open>Assigning to the status, and marking the wrapper as changed.\<close>

definition put_status :: "(NodeWrightStatus \<Rightarrow> NodeWrightStatus) \<Rightarrow> Skyhook \<Rightarrow> Skyhook" where
  "put_status f s = s\<lparr>sk_NodeWright := (sk_NodeWright s)\<lparr>nw_Status := f (sk_Status s)\<rparr>\<rparr>"

definition touch :: "Skyhook \<Rightarrow> Skyhook" where
  "touch s = s\<lparr>Updated := True\<rparr>"

section \<open>Status\<close>

definition SetStatus :: "Status \<Rightarrow> Skyhook \<Rightarrow> Skyhook" where
  "SetStatus status s =
     (let s1 = (if st_Status (sk_Status s) \<noteq> status then touch (put_status (\<lambda>st. st\<lparr>st_Status := status\<rparr>) s) else s)
      in if status = StatusComplete
         then touch (put_status (\<lambda>st. st\<lparr>ObservedGeneration := Generation (sk_NodeWright s)\<rparr>) s1)
         else if status = StatusUnknown \<and> st_NodeState (sk_Status s1) \<noteq> None
         then touch (put_status (\<lambda>st. st\<lparr>st_NodeState := None\<rparr>) s1)
         else s1)"

definition SetNodeStatus :: "string \<Rightarrow> Status \<Rightarrow> Skyhook \<Rightarrow> Skyhook" where
  "SetNodeStatus nodeName status s =
     (let m = or_empty (st_NodeStatus (sk_Status s))
      in if map_of m nodeName \<noteq> Some status
         then touch (put_status (\<lambda>st. st\<lparr>st_NodeStatus := Some (gput nodeName status m)\<rparr>) s)
         else put_status (\<lambda>st. st\<lparr>st_NodeStatus := Some m\<rparr>) s)"

text \<open>\<open>NodeState.Equal\<close>: \<open>reflect.DeepEqual\<close> on the maps.\<close>

definition ns_equal :: "NodeState \<Rightarrow> NodeState \<Rightarrow> bool" where
  "ns_equal a b = (case (a, b) of (None, None) \<Rightarrow> True | (Some m, Some m') \<Rightarrow> same_gomap m m' | _ \<Rightarrow> False)"

definition SetNodeState :: "string \<Rightarrow> NodeState \<Rightarrow> Skyhook \<Rightarrow> Skyhook" where
  "SetNodeState nodeName nodestate s =
     (let m = or_empty (st_NodeState (sk_Status s))
      in if (case map_of m nodeName of None \<Rightarrow> True | Some state \<Rightarrow> \<not> ns_equal state nodestate)
         then touch (put_status (\<lambda>st. st\<lparr>st_NodeState := Some (gput nodeName nodestate m)\<rparr>) s)
         else put_status (\<lambda>st. st\<lparr>st_NodeState := Some m\<rparr>) s)"

section \<open>Config updates\<close>

definition add_config_update :: "string \<Rightarrow> string \<Rightarrow> Skyhook \<Rightarrow> Skyhook" where
  "add_config_update pkg newKey s =
     (let m = or_empty (ConfigUpdates (sk_Status s)); configUpdates = or_empty (map_of m pkg)
      in if newKey \<in> set configUpdates then s
         else touch (put_status (\<lambda>st. st\<lparr>ConfigUpdates := Some (gput pkg (configUpdates @ [newKey]) m)\<rparr>) s))"

definition AddConfigUpdates :: "string \<Rightarrow> string list \<Rightarrow> Skyhook \<Rightarrow> Skyhook" where
  "AddConfigUpdates pkg newKeys s =
     fold (add_config_update pkg) newKeys
       (put_status (\<lambda>st. st\<lparr>ConfigUpdates := Some (or_empty (ConfigUpdates st))\<rparr>) s)"

text \<open>
  The code tests the entry for nil before it deletes it; the entries \<open>AddConfigUpdates\<close> makes are not
  nil, and deleting an absent entry changes nothing.
\<close>

definition RemoveConfigUpdates :: "string \<Rightarrow> Skyhook \<Rightarrow> Skyhook" where
  "RemoveConfigUpdates pkg s =
     touch (put_status (\<lambda>st. st\<lparr>ConfigUpdates := map_option (gdel pkg) (ConfigUpdates st)\<rparr>) s)"

definition GetConfigUpdates :: "Skyhook \<Rightarrow> ConfigMap" where
  "GetConfigUpdates s = or_empty (ConfigUpdates (sk_Status s))"

fun interrupt_type_string :: "InterruptType \<Rightarrow> string" where
  "interrupt_type_string REBOOT = ''reboot''"
| "interrupt_type_string SERVICE = ''service''"
| "interrupt_type_string NOOP = ''noop''"
| "interrupt_type_string RESTART_ALL_SERVICES = ''restartAllServices''"
| "interrupt_type_string (InterruptTypeOther s) = s"

definition interrupt_key :: "Interrupt \<Rightarrow> string" where
  "interrupt_key i = interrupt_type_string (int_Type i) @ ''|'' @ join_with '','' (int_Services i)"

text \<open>Appending interrupts whose key has not been seen.\<close>

fun dedup_interrupts :: "string list \<Rightarrow> Interrupt list \<Rightarrow> Interrupt list" where
  "dedup_interrupts seen [] = []"
| "dedup_interrupts seen (i # is) =
     (if interrupt_key i \<in> set seen then dedup_interrupts seen is
      else i # dedup_interrupts (interrupt_key i # seen) is)"

text \<open>The interrupts of a package, in the order its updates and patterns are visited.\<close>

definition matched_interrupts :: "string list \<Rightarrow> Package \<Rightarrow> Interrupt list" where
  "matched_interrupts updates p =
     concat (map (\<lambda>update. map snd (filter (\<lambda>(pat, i). filepath_Match pat update) (p_ConfigInterrupts p))) updates)"

definition GetConfigInterrupts :: "Skyhook \<Rightarrow> InterruptMap" where
  "GetConfigInterrupts s =
     fold (\<lambda>(k, p) interrupts.
         let is = dedup_interrupts [] (matched_interrupts (or_empty (map_of (GetConfigUpdates s) (p_Name p))) p)
         in if is = [] then interrupts
            else gput (p_Name p) (or_empty (map_of interrupts (p_Name p)) @ is) interrupts)
       (spec_Packages (sk_Spec s)) []"

section \<open>Printer columns\<close>

definition SetCompleteNodes :: "string \<Rightarrow> Skyhook \<Rightarrow> Skyhook" where
  "SetCompleteNodes c s = touch (put_status (\<lambda>st. st\<lparr>CompleteNodes := c\<rparr>) s)"

definition SetPackageList :: "string \<Rightarrow> Skyhook \<Rightarrow> Skyhook" where
  "SetPackageList c s = touch (put_status (\<lambda>st. st\<lparr>PackageList := c\<rparr>) s)"

definition SetNodesInProgress :: "int \<Rightarrow> Skyhook \<Rightarrow> Skyhook" where
  "SetNodesInProgress c s = touch (put_status (\<lambda>st. st\<lparr>NodesInProgress := c\<rparr>) s)"

section \<open>Conditions\<close>

fun SkyhookReadyConditionReason :: "Status \<Rightarrow> string" where
  "SkyhookReadyConditionReason StatusComplete = ''NodesConverged''"
| "SkyhookReadyConditionReason StatusInProgress = ''Progressing''"
| "SkyhookReadyConditionReason StatusBlocked = ''Blocked''"
| "SkyhookReadyConditionReason StatusErroring = ''Erroring''"
| "SkyhookReadyConditionReason StatusPaused = ''Paused''"
| "SkyhookReadyConditionReason StatusWaiting = ''Waiting''"
| "SkyhookReadyConditionReason StatusDisabled = ''Disabled''"
| "SkyhookReadyConditionReason _ = ''Unknown''"

definition LegacySkyhookConditionTransition :: string where
  "LegacySkyhookConditionTransition = METADATA_PREFIX @ ''/Transition''"

definition LegacySkyhookConditionType :: "string \<Rightarrow> string" where
  "LegacySkyhookConditionType t =
     (if t = [] then []
      else if t = LegacySkyhookConditionTransition then LegacySkyhookConditionTransition
      else if t \<in> {''TaintNotTolerable'', ''NodesIgnored'', ''ApplyPackage'', ''DeploymentPolicyNotFound''}
      then METADATA_PREFIX @ ''/'' @ t
      else if has_prefix t (METADATA_PREFIX @ ''/'') then t
      else METADATA_PREFIX @ ''/'' @ t)"

definition with_time :: "int \<Rightarrow> Condition \<Rightarrow> Condition" where
  "with_time now c = (if c_LastTransitionTime c = 0 then c\<lparr>c_LastTransitionTime := now\<rparr> else c)"

definition conditionWithStableTransitionTime :: "int \<Rightarrow> Condition list \<Rightarrow> Condition \<Rightarrow> Condition" where
  "conditionWithStableTransitionTime now conditions condition =
     (case List.find (\<lambda>e. c_Type e = c_Type condition \<and> c_Status e = c_Status condition) conditions of
        Some e \<Rightarrow> condition\<lparr>c_LastTransitionTime := c_LastTransitionTime e\<rparr>
      | None \<Rightarrow> with_time now condition)"

definition conditionWithStableTransitionTimeForReasonOrMessage :: "int \<Rightarrow> Condition list \<Rightarrow> Condition \<Rightarrow> Condition" where
  "conditionWithStableTransitionTimeForReasonOrMessage now conditions condition =
     (case List.find (\<lambda>e. c_Type e = c_Type condition \<and> c_Status e = c_Status condition \<and>
                         c_Reason e = c_Reason condition \<and> c_Message e = c_Message condition) conditions of
        Some e \<Rightarrow> condition\<lparr>c_LastTransitionTime := c_LastTransitionTime e\<rparr>
      | None \<Rightarrow> with_time now condition)"

fun addOrUpdateSkyhookCondition :: "Condition list \<Rightarrow> Condition \<Rightarrow> Condition list \<times> bool" where
  "addOrUpdateSkyhookCondition [] condition = ([condition], True)"
| "addOrUpdateSkyhookCondition (e # es) condition =
     (if c_Type e \<noteq> c_Type condition then
        (let (cs, changed) = addOrUpdateSkyhookCondition es condition in (e # cs, changed))
      else if e = condition then (e # es, False)
      else (condition # es, True))"

definition add_condition :: "Condition \<Rightarrow> Skyhook \<Rightarrow> Skyhook \<times> bool" where
  "add_condition condition s =
     (let (cs, changed) = addOrUpdateSkyhookCondition (st_Conditions (sk_Status s)) condition
      in if \<not> changed then (s, False) else (touch (put_status (\<lambda>st. st\<lparr>st_Conditions := cs\<rparr>) s), True))"

definition AddSkyhookCondition :: "int \<Rightarrow> Condition \<Rightarrow> Skyhook \<Rightarrow> Skyhook \<times> bool" where
  "AddSkyhookCondition now condition s =
     add_condition (conditionWithStableTransitionTime now (st_Conditions (sk_Status s)) condition) s"

definition AddSkyhookConditionRefreshing :: "int \<Rightarrow> Condition \<Rightarrow> Skyhook \<Rightarrow> Skyhook \<times> bool" where
  "AddSkyhookConditionRefreshing now condition s =
     add_condition (conditionWithStableTransitionTimeForReasonOrMessage now (st_Conditions (sk_Status s)) condition) s"

definition AddSkyhookConditionWithLegacy :: "int \<Rightarrow> Condition \<Rightarrow> Skyhook \<Rightarrow> Skyhook \<times> bool" where
  "AddSkyhookConditionWithLegacy now condition s =
     (let (s1, changed) = AddSkyhookCondition now condition s;
          legacyType = LegacySkyhookConditionType (c_Type condition)
      in if legacyType = [] then (s1, changed)
         else let (s2, changed2) = AddSkyhookCondition now (condition\<lparr>c_Type := legacyType\<rparr>) s1
              in (s2, changed2 \<or> changed))"

definition RemoveSkyhookConditionTypes :: "string list \<Rightarrow> Skyhook \<Rightarrow> Skyhook \<times> bool" where
  "RemoveSkyhookConditionTypes types s =
     (let cs = st_Conditions (sk_Status s); kept = filter (\<lambda>c. c_Type c \<notin> set types) cs
      in if length kept < length cs then (touch (put_status (\<lambda>st. st\<lparr>st_Conditions := kept\<rparr>) s), True)
         else (s, False))"

fun remove_first :: "string \<Rightarrow> Condition list \<Rightarrow> Condition list" where
  "remove_first t [] = []"
| "remove_first t (c # cs) = (if c_Type c = t then cs else c # remove_first t cs)"

definition RemoveCondition :: "string \<Rightarrow> Skyhook \<Rightarrow> Skyhook" where
  "RemoveCondition t s =
     (if t \<in> set (map c_Type (st_Conditions (sk_Status s)))
      then touch (put_status (\<lambda>st. st\<lparr>st_Conditions := remove_first t (st_Conditions st)\<rparr>) s) else s)"

definition HasTrueSkyhookCondition :: "string list \<Rightarrow> Skyhook \<Rightarrow> bool" where
  "HasTrueSkyhookCondition types s =
     list_ex (\<lambda>c. c_Type c \<in> set types \<and> c_Status c = ''True'') (st_Conditions (sk_Status s))"

text \<open>Node names grouped by status, in the order given; a node with no status is unknown.\<close>

definition SkyhookReadyConditionStatusGroups :: "(string, Status) gomap \<Rightarrow> string list \<Rightarrow> (Status, string list) gomap" where
  "SkyhookReadyConditionStatusGroups statuses names =
     fold (\<lambda>n m. let st = (case map_of statuses n of None \<Rightarrow> StatusUnknown | Some x \<Rightarrow> x)
                 in gput st (or_empty (map_of m st) @ [n]) m) names []"

definition formatNodeList :: "string list \<Rightarrow> string" where
  "formatNodeList nodes =
     (if nodes = [] then []
      else if length nodes > 10 then '' (list truncated; see controller logs)''
      else '' ('' @ join_with '', '' nodes @ '')'')"

definition nodeProgressStatusLabel :: "Status \<Rightarrow> string" where
  "nodeProgressStatusLabel st = (if st = StatusInProgress then ''in progress'' else status_string st)"

definition SkyhookReadyConditionMessage :: "(string, Status) gomap \<Rightarrow> string list \<Rightarrow> string" where
  "SkyhookReadyConditionMessage statuses names =
     (let groups = SkyhookReadyConditionStatusGroups statuses names;
          at_status = (\<lambda>st. or_empty (map_of groups st));
          complete = at_status StatusComplete
      in join_with '', ''
           ((show_nat (length complete) @ ''/'' @ show_nat (length names) @ '' nodes complete'' @ formatNodeList complete) #
            map (\<lambda>st. show_nat (length (at_status st)) @ '' '' @ nodeProgressStatusLabel st @ formatNodeList (at_status st))
              (filter (\<lambda>st. at_status st \<noteq> [])
                 [StatusInProgress, StatusBlocked, StatusErroring, StatusWaiting, StatusPaused, StatusDisabled, StatusUnknown])))"

section \<open>Version and priority\<close>

definition version_key_sk :: string where
  "version_key_sk = METADATA_PREFIX @ ''/version''"

definition Skyhook_GetVersion :: "Skyhook \<Rightarrow> string" where
  "Skyhook_GetVersion s =
     (case map_of (or_empty (nw_Annotations (sk_NodeWright s))) version_key_sk of None \<Rightarrow> [] | Some v \<Rightarrow> v)"

definition Skyhook_SetVersion :: "string \<Rightarrow> Skyhook \<Rightarrow> Skyhook" where
  "Skyhook_SetVersion VERSION s =
     (if VERSION = [] \<or> Skyhook_GetVersion s = VERSION then s
      else touch (s\<lparr>sk_NodeWright := (sk_NodeWright s)
             \<lparr>nw_Annotations := Some (gput version_key_sk VERSION (or_empty (nw_Annotations (sk_NodeWright s))))\<rparr>\<rparr>))"

text \<open>The 0.5.0 migration of the resource does nothing.\<close>

definition Skyhook_Migrate :: "string \<Rightarrow> Skyhook \<Rightarrow> Skyhook" where
  "Skyhook_Migrate VERSION s =
     (let from_version = Skyhook_GetVersion s
      in if from_version = VERSION then s
         else if from_version = [] then Skyhook_SetVersion VERSION s else s)"

definition RemoveNodePriority :: "string \<Rightarrow> Skyhook \<Rightarrow> Skyhook" where
  "RemoveNodePriority name s =
     (case NodePriority (sk_Status s) of
        None \<Rightarrow> s
      | Some m \<Rightarrow>
          if map_of m name = None then s
          else touch (put_status (\<lambda>st. st\<lparr>NodePriority := Some (gdel name m), NodeOrderOffset := NodeOrderOffset st + 1\<rparr>) s))"

definition priority_order :: "(string, int) gomap \<Rightarrow> string list" where
  "priority_order m = map fst (sort_key (\<lambda>(n, t). (t, n)) m)"

definition NodeOrder :: "string \<Rightarrow> Skyhook \<Rightarrow> int" where
  "NodeOrder nodeName s =
     (case NodePriority (sk_Status s) of
        None \<Rightarrow> 0
      | Some m \<Rightarrow>
          (let names = priority_order m; i = length (takeWhile (\<lambda>n. n \<noteq> nodeName) names)
           in if i < length names then NodeOrderOffset (sk_Status s) + int i else 0))"

section \<open>Lemmas\<close>

lemma put_status_sel [simp]:
  "sk_Status (put_status f s) = f (sk_Status s)" "sk_Spec (put_status f s) = sk_Spec s"
  "Updated (put_status f s) = Updated s" "nw_Annotations (sk_NodeWright (put_status f s)) = nw_Annotations (sk_NodeWright s)"
  "Generation (sk_NodeWright (put_status f s)) = Generation (sk_NodeWright s)"
  by (simp_all add: put_status_def)

lemma touch_sel [simp]: "sk_NodeWright (touch s) = sk_NodeWright s" "Updated (touch s)"
  by (simp_all add: touch_def)

lemma addOrUpdate_types:
  "map c_Type (fst (addOrUpdateSkyhookCondition cs c)) =
     (if c_Type c \<in> set (map c_Type cs) then map c_Type cs else map c_Type cs @ [c_Type c])"
  by (induction cs) (auto split: prod.splits)

lemma addOrUpdate_same:
  "c \<in> set cs \<Longrightarrow> distinct (map c_Type cs) \<Longrightarrow> addOrUpdateSkyhookCondition cs c = (cs, False)"
  by (induction cs) (auto split: prod.splits)

lemma addOrUpdate_in: "c \<in> set (fst (addOrUpdateSkyhookCondition cs c))"
  by (induction cs) (auto split: prod.splits)

lemma addOrUpdate_others:
  "e \<in> set cs \<Longrightarrow> c_Type e \<noteq> c_Type c \<Longrightarrow> e \<in> set (fst (addOrUpdateSkyhookCondition cs c))"
  by (induction cs) (auto split: prod.splits)

lemma add_condition_sel:
  "st_Conditions (sk_Status (fst (add_condition c s))) = fst (addOrUpdateSkyhookCondition (st_Conditions (sk_Status s)) c) \<or>
     (st_Conditions (sk_Status (fst (add_condition c s))) = st_Conditions (sk_Status s) \<and>
      \<not> snd (addOrUpdateSkyhookCondition (st_Conditions (sk_Status s)) c))"
  by (auto simp: add_condition_def split_beta)

lemma addOrUpdate_unchanged: "\<not> snd (addOrUpdateSkyhookCondition cs c) \<Longrightarrow> fst (addOrUpdateSkyhookCondition cs c) = cs"
  by (induction cs) (auto split: prod.splits if_splits)

lemma add_condition_conditions:
  "st_Conditions (sk_Status (fst (add_condition c s))) = fst (addOrUpdateSkyhookCondition (st_Conditions (sk_Status s)) c)"
  using add_condition_sel[of c s] addOrUpdate_unchanged by metis

lemma find_by_type:
  assumes "c \<in> set cs" and "distinct (map c_Type cs)" and "Q c"
  shows "List.find (\<lambda>e. c_Type e = c_Type c \<and> Q e) cs = Some c"
  using assms
proof (induction cs)
  case (Cons e cs)
  show ?case
  proof (cases "e = c")
    case True
    then show ?thesis using Cons.prems by simp
  next
    case False
    then have "c \<in> set cs" "c_Type e \<noteq> c_Type c" using Cons.prems by (auto simp: image_iff)
    then show ?thesis using Cons by simp
  qed
qed simp

text \<open>
  A condition type occurs once, and conditions are stable: adding a condition keeps every other type's
  condition, and adding the same condition again, at any later time, changes nothing and does not mark
  the resource for writing, since the transition time of an unchanged status is kept.
\<close>

theorem condition_readd_noop:
  assumes "distinct (map c_Type (st_Conditions (sk_Status s)))" and "AddSkyhookCondition now c s = (s', ch)"
  shows "distinct (map c_Type (st_Conditions (sk_Status s'))) \<and>
     (\<forall>e \<in> set (st_Conditions (sk_Status s)). c_Type e \<noteq> c_Type c \<longrightarrow> e \<in> set (st_Conditions (sk_Status s'))) \<and>
     (\<forall>now'. AddSkyhookCondition now' c s' = (s', False))"
proof -
  let ?cs = "st_Conditions (sk_Status s)" and ?cs' = "st_Conditions (sk_Status s')"
  let ?c = "conditionWithStableTransitionTime now ?cs c"
  have c: "\<exists>t. ?c = c\<lparr>c_LastTransitionTime := t\<rparr>"
    by (cases c) (auto simp: conditionWithStableTransitionTime_def with_time_def split: option.splits)
  then have ty: "c_Type ?c = c_Type c" "c_Status ?c = c_Status c" by auto
  have s': "?cs' = fst (addOrUpdateSkyhookCondition ?cs ?c)"
    using assms(2) add_condition_conditions[of ?c s] by (simp add: AddSkyhookCondition_def)
  have d: "distinct (map c_Type ?cs')" using assms(1) unfolding s' addOrUpdate_types by auto
  have inn: "?c \<in> set ?cs'" unfolding s' by (rule addOrUpdate_in)
  have "AddSkyhookCondition now' c s' = (s', False)" for now'
  proof -
    have "List.find (\<lambda>e. c_Type e = c_Type c \<and> c_Status e = c_Status c) ?cs' = Some ?c"
      using find_by_type[OF inn d, of "\<lambda>e. c_Status e = c_Status c"] ty by simp
    then have "conditionWithStableTransitionTime now' ?cs' c = ?c"
      using c by (auto simp: conditionWithStableTransitionTime_def)
    then show ?thesis
      using addOrUpdate_same[OF inn d] by (simp add: AddSkyhookCondition_def add_condition_def)
  qed
  moreover have "e \<in> set ?cs'" if "e \<in> set ?cs" "c_Type e \<noteq> c_Type c" for e
    unfolding s' using that ty addOrUpdate_others by simp
  ultimately show ?thesis using d by blast
qed

definition sample_condition :: Condition where
  "sample_condition =
     \<lparr>c_Type = ''Ready'', c_Status = ''True'', c_ObservedGeneration = 1, c_LastTransitionTime = 0,
      c_Reason = ''NodesConverged'', c_Message = []\<rparr>"

theorem condition_readd_noop_witness:
  "\<forall>now'. AddSkyhookCondition now' sample_condition
      (fst (AddSkyhookCondition 7 sample_condition (NewSkyhookWrapper (sample_nodewright [] [])))) =
     (fst (AddSkyhookCondition 7 sample_condition (NewSkyhookWrapper (sample_nodewright [] []))), False)"
proof -
  let ?s = "NewSkyhookWrapper (sample_nodewright [] [])"
  have "distinct (map c_Type (st_Conditions (sk_Status ?s)))" by (simp add: NewSkyhookWrapper_def sample_nodewright_def)
  from condition_readd_noop[OF this, of 7 sample_condition] show ?thesis by (metis prod.collapse)
qed

section \<open>Node order\<close>

definition position :: "'a \<Rightarrow> 'a list \<Rightarrow> nat" where
  "position x xs = length (takeWhile (\<lambda>y. y \<noteq> x) xs)"

lemma position_less: "x \<in> set xs \<longleftrightarrow> position x xs < length xs"
  by (induction xs) (auto simp: position_def)

lemma position_nth: "x \<in> set xs \<Longrightarrow> xs ! position x xs = x"
  by (induction xs) (auto simp: position_def)

lemma position_filter:
  assumes "distinct xs" and "y \<in> set xs" and "x \<in> set xs" and "y \<noteq> x"
  shows "position y (filter (\<lambda>z. z \<noteq> x) xs) = position y xs - (if position x xs < position y xs then 1 else 0)"
  using assms
proof (induction xs)
  case (Cons a xs)
  have "filter (\<lambda>z. z \<noteq> x) xs = xs" if "x \<notin> set xs" using that by (auto simp: filter_id_conv)
  then show ?case using Cons by (auto simp: position_def)
qed simp

lemma set_priority_order: "set (priority_order m) = set (gkeys m)"
  by (simp add: priority_order_def)

lemma distinct_priority_order: "gomap_ok m \<Longrightarrow> distinct (priority_order m)"
  by (simp add: priority_order_def distinct_map)

lemma priority_order_delete: "priority_order (gdel x m) = filter (\<lambda>z. z \<noteq> x) (priority_order m)"
proof -
  have "gdel x m = filter (\<lambda>e. fst e \<noteq> x) m"
    by (auto simp: AList.delete_eq intro!: filter_cong)
  then show ?thesis
    by (simp add: priority_order_def filter_map comp_def filter_sort)
qed

lemma NodeOrder_position:
  assumes "NodePriority (sk_Status s) = Some m" and "n \<in> set (gkeys m)"
  shows "NodeOrder n s = NodeOrderOffset (sk_Status s) + int (position n (priority_order m))"
  using assms position_less[of n "priority_order m"]
  by (simp add: NodeOrder_def Let_def position_def set_priority_order del: set_map)

text \<open>
  Nodes get their order without collisions and it never goes back: two nodes in the priority list have
  different orders, counted up from the offset, and when a node leaves the list the order of every other
  node stays as it is if the node was before it and grows by one if it was after it.
\<close>

theorem node_order_monotonic:
  assumes "NodePriority (sk_Status s) = Some m" and "gomap_ok m" and "x \<in> set (gkeys m)" and "y \<in> set (gkeys m)"
    and "x \<noteq> y"
  shows "NodeOrder x s \<noteq> NodeOrder y s \<and> NodeOrderOffset (sk_Status s) \<le> NodeOrder y s \<and>
     NodeOrder y (RemoveNodePriority x s) = NodeOrder y s + (if NodeOrder x s < NodeOrder y s then 0 else 1)"
proof -
  let ?o = "priority_order m"
  have xy: "x \<in> set ?o" "y \<in> set ?o" using assms(3,4) by (simp_all add: set_priority_order del: set_map)
  have d: "distinct ?o" by (rule distinct_priority_order[OF assms(2)])
  have neq: "position x ?o \<noteq> position y ?o" using position_nth[OF xy(1)] position_nth[OF xy(2)] assms(5) by auto
  have "map_of m x \<noteq> None" using assms(3) gkeys_lookup[of x m] by simp
  then have p: "NodePriority (sk_Status (RemoveNodePriority x s)) = Some (gdel x m)"
    "NodeOrderOffset (sk_Status (RemoveNodePriority x s)) = NodeOrderOffset (sk_Status s) + 1"
    using assms(1) by (auto simp: RemoveNodePriority_def)
  have "y \<in> set (gkeys (gdel x m))" using assms(4,5) by (auto simp: AList.delete_eq)
  from NodeOrder_position[OF p(1) this]
  have "NodeOrder y (RemoveNodePriority x s) = NodeOrderOffset (sk_Status s) + 1 +
      int (position y ?o - (if position x ?o < position y ?o then 1 else 0))"
    using position_filter[OF d xy(2,1)] assms(5) p(2) by (simp add: priority_order_delete)
  then show ?thesis
    using neq NodeOrder_position[OF assms(1,3)] NodeOrder_position[OF assms(1,4)] by auto
qed

definition sample_queue :: Skyhook where
  "sample_queue =
     put_status (\<lambda>st. st\<lparr>NodePriority := Some [(''n2'', 20), (''n1'', 10)], NodeOrderOffset := 4\<rparr>)
       (NewSkyhookWrapper (sample_nodewright [] []))"

theorem node_order_monotonic_witness:
  "NodeOrder ''n2'' (RemoveNodePriority ''n1'' sample_queue) = 5"
proof -
  have q: "NodePriority (sk_Status sample_queue) = Some [(''n2'', 20), (''n1'', 10)]" by (simp add: sample_queue_def)
  have "NodeOrder ''n2'' sample_queue = 5" "NodeOrder ''n1'' sample_queue = 4" by code_simp+
  with node_order_monotonic[OF q, of "''n1''" "''n2''"] show ?thesis by simp
qed

end
