(* ===== verification/Node.thy ===== *)
theory Node
  imports Skyhook_Wrapper
begin

text \<open>
  The wrapper of a Kubernetes node: \<open>operator/internal/wrapper/node.go\<close>.

  The operator keeps what it knows about a node in the node's annotations: the package state as JSON,
  the status, the operator version, and one cordon marker per NodeWright that cordoned the node.  The
  wrapper caches the package state.  A wrapper made from a name only has no resource; methods that
  write to the resource take it as an option and return it, methods that only read it take it as it
  is.  Nil annotation, label and condition collections behave as empty ones here and are empty lists.
  Recording and reading the start of a drain is left out: it needs the calendar format of time stamps.
\<close>

section \<open>Data\<close>

record NodeCondition =
  nc_Type :: string
  nc_Status :: string
  nc_LastHeartbeatTime :: int
  nc_LastTransitionTime :: int
  nc_Reason :: string
  nc_Message :: string

record Taint =
  t_Key :: string
  t_Value :: string
  t_Effect :: string

record Node =
  n_Name :: string
  n_UID :: string
  n_Labels :: "(string, string) gomap"
  n_Annotations :: "(string, string) gomap"
  n_Taints :: "Taint list"
  Unschedulable :: bool
  n_Conditions :: "NodeCondition list"
  n_BootID :: string
  n_CreationTimestamp :: int

record skyhookNode =
  sn_Node :: Node
  skyhookName :: string
  nodeState :: NodeState
  sn_graph :: "Package dag"
  sn_updated :: bool

type_synonym node_and_resource = "skyhookNode \<times> Skyhook option"

definition meta_key :: "string \<Rightarrow> string \<Rightarrow> string" where
  "meta_key kind name = METADATA_PREFIX @ ''/'' @ kind @ ''_'' @ name"

definition status_key :: "skyhookNode \<Rightarrow> string" where
  "status_key node = meta_key ''status'' (skyhookName node)"

definition nodeState_key :: "skyhookNode \<Rightarrow> string" where
  "nodeState_key node = meta_key ''nodeState'' (skyhookName node)"

definition version_key_node :: "skyhookNode \<Rightarrow> string" where
  "version_key_node node = meta_key ''version'' (skyhookName node)"

definition drainStartAnnotationKey :: "skyhookNode \<Rightarrow> string" where
  "drainStartAnnotationKey node = meta_key ''drainStart'' (skyhookName node)"

definition cordonAnnotationKey :: "string \<Rightarrow> string" where
  "cordonAnnotationKey name = METADATA_PREFIX @ ''/cordon_'' @ name"

definition RuntimeRequiredCordonAnnotation :: string where
  "RuntimeRequiredCordonAnnotation = METADATA_PREFIX @ ''/runtimeRequiredCordon''"

definition put_node :: "(Node \<Rightarrow> Node) \<Rightarrow> skyhookNode \<Rightarrow> skyhookNode" where
  "put_node f node = node\<lparr>sn_Node := f (sn_Node node)\<rparr>"

definition annotation :: "skyhookNode \<Rightarrow> string \<Rightarrow> string option" where
  "annotation node k = map_of (n_Annotations (sn_Node node)) k"

definition put_annotation :: "string \<Rightarrow> string \<Rightarrow> skyhookNode \<Rightarrow> skyhookNode" where
  "put_annotation k v = put_node (\<lambda>n. n\<lparr>n_Annotations := gput k v (n_Annotations n)\<rparr>)"

definition del_annotation :: "string \<Rightarrow> skyhookNode \<Rightarrow> skyhookNode" where
  "del_annotation k = put_node (\<lambda>n. n\<lparr>n_Annotations := gdel k (n_Annotations n)\<rparr>)"

definition mark :: "skyhookNode \<Rightarrow> skyhookNode" where
  "mark node = node\<lparr>sn_updated := True\<rparr>"

section \<open>Cordon\<close>

definition Cordon :: "skyhookNode \<Rightarrow> skyhookNode \<times> bool" where
  "Cordon node =
     (if \<not> Unschedulable (sn_Node node) \<or> annotation node (cordonAnnotationKey (skyhookName node)) = None
      then (mark (put_annotation (cordonAnnotationKey (skyhookName node)) ''true''
              (put_node (\<lambda>n. n\<lparr>Unschedulable := True\<rparr>) node)), True)
      else (node, False))"

definition hasSkyhookCordon :: "(string, string) gomap \<Rightarrow> bool" where
  "hasSkyhookCordon annotations \<longleftrightarrow>
     list_ex (\<lambda>k. has_prefix k (METADATA_PREFIX @ ''/cordon_'')) (gkeys annotations) \<or>
     map_of annotations RuntimeRequiredCordonAnnotation \<noteq> None"

definition Uncordon :: "skyhookNode \<Rightarrow> skyhookNode" where
  "Uncordon node =
     (if annotation node (cordonAnnotationKey (skyhookName node)) \<noteq> None then
        (let node1 = del_annotation (cordonAnnotationKey (skyhookName node)) node
         in mark (if \<not> hasSkyhookCordon (n_Annotations (sn_Node node1))
                  then put_node (\<lambda>n. n\<lparr>Unschedulable := False\<rparr>) node1 else node1))
      else node)"

section \<open>Status\<close>

definition Node_SetStatus :: "Status \<Rightarrow> node_and_resource \<Rightarrow> node_and_resource" where
  "Node_SetStatus status nr =
     (let (node, sk) = nr;
          s = status_string status;
          node1 = (if annotation node (status_key node) \<noteq> Some s
                   then mark (put_node (\<lambda>n. n\<lparr>n_Labels := gput (status_key node) s (n_Labels n)\<rparr>)
                          (put_annotation (status_key node) s node))
                   else node);
          node2 = (if status = StatusComplete then Uncordon node1 else node1)
      in (node2, map_option (\<lambda>k. SetNodeState (n_Name (sn_Node node2)) (nodeState node2)
                                   (SetNodeStatus (n_Name (sn_Node node2)) status k)) sk))"

definition Node_Status :: "skyhookNode \<Rightarrow> Status" where
  "Node_Status node = (case annotation node (status_key node) of None \<Rightarrow> StatusUnknown | Some s \<Rightarrow> GetStatus s)"

section \<open>Package state\<close>

datatype node_error = StateUnreadable | GraphFailed graph_error

definition Node_State :: "skyhookNode \<Rightarrow> node_error + NodeState" where
  "Node_State node =
     (case nodeState node of
        Some m \<Rightarrow> Inr (Some m)
      | None \<Rightarrow>
          (case annotation node (nodeState_key node) of
             None \<Rightarrow> Inr None
           | Some s \<Rightarrow> (case unmarshal_state s of None \<Rightarrow> Inl StateUnreadable | Some ns \<Rightarrow> Inr ns)))"

text \<open>On an error the cache stays empty, as the code leaves it.\<close>

definition ReloadState :: "skyhookNode \<Rightarrow> skyhookNode \<times> (node_error + unit)" where
  "ReloadState node =
     (let node1 = node\<lparr>nodeState := None\<rparr>
      in case Node_State node1 of
           Inl e \<Rightarrow> (node1, Inl e)
         | Inr ns \<Rightarrow> (node1\<lparr>nodeState := ns\<rparr>, Inr ()))"

definition SetState :: "NodeState \<Rightarrow> skyhookNode \<Rightarrow> skyhookNode" where
  "SetState state node =
     (case state of
        None \<Rightarrow> node
      | Some m \<Rightarrow>
          (let data = marshal_state m
           in if annotation node (nodeState_key node) \<noteq> Some data
              then mark ((put_annotation (nodeState_key node) data node)\<lparr>nodeState := Some m\<rparr>)
              else node))"

definition PackageStatusOf :: "skyhookNode \<Rightarrow> string \<Rightarrow> PackageStatus option" where
  "PackageStatusOf node name = ns_get (nodeState node) name"

text \<open>
  The methods change the cached map in place and then persist it, so the cache has the change even
  where the annotation already had it.
\<close>

definition Node_RemoveState :: "PackageRef \<Rightarrow> skyhookNode \<Rightarrow> skyhookNode" where
  "Node_RemoveState p node =
     (let (ns, changed) = RemoveState (nodeState node) p; node1 = node\<lparr>nodeState := ns\<rparr>
      in if changed then SetState ns node1 else node1)"

definition Node_Upsert ::
  "PackageRef \<Rightarrow> string \<Rightarrow> State \<Rightarrow> Stage \<Rightarrow> int \<Rightarrow> string \<Rightarrow> node_and_resource \<Rightarrow> node_and_resource" where
  "Node_Upsert p img state stage restarts sha nr =
     (let (node, sk) = nr;
          (ns, changed) = Upsert (nodeState node) p img state stage restarts sha;
          node1 = node\<lparr>nodeState := ns\<rparr>
      in if changed then (SetState ns node1, map_option touch sk) else (node1, sk))"

definition Node_IsPackageComplete :: "Skyhook \<Rightarrow> skyhookNode \<Rightarrow> Package \<Rightarrow> bool" where
  "Node_IsPackageComplete sk node p =
     IsPackageComplete (nodeState node) p (GetConfigInterrupts sk) (GetConfigUpdates sk)"

definition Node_IsComplete :: "Skyhook \<Rightarrow> skyhookNode \<Rightarrow> bool" where
  "Node_IsComplete sk node =
     IsComplete (nodeState node) (spec_Packages (sk_Spec sk)) (GetConfigInterrupts sk) (GetConfigUpdates sk)"

definition Node_GetComplete :: "Skyhook \<Rightarrow> skyhookNode \<Rightarrow> string list" where
  "Node_GetComplete sk node =
     GetComplete (nodeState node) (spec_Packages (sk_Spec sk)) (GetConfigInterrupts sk) (GetConfigUpdates sk)"

definition Node_ProgressSkipped :: "Skyhook \<Rightarrow> skyhookNode \<Rightarrow> skyhookNode \<times> Skyhook" where
  "Node_ProgressSkipped sk node =
     (let (ns, changed) = ProgressSkipped (nodeState node) (spec_Packages (sk_Spec sk)); node1 = node\<lparr>nodeState := ns\<rparr>
      in if changed then (SetState ns node1, touch sk) else (node1, sk))"

text \<open>\<open>RunNext\<close>: the names \<open>Next\<close> gives are vertices, so \<open>Get\<close> does not fail on them.\<close>

definition RunNext :: "Skyhook \<Rightarrow> skyhookNode \<Rightarrow> node_error + Package list" where
  "RunNext sk node =
     (case Next (sn_graph node) (Node_GetComplete sk node) of
        Inl e \<Rightarrow> Inl (GraphFailed e)
      | Inr ns \<Rightarrow>
          Inr (sort_key p_Name (concat (map (\<lambda>x. case x of Some p \<Rightarrow> [p] | None \<Rightarrow> [])
                 (case Get (sn_graph node) ns of None \<Rightarrow> [] | Some xs \<Rightarrow> xs)))))"

definition Node_NextStage :: "Skyhook \<Rightarrow> skyhookNode \<Rightarrow> Package \<Rightarrow> Stage option" where
  "Node_NextStage sk node p = NextStage (nodeState node) p (GetConfigInterrupts sk) (GetConfigUpdates sk)"

definition Node_HasInterrupt :: "Skyhook \<Rightarrow> Package \<Rightarrow> bool" where
  "Node_HasInterrupt sk p = HasInterrupt p (GetConfigInterrupts sk) (GetConfigUpdates sk)"

section \<open>Construction\<close>

definition NewSkyhookNodeOnly :: "Node \<Rightarrow> string \<Rightarrow> skyhookNode" where
  "NewSkyhookNodeOnly n name =
     (let ret = \<lparr>sn_Node = n, skyhookName = name, nodeState = None, sn_graph = New, sn_updated = False\<rparr>
      in case Node_State ret of Inl _ \<Rightarrow> ret | Inr ns \<Rightarrow> ret\<lparr>nodeState := ns\<rparr>)"

definition Convert :: "skyhookNode \<Rightarrow> NodeWright \<Rightarrow> spec_error + node_and_resource" where
  "Convert node skyhook =
     (case BuildGraph (nw_Spec skyhook) of
        Inl e \<Rightarrow> Inl e
      | Inr g \<Rightarrow> Inr (node\<lparr>sn_graph := g\<rparr>, Some (NewSkyhookWrapper skyhook)))"

definition NewSkyhookNode :: "Node \<Rightarrow> NodeWright \<Rightarrow> spec_error + node_and_resource" where
  "NewSkyhookNode n skyhook = Convert (NewSkyhookNodeOnly n (nw_Name skyhook)) skyhook"

section \<open>Version, taints, drain marker\<close>

definition Node_GetVersion :: "skyhookNode \<Rightarrow> string" where
  "Node_GetVersion node = (case annotation node (version_key_node node) of None \<Rightarrow> [] | Some v \<Rightarrow> v)"

definition Node_SetVersion :: "string \<Rightarrow> skyhookNode \<Rightarrow> skyhookNode" where
  "Node_SetVersion VERSION node =
     (if Node_GetVersion node = VERSION \<or> VERSION = [] then node
      else mark (put_annotation (version_key_node node) VERSION node))"

definition Node_Taint :: "string \<Rightarrow> Skyhook \<Rightarrow> skyhookNode \<Rightarrow> skyhookNode" where
  "Node_Taint key sk node =
     (if list_ex (\<lambda>t. t_Key t = key) (n_Taints (sn_Node node)) then node
      else mark (put_node (\<lambda>n. n\<lparr>n_Taints := n_Taints n @
               [\<lparr>t_Key = key, t_Value = nw_Name (sk_NodeWright sk), t_Effect = ''NoSchedule''\<rparr>]\<rparr>) node))"

definition Node_RemoveTaint :: "string \<Rightarrow> skyhookNode \<Rightarrow> skyhookNode" where
  "Node_RemoveTaint key node =
     (let ts = n_Taints (sn_Node node); temp = filter (\<lambda>t. t_Key t \<noteq> key) ts
      in if length temp < length ts then mark (put_node (\<lambda>n. n\<lparr>n_Taints := temp\<rparr>) node) else node)"

definition HasSkyhookAnnotations :: "skyhookNode \<Rightarrow> bool" where
  "HasSkyhookAnnotations node =
     list_ex (\<lambda>k. has_prefix k (METADATA_PREFIX @ ''/'')) (gkeys (n_Annotations (sn_Node node)))"

definition ClearDrainStart :: "skyhookNode \<Rightarrow> skyhookNode" where
  "ClearDrainStart node =
     (if annotation node (drainStartAnnotationKey node) = None then node
      else mark (del_annotation (drainStartAnnotationKey node) node))"

section \<open>Reset and cleanup\<close>

definition Reset :: "Skyhook \<Rightarrow> skyhookNode \<Rightarrow> skyhookNode \<times> Skyhook" where
  "Reset sk node =
     (let name = n_Name (sn_Node node);
          sk1 = touch (put_status (\<lambda>st. st\<lparr>st_NodeState := map_option (gdel name) (st_NodeState st),
                  st_NodeStatus := map_option (gdel name) (st_NodeStatus st), st_Status := StatusUnknown\<rparr>) sk);
          node1 = fold del_annotation
                    [cordonAnnotationKey (skyhookName node), drainStartAnnotationKey node, nodeState_key node,
                     status_key node, version_key_node node] node;
          node2 = put_node (\<lambda>n. n\<lparr>n_Labels := gdel (status_key node) (n_Labels n)\<rparr>) node1
      in (mark (node2\<lparr>nodeState := None\<rparr>), sk1))"

definition own_key :: "skyhookNode \<Rightarrow> string \<Rightarrow> bool" where
  "own_key node k \<longleftrightarrow> has_prefix k (METADATA_PREFIX @ ''/'') \<and> has_suffix k (''_'' @ skyhookName node)"

definition CleanupSCRMetadata :: "skyhookNode \<Rightarrow> skyhookNode" where
  "CleanupSCRMetadata node =
     (let preserve = (case Node_State node of Inl _ \<Rightarrow> False | Inr ns \<Rightarrow> or_empty ns \<noteq> []);
          n = sn_Node node;
          keep_ann = (\<lambda>k. \<not> own_key node k \<or> (preserve \<and> (k = nodeState_key node \<or> k = version_key_node node)));
          anns = filter (\<lambda>(k, v). keep_ann k) (n_Annotations n);
          labels = filter (\<lambda>(k, v). \<not> own_key node k) (n_Labels n);
          conds = filter (\<lambda>c. \<not> has_prefix (nc_Type c) (METADATA_PREFIX @ ''/'' @ skyhookName node @ ''/'')) (n_Conditions n);
          changed = (length anns < length (n_Annotations n) \<or> length labels < length (n_Labels n) \<or>
                     length conds < length (n_Conditions n))
      in node\<lparr>sn_Node := n\<lparr>n_Annotations := anns, n_Labels := labels, n_Conditions := conds\<rparr>,
              nodeState := (if preserve then nodeState node else None),
              sn_updated := sn_updated node \<or> changed\<rparr>)"

section \<open>Node conditions\<close>

definition UpdateCondition :: "int \<Rightarrow> Skyhook \<Rightarrow> skyhookNode \<Rightarrow> skyhookNode" where
  "UpdateCondition now sk node =
     (let complete = Node_IsComplete sk node;
          erroring = list_ex (\<lambda>(k, s). ps_State s = StateErroring \<or> ps_State s = StateUnknown) (or_empty (nodeState node));
          prefix = METADATA_PREFIX @ ''/'' @ skyhookName node @ ''/'';
          cond = \<lparr>nc_Type = prefix @ ''NotReady'', nc_Status = (if complete then ''False'' else ''True''),
                  nc_LastHeartbeatTime = now, nc_LastTransitionTime = now,
                  nc_Reason = (if complete then ''Complete'' else ''Incomplete''),
                  nc_Message = ''NodeWright '' @ skyhookName node @ '' Ready''\<rparr>;
          errorCond = \<lparr>nc_Type = prefix @ ''Erroring'', nc_Status = (if erroring then ''True'' else ''False''),
                  nc_LastHeartbeatTime = now, nc_LastTransitionTime = now,
                  nc_Reason = (if erroring then ''Package(s) Erroring or Unknown'' else ''Not Erroring''),
                  nc_Message = ''Package Erroring or Unknown for '' @ skyhookName node\<rparr>;
          replaces = (\<lambda>c. if nc_Type c = nc_Type errorCond
                          then nc_Reason c \<noteq> nc_Reason errorCond \<and> nc_Message c = nc_Message errorCond
                          else nc_Type c = nc_Type cond \<and> (nc_Reason c \<noteq> nc_Reason cond \<or> nc_Message c \<noteq> nc_Message cond));
          cs = n_Conditions (sn_Node node);
          cs1 = map (\<lambda>c. if replaces c then (if nc_Type c = nc_Type errorCond then errorCond else cond) else c) cs;
          noError = \<not> list_ex (\<lambda>c. nc_Type c = nc_Type errorCond) cs;
          noCond = \<not> list_ex (\<lambda>c. nc_Type c = nc_Type cond) cs;
          cs2 = (if noError then errorCond # cs1 else cs1);
          cs3 = (if noCond then cond # cs2 else cs2)
      in node\<lparr>sn_Node := (sn_Node node)\<lparr>n_Conditions := cs3\<rparr>,
              sn_updated := sn_updated node \<or> list_ex replaces cs \<or> noError \<or> noCond\<rparr>)"

section \<open>Lemmas on the annotations\<close>

lemma put_node_sel [simp]:
  "sn_Node (put_node f node) = f (sn_Node node)" "skyhookName (put_node f node) = skyhookName node"
  "nodeState (put_node f node) = nodeState node" "sn_graph (put_node f node) = sn_graph node"
  by (simp_all add: put_node_def)

lemma mark_sel [simp]:
  "sn_Node (mark node) = sn_Node node" "skyhookName (mark node) = skyhookName node"
  "nodeState (mark node) = nodeState node" "annotation (mark node) = annotation node"
  by (simp_all add: mark_def annotation_def[abs_def])

lemma annotation_put [simp]:
  "annotation (put_annotation k v node) = (annotation node)(k \<mapsto> v)"
  "annotation (del_annotation k node) = (annotation node)(k := None)"
  by (auto simp: annotation_def put_annotation_def del_annotation_def)

lemma put_annotation_sel [simp]:
  "skyhookName (put_annotation k v node) = skyhookName node" "skyhookName (del_annotation k node) = skyhookName node"
  "nodeState (put_annotation k v node) = nodeState node" "nodeState (del_annotation k node) = nodeState node"
  "Unschedulable (sn_Node (put_annotation k v node)) = Unschedulable (sn_Node node)"
  "Unschedulable (sn_Node (del_annotation k node)) = Unschedulable (sn_Node node)"
  by (simp_all add: put_annotation_def del_annotation_def)

lemma annotation_put_node [simp]:
  "annotation (put_node (\<lambda>n. n\<lparr>Unschedulable := b\<rparr>) node) = annotation node"
  "annotation (put_node (\<lambda>n. n\<lparr>n_Labels := l n\<rparr>) node) = annotation node"
  "annotation (put_node (\<lambda>n. n\<lparr>n_Taints := ts n\<rparr>) node) = annotation node"
  "annotation (node\<lparr>nodeState := ns\<rparr>) = annotation node"
  by (auto simp: annotation_def put_node_def)

lemma keys_differ [simp]:
  "status_key node \<noteq> nodeState_key node" "nodeState_key node \<noteq> status_key node"
  "version_key_node node \<noteq> nodeState_key node" "nodeState_key node \<noteq> version_key_node node"
  "nodeState_key node \<noteq> cordonAnnotationKey name" "cordonAnnotationKey name \<noteq> nodeState_key node"
  "drainStartAnnotationKey node \<noteq> nodeState_key node" "nodeState_key node \<noteq> drainStartAnnotationKey node"
  by (simp_all add: status_key_def nodeState_key_def version_key_node_def drainStartAnnotationKey_def
      meta_key_def cordonAnnotationKey_def)

lemma nodeState_key_cong [simp]:
  "nodeState_key (put_annotation k v node) = nodeState_key node" "nodeState_key (mark node) = nodeState_key node"
  "nodeState_key (put_node f node) = nodeState_key node" "nodeState_key (node\<lparr>nodeState := ns\<rparr>) = nodeState_key node"
  "nodeState_key (del_annotation k node) = nodeState_key node"
  by (simp_all add: nodeState_key_def)

section \<open>The cache and the annotation agree\<close>

text \<open>
  The cached package state is well formed, and the annotation text reads back as the same entries.
\<close>

definition in_sync :: "skyhookNode \<Rightarrow> bool" where
  "in_sync node =
     (case nodeState node of
        None \<Rightarrow> True
      | Some m \<Rightarrow>
          gomap_ok m \<and> entries_canonical m \<and>
          (case annotation node (nodeState_key node) of
             None \<Rightarrow> False
           | Some s \<Rightarrow> (case unmarshal_state s of Some (Some m') \<Rightarrow> map_of m' = map_of m | _ \<Rightarrow> False)))"

lemma in_sync_cong:
  "nodeState node' = nodeState node \<Longrightarrow> nodeState_key node' = nodeState_key node \<Longrightarrow>
     annotation node' (nodeState_key node) = annotation node (nodeState_key node) \<Longrightarrow>
     in_sync node' \<longleftrightarrow> in_sync node"
  by (cases "nodeState node") (simp_all add: in_sync_def)

lemma map_of_sort [simp]: "gomap_ok m \<Longrightarrow> map_of (sort_key fst m) = map_of m"
  by (intro map_of_inject_set[THEN iffD2]) (simp_all add: distinct_map)

lemma SetState_in_sync:
  assumes "gomap_ok m" and "entries_canonical m"
  shows "in_sync (SetState (Some m) (node\<lparr>nodeState := Some m\<rparr>))" and "nodeState (SetState (Some m) (node\<lparr>nodeState := Some m\<rparr>)) = Some m"
  using unmarshal_marshal[OF assms] assms by (auto simp: SetState_def in_sync_def Let_def)

lemma entries_canonical_gput: "entries_canonical m \<Longrightarrow> status_canonical s \<Longrightarrow> entries_canonical (gput k s m)"
  by (induction m) (auto simp: entries_canonical_def)

lemma Upsert_canonical:
  assumes "entries_canonical (or_empty ns)" and "stage_of (stage_string sg) = sg" and "state_of (state_string st) = st"
    and "- (2 ^ 31) \<le> r" and "r < 2 ^ 31"
  shows "entries_canonical (or_empty (fst (Upsert ns p img st sg r sha)))"
proof -
  let ?e = "\<lparr>ps_Name = ref_Name p, ps_Version = ref_Version p, ps_Image = img, ps_ContainerSHA = sha,
      ps_Stage = sg, ps_State = st, ps_Restarts = r\<rparr>"
  have "status_canonical ?e" using assms by (simp add: status_canonical_def)
  then show ?thesis
    using assms(1) entries_canonical_gput[of "or_empty ns" ?e] by (simp add: Upsert_def Let_def)
qed

lemma Upsert_Some: "\<exists>m. fst (Upsert ns p img st sg r sha) = Some m"
  by (simp add: Upsert_def Let_def)

text \<open>Removal and skipping keep the entries canonical.\<close>

lemma RemoveState_canonical:
  "entries_canonical (or_empty ns) \<Longrightarrow> entries_canonical (or_empty (fst (RemoveState ns p)))"
  by (auto simp: RemoveState_def entries_canonical_def list_all_iff AList.delete_eq split: option.splits)

lemma canonical_complete: "status_canonical s \<Longrightarrow> status_canonical (s\<lparr>ps_State := StateComplete\<rparr>)"
  by (simp add: status_canonical_def state_of_def States_def)

lemma progress_range_ok:
  fixes packages :: Packages
  assumes "gomap_ok (fst acc)" and "entries_canonical (fst acc)"
  defines "loop \<equiv> \<lambda>ks acc. fst (grange (progress_skipped_step packages) (\<lambda>acc k. map_of (fst acc) k) ks acc)"
  shows "gomap_ok (loop ks acc) \<and> entries_canonical (loop ks acc)"
  using assms(1,2)
proof (induction ks arbitrary: acc)
  case (Cons k ks)
  let ?acc = "case map_of (fst acc) k of None \<Rightarrow> acc | Some v \<Rightarrow> progress_skipped_step packages k v acc"
  have "gomap_ok (fst ?acc) \<and> entries_canonical (fst ?acc)"
  proof (cases "map_of (fst acc) k")
    case (Some v)
    then have "status_canonical v" using Cons.prems(2) by (auto simp: entries_canonical_def list_all_iff dest: map_of_SomeD)
    then show ?thesis
      using Cons.prems Some entries_canonical_gput canonical_complete[of v]
      by (auto simp: progress_skipped_step_def split: option.splits)
  qed (use Cons.prems in simp)
  then show ?case using Cons.IH[of ?acc] by (simp add: loop_def)
qed (simp add: loop_def)

lemma ProgressSkipped_ok:
  assumes "gomap_ok m" and "entries_canonical m"
  shows "\<exists>m'. fst (ProgressSkipped (Some m) packages) = Some m' \<and> gomap_ok m' \<and> entries_canonical m'"
  using progress_range_ok[of "(m, False)" packages "gkeys m"] assms by (simp add: ProgressSkipped_def split_beta)

text \<open>
  What a reconcile does to one node's wrapper, as a step relation; \<open>sk\<close> is the resource.
\<close>

inductive node_step :: "node_and_resource \<Rightarrow> node_and_resource \<Rightarrow> bool" where
  upsert: "stage_of (stage_string sg) = sg \<Longrightarrow> state_of (state_string st) = st \<Longrightarrow> - (2 ^ 31) \<le> r \<Longrightarrow> r < 2 ^ 31 \<Longrightarrow>
     node_step nr (Node_Upsert p img st sg r sha nr)"
| remove: "node_step (node, sk) (Node_RemoveState p node, sk)"
| progress: "node_step (node, Some sk) (map_prod id Some (Node_ProgressSkipped sk node))"
| set_status: "node_step nr (Node_SetStatus status nr)"
| cordon: "node_step (node, sk) (fst (Cordon node), sk)"
| uncordon: "node_step (node, sk) (Uncordon node, sk)"
| set_version: "node_step (node, sk) (Node_SetVersion VERSION node, sk)"
| clear_drain: "node_step (node, sk) (ClearDrainStart node, sk)"
| reset: "node_step (node, Some sk) (map_prod id Some (Reset sk node))"

inductive_cases node_stepE: "node_step nr nr'"

lemma in_syncD:
  assumes "in_sync node" and "nodeState node = Some m"
  shows "gomap_ok m" and "entries_canonical m"
  using assms by (simp_all add: in_sync_def)

lemma in_sync_cached: "in_sync node \<Longrightarrow> gomap_ok (or_empty (nodeState node)) \<and> entries_canonical (or_empty (nodeState node))"
  by (cases "nodeState node") (auto simp: in_sync_def entries_canonical_def)

lemma Upsert_in_sync:
  assumes "in_sync node" and "stage_of (stage_string sg) = sg" and "state_of (state_string st) = st"
    and "- (2 ^ 31) \<le> r" and "r < 2 ^ 31"
  shows "in_sync (fst (Node_Upsert p img st sg r sha (node, sk)))"
    and "nodeState (fst (Node_Upsert p img st sg r sha (node, sk))) = fst (Upsert (nodeState node) p img st sg r sha)"
proof -
  let ?u = "Upsert (nodeState node) p img st sg r sha"
  obtain m where m: "fst ?u = Some m" using Upsert_Some by blast
  have "state_ok (nodeState node)" using in_sync_cached[OF assms(1)] by (simp add: state_ok_def)
  then have ok: "gomap_ok m" using Upsert_ok[of "nodeState node" p img st sg r sha] m by (simp add: state_ok_def)
  have can: "entries_canonical m"
    using Upsert_canonical[OF _ assms(2-5)] in_sync_cached[OF assms(1)] m by (metis option.simps(5))
  note set = SetState_in_sync[OF ok can, of node]
  have "nodeState node = Some m" if "\<not> snd ?u"
    using that m by (cases "nodeState node") (auto simp: Upsert_def Let_def split: if_splits)
  then have "nodeState node = Some m \<and> node\<lparr>nodeState := Some m\<rparr> = node" if "\<not> snd ?u"
    using that by (cases node) simp
  then show "in_sync (fst (Node_Upsert p img st sg r sha (node, sk)))"
    and "nodeState (fst (Node_Upsert p img st sg r sha (node, sk))) = fst ?u"
    using set m assms(1) by (auto simp: Node_Upsert_def split_beta Let_def)
qed

lemma RemoveState_in_sync: "in_sync node \<Longrightarrow> in_sync (Node_RemoveState p node)"
proof (cases "nodeState node")
  case None
  assume "in_sync node"
  then show ?thesis using None by (simp add: Node_RemoveState_def RemoveState_def in_sync_def)
next
  case (Some m)
  assume s: "in_sync node"
  obtain m' where m': "fst (RemoveState (Some m) p) = Some m'"
    by (cases "map_of m (PackageRef_GetUniqueName p)") (simp_all add: RemoveState_def)
  have "gomap_ok m'" using RemoveState_ok[of "Some m" p] in_syncD(1)[OF s Some] m' by (simp add: state_ok_def)
  moreover have "entries_canonical m'" using RemoveState_canonical[of "Some m" p] in_syncD(2)[OF s Some] m' by simp
  moreover have "node\<lparr>nodeState := Some m'\<rparr> = node" if "\<not> snd (RemoveState (Some m) p)"
    using that m' Some by (cases node) (auto simp: RemoveState_def split: if_splits)
  ultimately show ?thesis
    using SetState_in_sync(1)[of m' node] s m' Some by (auto simp: Node_RemoveState_def split_beta Let_def)
qed

lemma ProgressSkipped_unchanged: "\<not> snd (ProgressSkipped ns pk) \<Longrightarrow> fst (ProgressSkipped ns pk) = ns"
proof -
  have flag: "snd acc \<Longrightarrow> snd (grange (progress_skipped_step pk) (\<lambda>acc k. map_of (fst acc) k) ks acc)" for ks acc
    by (induction ks arbitrary: acc) (auto simp: progress_skipped_step_def split: option.splits)
  have "fst (grange (progress_skipped_step pk) (\<lambda>acc k. map_of (fst acc) k) ks acc) = fst acc"
    if "\<not> snd (grange (progress_skipped_step pk) (\<lambda>acc k. map_of (fst acc) k) ks acc)" for ks acc
    using that
  proof (induction ks arbitrary: acc)
    case (Cons k ks)
    let ?acc = "case map_of (fst acc) k of None \<Rightarrow> acc | Some v \<Rightarrow> progress_skipped_step pk k v acc"
    have "\<not> snd ?acc" using Cons.prems flag[of ?acc ks] by auto
    then have "?acc = acc" by (auto simp: progress_skipped_step_def split: option.splits if_splits)
    then show ?case using Cons by simp
  qed simp
  then show "\<not> snd (ProgressSkipped ns pk) \<Longrightarrow> fst (ProgressSkipped ns pk) = ns"
    by (cases ns) (auto simp: ProgressSkipped_def split_beta)
qed

lemma Progress_in_sync: "in_sync node \<Longrightarrow> in_sync (fst (Node_ProgressSkipped sk node))"
proof (cases "nodeState node")
  case None
  assume "in_sync node"
  then show ?thesis using None by (simp add: Node_ProgressSkipped_def ProgressSkipped_def in_sync_def)
next
  case (Some m)
  assume s: "in_sync node"
  let ?pr = "ProgressSkipped (Some m) (spec_Packages (sk_Spec sk))"
  obtain m' where m': "fst ?pr = Some m'" "gomap_ok m'" "entries_canonical m'"
    using ProgressSkipped_ok[OF in_syncD[OF s Some]] by blast
  moreover have "node\<lparr>nodeState := Some m'\<rparr> = node" if "\<not> snd ?pr"
    using ProgressSkipped_unchanged[OF that] m'(1) Some by (cases node) simp
  ultimately show ?thesis
    using SetState_in_sync(1)[of m' node] s Some by (auto simp: Node_ProgressSkipped_def split_beta Let_def)
qed

lemma Cordon_in_sync: "in_sync node \<Longrightarrow> in_sync (fst (Cordon node))"
  using in_sync_cong[of "fst (Cordon node)" node] by (auto simp: Cordon_def)

lemma Uncordon_in_sync: "in_sync node \<Longrightarrow> in_sync (Uncordon node)"
  using in_sync_cong[of "Uncordon node" node] by (auto simp: Uncordon_def Let_def)

lemma SetStatus_in_sync: "in_sync (fst nr) \<Longrightarrow> in_sync (fst (Node_SetStatus status nr))"
proof -
  assume s: "in_sync (fst nr)"
  let ?n = "fst nr"
  let ?n1 = "if annotation ?n (status_key ?n) \<noteq> Some (status_string status)
      then mark (put_node (\<lambda>n. n\<lparr>n_Labels := gput (status_key ?n) (status_string status) (n_Labels n)\<rparr>)
         (put_annotation (status_key ?n) (status_string status) ?n)) else ?n"
  have "in_sync ?n1" using s in_sync_cong[of ?n1 ?n] by auto
  then have "in_sync (if b then Uncordon ?n1 else ?n1)" for b using Uncordon_in_sync[of ?n1] by (cases b) simp_all
  then show ?thesis unfolding Node_SetStatus_def Let_def split_beta fst_conv .
qed

lemma node_step_in_sync: "node_step nr nr' \<Longrightarrow> in_sync (fst nr) \<Longrightarrow> in_sync (fst nr')"
proof (induction rule: node_step.induct)
  case (upsert sg st r nr p img sha)
  then show ?case using Upsert_in_sync(1)[of "fst nr" sg st r p img sha "snd nr"] by simp
next
  case (set_status nr status)
  then show ?case by (rule SetStatus_in_sync)
next
  case (set_version node sk VERSION)
  then show ?case using in_sync_cong[of "Node_SetVersion VERSION node" node] by (auto simp: Node_SetVersion_def)
next
  case (clear_drain node sk)
  then show ?case using in_sync_cong[of "ClearDrainStart node" node] by (auto simp: ClearDrainStart_def)
next
  case (reset node sk)
  then show ?case by (simp add: Reset_def Let_def in_sync_def)
qed (simp_all add: RemoveState_in_sync Progress_in_sync Cordon_in_sync Uncordon_in_sync)

text \<open>A wrapper just made from a node reads its state from the annotation.\<close>

lemma stage_of_canonical: "stage_of (stage_string (stage_of s)) = stage_of s"
  by (auto simp: stage_of_def Stages_def)

lemma state_of_canonical: "state_of (state_string (state_of s)) = state_of s"
  by (auto simp: state_of_def States_def)

lemma set_field_canonical: "set_field k v s = Some s' \<Longrightarrow> status_canonical s \<Longrightarrow> status_canonical s'"
  by (auto simp: set_field_def Let_def status_canonical_def stage_of_canonical state_of_canonical
      split: json.splits if_splits option.splits)

lemma set_fields_canonical: "set_fields kvs s = Some s' \<Longrightarrow> status_canonical s \<Longrightarrow> status_canonical s'"
proof (induction kvs arbitrary: s)
  case (Cons kv kvs)
  then show ?case using set_field_canonical by (cases kv) (auto split: option.splits)
qed simp

lemma decode_status_canonical: "decode_status v = Some s \<Longrightarrow> status_canonical s"
proof -
  have "status_canonical zero_status" by code_simp
  then show "decode_status v = Some s \<Longrightarrow> status_canonical s"
    using set_fields_canonical by (auto simp: decode_status_def split: json.splits)
qed

lemma decode_entries_ok:
  "decode_entries m kvs = Some m' \<Longrightarrow> gomap_ok m \<Longrightarrow> entries_canonical m \<Longrightarrow> gomap_ok m' \<and> entries_canonical m'"
proof (induction kvs arbitrary: m)
  case (Cons kv kvs)
  obtain k v where kv: "kv = (k, v)" by (cases kv)
  with Cons.prems(1) obtain s where s: "decode_status v = Some s" "decode_entries (gput k s m) kvs = Some m'"
    by (auto split: option.splits)
  have "entries_canonical (gput k s m)"
    using Cons.prems(3) decode_status_canonical[OF s(1)] by (rule entries_canonical_gput)
  then show ?case using Cons.IH[OF s(2)] Cons.prems(2) by simp
qed simp

lemma unmarshal_ok: "unmarshal_state s = Some (Some m) \<Longrightarrow> gomap_ok m \<and> entries_canonical m"
  using decode_entries_ok[of "[]"] by (auto simp: unmarshal_state_def entries_canonical_def split: option.splits json.splits)

lemma New_in_sync: "in_sync (NewSkyhookNodeOnly n name)"
  using unmarshal_ok
  by (auto simp: NewSkyhookNodeOnly_def Node_State_def in_sync_def annotation_def nodeState_key_def Let_def split: option.splits sum.splits)

section \<open>Properties of the wrapper\<close>

text \<open>Reading the annotation afresh gives what the cache has.\<close>

lemma ReloadState_in_sync:
  assumes "in_sync node" and "nodeState node = Some m"
  shows "\<exists>node'. ReloadState node = (node', Inr ()) \<and> ns_get (nodeState node') = map_of m"
  using assms
  by (auto simp: ReloadState_def Node_State_def in_sync_def ns_get_def[abs_def] Let_def split: option.splits)

text \<open>
  Whatever a reconcile does to a node's wrapper (any sequence of recording and removing package
  states, promoting skipped packages, setting statuses and versions, cordoning, uncordoning, resetting),
  starting from the node as it was read, the package state in memory and the one in the annotation stay
  the same: reloading never fails and loses or invents no entry.
\<close>

theorem node_state_persisted:
  assumes "(node_step ^^ k) (NewSkyhookNodeOnly n name, sk) (node, sk')" and "nodeState node = Some m"
  shows "gomap_ok m \<and> (\<exists>node'. ReloadState node = (node', Inr ()) \<and> ns_get (nodeState node') = map_of m)"
proof -
  have "in_sync (fst nr)" if "(node_step ^^ k) (NewSkyhookNodeOnly n name, sk) nr" for k nr
    using that
  proof (induction k arbitrary: nr)
    case 0
    then show ?case using New_in_sync by auto
  next
    case (Suc k)
    then obtain nr1 where "(node_step ^^ k) (NewSkyhookNodeOnly n name, sk) nr1" "node_step nr1 nr" by auto
    then show ?case using Suc.IH node_step_in_sync by blast
  qed
  from this[OF assms(1)] have "in_sync node" by simp
  then show ?thesis using ReloadState_in_sync[OF _ assms(2)] in_syncD(1)[OF _ assms(2)] by blast
qed

definition sample_node :: Node where
  "sample_node =
     \<lparr>n_Name = ''node1'', n_UID = ''u1'', n_Labels = [], n_Annotations = [], n_Taints = [], Unschedulable = False,
      n_Conditions = [], n_BootID = ''b'', n_CreationTimestamp = 0\<rparr>"

theorem node_state_persisted_witness:
  "let node = fst (Node_Upsert (package_ref sample_package) ''img'' StateInProgress StageApply 0 []
      (NewSkyhookNodeOnly sample_node ''tune'', None))
   in \<exists>node' m. nodeState node = Some m \<and> ReloadState node = (node', Inr ()) \<and> ns_get (nodeState node') = map_of m"
proof -
  let ?nr = "(NewSkyhookNodeOnly sample_node ''tune'', None :: Skyhook option)"
  let ?nr' = "Node_Upsert (package_ref sample_package) ''img'' StateInProgress StageApply 0 [] ?nr"
  have "node_step ?nr ?nr'"
    by (rule node_step.upsert) (simp_all add: stage_of_def Stages_def state_of_def States_def)
  then have "(node_step ^^ 1) ?nr (fst ?nr', snd ?nr')" by (simp only: relpowp_1 prod.collapse)
  moreover obtain m where "nodeState (fst ?nr') = Some m"
    using Upsert_in_sync(2)[OF New_in_sync, of StageApply StateInProgress 0] Upsert_Some
    by (fastforce simp: stage_of_def Stages_def state_of_def States_def)
  ultimately show ?thesis using node_state_persisted[of 1 sample_node "''tune''" None "fst ?nr'" "snd ?nr'"] by (auto simp: Let_def)
qed

section \<open>Cordons of several NodeWrights\<close>

text \<open>What the operator does to one node on behalf of several NodeWrights.\<close>

datatype cordon_event = CordonBy string | UncordonBy string

fun cordon_step :: "cordon_event \<Rightarrow> Node \<Rightarrow> Node" where
  "cordon_step (CordonBy k) n = sn_Node (fst (Cordon (NewSkyhookNodeOnly n k)))"
| "cordon_step (UncordonBy k) n = sn_Node (Uncordon (NewSkyhookNodeOnly n k))"

definition holders :: "Node \<Rightarrow> string set" where
  "holders n = {k. map_of (n_Annotations n) (cordonAnnotationKey k) \<noteq> None}"

fun holders_after :: "cordon_event list \<Rightarrow> string set \<Rightarrow> string set" where
  "holders_after [] H = H"
| "holders_after (CordonBy k # es) H = holders_after es (insert k H)"
| "holders_after (UncordonBy k # es) H = holders_after es (H - {k})"

lemma New_sel [simp]: "sn_Node (NewSkyhookNodeOnly n k) = n" "skyhookName (NewSkyhookNodeOnly n k) = k"
  by (auto simp: NewSkyhookNodeOnly_def Let_def split: sum.splits)

lemma cordon_key_inject [simp]: "cordonAnnotationKey a = cordonAnnotationKey b \<longleftrightarrow> a = b"
  by (simp add: cordonAnnotationKey_def)

lemma runtime_key_differs [simp]:
  "cordonAnnotationKey k \<noteq> RuntimeRequiredCordonAnnotation" "RuntimeRequiredCordonAnnotation \<noteq> cordonAnnotationKey k"
  by (simp_all add: cordonAnnotationKey_def RuntimeRequiredCordonAnnotation_def)

lemma hasSkyhookCordon_iff:
  "hasSkyhookCordon (n_Annotations n) \<longleftrightarrow> holders n \<noteq> {} \<or> map_of (n_Annotations n) RuntimeRequiredCordonAnnotation \<noteq> None"
proof -
  have key: "has_prefix k (METADATA_PREFIX @ ''/cordon_'') \<longleftrightarrow> (\<exists>z. k = cordonAnnotationKey z)" for k
    by (auto simp: has_prefix_def prefix_def cordonAnnotationKey_def)
  have "list_ex (\<lambda>k. has_prefix k (METADATA_PREFIX @ ''/cordon_'')) (gkeys (n_Annotations n)) \<longleftrightarrow>
      (\<exists>k. cordonAnnotationKey k \<in> set (gkeys (n_Annotations n)))"
    unfolding list_ex_iff key by blast
  then show ?thesis unfolding hasSkyhookCordon_def holders_def gkeys_lookup by auto
qed

lemma holders_step: "holders (cordon_step e n) = holders_after [e] (holders n)"
  by (cases e) (auto simp: holders_def Cordon_def Uncordon_def Let_def annotation_def put_annotation_def
      del_annotation_def put_node_def mark_def split: if_splits)

lemma runtime_step:
  "map_of (n_Annotations (cordon_step e n)) RuntimeRequiredCordonAnnotation = map_of (n_Annotations n) RuntimeRequiredCordonAnnotation"
  by (cases e) (auto simp: Cordon_def Uncordon_def Let_def annotation_def put_annotation_def
      del_annotation_def put_node_def mark_def split: if_splits)

text \<open>A cordon held by a NodeWright, or the persistent one, means the node is unschedulable.\<close>

definition cordon_inv :: "Node \<Rightarrow> bool" where
  "cordon_inv n \<longleftrightarrow> (hasSkyhookCordon (n_Annotations n) \<longrightarrow> Unschedulable n)"

lemma cordon_step_inv: "cordon_inv n \<Longrightarrow> cordon_inv (cordon_step e n)"
proof (cases e)
  case (CordonBy k)
  assume "cordon_inv n"
  then show ?thesis using CordonBy
    by (auto simp: cordon_inv_def Cordon_def annotation_def put_annotation_def put_node_def mark_def)
next
  case (UncordonBy k)
  assume inv: "cordon_inv n"
  let ?n = "NewSkyhookNodeOnly n k"
  show ?thesis
  proof (cases "annotation ?n (cordonAnnotationKey k)")
    case None
    then show ?thesis using inv UncordonBy by (simp add: Uncordon_def)
  next
    case (Some v)
    then have "k \<in> holders n" by (simp add: holders_def annotation_def)
    then have "Unschedulable n" using inv by (auto simp: cordon_inv_def hasSkyhookCordon_iff)
    then show ?thesis using Some UncordonBy
      by (auto simp: cordon_inv_def Uncordon_def Let_def put_node_def mark_def del_annotation_def)
  qed
qed

lemma fold_cordon:
  "cordon_inv n \<Longrightarrow> cordon_inv (fold cordon_step es n)"
  "holders (fold cordon_step es n) = holders_after es (holders n)"
  "map_of (n_Annotations (fold cordon_step es n)) RuntimeRequiredCordonAnnotation = map_of (n_Annotations n) RuntimeRequiredCordonAnnotation"
proof -
  show "cordon_inv n \<Longrightarrow> cordon_inv (fold cordon_step es n)"
    by (induction es arbitrary: n) (simp_all del: cordon_step.simps add: cordon_step_inv)
  show "holders (fold cordon_step es n) = holders_after es (holders n)"
  proof (induction es arbitrary: n)
    case (Cons e es)
    then show ?case using holders_step[of e n] by (cases e) (simp_all del: cordon_step.simps)
  qed simp
  show "map_of (n_Annotations (fold cordon_step es n)) RuntimeRequiredCordonAnnotation = map_of (n_Annotations n) RuntimeRequiredCordonAnnotation"
    by (induction es arbitrary: n) (simp_all del: cordon_step.simps add: runtime_step)
qed

text \<open>
  C21. Several NodeWrights share a node without releasing each other's cordon: after any interleaving of their
  cordons and uncordons the cordon markers are exactly those of the NodeWrights that cordoned and did not
  uncordon, and while one of them or the persistent runtime-required cordon is left the node stays
  unschedulable; when the last holder of a cordon lets go and there is no persistent one, the node is
  schedulable again.
\<close>

theorem cordon_shared_safe:
  assumes "cordon_inv n"
  shows "holders (fold cordon_step es n) = holders_after es (holders n) \<and>
     (holders_after es (holders n) \<noteq> {} \<or> map_of (n_Annotations n) RuntimeRequiredCordonAnnotation \<noteq> None \<longrightarrow>
        Unschedulable (fold cordon_step es n)) \<and>
     (\<forall>k \<in> holders_after es (holders n). holders_after es (holders n) - {k} = {} \<longrightarrow>
        map_of (n_Annotations n) RuntimeRequiredCordonAnnotation = None \<longrightarrow>
        \<not> Unschedulable (fold cordon_step (es @ [UncordonBy k]) n))"
proof -
  let ?n = "fold cordon_step es n"
  have inv: "cordon_inv ?n" by (rule fold_cordon(1)[OF assms])
  have h: "holders ?n = holders_after es (holders n)" by (rule fold_cordon(2))
  have last: "\<not> Unschedulable (cordon_step (UncordonBy k) ?n)"
    if "k \<in> holders ?n" "holders ?n - {k} = {}" "map_of (n_Annotations n) RuntimeRequiredCordonAnnotation = None" for k
  proof -
    let ?m = "del_annotation (cordonAnnotationKey k) (NewSkyhookNodeOnly ?n k)"
    have "holders (sn_Node ?m) = {}" using that(2) by (auto simp: holders_def del_annotation_def)
    moreover have "map_of (n_Annotations (sn_Node ?m)) RuntimeRequiredCordonAnnotation = None"
      using that(3) fold_cordon(3)[of es n] by (simp add: del_annotation_def)
    ultimately have "\<not> hasSkyhookCordon (n_Annotations (sn_Node ?m))" by (simp add: hasSkyhookCordon_iff)
    then show ?thesis using that(1) by (simp add: Uncordon_def holders_def annotation_def Let_def)
  qed
  show ?thesis
    using inv h last fold_cordon(3)[of es n] by (auto simp: cordon_inv_def hasSkyhookCordon_iff simp del: cordon_step.simps)
qed

theorem cordon_shared_safe_witness:
  "Unschedulable (fold cordon_step [CordonBy ''a'', CordonBy ''b'', UncordonBy ''a''] sample_node) \<and>
   \<not> Unschedulable (fold cordon_step [CordonBy ''a'', CordonBy ''b'', UncordonBy ''a'', UncordonBy ''b''] sample_node)"
proof -
  have "cordon_inv sample_node" by (simp add: cordon_inv_def hasSkyhookCordon_def sample_node_def)
  from cordon_shared_safe[OF this, of "[CordonBy ''a'', CordonBy ''b'', UncordonBy ''a'']"]
  show ?thesis by (auto simp: holders_def sample_node_def simp del: cordon_step.simps)
qed

section \<open>Cleaning up after a NodeWright\<close>

lemma last_underscore:
  assumes "x @ CHR ''_'' # a = y @ CHR ''_'' # b" and "CHR ''_'' \<notin> set a" and "CHR ''_'' \<notin> set b"
  shows "a = b"
proof -
  have tw: "takeWhile (\<lambda>c. c \<noteq> CHR ''_'') (rev (z @ CHR ''_'' # d)) = rev d" if "CHR ''_'' \<notin> set d" for z d
    using that by (auto simp: takeWhile_append)
  have "rev a = rev b" using tw[OF assms(2), of x] tw[OF assms(3), of y] assms(1) by simp
  then show ?thesis by simp
qed

lemma own_key_meta: "own_key node (meta_key kind (skyhookName node))"
  by (simp add: own_key_def meta_key_def has_prefix_def has_suffix_def suffix_def)

lemma own_key_other:
  assumes "own_key node (meta_key kind name)" and "CHR ''_'' \<notin> set name" and "CHR ''_'' \<notin> set (skyhookName node)"
  shows "name = skyhookName node"
proof -
  obtain z where "meta_key kind name = z @ ''_'' @ skyhookName node"
    using assms(1) by (auto simp: own_key_def has_suffix_def suffix_def)
  then have "(METADATA_PREFIX @ ''/'' @ kind) @ CHR ''_'' # name = z @ CHR ''_'' # skyhookName node"
    by (simp add: meta_key_def)
  then show ?thesis using last_underscore assms(2,3) by blast
qed

lemma cleanup_annotation:
  "annotation (CleanupSCRMetadata node) k =
     (if \<not> own_key node k \<or> ((case Node_State node of Inl _ \<Rightarrow> False | Inr ns \<Rightarrow> or_empty ns \<noteq> []) \<and>
          (k = nodeState_key node \<or> k = version_key_node node))
      then annotation node k else None)"
  by (auto simp: CleanupSCRMetadata_def annotation_def Let_def map_of_filter_key)

text \<open>
  Removing a NodeWright's metadata from a node removes every annotation it has there except, while the
  node's state still lists packages that were not uninstalled, that state and the version that says how
  to read it; and it leaves every annotation of every other NodeWright alone.
\<close>

theorem cleanup_exact:
  assumes "CHR ''_'' \<notin> set (skyhookName node)"
  shows "(\<forall>kind. annotation (CleanupSCRMetadata node) (meta_key kind (skyhookName node)) =
       (if (\<exists>ns. Node_State node = Inr ns \<and> or_empty ns \<noteq> []) \<and> kind \<in> {''nodeState'', ''version''}
        then annotation node (meta_key kind (skyhookName node)) else None)) \<and>
     (\<forall>kind other. other \<noteq> skyhookName node \<longrightarrow> CHR ''_'' \<notin> set other \<longrightarrow>
       annotation (CleanupSCRMetadata node) (meta_key kind other) = annotation node (meta_key kind other))"
proof -
  have kinds: "meta_key kind (skyhookName node) = nodeState_key node \<longleftrightarrow> kind = ''nodeState''"
    "meta_key kind (skyhookName node) = version_key_node node \<longleftrightarrow> kind = ''version''" for kind
    by (simp_all add: nodeState_key_def version_key_node_def meta_key_def)
  have pres: "(case Node_State node of Inl _ \<Rightarrow> False | Inr ns \<Rightarrow> or_empty ns \<noteq> []) \<longleftrightarrow>
      (\<exists>ns. Node_State node = Inr ns \<and> or_empty ns \<noteq> [])" by (auto split: sum.splits)
  have "annotation (CleanupSCRMetadata node) (meta_key kind other) = annotation node (meta_key kind other)"
    if "other \<noteq> skyhookName node" "CHR ''_'' \<notin> set other" for kind other
    using own_key_other[OF _ that(2) assms] that(1) by (auto simp: cleanup_annotation)
  then show ?thesis using own_key_meta by (simp add: cleanup_annotation kinds pres)
qed

theorem cleanup_exact_witness:
  "annotation (CleanupSCRMetadata (NewSkyhookNodeOnly
      (sample_node\<lparr>n_Annotations := [(meta_key ''status'' ''a'', ''complete''), (meta_key ''status'' ''b'', ''paused'')]\<rparr>) ''a''))
     (meta_key ''status'' ''b'') = Some ''paused''"
proof -
  let ?n = "sample_node\<lparr>n_Annotations := [(meta_key ''status'' ''a'', ''complete''), (meta_key ''status'' ''b'', ''paused'')]\<rparr>"
  have "CHR ''_'' \<notin> set (skyhookName (NewSkyhookNodeOnly ?n ''a''))" by simp
  from cleanup_exact[OF this]
  have "annotation (CleanupSCRMetadata (NewSkyhookNodeOnly ?n ''a'')) (meta_key ''status'' ''b'') =
      annotation (NewSkyhookNodeOnly ?n ''a'') (meta_key ''status'' ''b'')" by simp
  then show ?thesis by (simp add: annotation_def meta_key_def)
qed

section \<open>What runs next\<close>

lemma Get_objects: "\<forall>f \<in> set fs. f \<in> names_of d \<Longrightarrow> Get d fs = Some (map (obj_of d) fs)"
  by (induction fs) (auto simp: names_of_dom obj_of_def split: option.splits)

lemma set_GetComplete:
  "u \<in> set (GetComplete ns pk i c) \<longleftrightarrow> (\<exists>(k, p) \<in> set pk. IsPackageComplete ns p i c \<and> u = GetUniqueName p)"
  by (force simp: GetComplete_def)

text \<open>A wrapper of an admitted resource, and its graph.\<close>

definition node_of :: "NodeWright \<Rightarrow> skyhookNode \<Rightarrow> Skyhook \<Rightarrow> bool" where
  "node_of r node sk \<longleftrightarrow>
     NodeWright_Validate r = Inr () \<and> gomap_ok (spec_Packages (nw_Spec r)) \<and>
     BuildGraph (nw_Spec r) = Inr (sn_graph node) \<and> sk_Spec sk = nw_Spec r"

lemma node_of_graph:
  assumes "node_of r node sk"
  shows "packages_ok (spec_Packages (sk_Spec sk))" and "graph_ok (sn_graph node)"
    and "names_of (sn_graph node) = GetUniqueName ` snd ` set (spec_Packages (sk_Spec sk))"
    and "(k, p) \<in> set (spec_Packages (sk_Spec sk)) \<Longrightarrow>
      deps_of (sn_graph node) (GetUniqueName p) = set (depends_names p) \<and> obj_of (sn_graph node) (GetUniqueName p) = Some p"
proof -
  have sp: "sk_Spec sk = nw_Spec r" and g: "BuildGraph (nw_Spec r) = Inr (sn_graph node)"
    using assms by (simp_all add: node_of_def)
  have pk: "packages_ok (spec_Packages (nw_Spec r))" using admitted_packages_ok assms by (simp add: node_of_def)
  note views = BuildGraph_views[OF pk g]
  have "Valid (sn_graph node) = Inr ()" using validate_stages(2)[of r] assms g by (auto simp: node_of_def)
  then show "graph_ok (sn_graph node)" using views(1) by (simp add: graph_ok_def)
  show "packages_ok (spec_Packages (sk_Spec sk))" "names_of (sn_graph node) = GetUniqueName ` snd ` set (spec_Packages (sk_Spec sk))"
    using pk views(2) sp by simp_all
  show "(k, p) \<in> set (spec_Packages (sk_Spec sk)) \<Longrightarrow>
      deps_of (sn_graph node) (GetUniqueName p) = set (depends_names p) \<and> obj_of (sn_graph node) (GetUniqueName p) = Some p"
    using views(3) sp by auto
qed

lemma unique_in_packages:
  assumes "packages_ok pk" and "(k, p) \<in> set pk" and "(k', p') \<in> set pk" and "GetUniqueName p = GetUniqueName p'"
  shows "p = p'"
proof -
  have "inj_on (\<lambda>(k, p). GetUniqueName p) (set pk)" using packages_ok_unique[OF assms(1)] by (simp add: distinct_map)
  from inj_onD[OF this, of "(k, p)" "(k', p')"] show ?thesis using assms by simp
qed

lemma complete_unique:
  assumes "packages_ok pk" and "p \<in> snd ` set pk"
  shows "GetUniqueName p \<in> set (GetComplete ns pk i c) \<longleftrightarrow> IsPackageComplete ns p i c"
proof
  assume "GetUniqueName p \<in> set (GetComplete ns pk i c)"
  then obtain k q where "(k, q) \<in> set pk" "IsPackageComplete ns q i c" "GetUniqueName p = GetUniqueName q"
    unfolding set_GetComplete by blast
  moreover obtain k' where "(k', p) \<in> set pk" using assms(2) by auto
  ultimately show "IsPackageComplete ns p i c" using unique_in_packages[OF assms(1), of k' p k q] by simp
next
  assume "IsPackageComplete ns p i c"
  then show "GetUniqueName p \<in> set (GetComplete ns pk i c)" using assms(2) unfolding set_GetComplete by auto
qed

lemma RunNext_names:
  assumes "node_of r node sk"
  obtains ns ps where "next_step (sn_graph node) (Node_GetComplete sk node) = Some ns"
    and "RunNext sk node = Inr ps" and "set ps = {p. Some p \<in> obj_of (sn_graph node) ` set ns}"
    and "sorted (map p_Name ps)" and "length ps = length ns"
proof -
  let ?g = "sn_graph node" and ?c = "Node_GetComplete sk node"
  have ok: "graph_ok ?g" by (rule node_of_graph(2)[OF assms])
  obtain ns where ns: "next_step ?g ?c = Some ns" using dw.nxt_total[OF ok] by blast
  then have nx: "Next ?g ?c = Inr ns" by (simp add: next_step_def split: sum.splits)
  have names: "\<forall>f \<in> set ns. f \<in> names_of ?g" using dw.nxt_ready[OF ok ns] by auto
  have some: "\<exists>p. obj_of ?g f = Some p" if "f \<in> set ns" for f
  proof -
    have "f \<in> GetUniqueName ` snd ` set (spec_Packages (sk_Spec sk))" using that names node_of_graph(3)[OF assms] by blast
    then obtain k p where "(k, p) \<in> set (spec_Packages (sk_Spec sk))" "f = GetUniqueName p" by auto
    then show ?thesis using node_of_graph(4)[OF assms] by blast
  qed
  let ?ps = "concat (map (\<lambda>x. case x of Some p \<Rightarrow> [p] | None \<Rightarrow> []) (map (obj_of ?g) ns))"
  have run: "RunNext sk node = Inr (sort_key p_Name ?ps)" using nx Get_objects[OF names] by (simp add: RunNext_def)
  have "set ?ps = {p. Some p \<in> obj_of ?g ` set ns}" by (force split: option.splits)
  moreover have "length ?ps = length ns" using some
    by (induction ns) (force split: option.splits)+
  ultimately show ?thesis using that[OF ns run] by simp
qed

text \<open>A node of the sample resource, on which nothing has run.\<close>

definition sample_resource :: NodeWright where
  "sample_resource = sample_nodewright [(''tuning'', sample_package)] []"

definition sample_skyhookNode :: skyhookNode where
  "sample_skyhookNode = (NewSkyhookNodeOnly sample_node ''tune'')
     \<lparr>sn_graph := (case BuildGraph (nw_Spec sample_resource) of Inr g \<Rightarrow> g | Inl _ \<Rightarrow> New)\<rparr>"

definition sample_skyhook :: Skyhook where
  "sample_skyhook = NewSkyhookWrapper sample_resource"

lemma sample_packages: "spec_Packages (nw_Spec sample_resource) = [(''tuning'', sample_package)]"
  by (simp add: sample_resource_def sample_nodewright_def sample_spec_def)

lemma sample_node_of: "node_of sample_resource sample_skyhookNode sample_skyhook"
proof -
  have "(case BuildGraph (nw_Spec sample_resource) of Inr g \<Rightarrow> True | Inl _ \<Rightarrow> False)" by code_simp
  then obtain g where "BuildGraph (nw_Spec sample_resource) = Inr g" by (auto split: sum.splits)
  moreover have "sk_Spec sample_skyhook = nw_Spec sample_resource" by (simp add: sample_skyhook_def NewSkyhookWrapper_def)
  ultimately show ?thesis using sample_admitted(1)
    by (auto simp: node_of_def sample_packages sample_skyhookNode_def) (simp add: sample_resource_def)
qed

text \<open>
  For an admitted resource, the packages to run next on a node are exactly those of the specification
  that are not complete on the node and all of whose dependencies are, in the order of their names.
\<close>

theorem run_next_exact:
  assumes "node_of r node sk"
  shows "\<exists>ps. RunNext sk node = Inr ps \<and> sorted (map p_Name ps) \<and>
     set ps = {p. p \<in> snd ` set (spec_Packages (sk_Spec sk)) \<and> \<not> Node_IsPackageComplete sk node p \<and>
       (\<forall>d \<in> set (depends_names p). \<exists>q \<in> snd ` set (spec_Packages (sk_Spec sk)).
          GetUniqueName q = d \<and> Node_IsPackageComplete sk node q)}"
proof -
  let ?g = "sn_graph node" and ?c = "Node_GetComplete sk node" and ?pk = "spec_Packages (sk_Spec sk)"
  note ok = node_of_graph[OF assms]
  obtain ns ps where ns: "next_step ?g ?c = Some ns"
    and ps: "RunNext sk node = Inr ps" "set ps = {p. Some p \<in> obj_of ?g ` set ns}" "sorted (map p_Name ps)"
    by (rule RunNext_names[OF assms])
  have ready: "set ns = {n \<in> names_of ?g. n \<notin> set ?c \<and> deps_of ?g n \<subseteq> set ?c}" by (rule dw.nxt_ready[OF ok(2) ns])
  have comp: "u \<in> set ?c \<longleftrightarrow> (\<exists>q \<in> snd ` set ?pk. GetUniqueName q = u \<and> Node_IsPackageComplete sk node q)" for u
    unfolding Node_GetComplete_def set_GetComplete Node_IsPackageComplete_def by (auto simp: image_iff split_beta)
  have self: "GetUniqueName p \<in> set ?c \<longleftrightarrow> Node_IsPackageComplete sk node p" if "p \<in> snd ` set ?pk" for p
    using complete_unique[OF ok(1) that] by (simp add: Node_GetComplete_def Node_IsPackageComplete_def)
  have "p \<in> set ps \<longleftrightarrow> p \<in> snd ` set ?pk \<and> GetUniqueName p \<notin> set ?c \<and> set (depends_names p) \<subseteq> set ?c" for p
  proof
    assume "p \<in> set ps"
    then obtain n where n: "n \<in> set ns" "obj_of ?g n = Some p" using ps(2) by auto
    then have "n \<in> names_of ?g" using ready by auto
    then obtain k q where q: "(k, q) \<in> set ?pk" "n = GetUniqueName q" using ok(3) by auto
    then have "q = p" using ok(4)[OF q(1)] n(2) by simp
    then show "p \<in> snd ` set ?pk \<and> GetUniqueName p \<notin> set ?c \<and> set (depends_names p) \<subseteq> set ?c"
      using n(1) q ok(4)[OF q(1)] ready by force
  next
    assume a: "p \<in> snd ` set ?pk \<and> GetUniqueName p \<notin> set ?c \<and> set (depends_names p) \<subseteq> set ?c"
    then obtain k where k: "(k, p) \<in> set ?pk" by auto
    have nm: "GetUniqueName p \<in> names_of ?g" unfolding ok(3) using a by (intro imageI) blast
    have "deps_of ?g (GetUniqueName p) \<subseteq> set ?c" using a ok(4)[OF k] by simp
    then have "GetUniqueName p \<in> set ns" unfolding ready using a nm by simp
    moreover have "obj_of ?g (GetUniqueName p) = Some p" using ok(4)[OF k] by simp
    ultimately have "Some p \<in> obj_of ?g ` set ns" by (intro image_eqI[of _ _ "GetUniqueName p"]) simp_all
    then show "p \<in> set ps" using ps(2) by simp
  qed
  then have "set ps = {p. p \<in> snd ` set ?pk \<and> \<not> Node_IsPackageComplete sk node p \<and>
      (\<forall>d \<in> set (depends_names p). d \<in> set ?c)}"
    using self by (simp add: set_eq_iff subset_iff) meson
  then show ?thesis using ps(1,3) unfolding comp by blast
qed

theorem run_next_exact_witness:
  "\<exists>ps. RunNext sample_skyhook sample_skyhookNode = Inr ps \<and> sorted (map p_Name ps) \<and>
     set ps = {p. p \<in> snd ` set (spec_Packages (sk_Spec sample_skyhook)) \<and>
       \<not> Node_IsPackageComplete sample_skyhook sample_skyhookNode p \<and>
       (\<forall>d \<in> set (depends_names p). \<exists>q \<in> snd ` set (spec_Packages (sk_Spec sample_skyhook)).
          GetUniqueName q = d \<and> Node_IsPackageComplete sample_skyhook sample_skyhookNode q)}"
  by (rule run_next_exact[OF sample_node_of])

text \<open>
  A rollout on a node does not stall on its dependencies: when the packages of an admitted resource have
  no dependency cycle and one of them is not complete on the node, there is a package to run.
\<close>

theorem run_next_progress:
  assumes "node_of r node sk" and "acyclic (dw.dep_rel (sn_graph node))"
    and "p \<in> snd ` set (spec_Packages (sk_Spec sk))" and "\<not> Node_IsPackageComplete sk node p"
  shows "\<exists>q qs. RunNext sk node = Inr (q # qs)"
proof -
  let ?g = "sn_graph node" and ?c = "Node_GetComplete sk node" and ?pk = "spec_Packages (sk_Spec sk)"
  note ok = node_of_graph[OF assms(1)]
  obtain ns ps where ns: "next_step ?g ?c = Some ns" and ps: "RunNext sk node = Inr ps" "length ps = length ns"
    by (rule RunNext_names[OF assms(1)])
  have "GetUniqueName p \<notin> set ?c"
    using complete_unique[OF ok(1) assms(3)] assms(4) by (simp add: Node_GetComplete_def Node_IsPackageComplete_def)
  moreover have "GetUniqueName p \<in> names_of ?g" using assms(3) ok(3) by auto
  ultimately have "\<not> names_of ?g \<subseteq> set ?c" by blast
  from dw.progress[OF ok(2) assms(2) this] have "ns \<noteq> []" using ns by auto
  then show ?thesis using ps by (cases ps) auto
qed

theorem run_next_progress_witness:
  "\<exists>q qs. RunNext sample_skyhook sample_skyhookNode = Inr (q # qs)"
proof -
  note ok = node_of_graph[OF sample_node_of]
  have pk: "spec_Packages (sk_Spec sample_skyhook) = [(''tuning'', sample_package)]"
    by (simp add: sample_skyhook_def NewSkyhookWrapper_def sample_packages)
  have "deps_of (sn_graph sample_skyhookNode) (GetUniqueName sample_package) = {}"
    using ok(4)[of "''tuning''" sample_package] by (simp add: pk depends_names_def sample_package_def)
  then have "dw.dep_rel (sn_graph sample_skyhookNode) = {}" unfolding dw.dep_rel_def ok(3) pk by auto
  moreover have "\<not> Node_IsPackageComplete sample_skyhook sample_skyhookNode sample_package" by code_simp
  ultimately show ?thesis
    using run_next_progress[OF sample_node_of, of sample_package] by (simp add: pk acyclic_def)
qed

end
