(* ===== verification/Float64.thy ===== *)
theory Float64
  imports Prelude
begin

text \<open>
  The rounding error of the floating-point arithmetic the operator uses for percentages: a double differs
  from the number it stands for by at most one part in \<open>2 ^ 53\<close>, and a chain of roundings of a
  percentage of a node count stays well within one part in a hundred.
\<close>

section \<open>Rounding error\<close>

lemma pow2_pos: "0 < pow2 e"
  by (simp add: pow2_def)

lemma pow2_diff: "pow2 (e - 52) = pow2 e / 2 ^ 52"
proof -
  consider "52 \<le> e" | "0 \<le> e" "e < 52" | "e < 0" by linarith
  then show ?thesis
  proof cases
    case 1
    then have "nat e = nat (e - 52) + 52" by linarith
    then show ?thesis using 1 by (simp add: pow2_def power_add)
  next
    case 2
    then have "(2 :: rat) ^ 52 = 2 ^ nat (52 - e) * 2 ^ nat e" by (simp add: power_add[symmetric] nat_add_distrib[symmetric])
    then show ?thesis using 2 by (simp add: pow2_def field_simps)
  next
    case 3
    then have "nat (52 - e) = nat (- e) + 52" by linarith
    then show ?thesis using 3 by (simp add: pow2_def power_add)
  qed
qed

lemma ilog2_lower:
  assumes "0 < n" and "0 < d"
  shows "pow2 (ilog2 n d) * of_int d \<le> of_int n"
proof -
  let ?e = "bitlen n - bitlen d"
  have n: "2 ^ nat (bitlen n - 1) \<le> n" "1 \<le> bitlen n" and d: "d < 2 ^ nat (bitlen d)" "1 \<le> bitlen d"
    using bitlen_bounds[of n] bitlen_bounds[of d] assms bitlen_eq_zero_iff[of n] bitlen_eq_zero_iff[of d]
      bitlen_nonneg[of n] bitlen_nonneg[of d] by (simp_all add: int_one_le_iff_zero_less order_less_le)
  have yes: ?thesis if "0 \<le> ?e" "d * 2 ^ nat ?e \<le> n"
  proof -
    have "(of_int (d * 2 ^ nat ?e) :: rat) \<le> of_int n" using that(2) by linarith
    then show ?thesis using that by (simp add: ilog2_def pow2_def Let_def mult.commute)
  qed
  have yes': ?thesis if "?e < 0" "d \<le> n * 2 ^ nat (- ?e)"
  proof -
    have "(of_int d :: rat) \<le> of_int (n * 2 ^ nat (- ?e))" using that(2) by linarith
    then show ?thesis using that by (simp add: ilog2_def pow2_def Let_def field_simps)
  qed
  have no: ?thesis if "ilog2 n d = ?e - 1"
  proof -
    have "(of_int d :: rat) \<le> of_int (2 ^ nat (bitlen d))" "(of_int (2 ^ nat (bitlen n - 1)) :: rat) \<le> of_int n"
      using n(1) d(1) by linarith+
    then have le: "(of_int d :: rat) \<le> 2 ^ nat (bitlen d)" "(2 ^ nat (bitlen n - 1) :: rat) \<le> of_int n" by simp_all
    show ?thesis
    proof (cases "0 \<le> ?e - 1")
      case True
      then have "nat (bitlen n - 1) = nat (?e - 1) + nat (bitlen d)" using d(2) by linarith
      then have "pow2 (?e - 1) * 2 ^ nat (bitlen d) = (2 ^ nat (bitlen n - 1) :: rat)"
        using True by (simp add: pow2_def power_add)
      then show ?thesis using le pow2_pos[of "?e - 1"] that by (metis mult_left_mono order_less_imp_le order_trans)
    next
      case False
      then have "nat (bitlen d) = nat (- (?e - 1)) + nat (bitlen n - 1)" using n(2) by linarith
      then have "pow2 (?e - 1) * 2 ^ nat (bitlen d) = (2 ^ nat (bitlen n - 1) :: rat)"
        using False by (simp add: pow2_def power_add)
      then show ?thesis using le pow2_pos[of "?e - 1"] that by (metis mult_left_mono order_less_imp_le order_trans)
    qed
  qed
  show ?thesis
  proof (cases "ilog2 n d = ?e - 1")
    case False
    then show ?thesis using yes yes' unfolding ilog2_def Let_def by (cases "0 \<le> ?e") (auto split: if_splits)
  qed (rule no)
qed

lemma round_even_near: "\<bar>of_int (round_even y) - y\<bar> \<le> 1 / 2"
proof -
  have "of_int \<lfloor>y\<rfloor> \<le> y" "y < of_int \<lfloor>y\<rfloor> + 1" using floor_correct[of y] by simp_all
  then show ?thesis by (simp add: round_even_def Let_def abs_le_iff)
qed

lemma f64_near:
  assumes "0 < x"
  shows "\<bar>f64 x - x\<bar> \<le> x / 2 ^ 53"
proof -
  obtain n d where q: "quotient_of x = (n, d)" by (cases "quotient_of x")
  have d: "0 < d" and x: "x = of_int n / of_int d"
    using quotient_of_denom_pos[OF q] quotient_of_div[OF q] by simp_all
  then have n: "0 < n" using assms by (simp add: zero_less_divide_iff)
  let ?u = "pow2 (ilog2 n d - 52)"
  have u: "0 < ?u" by (rule pow2_pos)
  have "pow2 (ilog2 n d) \<le> x" using ilog2_lower[OF n d] d unfolding x by (simp add: pos_le_divide_eq)
  then have ux: "?u \<le> x / 2 ^ 52" by (simp add: pow2_diff divide_right_mono)
  have "f64 x - x = (of_int (round_even (x / ?u)) - x / ?u) * ?u"
    using assms u q by (simp add: f64_def f64_pos_def Let_def field_simps)
  then have "\<bar>f64 x - x\<bar> \<le> 1 / 2 * ?u"
    using round_even_near[of "x / ?u"] u by (simp add: abs_mult mult_right_mono del: One_nat_def)
  then show ?thesis using ux by simp
qed

section \<open>A percentage of a count\<close>

abbreviation eps :: rat where
  "eps \<equiv> 1 / 2 ^ 53"

lemma f64_between:
  assumes "0 < x"
  shows "x * (1 - eps) \<le> f64 x" and "f64 x \<le> x * (1 + eps)" and "0 < f64 x"
proof -
  have ab: "\<bar>f64 x - x\<bar> \<le> x * eps" using f64_near[OF assms] by simp
  then show lo: "x * (1 - eps) \<le> f64 x" and "f64 x \<le> x * (1 + eps)"
    unfolding abs_le_iff right_diff_distrib distrib_left by linarith+
  have "0 < x * (1 - eps)" using assms by simp
  then show "0 < f64 x" using lo by linarith
qed

lemma f64_chain:
  assumes "0 < x" and "v * (1 - eps) ^ k \<le> x" and "x \<le> v * (1 + eps) ^ k"
  shows "v * (1 - eps) ^ Suc k \<le> f64 x" and "f64 x \<le> v * (1 + eps) ^ Suc k"
proof -
  have "v * (1 - eps) ^ k * (1 - eps) \<le> x * (1 - eps)" using assms(2) by (intro mult_right_mono) simp_all
  then show "v * (1 - eps) ^ Suc k \<le> f64 x" using f64_between(1)[OF assms(1)] by (simp add: mult.assoc mult.left_commute)
  have "x * (1 + eps) \<le> v * (1 + eps) ^ k * (1 + eps)" using assms(3) by (intro mult_right_mono) simp_all
  then show "f64 x \<le> v * (1 + eps) ^ Suc k" using f64_between(2)[OF assms(1)] by (simp add: mult.assoc mult.left_commute)
qed

lemma f64_percent:
  assumes "0 < p" and "0 < m"
  shows "m * (p / 100) * (1 - eps) ^ 4 \<le> f64 (f64 m * f64 (f64 p / 100))"
    and "f64 (f64 m * f64 (f64 p / 100)) \<le> m * (p / 100) * (1 + eps) ^ 4"
proof -
  let ?q = "f64 (f64 p / 100)" and ?v = "m * (p / 100)"
  have p: "p * (1 - eps) \<le> f64 p" "f64 p \<le> p * (1 + eps)" "0 < f64 p" using f64_between[OF assms(1)] by simp_all
  then have "p / 100 * (1 - eps) ^ 1 \<le> f64 p / 100" "f64 p / 100 \<le> p / 100 * (1 + eps) ^ 1" by simp_all
  from f64_chain[OF _ this] p(3) have q: "p / 100 * (1 - eps) ^ 2 \<le> ?q" "?q \<le> p / 100 * (1 + eps) ^ 2"
    by (simp_all add: numeral_2_eq_2)
  have q0: "0 < ?q" using f64_between(3) p(3) by simp
  note m = f64_between[OF assms(2)]
  have "m * (1 - eps) * (p / 100 * (1 - eps) ^ 2) \<le> f64 m * ?q"
    using m(1,3) q(1) assms by (intro mult_mono) simp_all
  then have lo: "?v * (1 - eps) ^ 3 \<le> f64 m * ?q" by (simp add: numeral_3_eq_3 numeral_2_eq_2 ac_simps)
  have "f64 m * ?q \<le> m * (1 + eps) * (p / 100 * (1 + eps) ^ 2)"
    using m(2,3) q(2) q0 assms by (intro mult_mono) simp_all
  then have hi: "f64 m * ?q \<le> ?v * (1 + eps) ^ 3" by (simp add: numeral_3_eq_3 numeral_2_eq_2 ac_simps)
  have "Suc 3 = 4" by simp
  then show "?v * (1 - eps) ^ 4 \<le> f64 (f64 m * ?q)" "f64 (f64 m * ?q) \<le> ?v * (1 + eps) ^ 4"
    using f64_chain[OF _ lo hi] m(3) q0 by (metis mult_pos_pos)+
qed

lemma floor_percent:
  assumes "1 \<le> p" and "p \<le> 100" and "1 \<le> m" and "m < 2 ^ 40"
    and r: "r = f64 (f64 (of_int m) * f64 (f64 (of_int p) / 100))"
  shows "m * p div 100 - 1 \<le> \<lfloor>r\<rfloor>" and "\<lfloor>r\<rfloor> \<le> m * p div 100"
proof -
  let ?v = "of_int m * (of_int p / 100) :: rat" and ?k = "m * p div 100"
  have b: "?v * (1 - eps) ^ 4 \<le> r" "r \<le> ?v * (1 + eps) ^ 4"
    using f64_percent[of "of_int p" "of_int m"] assms by simp_all
  have "m * p \<le> m * 100" using assms by (intro mult_left_mono) simp_all
  then have "(of_int (m * p) :: rat) \<le> of_int (2 ^ 40 * 100)" using assms(4) by linarith
  then have v: "0 \<le> ?v" "?v \<le> 2 ^ 40" using assms by simp_all
  have "?v * (1 + eps) ^ 4 \<le> ?v * (1 + 1 / 2 ^ 50)" "?v * (1 - 1 / 2 ^ 50) \<le> ?v * (1 - eps) ^ 4"
    using v(1) by (intro mult_left_mono; simp add: power4_eq_xxxx)+
  then have near: "?v - 1 / 2 ^ 10 \<le> r" "r \<le> ?v + 1 / 2 ^ 10" using b v by (simp_all add: algebra_simps)
  have "100 * ?k \<le> m * p" "m * p \<le> 100 * ?k + 99" using mult_div_mod_eq[of 100 "m * p"] pos_mod_bound[of 100 "m * p"] pos_mod_sign[of 100 "m * p"] by linarith+
  then have "(of_int (100 * ?k) :: rat) \<le> of_int (m * p)" "(of_int (m * p) :: rat) \<le> of_int (100 * ?k + 99)" by linarith+
  then have k: "of_int ?k \<le> ?v" "?v \<le> of_int ?k + 99 / 100" by (simp_all add: field_simps)
  show "?k - 1 \<le> \<lfloor>r\<rfloor>" using near k by (simp add: le_floor_iff)
  have "r < of_int ?k + 1" using near k by simp
  then show "\<lfloor>r\<rfloor> \<le> ?k" by (simp add: floor_le_iff)
qed

end
