(* ===== verification/Compartment.thy ===== *)
theory Compartment
  imports Node Float64
begin

text \<open>
  The compartment of a deployment policy: \<open>operator/internal/wrapper/compartment.go\<close>.

  A compartment groups nodes of one NodeWright and decides which of them run next.  Its invariant is
  the one the source states: all its nodes belong to the same NodeWright, which is the argument
  \<open>sk\<close> here.  The record is polymorphic in what stands for a node, so that a cluster can hold
  references where the methods see the nodes.  The ceiling is computed in 64-bit floating point, as the
  source does.
\<close>

section \<open>Data and membership\<close>

record 'n wCompartment =
  w_Compartment :: Compartment
  w_Nodes :: "'n list"
  w_BatchState :: BatchProcessingState

definition NewCompartmentWrapper :: "Compartment \<Rightarrow> BatchProcessingState option \<Rightarrow> 'n wCompartment" where
  "NewCompartmentWrapper c batchState =
     \<lparr>w_Compartment = c, w_Nodes = [],
      w_BatchState = (case batchState of Some b \<Rightarrow> b | None \<Rightarrow> fresh_batch_state)\<rparr>"

definition Compartment_GetNode :: "string \<Rightarrow> skyhookNode wCompartment \<Rightarrow> skyhookNode option" where
  "Compartment_GetNode name c = find (\<lambda>n. n_Name (sn_Node n) = name) (w_Nodes c)"

definition AddNode :: "('n \<Rightarrow> string) \<Rightarrow> 'n \<Rightarrow> 'n wCompartment \<Rightarrow> 'n wCompartment" where
  "AddNode name node c =
     (if list_ex (\<lambda>n. name n = name node) (w_Nodes c) then c else c\<lparr>w_Nodes := w_Nodes c @ [node]\<rparr>)"

definition ClearNodes :: "'n wCompartment \<Rightarrow> 'n wCompartment" where
  "ClearNodes c = c\<lparr>w_Nodes := []\<rparr>"

section \<open>Ceiling\<close>

text \<open>\<open>max(1, int(float64(matched) * (float64(percent) / 100)))\<close>.\<close>

definition percent_of :: "int \<Rightarrow> int \<Rightarrow> int" where
  "percent_of percent matched =
     max 1 (trunc_f64 (f64 (f64 (of_int matched) * f64 (f64 (of_int percent) / 100))))"

definition CalculateCeiling :: "DeploymentBudget \<Rightarrow> int \<Rightarrow> int" where
  "CalculateCeiling budget matched =
     (case Count budget of
        Some n \<Rightarrow> n
      | None \<Rightarrow>
          (case Percent budget of
             Some p \<Rightarrow> if matched = 0 then 0 else percent_of p matched
           | None \<Rightarrow> 0))"

section \<open>Selecting nodes\<close>

definition getInProgressCount :: "skyhookNode wCompartment \<Rightarrow> int" where
  "getInProgressCount c = int (length (filter (\<lambda>n. Node_Status n = StatusInProgress) (w_Nodes c)))"

text \<open>A nil predicate admits every node.\<close>

definition admits :: "(skyhookNode \<Rightarrow> bool) option \<Rightarrow> skyhookNode \<Rightarrow> bool" where
  "admits eligible node = (case eligible of None \<Rightarrow> True | Some f \<Rightarrow> f node)"

definition getInProgressNodes :: "(skyhookNode \<Rightarrow> bool) option \<Rightarrow> skyhookNode wCompartment \<Rightarrow> skyhookNode list" where
  "getInProgressNodes eligible c =
     filter (\<lambda>n. Node_Status n = StatusInProgress \<and> admits eligible n) (w_Nodes c)"

definition getStickyBatchNodes ::
  "Skyhook \<Rightarrow> (skyhookNode \<Rightarrow> bool) option \<Rightarrow> skyhookNode wCompartment \<Rightarrow> skyhookNode list" where
  "getStickyBatchNodes sk eligible c =
     (case NodePriority (sk_Status sk) of
        None \<Rightarrow> []
      | Some prio \<Rightarrow>
          filter (\<lambda>n. map_of prio (n_Name (sn_Node n)) \<noteq> None \<and> \<not> Node_IsComplete sk n \<and> admits eligible n)
            (w_Nodes c))"

text \<open>The two loops of \<open>createNewBatch\<close>; both leave off once the batch is full.\<close>

fun select_with_status :: "int \<Rightarrow> (skyhookNode \<Rightarrow> bool) \<Rightarrow> skyhookNode list \<Rightarrow> skyhookNode list \<Rightarrow> skyhookNode list" where
  "select_with_status batchSize wanted selected [] = selected"
| "select_with_status batchSize wanted selected (n # ns) =
     (if int (length selected) \<ge> batchSize then selected
      else select_with_status batchSize wanted (if wanted n then selected @ [n] else selected) ns)"

fun select_by_priority ::
  "int \<Rightarrow> (Status \<Rightarrow> skyhookNode \<Rightarrow> bool) \<Rightarrow> skyhookNode list \<Rightarrow> skyhookNode list \<Rightarrow> Status list \<Rightarrow> skyhookNode list" where
  "select_by_priority batchSize wanted nodes selected [] = selected"
| "select_by_priority batchSize wanted nodes selected (s # ss) =
     (let selected1 = select_with_status batchSize (wanted s) selected nodes
      in if int (length selected1) \<ge> batchSize then selected1
         else select_by_priority batchSize wanted nodes selected1 ss)"

definition batch_priority :: "Status list" where
  "batch_priority = [StatusWaiting, StatusUnknown, StatusBlocked, StatusErroring]"

definition next_batch_size :: "skyhookNode wCompartment \<Rightarrow> int option" where
  "next_batch_size c =
     (case cp_Strategy (w_Compartment c) of
        Some s \<Rightarrow> CalculateBatchSize s (int (length (w_Nodes c))) (w_BatchState c)
      | None \<Rightarrow> Some (CalculateCeiling (cp_Budget (w_Compartment c)) (int (length (w_Nodes c)))))"

text \<open>\<open>None\<close> is the panic of a strategy with a missing field.\<close>

definition createNewBatch ::
  "Skyhook \<Rightarrow> (skyhookNode \<Rightarrow> bool) option \<Rightarrow> skyhookNode wCompartment \<Rightarrow> skyhookNode list option" where
  "createNewBatch sk eligible c =
     map_option (\<lambda>batchSize.
         if batchSize \<le> 0 then []
         else select_by_priority batchSize
                (\<lambda>status n. Node_Status n = status \<and> \<not> Node_IsComplete sk n \<and> admits eligible n)
                (w_Nodes c) [] batch_priority)
       (next_batch_size c)"

definition GetNodesForNextBatch ::
  "Skyhook \<Rightarrow> (skyhookNode \<Rightarrow> bool) option \<Rightarrow> skyhookNode wCompartment \<Rightarrow> skyhookNode list option" where
  "GetNodesForNextBatch sk eligible c =
     (if cp_Strategy (w_Compartment c) \<noteq> None \<and> ShouldStop (w_BatchState c) then Some []
      else if getInProgressNodes eligible c \<noteq> [] then Some (getInProgressNodes eligible c)
      else if getStickyBatchNodes sk eligible c \<noteq> [] then Some (getStickyBatchNodes sk eligible c)
      else createNewBatch sk eligible c)"

section \<open>Evaluating a batch\<close>

definition IsBatchComplete :: "skyhookNode wCompartment \<Rightarrow> bool" where
  "IsBatchComplete c \<longleftrightarrow> getInProgressCount c = 0"

definition count_nodes :: "(skyhookNode \<Rightarrow> bool) \<Rightarrow> skyhookNode wCompartment \<Rightarrow> int" where
  "count_nodes f c = int (length (filter f (w_Nodes c)))"

definition put_counts :: "int \<Rightarrow> int \<Rightarrow> skyhookNode wCompartment \<Rightarrow> skyhookNode wCompartment" where
  "put_counts completed failed c =
     c\<lparr>w_BatchState := (w_BatchState c)\<lparr>CompletedNodes := completed, FailedNodes := failed\<rparr>\<rparr>"

definition EvaluateCurrentBatch ::
  "Skyhook \<Rightarrow> skyhookNode wCompartment \<Rightarrow> skyhookNode wCompartment \<times> (bool \<times> int \<times> int)" where
  "EvaluateCurrentBatch sk c =
     (if \<not> IsBatchComplete c then (c, False, 0, 0)
      else if CurrentBatch (w_BatchState c) = 0 then
        (c\<lparr>w_BatchState := (w_BatchState c)\<lparr>CurrentBatch := 1\<rparr>\<rparr>, False, 0, 0)
      else
        (let completed = count_nodes (Node_IsComplete sk) c;
             failed = count_nodes (\<lambda>n. \<not> Node_IsComplete sk n \<and> Node_Status n = StatusErroring) c;
             blocked = count_nodes (\<lambda>n. \<not> Node_IsComplete sk n \<and> Node_Status n = StatusBlocked) c;
             deltaCompleted = wrap64 (completed - CompletedNodes (w_BatchState c));
             deltaFailed = wrap64 (failed - FailedNodes (w_BatchState c))
         in if deltaCompleted < 0 \<or> deltaFailed < 0 then (put_counts completed failed c, False, 0, 0)
            else if deltaCompleted = 0 \<and> deltaFailed = 0 \<and> blocked > 0 then
              (put_counts completed failed c, True, 0, 0)
            else if deltaCompleted = 0 \<and> deltaFailed = 0 then (c, False, 0, 0)
            else (put_counts completed failed c, True, deltaCompleted, deltaFailed)))"

definition EvaluateAndUpdateBatchState ::
  "int \<Rightarrow> int \<Rightarrow> int \<Rightarrow> 'n wCompartment \<Rightarrow> 'n wCompartment" where
  "EvaluateAndUpdateBatchState batchSize successCount failureCount c =
     (case cp_Strategy (w_Compartment c) of
        Some s \<Rightarrow>
          c\<lparr>w_BatchState := EvaluateBatchResult (Some s) (w_BatchState c) batchSize successCount failureCount
               (int (length (w_Nodes c)))\<rparr>
      | None \<Rightarrow>
          c\<lparr>w_BatchState := (w_BatchState c)\<lparr>CurrentBatch := wrap64 (CurrentBatch (w_BatchState c) + 1),
               LastBatchSize := batchSize\<rparr>\<rparr>)"

section \<open>Strategy safety\<close>

datatype StrategyType = StrategyTypeFixed | StrategyTypeLinear | StrategyTypeExponential | StrategyTypeUnknown

fun strategySafetyOrder :: "StrategyType \<Rightarrow> int" where
  "strategySafetyOrder StrategyTypeFixed = 0"
| "strategySafetyOrder StrategyTypeLinear = 1"
| "strategySafetyOrder StrategyTypeExponential = 2"
| "strategySafetyOrder StrategyTypeUnknown = 999"

definition GetStrategyType :: "DeploymentStrategy option \<Rightarrow> StrategyType" where
  "GetStrategyType so =
     (case so of
        None \<Rightarrow> StrategyTypeUnknown
      | Some s \<Rightarrow>
          if Fixed s \<noteq> None then StrategyTypeFixed
          else if Linear s \<noteq> None then StrategyTypeLinear
          else if Exponential s \<noteq> None then StrategyTypeExponential
          else StrategyTypeUnknown)"

definition StrategyIsSafer :: "StrategyType \<Rightarrow> StrategyType \<Rightarrow> bool" where
  "StrategyIsSafer a b \<longleftrightarrow> strategySafetyOrder a < strategySafetyOrder b"

section \<open>The ceiling\<close>

text \<open>
  For a percentage budget between 1 and 100 and up to \<open>2 ^ 40\<close> nodes, the ceiling computed in
  floating point is at least one node, never more than the exact percentage of the nodes (or one node),
  and short of it by one node at most.
\<close>

theorem ceiling_bounds:
  assumes "Count budget = None" and "Percent budget = Some p" and "1 \<le> p" and "p \<le> 100"
    and "1 \<le> matched" and "matched < 2 ^ 40"
  shows "1 \<le> CalculateCeiling budget matched \<and> CalculateCeiling budget matched \<le> max 1 (matched * p div 100) \<and>
     CalculateCeiling budget matched \<le> matched \<and> matched * p div 100 - 1 \<le> CalculateCeiling budget matched"
proof -
  let ?r = "f64 (f64 (of_int matched) * f64 (f64 (of_int p) / 100))"
  have c: "CalculateCeiling budget matched = max 1 (trunc_f64 ?r)"
    using assms by (simp add: CalculateCeiling_def percent_of_def)
  have "0 < ?r" using assms by (intro f64_between(3) mult_pos_pos) (simp_all add: f64_between(3))
  then have "trunc_f64 ?r = \<lfloor>?r\<rfloor>" by (simp add: trunc_f64_def)
  moreover have "matched * p div 100 \<le> matched"
    using assms zdiv_mono1[of "matched * p" "matched * 100" 100] mult_left_mono[of p 100 matched] by simp
  ultimately show ?thesis using c floor_percent[OF assms(3-6) refl] assms(5) by linarith
qed

text \<open>29 percent of 100 nodes is 28: the product of the doubles is just below 29.\<close>

theorem ceiling_bounds_witness:
  "CalculateCeiling \<lparr>Percent = Some 29, Count = None\<rparr> 100 = 28 \<and> 28 \<le> max 1 (100 * 29 div 100 :: int)"
proof -
  have "CalculateCeiling \<lparr>Percent = Some 29, Count = None\<rparr> 100 = 28" by code_simp
  then show ?thesis using ceiling_bounds[of "\<lparr>Percent = Some 29, Count = None\<rparr>" 29 100] by simp
qed

section \<open>Selection\<close>

lemma select_with_status_take:
  "select_with_status b wanted sel ns = sel @ take (nat (b - int (length sel))) (filter wanted ns)"
proof (induction ns arbitrary: sel)
  case (Cons n ns)
  have "nat (b - int (length sel)) = Suc (nat (b - int (length sel) - 1))" if "int (length sel) < b" using that by linarith
  then show ?case using Cons by (auto simp: algebra_simps)
qed simp

definition ranked :: "(Status \<Rightarrow> skyhookNode \<Rightarrow> bool) \<Rightarrow> skyhookNode list \<Rightarrow> Status list \<Rightarrow> skyhookNode list" where
  "ranked wanted nodes ss = concat (map (\<lambda>s. filter (wanted s) nodes) ss)"

lemma select_by_priority_take:
  "select_by_priority b wanted nodes sel ss = sel @ take (nat (b - int (length sel))) (ranked wanted nodes ss)"
proof (induction ss arbitrary: sel)
  case (Cons s ss)
  let ?k = "nat (b - int (length sel))" and ?f = "filter (wanted s) nodes"
  show ?case
  proof (cases "b \<le> int (length (sel @ take ?k ?f))")
    case True
    then have "?k \<le> length ?f" by (cases "?k \<le> length ?f") auto
    then show ?thesis using True by (simp add: select_with_status_take ranked_def)
  next
    case False
    then have "length ?f < ?k" by (auto simp: min_def split: if_splits)
    moreover from this have "nat (b - int (length (sel @ take ?k ?f))) = ?k - length ?f" by simp
    ultimately show ?thesis using False by (simp add: select_with_status_take Cons ranked_def)
  qed
qed (simp add: ranked_def)

text \<open>The nodes a new batch may take, in the order it takes them.\<close>

definition candidates :: "Skyhook \<Rightarrow> (skyhookNode \<Rightarrow> bool) option \<Rightarrow> skyhookNode wCompartment \<Rightarrow> skyhookNode list" where
  "candidates sk eligible c =
     ranked (\<lambda>status n. Node_Status n = status \<and> \<not> Node_IsComplete sk n \<and> admits eligible n) (w_Nodes c) batch_priority"

lemma createNewBatch_take:
  "createNewBatch sk eligible c = map_option (\<lambda>b. take (nat b) (candidates sk eligible c)) (next_batch_size c)"
  by (cases "next_batch_size c") (simp_all add: createNewBatch_def candidates_def select_by_priority_take)

lemma set_candidates: "set (candidates sk eligible c) =
   {n \<in> set (w_Nodes c). Node_Status n \<in> set batch_priority \<and> \<not> Node_IsComplete sk n \<and> admits eligible n}"
  by (auto simp: candidates_def ranked_def)

text \<open>A node that was started: it is in progress, or it was picked for a batch it has not finished.\<close>

definition started :: "Skyhook \<Rightarrow> skyhookNode \<Rightarrow> bool" where
  "started sk n \<longleftrightarrow> Node_Status n = StatusInProgress \<or>
     (map_of (or_empty (NodePriority (sk_Status sk))) (n_Name (sn_Node n)) \<noteq> None \<and> \<not> Node_IsComplete sk n)"

lemma sticky_started: "set (getInProgressNodes el c) \<union> set (getStickyBatchNodes sk el c) =
   {n \<in> set (w_Nodes c). started sk n \<and> admits el n}"
  by (auto simp: getInProgressNodes_def getStickyBatchNodes_def started_def split: option.splits)

lemma GetNodes_cases:
  assumes "\<not> (cp_Strategy (w_Compartment c) \<noteq> None \<and> ShouldStop (w_BatchState c))"
  shows "if \<exists>n \<in> set (w_Nodes c). started sk n \<and> admits el n
     then \<exists>ns. GetNodesForNextBatch sk el c = Some ns \<and> ns \<noteq> [] \<and> set ns \<subseteq> {n \<in> set (w_Nodes c). started sk n \<and> admits el n}
     else GetNodesForNextBatch sk el c = createNewBatch sk el c"
proof (cases "\<exists>n \<in> set (w_Nodes c). started sk n \<and> admits el n")
  case True
  then have "getInProgressNodes el c \<noteq> [] \<or> getStickyBatchNodes sk el c \<noteq> []" using sticky_started[of el c sk] by force
  then show ?thesis using True assms sticky_started[of el c sk] by (auto simp: GetNodesForNextBatch_def)
next
  case False
  then have "set (getInProgressNodes el c) \<union> set (getStickyBatchNodes sk el c) = {}" using sticky_started[of el c sk] by auto
  then show ?thesis using False assms by (auto simp: GetNodesForNextBatch_def)
qed

text \<open>
  C22. Batches do not overlap: while a node of the compartment that was started has not finished and may run,
  only such nodes are selected, and at least one of them; no new node joins them.
\<close>

theorem batch_no_overlap:
  assumes "\<not> (cp_Strategy (w_Compartment c) \<noteq> None \<and> ShouldStop (w_BatchState c))"
    and "n \<in> set (w_Nodes c)" and "started sk n" and "admits eligible n"
  shows "\<exists>ns. GetNodesForNextBatch sk eligible c = Some ns \<and> ns \<noteq> [] \<and>
     set ns \<subseteq> {n \<in> set (w_Nodes c). started sk n \<and> admits eligible n}"
  using GetNodes_cases[OF assms(1), of sk eligible] assms(2-4) by (auto split: if_splits)

text \<open>
  With a strategy the webhook accepted and defaulted, selection does not panic.  When no started node is
  left to finish, the new batch is the first of the incomplete nodes that may run, waiting ones first, then
  unknown, blocked and erroring ones: all of them if they are no more than the size the strategy gives,
  which is at most the nodes not yet processed; and once the strategy has stopped nothing is selected.
\<close>

theorem next_batch_exact:
  assumes "DeploymentStrategy_Validate s = Inr ()"
    and "cp_Strategy (w_Compartment c) = Some (DeploymentStrategy_Default s)"
    and "counts_ok (int (length (w_Nodes c))) (w_BatchState c)"
    and "\<not> (\<exists>n \<in> set (w_Nodes c). started sk n \<and> admits eligible n)"
  shows "\<exists>b. 0 \<le> b \<and> b \<le> remaining_nodes (int (length (w_Nodes c))) (w_BatchState c) \<and>
     (0 < remaining_nodes (int (length (w_Nodes c))) (w_BatchState c) \<longrightarrow> 0 < b) \<and>
     GetNodesForNextBatch sk eligible c =
       Some (if ShouldStop (w_BatchState c) then [] else take (nat b) (candidates sk eligible c))"
proof -
  obtain b where b: "CalculateBatchSize (DeploymentStrategy_Default s) (int (length (w_Nodes c))) (w_BatchState c) = Some b"
    "0 \<le> b" "b \<le> remaining_nodes (int (length (w_Nodes c))) (w_BatchState c)"
    "0 < remaining_nodes (int (length (w_Nodes c))) (w_BatchState c) \<longrightarrow> 0 < b"
    using strategy.batch_fits[OF Default_ready[OF assms(1)] assms(3)] by blast
  moreover have "createNewBatch sk eligible c = Some (take (nat b) (candidates sk eligible c))"
    using b(1) assms(2) by (simp add: createNewBatch_take next_batch_size_def)
  moreover have "GetNodesForNextBatch sk eligible c = (if ShouldStop (w_BatchState c) then Some [] else createNewBatch sk eligible c)"
    using GetNodes_cases[of c sk eligible] assms(2,4) by (auto simp: GetNodesForNextBatch_def[of _ _ c] split: if_splits)
  ultimately show ?thesis using b(2-4) by auto
qed

text \<open>A compartment with the sample node, once unstarted and once in progress.\<close>

definition sample_busy_node :: skyhookNode where
  "sample_busy_node = fst (Node_SetStatus StatusInProgress (sample_skyhookNode, None))"

definition sample_compartment :: "skyhookNode \<Rightarrow> skyhookNode wCompartment" where
  "sample_compartment node =
     (NewCompartmentWrapper \<lparr>cp_Name = ''gpu'', cp_Selector = \<lparr>matchLabels = None, matchExpressions = None\<rparr>,
        cp_Budget = \<lparr>Percent = Some 50, Count = None\<rparr>,
        cp_Strategy = Some (DeploymentStrategy_Default sample_strategy)\<rparr> None)\<lparr>w_Nodes := [node]\<rparr>"

lemma sample_compartment_sel:
  "w_Nodes (sample_compartment node) = [node]" "w_BatchState (sample_compartment node) = fresh_batch_state"
  "cp_Strategy (w_Compartment (sample_compartment node)) = Some (DeploymentStrategy_Default sample_strategy)"
  by (simp_all add: sample_compartment_def NewCompartmentWrapper_def)

theorem batch_no_overlap_witness:
  "\<exists>ns. GetNodesForNextBatch sample_skyhook None (sample_compartment sample_busy_node) = Some ns \<and> ns \<noteq> []"
proof -
  have "Node_Status sample_busy_node = StatusInProgress" by code_simp
  then have "started sample_skyhook sample_busy_node" by (simp add: started_def)
  moreover have "admits None sample_busy_node" by (simp add: admits_def)
  moreover have "\<not> ShouldStop fresh_batch_state" by (simp add: fresh_batch_state_def)
  ultimately show ?thesis
    using batch_no_overlap[of "sample_compartment sample_busy_node" sample_busy_node sample_skyhook None]
    by (auto simp: sample_compartment_sel)
qed

theorem next_batch_exact_witness:
  "\<exists>b > 0. GetNodesForNextBatch sample_skyhook None (sample_compartment sample_skyhookNode) =
     Some (take (nat b) (candidates sample_skyhook None (sample_compartment sample_skyhookNode)))"
proof -
  let ?c = "sample_compartment sample_skyhookNode"
  have "DeploymentStrategy_Validate sample_strategy = Inr ()"
    by (simp add: sample_strategy_def DeploymentStrategy_Validate_def)
  moreover have "counts_ok (int (length (w_Nodes ?c))) (w_BatchState ?c)"
    by (simp add: sample_compartment_sel counts_ok_def fresh_batch_state_def)
  moreover have "\<not> started sample_skyhook sample_skyhookNode" by code_simp
  ultimately show ?thesis
    using next_batch_exact[of sample_strategy ?c sample_skyhook None]
    by (auto simp: sample_compartment_sel fresh_batch_state_def remaining_nodes_def)
qed

section \<open>Evaluation\<close>

lemma count_disjoint:
  assumes "\<And>n. \<not> (f n \<and> g n)"
  shows "count_nodes f c + count_nodes g c \<le> int (length (w_Nodes c))"
proof -
  have "length (filter f xs) + length (filter g xs) \<le> length xs" for xs using assms by (induction xs) auto
  then show ?thesis unfolding count_nodes_def by (metis of_nat_add of_nat_mono)
qed

lemma put_counts_sel [simp]:
  "w_Nodes (put_counts a b c) = w_Nodes c" "w_Compartment (put_counts a b c) = w_Compartment c"
  "count_nodes f (put_counts a b c) = count_nodes f c" "IsBatchComplete (put_counts a b c) = IsBatchComplete c"
  "CompletedNodes (w_BatchState (put_counts a b c)) = a" "FailedNodes (w_BatchState (put_counts a b c)) = b"
  "CurrentBatch (w_BatchState (put_counts a b c)) = CurrentBatch (w_BatchState c)"
  by (simp_all add: put_counts_def count_nodes_def IsBatchComplete_def getInProgressCount_def)

text \<open>
  Results are counted once.  When evaluating a compartment reports a finished batch, no node is in progress,
  the counters have grown by exactly the successes and failures it reports and are in order for the next
  batch size, and evaluating again before a node changes reports no success and no failure.
\<close>

theorem batch_counted_once:
  assumes "counts_ok m (w_BatchState c)" and "length (w_Nodes c) < 2 ^ 56"
    and "EvaluateCurrentBatch sk c = (c', True, successes, failures)"
  shows "getInProgressCount c = 0 \<and> counts_ok (int (length (w_Nodes c))) (w_BatchState c') \<and>
     CompletedNodes (w_BatchState c') = CompletedNodes (w_BatchState c) + successes \<and>
     FailedNodes (w_BatchState c') = FailedNodes (w_BatchState c) + failures \<and>
     (\<exists>finished. EvaluateCurrentBatch sk c' = (c', finished, 0, 0))"
proof -
  let ?f = "\<lambda>n. \<not> Node_IsComplete sk n \<and> Node_Status n = StatusErroring"
  let ?d = "count_nodes (Node_IsComplete sk) c" and ?e = "count_nodes ?f c"
  have n: "0 \<le> ?d" "0 \<le> ?e" "?d + ?e \<le> int (length (w_Nodes c))"
    using count_disjoint[of "Node_IsComplete sk" ?f c] by (auto simp: count_nodes_def)
  then have w: "wrap64 (?d - CompletedNodes (w_BatchState c)) = ?d - CompletedNodes (w_BatchState c)"
    "wrap64 (?e - FailedNodes (w_BatchState c)) = ?e - FailedNodes (w_BatchState c)"
    using assms(1,2) by (simp_all add: counts_ok_def int64_def)
  have c: "IsBatchComplete c" "c' = put_counts ?d ?e c" "CurrentBatch (w_BatchState c) \<noteq> 0"
    "successes = ?d - CompletedNodes (w_BatchState c)" "failures = ?e - FailedNodes (w_BatchState c)"
    using assms(3) by (auto simp: EvaluateCurrentBatch_def Let_def w split: if_splits)
  moreover have "put_counts ?d ?e (put_counts ?d ?e c) = put_counts ?d ?e c" by (simp add: put_counts_def)
  ultimately have "\<exists>finished. EvaluateCurrentBatch sk c' = (c', finished, 0, 0)"
    by (auto simp: EvaluateCurrentBatch_def Let_def int64_def)
  then show ?thesis using c n assms(2) by (auto simp: IsBatchComplete_def counts_ok_def)
qed

theorem batch_counted_once_witness:
  "let c = (sample_compartment (fst (Node_SetStatus StatusErroring (sample_skyhookNode, None))))
   in FailedNodes (w_BatchState (fst (EvaluateCurrentBatch sample_skyhook c))) = 1"
proof -
  let ?c = "sample_compartment (fst (Node_SetStatus StatusErroring (sample_skyhookNode, None)))"
  obtain c' r where e: "EvaluateCurrentBatch sample_skyhook ?c = (c', r)" by (cases "EvaluateCurrentBatch sample_skyhook ?c")
  have "snd (EvaluateCurrentBatch sample_skyhook ?c) = (True, 0, 1)" by code_simp
  then have e': "EvaluateCurrentBatch sample_skyhook ?c = (c', True, 0, 1)" using e by simp
  have "counts_ok 1 (w_BatchState ?c)" by (simp add: sample_compartment_sel counts_ok_def fresh_batch_state_def)
  from batch_counted_once[OF this _ e'] show ?thesis
    by (simp add: e' Let_def) (simp add: sample_compartment_sel fresh_batch_state_def)
qed

end
