(* ===== verification/Cluster_State.thy ===== *)
theory Cluster_State
  imports Compartment
begin

text \<open>
  What one reconcile pass knows of the cluster: the first half of
  \<open>operator/internal/controller/cluster_state_v2.go\<close>, with \<open>partitionNodesIntoCompartments\<close> and the
  runtime-required taint selection of \<open>skyhook_controller.go\<close>.

  \<open>skyhookNodes\<close> is one NodeWright with the nodes it selects and the compartments they are in.  A node
  wrapper holds its own wrapper of the shared resource, so it has its own \<open>Updated\<close> flag next to the
  shared object; methods of a node therefore run on the shared resource with the node's flag.
  Compartments refer to nodes by name, which a cluster keeps unique.  Logging, metrics and the tracker
  of original objects (used only to compute patches) are left out.
\<close>

section \<open>Data\<close>

record cnode =
  cn_node :: skyhookNode
  cn_Updated :: bool

abbreviation cn_Name :: "cnode \<Rightarrow> string" where
  "cn_Name c \<equiv> n_Name (sn_Node (cn_node c))"

record skyhookNodes =
  sh_skyhook :: Skyhook
  sh_nodes :: "cnode list"
  priorStatus :: Status
  compartments :: "(string, string wCompartment) gomap"
  deploymentPolicy :: "DeploymentPolicy option"

abbreviation sh_Spec :: "skyhookNodes \<Rightarrow> NodeWrightSpec" where
  "sh_Spec s \<equiv> sk_Spec (sh_skyhook s)"

abbreviation sh_Name :: "skyhookNodes \<Rightarrow> string" where
  "sh_Name s \<equiv> nw_Name (sk_NodeWright (sh_skyhook s))"

definition put_skyhook :: "(Skyhook \<Rightarrow> Skyhook) \<Rightarrow> skyhookNodes \<Rightarrow> skyhookNodes" where
  "put_skyhook f s = s\<lparr>sh_skyhook := f (sh_skyhook s)\<rparr>"

definition find_node :: "skyhookNodes \<Rightarrow> string \<Rightarrow> cnode option" where
  "find_node s name = List.find (\<lambda>c. cn_Name c = name) (sh_nodes s)"

text \<open>Running a method of the node wrapper: on the shared resource, with the flag of the node's own wrapper.\<close>

definition on_node :: "(node_and_resource \<Rightarrow> node_and_resource) \<Rightarrow> string \<Rightarrow> skyhookNodes \<Rightarrow> skyhookNodes" where
  "on_node f name s =
     (case find_node s name of
        None \<Rightarrow> s
      | Some c \<Rightarrow>
          (let (node, sk) = f (cn_node c, Some ((sh_skyhook s)\<lparr>Updated := cn_Updated c\<rparr>))
           in case sk of
                None \<Rightarrow> s
              | Some k \<Rightarrow>
                  s\<lparr>sh_skyhook := (sh_skyhook s)\<lparr>sk_NodeWright := sk_NodeWright k\<rparr>,
                    sh_nodes := map (\<lambda>c'. if cn_Name c' = name then \<lparr>cn_node = node, cn_Updated = Updated k\<rparr> else c')
                                  (sh_nodes s)\<rparr>))"

definition node_complete :: "skyhookNodes \<Rightarrow> cnode \<Rightarrow> bool" where
  "node_complete s c = Node_IsComplete (sh_skyhook s) (cn_node c)"

text \<open>A compartment with its references followed.\<close>

definition deref :: "skyhookNodes \<Rightarrow> string wCompartment \<Rightarrow> skyhookNode wCompartment" where
  "deref s w =
     \<lparr>w_Compartment = w_Compartment w,
      w_Nodes = concat (map (\<lambda>name. case find_node s name of None \<Rightarrow> [] | Some c \<Rightarrow> [cn_node c]) (w_Nodes w)),
      w_BatchState = w_BatchState w\<rparr>"

section \<open>Status of the nodes\<close>

definition sh_IsComplete :: "skyhookNodes \<Rightarrow> bool" where
  "sh_IsComplete s = list_all (node_complete s) (sh_nodes s)"

definition sh_IsDisabled :: "skyhookNodes \<Rightarrow> bool" where
  "sh_IsDisabled s = IsDisabled (sk_NodeWright (sh_skyhook s))"

definition sh_IsPaused :: "skyhookNodes \<Rightarrow> bool" where
  "sh_IsPaused s = IsPaused (sk_NodeWright (sh_skyhook s))"

definition sh_Status :: "skyhookNodes \<Rightarrow> Status" where
  "sh_Status s = st_Status (sk_Status (sh_skyhook s))"

definition sh_GetNode :: "skyhookNodes \<Rightarrow> string \<Rightarrow> Status \<times> cnode option" where
  "sh_GetNode s name =
     (case find_node s name of None \<Rightarrow> (StatusUnknown, None) | Some c \<Rightarrow> (Node_Status (cn_node c), Some c))"

definition incomplete_with :: "skyhookNodes \<Rightarrow> Status \<Rightarrow> nat" where
  "incomplete_with s st = length (filter (\<lambda>c. \<not> node_complete s c \<and> Node_Status (cn_node c) = st) (sh_nodes s))"

definition CollectNodeStatus :: "skyhookNodes \<Rightarrow> Status" where
  "CollectNodeStatus s =
     (let complete = length (filter (node_complete s) (sh_nodes s));
          remaining = length (sh_nodes s) - complete;
          all_left = (\<lambda>st. incomplete_with s st > 0 \<and> incomplete_with s st = remaining)
      in if complete = length (sh_nodes s) then StatusComplete
         else if incomplete_with s StatusInProgress > 0 then StatusInProgress
         else if all_left StatusErroring then StatusErroring
         else if all_left StatusBlocked then StatusBlocked
         else if all_left StatusUnknown then StatusUnknown
         else if all_left StatusWaiting then StatusWaiting
         else StatusUnknown)"

definition resetSkyhookBatchState :: "skyhookNodes \<Rightarrow> skyhookNodes" where
  "resetSkyhookBatchState s =
     (if \<not> ShouldResetBatchStateOnCompletion (sk_NodeWright (sh_skyhook s)) (deploymentPolicy s) then s
      else
        (let (nw, changed) = ResetCompartmentBatchStates (sk_NodeWright (sh_skyhook s));
             s1 = put_skyhook (\<lambda>k. (if changed then touch else id) (k\<lparr>sk_NodeWright := nw\<rparr>)) s
         in s1\<lparr>compartments := map (\<lambda>(n, w). (n, w\<lparr>w_BatchState := fresh_batch_state\<rparr>)) (compartments s1)\<rparr>))"

definition sh_SetStatus :: "Status \<Rightarrow> skyhookNodes \<Rightarrow> skyhookNodes" where
  "sh_SetStatus status s =
     (let oldStatus = sh_Status s;
          s1 = put_skyhook (SetStatus status) (s\<lparr>priorStatus := oldStatus\<rparr>)
      in if oldStatus \<noteq> StatusComplete \<and> status = StatusComplete then resetSkyhookBatchState s1 else s1)"

definition set_node_status :: "Status \<Rightarrow> string \<Rightarrow> skyhookNodes \<Rightarrow> skyhookNodes" where
  "set_node_status status = on_node (Node_SetStatus status)"

section \<open>Order between NodeWrights\<close>

definition rank :: "skyhookNodes \<Rightarrow> int \<times> string" where
  "rank s = (Priority (sh_Spec s), sh_Name s)"

text \<open>The \<open>continue\<close> of the loops: a lower or equal rank, the name deciding between equal priorities.\<close>

definition comes_before :: "skyhookNodes \<Rightarrow> skyhookNodes \<Rightarrow> bool" where
  "comes_before other s \<longleftrightarrow>
     \<not> (Priority (sh_Spec other) > Priority (sh_Spec s) \<or>
        (Priority (sh_Spec other) = Priority (sh_Spec s) \<and> sh_Name other \<ge> sh_Name s))"

definition GetNextSkyhook :: "skyhookNodes list \<Rightarrow> skyhookNodes option" where
  "GetNextSkyhook ss = List.find (\<lambda>s. \<not> (sh_IsComplete s \<or> sh_IsDisabled s)) ss"

definition IsNodeReadyForSkyhook :: "string \<Rightarrow> skyhookNodes \<Rightarrow> skyhookNodes list \<Rightarrow> bool" where
  "IsNodeReadyForSkyhook nodeName s allSkyhooks =
     list_all (\<lambda>other.
        sh_IsDisabled other \<or> \<not> comes_before other s \<or>
        (if IsPerNodeSequencing (sh_Spec other)
         then (case find_node other nodeName of None \<Rightarrow> True | Some c \<Rightarrow> node_complete other c)
         else sh_IsComplete other)) allSkyhooks"

definition isBlockedByGlobalPredecessor :: "skyhookNodes \<Rightarrow> skyhookNodes list \<Rightarrow> bool" where
  "isBlockedByGlobalPredecessor s allSkyhooks =
     list_ex (\<lambda>other.
        \<not> sh_IsDisabled other \<and> comes_before other s \<and>
        \<not> IsPerNodeSequencing (sh_Spec other) \<and> \<not> sh_IsComplete other) allSkyhooks"

section \<open>Compartments\<close>

datatype cluster_error =
    GraphError spec_error
  | SelectorInvalid
  | CompartmentMissing string

definition createLegacyDefaultCompartment :: "NodeWrightSpec \<Rightarrow> int \<Rightarrow> Compartment" where
  "createLegacyDefaultCompartment spec nodeCount =
     (let ib = spec_InterruptionBudget spec;
          budget = (if ib_Percent ib \<noteq> None then \<lparr>Percent = ib_Percent ib, Count = None\<rparr>
                    else if ib_Count ib \<noteq> None then \<lparr>Percent = None, Count = ib_Count ib\<rparr>
                    else \<lparr>Percent = Some 100, Count = None\<rparr>);
          initialBatch =
            (case Count budget of
               Some n \<Rightarrow> max 1 (min nodeCount n)
             | None \<Rightarrow>
                 (case Percent budget of
                    Some p \<Rightarrow> if nodeCount > 0 then percent_of p nodeCount else 1
                  | None \<Rightarrow> 1));
          fixed = (FixedStrategy_Default \<lparr>fx_InitialBatch = None, fx_BatchThreshold = None,
                     fx_FailureThreshold = None, fx_SafetyLimit = None\<rparr>)\<lparr>fx_InitialBatch := Some initialBatch\<rparr>
      in \<lparr>cp_Name = DefaultCompartmentName, cp_Selector = \<lparr>matchLabels = None, matchExpressions = None\<rparr>,
          cp_Budget = budget, cp_Strategy = Some \<lparr>Fixed = Some fixed, Linear = None, Exponential = None\<rparr>\<rparr>)"

definition AddCompartment :: "string \<Rightarrow> string wCompartment \<Rightarrow> skyhookNodes \<Rightarrow> skyhookNodes" where
  "AddCompartment name w s = s\<lparr>compartments := gput name w (compartments s)\<rparr>"

definition AddCompartmentNode :: "string \<Rightarrow> string \<Rightarrow> skyhookNodes \<Rightarrow> cluster_error + skyhookNodes" where
  "AddCompartmentNode name node s =
     (case map_of (compartments s) name of
        None \<Rightarrow> Inl (CompartmentMissing name)
      | Some w \<Rightarrow> Inr (s\<lparr>compartments := gput name (AddNode id node w) (compartments s)\<rparr>))"

text \<open>The batch state a compartment has in the status of the resource.\<close>

definition persisted_batch_state :: "NodeWright \<Rightarrow> string \<Rightarrow> BatchProcessingState option" where
  "persisted_batch_state nw name =
     Option.bind (map_of (or_empty (CompartmentStatuses (nw_Status nw))) name) cs_BatchState"

text \<open>\<open>%q\<close> of a policy name: a DNS name has no character to escape.\<close>

definition quoted :: "string \<Rightarrow> string" where
  "quoted s = [dquote] @ s @ [dquote]"

definition policy_not_found :: "NodeWright \<Rightarrow> Condition" where
  "policy_not_found nw =
     \<lparr>c_Type = ''DeploymentPolicyNotFound'', c_Status = ''True'', c_ObservedGeneration = Generation nw,
      c_LastTransitionTime = 0, c_Reason = ''DeploymentPolicyNotFound'',
      c_Message = ''DeploymentPolicy '' @ quoted (spec_DeploymentPolicy (nw_Spec nw)) @ '' not found''\<rparr>"

definition initializeCompartmentsFromPolicy :: "int \<Rightarrow> DeploymentPolicy list \<Rightarrow> skyhookNodes \<Rightarrow> skyhookNodes" where
  "initializeCompartmentsFromPolicy now policies s =
     (let nw = sk_NodeWright (sh_skyhook s);
          add = (\<lambda>c. AddCompartment (cp_Name c) (NewCompartmentWrapper c (persisted_batch_state nw (cp_Name c))))
      in case List.find (\<lambda>p. dp_Name p = spec_DeploymentPolicy (nw_Spec nw)) policies of
           Some p \<Rightarrow>
             (let s1 = fold add (Compartments (dp_Spec p)) (s\<lparr>deploymentPolicy := Some p\<rparr>);
                  s2 = add \<lparr>cp_Name = DefaultCompartmentName, cp_Selector = \<lparr>matchLabels = None, matchExpressions = None\<rparr>,
                            cp_Budget = pd_Budget (Default (dp_Spec p)), cp_Strategy = pd_Strategy (Default (dp_Spec p))\<rparr> s1
              in put_skyhook (\<lambda>k. fst (RemoveSkyhookConditionTypes
                     [''DeploymentPolicyNotFound'', LegacySkyhookConditionType ''DeploymentPolicyNotFound''] k)) s2)
         | None \<Rightarrow> put_skyhook (\<lambda>k. fst (AddSkyhookConditionWithLegacy now ((policy_not_found nw)\<lparr>c_LastTransitionTime := now\<rparr>) k)) s)"

record compartmentMatch =
  cm_name :: string
  cm_strategyType :: StrategyType
  cm_capacity :: int

definition countMatchingNodes :: "skyhookNodes \<Rightarrow> requirement list \<Rightarrow> int" where
  "countMatchingNodes s sel = int (length (filter (\<lambda>c. selector_matches sel (n_Labels (sn_Node (cn_node c)))) (sh_nodes s)))"

fun collect_matches :: "skyhookNodes \<Rightarrow> (string, string) gomap \<Rightarrow> Compartment list \<Rightarrow> cluster_error + compartmentMatch list" where
  "collect_matches s labels [] = Inr []"
| "collect_matches s labels (c # cs) =
     (if cp_Name c = DefaultCompartmentName then collect_matches s labels cs
      else case LabelSelectorAsSelector (cp_Selector c) of
             None \<Rightarrow> Inl SelectorInvalid
           | Some sel \<Rightarrow>
               if \<not> selector_matches sel labels then collect_matches s labels cs
               else case collect_matches s labels cs of
                      Inl e \<Rightarrow> Inl e
                    | Inr ms \<Rightarrow>
                        (let n = countMatchingNodes s sel
                         in Inr (\<lparr>cm_name = cp_Name c, cm_strategyType = GetStrategyType (cp_Strategy c),
                                  cm_capacity = CalculateCeiling (cp_Budget c) (if n = 0 then 1 else n)\<rparr> # ms)))"

text \<open>The comparison of the sort: strategy, then capacity, then name.\<close>

definition match_key :: "compartmentMatch \<Rightarrow> int \<times> int \<times> string" where
  "match_key m = (strategySafetyOrder (cm_strategyType m), cm_capacity m, cm_name m)"

definition AssignNodeToCompartment :: "skyhookNodes \<Rightarrow> cnode \<Rightarrow> cluster_error + string" where
  "AssignNodeToCompartment s c =
     (case collect_matches s (n_Labels (sn_Node (cn_node c))) (map (w_Compartment \<circ> snd) (compartments s)) of
        Inl e \<Rightarrow> Inl e
      | Inr ms \<Rightarrow> Inr (case sort_key match_key ms of [] \<Rightarrow> DefaultCompartmentName | m # _ \<Rightarrow> cm_name m))"

fun assign_all :: "skyhookNodes \<Rightarrow> cnode list \<Rightarrow> cluster_error + skyhookNodes" where
  "assign_all s [] = Inr s"
| "assign_all s (c # cs) =
     (case AssignNodeToCompartment s c of
        Inl e \<Rightarrow> Inl e
      | Inr name \<Rightarrow>
          (case AddCompartmentNode name (cn_Name c) s of
             Inl e \<Rightarrow> Inl e
           | Inr s1 \<Rightarrow> assign_all s1 cs))"

definition partition_one :: "skyhookNodes \<Rightarrow> cluster_error + skyhookNodes" where
  "partition_one s =
     (if spec_DeploymentPolicy (sh_Spec s) = [] \<or> compartments s = [] then Inr s
      else assign_all (s\<lparr>compartments := map (\<lambda>(n, w). (n, ClearNodes w)) (compartments s)\<rparr>) (sh_nodes s))"

text \<open>The first error leaves the loop.\<close>

fun each_ok :: "('a \<Rightarrow> 'e + 'b) \<Rightarrow> 'a list \<Rightarrow> 'e + 'b list" where
  "each_ok f [] = Inr []"
| "each_ok f (x # xs) =
     (case f x of
        Inl e \<Rightarrow> Inl e
      | Inr y \<Rightarrow> (case each_ok f xs of Inl e \<Rightarrow> Inl e | Inr ys \<Rightarrow> Inr (y # ys)))"

definition partitionNodesIntoCompartments :: "skyhookNodes list \<Rightarrow> cluster_error + skyhookNodes list" where
  "partitionNodesIntoCompartments ss = each_ok partition_one ss"

section \<open>Building the state\<close>

fun add_selected :: "NodeWright \<Rightarrow> Node list \<Rightarrow> cluster_error + cnode list" where
  "add_selected nw [] = Inr []"
| "add_selected nw (n # ns) =
     (case NewSkyhookNode n nw of
        Inl e \<Rightarrow> Inl (GraphError e)
      | Inr (node, k) \<Rightarrow>
          (case LabelSelectorAsSelector (NodeSelector (nw_Spec nw)) of
             None \<Rightarrow> Inl SelectorInvalid
           | Some sel \<Rightarrow>
               (case add_selected nw ns of
                  Inl e \<Rightarrow> Inl e
                | Inr cs \<Rightarrow> Inr (if selector_matches sel (n_Labels n) then \<lparr>cn_node = node, cn_Updated = False\<rparr> # cs else cs))))"

fun add_default_nodes :: "skyhookNodes \<Rightarrow> cnode list \<Rightarrow> cluster_error + skyhookNodes" where
  "add_default_nodes s [] = Inr s"
| "add_default_nodes s (c # cs) =
     (case AddCompartmentNode DefaultCompartmentName (cn_Name c) s of
        Inl e \<Rightarrow> Inl e | Inr s1 \<Rightarrow> add_default_nodes s1 cs)"

definition build_one :: "int \<Rightarrow> Node list \<Rightarrow> DeploymentPolicy list \<Rightarrow> NodeWright \<Rightarrow> cluster_error + skyhookNodes" where
  "build_one now nodes policies nw =
     (case add_selected nw nodes of
        Inl e \<Rightarrow> Inl e
      | Inr cs \<Rightarrow>
          (let s = \<lparr>sh_skyhook = NewSkyhookWrapper nw, sh_nodes = cs, priorStatus = StatusOther [],
                    compartments = [], deploymentPolicy = None\<rparr>
           in if spec_DeploymentPolicy (nw_Spec nw) = [] then
                add_default_nodes
                  (AddCompartment DefaultCompartmentName
                     (NewCompartmentWrapper (createLegacyDefaultCompartment (nw_Spec nw) (int (length cs)))
                        (persisted_batch_state nw DefaultCompartmentName)) s) cs
              else Inr (initializeCompartmentsFromPolicy now policies s)))"

definition node_age :: "cnode \<Rightarrow> int \<times> string" where
  "node_age c = (n_CreationTimestamp (sn_Node (cn_node c)), cn_Name c)"

definition BuildState :: "int \<Rightarrow> NodeWright list \<Rightarrow> Node list \<Rightarrow> DeploymentPolicy list \<Rightarrow> cluster_error + skyhookNodes list" where
  "BuildState now skyhooks nodes policies =
     (case each_ok (build_one now nodes policies) skyhooks of
        Inl e \<Rightarrow> Inl e
      | Inr ss \<Rightarrow>
          partitionNodesIntoCompartments
            (map (\<lambda>s. s\<lparr>sh_nodes := sort_key node_age (sh_nodes s)\<rparr>) (sort_key rank ss)))"

section \<open>Order between NodeWrights\<close>

lemma comes_before_rank: "comes_before other s \<longleftrightarrow> rank other < rank s"
  by (auto simp: comes_before_def rank_def less_prod_def' not_le)

lemma find_node_Some: "find_node s name = Some c \<Longrightarrow> c \<in> set (sh_nodes s) \<and> cn_Name c = name"
  by (auto simp: find_node_def find_Some_iff)

lemma find_distinct: "distinct (map f xs) \<Longrightarrow> x \<in> set xs \<Longrightarrow> List.find (\<lambda>y. f y = f x) xs = Some x"
  by (induction xs) (auto dest: imageI[of _ _ f])

lemma find_node_distinct:
  "distinct (map cn_Name (sh_nodes s)) \<Longrightarrow> c \<in> set (sh_nodes s) \<Longrightarrow> find_node s (cn_Name c) = Some c"
  unfolding find_node_def by (rule find_distinct)

text \<open>
  C23. NodeWrights never wait for each other in a circle: as long as an enabled NodeWright has an incomplete
  node, some incomplete node of an enabled NodeWright is ready for it.
\<close>

theorem sequencing_no_deadlock:
  assumes "s \<in> set ss" and "\<not> sh_IsDisabled s" and "\<not> sh_IsComplete s"
  shows "\<exists>t \<in> set ss. \<exists>c \<in> set (sh_nodes t). \<not> sh_IsDisabled t \<and> \<not> node_complete t c \<and>
     IsNodeReadyForSkyhook (cn_Name c) t ss"
proof -
  let ?open = "\<lambda>t. t \<in> set ss \<and> \<not> sh_IsDisabled t \<and> \<not> sh_IsComplete t"
  have "finite (rank ` {t. ?open t})" "rank ` {t. ?open t} \<noteq> {}" using assms by auto
  then have "Min (rank ` {t. ?open t}) \<in> rank ` {t. ?open t}" by (rule Min_in)
  then obtain t where t: "?open t" and m: "Min (rank ` {t. ?open t}) = rank t" by auto
  have least: "rank t \<le> rank u" if "?open u" for u
    unfolding m[symmetric] using that by (intro Min_le) auto
  obtain c where c: "c \<in> set (sh_nodes t)" "\<not> node_complete t c" using t by (auto simp: sh_IsComplete_def list_all_iff)
  have "sh_IsComplete other" if "other \<in> set ss" "\<not> sh_IsDisabled other" "comes_before other t" for other
    using that least[of other] leD by (auto simp: comes_before_rank)
  then have "IsNodeReadyForSkyhook (cn_Name c) t ss"
    by (auto simp: IsNodeReadyForSkyhook_def list_all_iff sh_IsComplete_def dest: find_node_Some split: option.splits)
  then show ?thesis using t c by blast
qed

text \<open>
  C16. At most one NodeWright works on a node at a time: two enabled NodeWrights with different names that both
  have the node and have not finished it are never both ready for it.
\<close>

theorem sequencing_exclusive:
  assumes "s \<in> set ss" and "t \<in> set ss" and "sh_Name s \<noteq> sh_Name t"
    and "\<not> sh_IsDisabled s" and "\<not> sh_IsDisabled t"
    and "find_node s name = Some c" and "find_node t name = Some d"
    and "\<not> node_complete s c" and "\<not> node_complete t d"
  shows "\<not> (IsNodeReadyForSkyhook name s ss \<and> IsNodeReadyForSkyhook name t ss)"
proof
  assume ready: "IsNodeReadyForSkyhook name s ss \<and> IsNodeReadyForSkyhook name t ss"
  have blocks: False if "u \<in> set ss" "\<not> sh_IsDisabled u" "comes_before u v" "find_node u name = Some e"
    "\<not> node_complete u e" "IsNodeReadyForSkyhook name v ss" for u v e
  proof -
    have "if IsPerNodeSequencing (sh_Spec u) then node_complete u e else sh_IsComplete u"
      using that(1-4,6) by (auto simp: IsNodeReadyForSkyhook_def list_all_iff)
    then show False using that(5) find_node_Some[OF that(4)] by (auto simp: sh_IsComplete_def list_all_iff split: if_splits)
  qed
  have "rank s \<noteq> rank t" using assms(3) by (simp add: rank_def)
  then consider "comes_before s t" | "comes_before t s" unfolding comes_before_rank by (rule neqE)
  then show False using blocks ready assms by cases blast+
qed

section \<open>Every node in one compartment\<close>

text \<open>The compartments that hold a node.\<close>

definition held :: "skyhookNodes \<Rightarrow> string \<Rightarrow> string set" where
  "held s x = {k. \<exists>w. map_of (compartments s) k = Some w \<and> x \<in> set (w_Nodes w)}"

text \<open>
  Filling compartments: a loop that chooses a compartment for each node and adds the node there.  The client
  fact is that nodes no compartment held before are held by exactly one afterwards.
\<close>

locale placement =
  fixes place :: "string \<Rightarrow> string \<Rightarrow> 's \<Rightarrow> 'e + 's"
    and holders :: "'s \<Rightarrow> string \<Rightarrow> string set"
    and target :: "'s \<Rightarrow> 'c \<Rightarrow> 'e + string"
    and nm :: "'c \<Rightarrow> string"
    and loop :: "'s \<Rightarrow> 'c list \<Rightarrow> 'e + 's"
  assumes place_holders: "place k x s = Inr s' \<Longrightarrow> holders s' y = (if y = x then insert k (holders s y) else holders s y)"
    and loop_Nil: "loop s [] = Inr s"
    and loop_Cons: "loop s (c # cs) = Inr t \<Longrightarrow>
      \<exists>k s1. target s c = Inr k \<and> place k (nm c) s = Inr s1 \<and> loop s1 cs = Inr t"
begin

lemma loop_places:
  assumes "loop s cs = Inr t" and "distinct (map nm cs)" and "\<And>c. c \<in> set cs \<Longrightarrow> holders s (nm c) = {}"
  shows "(\<forall>c \<in> set cs. \<exists>k. holders t (nm c) = {k}) \<and> (\<forall>y. y \<notin> nm ` set cs \<longrightarrow> holders t y = holders s y)"
  using assms
proof (induction cs arbitrary: s)
  case Nil
  then show ?case by (simp add: loop_Nil)
next
  case (Cons c cs)
  obtain k s1 where k: "place k (nm c) s = Inr s1" "loop s1 cs = Inr t" using loop_Cons[OF Cons.prems(1)] by blast
  note h = place_holders[OF k(1)]
  have "holders s1 (nm d) = {}" if "d \<in> set cs" for d
  proof -
    have "nm d \<noteq> nm c" using imageI[OF that, of nm] Cons.prems(2) by auto
    then show ?thesis using Cons.prems(3)[of d] that by (simp add: h)
  qed
  from Cons.IH[OF k(2) _ this] Cons.prems(2)
  have ih: "\<forall>c \<in> set cs. \<exists>k. holders t (nm c) = {k}" "\<forall>y. y \<notin> nm ` set cs \<longrightarrow> holders t y = holders s1 y" by auto
  have "nm c \<notin> nm ` set cs" using Cons.prems(2) by auto
  then have "holders t (nm c) = {k}" using ih(2) Cons.prems(3)[of c] by (simp add: h)
  then show ?case using ih h by auto
qed

end

lemma AddCompartmentNode_held:
  assumes "AddCompartmentNode k x s = Inr s'"
  shows "held s' y = (if y = x then insert k (held s y) else held s y)"
proof -
  obtain w where w: "map_of (compartments s) k = Some w"
    and s': "s' = s\<lparr>compartments := gput k (AddNode id x w) (compartments s)\<rparr>"
    using assms by (auto simp: AddCompartmentNode_def split: option.splits)
  have "set (w_Nodes (AddNode id x w)) = insert x (set (w_Nodes w))" by (auto simp: AddNode_def list_ex_iff)
  then have "j \<in> held s' y \<longleftrightarrow> (if j = k then y = x \<or> y \<in> set (w_Nodes w) else j \<in> held s y)" for j
    by (simp add: held_def s')
  moreover have "k \<in> held s y \<longleftrightarrow> y \<in> set (w_Nodes w)" using w by (simp add: held_def)
  ultimately show ?thesis by (simp add: set_eq_iff)
qed

interpretation assigned: placement AddCompartmentNode held AssignNodeToCompartment cn_Name assign_all
proof unfold_locales
  show "\<exists>k s1. AssignNodeToCompartment s c = Inr k \<and> AddCompartmentNode k (cn_Name c) s = Inr s1 \<and> assign_all s1 cs = Inr t"
    if "assign_all s (c # cs) = Inr t" for s c cs t
    using that by (cases "AssignNodeToCompartment s c") (simp_all split: sum.splits)
qed (simp_all only: AddCompartmentNode_held assign_all.simps)

interpretation defaulted: placement AddCompartmentNode held "\<lambda>s c. Inr DefaultCompartmentName" cn_Name add_default_nodes
proof unfold_locales
  show "\<exists>k s1. Inr DefaultCompartmentName = Inr k \<and> AddCompartmentNode k (cn_Name c) s = Inr s1 \<and> add_default_nodes s1 cs = Inr t"
    if "add_default_nodes s (c # cs) = Inr t" for s c cs t
    using that by (simp split: sum.splits)
qed (simp_all only: AddCompartmentNode_held add_default_nodes.simps)

lemma AddCompartmentNode_sel:
  "AddCompartmentNode k x s = Inr s' \<Longrightarrow> sh_nodes s' = sh_nodes s \<and> sh_skyhook s' = sh_skyhook s"
  by (auto simp: AddCompartmentNode_def split: option.splits)

lemma assign_all_sel: "assign_all s cs = Inr t \<Longrightarrow> sh_nodes t = sh_nodes s \<and> sh_skyhook t = sh_skyhook s"
proof (induction cs arbitrary: s)
  case (Cons c cs)
  from assigned.loop_Cons[OF Cons.prems] obtain k s1 where
    "AddCompartmentNode k (cn_Name c) s = Inr s1" "assign_all s1 cs = Inr t" by blast
  then show ?case using Cons.IH[of s1] AddCompartmentNode_sel by simp
qed simp

lemma add_default_sel: "add_default_nodes s cs = Inr t \<Longrightarrow> sh_nodes t = sh_nodes s \<and> sh_skyhook t = sh_skyhook s"
proof (induction cs arbitrary: s)
  case (Cons c cs)
  from defaulted.loop_Cons[OF Cons.prems] obtain k s1 where
    "AddCompartmentNode k (cn_Name c) s = Inr s1" "add_default_nodes s1 cs = Inr t" by blast
  then show ?case using Cons.IH[of s1] AddCompartmentNode_sel by simp
qed simp

lemma NewSkyhookNode_sel: "NewSkyhookNode n nw = Inr (node, k) \<Longrightarrow> sn_Node node = n"
  by (auto simp: NewSkyhookNode_def Convert_def NewSkyhookNodeOnly_def Let_def split: sum.splits)

lemma add_selected_names:
  "add_selected nw ns = Inr cs \<Longrightarrow> distinct (map n_Name ns) \<Longrightarrow>
     distinct (map cn_Name cs) \<and> set (map (sn_Node \<circ> cn_node) cs) \<subseteq> set ns"
proof (induction nw ns arbitrary: cs rule: add_selected.induct)
  case (2 nw n ns)
  obtain node k sel cs1 where *: "NewSkyhookNode n nw = Inr (node, k)" "add_selected nw ns = Inr cs1"
    "LabelSelectorAsSelector (NodeSelector (nw_Spec nw)) = Some sel"
    "cs = (if selector_matches sel (n_Labels n) then \<lparr>cn_node = node, cn_Updated = False\<rparr> # cs1 else cs1)"
    using "2.prems"(1) by (auto split: sum.splits option.splits)
  have "distinct (map cn_Name cs1) \<and> set (map (sn_Node \<circ> cn_node) cs1) \<subseteq> set ns"
    using "2.IH"[OF *(1) refl *(3,2)] "2.prems"(2) by auto
  then show ?case using * NewSkyhookNode_sel[OF *(1)] "2.prems"(2) by (auto simp: image_iff)
qed simp

lemma each_ok_set: "each_ok f xs = Inr ys \<Longrightarrow> y \<in> set ys \<Longrightarrow> \<exists>x \<in> set xs. f x = Inr y"
proof (induction xs arbitrary: ys)
  case (Cons x xs)
  then obtain z zs where "f x = Inr z" "each_ok f xs = Inr zs" "ys = z # zs" by (auto split: sum.splits)
  then show ?case using Cons.IH[of zs] Cons.prems(2) by auto
qed simp

lemma put_skyhook_sel [simp]:
  "sh_nodes (put_skyhook f s) = sh_nodes s" "compartments (put_skyhook f s) = compartments s"
  "sh_skyhook (put_skyhook f s) = f (sh_skyhook s)" "priorStatus (put_skyhook f s) = priorStatus s"
  "deploymentPolicy (put_skyhook f s) = deploymentPolicy s"
  by (simp_all add: put_skyhook_def)

lemma condition_spec [simp]:
  "sk_Spec (fst (AddSkyhookConditionWithLegacy now c k)) = sk_Spec k"
  "sk_Spec (fst (AddSkyhookCondition now c k)) = sk_Spec k"
  "sk_Spec (fst (RemoveSkyhookConditionTypes ts k)) = sk_Spec k"
  by (simp_all add: AddSkyhookConditionWithLegacy_def AddSkyhookCondition_def add_condition_def
      RemoveSkyhookConditionTypes_def Let_def split_beta)

lemma fold_add_sel:
  "sh_nodes (fold (\<lambda>c. AddCompartment (f c) (g c)) cs s) = sh_nodes s \<and>
   sh_skyhook (fold (\<lambda>c. AddCompartment (f c) (g c)) cs s) = sh_skyhook s"
  by (induction cs arbitrary: s) (simp_all add: AddCompartment_def)

lemma initialize_sel:
  "sh_nodes (initializeCompartmentsFromPolicy now ps s) = sh_nodes s"
  "sh_Spec (initializeCompartmentsFromPolicy now ps s) = sh_Spec s"
  by (auto simp: initializeCompartmentsFromPolicy_def Let_def fold_add_sel AddCompartment_def split: option.splits)

text \<open>Well-placed: the nodes have distinct names and each is held by exactly one compartment.\<close>

definition well_placed :: "skyhookNodes \<Rightarrow> bool" where
  "well_placed s \<longleftrightarrow> distinct (map cn_Name (sh_nodes s)) \<and> (\<forall>c \<in> set (sh_nodes s). \<exists>k. held s (cn_Name c) = {k})"

lemma build_one_placed:
  assumes "build_one now nodes ps nw = Inr s" and "distinct (map n_Name nodes)"
  shows "distinct (map cn_Name (sh_nodes s)) \<and> (spec_DeploymentPolicy (sh_Spec s) = [] \<longrightarrow> well_placed s)"
proof -
  obtain cs where cs: "add_selected nw nodes = Inr cs" using assms(1) by (auto simp: build_one_def split: sum.splits)
  note d = add_selected_names[OF cs assms(2), THEN conjunct1]
  let ?s = "\<lparr>sh_skyhook = NewSkyhookWrapper nw, sh_nodes = cs, priorStatus = StatusOther [],
                    compartments = [], deploymentPolicy = None\<rparr>"
  show ?thesis
  proof (cases "spec_DeploymentPolicy (nw_Spec nw) = []")
    case False
    then have "s = initializeCompartmentsFromPolicy now ps ?s" using assms(1) cs by (simp add: build_one_def Let_def)
    then show ?thesis using d False by (simp add: initialize_sel NewSkyhookWrapper_def)
  next
    case True
    let ?s1 = "AddCompartment DefaultCompartmentName
        (NewCompartmentWrapper (createLegacyDefaultCompartment (nw_Spec nw) (int (length cs)))
           (persisted_batch_state nw DefaultCompartmentName)) ?s"
    have run: "add_default_nodes ?s1 cs = Inr s" using assms(1) cs True by (simp add: build_one_def Let_def)
    have "held ?s1 x = {}" for x by (auto simp: held_def AddCompartment_def NewCompartmentWrapper_def split: if_splits)
    then have "\<forall>c \<in> set cs. \<exists>k. held s (cn_Name c) = {k}" using defaulted.loop_places[OF run d] by simp
    moreover have "sh_nodes s = cs" using add_default_sel[OF run] by (simp add: AddCompartment_def)
    ultimately show ?thesis using d by (simp add: well_placed_def)
  qed
qed

lemma partition_one_placed:
  assumes "partition_one s = Inr t" and "distinct (map cn_Name (sh_nodes s))"
    and "spec_DeploymentPolicy (sh_Spec s) = [] \<longrightarrow> well_placed s"
  shows "compartments t = [] \<or> well_placed t"
proof (cases "spec_DeploymentPolicy (sh_Spec s) = [] \<or> compartments s = []")
  case True
  then show ?thesis using assms by (auto simp: partition_one_def)
next
  case False
  let ?s = "s\<lparr>compartments := map (\<lambda>(n, w). (n, ClearNodes w)) (compartments s)\<rparr>"
  have run: "assign_all ?s (sh_nodes s) = Inr t" using assms(1) False by (simp add: partition_one_def)
  have "held ?s x = {}" for x by (auto simp: held_def map_of_map ClearNodes_def)
  then have "\<forall>c \<in> set (sh_nodes s). \<exists>k. held t (cn_Name c) = {k}" using assigned.loop_places[OF run assms(2)] by simp
  then show ?thesis using assms(2) assign_all_sel[OF run] by (simp add: well_placed_def)
qed

text \<open>
  Building the state of a cluster puts every node a NodeWright selects into exactly one of its
  compartments, whatever the selectors of the policy overlap; the only NodeWright without is one whose
  policy does not exist, which has no compartment at all.
\<close>

theorem nodes_partitioned:
  assumes "BuildState now skyhooks nodes policies = Inr ss" and "distinct (map n_Name nodes)"
    and "s \<in> set ss" and "compartments s \<noteq> []" and "c \<in> set (sh_nodes s)"
  shows "\<exists>!k. \<exists>w. map_of (compartments s) k = Some w \<and> cn_Name c \<in> set (w_Nodes w)"
proof -
  obtain bs where bs: "each_ok (build_one now nodes policies) skyhooks = Inr bs"
    and ss: "each_ok partition_one (map (\<lambda>s. s\<lparr>sh_nodes := sort_key node_age (sh_nodes s)\<rparr>) (sort_key rank bs)) = Inr ss"
    using assms(1) unfolding BuildState_def partitionNodesIntoCompartments_def
    by (cases "each_ok (build_one now nodes policies) skyhooks") simp_all
  from each_ok_set[OF ss assms(3)] obtain b where b: "b \<in> set bs"
    "partition_one (b\<lparr>sh_nodes := sort_key node_age (sh_nodes b)\<rparr>) = Inr s" by auto
  from each_ok_set[OF bs b(1)] obtain nw where "build_one now nodes policies nw = Inr b" by blast
  note built = build_one_placed[OF this assms(2)]
  have "distinct (map cn_Name (sort_key node_age (sh_nodes b)))" using built by (simp add: distinct_map)
  moreover have "held (b\<lparr>sh_nodes := x\<rparr>) = held b" for x by (simp add: held_def fun_eq_iff)
  ultimately have "compartments s = [] \<or> well_placed s"
    using built by (intro partition_one_placed[OF b(2)]) (auto simp: well_placed_def)
  then obtain k where "held s (cn_Name c) = {k}" using assms(4,5) by (auto simp: well_placed_def)
  then have "(\<exists>w. map_of (compartments s) j = Some w \<and> cn_Name c \<in> set (w_Nodes w)) \<longleftrightarrow> j = k" for j
    by (simp add: held_def set_eq_iff)
  then show ?thesis by (simp only:) simp
qed

section \<open>Overlapping compartments\<close>

text \<open>A compartment matches a node's labels; the default compartment is only a fallback.\<close>

definition cp_matches :: "(string, string) gomap \<Rightarrow> Compartment \<Rightarrow> bool" where
  "cp_matches labels cp \<longleftrightarrow> cp_Name cp \<noteq> DefaultCompartmentName \<and>
     (case LabelSelectorAsSelector (cp_Selector cp) of None \<Rightarrow> False | Some sel \<Rightarrow> selector_matches sel labels)"

definition cp_key :: "skyhookNodes \<Rightarrow> Compartment \<Rightarrow> int \<times> int \<times> string" where
  "cp_key s cp =
     (strategySafetyOrder (GetStrategyType (cp_Strategy cp)),
      CalculateCeiling (cp_Budget cp)
        (max 1 (case LabelSelectorAsSelector (cp_Selector cp) of None \<Rightarrow> 0 | Some sel \<Rightarrow> countMatchingNodes s sel)),
      cp_Name cp)"

lemma collect_matches_exact:
  "collect_matches s labels cs = Inr ms \<Longrightarrow>
     map match_key ms = map (cp_key s) (filter (cp_matches labels) cs) \<and>
     map cm_name ms = map cp_Name (filter (cp_matches labels) cs)"
proof (induction cs arbitrary: ms)
  case (Cons c cs)
  show ?case
  proof (cases "cp_Name c = DefaultCompartmentName")
    case True
    then show ?thesis using Cons by (simp add: cp_matches_def)
  next
    case False
    then obtain sel where sel: "LabelSelectorAsSelector (cp_Selector c) = Some sel" using Cons.prems by (auto split: option.splits)
    have n: "0 \<le> countMatchingNodes s sel" by (simp add: countMatchingNodes_def)
    show ?thesis
    proof (cases "selector_matches sel labels")
      case True
      then obtain ms' where ms': "collect_matches s labels cs = Inr ms'"
        "ms = \<lparr>cm_name = cp_Name c, cm_strategyType = GetStrategyType (cp_Strategy c),
            cm_capacity = CalculateCeiling (cp_Budget c) (if countMatchingNodes s sel = 0 then 1 else countMatchingNodes s sel)\<rparr> # ms'"
        using Cons.prems False sel by (auto simp: Let_def split: sum.splits)
      moreover have "max 1 (countMatchingNodes s sel) = (if countMatchingNodes s sel = 0 then 1 else countMatchingNodes s sel)"
        using n by simp
      ultimately show ?thesis using Cons.IH[OF ms'(1)] False sel True by (simp add: cp_matches_def cp_key_def match_key_def)
    qed (use Cons False sel in \<open>simp add: cp_matches_def\<close>)
  qed
qed simp

lemma sort_key_head:
  assumes "sort_key f xs = y # ys"
  shows "y \<in> set xs" and "x \<in> set xs \<Longrightarrow> f y \<le> f x"
proof -
  have "set (y # ys) = set xs" using assms set_sort by metis
  moreover have "sorted (map f (y # ys))" using sorted_sort_key[of f xs] assms by simp
  ultimately show "y \<in> set xs" "x \<in> set xs \<Longrightarrow> f y \<le> f x" by auto
qed

text \<open>
  A node that matches several compartments goes to the safest: the one that is least by strategy (fixed,
  then linear, then exponential, then none), then by ceiling, then by name; a node that matches none goes
  to the default compartment.  The order in which the compartments are visited does not matter.
\<close>

theorem assign_safest:
  assumes "AssignNodeToCompartment s c = Inr k"
  shows "let cps = {cp \<in> (w_Compartment \<circ> snd) ` set (compartments s). cp_matches (n_Labels (sn_Node (cn_node c))) cp}
     in if cps = {} then k = DefaultCompartmentName
        else \<exists>cp \<in> cps. k = cp_Name cp \<and> (\<forall>cp' \<in> cps. cp_key s cp \<le> cp_key s cp')"
proof -
  let ?cs = "map (w_Compartment \<circ> snd) (compartments s)" and ?l = "n_Labels (sn_Node (cn_node c))"
  let ?fs = "filter (cp_matches ?l) ?cs"
  obtain ms where ms: "collect_matches s ?l ?cs = Inr ms"
    and k: "k = (case sort_key match_key ms of [] \<Rightarrow> DefaultCompartmentName | m # _ \<Rightarrow> cm_name m)"
    using assms unfolding AssignNodeToCompartment_def by (cases "collect_matches s ?l ?cs") simp_all
  note exact = collect_matches_exact[OF ms]
  have cps: "{cp \<in> (w_Compartment \<circ> snd) ` set (compartments s). cp_matches ?l cp} = set ?fs" by auto
  have len: "length ms = length ?fs" using exact by (metis length_map)
  show ?thesis
  proof (cases "sort_key match_key ms")
    case Nil
    then have "ms = []" by (metis length_0_conv length_sort)
    then have "?fs = []" using len by (metis length_0_conv)
    then have "set ?fs = {}" by (simp only: list.set)
    then show ?thesis using Nil k unfolding cps Let_def by (simp only: list.case) simp
  next
    case (Cons m ms')
    note hd = sort_key_head[OF Cons]
    then obtain i where i: "i < length ms" "ms ! i = m" by (metis in_set_conv_nth)
    have at_i: "match_key (ms ! j) = cp_key s (?fs ! j)" "cm_name (ms ! j) = cp_Name (?fs ! j)" if "j < length ms" for j
      using exact that len by (metis nth_map)+
    have "?fs ! i \<in> set ?fs" using i len by (metis nth_mem)
    moreover have "cp_key s (?fs ! i) \<le> cp_key s cp'" if "cp' \<in> set ?fs" for cp'
    proof -
      obtain j where j: "j < length ms" "?fs ! j = cp'" using \<open>cp' \<in> set ?fs\<close> len by (metis in_set_conv_nth)
      then show ?thesis using hd(2)[of "ms ! j"] at_i(1)[OF j(1)] at_i(1)[OF i(1)] i j by simp
    qed
    moreover have "k = cp_Name (?fs ! i)" using k Cons at_i(2)[OF i(1)] i by simp
    ultimately show ?thesis unfolding cps Let_def by (metis empty_iff)
  qed
qed

section \<open>The legacy budget\<close>

definition legacy_limit :: "NodeWrightSpec \<Rightarrow> int \<Rightarrow> int" where
  "legacy_limit spec n =
     (case (ib_Percent (spec_InterruptionBudget spec), ib_Count (spec_InterruptionBudget spec)) of
        (Some p, _) \<Rightarrow> n * p div 100
      | (None, Some k) \<Rightarrow> k
      | (None, None) \<Rightarrow> n)"

text \<open>
  Without a deployment policy the interruption budget still bounds every batch: the batch of the synthetic
  default compartment never panics, is at most the budget (or one node) and at most the nodes left,
  and is not empty while nodes are left.
\<close>

theorem legacy_budget_kept:
  assumes "counts_ok n st" and "n < 2 ^ 40"
    and "\<forall>p. ib_Percent (spec_InterruptionBudget spec) = Some p \<longrightarrow> 1 \<le> p \<and> p \<le> 100"
  shows "\<exists>s b. cp_Strategy (createLegacyDefaultCompartment spec n) = Some s \<and> CalculateBatchSize s n st = Some b \<and>
     b \<le> max 1 (legacy_limit spec n) \<and> b \<le> remaining_nodes n st \<and> (0 < remaining_nodes n st \<longrightarrow> 1 \<le> b)"
proof -
  let ?c = "createLegacyDefaultCompartment spec n"
  obtain s where s: "cp_Strategy ?c = Some s" by (simp add: createLegacyDefaultCompartment_def Let_def)
  have n: "0 \<le> n" "0 \<le> remaining_nodes n st" using assms(1) by (simp_all add: counts_ok_def remaining_nodes_def)
  have pc: "percent_of p n \<le> max 1 (n * p div 100)" if "1 \<le> p" "p \<le> 100" "0 < n" for p
  proof -
    let ?r = "f64 (f64 (of_int n) * f64 (f64 (of_int p) / 100))"
    have "0 < ?r" using that by (intro f64_between(3) mult_pos_pos) (simp_all add: f64_between(3))
    then show ?thesis using floor_percent(2)[of p n ?r] that assms(2) by (simp add: percent_of_def trunc_f64_def)
  qed
  have "\<exists>i. Option.bind (Fixed s) fx_InitialBatch = Some i \<and> i \<le> max 1 (legacy_limit spec n)"
  proof (cases "ib_Percent (spec_InterruptionBudget spec)")
    case None
    then show ?thesis using s n pc[of 100]
      by (auto simp: createLegacyDefaultCompartment_def legacy_limit_def Let_def max_def min_def split: option.splits)
  next
    case (Some p)
    then have "1 \<le> p" "p \<le> 100" using assms(3) by auto
    then show ?thesis using s n pc[of p] Some
      by (auto simp: createLegacyDefaultCompartment_def legacy_limit_def Let_def)
  qed
  then obtain f i where f: "Fixed s = Some f" "fx_InitialBatch f = Some i" "i \<le> max 1 (legacy_limit spec n)"
    by (auto simp: bind_eq_Some_conv)
  then have "CalculateBatchSize s n st = Some (cap_remaining n st i)"
    by (simp add: CalculateBatchSize_def Fixed_CalculateBatchSize_def)
  then show ?thesis using s f(3) n cap_exact[OF assms(1), of i] by (auto simp: max_def min_def)
qed

section \<open>Witnesses\<close>

text \<open>
  Two NodeWrights on one node: \<open>tune\<close> with a package, \<open>zeta\<close> with the same package and a policy whose
  two compartments both match the node.
\<close>

definition sample_policy :: DeploymentPolicy where
  "sample_policy =
     \<lparr>dp_Name = ''gpu-policy'',
      dp_Spec = \<lparr>Default = \<lparr>pd_Budget = \<lparr>Percent = Some 100, Count = None\<rparr>, pd_Strategy = None\<rparr>,
        Compartments =
          [\<lparr>cp_Name = ''wide'', cp_Selector = \<lparr>matchLabels = None, matchExpressions = None\<rparr>,
            cp_Budget = \<lparr>Percent = Some 50, Count = None\<rparr>, cp_Strategy = Some sample_strategy\<rparr>,
           \<lparr>cp_Name = ''gpu'', cp_Selector = \<lparr>matchLabels = None, matchExpressions = None\<rparr>,
            cp_Budget = \<lparr>Percent = Some 50, Count = None\<rparr>,
            cp_Strategy = Some \<lparr>Fixed = Some \<lparr>fx_InitialBatch = Some 1, fx_BatchThreshold = Some 100,
               fx_FailureThreshold = None, fx_SafetyLimit = Some 50\<rparr>, Linear = None, Exponential = None\<rparr>\<rparr>],
        ResetBatchStateOnCompletion = None\<rparr>\<rparr>"

definition sample_zeta :: NodeWright where
  "sample_zeta = sample_resource\<lparr>nw_Name := ''zeta'',
     nw_Spec := (nw_Spec sample_resource)\<lparr>spec_DeploymentPolicy := ''gpu-policy''\<rparr>\<rparr>"

definition sample_cluster :: "skyhookNodes list" where
  "sample_cluster =
     (case BuildState 5 [sample_zeta, sample_resource] [sample_node] [sample_policy] of Inr ss \<Rightarrow> ss | Inl _ \<Rightarrow> [])"

definition sample_tune :: skyhookNodes where
  "sample_tune = sample_cluster ! 0"

definition sample_second :: skyhookNodes where
  "sample_second = sample_cluster ! 1"

definition built_as_expected :: bool where
  "built_as_expected \<longleftrightarrow>
     (case BuildState 5 [sample_zeta, sample_resource] [sample_node] [sample_policy] of
        Inl _ \<Rightarrow> False
      | Inr ss \<Rightarrow> map sh_Name ss = [''tune'', ''zeta''] \<and>
          list_all (\<lambda>s. map cn_Name (sh_nodes s) = [''node1''] \<and> \<not> sh_IsDisabled s \<and> \<not> sh_IsComplete s \<and> compartments s \<noteq> [] \<and>
            (case find_node s ''node1'' of None \<Rightarrow> False | Some c \<Rightarrow> \<not> node_complete s c)) ss)"

lemma sample_cluster_facts:
  "BuildState 5 [sample_zeta, sample_resource] [sample_node] [sample_policy] = Inr sample_cluster"
  "sample_cluster = [sample_tune, sample_second]" "sh_Name sample_tune = ''tune''" "sh_Name sample_second = ''zeta''"
  "s \<in> set sample_cluster \<Longrightarrow> \<not> sh_IsDisabled s \<and> \<not> sh_IsComplete s \<and> compartments s \<noteq> [] \<and>
     map cn_Name (sh_nodes s) = [''node1''] \<and> (\<exists>c. find_node s ''node1'' = Some c \<and> \<not> node_complete s c)"
proof -
  have b: built_as_expected by code_simp
  then show e: "BuildState 5 [sample_zeta, sample_resource] [sample_node] [sample_policy] = Inr sample_cluster"
    by (auto simp: built_as_expected_def sample_cluster_def split: sum.splits)
  have names: "map sh_Name sample_cluster = [''tune'', ''zeta'']" using b by (simp add: built_as_expected_def e)
  then have "length sample_cluster = 2" by (metis length_map length_Cons list.size(3) numeral_2_eq_2)
  then obtain s0 s1 where c: "sample_cluster = [s0, s1]" by (auto simp: numeral_2_eq_2 length_Suc_conv)
  have "sample_tune = s0" "sample_second = s1" unfolding sample_tune_def sample_second_def c by simp_all
  then show "sample_cluster = [sample_tune, sample_second]" "sh_Name sample_tune = ''tune''" "sh_Name sample_second = ''zeta''"
    using names unfolding c by simp_all
  show "s \<in> set sample_cluster \<Longrightarrow> \<not> sh_IsDisabled s \<and> \<not> sh_IsComplete s \<and> compartments s \<noteq> [] \<and>
     map cn_Name (sh_nodes s) = [''node1''] \<and> (\<exists>c. find_node s ''node1'' = Some c \<and> \<not> node_complete s c)"
    using b by (auto simp: built_as_expected_def e list_all_iff split: option.splits)
qed

theorem sequencing_no_deadlock_witness:
  "\<exists>t \<in> set sample_cluster. \<exists>c \<in> set (sh_nodes t). \<not> sh_IsDisabled t \<and> \<not> node_complete t c \<and>
     IsNodeReadyForSkyhook (cn_Name c) t sample_cluster"
proof -
  have "sample_tune \<in> set sample_cluster" by (simp add: sample_cluster_facts(2))
  then show ?thesis using sequencing_no_deadlock[of sample_tune sample_cluster] sample_cluster_facts(5) by blast
qed

theorem sequencing_exclusive_witness:
  "\<not> (IsNodeReadyForSkyhook ''node1'' sample_tune sample_cluster \<and> IsNodeReadyForSkyhook ''node1'' sample_second sample_cluster)"
proof -
  have m: "sample_tune \<in> set sample_cluster" "sample_second \<in> set sample_cluster" by (simp_all add: sample_cluster_facts(2))
  obtain c d where "find_node sample_tune ''node1'' = Some c" "\<not> node_complete sample_tune c"
    "find_node sample_second ''node1'' = Some d" "\<not> node_complete sample_second d"
    using sample_cluster_facts(5)[OF m(1)] sample_cluster_facts(5)[OF m(2)] by blast
  then show ?thesis
    using sequencing_exclusive[OF m] sample_cluster_facts(3,4) sample_cluster_facts(5)[OF m(1)] sample_cluster_facts(5)[OF m(2)]
    by simp
qed

theorem nodes_partitioned_witness:
  "\<exists>!k. \<exists>w. map_of (compartments sample_second) k = Some w \<and> ''node1'' \<in> set (w_Nodes w)"
proof -
  have m: "sample_second \<in> set sample_cluster" by (simp add: sample_cluster_facts(2))
  obtain c where "find_node sample_second ''node1'' = Some c" using sample_cluster_facts(5)[OF m] by blast
  from find_node_Some[OF this] show ?thesis
    using nodes_partitioned[OF sample_cluster_facts(1) _ m, of c] sample_cluster_facts(5)[OF m] by (auto simp: sample_node_def)
qed

theorem assign_safest_witness:
  "AssignNodeToCompartment sample_second (hd (sh_nodes sample_second)) = Inr ''gpu'' \<and>
   ''gpu'' \<in> (cp_Name \<circ> w_Compartment \<circ> snd) ` set (compartments sample_second)"
proof -
  have a: "AssignNodeToCompartment sample_second (hd (sh_nodes sample_second)) = Inr ''gpu''" by code_simp
  have "''gpu'' \<noteq> DefaultCompartmentName" by (simp add: DefaultCompartmentName_def)
  then show ?thesis using a assign_safest[OF a] by (auto simp: Let_def image_iff split: if_splits)
qed

theorem legacy_budget_kept_witness:
  "\<exists>s b. cp_Strategy (createLegacyDefaultCompartment (sample_spec []) 10) = Some s \<and>
     CalculateBatchSize s 10 sample_batch_state = Some b \<and> b \<le> 10 \<and> 1 \<le> b"
proof -
  have "counts_ok 10 sample_batch_state" by (simp add: sample_batch_state_def counts_ok_def)
  from legacy_budget_kept[OF this, of "sample_spec []"] show ?thesis
    by (auto simp: sample_spec_def legacy_limit_def sample_batch_state_def remaining_nodes_def)
qed

end
