(* ===== verification/Rollout.thy ===== *)
theory Rollout
  imports Cluster_State
begin

text \<open>
  The decisions of one reconcile pass on one NodeWright: the second half of
  \<open>operator/internal/controller/cluster_state_v2.go\<close>.

  The node picker selects the nodes that may run, the introspection moves the statuses of the nodes and of the
  resource, evaluates finished batches and prunes what is done, and the report writes the status columns.
  \<open>now\<close> is the clock.  Metrics and log lines are left out.
\<close>

section \<open>Conditions of the resource\<close>

definition sh_condition :: "int \<Rightarrow> skyhookNodes \<Rightarrow> string \<Rightarrow> string \<Rightarrow> string \<Rightarrow> string \<Rightarrow> Condition" where
  "sh_condition now s t status reason message =
     \<lparr>c_Type = t, c_Status = status, c_ObservedGeneration = Generation (sk_NodeWright (sh_skyhook s)),
      c_LastTransitionTime = now, c_Reason = reason, c_Message = message\<rparr>"

definition set_condition :: "int \<Rightarrow> string \<Rightarrow> string \<Rightarrow> string \<Rightarrow> string \<Rightarrow> skyhookNodes \<Rightarrow> skyhookNodes" where
  "set_condition now t status reason message s =
     put_skyhook (\<lambda>k. fst (AddSkyhookCondition now (sh_condition now s t status reason message) k)) s"

definition set_condition_legacy :: "int \<Rightarrow> string \<Rightarrow> string \<Rightarrow> string \<Rightarrow> string \<Rightarrow> skyhookNodes \<Rightarrow> skyhookNodes" where
  "set_condition_legacy now t status reason message s =
     put_skyhook (\<lambda>k. fst (AddSkyhookConditionWithLegacy now (sh_condition now s t status reason message) k)) s"

definition clear_condition :: "string \<Rightarrow> skyhookNodes \<Rightarrow> skyhookNodes" where
  "clear_condition t s = put_skyhook (\<lambda>k. fst (RemoveSkyhookConditionTypes [t] k)) s"

definition being_deleted :: "skyhookNodes \<Rightarrow> bool" where
  "being_deleted s \<longleftrightarrow> DeletionTimestamp (sk_NodeWright (sh_skyhook s)) \<noteq> None"

fun uninstall_work :: "bool \<Rightarrow> Packages \<Rightarrow> cnode list \<Rightarrow> node_error + bool" where
  "uninstall_work deleted pk [] = Inr False"
| "uninstall_work deleted pk (c # cs) =
     (case Node_State (cn_node c) of
        Inl e \<Rightarrow> Inl e
      | Inr ns \<Rightarrow>
          if list_ex (\<lambda>(k, p). IsUninstallCycleInProgress ns (GetUniqueName p) \<or>
                        (deleted \<and> UninstallEnabled p \<and> \<not> IsUninstalled ns (GetUniqueName p))) pk
          then Inr True else uninstall_work deleted pk cs)"

definition HasUninstallWork :: "skyhookNodes \<Rightarrow> node_error + bool" where
  "HasUninstallWork s =
     (let pk = spec_Packages (sh_Spec s)
      in if list_ex (\<lambda>(k, p). IsUninstalling p) pk then Inr True
         else uninstall_work (being_deleted s) pk (sh_nodes s))"

definition isPackageCompleteOnAllNodes :: "skyhookNodes \<Rightarrow> Package \<Rightarrow> bool" where
  "isPackageCompleteOnAllNodes s p \<longleftrightarrow>
     sh_nodes s \<noteq> [] \<and> list_all (\<lambda>c. Node_IsPackageComplete (sh_skyhook s) (cn_node c) p) (sh_nodes s)"

text \<open>The states that can be read.\<close>

definition readable_states :: "skyhookNodes \<Rightarrow> NodeState list" where
  "readable_states s =
     concat (map (\<lambda>c. case Node_State (cn_node c) of Inl _ \<Rightarrow> [] | Inr ns \<Rightarrow> [ns]) (sh_nodes s))"

record depState =
  inCycle :: bool
  dep_done :: bool

definition dep_state :: "skyhookNodes \<Rightarrow> Package \<Rightarrow> depState" where
  "dep_state s p =
     (let states = readable_states s; u = GetUniqueName p;
          hasUnreadableNode = (length states < length (sh_nodes s));
          cycle = list_ex (\<lambda>ns. IsUninstallCycleInProgress ns u) states;
          allAbsent = list_all (\<lambda>ns. ns_get ns u = None) states
      in \<lparr>inCycle = cycle,
          dep_done = (\<not> cycle \<and> IsUninstalling p \<and> allAbsent \<and> \<not> hasUnreadableNode \<and> states \<noteq> [])\<rparr>)"

definition blocked_messages :: "skyhookNodes \<Rightarrow> string list" where
  "blocked_messages s =
     (let pk = spec_Packages (sh_Spec s);
          depStates = fold (\<lambda>(k, p). gput (p_Name p) (dep_state s p)) pk []
      in concat (map (\<lambda>(bName, bPkg).
           if IsUninstalling bPkg \<or> isPackageCompleteOnAllNodes s bPkg then []
           else concat (map (\<lambda>depName.
             case map_of depStates depName of
               None \<Rightarrow> []
             | Some d \<Rightarrow>
                 if inCycle d then
                   [''package '' @ bName @ '' is blocked: dependency '' @ depName @ '' is being uninstalled'']
                 else if dep_done d then
                   [''package '' @ bName @ '' is blocked: dependency '' @ depName @ '' has been uninstalled'']
                 else []) (gkeys (p_DependsOn bPkg)))) pk))"

definition UpdateBlockedCondition :: "int \<Rightarrow> skyhookNodes \<Rightarrow> skyhookNodes" where
  "UpdateBlockedCondition now s =
     (let msgs = sort (blocked_messages s)
      in if msgs \<noteq> [] then set_condition now ''Blocked'' ''True'' ''DependencyUninstalled'' (join_with ''; '' msgs) s
         else clear_condition ''Blocked'' s)"

definition UpdateUninstallConditions :: "int \<Rightarrow> skyhookNodes \<Rightarrow> skyhookNodes" where
  "UpdateUninstallConditions now s =
     (let pk = spec_Packages (sh_Spec s); states = readable_states s;
          inProgress = list_ex (\<lambda>ns. list_ex (\<lambda>(k, p). IsUninstallCycleInProgress ns (GetUniqueName p)) pk) states;
          hasErrors = list_ex (\<lambda>ns. list_ex (\<lambda>(k, p). IsUninstallCycleInProgress ns (GetUniqueName p) \<and>
                        map_option ps_State (ns_get ns (GetUniqueName p)) = Some StateErroring) pk) states;
          s1 = (if inProgress
                then set_condition now ''UninstallInProgress'' ''True'' ''UninstallInProgress''
                       ''One or more packages are being uninstalled'' s
                else clear_condition ''UninstallInProgress'' s)
      in if hasErrors
         then set_condition now ''UninstallFailed'' ''True'' ''UninstallPodFailing''
                ''One or more uninstall pods are failing'' s1
         else clear_condition ''UninstallFailed'' s1)"

definition truncateNodeName :: "string \<Rightarrow> string" where
  "truncateNodeName name = (if length name \<le> 10 then name else take 10 name @ ''...'')"

definition UpdateNodeStateMalformedCondition :: "int \<Rightarrow> skyhookNodes \<Rightarrow> skyhookNodes" where
  "UpdateNodeStateMalformedCondition now s =
     (let badNodes = sort (map cn_Name (filter (\<lambda>c. case Node_State (cn_node c) of Inl _ \<Rightarrow> True | Inr _ \<Rightarrow> False) (sh_nodes s)))
      in if badNodes = [] then clear_condition ''NodeStateMalformed'' s
         else
           (let listed = take 5 badNodes; remainder = length badNodes - length listed;
                names = join_with '', '' (map truncateNodeName listed);
                nodeList = (if remainder > 0 then names @ '' and '' @ show_nat remainder @ '' more'' else names)
            in set_condition now ''NodeStateMalformed'' ''True'' ''ParseError''
                 (''nodeState annotation cannot be parsed on '' @ show_nat (length badNodes) @ '' node(s): '' @ nodeList) s))"

text \<open>The prior status is not empty: \<open>s.priorStatus != ""\<close>.\<close>

definition UpdateCondition_sh :: "int \<Rightarrow> skyhookNodes \<Rightarrow> skyhookNodes \<times> bool" where
  "UpdateCondition_sh now s =
     (let statuses = or_empty (st_NodeStatus (sk_Status (sh_skyhook s)));
          names = sort (map cn_Name (sh_nodes s));
          st = sh_Status s;
          ready = sh_condition now s ''Ready'' (if sh_IsComplete s then ''True'' else ''False'')
                    (SkyhookReadyConditionReason st) (SkyhookReadyConditionMessage statuses names);
          (k1, changed1) = AddSkyhookConditionWithLegacy now ready (sh_skyhook s);
          legacyMessage = (if status_string (priorStatus s) \<noteq> [] \<and> priorStatus s \<noteq> st
                           then ''Transitioned ['' @ status_string (priorStatus s) @ ''] -> ['' @ status_string st @ '']''
                           else c_Message ready);
          legacy = ready\<lparr>c_Type := LegacySkyhookConditionTransition,
                     c_Reason := (if status_string st = [] then ''unknown'' else status_string st),
                     c_Message := legacyMessage\<rparr>;
          (k2, changed2) = AddSkyhookConditionRefreshing now legacy k1
      in (s\<lparr>sh_skyhook := k2\<rparr>, changed2 \<or> changed1))"

section \<open>The node picker\<close>

record NodePicker =
  priorityNodes :: "(string, int) gomap"
  runtimeRequiredTolerations :: "Toleration list"

definition NewNodePicker :: "Toleration list \<Rightarrow> NodePicker" where
  "NewNodePicker tols = \<lparr>priorityNodes = [], runtimeRequiredTolerations = tols\<rparr>"

text \<open>The loop deletes the keys it visits.\<close>

definition pruneCompletedNodePriorities :: "skyhookNodes \<Rightarrow> skyhookNodes \<times> bool" where
  "pruneCompletedNodePriorities s =
     (let finished = filter (\<lambda>n. fst (sh_GetNode s n) = StatusComplete)
                       (gkeys (or_empty (NodePriority (sk_Status (sh_skyhook s)))))
      in (put_skyhook (fold RemoveNodePriority finished) s, finished \<noteq> []))"

definition primeAndPruneNodes :: "NodePicker \<Rightarrow> skyhookNodes \<Rightarrow> NodePicker \<times> skyhookNodes" where
  "primeAndPruneNodes np s =
     (let s1 = fst (pruneCompletedNodePriorities s)
      in (np\<lparr>priorityNodes := fold (\<lambda>(n, t). gput n t) (or_empty (NodePriority (sk_Status (sh_skyhook s1)))) (priorityNodes np)\<rparr>, s1))"

definition upsertPick :: "int \<Rightarrow> string \<Rightarrow> NodePicker \<times> skyhookNodes \<Rightarrow> NodePicker \<times> skyhookNodes" where
  "upsertPick now name x =
     (let (np, s) = x; prio = or_empty (NodePriority (sk_Status (sh_skyhook s)))
      in case map_of prio name of
           Some t \<Rightarrow> (np\<lparr>priorityNodes := gput name t (priorityNodes np)\<rparr>,
                       put_skyhook (put_status (\<lambda>st. st\<lparr>NodePriority := Some prio\<rparr>)) s)
         | None \<Rightarrow> (np\<lparr>priorityNodes := gput name now (priorityNodes np)\<rparr>,
                    put_skyhook (\<lambda>k. touch (put_status (\<lambda>st. st\<lparr>NodePriority := Some (gput name now prio)\<rparr>) k)) s))"

text \<open>\<open>ToleratesTaint\<close> of the Kubernetes API with the comparison operators off.\<close>

definition ToleratesTaint :: "Toleration \<Rightarrow> Taint \<Rightarrow> bool" where
  "ToleratesTaint t taint \<longleftrightarrow>
     (tol_Effect t = [] \<or> tol_Effect t = t_Effect taint) \<and>
     (tol_Key t = [] \<or> tol_Key t = t_Key taint) \<and>
     (if tol_Operator t \<in> {[], ''Equal''} then tol_Value t = t_Value taint else tol_Operator t = ''Exists'')"

definition CheckTaintToleration :: "Toleration list \<Rightarrow> Taint list \<Rightarrow> bool" where
  "CheckTaintToleration tols taints = list_all (\<lambda>taint. list_ex (\<lambda>t. ToleratesTaint t taint) tols) taints"

definition CheckNodeIgnoreLabel :: "skyhookNode \<Rightarrow> bool" where
  "CheckNodeIgnoreLabel node \<longleftrightarrow> map_of (n_Labels (sn_Node node)) (METADATA_PREFIX @ ''/ignore'') = Some ''true''"

text \<open>
  The scan of one node.  Setting the status leaves completeness and labels other than the status label alone,
  so both tests read the node as it was.
\<close>

definition scan_node ::
  "Toleration list \<Rightarrow> string \<Rightarrow> skyhookNodes \<times> string list \<times> string list \<Rightarrow> skyhookNodes \<times> string list \<times> string list" where
  "scan_node tols name x =
     (let (s, tainted, ignored) = x
      in case find_node s name of
           None \<Rightarrow> x
         | Some c \<Rightarrow>
             (let bad = \<not> CheckTaintToleration tols (n_Taints (sn_Node (cn_node c)));
                  ign = CheckNodeIgnoreLabel (cn_node c);
                  block = (\<lambda>b. if b \<and> \<not> node_complete s c then set_node_status StatusBlocked name else id)
              in (block ign (block bad s),
                  if bad then tainted @ [name] else tainted,
                  if ign then ignored @ [name] else ignored)))"

definition node_list_message :: "string list \<Rightarrow> string \<Rightarrow> string \<Rightarrow> string" where
  "node_list_message names one many =
     (if length names > 10 then show_nat (length names) @ many
      else ''Node ['' @ join_with '', '' names @ one)"

definition updateTaintToleranceCondition :: "int \<Rightarrow> string list \<Rightarrow> skyhookNodes \<Rightarrow> skyhookNodes" where
  "updateTaintToleranceCondition now names s =
     (if names \<noteq> []
      then set_condition_legacy now ''TaintNotTolerable'' ''True'' ''TaintNotTolerable''
             (node_list_message names ''] has taints that are not tolerable. Skipping.'' '' nodes have taints that are not tolerable. Skipping.'') s
      else set_condition_legacy now ''TaintNotTolerable'' ''False'' ''TaintNotTolerable'' ''All nodes have tolerable taints.'' s)"

definition updateIgnoredNodesCondition :: "int \<Rightarrow> string list \<Rightarrow> skyhookNodes \<Rightarrow> skyhookNodes" where
  "updateIgnoredNodesCondition now names s =
     (if names \<noteq> []
      then set_condition_legacy now ''NodesIgnored'' ''True'' ''NodesIgnored''
             (node_list_message names ''] has ignore label set. Skipping.'' '' nodes have ignore label set. Skipping.'') s
      else set_condition_legacy now ''NodesIgnored'' ''False'' ''NodesIgnored'' ''No nodes have ignore label set.'' s)"

definition may_run :: "Toleration list \<Rightarrow> skyhookNode \<Rightarrow> bool" where
  "may_run tols node \<longleftrightarrow> \<not> CheckNodeIgnoreLabel node \<and> CheckTaintToleration tols (n_Taints (sn_Node node))"

text \<open>\<open>None\<close> is the panic of a strategy with a missing field.\<close>

fun pick_batches ::
  "int \<Rightarrow> Toleration list \<Rightarrow> string wCompartment list \<Rightarrow> NodePicker \<times> skyhookNodes \<Rightarrow> string list \<Rightarrow>
   (NodePicker \<times> skyhookNodes \<times> string list) option" where
  "pick_batches now tols [] x selected = Some (fst x, snd x, selected)"
| "pick_batches now tols (w # ws) x selected =
     (case GetNodesForNextBatch (sh_skyhook (snd x)) (Some (may_run tols)) (deref (snd x) w) of
        None \<Rightarrow> None
      | Some ns \<Rightarrow>
          (let names = map (n_Name \<circ> sn_Node) ns
           in pick_batches now tols ws (fold (upsertPick now) names x) (selected @ names)))"

definition selectNodesWithCompartments ::
  "int \<Rightarrow> Toleration list \<Rightarrow> NodePicker \<times> skyhookNodes \<Rightarrow> (NodePicker \<times> skyhookNodes \<times> string list) option" where
  "selectNodesWithCompartments now tols x =
     (let (np, s) = x;
          (s1, tainted, ignored) = fold (scan_node tols) (concat (map (w_Nodes \<circ> snd) (compartments s))) (s, [], [])
      in map_option (\<lambda>(np2, s2, selected).
             (np2, updateIgnoredNodesCondition now (sort ignored) (updateTaintToleranceCondition now (sort tainted) s2), selected))
           (pick_batches now tols (map snd (compartments s1)) (np, s1) []))"

definition pick_tolerations :: "NodePicker \<Rightarrow> NodeWrightSpec \<Rightarrow> Toleration list" where
  "pick_tolerations np spec =
     [\<lparr>tol_Key = ''node.kubernetes.io/unschedulable'', tol_Operator = ''Exists'', tol_Value = [], tol_Effect = ''NoSchedule''\<rparr>]
     @ AdditionalTolerations spec @ (if RuntimeRequired spec then runtimeRequiredTolerations np else [])"

definition SelectNodes :: "int \<Rightarrow> NodePicker \<Rightarrow> skyhookNodes \<Rightarrow> (NodePicker \<times> skyhookNodes \<times> string list) option" where
  "SelectNodes now np s =
     (let (np1, s1) = primeAndPruneNodes np s
      in selectNodesWithCompartments now (pick_tolerations np1 (sh_Spec s1)) (np1, s1))"

section \<open>Compartment statuses\<close>

definition buildCompartmentStatus :: "Skyhook \<Rightarrow> skyhookNode wCompartment \<Rightarrow> CompartmentStatus" where
  "buildCompartmentStatus sk c =
     (let matched = int (length (w_Nodes c)); completed = count_nodes (Node_IsComplete sk) c
      in \<lparr>cs_Matched = matched, cs_Ceiling = CalculateCeiling (cp_Budget (w_Compartment c)) matched,
          cs_InProgress = count_nodes (\<lambda>n. Node_Status n = StatusInProgress) c, cs_Completed = completed,
          cs_ProgressPercent = (if matched > 0 then wrap64 (wrap64 (completed * 100) sdiv matched) else 0),
          cs_BatchState = (if cp_Strategy (w_Compartment c) \<noteq> None then Some (w_BatchState c) else None)\<rparr>)"

definition compartmentStatusEqual :: "CompartmentStatus \<Rightarrow> CompartmentStatus \<Rightarrow> bool" where
  "compartmentStatusEqual a b \<longleftrightarrow>
     cs_Matched a = cs_Matched b \<and> cs_Ceiling a = cs_Ceiling b \<and> cs_InProgress a = cs_InProgress b \<and>
     cs_Completed a = cs_Completed b \<and> cs_ProgressPercent a = cs_ProgressPercent b \<and>
     cs_BatchState a = cs_BatchState b"

definition put_compartment_status :: "string \<Rightarrow> CompartmentStatus \<Rightarrow> Skyhook \<Rightarrow> Skyhook" where
  "put_compartment_status name cs k =
     touch (put_status (\<lambda>st. st\<lparr>CompartmentStatuses := Some (gput name cs (or_empty (CompartmentStatuses st)))\<rparr>) k)"

definition updateCompartmentStatuses :: "skyhookNodes \<Rightarrow> skyhookNodes" where
  "updateCompartmentStatuses s =
     (if compartments s = [] then s
      else
        put_skyhook (fold (\<lambda>(name, w) k.
            let newStatus = buildCompartmentStatus (sh_skyhook s) (deref s w)
            in case map_of (or_empty (CompartmentStatuses (sk_Status k))) name of
                 Some existing \<Rightarrow> if compartmentStatusEqual existing newStatus then k else put_compartment_status name newStatus k
               | None \<Rightarrow> put_compartment_status name newStatus k) (compartments s))
          (put_skyhook (put_status (\<lambda>st. st\<lparr>CompartmentStatuses := Some (or_empty (CompartmentStatuses st))\<rparr>)) s))"

definition cleanupStaleCompartmentStatuses :: "skyhookNodes \<Rightarrow> skyhookNodes" where
  "cleanupStaleCompartmentStatuses s =
     (case CompartmentStatuses (sk_Status (sh_skyhook s)) of
        None \<Rightarrow> s
      | Some m \<Rightarrow>
          (let kept = filter (\<lambda>(n, _). map_of (compartments s) n \<noteq> None) m
           in if length kept < length m
              then put_skyhook (\<lambda>k. touch (put_status (\<lambda>st. st\<lparr>CompartmentStatuses := Some kept\<rparr>) k)) s
              else s))"

section \<open>Evaluating finished batches\<close>

text \<open>
  One compartment: the evaluation may move its counters even where the batch is not evaluated further.  The
  result says whether the resource was changed.
\<close>

definition evaluate_compartment ::
  "Skyhook \<Rightarrow> skyhookNode wCompartment \<Rightarrow> skyhookNode wCompartment \<times> CompartmentStatus option" where
  "evaluate_compartment sk c =
     (let (c1, isComplete, successCount, failureCount) = EvaluateCurrentBatch sk c
      in if \<not> isComplete then (c1, None)
         else
           (let batchSize = wrap64 (successCount + failureCount);
                blockedCount = count_nodes (\<lambda>n. Node_Status n = StatusBlocked) c1
            in if batchSize = 0 \<and> blockedCount > 0 \<and> blockedCount = int (length (w_Nodes c1)) then (c1, None)
               else
                 (let batchSize1 = (if batchSize = 0
                                    then (if blockedCount > 0 then blockedCount
                                          else if LastBatchSize (w_BatchState c1) > 0 then LastBatchSize (w_BatchState c1)
                                          else batchSize)
                                    else batchSize)
                  in if batchSize1 > 0 \<and> successCount = 0 \<and> failureCount = 0 \<and> blockedCount = batchSize1 then (c1, None)
                     else
                       (let c2 = EvaluateAndUpdateBatchState batchSize1 successCount failureCount c1
                        in (c2, Some (buildCompartmentStatus sk c2))))))"

definition evaluate_step :: "string \<times> string wCompartment \<Rightarrow> skyhookNodes \<times> bool \<Rightarrow> skyhookNodes \<times> bool" where
  "evaluate_step nw x =
     (let (name, w) = nw; (s, changed) = x;
          (c, status) = evaluate_compartment (sh_skyhook s) (deref s w);
          s1 = s\<lparr>compartments := map (\<lambda>(n, w'). (n, if n = name then w'\<lparr>w_BatchState := w_BatchState c\<rparr> else w')) (compartments s)\<rparr>
      in case status of
           None \<Rightarrow> (s1, changed)
         | Some cs \<Rightarrow> (put_skyhook (put_compartment_status (cp_Name (w_Compartment w)) cs) s1, True))"

definition evaluateCompletedBatches :: "skyhookNodes \<Rightarrow> skyhookNodes \<times> bool" where
  "evaluateCompletedBatches s =
     (if compartments s = [] \<or> sh_Status s = StatusComplete then (s, False)
      else fold evaluate_step (compartments s) (s, False))"

section \<open>Introspection\<close>

definition isSkyhookControlledNodeStatus :: "Status \<Rightarrow> bool" where
  "isSkyhookControlledNodeStatus st \<longleftrightarrow> st = StatusDisabled \<or> st = StatusPaused \<or> st = StatusWaiting"

text \<open>Whether the node wrapper was changed, as \<open>Changed\<close> reports it.\<close>

definition node_changed :: "skyhookNodes \<Rightarrow> string \<Rightarrow> bool" where
  "node_changed s name = (case find_node s name of None \<Rightarrow> False | Some c \<Rightarrow> sn_updated (cn_node c))"

text \<open>The status the node ends with; \<open>None\<close> where the branch sets none.\<close>

definition introspected_status :: "skyhookNodes \<Rightarrow> skyhookNodes list \<Rightarrow> cnode \<Rightarrow> Status option" where
  "introspected_status s allSkyhooks c =
     (let skyhookStatus = sh_Status s; nodeStatus = Node_Status (cn_node c); complete = node_complete s c;
          waiting = (if compartments s \<noteq> [] then StatusWaiting else StatusUnknown)
      in if skyhookStatus = StatusDisabled \<or> skyhookStatus = StatusPaused then
           (if nodeStatus \<noteq> skyhookStatus then Some skyhookStatus else None)
         else if \<not> complete \<and> CheckNodeIgnoreLabel (cn_node c) then Some StatusBlocked
         else if \<not> complete \<and> skyhookStatus \<noteq> StatusWaiting \<and> \<not> IsNodeReadyForSkyhook (cn_Name c) s allSkyhooks then
           (if nodeStatus \<noteq> StatusWaiting then Some StatusWaiting else None)
         else if isSkyhookControlledNodeStatus nodeStatus then
           Some (if complete then StatusComplete else waiting)
         else if nodeStatus \<noteq> StatusComplete \<and> complete then Some StatusComplete
         else if nodeStatus = StatusComplete \<and> \<not> complete then Some StatusUnknown
         else if nodeStatus = StatusUnknown \<and> \<not> complete \<and> compartments s \<noteq> [] then Some StatusWaiting
         else None)"

definition IntrospectNode :: "string \<Rightarrow> skyhookNodes list \<Rightarrow> skyhookNodes \<Rightarrow> skyhookNodes \<times> bool" where
  "IntrospectNode name allSkyhooks s =
     (case find_node s name of
        None \<Rightarrow> (s, False)
      | Some c \<Rightarrow>
          (let s1 = set_node_status (Node_Status (cn_node c)) name s;
               s2 = (case introspected_status s allSkyhooks c of None \<Rightarrow> s1 | Some st \<Rightarrow> set_node_status st name s1)
           in (s2, node_changed s2 name)))"

definition controlled_status :: "skyhookNodes \<Rightarrow> skyhookNodes list \<Rightarrow> Status" where
  "controlled_status s allSkyhooks =
     (let collected = CollectNodeStatus s;
          hasMissingPolicy = HasTrueSkyhookCondition [''DeploymentPolicyNotFound''] (sh_skyhook s)
      in if collected \<noteq> StatusComplete then
           (if sh_IsDisabled s then StatusDisabled
            else if sh_IsPaused s then StatusPaused
            else if hasMissingPolicy then StatusBlocked
            else if isBlockedByGlobalPredecessor s allSkyhooks then StatusWaiting
            else collected)
         else if hasMissingPolicy then StatusBlocked else collected)"

definition IntrospectSkyhook :: "int \<Rightarrow> skyhookNodes list \<Rightarrow> skyhookNodes \<Rightarrow> skyhookNodes \<times> bool" where
  "IntrospectSkyhook now allSkyhooks s =
     (let st = controlled_status s allSkyhooks;
          s1 = (if sh_Status s \<noteq> st then sh_SetStatus st s else s);
          (s2, change2) = fold (\<lambda>name (x, change). let (x', ch) = IntrospectNode name allSkyhooks x in (x', change \<or> ch))
                            (map cn_Name (sh_nodes s1)) (s1, False);
          (s3, change3) = pruneCompletedNodePriorities s2;
          (s4, change4) = evaluateCompletedBatches s3;
          (s5, _) = UpdateCondition_sh now s4
      in (s5, change2 \<or> change3 \<or> change4 \<or> Updated (sh_skyhook s5)))"

definition UpdateSkyhookPauseStatus :: "int \<Rightarrow> skyhookNodes \<Rightarrow> skyhookNodes \<times> bool" where
  "UpdateSkyhookPauseStatus now s =
     (if \<not> sh_IsPaused s then (s, False)
      else
        (let s1 = (if sh_Status s \<noteq> StatusPaused then sh_SetStatus StatusPaused s else s);
             running = filter (\<lambda>c. Node_Status (cn_node c) \<noteq> StatusPaused) (sh_nodes s1);
             s2 = fold (set_node_status StatusPaused) (map cn_Name running) s1;
             (s3, changed) = UpdateCondition_sh now s2
         in (s3, sh_Status s \<noteq> StatusPaused \<or> running \<noteq> [] \<or> changed)))"

section \<open>Report\<close>

definition cleanupNodeMap :: "(string, 'a) gomap option \<Rightarrow> string list \<Rightarrow> (string, 'a) gomap option \<times> bool" where
  "cleanupNodeMap m current =
     (case m of
        None \<Rightarrow> (None, False)
      | Some e \<Rightarrow> (let kept = filter (\<lambda>(n, _). n \<in> set current) e in (Some kept, length kept < length e)))"

definition CleanupRemovedNodes :: "skyhookNodes \<Rightarrow> skyhookNodes" where
  "CleanupRemovedNodes s =
     (let current = map cn_Name (sh_nodes s);
          removed = filter (\<lambda>n. n \<notin> set current) (gkeys (or_empty (NodePriority (sk_Status (sh_skyhook s)))));
          k = fold RemoveNodePriority removed (sh_skyhook s);
          (states, c1) = cleanupNodeMap (st_NodeState (sk_Status k)) current;
          (statuses, c2) = cleanupNodeMap (st_NodeStatus (sk_Status k)) current;
          (boots, c3) = cleanupNodeMap (NodeBootIds (sk_Status k)) current;
          k1 = put_status (\<lambda>st. st\<lparr>st_NodeState := states, st_NodeStatus := statuses, NodeBootIds := boots\<rparr>) k
      in s\<lparr>sh_skyhook := (if c1 \<or> c2 \<or> c3 then touch k1 else k1)\<rparr>)"

definition nodes_with :: "skyhookNodes \<Rightarrow> Status \<Rightarrow> nat" where
  "nodes_with s st = length (filter (\<lambda>c. Node_Status (cn_node c) = st) (sh_nodes s))"

definition ReportState :: "skyhookNodes \<Rightarrow> skyhookNodes" where
  "ReportState s0 =
     (let s = cleanupStaleCompartmentStatuses (updateCompartmentStatuses (CleanupRemovedNodes s0));
          complete = show_nat (nodes_with s StatusComplete) @ ''/'' @ show_nat (length (sh_nodes s));
          s1 = (if complete \<noteq> CompleteNodes (sk_Status (sh_skyhook s)) then put_skyhook (SetCompleteNodes complete) s else s);
          inProgress = int (nodes_with s StatusInProgress + nodes_with s StatusErroring);
          s2 = (if NodesInProgress (sk_Status (sh_skyhook s1)) \<noteq> inProgress then put_skyhook (SetNodesInProgress inProgress) s1 else s1);
          packages = join_with '','' (sort (map (\<lambda>(k, p). p_Name p @ '':'' @ p_Version p) (spec_Packages (sh_Spec s))))
      in if packages \<noteq> PackageList (sk_Status (sh_skyhook s2)) then put_skyhook (SetPackageList packages) s2 else s2)"

section \<open>Setting the status of a node\<close>

lemma known_status [simp]: "st \<in> set Statuses \<Longrightarrow> GetStatus (status_string st) = st"
  by (auto simp: Statuses_def GetStatus_def)

lemma Node_Status_known [simp]: "Node_Status node \<in> set Statuses"
  by (simp add: Node_Status_def GetStatus_def Statuses_def split: option.split)

lemma status_key_not_cordon: "status_key node \<noteq> cordonAnnotationKey name"
  by (simp add: status_key_def cordonAnnotationKey_def meta_key_def)

lemma Uncordon_sel [simp]:
  "nodeState (Uncordon node) = nodeState node" "skyhookName (Uncordon node) = skyhookName node"
  "n_Name (sn_Node (Uncordon node)) = n_Name (sn_Node node)" "n_Labels (sn_Node (Uncordon node)) = n_Labels (sn_Node node)"
  "n_Taints (sn_Node (Uncordon node)) = n_Taints (sn_Node node)" "sn_graph (Uncordon node) = sn_graph node"
  by (simp_all add: Uncordon_def Let_def del_annotation_def mark_def)

lemma Uncordon_status [simp]: "Node_Status (Uncordon node) = Node_Status node"
proof -
  have "status_key node = status_key (Uncordon node)" by (simp add: status_key_def)
  moreover have "annotation (Uncordon node) (status_key node) = annotation node (status_key node)"
    using status_key_not_cordon[of node] by (auto simp: Uncordon_def Let_def annotation_def del_annotation_def)
  ultimately show ?thesis by (simp add: Node_Status_def)
qed

lemma SetNode_sel [simp]:
  "sk_Spec (SetNodeStatus n st k) = sk_Spec k" "sk_Spec (SetNodeState n ns k) = sk_Spec k"
  "ConfigUpdates (sk_Status (SetNodeStatus n st k)) = ConfigUpdates (sk_Status k)"
  "ConfigUpdates (sk_Status (SetNodeState n ns k)) = ConfigUpdates (sk_Status k)"
  "st_Status (sk_Status (SetNodeStatus n st k)) = st_Status (sk_Status k)"
  "st_Status (sk_Status (SetNodeState n ns k)) = st_Status (sk_Status k)"
  "nw_Annotations (sk_NodeWright (SetNodeStatus n st k)) = nw_Annotations (sk_NodeWright k)"
  "nw_Annotations (sk_NodeWright (SetNodeState n ns k)) = nw_Annotations (sk_NodeWright k)"
  "NodePriority (sk_Status (SetNodeStatus n st k)) = NodePriority (sk_Status k)"
  "NodePriority (sk_Status (SetNodeState n ns k)) = NodePriority (sk_Status k)"
  "nw_Name (sk_NodeWright (SetNodeStatus n st k)) = nw_Name (sk_NodeWright k)"
  "nw_Name (sk_NodeWright (SetNodeState n ns k)) = nw_Name (sk_NodeWright k)"
  by (simp_all add: SetNodeStatus_def SetNodeState_def Let_def put_status_def split: option.split)

text \<open>
  What decides whether a node is complete, the packages and the pending config updates of the resource, with
  its name and status.
\<close>

definition same_work :: "Skyhook \<Rightarrow> Skyhook \<Rightarrow> bool" where
  "same_work k k' \<longleftrightarrow> sk_Spec k = sk_Spec k' \<and> ConfigUpdates (sk_Status k) = ConfigUpdates (sk_Status k') \<and>
     st_Status (sk_Status k) = st_Status (sk_Status k') \<and> nw_Name (sk_NodeWright k) = nw_Name (sk_NodeWright k')"

lemma same_work_complete:
  assumes "same_work k k'" and "nodeState n = nodeState n'"
  shows "Node_IsComplete k n = Node_IsComplete k' n'"
proof -
  have "GetConfigUpdates k = GetConfigUpdates k'" "GetConfigInterrupts k = GetConfigInterrupts k'"
    using assms(1) by (simp_all add: same_work_def GetConfigUpdates_def GetConfigInterrupts_def)
  then show ?thesis using assms by (simp add: Node_IsComplete_def same_work_def)
qed

lemma same_work_refl [simp]: "same_work k k" and same_work_trans: "same_work a b \<Longrightarrow> same_work b c \<Longrightarrow> same_work a c"
  by (simp_all add: same_work_def)

lemma Node_SetStatus_node:
  assumes "Node_SetStatus st (node, sk) = (node', sk')"
  shows "nodeState node' = nodeState node" and "skyhookName node' = skyhookName node"
    and "n_Name (sn_Node node') = n_Name (sn_Node node)" and "n_Taints (sn_Node node') = n_Taints (sn_Node node)"
    and "x \<noteq> status_key node \<Longrightarrow> map_of (n_Labels (sn_Node node')) x = map_of (n_Labels (sn_Node node)) x"
    and "st \<in> set Statuses \<Longrightarrow> Node_Status node' = st"
    and "sk' = map_option (\<lambda>k. SetNodeState (n_Name (sn_Node node')) (nodeState node') (SetNodeStatus (n_Name (sn_Node node')) st k)) sk"
proof -
  let ?s = "status_string st"
  define n1 where "n1 = (if annotation node (status_key node) \<noteq> Some ?s
     then mark (put_node (\<lambda>n. n\<lparr>n_Labels := gput (status_key node) ?s (n_Labels n)\<rparr>) (put_annotation (status_key node) ?s node))
     else node)"
  define n2 where "n2 = (if st = StatusComplete then Uncordon n1 else n1)"
  have "Node_SetStatus st (node, sk) =
      (n2, map_option (\<lambda>k. SetNodeState (n_Name (sn_Node n2)) (nodeState n2) (SetNodeStatus (n_Name (sn_Node n2)) st k)) sk)"
    by (simp only: Node_SetStatus_def Let_def prod.case n1_def n2_def)
  then have eqs: "node' = n2" "sk' = map_option (\<lambda>k. SetNodeState (n_Name (sn_Node n2)) (nodeState n2) (SetNodeStatus (n_Name (sn_Node n2)) st k)) sk"
    using assms by simp_all
  then have n': "node' = (if st = StatusComplete then Uncordon n1 else n1)" by (simp add: n2_def)
  have n1: "nodeState n1 = nodeState node" "skyhookName n1 = skyhookName node" "n_Name (sn_Node n1) = n_Name (sn_Node node)"
    "n_Taints (sn_Node n1) = n_Taints (sn_Node node)" "annotation n1 (status_key node) = Some ?s"
    by (simp_all add: n1_def put_annotation_def annotation_def)
  show "nodeState node' = nodeState node" "skyhookName node' = skyhookName node"
    "n_Name (sn_Node node') = n_Name (sn_Node node)" "n_Taints (sn_Node node') = n_Taints (sn_Node node)"
    using n1 by (simp_all add: n')
  show "map_of (n_Labels (sn_Node node')) x = map_of (n_Labels (sn_Node node)) x" if "x \<noteq> status_key node"
    using that by (simp add: n' n1_def put_annotation_def)
  show "Node_Status node' = st" if "st \<in> set Statuses"
  proof -
    have "status_key n1 = status_key node" using n1(2) by (simp add: status_key_def)
    then have "Node_Status n1 = st" using n1(5) known_status[OF that] by (simp add: Node_Status_def)
    then show ?thesis by (simp add: n')
  qed
  show "sk' = map_option (\<lambda>k. SetNodeState (n_Name (sn_Node node')) (nodeState node') (SetNodeStatus (n_Name (sn_Node node')) st k)) sk"
    using eqs by simp
qed

section \<open>What setting a status leaves alone\<close>

definition same_node :: "cnode \<Rightarrow> cnode \<Rightarrow> bool" where
  "same_node c c' \<longleftrightarrow> cn_Name c = cn_Name c' \<and> nodeState (cn_node c) = nodeState (cn_node c') \<and>
     n_Taints (sn_Node (cn_node c)) = n_Taints (sn_Node (cn_node c')) \<and>
     CheckNodeIgnoreLabel (cn_node c) = CheckNodeIgnoreLabel (cn_node c')"

text \<open>Two states of a NodeWright that differ only in statuses of nodes, flags and conditions.\<close>

definition framed :: "skyhookNodes \<Rightarrow> skyhookNodes \<Rightarrow> bool" where
  "framed s s' \<longleftrightarrow>
     same_work (sh_skyhook s) (sh_skyhook s') \<and>
     compartments s = compartments s' \<and> map cn_Name (sh_nodes s) = map cn_Name (sh_nodes s') \<and> (\<forall>x. rel_option same_node (find_node s x) (find_node s' x))"

lemma framed_refl [simp]: "framed s s"
  by (simp add: framed_def same_node_def option.rel_refl)

lemma framed_find: "framed s s' \<Longrightarrow> find_node s x = Some c \<Longrightarrow> \<exists>c'. find_node s' x = Some c' \<and> same_node c c'"
  unfolding framed_def by (metis option_rel_Some1)

lemma framed_find_None: "framed s s' \<Longrightarrow> find_node s' x = None \<longleftrightarrow> find_node s x = None"
  unfolding framed_def by (metis rel_option_None1 rel_option_None2)

lemma framed_trans:
  assumes "framed s t" and "framed t u"
  shows "framed s u"
proof -
  have "rel_option same_node (find_node s x) (find_node u x)" for x
  proof (cases "find_node s x")
    case None
    then show ?thesis using framed_find_None[OF assms(1)] framed_find_None[OF assms(2)] by simp
  next
    case (Some b)
    then obtain c d where "same_node b c" "find_node u x = Some d" "same_node c d"
      using framed_find[OF assms(1)] framed_find[OF assms(2)] by blast
    then show ?thesis using Some by (simp add: same_node_def)
  qed
  then show ?thesis using assms same_work_trans[of "sh_skyhook s" "sh_skyhook t"] unfolding framed_def by simp
qed

lemma framed_complete: "framed s s' \<Longrightarrow> same_node c c' \<Longrightarrow> node_complete s c = node_complete s' c'"
  by (simp add: node_complete_def same_work_complete framed_def same_node_def)

lemma find_map_replace:
  assumes "f new = name"
  shows "List.find (\<lambda>c. f c = x) (map (\<lambda>c. if f c = name then new else c) cs) =
     (if x = name \<and> List.find (\<lambda>c. f c = x) cs \<noteq> None then Some new else List.find (\<lambda>c. f c = x) cs)"
  using assms by (induction cs) auto

definition status_of :: "skyhookNodes \<Rightarrow> string \<Rightarrow> Status option" where
  "status_of s x = map_option (Node_Status \<circ> cn_node) (find_node s x)"

lemma set_node_status_framed:
  shows "framed s (set_node_status st name s)"
    and "st \<in> set Statuses \<Longrightarrow> status_of (set_node_status st name s) x =
      (if x = name \<and> find_node s name \<noteq> None then Some st else status_of s x)"
proof -
  let ?s' = "set_node_status st name s"
  have "framed s ?s' \<and> (st \<in> set Statuses \<longrightarrow> status_of ?s' x =
      (if x = name \<and> find_node s name \<noteq> None then Some st else status_of s x))"
  proof (cases "find_node s name")
    case None
    then show ?thesis by (simp add: set_node_status_def on_node_def)
  next
    case (Some c)
    let ?k = "(sh_skyhook s)\<lparr>Updated := cn_Updated c\<rparr>"
    obtain node sk where run: "Node_SetStatus st (cn_node c, Some ?k) = (node, sk)" by fastforce
    note n = Node_SetStatus_node[OF run]
    have name: "cn_Name c = name" using find_node_Some[OF Some] by simp
    obtain k where k: "sk = Some k" "sk_Spec k = sh_Spec s" "ConfigUpdates (sk_Status k) = ConfigUpdates (sk_Status (sh_skyhook s))"
      "st_Status (sk_Status k) = sh_Status s" "nw_Name (sk_NodeWright k) = sh_Name s"
      using n(7) by (simp add: sh_Status_def)
    let ?new = "\<lparr>cn_node = node, cn_Updated = Updated k\<rparr>"
    have s': "?s' = s\<lparr>sh_skyhook := (sh_skyhook s)\<lparr>sk_NodeWright := sk_NodeWright k\<rparr>,
        sh_nodes := map (\<lambda>c'. if cn_Name c' = name then ?new else c') (sh_nodes s)\<rparr>"
      using Some run k(1) by (simp add: set_node_status_def on_node_def)
    have nn: "cn_Name ?new = name" using n(3) name by simp
    have find: "find_node ?s' y = (if y = name then Some ?new else find_node s y)" for y
      using find_map_replace[of cn_Name ?new name y "sh_nodes s"] nn Some by (auto simp: s' find_node_def)
    have "status_key (cn_node c) \<noteq> METADATA_PREFIX @ ''/ignore''" by (simp add: status_key_def meta_key_def)
    then have "same_node c ?new" using n(1,3,4) n(5)[of "METADATA_PREFIX @ ''/ignore''"]
      by (simp add: same_node_def CheckNodeIgnoreLabel_def)
    then have "rel_option same_node (find_node s y) (find_node ?s' y)" for y
      using Some by (auto simp: find option.rel_refl same_node_def)
    moreover have "map cn_Name (sh_nodes s) = map cn_Name (sh_nodes ?s')" using nn by (simp add: s')
    ultimately have "framed s ?s'"
      using k by (auto simp: framed_def same_work_def s' sh_Status_def)
    moreover have "status_of ?s' x = (if x = name then Some st else status_of s x)" if "st \<in> set Statuses"
      using n(6)[OF that] by (simp add: status_of_def find)
    ultimately show ?thesis using Some by simp
  qed
  then show "framed s ?s'" "st \<in> set Statuses \<Longrightarrow> status_of ?s' x =
      (if x = name \<and> find_node s name \<noteq> None then Some st else status_of s x)" by auto
qed

section \<open>Completeness and status\<close>

definition complete_of :: "skyhookNodes \<Rightarrow> string \<Rightarrow> bool option" where
  "complete_of s x = map_option (node_complete s) (find_node s x)"

text \<open>The status of a node says complete exactly when the node is.\<close>

definition status_agrees :: "skyhookNodes \<Rightarrow> string \<Rightarrow> bool" where
  "status_agrees s x \<longleftrightarrow> (status_of s x = Some StatusComplete \<longleftrightarrow> complete_of s x = Some True)"

lemma framed_complete_of: "framed s s' \<Longrightarrow> complete_of s' x = complete_of s x"
  using framed_find[of s s' x] framed_find_None[of s s' x]
  by (cases "find_node s x") (auto simp: complete_of_def framed_complete)

lemma framed_Status: "framed s s' \<Longrightarrow> sh_Status s' = sh_Status s"
  by (simp add: framed_def same_work_def sh_Status_def)

lemma introspected_known: "introspected_status s all c = Some st \<Longrightarrow> st \<in> set Statuses"
  by (auto simp: introspected_status_def Let_def Statuses_def split: if_splits)

lemma introspected_agrees:
  assumes "sh_Status s \<noteq> StatusDisabled" and "sh_Status s \<noteq> StatusPaused"
  shows "(case introspected_status s all c of None \<Rightarrow> Node_Status (cn_node c) | Some st \<Rightarrow> st) = StatusComplete \<longleftrightarrow>
     node_complete s c"
  using assms by (auto simp: introspected_status_def Let_def isSkyhookControlledNodeStatus_def)

lemma IntrospectNode_steps:
  assumes "find_node s name = Some c"
  shows "framed s (fst (IntrospectNode name all s))"
    and "status_of (fst (IntrospectNode name all s)) x =
      (if x = name then Some (case introspected_status s all c of None \<Rightarrow> Node_Status (cn_node c) | Some st \<Rightarrow> st)
       else status_of s x)"
proof -
  let ?s1 = "set_node_status (Node_Status (cn_node c)) name s"
  note f1 = set_node_status_framed(1)[of s "Node_Status (cn_node c)" name]
  have s1: "status_of ?s1 y = (if y = name then Some (Node_Status (cn_node c)) else status_of s y)" for y
    using set_node_status_framed(2)[OF Node_Status_known, of "cn_node c" name s y] assms by simp
  have n1: "find_node ?s1 name \<noteq> None" using framed_find[OF f1 assms] by auto
  show "framed s (fst (IntrospectNode name all s))"
    using assms f1 framed_trans[OF f1 set_node_status_framed(1)]
    by (simp add: IntrospectNode_def Let_def split: option.split)
  show "status_of (fst (IntrospectNode name all s)) x =
      (if x = name then Some (case introspected_status s all c of None \<Rightarrow> Node_Status (cn_node c) | Some st \<Rightarrow> st)
       else status_of s x)"
  proof (cases "introspected_status s all c")
    case None
    then show ?thesis using assms s1[of x] by (simp add: IntrospectNode_def Let_def)
  next
    case (Some st)
    then show ?thesis
      using assms s1[of x] n1 set_node_status_framed(2)[OF introspected_known[OF Some], of name ?s1 x]
      by (auto simp: IntrospectNode_def Let_def)
  qed
qed

lemma IntrospectNode_agrees:
  assumes "sh_Status s \<noteq> StatusDisabled" and "sh_Status s \<noteq> StatusPaused"
  shows "framed s (fst (IntrospectNode name all s))"
    and "status_agrees (fst (IntrospectNode name all s)) name"
    and "x \<noteq> name \<Longrightarrow> status_of (fst (IntrospectNode name all s)) x = status_of s x"
proof -
  have "framed s (fst (IntrospectNode name all s)) \<and> status_agrees (fst (IntrospectNode name all s)) name \<and>
     (x \<noteq> name \<longrightarrow> status_of (fst (IntrospectNode name all s)) x = status_of s x)"
  proof (cases "find_node s name")
    case None
    then show ?thesis by (simp add: IntrospectNode_def status_agrees_def status_of_def complete_of_def)
  next
    case (Some c)
    note st = IntrospectNode_steps[OF Some, of all]
    have "complete_of s name = Some (node_complete s c)" using Some by (simp add: complete_of_def)
    then have "complete_of (fst (IntrospectNode name all s)) name = Some (node_complete s c)"
      using framed_complete_of[OF st(1), of name] by simp
    then show ?thesis using st(1) st(2)[of name] st(2)[of x] introspected_agrees[OF assms, where all = all and c = c]
      by (simp add: status_agrees_def)
  qed
  then show "framed s (fst (IntrospectNode name all s))" "status_agrees (fst (IntrospectNode name all s)) name"
    "x \<noteq> name \<Longrightarrow> status_of (fst (IntrospectNode name all s)) x = status_of s x" by auto
qed

lemma framed_agrees: "framed s s' \<Longrightarrow> status_of s' x = status_of s x \<Longrightarrow> status_agrees s' x = status_agrees s x"
  by (simp add: status_agrees_def framed_complete_of)

lemma introspect_all:
  assumes "sh_Status s \<noteq> StatusDisabled" and "sh_Status s \<noteq> StatusPaused"
  shows "let s' = fst (fold (\<lambda>name (x, change). let (x', ch) = IntrospectNode name all x in (x', change \<or> ch)) ns (s, b))
     in framed s s' \<and> (\<forall>x \<in> set ns. status_agrees s' x) \<and> (\<forall>x. x \<notin> set ns \<longrightarrow> status_of s' x = status_of s x)"
  using assms
proof (induction ns arbitrary: s b)
  case (Cons n ns)
  obtain s1 ch where r: "IntrospectNode n all s = (s1, ch)" by fastforce
  note one = IntrospectNode_agrees[OF Cons.prems, where name = n and all = all, unfolded r fst_conv]
  let ?s' = "fst (fold (\<lambda>name (x, change). let (x', ch) = IntrospectNode name all x in (x', change \<or> ch)) ns (s1, b \<or> ch))"
  have ih: "framed s1 ?s'" "\<forall>x \<in> set ns. status_agrees ?s' x" "\<forall>x. x \<notin> set ns \<longrightarrow> status_of ?s' x = status_of s1 x"
    using Cons.IH[of s1 "b \<or> ch"] Cons.prems framed_Status[OF one(1)] by (simp_all add: Let_def)
  have "status_agrees ?s' n" using ih one(2) framed_agrees by (cases "n \<in> set ns") auto
  then show ?case using ih one framed_trans r by (auto simp: Let_def)
qed simp

lemma introspect_framed:
  "framed s (fst (fold (\<lambda>name (x, change). let (x', ch) = IntrospectNode name all x in (x', change \<or> ch)) ns (s, b)))"
proof (induction ns arbitrary: s b)
  case (Cons n ns)
  obtain s1 ch where r: "IntrospectNode n all s = (s1, ch)" by fastforce
  have "framed s s1"
    using IntrospectNode_steps(1)[of s n _ all] r by (cases "find_node s n") (simp_all add: IntrospectNode_def)
  then show ?case using framed_trans[OF _ Cons.IH[of s1 "b \<or> ch"]] r by (simp add: Let_def)
qed simp

lemma RemoveNodePriority_work: "same_work (RemoveNodePriority n k) k"
  by (simp add: RemoveNodePriority_def same_work_def put_status_def split: option.split)

lemma fold_work: "(\<And>x k. same_work (f x k) k) \<Longrightarrow> same_work (fold f xs k) k"
  by (induction xs arbitrary: k) (auto intro: same_work_trans)

lemma add_condition_work: "same_work (fst (add_condition c k)) k"
  by (simp add: add_condition_def same_work_def put_status_def split: prod.split)

lemma conditions_work [simp]:
  "same_work (fst (AddSkyhookCondition now c k)) k"
  "same_work (fst (AddSkyhookConditionRefreshing now c k)) k"
  "same_work (fst (AddSkyhookConditionWithLegacy now c k)) k"
proof -
  show add: "same_work (fst (AddSkyhookCondition now c k)) k" for c k
    by (simp add: AddSkyhookCondition_def add_condition_work)
  show "same_work (fst (AddSkyhookConditionRefreshing now c k)) k" by (simp add: AddSkyhookConditionRefreshing_def add_condition_work)
  show "same_work (fst (AddSkyhookConditionWithLegacy now c k)) k"
    using add[of c k] same_work_trans[OF add[of "c\<lparr>c_Type := LegacySkyhookConditionType (c_Type c)\<rparr>" "fst (AddSkyhookCondition now c k)"] add[of c k]]
    by (simp add: AddSkyhookConditionWithLegacy_def Let_def split_beta)
qed

text \<open>The steps that follow the introspection of the nodes change neither the nodes nor the work.\<close>

definition same_nodes :: "skyhookNodes \<Rightarrow> skyhookNodes \<Rightarrow> bool" where
  "same_nodes s s' \<longleftrightarrow> sh_nodes s' = sh_nodes s \<and> same_work (sh_skyhook s') (sh_skyhook s)"

lemma same_nodes_refl [simp]: "same_nodes s s" and same_nodes_trans: "same_nodes s t \<Longrightarrow> same_nodes t u \<Longrightarrow> same_nodes s u"
  by (auto simp: same_nodes_def intro: same_work_trans)

lemma same_nodes_agrees: "same_nodes s s' \<Longrightarrow> status_agrees s' x = status_agrees s x"
proof -
  assume a: "same_nodes s s'"
  then have "find_node s' x = find_node s x" by (simp add: same_nodes_def find_node_def)
  moreover have "node_complete s' = node_complete s"
    using a by (simp add: same_nodes_def node_complete_def fun_eq_iff same_work_complete[of "sh_skyhook s'" "sh_skyhook s"])
  ultimately show ?thesis by (simp add: status_agrees_def status_of_def complete_of_def)
qed

lemma prune_same: "same_nodes s (fst (pruneCompletedNodePriorities s))"
  by (simp add: pruneCompletedNodePriorities_def Let_def same_nodes_def fold_work RemoveNodePriority_work)

lemma put_compartment_status_work [simp]: "same_work (put_compartment_status n cs k) k"
  by (simp add: put_compartment_status_def same_work_def put_status_def)

lemma evaluate_step_same: "same_nodes (fst x) (fst (evaluate_step nw x))"
  by (auto simp: evaluate_step_def Let_def same_nodes_def split: prod.splits option.splits)

lemma evaluate_same: "same_nodes s (fst (evaluateCompletedBatches s))"
proof -
  have "same_nodes (fst x) (fst (fold evaluate_step ws x))" for ws x
  proof (induction ws arbitrary: x)
    case (Cons w ws)
    show ?case using same_nodes_trans[OF evaluate_step_same Cons.IH, of x w] by simp
  qed simp
  from this[of "(s, False)"] show ?thesis by (simp add: evaluateCompletedBatches_def)
qed

lemma UpdateCondition_same: "same_nodes s (fst (UpdateCondition_sh now s))"
  by (simp add: UpdateCondition_sh_def Let_def same_nodes_def split_beta same_work_trans[OF conditions_work(2,3)])

text \<open>
  C24. After a NodeWright has been introspected, unless it is paused or disabled, the status of each of its
  nodes is complete exactly when every package is complete on the node.
\<close>

theorem introspection_settles:
  assumes "IntrospectSkyhook now allSkyhooks s = (s', changed)" and "find_node s' x = Some c"
    and "sh_Status s' \<noteq> StatusDisabled" and "sh_Status s' \<noteq> StatusPaused"
  shows "Node_Status (cn_node c) = StatusComplete \<longleftrightarrow> node_complete s' c"
proof -
  define s1 where "s1 = (if sh_Status s \<noteq> controlled_status s allSkyhooks then sh_SetStatus (controlled_status s allSkyhooks) s else s)"
  define s2 where "s2 = fst (fold (\<lambda>name (x, change). let (x', ch) = IntrospectNode name allSkyhooks x in (x', change \<or> ch))
                            (map cn_Name (sh_nodes s1)) (s1, False))"
  have s': "s' = fst (UpdateCondition_sh now (fst (evaluateCompletedBatches (fst (pruneCompletedNodePriorities s2)))))"
    using assms(1) unfolding IntrospectSkyhook_def Let_def s1_def[symmetric] s2_def by (simp split: prod.splits)
  then have same: "same_nodes s2 s'"
    using prune_same evaluate_same UpdateCondition_same same_nodes_trans by metis
  have fr: "framed s1 s2" unfolding s2_def by (rule introspect_framed)
  have st: "sh_Status s' = sh_Status s1"
    using same framed_Status[OF fr] by (simp add: same_nodes_def same_work_def sh_Status_def)
  have "\<forall>x \<in> set (map cn_Name (sh_nodes s1)). status_agrees s2 x"
    using introspect_all[of s1 allSkyhooks "map cn_Name (sh_nodes s1)" False] assms(3,4) st by (simp add: s2_def Let_def)
  moreover have "x \<in> set (map cn_Name (sh_nodes s1))"
  proof -
    have "c \<in> set (sh_nodes s2)" "cn_Name c = x" using find_node_Some[OF assms(2)] same by (simp_all add: same_nodes_def)
    moreover have "map cn_Name (sh_nodes s1) = map cn_Name (sh_nodes s2)" using fr by (simp add: framed_def)
    ultimately show ?thesis by (simp only: list.set_map) blast
  qed
  ultimately have "status_agrees s' x" using same_nodes_agrees[OF same] by blast
  then show ?thesis using assms(2) by (simp add: status_agrees_def status_of_def complete_of_def)
qed

section \<open>Blocked nodes\<close>

text \<open>
  Blocked nodes are not failures: as long as no node of a compartment has newly completed or newly failed,
  evaluating it, however often, changes no batch counter, does not mark the batch failed, does not count towards
  stopping the rollout and writes no status; only a batch number of zero becomes one.
\<close>

theorem blocked_is_not_failed:
  assumes "counts_ok m (w_BatchState c)" and "length (w_Nodes c) < 2 ^ 56"
    and "count_nodes (Node_IsComplete sk) c = CompletedNodes (w_BatchState c)"
    and "count_nodes (\<lambda>n. \<not> Node_IsComplete sk n \<and> Node_Status n = StatusErroring) c = FailedNodes (w_BatchState c)"
  shows "evaluate_compartment sk c =
     (if getInProgressCount c = 0 \<and> CurrentBatch (w_BatchState c) = 0
      then c\<lparr>w_BatchState := (w_BatchState c)\<lparr>CurrentBatch := 1\<rparr>\<rparr> else c, None)"
proof -
  let ?b = "count_nodes (\<lambda>n. \<not> Node_IsComplete sk n \<and> Node_Status n = StatusBlocked) c"
  have put: "put_counts (CompletedNodes (w_BatchState c)) (FailedNodes (w_BatchState c)) c = c" by (simp add: put_counts_def)
  have "?b \<le> count_nodes (\<lambda>n. Node_Status n = StatusBlocked) c"
  proof -
    have "length (filter (\<lambda>n. \<not> Node_IsComplete sk n \<and> Node_Status n = StatusBlocked) xs) \<le>
        length (filter (\<lambda>n. Node_Status n = StatusBlocked) xs)" for xs by (induction xs) auto
    then show ?thesis by (simp add: count_nodes_def)
  qed
  moreover have "wrap64 0 = 0" by (simp add: int64_def)
  ultimately show ?thesis
    using put assms(3,4) by (auto simp: evaluate_compartment_def EvaluateCurrentBatch_def IsBatchComplete_def Let_def)
qed

text \<open>What the evaluation of a compartment counts as done and as failed.\<close>

definition done_nodes :: "Skyhook \<Rightarrow> skyhookNode wCompartment \<Rightarrow> int" where
  "done_nodes sk c = count_nodes (Node_IsComplete sk) c"

definition failed_nodes :: "Skyhook \<Rightarrow> skyhookNode wCompartment \<Rightarrow> int" where
  "failed_nodes sk c = count_nodes (\<lambda>n. \<not> Node_IsComplete sk n \<and> Node_Status n = StatusErroring) c"

text \<open>
  C15. A finished batch is judged by its nodes.  When no node of a compartment is in progress and nodes have completed or failed since the
  last evaluation (and none fell back), the batch that is recorded is exactly those nodes: its size is their number, the counters become what the
  nodes show, and what remains shrinks by them.  The batch is failed exactly when the share of its successes is below the batch threshold; the failures in a row
  count up or start over; and the rollout is stopped exactly when it was, or when the batch failed below the safety limit and
  the failures in a row have reached a failure threshold that is set.
\<close>

theorem batch_outcome_exact:
  assumes "counts_ok (int (length (w_Nodes c))) (w_BatchState c)" and "cp_Strategy (w_Compartment c) = Some s"
    and "getInProgressCount c = 0" and "1 \<le> CurrentBatch (w_BatchState c)" and "CurrentBatch (w_BatchState c) < 2 ^ 56"
    and "0 \<le> ConsecutiveFailures (w_BatchState c)" and "ConsecutiveFailures (w_BatchState c) < 2 ^ 56"
    and "d = done_nodes sk c - CompletedNodes (w_BatchState c)" and "e = failed_nodes sk c - FailedNodes (w_BatchState c)"
    and "0 \<le> d" and "0 \<le> e" and "0 < d + e"
  shows "\<exists>c' status. evaluate_compartment sk c = (c', Some status) \<and> w_Nodes c' = w_Nodes c \<and>
     (let st = w_BatchState c; st' = w_BatchState c'; n = int (length (w_Nodes c)); failed = below_percent d (getBatchThreshold (Some s)) (d + e)
      in CompletedNodes st' = done_nodes sk c \<and> FailedNodes st' = failed_nodes sk c \<and> remaining_nodes n st' = remaining_nodes n st - (d + e) \<and>
         LastBatchSize st' = d + e \<and> LastBatchFailed st' = failed \<and> CurrentBatch st' = CurrentBatch st + 1 \<and>
         ConsecutiveFailures st' = (if failed then ConsecutiveFailures st + 1 else 0) \<and>
         (ShouldStop st' \<longleftrightarrow> ShouldStop st \<or> failed \<and>
            below_percent (done_nodes sk c + failed_nodes sk c) (getSafetyLimit (Some s)) n \<and>
            (\<exists>ft. getFailureThreshold (Some s) = Some ft \<and> ft \<le> ConsecutiveFailures st + 1)))"
proof -
  let ?n = "int (length (w_Nodes c))" and ?st = "w_BatchState c"
  let ?st1 = "?st\<lparr>CompletedNodes := done_nodes sk c, FailedNodes := failed_nodes sk c\<rparr>"
  have n: "0 \<le> done_nodes sk c" "0 \<le> failed_nodes sk c" "done_nodes sk c + failed_nodes sk c \<le> ?n"
    using count_disjoint[of "Node_IsComplete sk" "\<lambda>n. \<not> Node_IsComplete sk n \<and> Node_Status n = StatusErroring" c]
    by (auto simp: count_nodes_def done_nodes_def failed_nodes_def)
  have m: "0 \<le> CompletedNodes ?st" "0 \<le> FailedNodes ?st" "?n < 2 ^ 56" using assms(1) by (simp_all add: counts_ok_def)
  have w: "wrap64 d = d" "wrap64 e = e" "wrap64 (d + e) = d + e" using n m assms(8-11) by (simp_all add: int64_def)
  have E: "EvaluateCurrentBatch sk c = (put_counts (done_nodes sk c) (failed_nodes sk c) c, True, d, e)"
    using assms(3,4,10-12) w
    by (auto simp: EvaluateCurrentBatch_def IsBatchComplete_def Let_def done_nodes_def [symmetric] failed_nodes_def [symmetric] assms(8,9) [symmetric])
  have P: "0 < ?n" "d < 2 ^ 56" using n m assms(8-12) by linarith+
  have C: "counts_ok ?n ?st1" using n m(3) by (simp add: counts_ok_def)
  note R = batch_result_exact [OF C P(1) assms(12,10) P(2), of "Some s" e]
  have "evaluate_compartment sk c = (c', Some (buildCompartmentStatus sk c'))"
    if "c' = c\<lparr>w_BatchState := EvaluateBatchResult (Some s) ?st1 (d + e) d e ?n\<rparr>" for c'
    using assms(2,12) that
    by (auto simp: evaluate_compartment_def E w Let_def EvaluateAndUpdateBatchState_def put_counts_def)
  then show ?thesis using R assms(4-9) by (auto simp: Let_def remaining_nodes_def split: option.splits)
qed

section \<open>Selection\<close>

text \<open>The nodes a state offers for a name are the same in both states.\<close>

lemma upsertPick_sel:
  "sh_nodes (snd (upsertPick now name x)) = sh_nodes (snd x) \<and> compartments (snd (upsertPick now name x)) = compartments (snd x)"
  by (simp add: upsertPick_def Let_def split_beta split: option.split)

lemma fold_upsertPick_sel:
  "sh_nodes (snd (fold (upsertPick now) names x)) = sh_nodes (snd x)"
  using upsertPick_sel by (induction names arbitrary: x) auto

definition picked :: "skyhookNodes \<Rightarrow> string set" where
  "picked s = dom (map_of (or_empty (NodePriority (sk_Status (sh_skyhook s)))))"

lemma picked_upsertPick: "picked (snd (upsertPick now name x)) = insert name (picked (snd x))"
  by (cases "map_of (or_empty (NodePriority (sk_Status (sh_skyhook (snd x))))) name")
    (simp_all add: upsertPick_def Let_def split_beta picked_def insert_absorb domI)

lemma picked_fold: "picked (snd (fold (upsertPick now) names x)) = picked (snd x) \<union> set names"
  by (induction names arbitrary: x) (auto simp: picked_upsertPick)

lemma GetNodes_admitted:
  assumes "GetNodesForNextBatch sk el c = Some ns" and "n \<in> set ns"
  shows "n \<in> set (w_Nodes c) \<and> admits el n"
proof -
  have "n \<in> set (w_Nodes c) \<and> admits el n" if "createNewBatch sk el c = Some xs" "n \<in> set xs" for xs
  proof -
    obtain b where "xs = take b (candidates sk el c)" using \<open>createNewBatch sk el c = Some xs\<close> by (auto simp: createNewBatch_take)
    then have "n \<in> set (candidates sk el c)" using \<open>n \<in> set xs\<close> by (auto dest: in_set_takeD)
    then show ?thesis by (simp add: set_candidates)
  qed
  then show ?thesis using assms
    by (auto simp: GetNodesForNextBatch_def getInProgressNodes_def getStickyBatchNodes_def split: if_splits option.splits)
qed

lemma deref_nodes: "n \<in> set (w_Nodes (deref s w)) \<Longrightarrow>
   \<exists>c. find_node s (n_Name (sn_Node n)) = Some c \<and> cn_node c = n \<and> n_Name (sn_Node n) \<in> set (w_Nodes w)"
  using find_node_Some by (force simp: deref_def split: option.splits)

lemma pick_batches_safe:
  assumes "pick_batches now tols ws x selected = Some (np', s', selected')"
  shows "sh_nodes s' = sh_nodes (snd x)" and "picked (snd x) \<subseteq> picked s'"
    and "y \<in> set selected' \<Longrightarrow> y \<in> set selected \<or>
      (y \<in> picked s' \<and> (\<exists>c. find_node s' y = Some c \<and> may_run tols (cn_node c)) \<and> y \<in> \<Union> (set ` w_Nodes ` set ws))"
proof -
  have "sh_nodes s' = sh_nodes (snd x) \<and> picked (snd x) \<subseteq> picked s' \<and> (y \<in> set selected' \<longrightarrow> y \<in> set selected \<or>
      (y \<in> picked s' \<and> (\<exists>c. find_node s' y = Some c \<and> may_run tols (cn_node c)) \<and> y \<in> \<Union> (set ` w_Nodes ` set ws)))"
    using assms
  proof (induction ws arbitrary: x selected)
    case (Cons w ws)
    obtain ns where ns: "GetNodesForNextBatch (sh_skyhook (snd x)) (Some (may_run tols)) (deref (snd x) w) = Some ns"
      using Cons.prems by (auto split: option.splits)
    let ?names = "map (n_Name \<circ> sn_Node) ns"
    let ?x = "fold (upsertPick now) ?names x"
    have run: "pick_batches now tols ws ?x (selected @ ?names) = Some (np', s', selected')"
      using Cons.prems ns by (simp add: Let_def)
    note ih = Cons.IH[OF run]
    have keep: "find_node s' z = find_node (snd x) z" for z using ih by (simp add: find_node_def fold_upsertPick_sel)
    have new: "z \<in> picked s' \<and> (\<exists>c. find_node s' z = Some c \<and> may_run tols (cn_node c)) \<and> z \<in> set (w_Nodes w)"
      if z: "z \<in> set ?names" for z
    proof -
      obtain n where n: "n \<in> set ns" "z = n_Name (sn_Node n)" using z by auto
      note a = GetNodes_admitted[OF ns n(1)]
      have "z \<in> picked (snd ?x)" using z by (simp add: picked_fold)
      then show ?thesis using a deref_nodes[OF conjunct1[OF a]] n(2) ih keep by (auto simp: admits_def)
    qed
    show ?case using ih new by (auto simp: picked_fold fold_upsertPick_sel)
  qed simp
  then show "sh_nodes s' = sh_nodes (snd x)" "picked (snd x) \<subseteq> picked s'"
    "y \<in> set selected' \<Longrightarrow> y \<in> set selected \<or>
      (y \<in> picked s' \<and> (\<exists>c. find_node s' y = Some c \<and> may_run tols (cn_node c)) \<and> y \<in> \<Union> (set ` w_Nodes ` set ws))" by auto
qed

lemma condition_priority [simp]:
  "NodePriority (sk_Status (fst (AddSkyhookConditionWithLegacy now c k))) = NodePriority (sk_Status k)"
  by (simp add: AddSkyhookConditionWithLegacy_def AddSkyhookCondition_def add_condition_def Let_def split_beta put_status_def)

lemma select_conditions_sel [simp]:
  "sh_nodes (updateIgnoredNodesCondition now ns s) = sh_nodes s" "picked (updateIgnoredNodesCondition now ns s) = picked s"
  "sh_nodes (updateTaintToleranceCondition now ns s) = sh_nodes s" "picked (updateTaintToleranceCondition now ns s) = picked s"
  by (simp_all add: updateIgnoredNodesCondition_def updateTaintToleranceCondition_def set_condition_legacy_def picked_def)

lemma scan_framed: "framed (fst x) (fst (fold (scan_node tols) names x))"
proof (induction names arbitrary: x)
  case (Cons n ns)
  have block: "framed s ((if b then set_node_status st n else id) s)" for b st s by (simp add: set_node_status_framed(1))
  obtain s t g where x: "x = (s, t, g)" by (cases x)
  have "framed s (fst (scan_node tols n x))"
    using framed_trans[OF block block] by (simp add: x scan_node_def Let_def split: option.split)
  then show ?case using framed_trans[OF _ Cons.IH[of "scan_node tols n x"]] x by simp
qed simp

lemma prune_sel:
  "compartments (fst (pruneCompletedNodePriorities s)) = compartments s"
  "sh_Spec (fst (pruneCompletedNodePriorities s)) = sh_Spec s"
  using prune_same[of s] by (simp_all add: pruneCompletedNodePriorities_def Let_def same_nodes_def same_work_def)

text \<open>
  Every node selected to run is in a compartment of the NodeWright, does not carry the ignore label, has only
  taints the packages tolerate, and has its place in the order of nodes recorded.
\<close>

theorem selection_safe:
  assumes "SelectNodes now np s = Some (np', s', names)" and "y \<in> set names"
  shows "(\<exists>c. find_node s' y = Some c \<and> \<not> CheckNodeIgnoreLabel (cn_node c) \<and>
       CheckTaintToleration (pick_tolerations np (sh_Spec s)) (n_Taints (sn_Node (cn_node c)))) \<and>
     (\<exists>w \<in> snd ` set (compartments s). y \<in> set (w_Nodes w)) \<and>
     map_of (or_empty (NodePriority (sk_Status (sh_skyhook s')))) y \<noteq> None"
proof -
  let ?s0 = "fst (pruneCompletedNodePriorities s)"
  obtain np1 s1 where pr: "primeAndPruneNodes np s = (np1, s1)" by fastforce
  then have s1: "s1 = ?s0" "runtimeRequiredTolerations np1 = runtimeRequiredTolerations np"
    by (auto simp: primeAndPruneNodes_def Let_def)
  then have tol: "pick_tolerations np1 (sh_Spec s1) = pick_tolerations np (sh_Spec s)" by (simp add: pick_tolerations_def prune_sel)
  let ?t = "pick_tolerations np (sh_Spec s)"
  let ?scan = "fold (scan_node ?t) (concat (map (w_Nodes \<circ> snd) (compartments s1))) (s1, [], [])"
  obtain s2 tainted ignored where scan: "?scan = (s2, tainted, ignored)" by (cases ?scan)
  obtain s3 where pick: "pick_batches now ?t (map snd (compartments s2)) (np1, s2) [] = Some (np', s3, names)"
    and s': "s' = updateIgnoredNodesCondition now (sort ignored) (updateTaintToleranceCondition now (sort tainted) s3)"
    using assms(1) scan by (auto simp: SelectNodes_def pr tol selectNodesWithCompartments_def Let_def)
  have "compartments s2 = compartments s"
    using scan_framed[of "(s1, [], [])" ?t "concat (map (w_Nodes \<circ> snd) (compartments s1))"] scan
    by (simp add: framed_def s1 prune_sel)
  moreover have "y \<in> picked s3 \<and> (\<exists>c. find_node s3 y = Some c \<and> may_run ?t (cn_node c)) \<and> y \<in> \<Union> (set ` w_Nodes ` set (map snd (compartments s2)))"
    using pick_batches_safe(3)[OF pick assms(2)] by simp
  moreover have "find_node s' y = find_node s3 y" "picked s' = picked s3" by (simp_all add: s' find_node_def)
  ultimately show ?thesis by (auto simp: may_run_def picked_def)
qed

section \<open>The report\<close>

lemma RemoveNodePriority_sel:
  "NodePriority (sk_Status (RemoveNodePriority n k)) = map_option (gdel n) (NodePriority (sk_Status k))"
  by (auto simp: RemoveNodePriority_def map_of_eq_None_iff split: option.split)

lemma gkeys_upd:
  "fst ` set (gdel n m) = fst ` set m - {n}" "fst ` set (gput n v m) = insert n (fst ` set m)"
  using delete_keys[of n m] dom_update[of n v m] by (metis set_removeAll list.set_map, simp)

lemma removed_priority:
  "set (gkeys (or_empty (NodePriority (sk_Status (fold RemoveNodePriority ns k))))) =
   set (gkeys (or_empty (NodePriority (sk_Status k)))) - set ns"
proof (induction ns arbitrary: k)
  case (Cons n ns)
  have "set (gkeys (or_empty (NodePriority (sk_Status (RemoveNodePriority n k))))) =
      set (gkeys (or_empty (NodePriority (sk_Status k)))) - {n}"
    by (cases "NodePriority (sk_Status k)") (simp_all add: RemoveNodePriority_sel gkeys_upd)
  then show ?case using Cons.IH[of "RemoveNodePriority n k"] by auto
qed simp

definition status_keys :: "Skyhook \<Rightarrow> string set" where
  "status_keys k =
     set (gkeys (or_empty (st_NodeState (sk_Status k)))) \<union> set (gkeys (or_empty (st_NodeStatus (sk_Status k)))) \<union>
     set (gkeys (or_empty (NodeBootIds (sk_Status k)))) \<union> set (gkeys (or_empty (NodePriority (sk_Status k))))"

lemma cleanup_map: "set (gkeys (or_empty (fst (cleanupNodeMap m current)))) \<subseteq> set current"
  by (auto simp: cleanupNodeMap_def Let_def split: option.splits)

lemma CleanupRemovedNodes_keys: "status_keys (sh_skyhook (CleanupRemovedNodes s)) \<subseteq> set (map cn_Name (sh_nodes s))"
proof -
  let ?cur = "map cn_Name (sh_nodes s)"
  let ?rm = "filter (\<lambda>n. n \<notin> set ?cur) (gkeys (or_empty (NodePriority (sk_Status (sh_skyhook s)))))"
  let ?k = "fold RemoveNodePriority ?rm (sh_skyhook s)"
  have "set (gkeys (or_empty (NodePriority (sk_Status ?k)))) \<subseteq> set ?cur" unfolding removed_priority by auto
  then show ?thesis
    using cleanup_map[of "st_NodeState (sk_Status ?k)" ?cur] cleanup_map[of "st_NodeStatus (sk_Status ?k)" ?cur]
      cleanup_map[of "NodeBootIds (sk_Status ?k)" ?cur]
    by (simp add: CleanupRemovedNodes_def status_keys_def Let_def split_beta)
qed

lemma put_compartment_status_keys:
  "status_keys (put_compartment_status n cs k) = status_keys k"
  "CompartmentStatuses (sk_Status (put_compartment_status n cs k)) = Some (gput n cs (or_empty (CompartmentStatuses (sk_Status k))))"
  by (simp_all add: put_compartment_status_def status_keys_def)

definition has_statuses :: "Skyhook \<Rightarrow> string set" where
  "has_statuses k = set (gkeys (or_empty (CompartmentStatuses (sk_Status k))))"

lemma update_fold:
  assumes "\<And>name w k. f (name, w) k = k \<and> name \<in> has_statuses k \<or> (\<exists>cs. f (name, w) k = put_compartment_status name cs k)"
  shows "status_keys (fold f ws k) = status_keys k \<and> has_statuses (fold f ws k) = has_statuses k \<union> set (map fst ws)"
proof (induction ws arbitrary: k)
  case (Cons nw ws)
  obtain n w where nw: "nw = (n, w)" by (cases nw)
  have "status_keys (f nw k) = status_keys k \<and> has_statuses (f nw k) = insert n (has_statuses k)"
  proof (cases "f (n, w) k = k \<and> n \<in> has_statuses k")
    case True
    then show ?thesis by (simp add: nw insert_absorb)
  next
    case False
    then obtain cs where "f nw k = put_compartment_status n cs k" using assms[of n w k] nw by auto
    then show ?thesis by (cases "CompartmentStatuses (sk_Status k)") (simp_all add: put_compartment_status_keys has_statuses_def gkeys_upd)
  qed
  then show ?case using Cons.IH[of "f nw k"] by (auto simp: nw)
qed simp

lemma updateCompartmentStatuses_keys:
  "status_keys (sh_skyhook (updateCompartmentStatuses s)) = status_keys (sh_skyhook s) \<and>
   (compartments s \<noteq> [] \<longrightarrow> has_statuses (sh_skyhook (updateCompartmentStatuses s)) =
      has_statuses (sh_skyhook s) \<union> set (gkeys (compartments s))) \<and>
   compartments (updateCompartmentStatuses s) = compartments s \<and> sh_nodes (updateCompartmentStatuses s) = sh_nodes s"
proof (cases "compartments s = []")
  case False
  let ?f = "\<lambda>(name, w) k. let newStatus = buildCompartmentStatus (sh_skyhook s) (deref s w)
            in case map_of (or_empty (CompartmentStatuses (sk_Status k))) name of
                 Some existing \<Rightarrow> if compartmentStatusEqual existing newStatus then k else put_compartment_status name newStatus k
               | None \<Rightarrow> put_compartment_status name newStatus k"
  let ?k = "put_status (\<lambda>st. st\<lparr>CompartmentStatuses := Some (or_empty (CompartmentStatuses st))\<rparr>) (sh_skyhook s)"
  have "status_keys (fold ?f (compartments s) ?k) = status_keys ?k \<and>
      has_statuses (fold ?f (compartments s) ?k) = has_statuses ?k \<union> set (map fst (compartments s))"
  proof (rule update_fold)
    fix name w k
    show "?f (name, w) k = k \<and> name \<in> has_statuses k \<or> (\<exists>cs. ?f (name, w) k = put_compartment_status name cs k)"
      using gkeys_lookup[of name "or_empty (CompartmentStatuses (sk_Status k))"]
      by (auto simp: Let_def has_statuses_def split: option.split)
  qed
  moreover have "status_keys ?k = status_keys (sh_skyhook s)" "has_statuses ?k = has_statuses (sh_skyhook s)"
    by (simp_all add: status_keys_def has_statuses_def)
  ultimately show ?thesis using False by (simp add: updateCompartmentStatuses_def)
qed (simp add: updateCompartmentStatuses_def)

lemma cleanupStale_keys:
  "status_keys (sh_skyhook (cleanupStaleCompartmentStatuses s)) = status_keys (sh_skyhook s) \<and>
   has_statuses (sh_skyhook (cleanupStaleCompartmentStatuses s)) = has_statuses (sh_skyhook s) \<inter> set (gkeys (compartments s)) \<and>
   compartments (cleanupStaleCompartmentStatuses s) = compartments s \<and> sh_nodes (cleanupStaleCompartmentStatuses s) = sh_nodes s"
proof (cases "CompartmentStatuses (sk_Status (sh_skyhook s))")
  case None
  then show ?thesis by (simp add: cleanupStaleCompartmentStatuses_def has_statuses_def)
next
  case (Some m)
  let ?kept = "filter (\<lambda>(n, _). map_of (compartments s) n \<noteq> None) m"
  have keys: "fst ` set ?kept = fst ` set m \<inter> fst ` set (compartments s)"
    using gkeys_lookup[of _ "compartments s"] by (force simp: image_iff)
  have "?kept = m" if "\<not> length ?kept < length m" using that by (metis length_filter_less filter_id_conv le_neq_implies_less length_filter_le filter_True)
  then have "fst ` set m = fst ` set m \<inter> fst ` set (compartments s)" if "\<not> length ?kept < length m" using that keys by metis
  then show ?thesis using Some keys
    by (cases "length ?kept < length m") (simp_all add: cleanupStaleCompartmentStatuses_def Let_def status_keys_def has_statuses_def)
qed

text \<open>
  After the report the status tracks the cluster: it has no entry, of a state, a status, a boot id or a place in
  the order, for a node that is gone or no longer selected, and, where there are compartments, it has a status for
  exactly the compartments there are.
\<close>

theorem report_tracks_cluster:
  "status_keys (sh_skyhook (ReportState s)) \<subseteq> set (map cn_Name (sh_nodes s)) \<and>
   (if compartments s = [] then True
    else has_statuses (sh_skyhook (ReportState s)) = set (gkeys (compartments s)))"
proof -
  let ?a = "CleanupRemovedNodes s" and ?b = "updateCompartmentStatuses (CleanupRemovedNodes s)"
  let ?c = "cleanupStaleCompartmentStatuses ?b"
  have a: "compartments ?a = compartments s" "sh_nodes ?a = sh_nodes s"
    by (simp_all add: CleanupRemovedNodes_def Let_def split_beta)
  have "status_keys (sh_skyhook (ReportState s)) = status_keys (sh_skyhook ?c)"
    "has_statuses (sh_skyhook (ReportState s)) = has_statuses (sh_skyhook ?c)"
    by (simp_all add: ReportState_def Let_def status_keys_def has_statuses_def SetCompleteNodes_def SetNodesInProgress_def SetPackageList_def)
  then show ?thesis
    using CleanupRemovedNodes_keys[of s] updateCompartmentStatuses_keys[of ?a] cleanupStale_keys[of ?b] a by auto
qed

section \<open>Witnesses\<close>

theorem introspection_settles_witness:
  "\<exists>c. find_node (fst (IntrospectSkyhook 7 sample_cluster sample_tune)) ''node1'' = Some c \<and>
     (Node_Status (cn_node c) = StatusComplete \<longleftrightarrow> node_complete (fst (IntrospectSkyhook 7 sample_cluster sample_tune)) c)"
proof -
  let ?s = "fst (IntrospectSkyhook 7 sample_cluster sample_tune)"
  have "sh_Status ?s = StatusUnknown \<and> (case find_node ?s ''node1'' of None \<Rightarrow> False | Some c \<Rightarrow> True)" by code_simp
  then obtain c where c: "find_node ?s ''node1'' = Some c" and st: "sh_Status ?s = StatusUnknown" by (auto split: option.splits)
  have "Node_Status (cn_node c) = StatusComplete \<longleftrightarrow> node_complete ?s c"
    by (rule introspection_settles[of 7 sample_cluster sample_tune _ "snd (IntrospectSkyhook 7 sample_cluster sample_tune)" "''node1''"])
      (simp_all add: c st)
  then show ?thesis using c by blast
qed

theorem blocked_is_not_failed_witness:
  "snd (evaluate_compartment sample_skyhook (sample_compartment (fst (Node_SetStatus StatusBlocked (sample_skyhookNode, None))))) = None"
proof -
  let ?c = "sample_compartment (fst (Node_SetStatus StatusBlocked (sample_skyhookNode, None)))"
  have "counts_ok 1 (w_BatchState ?c)" by (simp add: sample_compartment_sel counts_ok_def fresh_batch_state_def)
  moreover have "count_nodes (Node_IsComplete sample_skyhook) ?c = CompletedNodes (w_BatchState ?c)" by code_simp
  moreover have "count_nodes (\<lambda>n. \<not> Node_IsComplete sample_skyhook n \<and> Node_Status n = StatusErroring) ?c = FailedNodes (w_BatchState ?c)"
    by code_simp
  ultimately show ?thesis using blocked_is_not_failed[of 1 ?c sample_skyhook] by (simp add: sample_compartment_sel)
qed

theorem batch_outcome_exact_witness:
  "FailedNodes (w_BatchState (fst (evaluate_compartment sample_skyhook (sample_compartment (fst (Node_SetStatus StatusErroring (sample_skyhookNode, None))))))) = 1"
proof -
  let ?c = "sample_compartment (fst (Node_SetStatus StatusErroring (sample_skyhookNode, None)))"
  have v: "done_nodes sample_skyhook ?c = 0" "failed_nodes sample_skyhook ?c = 1" "getInProgressCount ?c = 0" by code_simp+
  have s: "cp_Strategy (w_Compartment ?c) = Some (the (cp_Strategy (w_Compartment ?c)))" by code_simp
  have "counts_ok (int (length (w_Nodes ?c))) (w_BatchState ?c)" by (simp add: sample_compartment_sel counts_ok_def fresh_batch_state_def)
  from batch_outcome_exact [OF this s v(3), of 0 sample_skyhook 1] show ?thesis
    by (auto simp: v sample_compartment_sel fresh_batch_state_def Let_def)
qed

definition sample_selection :: "(NodePicker \<times> skyhookNodes \<times> string list) option" where
  "sample_selection = SelectNodes 7 (NewNodePicker []) sample_tune"

theorem selection_safe_witness:
  "\<exists>np s. SelectNodes 7 (NewNodePicker []) sample_tune = Some (np, s, [''node1'']) \<and>
     map_of (or_empty (NodePriority (sk_Status (sh_skyhook s)))) ''node1'' \<noteq> None"
proof -
  have "(case sample_selection of None \<Rightarrow> False | Some (np, s, names) \<Rightarrow> names = [''node1''])" by code_simp
  then obtain np s where r: "SelectNodes 7 (NewNodePicker []) sample_tune = Some (np, s, [''node1''])"
    by (auto simp: sample_selection_def split: option.splits)
  then show ?thesis using selection_safe[OF r, of "''node1''"] by auto
qed

end
