(* ===== verification/Lifecycle.thy ===== *)
theory Lifecycle
  imports Rollout
begin

text \<open>
  Changes of the specification that reach the nodes: uninstall requests, cancelled uninstalls, version changes and
  the interrupt that is run for a group of packages, from \<open>operator/internal/controller/skyhook_controller.go\<close>.

  The handlers range over the nodes of a NodeWright and, on each, over the packages of the specification or over the
  entries of the node's state.  The state a handler holds is the map the node wrapper caches, so it sees its own
  writes; \<open>view\<close> says which map that is.  A range over the entries visits the keys there are when it begins: an
  entry written meanwhile that Go may or may not visit is one the loop bodies skip.
\<close>

section \<open>Loops over the nodes\<close>

fun over_nodes ::
  "(string \<Rightarrow> skyhookNodes \<Rightarrow> 'a \<Rightarrow> skyhookNodes \<times> ('e + 'a)) \<Rightarrow> string list \<Rightarrow> skyhookNodes \<Rightarrow> 'a \<Rightarrow> skyhookNodes \<times> ('e + 'a)" where
  "over_nodes body [] s a = (s, Inr a)"
| "over_nodes body (x # xs) s a =
     (case body x s a of
        (s', Inl e) \<Rightarrow> (s', Inl e)
      | (s', Inr a') \<Rightarrow> over_nodes body xs s' a')"

definition cached_state :: "skyhookNodes \<Rightarrow> string \<Rightarrow> NodeState" where
  "cached_state s x = (case find_node s x of None \<Rightarrow> None | Some c \<Rightarrow> nodeState (cn_node c))"

text \<open>
  The map \<open>State\<close> returned for node \<open>x\<close> at state \<open>s0\<close>, seen at a later state: the cached map itself when there is
  one, and otherwise a map of its own.
\<close>

definition view :: "skyhookNodes \<Rightarrow> string \<Rightarrow> NodeState \<Rightarrow> skyhookNodes \<Rightarrow> NodeState" where
  "view s0 x ns s = (case cached_state s0 x of None \<Rightarrow> ns | Some _ \<Rightarrow> cached_state s x)"

definition read_state :: "skyhookNodes \<Rightarrow> string \<Rightarrow> node_error + NodeState" where
  "read_state s x = (case find_node s x of None \<Rightarrow> Inr None | Some c \<Rightarrow> Node_State (cn_node c))"

abbreviation upsert_node :: "Package \<Rightarrow> State \<Rightarrow> Stage \<Rightarrow> string \<Rightarrow> skyhookNodes \<Rightarrow> skyhookNodes" where
  "upsert_node p state stage x s \<equiv>
     on_node (Node_Upsert (package_ref p) (p_Image p) state stage 0 (p_ContainerSHA p)) x s"

abbreviation remove_node_state :: "Package \<Rightarrow> string \<Rightarrow> skyhookNodes \<Rightarrow> skyhookNodes" where
  "remove_node_state p x s \<equiv> on_node (\<lambda>(node, sk). (Node_RemoveState (package_ref p) node, sk)) x s"

section \<open>Uninstall requests\<close>

definition appendIfNotPresent :: "Package list \<Rightarrow> Package \<Rightarrow> Package list" where
  "appendIfNotPresent ps p =
     (if list_ex (\<lambda>e. p_Name e = p_Name p \<and> p_Version e = p_Version p) ps then ps else ps @ [p])"

definition uninstall_wanted :: "bool \<Rightarrow> Package \<Rightarrow> bool" where
  "uninstall_wanted beingDeleted p \<longleftrightarrow> IsUninstalling p \<or> (beingDeleted \<and> UninstallEnabled p)"

text \<open>The body of the inner loop, for one package on one node.\<close>

definition uninstall_package ::
  "bool \<Rightarrow> string \<Rightarrow> (skyhookNodes \<Rightarrow> NodeState) \<Rightarrow> string \<times> Package \<Rightarrow> skyhookNodes \<times> Package list \<Rightarrow> skyhookNodes \<times> Package list" where
  "uninstall_package beingDeleted x state kp acc =
     (let (s, toUninstall) = acc; p = snd kp; nodeState = state s
      in case ns_get nodeState (GetUniqueName p) of
           None \<Rightarrow> acc
         | Some status \<Rightarrow>
             if \<not> uninstall_wanted beingDeleted p \<and> \<not> IsUninstallCycleInProgress nodeState (GetUniqueName p) then acc
             else if ps_Stage status = StageUninstall then (s, appendIfNotPresent toUninstall p)
             else if ps_Stage status = StageUninstallInterrupt then
               (if ps_State status = StateComplete
                then (set_node_status StatusInProgress x (remove_node_state p x s), toUninstall)
                else (s, appendIfNotPresent toUninstall p))
             else if ps_State status \<noteq> StateComplete then acc
             else (set_node_status StatusInProgress x (upsert_node p StateInProgress StageUninstall x s),
                   appendIfNotPresent toUninstall p))"

definition uninstall_node ::
  "bool \<Rightarrow> Packages \<Rightarrow> string \<Rightarrow> skyhookNodes \<Rightarrow> Package list \<Rightarrow> skyhookNodes \<times> (node_error + Package list)" where
  "uninstall_node beingDeleted packages x s toUninstall =
     (case read_state s x of
        Inl e \<Rightarrow> (s, Inl e)
      | Inr ns \<Rightarrow>
          (let (s', toUninstall') = fold (uninstall_package beingDeleted x (view s x ns)) packages (s, toUninstall)
           in (s', Inr toUninstall')))"

definition HandleUninstallRequests :: "skyhookNodes \<Rightarrow> skyhookNodes \<times> (node_error + Package list)" where
  "HandleUninstallRequests s =
     over_nodes (uninstall_node (being_deleted s) (spec_Packages (sh_Spec s))) (map cn_Name (sh_nodes s)) s []"

definition cancel_entry ::
  "bool \<Rightarrow> Packages \<Rightarrow> string \<Rightarrow> string \<Rightarrow> PackageStatus \<Rightarrow> skyhookNodes \<Rightarrow> skyhookNodes" where
  "cancel_entry beingDeleted packages x key status s =
     (if ps_Stage status \<noteq> StageUninstall then s
      else
        (case map_of packages (ps_Name status) of
           None \<Rightarrow> s
         | Some p \<Rightarrow>
             if IsUninstalling p then s
             else if beingDeleted \<and> UninstallEnabled p then s
             else if IsActive (Some status)
             then set_node_status StatusInProgress x (upsert_node p StateInProgress StageApply x s)
             else s))"

definition cancel_node ::
  "bool \<Rightarrow> Packages \<Rightarrow> string \<Rightarrow> skyhookNodes \<Rightarrow> unit \<Rightarrow> skyhookNodes \<times> (node_error + unit)" where
  "cancel_node beingDeleted packages x s u =
     (case read_state s x of
        Inl e \<Rightarrow> (s, Inl e)
      | Inr ns \<Rightarrow>
          (grange (cancel_entry beingDeleted packages x) (\<lambda>s'. ns_get (view s x ns s')) (gkeys (or_empty ns)) s, Inr ()))"

definition HandleCancelledUninstalls :: "skyhookNodes \<Rightarrow> skyhookNodes \<times> (node_error + unit)" where
  "HandleCancelledUninstalls s =
     over_nodes (cancel_node (being_deleted s) (spec_Packages (sh_Spec s))) (map cn_Name (sh_nodes s)) s ()"

definition filterUninstallForNode :: "Package list \<Rightarrow> NodeState \<Rightarrow> Package list" where
  "filterUninstallForNode toUninstall ns = filter (\<lambda>p. ns_get ns (GetUniqueName p) \<noteq> None) toUninstall"

definition shouldSkipApplyForUninstall :: "Package \<Rightarrow> NodeState \<Rightarrow> bool \<Rightarrow> bool" where
  "shouldSkipApplyForUninstall p ns beingDeleted =
     (if IsUninstallCycleInProgress ns (GetUniqueName p) then True
      else (IsUninstalling p \<or> (beingDeleted \<and> UninstallEnabled p)) \<and> IsUninstalled ns (GetUniqueName p))"

section \<open>Version changes\<close>

text \<open>\<open>Compare\<close> panics on an empty version; the code also tests for a result of -2.\<close>

datatype change_error = StateError node_error | VersionError | VersionPanic

text \<open>The state of the loop: the NodeWright, whether a version change was seen, and an error that ended the loop.\<close>

type_synonym change_acc = "skyhookNodes \<times> bool \<times> change_error option"

definition version_entry ::
  "Packages \<Rightarrow> string \<Rightarrow> (skyhookNodes \<Rightarrow> NodeState) \<Rightarrow> string \<Rightarrow> PackageStatus \<Rightarrow> change_acc \<Rightarrow> change_acc" where
  "version_entry packages x state key status acc =
     (let (s, detected, err) = acc
      in if err \<noteq> None then acc
         else
           (case map_of packages (ps_Name status) of
              None \<Rightarrow> (put_skyhook (RemoveConfigUpdates (ps_Name status)) s, detected, None)
            | Some p \<Rightarrow>
                if IsUninstallCycleInProgress (state s) (GetUniqueName p) then acc
                else if p_Version p = ps_Version status then acc
                else
                  (case Compare (p_Version p) (ps_Version status) of
                     None \<Rightarrow> (s, True, Some VersionPanic)
                   | Some comparison \<Rightarrow>
                       if comparison = - 2 then (s, True, Some VersionError)
                       else if comparison = 1 then
                         (if (case ns_get (cached_state s x) (GetUniqueName p) of None \<Rightarrow> False | Some t \<Rightarrow> ps_Stage t = StageUpgrade)
                          then (s, True, None)
                          else (set_node_status StatusInProgress x
                                  (put_skyhook (RemoveConfigUpdates (ps_Name status)) (upsert_node p StateInProgress StageUpgrade x s)),
                                True, None))
                       else (s, True, None))))"

definition version_node ::
  "Packages \<Rightarrow> string \<Rightarrow> skyhookNodes \<Rightarrow> bool \<Rightarrow> skyhookNodes \<times> (change_error + bool)" where
  "version_node packages x s detected =
     (case read_state s x of
        Inl e \<Rightarrow> (s, Inl (StateError e))
      | Inr ns \<Rightarrow>
          (let (s', detected', err) =
             grange (version_entry packages x (view s x ns)) (\<lambda>acc. ns_get (view s x ns (fst acc)))
               (gkeys (or_empty ns)) (s, detected, None)
           in (s', case err of None \<Rightarrow> Inr detected' | Some e \<Rightarrow> Inl e)))"

text \<open>The list of packages to uninstall is returned empty: no branch adds to it.\<close>

definition HandleVersionChange :: "skyhookNodes \<Rightarrow> skyhookNodes \<times> (change_error + Package list)" where
  "HandleVersionChange s =
     (case over_nodes (version_node (spec_Packages (sh_Spec s))) (map cn_Name (sh_nodes s)) s False of
        (s', Inl e) \<Rightarrow> (s', Inl e)
      | (s', Inr detected) \<Rightarrow> (if detected then resetSkyhookBatchState s' else s', Inr []))"

section \<open>Choosing an interrupt\<close>

definition merge_sorted :: "string list \<Rightarrow> string list \<Rightarrow> string list" where
  "merge_sorted left right = sort (fold (\<lambda>r left. if r \<in> set left then left else left @ [r]) right left)"

definition mergeInterrupt :: "Interrupt \<Rightarrow> Interrupt \<Rightarrow> Interrupt" where
  "mergeInterrupt left right =
     (if int_Type left \<noteq> SERVICE \<or> int_Type right \<noteq> SERVICE then left
      else left\<lparr>int_Services := merge_sorted (int_Services left) (int_Services right)\<rparr>)"

text \<open>A type that is not in the table has priority zero, Go's default.\<close>

fun interrupt_priority :: "InterruptType \<Rightarrow> nat" where
  "interrupt_priority REBOOT = 0"
| "interrupt_priority RESTART_ALL_SERVICES = 1"
| "interrupt_priority SERVICE = 2"
| "interrupt_priority NOOP = 3"
| "interrupt_priority (InterruptTypeOther t) = 0"

definition own_interrupts :: "ConfigMap \<Rightarrow> Package \<Rightarrow> InterruptMap \<Rightarrow> InterruptMap" where
  "own_interrupts configUpdates p interrupts =
     (if length (case map_of configUpdates (p_Name p) of None \<Rightarrow> [] | Some u \<Rightarrow> u) = 0
      then gput (p_Name p) (case p_Interrupt p of None \<Rightarrow> [] | Some i \<Rightarrow> [i]) interrupts
      else interrupts)"

fun pick_interrupt :: "(string \<times> Interrupt) list \<Rightarrow> (Interrupt \<times> string) option \<Rightarrow> (Interrupt \<times> string) option" where
  "pick_interrupt [] ret = ret"
| "pick_interrupt ((name, i) # rest) ret =
     (let (r, pack) = (case ret of None \<Rightarrow> (i, name) | Some rp \<Rightarrow> rp)
      in if int_Type i = REBOOT then Some (i, name)
         else if interrupt_priority (int_Type i) < interrupt_priority (int_Type r) then pick_interrupt rest (Some (i, name))
         else if interrupt_priority (int_Type i) = interrupt_priority (int_Type r)
         then pick_interrupt rest (Some (mergeInterrupt r i, pack))
         else pick_interrupt rest (Some (r, pack)))"

definition fudgeInterruptWithPriority :: "Package list \<Rightarrow> ConfigMap \<Rightarrow> InterruptMap \<Rightarrow> (Interrupt \<times> string) option" where
  "fudgeInterruptWithPriority packages configUpdates interrupts =
     (let interrupts' = fold (own_interrupts configUpdates) packages interrupts;
          names = sort (map p_Name packages)
      in pick_interrupt
           (concat (map (\<lambda>n. map (\<lambda>i. (n, i)) (case map_of interrupts' n of None \<Rightarrow> [] | Some l \<Rightarrow> l)) names)) None)"
section \<open>What the operations do to the cached states\<close>

lemma on_node_sel:
  assumes "find_node s x = Some c" and "f (cn_node c, Some ((sh_skyhook s)\<lparr>Updated := cn_Updated c\<rparr>)) = (node, Some k)"
    and "n_Name (sn_Node node) = x"
  shows "find_node (on_node f x s) y = (if y = x then Some \<lparr>cn_node = node, cn_Updated = Updated k\<rparr> else find_node s y)"
    and "map cn_Name (sh_nodes (on_node f x s)) = map cn_Name (sh_nodes s)"
    and "sk_NodeWright (sh_skyhook (on_node f x s)) = sk_NodeWright k"
  using assms find_map_replace[of cn_Name "\<lparr>cn_node = node, cn_Updated = Updated k\<rparr>" x y "sh_nodes s"]
  by (auto simp: on_node_def find_node_def)

text \<open>A method that keeps the name of the node and has an effect on the cached state only.\<close>

definition state_method :: "(NodeState \<Rightarrow> NodeState) \<Rightarrow> (node_and_resource \<Rightarrow> node_and_resource) \<Rightarrow> bool" where
  "state_method g f \<longleftrightarrow>
     (\<forall>node k. \<exists>node' k'. f (node, Some k) = (node', Some k') \<and> n_Name (sn_Node node') = n_Name (sn_Node node) \<and>
        nodeState node' = g (nodeState node) \<and> sk_Spec k' = sk_Spec k \<and>
        DeletionTimestamp (sk_NodeWright k') = DeletionTimestamp (sk_NodeWright k))"

lemma put_annotation_name [simp]: "n_Name (sn_Node (put_annotation k v node)) = n_Name (sn_Node node)"
  by (simp add: put_annotation_def)

lemma SetState_sel [simp]:
  "n_Name (sn_Node (SetState ns node)) = n_Name (sn_Node node)"
  "nodeState (SetState ns (node\<lparr>nodeState := ns\<rparr>)) = ns"
  by (auto simp: SetState_def Let_def split: option.splits)

lemma Upsert_method:
  "state_method (\<lambda>ns. fst (Upsert ns r img st sg n sha)) (Node_Upsert r img st sg n sha)"
  by (auto simp: state_method_def Node_Upsert_def Let_def touch_def split: prod.splits)

lemma RemoveState_method:
  "state_method (\<lambda>ns. fst (RemoveState ns r)) (\<lambda>(node, sk). (Node_RemoveState r node, sk))"
  by (auto simp: state_method_def Node_RemoveState_def Let_def split: prod.splits)

lemma SetNode_kept [simp]:
  "sk_Spec (SetNodeState n ns k) = sk_Spec k" "sk_Spec (SetNodeStatus n st k) = sk_Spec k"
  "DeletionTimestamp (sk_NodeWright (SetNodeState n ns k)) = DeletionTimestamp (sk_NodeWright k)"
  "DeletionTimestamp (sk_NodeWright (SetNodeStatus n st k)) = DeletionTimestamp (sk_NodeWright k)"
  by (auto simp: SetNodeState_def SetNodeStatus_def put_status_def touch_def Let_def split: option.splits)

lemma Uncordon_kept [simp]: "n_Name (sn_Node (Uncordon node)) = n_Name (sn_Node node)" "nodeState (Uncordon node) = nodeState node"
  by (auto simp: Uncordon_def Let_def del_annotation_def)

lemma SetStatus_method: "state_method (\<lambda>ns. ns) (Node_SetStatus st)"
  by (auto simp: state_method_def Node_SetStatus_def Let_def)

lemma on_node_method:
  assumes "state_method g f"
  shows "map cn_Name (sh_nodes (on_node f x s)) = map cn_Name (sh_nodes s)"
    and "sh_Spec (on_node f x s) = sh_Spec s" and "being_deleted (on_node f x s) = being_deleted s"
    and "cached_state (on_node f x s) y = (if y = x \<and> find_node s x \<noteq> None then g (cached_state s x) else cached_state s y)"
    and "find_node (on_node f x s) y = None \<longleftrightarrow> find_node s y = None"
    and "y \<noteq> x \<Longrightarrow> find_node (on_node f x s) y = find_node s y"
proof -
  have "map cn_Name (sh_nodes (on_node f x s)) = map cn_Name (sh_nodes s) \<and> sh_Spec (on_node f x s) = sh_Spec s \<and>
      being_deleted (on_node f x s) = being_deleted s \<and>
      cached_state (on_node f x s) y = (if y = x \<and> find_node s x \<noteq> None then g (cached_state s x) else cached_state s y) \<and>
      (find_node (on_node f x s) y = None \<longleftrightarrow> find_node s y = None) \<and>
      (y \<noteq> x \<longrightarrow> find_node (on_node f x s) y = find_node s y)"
  proof (cases "find_node s x")
    case None
    then show ?thesis by (simp add: on_node_def)
  next
    case (Some c)
    obtain node k where f: "f (cn_node c, Some ((sh_skyhook s)\<lparr>Updated := cn_Updated c\<rparr>)) = (node, Some k)"
      "n_Name (sn_Node node) = cn_Name c" "nodeState node = g (nodeState (cn_node c))" "sk_Spec k = sh_Spec s"
      "DeletionTimestamp (sk_NodeWright k) = DeletionTimestamp (sk_NodeWright (sh_skyhook s))"
      using assms unfolding state_method_def by force
    have "n_Name (sn_Node node) = x" using f(2) find_node_Some[OF Some] by simp
    note sel = on_node_sel[where f = f, OF Some f(1) this]
    show ?thesis using sel(1)[of y] sel(2,3) f(3-5) Some by (simp add: cached_state_def being_deleted_def)
  qed
  then show "map cn_Name (sh_nodes (on_node f x s)) = map cn_Name (sh_nodes s)"
    "sh_Spec (on_node f x s) = sh_Spec s" "being_deleted (on_node f x s) = being_deleted s"
    "cached_state (on_node f x s) y = (if y = x \<and> find_node s x \<noteq> None then g (cached_state s x) else cached_state s y)"
    "find_node (on_node f x s) y = None \<longleftrightarrow> find_node s y = None"
    "y \<noteq> x \<Longrightarrow> find_node (on_node f x s) y = find_node s y" by auto
qed

lemmas node_methods [simp] =
  on_node_method[OF Upsert_method] on_node_method[OF RemoveState_method]
  on_node_method[OF SetStatus_method, folded set_node_status_def]
section \<open>Uninstall requests, package by package\<close>

text \<open>What a request means for one entry of a node, with no loop and no shared map.\<close>

definition uninstall_effect :: "bool \<Rightarrow> Package \<Rightarrow> PackageStatus \<Rightarrow> PackageStatus option" where
  "uninstall_effect beingDeleted p status =
     (if ps_Stage status = StageUninstallInterrupt \<and> ps_State status = StateComplete then None
      else if uninstall_wanted beingDeleted p \<and> ps_State status = StateComplete \<and> ps_Stage status \<noteq> StageUninstall
      then Some \<lparr>ps_Name = p_Name p, ps_Version = p_Version p, ps_Image = p_Image p, ps_ContainerSHA = p_ContainerSHA p,
                 ps_Stage = StageUninstall, ps_State = StateInProgress, ps_Restarts = 0\<rparr>
      else Some status)"

lemma Upsert_lookup:
  "ns_get (fst (Upsert ns r img st sg n sha)) k =
     (if k = PackageRef_GetUniqueName r
      then Some \<lparr>ps_Name = ref_Name r, ps_Version = ref_Version r, ps_Image = img, ps_ContainerSHA = sha,
                 ps_Stage = sg, ps_State = st, ps_Restarts = n\<rparr>
      else ns_get ns k)"
  by (auto simp: Upsert_def ns_get_def Let_def)

lemma RemoveState_lookup:
  "ns_get (fst (RemoveState ns r)) k = (if k = PackageRef_GetUniqueName r then None else ns_get ns k)"
  by (cases ns) (auto simp: RemoveState_def ns_get_def)

lemma package_ref_unique [simp]: "PackageRef_GetUniqueName (package_ref p) = GetUniqueName p"
  by (simp add: package_ref_def PackageRef_GetUniqueName_def GetUniqueName_def)

lemma packages_ok_name: "packages_ok pk \<Longrightarrow> (k, p) \<in> set pk \<Longrightarrow> p_Name p = k"
  by (induction pk) (auto simp: packages_ok_def)

lemma append_present:
  assumes "packages_ok pk" and "p \<in> snd ` set pk" and "set tu \<subseteq> snd ` set pk"
  shows "set (appendIfNotPresent tu p) = insert p (set tu)"
proof -
  have "e = p" if e: "e \<in> set tu" and n: "p_Name e = p_Name p" for e
  proof -
    obtain k where k: "(k, e) \<in> set pk" using e assms(3) by force
    obtain l where l: "(l, p) \<in> set pk" using assms(2) by force
    have "k = l" using packages_ok_name[OF assms(1) k] packages_ok_name[OF assms(1) l] n by simp
    then show ?thesis using eq_key_imp_eq_value[of pk k e p] k l assms(1) by (simp add: packages_ok_def)
  qed
  then show ?thesis by (auto simp: appendIfNotPresent_def list_ex_iff)
qed

text \<open>One package on one node whose state is cached.\<close>

lemma uninstall_package_effect:
  assumes "uninstall_package d x state kp (s, tu) = (s', tu')" and "state s = cached_state s x" and "find_node s x \<noteq> None"
  defines "p \<equiv> snd kp"
  shows "map cn_Name (sh_nodes s') = map cn_Name (sh_nodes s)" and "find_node s' y = None \<longleftrightarrow> find_node s y = None"
    and "y \<noteq> x \<Longrightarrow> find_node s' y = find_node s y"
    and "ns_get (cached_state s' x) k =
      (if k = GetUniqueName p then Option.bind (ns_get (cached_state s x) k) (uninstall_effect d p) else ns_get (cached_state s x) k)"
    and "tu' = (if IsUninstallCycleInProgress (cached_state s' x) (GetUniqueName p) then appendIfNotPresent tu p else tu)"
  using assms(1-3) unfolding p_def[symmetric]
  by (auto simp: uninstall_package_def p_def[symmetric] Let_def Upsert_lookup RemoveState_lookup uninstall_effect_def
        IsUninstallCycleInProgress_def uninstall_wanted_def split: option.splits if_splits)
lemma uninstall_fold:
  assumes "fold (uninstall_package d x (view s0 x ns)) pk (s, tu) = (s', tu')" and "cached_state s0 x \<noteq> None"
    and "find_node s x \<noteq> None" and "distinct (map (\<lambda>(k, p). GetUniqueName p) pk)"
    and "packages_ok all" and "set pk \<subseteq> set all" and "set tu \<subseteq> snd ` set all"
  shows "map cn_Name (sh_nodes s') = map cn_Name (sh_nodes s) \<and> (\<forall>y. find_node s' y = None \<longleftrightarrow> find_node s y = None) \<and>
    (\<forall>y. y \<noteq> x \<longrightarrow> find_node s' y = find_node s y) \<and>
    (\<forall>p \<in> snd ` set pk. ns_get (cached_state s' x) (GetUniqueName p) =
       Option.bind (ns_get (cached_state s x) (GetUniqueName p)) (uninstall_effect d p)) \<and>
    (\<forall>k. k \<notin> GetUniqueName ` snd ` set pk \<longrightarrow> ns_get (cached_state s' x) k = ns_get (cached_state s x) k) \<and>
    set tu' = set tu \<union> {p \<in> snd ` set pk. IsUninstallCycleInProgress (cached_state s' x) (GetUniqueName p)}"
  using assms(1,3,4,6,7)
proof (induction pk arbitrary: s tu)
  case (Cons kp pk)
  obtain k p where kp: "kp = (k, p)" by (cases kp)
  obtain s1 tu1 where step: "uninstall_package d x (view s0 x ns) kp (s, tu) = (s1, tu1)" by fastforce
  have "view s0 x ns s = cached_state s x" using assms(2) by (auto simp: view_def)
  note e = uninstall_package_effect[OF step this Cons.prems(2), unfolded kp snd_conv]
  have rest: "fold (uninstall_package d x (view s0 x ns)) pk (s1, tu1) = (s', tu')" using Cons.prems(1) step by simp
  have p: "p \<in> snd ` set all" using Cons.prems(4) kp by force
  have set1: "set tu1 = set tu \<union> (if IsUninstallCycleInProgress (cached_state s1 x) (GetUniqueName p) then {p} else {})"
    unfolding e(5) using append_present[OF assms(5) p Cons.prems(5)] by simp
  have tu1: "set tu1 \<subseteq> snd ` set all" using set1 Cons.prems(5) p by (auto split: if_splits)
  have dist: "distinct (map (\<lambda>(k, p). GetUniqueName p) pk)" and fresh: "GetUniqueName p \<notin> GetUniqueName ` snd ` set pk"
    using Cons.prems(3) kp by (auto simp: image_iff split: prod.splits)
  note IH = Cons.IH[OF rest _ dist _ tu1]
  have h: "find_node s1 x \<noteq> None" "set pk \<subseteq> set all" using e(2)[of x] Cons.prems(2,4) by auto
  have same: "ns_get (cached_state s' x) (GetUniqueName p) = ns_get (cached_state s1 x) (GetUniqueName p)"
    using IH[OF h] fresh by blast
  then have cyc: "IsUninstallCycleInProgress (cached_state s' x) (GetUniqueName p) = IsUninstallCycleInProgress (cached_state s1 x) (GetUniqueName p)"
    by (simp add: IsUninstallCycleInProgress_def)
  have other: "ns_get (cached_state s1 x) (GetUniqueName q) = ns_get (cached_state s x) (GetUniqueName q)" if "q \<in> snd ` set pk" for q
  proof -
    have "GetUniqueName q \<noteq> GetUniqueName p" using fresh that by (metis imageI)
    then show ?thesis using e(4) by simp
  qed
  have "set tu' = set tu \<union> {q \<in> snd ` set (kp # pk). IsUninstallCycleInProgress (cached_state s' x) (GetUniqueName q)}"
    using IH[OF h] set1 cyc kp by auto
  moreover have "\<forall>q \<in> snd ` set (kp # pk). ns_get (cached_state s' x) (GetUniqueName q) =
       Option.bind (ns_get (cached_state s x) (GetUniqueName q)) (uninstall_effect d q)"
    using IH[OF h] same e(4) other kp by auto
  moreover have "\<forall>k. k \<notin> GetUniqueName ` snd ` set (kp # pk) \<longrightarrow> ns_get (cached_state s' x) k = ns_get (cached_state s x) k"
    using IH[OF h] e(4) kp by simp
  moreover have "map cn_Name (sh_nodes s') = map cn_Name (sh_nodes s)" "\<forall>y. find_node s' y = None \<longleftrightarrow> find_node s y = None"
    "\<forall>y. y \<noteq> x \<longrightarrow> find_node s' y = find_node s y"
    using IH[OF h] e(1-3) by simp_all
  ultimately show ?case by blast
qed simp
section \<open>A loop over the nodes, node by node\<close>

text \<open>
  The contract of a loop body: it leaves the other nodes alone, takes the node from \<open>c\<close> to a \<open>c'\<close> related by \<open>rel\<close>,
  and adds to the result what it collects on the node.
\<close>

locale node_loop =
  fixes body :: "string \<Rightarrow> skyhookNodes \<Rightarrow> 'a \<Rightarrow> skyhookNodes \<times> ('e + 'a)"
    and pre :: "cnode \<Rightarrow> bool" and rel :: "cnode \<Rightarrow> cnode \<Rightarrow> bool"
    and good :: "'a \<Rightarrow> bool" and content :: "'a \<Rightarrow> 'b set" and collect :: "cnode \<Rightarrow> cnode \<Rightarrow> 'b set"
  assumes body_local: "body x s a = (s', Inr a') \<Longrightarrow> find_node s x = Some c \<Longrightarrow> pre c \<Longrightarrow> good a \<Longrightarrow>
      y \<noteq> x \<Longrightarrow> find_node s' y = find_node s y"
    and body_names: "body x s a = (s', Inr a') \<Longrightarrow> find_node s x = Some c \<Longrightarrow> pre c \<Longrightarrow> good a \<Longrightarrow>
      map cn_Name (sh_nodes s') = map cn_Name (sh_nodes s)"
    and body_effect: "body x s a = (s', Inr a') \<Longrightarrow> find_node s x = Some c \<Longrightarrow> pre c \<Longrightarrow> good a \<Longrightarrow>
      good a' \<and> (\<exists>c'. find_node s' x = Some c' \<and> rel c c' \<and> content a' = content a \<union> collect c c')"
begin

lemma loop_effect:
  "over_nodes body xs s a = (s', Inr a') \<Longrightarrow> distinct xs \<Longrightarrow> good a \<Longrightarrow>
     \<forall>x \<in> set xs. \<exists>c. find_node s x = Some c \<and> pre c \<Longrightarrow>
     map cn_Name (sh_nodes s') = map cn_Name (sh_nodes s) \<and>
     (\<forall>y. y \<notin> set xs \<longrightarrow> find_node s' y = find_node s y) \<and>
     (\<forall>x \<in> set xs. rel (the (find_node s x)) (the (find_node s' x))) \<and>
     content a' = content a \<union> (\<Union>x \<in> set xs. collect (the (find_node s x)) (the (find_node s' x)))"
proof (induction xs arbitrary: s a)
  case (Cons x xs)
  obtain s1 a1 where step: "body x s a = (s1, Inr a1)"
    using Cons.prems(1) by (auto split: prod.splits sum.splits)
  then have rest: "over_nodes body xs s1 a1 = (s', Inr a')" using Cons.prems(1) by simp
  obtain c where c: "find_node s x = Some c" "pre c" using Cons.prems(4) by auto
  note eff = body_effect[OF step c Cons.prems(3)]
  then obtain c1 where c1: "find_node s1 x = Some c1" "rel c c1" "content a1 = content a \<union> collect c c1" and good: "good a1"
    by blast
  have other: "find_node s1 y = find_node s y" if "y \<noteq> x" for y
    using body_local[OF step c Cons.prems(3) that] .
  have "\<forall>y \<in> set xs. \<exists>c. find_node s1 y = Some c \<and> pre c"
  proof
    fix y assume y: "y \<in> set xs"
    then have "y \<noteq> x" using Cons.prems(2) by auto
    then show "\<exists>c. find_node s1 y = Some c \<and> pre c" using other Cons.prems(4) y by simp
  qed
  note IH = Cons.IH[OF rest _ good this]
  have d: "distinct xs" "x \<notin> set xs" using Cons.prems(2) by auto
  have x': "find_node s' x = Some c1" using IH[OF d(1)] d(2) c1(1) by simp
  have eq: "find_node s1 y = find_node s y" if "y \<in> set xs" for y using other that d(2) by metis
  have "(\<Union>y \<in> set xs. collect (the (find_node s1 y)) (the (find_node s' y))) =
      (\<Union>y \<in> set xs. collect (the (find_node s y)) (the (find_node s' y)))" using eq by simp
  then have "content a' = content a \<union> (\<Union>y \<in> set (x # xs). collect (the (find_node s y)) (the (find_node s' y)))"
    using IH[OF d(1)] c1(3) x' c(1) by auto
  moreover have "\<forall>y \<in> set (x # xs). rel (the (find_node s y)) (the (find_node s' y))"
    using IH[OF d(1)] c1(2) x' c(1) eq by auto
  moreover have "\<forall>y. y \<notin> set (x # xs) \<longrightarrow> find_node s' y = find_node s y" using IH[OF d(1)] other by auto
  moreover have "map cn_Name (sh_nodes s') = map cn_Name (sh_nodes s)"
    using IH[OF d(1)] body_names[OF step c Cons.prems(3)] by simp
  ultimately show ?case by blast
qed simp

end

text \<open>The wrapper's cache is loaded: it is empty only where the annotation holds no state.\<close>

definition loaded :: "cnode \<Rightarrow> bool" where
  "loaded c \<longleftrightarrow> (nodeState (cn_node c) = None \<longrightarrow> Node_State (cn_node c) = Inr None)"

definition uninstall_rel :: "bool \<Rightarrow> Packages \<Rightarrow> cnode \<Rightarrow> cnode \<Rightarrow> bool" where
  "uninstall_rel d pk c c' \<longleftrightarrow>
     (\<forall>p \<in> snd ` set pk. ns_get (nodeState (cn_node c')) (GetUniqueName p) =
        Option.bind (ns_get (nodeState (cn_node c)) (GetUniqueName p)) (uninstall_effect d p)) \<and>
     (\<forall>k. k \<notin> GetUniqueName ` snd ` set pk \<longrightarrow> ns_get (nodeState (cn_node c')) k = ns_get (nodeState (cn_node c)) k)"

definition cycling :: "Packages \<Rightarrow> cnode \<Rightarrow> Package set" where
  "cycling pk c = {p \<in> snd ` set pk. IsUninstallCycleInProgress (nodeState (cn_node c)) (GetUniqueName p)}"

lemma fold_uninstall_absent:
  "view s0 x ns = (\<lambda>_. None) \<Longrightarrow> fold (uninstall_package d x (view s0 x ns)) pk acc = acc"
  by (induction pk arbitrary: acc) (simp_all add: uninstall_package_def ns_get_def split_beta Let_def)

lemma uninstall_node_effect:
  assumes ok: "packages_ok pk" and run: "uninstall_node d pk x s tu = (s', Inr tu')" and c: "find_node s x = Some c"
    and pre: "loaded c" and good: "set tu \<subseteq> snd ` set pk"
  shows "map cn_Name (sh_nodes s') = map cn_Name (sh_nodes s) \<and> (\<forall>y. y \<noteq> x \<longrightarrow> find_node s' y = find_node s y) \<and>
     set tu' \<subseteq> snd ` set pk \<and>
     (\<exists>c'. find_node s' x = Some c' \<and> uninstall_rel d pk c c' \<and> set tu' = set tu \<union> cycling pk c')"
proof (cases "nodeState (cn_node c)")
  case None
  then have "read_state s x = Inr None" "view s x None = (\<lambda>_. None)"
    using c pre by (auto simp: read_state_def loaded_def view_def cached_state_def)
  then have "s' = s" "tu' = tu" using run fold_uninstall_absent by (auto simp: uninstall_node_def)
  then show ?thesis using None c good
    by (auto simp: uninstall_rel_def cycling_def ns_get_def IsUninstallCycleInProgress_def)
next
  case (Some m)
  have cached: "cached_state s x = nodeState (cn_node c)" using c by (simp add: cached_state_def)
  have f: "fold (uninstall_package d x (view s x (Some m))) pk (s, tu) = (s', tu')"
    using run c Some by (auto simp: uninstall_node_def read_state_def Node_State_def split: prod.splits)
  note e = uninstall_fold[OF f _ _ packages_ok_unique[OF ok] ok subset_refl good]
  have h: "cached_state s x \<noteq> None" "find_node s x \<noteq> None" using c Some cached by simp_all
  obtain c' where c': "find_node s' x = Some c'" using e[OF h] c by fastforce
  have "cached_state s' x = nodeState (cn_node c')" using c' by (simp add: cached_state_def)
  then have "uninstall_rel d pk c c'" "set tu' = set tu \<union> cycling pk c'"
    using e[OF h] cached by (auto simp: uninstall_rel_def cycling_def)
  moreover have "set tu' \<subseteq> snd ` set pk" using e[OF h] good by blast
  ultimately show ?thesis using e[OF h] c' by blast
qed
interpretation uninstalls: node_loop "uninstall_node d pk" "\<lambda>c. packages_ok pk \<and> loaded c" "uninstall_rel d pk"
  "\<lambda>tu. set tu \<subseteq> snd ` set pk" set "\<lambda>c c'. cycling pk c'" for d pk
  by unfold_locales (auto dest!: uninstall_node_effect)

lemma nodes_found: "distinct (map cn_Name (sh_nodes s)) \<Longrightarrow> c \<in> set (sh_nodes s) \<Longrightarrow> find_node s (cn_Name c) = Some c"
  unfolding find_node_def by (rule find_distinct)

lemma uninstall_requests_parts:
  assumes "HandleUninstallRequests s = (s', Inr toUninstall)" and "packages_ok (spec_Packages (sh_Spec s))"
    and "distinct (map cn_Name (sh_nodes s))" and "\<forall>c \<in> set (sh_nodes s). loaded c"
  shows "\<forall>x \<in> cn_Name ` set (sh_nodes s). \<forall>p \<in> snd ` set (spec_Packages (sh_Spec s)).
       ns_get (cached_state s' x) (GetUniqueName p) =
         Option.bind (ns_get (cached_state s x) (GetUniqueName p)) (uninstall_effect (being_deleted s) p)"
    and "\<forall>x \<in> cn_Name ` set (sh_nodes s). \<forall>k. k \<notin> GetUniqueName ` snd ` set (spec_Packages (sh_Spec s)) \<longrightarrow>
       ns_get (cached_state s' x) k = ns_get (cached_state s x) k"
    and "set toUninstall = {p \<in> snd ` set (spec_Packages (sh_Spec s)). \<exists>x \<in> cn_Name ` set (sh_nodes s).
       IsUninstallCycleInProgress (cached_state s' x) (GetUniqueName p)}"
proof -
  let ?xs = "map cn_Name (sh_nodes s)" and ?pk = "spec_Packages (sh_Spec s)"
  have run: "over_nodes (uninstall_node (being_deleted s) ?pk) ?xs s [] = (s', Inr toUninstall)"
    using assms(1) by (simp add: HandleUninstallRequests_def)
  have found: "\<forall>x \<in> set ?xs. \<exists>c. find_node s x = Some c \<and> packages_ok ?pk \<and> loaded c"
    using nodes_found[OF assms(3)] assms(2,4) by auto
  note e = uninstalls.loop_effect[OF run assms(3) _ found]
  have cached: "cached_state s x = nodeState (cn_node (the (find_node s x)))"
    "cached_state s' x = nodeState (cn_node (the (find_node s' x)))" if x: "x \<in> set ?xs" for x
  proof -
    obtain c where c: "c \<in> set (sh_nodes s)" "x = cn_Name c" using x by auto
    then have "x \<in> set (map cn_Name (sh_nodes s'))" using e by simp
    then obtain c' where "find_node s' x = Some c'"
      unfolding find_node_def by (cases "List.find (\<lambda>c. cn_Name c = x) (sh_nodes s')") (auto simp: find_None_iff)
    then show "cached_state s x = nodeState (cn_node (the (find_node s x)))"
      "cached_state s' x = nodeState (cn_node (the (find_node s' x)))"
      using nodes_found[OF assms(3) c(1)] c(2) by (simp_all add: cached_state_def)
  qed
  have xs: "set ?xs = cn_Name ` set (sh_nodes s)" by simp
  show "\<forall>x \<in> cn_Name ` set (sh_nodes s). \<forall>p \<in> snd ` set ?pk. ns_get (cached_state s' x) (GetUniqueName p) =
      Option.bind (ns_get (cached_state s x) (GetUniqueName p)) (uninstall_effect (being_deleted s) p)"
    "\<forall>x \<in> cn_Name ` set (sh_nodes s). \<forall>k. k \<notin> GetUniqueName ` snd ` set ?pk \<longrightarrow>
      ns_get (cached_state s' x) k = ns_get (cached_state s x) k"
    using e cached unfolding uninstall_rel_def xs by simp_all
  show "set toUninstall = {p \<in> snd ` set ?pk. \<exists>x \<in> cn_Name ` set (sh_nodes s).
       IsUninstallCycleInProgress (cached_state s' x) (GetUniqueName p)}"
    using e cached unfolding cycling_def xs by auto
qed

text \<open>
  C17. Uninstall requests act package by package, however the nodes and the packages are visited.  On each node a
  package whose uninstall is wanted and whose install work is complete enters the uninstall stage, a package whose
  uninstall interrupt is complete is forgotten, and every other entry stays as it is: work in flight is not
  interrupted, and an absent package stays absent.  The packages returned are exactly those of the specification
  that are now in the uninstall cycle on some node.
\<close>

theorem uninstall_requests_exact:
  assumes "HandleUninstallRequests s = (s', Inr toUninstall)" and "packages_ok (spec_Packages (sh_Spec s))"
    and "distinct (map cn_Name (sh_nodes s))" and "\<forall>c \<in> set (sh_nodes s). loaded c"
  shows "(\<forall>x \<in> cn_Name ` set (sh_nodes s). \<forall>p \<in> snd ` set (spec_Packages (sh_Spec s)).
       ns_get (cached_state s' x) (GetUniqueName p) =
         Option.bind (ns_get (cached_state s x) (GetUniqueName p)) (uninstall_effect (being_deleted s) p)) \<and>
     (\<forall>x \<in> cn_Name ` set (sh_nodes s). \<forall>k. k \<notin> GetUniqueName ` snd ` set (spec_Packages (sh_Spec s)) \<longrightarrow>
       ns_get (cached_state s' x) k = ns_get (cached_state s x) k) \<and>
     set toUninstall = {p \<in> snd ` set (spec_Packages (sh_Spec s)). \<exists>x \<in> cn_Name ` set (sh_nodes s).
       IsUninstallCycleInProgress (cached_state s' x) (GetUniqueName p)}"
  by (intro conjI uninstall_requests_parts[OF assms])
definition sample_removal :: Package where
  "sample_removal = sample_package\<lparr>p_Uninstall := Some \<lparr>Enabled = True, Apply = True\<rparr>\<rparr>"

definition with_packages :: "Packages \<Rightarrow> NodeState \<Rightarrow> skyhookNodes" where
  "with_packages pk ns =
     \<lparr>sh_skyhook = NewSkyhookWrapper (sample_resource\<lparr>nw_Spec := (nw_Spec sample_resource)\<lparr>spec_Packages := pk\<rparr>\<rparr>),
      sh_nodes = [\<lparr>cn_node = sample_skyhookNode\<lparr>nodeState := ns\<rparr>, cn_Updated = False\<rparr>], priorStatus = StatusUnknown,
      compartments = [], deploymentPolicy = None\<rparr>"

definition sample_uninstall :: skyhookNodes where
  "sample_uninstall = with_packages [(''tuning'', sample_removal)] (sample_state StagePostInterrupt StateComplete)"

theorem uninstall_requests_exact_witness:
  "\<exists>s' toUninstall. HandleUninstallRequests sample_uninstall = (s', Inr toUninstall) \<and> sample_removal \<in> set toUninstall"
proof -
  have "case snd (HandleUninstallRequests sample_uninstall) of Inl _ \<Rightarrow> False | Inr _ \<Rightarrow> True" by code_simp
  then obtain s' tu where run: "HandleUninstallRequests sample_uninstall = (s', Inr tu)"
    by (cases "HandleUninstallRequests sample_uninstall") (auto split: sum.splits)
  have facts: "packages_ok (spec_Packages (sh_Spec sample_uninstall))" "distinct (map cn_Name (sh_nodes sample_uninstall))"
    by code_simp+
  obtain m where "sample_state StagePostInterrupt StateComplete = Some m" unfolding sample_state_def using Upsert_Some by blast
  then have loaded: "\<forall>c \<in> set (sh_nodes sample_uninstall). loaded c"
    by (simp add: sample_uninstall_def with_packages_def loaded_def)
  have spec: "spec_Packages (sh_Spec sample_uninstall) = [(''tuning'', sample_removal)]"
    by (simp add: sample_uninstall_def with_packages_def NewSkyhookWrapper_def)
  have entry: "case ns_get (cached_state sample_uninstall ''node1'') (GetUniqueName sample_removal) of None \<Rightarrow> False
      | Some st \<Rightarrow> (case uninstall_effect (being_deleted sample_uninstall) sample_removal st of
                      None \<Rightarrow> False | Some st' \<Rightarrow> ps_Stage st' = StageUninstall)" by code_simp
  have node: "''node1'' \<in> cn_Name ` set (sh_nodes sample_uninstall)" by code_simp
  note exact = uninstall_requests_exact[OF run facts loaded, unfolded spec]
  have "ns_get (cached_state s' ''node1'') (GetUniqueName sample_removal) =
      Option.bind (ns_get (cached_state sample_uninstall ''node1'') (GetUniqueName sample_removal))
        (uninstall_effect (being_deleted sample_uninstall) sample_removal)"
    using bspec[OF conjunct1[OF exact] node] by simp
  then have "IsUninstallCycleInProgress (cached_state s' ''node1'') (GetUniqueName sample_removal)"
    using entry by (auto simp: IsUninstallCycleInProgress_def split: option.splits)
  then have "\<exists>x \<in> cn_Name ` set (sh_nodes sample_uninstall). IsUninstallCycleInProgress (cached_state s' x) (GetUniqueName sample_removal)"
    by (rule bexI[OF _ node])
  then have "sample_removal \<in> set tu" using conjunct2[OF conjunct2[OF exact]] by simp
  then show ?thesis using run by blast
qed

section \<open>Cancelled uninstalls\<close>

text \<open>The key of an entry is made of the name and the version in it.\<close>

definition keyed :: "NodeState \<Rightarrow> bool" where
  "keyed ns \<longleftrightarrow> (\<forall>k st. ns_get ns k = Some st \<longrightarrow> k = unique_name (ps_Name st) (ps_Version st))"

definition fresh_entry :: "Package \<Rightarrow> Stage \<Rightarrow> PackageStatus" where
  "fresh_entry p stage = \<lparr>ps_Name = p_Name p, ps_Version = p_Version p, ps_Image = p_Image p,
     ps_ContainerSHA = p_ContainerSHA p, ps_Stage = stage, ps_State = StateInProgress, ps_Restarts = 0\<rparr>"

text \<open>The entry calls for package \<open>p\<close> to be put back into the install pipeline.\<close>

definition cancels :: "bool \<Rightarrow> Packages \<Rightarrow> PackageStatus \<Rightarrow> Package \<Rightarrow> bool" where
  "cancels d pk st p \<longleftrightarrow> ps_Stage st = StageUninstall \<and> IsActive (Some st) \<and>
     map_of pk (ps_Name st) = Some p \<and> \<not> uninstall_wanted d p"

text \<open>
  A range over the entries of a node may restage packages: an entry \<open>st\<close> that calls for a package \<open>p\<close> in state \<open>ns\<close>
  makes the loop write a fresh entry for \<open>p\<close>.  Once the keys \<open>ks\<close> have been visited, exactly the packages called for
  by an entry under one of them have the fresh entry, and nothing else has changed.
\<close>

definition called :: "(NodeState \<Rightarrow> PackageStatus \<Rightarrow> Package \<Rightarrow> bool) \<Rightarrow> string set \<Rightarrow> NodeState \<Rightarrow> Package \<Rightarrow> bool" where
  "called calls ks ns p \<longleftrightarrow> (\<exists>k \<in> ks. \<exists>st. ns_get ns k = Some st \<and> calls ns st p)"

definition restaged ::
  "(NodeState \<Rightarrow> PackageStatus \<Rightarrow> Package \<Rightarrow> bool) \<Rightarrow> Stage \<Rightarrow> string set \<Rightarrow> NodeState \<Rightarrow> NodeState \<Rightarrow> bool" where
  "restaged calls stage ks ns ns' \<longleftrightarrow>
     (\<forall>p. called calls ks ns p \<longrightarrow> ns_get ns' (GetUniqueName p) = Some (fresh_entry p stage)) \<and>
     (\<forall>k. \<not> (\<exists>p. k = GetUniqueName p \<and> called calls ks ns p) \<longrightarrow> ns_get ns' k = ns_get ns k)"

locale restaging =
  fixes pk :: Packages and calls :: "NodeState \<Rightarrow> PackageStatus \<Rightarrow> Package \<Rightarrow> bool" and stage :: Stage
    and body :: "string \<Rightarrow> PackageStatus \<Rightarrow> 's \<Rightarrow> 's" and state :: "'s \<Rightarrow> NodeState" and fine :: "'s \<Rightarrow> bool"
  assumes calls_name: "calls ns st p \<Longrightarrow> map_of pk (ps_Name st) = Some p"
    and calls_local: "ns_get ns (GetUniqueName p) = ns_get ns1 (GetUniqueName p) \<Longrightarrow> calls ns st p = calls ns1 st p"
    and body_call: "fine s \<Longrightarrow> calls (state s) st p \<Longrightarrow> ns_get (state (body k st s)) l =
      (if l = GetUniqueName p then Some (fresh_entry p stage) else ns_get (state s) l)"
    and body_skip: "fine s \<Longrightarrow> \<forall>p. \<not> calls (state s) st p \<Longrightarrow> ns_get (state (body k st s)) l = ns_get (state s) l"
    and body_fine: "fine (body k st s) \<Longrightarrow> fine s"
begin

lemma restaged_skip:
  assumes "\<And>l. ns_get ns1 l = ns_get ns l" and "\<forall>st p. ns_get ns k = Some st \<longrightarrow> \<not> calls ns st p" and "restaged calls stage ks ns1 ns'"
  shows "restaged calls stage (insert k ks) ns ns'"
proof -
  have "calls ns1 st p = calls ns st p" for st p using calls_local[of ns p ns1] assms(1) by simp
  then have "called calls (insert k ks) ns p = called calls ks ns1 p" for p
    using assms(1,2) by (auto simp: called_def)
  then show ?thesis using assms(1,3) by (simp add: restaged_def)
qed

lemma restaged_call:
  assumes ok: "packages_ok pk" and keyed: "keyed ns" and k: "ns_get ns k = Some st" "calls ns st p"
    and upd: "\<And>l. ns_get ns1 l = (if l = GetUniqueName p then Some (fresh_entry p stage) else ns_get ns l)"
    and rest: "restaged calls stage ks ns1 ns'"
  shows "restaged calls stage (insert k ks) ns ns'"
proof -
  have own: "q = p" if l: "ns_get ns (GetUniqueName p) = Some st'" and c: "calls ns st' q" for st' q
  proof -
    have q: "map_of pk (ps_Name st') = Some q" "map_of pk (ps_Name st) = Some p" using calls_name c k(2) by auto
    then have names: "p_Name q = ps_Name st'" "p_Name p = ps_Name st"
      using packages_ok_name[OF ok] map_of_SomeD by metis+
    have bar: "CHR ''|'' \<notin> set (p_Name q)" "CHR ''|'' \<notin> set (p_Name p)"
      using ok names map_of_SomeD[OF q(1)] map_of_SomeD[OF q(2)] by (auto simp: packages_ok_def list_all_iff)
    have "unique_name (p_Name p) (p_Version p) = unique_name (p_Name q) (ps_Version st')"
      using keyed l names(1) unfolding keyed_def GetUniqueName_def by metis
    then have "p_Name p = p_Name q" using unique_name_inject[OF bar(2,1)] by simp
    then show ?thesis using q names by simp
  qed
  have fresh: "q = p" if "calls ns1 (fresh_entry p stage) q" for q
  proof -
    have "p_Name p = ps_Name st" using packages_ok_name[OF ok] map_of_SomeD[OF calls_name[OF k(2)]] by simp
    then show ?thesis using calls_name[OF that] calls_name[OF k(2)] by (simp add: fresh_entry_def)
  qed
  have head: "q = p" if "calls ns st q" for q using calls_name[OF that] calls_name[OF k(2)] by simp
  have uniq: "GetUniqueName q \<noteq> GetUniqueName p" if "q \<noteq> p" "map_of pk n = Some q" for q n
  proof
    assume e: "GetUniqueName q = GetUniqueName p"
    have in_pk: "(n, q) \<in> set pk" "(ps_Name st, p) \<in> set pk" using map_of_SomeD[OF that(2)] map_of_SomeD[OF calls_name[OF k(2)]] by auto
    have "inj_on (\<lambda>(k, p). GetUniqueName p) (set pk)" using packages_ok_unique[OF ok] by (simp add: distinct_map)
    then have "(n, q) = (ps_Name st, p)" by (rule inj_onD) (use e in_pk in simp_all)
    then show False using that(1) by simp
  qed
  have same: "called calls (insert k ks) ns q \<longleftrightarrow> called calls ks ns1 q" if q: "q \<noteq> p" for q
  proof -
    have "calls ns st' q = calls ns1 st' q" if c: "calls ns st' q \<or> calls ns1 st' q" for st'
    proof -
      have "map_of pk (ps_Name st') = Some q" using c calls_name by blast
      then have "GetUniqueName q \<noteq> GetUniqueName p" using uniq q by blast
      then show ?thesis using calls_local[of ns q ns1] upd by simp
    qed
    then show ?thesis unfolding called_def using own fresh head upd q k by (metis insert_iff option.inject)
  qed
  have "ns_get ns' (GetUniqueName p) = Some (fresh_entry p stage)"
  proof (cases "\<exists>q. GetUniqueName p = GetUniqueName q \<and> called calls ks ns1 q")
    case True
    then obtain q st' where q: "GetUniqueName p = GetUniqueName q" "called calls ks ns1 q" "calls ns1 st' q"
      unfolding called_def by blast
    then have "q = p" using uniq[OF _ calls_name[OF q(3)]] by metis
    then show ?thesis using q(2) rest unfolding restaged_def by blast
  next
    case False
    then have "ns_get ns' (GetUniqueName p) = ns_get ns1 (GetUniqueName p)" using rest unfolding restaged_def by blast
    then show ?thesis by (simp add: upd)
  qed
  moreover have p: "called calls (insert k ks) ns p" unfolding called_def using k by blast
  ultimately show ?thesis using rest same upd unfolding restaged_def by metis
qed

lemma range_restages:
  "packages_ok pk \<Longrightarrow> keyed (state s) \<Longrightarrow> fine (grange body (\<lambda>s. ns_get (state s)) ks s) \<Longrightarrow>
     fine s \<and> restaged calls stage (set ks) (state s) (state (grange body (\<lambda>s. ns_get (state s)) ks s))"
proof (induction ks arbitrary: s)
  case (Cons k ks)
  let ?rest = "\<lambda>s. grange body (\<lambda>s. ns_get (state s)) ks s"
  show ?case
  proof (cases "ns_get (state s) k")
    case None
    then show ?thesis using Cons restaged_skip[of "state s" "state s" k] by simp
  next
    case (Some st)
    let ?s1 = "body k st s"
    have rest: "grange body (\<lambda>s. ns_get (state s)) (k # ks) s = ?rest ?s1" using Some by simp
    have later: "fine ?s1 \<and> restaged calls stage (set ks) (state ?s1) (state (?rest ?s1))" if "keyed (state ?s1)"
      using Cons.IH[OF Cons.prems(1) that] Cons.prems(3) rest by simp
    show ?thesis
    proof (cases "\<exists>p. fine s \<and> calls (state s) st p")
      case True
      then obtain p where p: "fine s" "calls (state s) st p" by blast
      note upd = body_call[OF p, of k]
      have "keyed (state ?s1)" using Cons.prems(2) by (auto simp: keyed_def upd fresh_entry_def GetUniqueName_def)
      then show ?thesis
        using later p(1) restaged_call[OF Cons.prems(1,2) Some p(2) upd] rest by simp
    next
      case False
      have fine: "fine s" if "fine ?s1" using body_fine that by blast
      have same: "ns_get (state ?s1) l = ns_get (state s) l" if "fine s" for l
        using body_skip[OF that, of st k l] False that by blast
      show ?thesis
      proof (cases "fine s")
        case True
        then have "keyed (state ?s1)" using Cons.prems(2) same by (simp add: keyed_def)
        then show ?thesis
          using later True False Some same[OF True] restaged_skip[of "state ?s1" "state s" k] rest by simp
      next
        case False
        note nf = False
        have stays: "\<not> fine t \<Longrightarrow> \<not> fine (?rest t)" for t
        proof (induction ks arbitrary: t)
          case (Cons l ls)
          then show ?case using body_fine by (cases "ns_get (state t) l") auto
        qed simp
        then show ?thesis using fine nf Cons.prems(3) rest by auto
      qed
    qed
  qed
qed (simp add: restaged_def called_def)

end

lemma grange_invariant: "P s \<Longrightarrow> (\<And>k v s. P s \<Longrightarrow> P (body k v s)) \<Longrightarrow> P (grange body look ks s)"
  by (induction ks arbitrary: s) (auto split: option.splits)

lemma cancel_entry_effect:
  assumes "s' = cancel_entry d pk x k st s"
  shows "map cn_Name (sh_nodes s') = map cn_Name (sh_nodes s)" and "find_node s' y = None \<longleftrightarrow> find_node s y = None"
    and "y \<noteq> x \<Longrightarrow> find_node s' y = find_node s y"
  using assms by (auto simp: cancel_entry_def split: option.splits)

interpretation cancelling: restaging pk "\<lambda>ns st p. cancels d pk st p" StageApply "cancel_entry d pk x"
  "\<lambda>s. cached_state s x" "\<lambda>s. find_node s x \<noteq> None" for pk d x
proof unfold_locales
  show "find_node s x \<noteq> None" if "find_node (cancel_entry d pk x k st s) x \<noteq> None" for k st s
    using that by (simp only: cancel_entry_effect(2)[OF refl] not_False_eq_True)
qed (auto simp: cancels_def cancel_entry_def uninstall_wanted_def Upsert_lookup fresh_entry_def split: option.splits)
definition cancel_rel :: "bool \<Rightarrow> Packages \<Rightarrow> cnode \<Rightarrow> cnode \<Rightarrow> bool" where
  "cancel_rel d pk c c' \<longleftrightarrow>
     restaged (\<lambda>ns st p. cancels d pk st p) StageApply UNIV (nodeState (cn_node c)) (nodeState (cn_node c'))"

lemma restaged_all_keys:
  "restaged calls stage (set (gkeys (or_empty ns))) ns ns' \<longleftrightarrow> restaged calls stage UNIV ns ns'"
proof -
  have "called calls (set (gkeys (or_empty ns))) ns p = called calls UNIV ns p" for p
  proof
    assume "called calls UNIV ns p"
    then obtain k st where "ns_get ns k = Some st" "calls ns st p" by (auto simp: called_def)
    moreover from this have "k \<in> set (gkeys (or_empty ns))" unfolding gkeys_lookup ns_get_def by simp
    ultimately show "called calls (set (gkeys (or_empty ns))) ns p" unfolding called_def by blast
  qed (auto simp: called_def)
  then show ?thesis by (simp add: restaged_def)
qed

lemma cancel_node_effect:
  assumes run: "cancel_node d pk x s u = (s', Inr u')" and c: "find_node s x = Some c"
    and pre: "packages_ok pk" "loaded c" "keyed (nodeState (cn_node c))"
  shows "map cn_Name (sh_nodes s') = map cn_Name (sh_nodes s) \<and> (\<forall>y. y \<noteq> x \<longrightarrow> find_node s' y = find_node s y) \<and>
     (\<exists>c'. find_node s' x = Some c' \<and> cancel_rel d pk c c')"
proof (cases "nodeState (cn_node c)")
  case None
  then have "s' = s" using run c pre(2) by (auto simp: cancel_node_def read_state_def loaded_def)
  then show ?thesis using None c by (auto simp: cancel_rel_def restaged_def called_def ns_get_def)
next
  case (Some m)
  let ?loop = "\<lambda>ks. grange (cancel_entry d pk x) (\<lambda>s'. ns_get (cached_state s' x)) ks s"
  have cached: "cached_state s x = Some m" using c Some by (simp add: cached_state_def)
  then have "view s x (Some m) = (\<lambda>s'. cached_state s' x)" by (auto simp: view_def)
  then have s': "s' = ?loop (gkeys m)" using run c Some by (auto simp: cancel_node_def read_state_def Node_State_def)
  let ?P = "\<lambda>t. map cn_Name (sh_nodes t) = map cn_Name (sh_nodes s) \<and> (\<forall>y. find_node t y = None \<longleftrightarrow> find_node s y = None) \<and>
      (\<forall>y. y \<noteq> x \<longrightarrow> find_node t y = find_node s y)"
  have frame: "?P s'" unfolding s'
    by (rule grange_invariant[where P = ?P]) (auto simp: cancel_entry_effect[OF refl])
  then obtain c' where c': "find_node s' x = Some c'" using c by fastforce
  have "restaged (\<lambda>ns st p. cancels d pk st p) StageApply (set (gkeys m)) (cached_state s x) (cached_state s' x)"
    using cancelling.range_restages[OF pre(1), where s = s and x = x and d = d and ks = "gkeys m"] pre(3) cached Some c' s'
    by simp
  then have "cancel_rel d pk c c'"
    unfolding cancel_rel_def using restaged_all_keys[where ns = "Some m"] cached Some c' by (simp add: cached_state_def)
  then show ?thesis using frame c' by blast
qed

interpretation cancels: node_loop "cancel_node d pk" "\<lambda>c. packages_ok pk \<and> loaded c \<and> keyed (nodeState (cn_node c))" "cancel_rel d pk"
  "\<lambda>_. True" "\<lambda>_. {} :: unit set" "\<lambda>_ _. {}" for d pk
  by unfold_locales (auto dest!: cancel_node_effect)
section \<open>Version changes, package by package\<close>

text \<open>An entry of an older version calls for the upgrade of its package, unless the package is being uninstalled or upgraded already.\<close>

definition upgrades :: "Packages \<Rightarrow> NodeState \<Rightarrow> PackageStatus \<Rightarrow> Package \<Rightarrow> bool" where
  "upgrades pk ns st p \<longleftrightarrow> map_of pk (ps_Name st) = Some p \<and> Compare (p_Version p) (ps_Version st) = Some 1 \<and>
     \<not> IsUninstallCycleInProgress ns (GetUniqueName p) \<and>
     \<not> (case ns_get ns (GetUniqueName p) of None \<Rightarrow> False | Some t \<Rightarrow> ps_Stage t = StageUpgrade)"

lemma Compare_same: "Compare v v \<noteq> Some 1"
  by (simp add: Compare_def semver_Compare_def compare_parsed_def compareInt_def comparePrerelease_def Let_def split: option.splits)

abbreviation version_step :: "Packages \<Rightarrow> string \<Rightarrow> string \<Rightarrow> PackageStatus \<Rightarrow> change_acc \<Rightarrow> change_acc" where
  "version_step pk x \<equiv> version_entry pk x (\<lambda>s. cached_state s x)"

definition version_fine :: "string \<Rightarrow> change_acc \<Rightarrow> bool" where
  "version_fine x acc \<longleftrightarrow> snd (snd acc) = None \<and> find_node (fst acc) x \<noteq> None"

lemma find_put_skyhook [simp]: "find_node (put_skyhook f s) y = find_node s y" "cached_state (put_skyhook f s) y = cached_state s y"
    "sh_nodes (put_skyhook f s) = sh_nodes s"
  by (simp_all add: put_skyhook_def find_node_def cached_state_def)

lemma version_entry_frame:
  assumes "(s', d', e') = version_entry pk x state k st (s, d, e)"
  shows "map cn_Name (sh_nodes s') = map cn_Name (sh_nodes s)" and "find_node s' y = None \<longleftrightarrow> find_node s y = None"
    and "y \<noteq> x \<Longrightarrow> find_node s' y = find_node s y" and "e \<noteq> None \<Longrightarrow> e' = e"
  using assms by (auto simp: version_entry_def Let_def split: option.splits if_splits)

interpretation upgrading: restaging pk "upgrades pk" StageUpgrade "version_step pk x"
  "\<lambda>acc. cached_state (fst acc) x" "version_fine x" for pk x
proof unfold_locales
  fix ns st p ns1
  assume "ns_get ns (GetUniqueName p) = ns_get ns1 (GetUniqueName p)"
  then show "upgrades pk ns st p = upgrades pk ns1 st p" by (simp add: upgrades_def IsUninstallCycleInProgress_def)
next
  fix acc k st
  assume fine: "version_fine x (version_step pk x k st acc)"
  obtain s d e where acc: "acc = (s, d, e)" by (cases acc)
  obtain s' d' e' where run: "(s', d', e') = version_step pk x k st (s, d, e)" by (metis prod_cases3)
  show "version_fine x acc"
    using fine version_entry_frame(2,4)[OF run] unfolding version_fine_def acc run[symmetric] by (cases e) auto
next
  fix acc st k l
  assume fine: "version_fine x acc" and none: "\<forall>p. \<not> upgrades pk (cached_state (fst acc) x) st p"
  show "ns_get (cached_state (fst (version_step pk x k st acc)) x) l = ns_get (cached_state (fst acc) x) l"
  proof (cases "map_of pk (ps_Name st)")
    case (Some p)
    then show ?thesis using fine spec[OF none, of p]
      by (cases acc) (auto simp: upgrades_def version_fine_def version_entry_def Upsert_lookup split: option.splits if_splits)
  qed (use fine in \<open>cases acc, simp add: version_fine_def version_entry_def\<close>)
qed (auto simp: upgrades_def version_fine_def version_entry_def Upsert_lookup fresh_entry_def Compare_same
       split: option.splits if_splits)
definition upgrade_rel :: "Packages \<Rightarrow> cnode \<Rightarrow> cnode \<Rightarrow> bool" where
  "upgrade_rel pk c c' \<longleftrightarrow> restaged (upgrades pk) StageUpgrade UNIV (nodeState (cn_node c)) (nodeState (cn_node c'))"

lemma version_node_effect:
  assumes run: "version_node pk x s d = (s', Inr d')" and c: "find_node s x = Some c"
    and pre: "packages_ok pk" "loaded c" "keyed (nodeState (cn_node c))"
  shows "map cn_Name (sh_nodes s') = map cn_Name (sh_nodes s) \<and> (\<forall>y. y \<noteq> x \<longrightarrow> find_node s' y = find_node s y) \<and>
     (\<exists>c'. find_node s' x = Some c' \<and> upgrade_rel pk c c')"
proof (cases "nodeState (cn_node c)")
  case None
  then have "s' = s" using run c pre(2) by (auto simp: version_node_def read_state_def loaded_def)
  then show ?thesis using None c by (auto simp: upgrade_rel_def restaged_def called_def ns_get_def)
next
  case (Some m)
  let ?loop = "grange (version_step pk x) (\<lambda>acc. ns_get (cached_state (fst acc) x)) (gkeys m) (s, d, None)"
  have cached: "cached_state s x = Some m" using c Some by (simp add: cached_state_def)
  then have "view s x (Some m) = (\<lambda>s'. cached_state s' x)" by (auto simp: view_def)
  then have loop: "?loop = (s', d', None)"
    using run c Some by (auto simp: version_node_def read_state_def Node_State_def split: prod.splits option.splits)
  let ?P = "\<lambda>acc :: change_acc. map cn_Name (sh_nodes (fst acc)) = map cn_Name (sh_nodes s) \<and>
      (\<forall>y. find_node (fst acc) y = None \<longleftrightarrow> find_node s y = None) \<and> (\<forall>y. y \<noteq> x \<longrightarrow> find_node (fst acc) y = find_node s y)"
  have "?P ?loop"
  proof (rule grange_invariant[where P = ?P])
    fix k st and acc :: change_acc assume P: "?P acc"
    obtain t e f where acc: "acc = (t, e, f)" by (cases acc)
    obtain t' e' f' where run: "(t', e', f') = version_step pk x k st (t, e, f)" by (metis prod_cases3)
    show "?P (version_step pk x k st acc)"
      using P version_entry_frame(1-3)[OF run] unfolding acc run[symmetric] by simp
  qed simp
  then have frame: "?P (s', d', None :: change_error option)" unfolding loop .
  then obtain c' where c': "find_node s' x = Some c'" using c by fastforce
  have fine: "version_fine x ?loop" unfolding loop using c' by (simp add: version_fine_def)
  have "restaged (upgrades pk) StageUpgrade (set (gkeys m)) (cached_state s x) (cached_state s' x)"
    using upgrading.range_restages[OF pre(1) _ fine] pre(3) cached Some loop by simp
  then have "upgrade_rel pk c c'"
    unfolding upgrade_rel_def using restaged_all_keys[where ns = "Some m"] cached Some c' by (simp add: cached_state_def)
  then show ?thesis using frame c' by simp
qed

interpretation version_changes: node_loop "version_node pk" "\<lambda>c. packages_ok pk \<and> loaded c \<and> keyed (nodeState (cn_node c))"
  "upgrade_rel pk" "\<lambda>_. True" "\<lambda>_. {} :: unit set" "\<lambda>_ _. {}" for pk
  by unfold_locales (auto dest!: version_node_effect)

text \<open>The states of the nodes before and after a handler are related on each node.\<close>

lemma nodes_related:
  assumes "distinct (map cn_Name (sh_nodes s))" and "map cn_Name (sh_nodes s') = map cn_Name (sh_nodes s)"
    and "\<forall>x \<in> set (map cn_Name (sh_nodes s)). rel (the (find_node s x)) (the (find_node s' x))"
    and "c \<in> set (sh_nodes s)"
  shows "\<exists>c' \<in> set (sh_nodes s'). cn_Name c' = cn_Name c \<and> rel c c'"
proof -
  have c: "find_node s (cn_Name c) = Some c" by (rule nodes_found[OF assms(1,4)])
  have "cn_Name c \<in> set (map cn_Name (sh_nodes s'))" unfolding assms(2) using assms(4) by simp
  then obtain c' where "find_node s' (cn_Name c) = Some c'"
    unfolding find_node_def by (cases "List.find (\<lambda>d. cn_Name d = cn_Name c) (sh_nodes s')") (auto simp: find_None_iff)
  then show ?thesis using find_node_Some[OF \<open>find_node s' (cn_Name c) = Some c'\<close>] assms(3,4) c by force
qed

lemma reset_nodes: "sh_nodes (resetSkyhookBatchState s) = sh_nodes s"
  by (auto simp: resetSkyhookBatchState_def Let_def put_skyhook_def split: prod.splits)

text \<open>
  C18. What a version change does to the states of the packages, whatever the order in which the nodes and the entries of their states are
  visited: on each node a package is put at the upgrade stage exactly when an older version of it is recorded there and it is
  neither being uninstalled nor already being upgraded; no other entry changes, so the entry of the old version stays until
  the upgrade completes.  A downgrade changes no entry, and no version change hands on anything to be uninstalled: the old
  version of a downgrade stays recorded, as \<open>docs/user-guide/uninstall.md\<close> says (the architecture documents still describe an uninstall).  Only the
  states are described here; where a version changes, the handler also drops the pending configuration updates of the package, marks
  node and resource as in progress, and resets the batches if that is configured.
\<close>

theorem version_change_exact:
  assumes "HandleVersionChange s = (s', Inr toUninstall)" and "packages_ok (spec_Packages (sh_Spec s))"
    and "distinct (map cn_Name (sh_nodes s))"
    and "\<forall>c \<in> set (sh_nodes s). loaded c \<and> keyed (nodeState (cn_node c))" and "c \<in> set (sh_nodes s)"
  shows "toUninstall = [] \<and> (\<exists>c' \<in> set (sh_nodes s'). cn_Name c' = cn_Name c \<and>
     (\<forall>k. ns_get (nodeState (cn_node c')) k \<noteq> ns_get (nodeState (cn_node c)) k \<longrightarrow>
        (\<exists>p \<in> snd ` set (spec_Packages (sh_Spec s)). k = GetUniqueName p \<and> ns_get (nodeState (cn_node c')) k = Some (fresh_entry p StageUpgrade))) \<and>
     (\<forall>p st l. ns_get (nodeState (cn_node c)) l = Some st \<longrightarrow> upgrades (spec_Packages (sh_Spec s)) (nodeState (cn_node c)) st p \<longrightarrow>
        ns_get (nodeState (cn_node c')) (GetUniqueName p) = Some (fresh_entry p StageUpgrade)) \<and>
     (\<forall>k. (\<forall>p st l. ns_get (nodeState (cn_node c)) l = Some st \<longrightarrow> upgrades (spec_Packages (sh_Spec s)) (nodeState (cn_node c)) st p \<longrightarrow>
         k \<noteq> GetUniqueName p) \<longrightarrow> ns_get (nodeState (cn_node c')) k = ns_get (nodeState (cn_node c)) k))"
proof -
  let ?xs = "map cn_Name (sh_nodes s)" and ?pk = "spec_Packages (sh_Spec s)"
  obtain s1 d where run: "over_nodes (version_node ?pk) ?xs s False = (s1, Inr d)" and s': "sh_nodes s' = sh_nodes s1" and none: "toUninstall = []"
    using assms(1) by (auto simp: HandleVersionChange_def reset_nodes split: prod.splits sum.splits if_splits)
  have found: "\<forall>x \<in> set ?xs. \<exists>c. find_node s x = Some c \<and> packages_ok ?pk \<and> loaded c \<and> keyed (nodeState (cn_node c))"
    using nodes_found[OF assms(3)] assms(2,4) by auto
  note e = version_changes.loop_effect[OF run assms(3) TrueI found]
  obtain c' where c': "c' \<in> set (sh_nodes s')" "cn_Name c' = cn_Name c" and rel: "upgrade_rel ?pk c c'"
    using nodes_related[OF assms(3) _ _ assms(5), of s1 "upgrade_rel ?pk"] e s' by auto
  have in_pk: "p \<in> snd ` set ?pk" if "upgrades ?pk ns st p" for ns st p
    using that map_of_SomeD by (force simp: upgrades_def)
  show ?thesis
    using c' rel in_pk unfolding upgrade_rel_def restaged_def called_def by (intro conjI [OF none] bexI[of _ c'] conjI) (blast | simp)+
qed

definition sample_upgrade :: skyhookNodes where
  "sample_upgrade = with_packages [(''tuning'', sample_package\<lparr>p_Version := ''2.0.0''\<rparr>)] (sample_state StagePostInterrupt StateComplete)"

theorem version_change_exact_witness:
  "\<exists>s'. fst (HandleVersionChange sample_upgrade) = s' \<and>
     (\<exists>c' \<in> set (sh_nodes s'). ns_get (nodeState (cn_node c')) ''tuning|2.0.0'' =
        Some (fresh_entry (sample_package\<lparr>p_Version := ''2.0.0''\<rparr>) StageUpgrade))"
proof -
  let ?ns = "sample_state StagePostInterrupt StateComplete" and ?p = "sample_package\<lparr>p_Version := ''2.0.0''\<rparr>"
  have "case snd (HandleVersionChange sample_upgrade) of Inl _ \<Rightarrow> False | Inr _ \<Rightarrow> True" by code_simp
  then obtain s' tu where run: "HandleVersionChange sample_upgrade = (s', Inr tu)"
    by (cases "HandleVersionChange sample_upgrade") (auto split: sum.splits)
  have facts: "packages_ok (spec_Packages (sh_Spec sample_upgrade))" "distinct (map cn_Name (sh_nodes sample_upgrade))"
    by code_simp+
  obtain c where c: "sh_nodes sample_upgrade = [c]" "nodeState (cn_node c) = ?ns"
    by (simp add: sample_upgrade_def with_packages_def)
  obtain m where "?ns = Some m" unfolding sample_state_def using Upsert_Some by blast
  moreover have "keyed ?ns"
    by (simp add: keyed_def sample_state_def Upsert_lookup GetUniqueName_def sample_package_def) (simp add: ns_get_def)
  ultimately have pre: "\<forall>c \<in> set (sh_nodes sample_upgrade). loaded c \<and> keyed (nodeState (cn_node c))"
    using c by (simp add: loaded_def)
  have entry: "case ns_get ?ns ''tuning|1.0.0'' of None \<Rightarrow> False
      | Some st \<Rightarrow> upgrades (spec_Packages (sh_Spec sample_upgrade)) ?ns st ?p" by code_simp
  then obtain st where "ns_get ?ns ''tuning|1.0.0'' = Some st" "upgrades (spec_Packages (sh_Spec sample_upgrade)) ?ns st ?p"
    by (auto split: option.splits)
  moreover have "GetUniqueName ?p = ''tuning|2.0.0''" by code_simp
  ultimately have "\<exists>c' \<in> set (sh_nodes s'). ns_get (nodeState (cn_node c')) ''tuning|2.0.0'' = Some (fresh_entry ?p StageUpgrade)"
    using version_change_exact[OF run facts pre, of c] c by fastforce
  then show ?thesis using run by simp
qed

section \<open>The interrupt that is run\<close>

text \<open>The interrupts a package asks for: those of its changed configuration, or its own.\<close>

definition asked_interrupts :: "ConfigMap \<Rightarrow> InterruptMap \<Rightarrow> Package \<Rightarrow> Interrupt list" where
  "asked_interrupts configUpdates interrupts p =
     (if (case map_of configUpdates (p_Name p) of None \<Rightarrow> [] | Some u \<Rightarrow> u) = []
      then (case p_Interrupt p of None \<Rightarrow> [] | Some i \<Rightarrow> [i])
      else (case map_of interrupts (p_Name p) of None \<Rightarrow> [] | Some l \<Rightarrow> l))"

definition services_of :: "Interrupt set \<Rightarrow> string set" where
  "services_of I = (\<Union>i \<in> {i \<in> I. int_Type i = SERVICE}. set (int_Services i))"

definition covers :: "Interrupt \<Rightarrow> Interrupt set \<Rightarrow> bool" where
  "covers r I \<longleftrightarrow> int_Type r \<in> int_Type ` I \<and> (\<forall>i \<in> I. interrupt_priority (int_Type r) \<le> interrupt_priority (int_Type i)) \<and>
     (int_Type r = SERVICE \<longrightarrow> set (int_Services r) = services_of I)"

definition known_type :: "Interrupt \<Rightarrow> bool" where
  "known_type i \<longleftrightarrow> int_Type i \<in> {REBOOT, SERVICE, NOOP, RESTART_ALL_SERVICES}"

lemma set_merge_sorted: "set (merge_sorted left right) = set left \<union> set right"
proof -
  have "set (fold (\<lambda>r l. if r \<in> set l then l else l @ [r]) right left) = set left \<union> set right"
    by (induction right arbitrary: left) auto
  then show ?thesis by (simp add: merge_sorted_def)
qed

lemma priority_inject:
  "known_type i \<Longrightarrow> known_type j \<Longrightarrow> interrupt_priority (int_Type i) = interrupt_priority (int_Type j) \<longleftrightarrow> int_Type i = int_Type j"
  by (auto simp: known_type_def)

lemma mergeInterrupt_sel [simp]:
  "int_Type (mergeInterrupt r i) = int_Type r" "known_type (mergeInterrupt r i) = known_type r"
  by (simp_all add: mergeInterrupt_def known_type_def)

text \<open>Replacing the first interrupts of the list by one that covers them keeps what the rest of the loop covers.\<close>

lemma covers_fold:
  assumes "covers r I" and "covers q (insert r J)"
  shows "covers q (I \<union> J)"
proof -
  have "services_of (insert r J) = (if int_Type r = SERVICE then services_of I else {}) \<union> services_of J"
    using assms(1) by (auto simp: services_of_def covers_def)
  moreover have "services_of I = {}" if "int_Type q = SERVICE" "int_Type r \<noteq> SERVICE"
  proof -
    have "interrupt_priority SERVICE \<le> interrupt_priority (int_Type r)" using assms(2) that by (auto simp: covers_def)
    then have "interrupt_priority SERVICE < interrupt_priority (int_Type i)" if "i \<in> I" for i
      using assms(1) that \<open>int_Type r \<noteq> SERVICE\<close> by (cases "int_Type r") (auto simp: covers_def dest!: bspec)
    then show ?thesis by (fastforce simp: services_of_def)
  qed
  ultimately show ?thesis
    using assms unfolding covers_def by (auto simp: services_of_def split: if_splits)
qed

lemma pick_covers:
  "pick_interrupt L (Some (r, n)) = Some (q, m) \<Longrightarrow> known_type r \<Longrightarrow> \<forall>x \<in> set L. known_type (snd x) \<Longrightarrow>
     covers q (insert r (snd ` set L))"
proof (induction L arbitrary: r n)
  case Nil
  then show ?case by (auto simp: covers_def services_of_def)
next
  case (Cons x L)
  obtain a i where x: "x = (a, i)" by (cases x)
  have ki: "known_type i" using Cons.prems(3) x by simp
  consider "int_Type i = REBOOT" | "int_Type i \<noteq> REBOOT" "interrupt_priority (int_Type i) < interrupt_priority (int_Type r)"
    | "int_Type i \<noteq> REBOOT" "int_Type i = int_Type r"
    | "int_Type i \<noteq> REBOOT" "interrupt_priority (int_Type r) < interrupt_priority (int_Type i)"
    using priority_inject[OF ki Cons.prems(2)] by linarith
  then show ?case
  proof cases
    case 1
    then show ?thesis using Cons.prems x by (auto simp: covers_def)
  next
    case 2
    have "covers i {r, i}" using 2 by (auto simp: covers_def services_of_def)
    moreover have "covers q (insert i (snd ` set L))" using Cons.IH[of i a] Cons.prems 2 x ki by simp
    ultimately show ?thesis using covers_fold[of i "{r, i}" q "snd ` set L"] x by (simp add: insert_commute)
  next
    case 3
    have "covers (mergeInterrupt r i) {r, i}"
      using 3 by (auto simp: covers_def services_of_def mergeInterrupt_def set_merge_sorted)
    moreover have "covers q (insert (mergeInterrupt r i) (snd ` set L))"
      using Cons.IH[of "mergeInterrupt r i" n] Cons.prems 3 x by simp
    ultimately show ?thesis using covers_fold[of "mergeInterrupt r i" "{r, i}" q "snd ` set L"] x by (simp add: insert_commute)
  next
    case 4
    have "covers r {r, i}" using 4 by (auto simp: covers_def services_of_def)
    moreover have "covers q (insert r (snd ` set L))" using Cons.IH[of r n] Cons.prems 4 x by simp
    ultimately show ?thesis using covers_fold[of r "{r, i}" q "snd ` set L"] x by (simp add: insert_commute)
  qed
qed
lemma pick_None: "pick_interrupt L None = None \<longleftrightarrow> L = []"
proof -
  have "pick_interrupt L (Some rp) \<noteq> None" for L rp
    by (induction L "Some rp" arbitrary: rp rule: pick_interrupt.induct) (auto simp: Let_def split: prod.splits)
  then show ?thesis by (cases L rule: pick_interrupt.cases[of "(_, None)"]) (auto simp: Let_def)
qed

lemma pick_all:
  assumes "pick_interrupt L None = Some (q, m)" and "\<forall>x \<in> set L. known_type (snd x)"
  shows "covers q (snd ` set L)"
proof (cases L)
  case (Cons x L')
  obtain a i where x: "x = (a, i)" by (cases x)
  show ?thesis
  proof (cases "int_Type i = REBOOT")
    case True
    then show ?thesis using assms Cons x by (auto simp: covers_def)
  next
    case False
    then have "pick_interrupt L' (Some (mergeInterrupt i i, a)) = Some (q, m)" using assms(1) Cons x by simp
    then have "covers q (insert (mergeInterrupt i i) (snd ` set L'))" using pick_covers[of L'] assms(2) Cons x by simp
    moreover have "covers (mergeInterrupt i i) {i}"
      by (auto simp: covers_def services_of_def mergeInterrupt_def set_merge_sorted)
    ultimately show ?thesis using covers_fold[of "mergeInterrupt i i" "{i}" q "snd ` set L'"] Cons x by simp
  qed
qed (use assms in simp)

lemma own_interrupts_lookup:
  "distinct (map p_Name ps) \<Longrightarrow> p \<in> set ps \<Longrightarrow>
     (case map_of (fold (own_interrupts cfg) ps ints) (p_Name p) of None \<Rightarrow> [] | Some l \<Rightarrow> l) = asked_interrupts cfg ints p"
proof (induction ps arbitrary: ints)
  case (Cons q ps)
  have later: "map_of (fold (own_interrupts cfg) ps m) n = map_of m n" if "n \<notin> p_Name ` set ps" for m n
    using that by (induction ps arbitrary: m) (auto simp: own_interrupts_def)
  show ?case
  proof (cases "p = q")
    case True
    then have "p_Name p \<notin> p_Name ` set ps" using Cons.prems(1) by auto
    then have "map_of (fold (own_interrupts cfg) (q # ps) ints) (p_Name p) = map_of (own_interrupts cfg q ints) (p_Name p)"
      by (simp add: later)
    then show ?thesis unfolding \<open>p = q\<close> by (simp add: own_interrupts_def[of cfg q] asked_interrupts_def del: fold.simps)
  next
    case False
    then have p: "p \<in> set ps" using Cons.prems(2) by simp
    then have "p_Name p \<in> p_Name ` set ps" by (rule imageI)
    then have n: "p_Name p \<noteq> p_Name q" using Cons.prems(1) by auto
    have "asked_interrupts cfg (own_interrupts cfg q ints) p = asked_interrupts cfg ints p"
      using n by (auto simp: asked_interrupts_def own_interrupts_def)
    then show ?thesis using Cons p by simp
  qed
qed simp

text \<open>
  One interrupt serves all the packages that wait for one: none is chosen exactly when no package asks for any, and
  the one chosen is of a type some package asks for, is at least as strong as every one asked for, and, when it
  restarts services, restarts exactly those of all the packages.
\<close>

theorem interrupt_serves_all:
  assumes "distinct (map p_Name packages)"
    and "\<forall>p \<in> set packages. \<forall>i \<in> set (asked_interrupts cfg ints p). known_type i"
  shows "case fudgeInterruptWithPriority packages cfg ints of
     None \<Rightarrow> \<forall>p \<in> set packages. asked_interrupts cfg ints p = []
   | Some (r, name) \<Rightarrow>
       (\<exists>p \<in> set packages. \<exists>i \<in> set (asked_interrupts cfg ints p). int_Type r = int_Type i) \<and>
       (\<forall>p \<in> set packages. \<forall>i \<in> set (asked_interrupts cfg ints p).
          interrupt_priority (int_Type r) \<le> interrupt_priority (int_Type i) \<and>
          (int_Type r = SERVICE \<and> int_Type i = SERVICE \<longrightarrow> set (int_Services i) \<subseteq> set (int_Services r))) \<and>
       (int_Type r = SERVICE \<longrightarrow> (\<forall>x \<in> set (int_Services r). \<exists>p \<in> set packages. \<exists>i \<in> set (asked_interrupts cfg ints p).
          int_Type i = SERVICE \<and> x \<in> set (int_Services i)))"
proof -
  let ?m = "fold (own_interrupts cfg) packages ints" and ?I = "\<Union>p \<in> set packages. set (asked_interrupts cfg ints p)"
  let ?L = "concat (map (\<lambda>n. map (\<lambda>i. (n, i)) (case map_of ?m n of None \<Rightarrow> [] | Some l \<Rightarrow> l)) (sort (map p_Name packages)))"
  have fudge: "fudgeInterruptWithPriority packages cfg ints = pick_interrupt ?L None"
    by (simp add: fudgeInterruptWithPriority_def Let_def)
  have asked: "(case map_of ?m (p_Name p) of None \<Rightarrow> [] | Some l \<Rightarrow> l) = asked_interrupts cfg ints p" if "p \<in> set packages" for p
    by (rule own_interrupts_lookup[OF assms(1) that])
  have snds: "snd ` set (concat (map (\<lambda>n. map (\<lambda>i. (n, i)) (f n)) ns)) = (\<Union>n \<in> set ns. set (f n))"
    for f :: "string \<Rightarrow> Interrupt list" and ns
    by (induction ns) (auto simp: image_Un image_image)
  have "(\<Union>n \<in> set (sort (map p_Name packages)). set (case map_of ?m n of None \<Rightarrow> [] | Some l \<Rightarrow> l)) =
      (\<Union>p \<in> set packages. set (case map_of ?m (p_Name p) of None \<Rightarrow> [] | Some l \<Rightarrow> l))" by (simp only: set_sort set_map UN_simps)
  also have "\<dots> = ?I" by (intro SUP_cong refl arg_cong[where f = set] asked)
  finally have I: "snd ` set ?L = ?I" unfolding snds .
  show ?thesis
  proof (cases "pick_interrupt ?L None")
    case None
    then have "?L = []" by (simp only: pick_None)
    then have "?I = {}" using I by (metis image_empty list.set(1))
    then show ?thesis using None fudge by auto
  next
    case (Some rn)
    obtain r n where rn: "rn = (r, n)" by (cases rn)
    have known: "known_type i" if "i \<in> ?I" for i using assms(2) that by blast
    then have "\<forall>x \<in> set ?L. known_type (snd x)" using I by blast
    then have "covers r ?I" using pick_all[OF Some[unfolded rn]] I by simp
    then show ?thesis unfolding fudge Some rn by (auto simp: covers_def services_of_def)
  qed
qed

theorem interrupt_serves_all_witness:
  "let p = sample_package\<lparr>p_Interrupt := Some \<lparr>int_Type = SERVICE, int_Services = [''b'']\<rparr>\<rparr>;
       q = sample_package\<lparr>p_Name := ''kernel'', p_Interrupt := Some \<lparr>int_Type = SERVICE, int_Services = [''a'']\<rparr>\<rparr>
   in case fudgeInterruptWithPriority [p, q] [] [] of None \<Rightarrow> False
      | Some (r, name) \<Rightarrow> int_Services r = [''a'', ''b''] \<and> int_Type r = SERVICE"
proof -
  let ?p = "sample_package\<lparr>p_Interrupt := Some \<lparr>int_Type = SERVICE, int_Services = [''b'']\<rparr>\<rparr>"
  let ?q = "sample_package\<lparr>p_Name := ''kernel'', p_Interrupt := Some \<lparr>int_Type = SERVICE, int_Services = [''a'']\<rparr>\<rparr>"
  have 1: "distinct (map p_Name [?p, ?q])" by (simp add: sample_package_def)
  have 2: "\<forall>p \<in> set [?p, ?q]. \<forall>i \<in> set (asked_interrupts [] [] p). known_type i"
    by (simp add: asked_interrupts_def known_type_def)
  have 3: "fudgeInterruptWithPriority [?p, ?q] [] [] =
      Some (\<lparr>int_Type = SERVICE, int_Services = [''a'', ''b'']\<rparr>, ''kernel'')" by code_simp
  show ?thesis using interrupt_serves_all[OF 1 2] unfolding 3 Let_def by simp
qed

end
