(* ===== verification/Node_Merge.thy ===== *)
theory Node_Merge
  imports Node
begin

text \<open>
  Writing a node back: \<open>computeNodeStateDelta\<close>, \<open>apply\<close>, \<open>parseNodeState\<close> and \<open>saveNodeChanges\<close> of
  \<open>operator/internal/controller/skyhook_controller.go\<close>, and \<open>patchNodeState\<close> and \<open>readNodeForPatch\<close> of
  \<open>operator/internal/controller/job_controller.go\<close>.

  Three controllers write the same annotation of a node.  Each of them reads the node, computes a change
  and sends it under an optimistic lock, and tries again on a conflict, five times at most.  The API server
  and the other writers are parameters of the model: what the cache answers, which requests fail, what other
  writers do to the node before each read and between a read and the write that follows it, and how the
  server lays a patch over the stored node.
\<close>

section \<open>Deltas\<close>

definition nodeStateAnnotationKey :: "string \<Rightarrow> string" where
  "nodeStateAnnotationKey name = METADATA_PREFIX @ ''/nodeState_'' @ name"

text \<open>A value \<open>None\<close> marks a removal, as a nil pointer does.\<close>

type_synonym 'v delta = "(string, 'v option) gomap"

definition computeNodeStateDelta :: "(string, 'v) gomap \<Rightarrow> (string, 'v) gomap \<Rightarrow> 'v delta" where
  "computeNodeStateDelta before after =
     fold (\<lambda>(k, _) d. if map_of after k = None then gput k None d else d) before
       (fold (\<lambda>(k, v) d. if map_of before k \<noteq> Some v then gput k (Some v) d else d) after [])"

definition delta_apply :: "'v delta \<Rightarrow> (string, 'v) gomap \<Rightarrow> (string, 'v) gomap" where
  "delta_apply d current =
     fold (\<lambda>(k, status) merged. case status of None \<Rightarrow> gdel k merged | Some v \<Rightarrow> gput k v merged) d current"

datatype patch_error =
    Conflict
  | ReadFailed
  | PatchFailed
  | NodeNotFound
  | StateUnparsable
  | NoSnapshot
  | MutateFailed

text \<open>An absent or empty annotation is an empty state; \<open>None\<close> is an error.\<close>

definition parseNodeState :: "Node \<Rightarrow> string \<Rightarrow> (string, PackageStatus) gomap option" where
  "parseNodeState node key =
     (case map_of (n_Annotations node) key of
        None \<Rightarrow> Some []
      | Some raw \<Rightarrow>
          if raw = [] then Some []
          else (case unmarshal_state raw of None \<Rightarrow> None | Some ns \<Rightarrow> Some (or_empty ns)))"

section \<open>The API server and the other writers\<close>

type_synonym versioned = "Node \<times> nat"

datatype read_result = ReadError | Absent | Found versioned

text \<open>
  \<open>cached\<close> is what the cache answers in each attempt; \<open>before_read\<close> and \<open>before_patch\<close> are what other
  writers do to the stored node before the read of an attempt and between that read and the write.
  \<open>merge_patch base new current\<close> is the node the server stores when the difference between \<open>base\<close> and \<open>new\<close>
  is laid over \<open>current\<close>.
\<close>

record api_env =
  cached :: "nat \<Rightarrow> read_result"
  has_uncached :: bool
  read_fault :: "nat \<Rightarrow> bool"
  patch_fault :: "nat \<Rightarrow> bool"
  before_read :: "nat \<Rightarrow> versioned option \<Rightarrow> versioned option"
  before_patch :: "nat \<Rightarrow> versioned option \<Rightarrow> versioned option"
  merge_patch :: "Node \<Rightarrow> Node \<Rightarrow> Node \<Rightarrow> Node"

definition readNodeForPatch :: "api_env \<Rightarrow> nat \<Rightarrow> versioned option \<Rightarrow> read_result" where
  "readNodeForPatch env attempt server =
     (if attempt = 0 \<or> \<not> has_uncached env then cached env attempt
      else if read_fault env attempt then ReadError
      else (case server of None \<Rightarrow> Absent | Some found \<Rightarrow> Found found))"

text \<open>A patch with an optimistic lock on the resource version \<open>v\<close>.\<close>

definition locked_patch ::
  "api_env \<Rightarrow> nat \<Rightarrow> nat \<Rightarrow> Node \<Rightarrow> Node \<Rightarrow> versioned option \<Rightarrow> versioned option \<times> (patch_error + Node)" where
  "locked_patch env attempt v base new server =
     (if patch_fault env attempt then (server, Inl PatchFailed)
      else
        (case server of
           None \<Rightarrow> (server, Inl NodeNotFound)
         | Some (current, w) \<Rightarrow>
             if w \<noteq> v then (server, Inl Conflict)
             else let stored = merge_patch env base new current in (Some (stored, Suc w), Inr stored)))"

text \<open>\<open>retry.RetryOnConflict\<close>: another attempt after a conflict, the last conflict once the steps are used up.\<close>

fun RetryOnConflict ::
  "nat \<Rightarrow> (nat \<Rightarrow> 's \<Rightarrow> 's \<times> (patch_error + 'r)) \<Rightarrow> nat \<Rightarrow> 's \<Rightarrow> 's \<times> (patch_error + 'r)" where
  "RetryOnConflict 0 fn attempt s = (s, Inl Conflict)"
| "RetryOnConflict (Suc steps) fn attempt s =
     (case fn attempt s of
        (s', Inl Conflict) \<Rightarrow> RetryOnConflict steps fn (Suc attempt) s'
      | done \<Rightarrow> done)"

abbreviation DefaultRetry_Steps :: nat where
  "DefaultRetry_Steps \<equiv> 5"

section \<open>\<open>patchNodeState\<close>\<close>

text \<open>A mutation returns whether it changed the node, and the node; \<open>None\<close> is an error.\<close>

type_synonym node_mutation = "Node \<Rightarrow> (bool \<times> Node) option"

definition patch_attempt ::
  "api_env \<Rightarrow> node_mutation \<Rightarrow> nat \<Rightarrow> versioned option \<Rightarrow> versioned option \<times> (patch_error + unit)" where
  "patch_attempt env mutate attempt server =
     (let server1 = before_read env attempt server
      in case readNodeForPatch env attempt server1 of
           ReadError \<Rightarrow> (server1, Inl ReadFailed)
         | Absent \<Rightarrow> (server1, Inr ())
         | Found (node, v) \<Rightarrow>
             (case mutate node of
                None \<Rightarrow> (server1, Inl MutateFailed)
              | Some (changed, node') \<Rightarrow>
                  if \<not> changed then (server1, Inr ())
                  else (case locked_patch env attempt v node node' (before_patch env attempt server1) of
                          (server2, Inl e) \<Rightarrow> (server2, Inl e)
                        | (server2, Inr _) \<Rightarrow> (server2, Inr ()))))"

definition patchNodeState ::
  "api_env \<Rightarrow> node_mutation \<Rightarrow> versioned option \<Rightarrow> versioned option \<times> (patch_error + unit)" where
  "patchNodeState env mutate server = RetryOnConflict DefaultRetry_Steps (patch_attempt env mutate) 0 server"

section \<open>\<open>saveNodeChanges\<close>\<close>

text \<open>The wrapper's node gets the merged annotation before the patch, and is the stored node after it.\<close>

definition merge_current ::
  "string \<Rightarrow> PackageStatus delta \<Rightarrow> bool \<Rightarrow> Node \<Rightarrow> skyhookNode \<Rightarrow> skyhookNode option" where
  "merge_current key delta passKeptState fresh node =
     (if passKeptState \<and> delta \<noteq> [] then
        (case parseNodeState fresh key of
           None \<Rightarrow> None
         | Some current \<Rightarrow> Some (put_annotation key (marshal_state (delta_apply delta current)) node))
      else Some node)"

definition save_attempt ::
  "api_env \<Rightarrow> Node \<Rightarrow> string \<Rightarrow> PackageStatus delta \<Rightarrow> bool \<Rightarrow> nat \<Rightarrow> versioned option \<times> skyhookNode \<Rightarrow>
     (versioned option \<times> skyhookNode) \<times> (patch_error + unit)" where
  "save_attempt env original key delta passKeptState attempt st =
     (let (server, node) = st; server1 = before_read env attempt server
      in case readNodeForPatch env attempt server1 of
           ReadError \<Rightarrow> ((server1, node), Inl ReadFailed)
         | Absent \<Rightarrow> ((server1, node), Inr ())
         | Found (fresh, v) \<Rightarrow>
             (case merge_current key delta passKeptState fresh node of
                None \<Rightarrow> ((server1, node), Inl StateUnparsable)
              | Some node1 \<Rightarrow>
                  (case locked_patch env attempt v original (sn_Node node1) (before_patch env attempt server1) of
                     (server2, Inl e) \<Rightarrow> ((server2, node1), Inl e)
                   | (server2, Inr stored) \<Rightarrow>
                       (case ReloadState (node1\<lparr>sn_Node := stored\<rparr>) of
                          (node2, Inl _) \<Rightarrow> ((server2, node2), Inl StateUnparsable)
                        | (node2, Inr _) \<Rightarrow> ((server2, node2), Inr ())))))"

definition saveNodeChanges ::
  "api_env \<Rightarrow> Node option \<Rightarrow> string \<Rightarrow> versioned option \<times> skyhookNode \<Rightarrow>
     (versioned option \<times> skyhookNode) \<times> (patch_error + unit)" where
  "saveNodeChanges env original name st =
     (case original of
        None \<Rightarrow> (st, Inl NoSnapshot)
      | Some orig \<Rightarrow>
          (let key = nodeStateAnnotationKey name; node = snd st
           in case parseNodeState orig key of
                None \<Rightarrow> (st, Inl StateUnparsable)
              | Some before \<Rightarrow>
                  (case parseNodeState (sn_Node node) key of
                     None \<Rightarrow> (st, Inl StateUnparsable)
                   | Some after \<Rightarrow>
                       RetryOnConflict DefaultRetry_Steps
                         (save_attempt env orig key (computeNodeStateDelta before after)
                            (map_of (n_Annotations (sn_Node node)) key \<noteq> None)) 0 st)))"

section \<open>Deltas make a three-way merge\<close>

lemma fold_put_changed:
  "gomap_ok after \<Longrightarrow>
   map_of (fold (\<lambda>(k, v) d. if map_of before k \<noteq> Some v then gput k (Some v) d else d) after d) k =
     (if map_of after k \<noteq> None \<and> map_of before k \<noteq> map_of after k then Some (map_of after k) else map_of d k)"
proof (induction after arbitrary: d)
  case (Cons e after)
  obtain a v where e: "e = (a, v)" by (cases e)
  have "map_of after a = None" using Cons.prems by (simp add: e map_of_eq_None_iff)
  then show ?case using Cons by (cases "k = a") (auto simp: e)
qed simp

lemma fold_put_removed:
  "map_of (fold (\<lambda>(k, _) d. if map_of after k = None then gput k None d else d) before d) k =
     (if map_of before k \<noteq> None \<and> map_of after k = None then Some None else map_of d k)"
  by (induction before arbitrary: d) auto

lemma delta_lookup:
  "gomap_ok after \<Longrightarrow>
   map_of (computeNodeStateDelta before after) k =
     (if map_of before k = map_of after k then None else Some (map_of after k))"
  by (cases "map_of after k") (auto simp: computeNodeStateDelta_def fold_put_changed fold_put_removed)

lemma fold_invariant_list: "P s \<Longrightarrow> (\<And>x s. P s \<Longrightarrow> P (f x s)) \<Longrightarrow> P (fold f xs s)"
  by (induction xs arbitrary: s) auto

lemma delta_ok: "gomap_ok (computeNodeStateDelta before after)"
  unfolding computeNodeStateDelta_def
  by (intro fold_invariant_list[where P = gomap_ok]) (auto split: prod.splits)

lemma delta_apply_lookup:
  "gomap_ok d \<Longrightarrow> map_of (delta_apply d current) k = (case map_of d k of None \<Rightarrow> map_of current k | Some s \<Rightarrow> s)"
proof (induction d arbitrary: current)
  case (Cons e d)
  obtain a s where e: "e = (a, s)" by (cases e)
  let ?cur = "case s of None \<Rightarrow> gdel a current | Some v \<Rightarrow> gput a v current"
  have IH: "map_of (delta_apply d ?cur) k = (case map_of d k of None \<Rightarrow> map_of ?cur k | Some s \<Rightarrow> s)"
    using Cons by (simp add: e)
  have "map_of d a = None" using Cons.prems by (simp add: e map_of_eq_None_iff)
  then show ?case using IH by (cases s; cases "map_of d k") (auto simp: e delta_apply_def)
qed (simp add: delta_apply_def)

lemma three_way_merge:
  "gomap_ok after \<Longrightarrow>
   map_of (delta_apply (computeNodeStateDelta before after) current) k =
     (if map_of before k = map_of after k then map_of current k else map_of after k)"
  by (simp add: delta_apply_lookup[OF delta_ok] delta_lookup)

lemma delta_empty_iff:
  assumes "gomap_ok after"
  shows "computeNodeStateDelta before after = [] \<longleftrightarrow> map_of before = map_of after"
proof -
  have "computeNodeStateDelta before after = [] \<longleftrightarrow> map_of (computeNodeStateDelta before after) = Map.empty"
    by (simp only: map_of_eq_empty_iff)
  also have "\<dots> \<longleftrightarrow> (\<forall>k. map_of before k = map_of after k)"
    by (auto simp: fun_eq_iff delta_lookup[OF assms])
  finally show ?thesis by (simp add: fun_eq_iff)
qed

section \<open>Retrying on conflicts\<close>

text \<open>
  The contract of a function that is retried: \<open>starts i\<close> holds of the states in which attempt \<open>i\<close> may begin, and
  a conflict leads to a state in which the next attempt may begin.
\<close>

locale retried =
  fixes fn :: "nat \<Rightarrow> 's \<Rightarrow> 's \<times> (patch_error + 'r)" and starts :: "nat \<Rightarrow> 's \<Rightarrow> bool"
  assumes conflict_starts: "starts i s \<Longrightarrow> fn i s = (s', Inl Conflict) \<Longrightarrow> starts (Suc i) s'"
begin

lemma retry_settles:
  "starts i s \<Longrightarrow> RetryOnConflict n fn i s = (s', r) \<Longrightarrow> r \<noteq> Inl Conflict \<Longrightarrow>
     \<exists>j s0. j < i + n \<and> starts j s0 \<and> fn j s0 = (s', r)"
proof (induction n arbitrary: i s)
  case (Suc n)
  obtain t q where f: "fn i s = (t, q)" by (cases "fn i s")
  show ?case
  proof (cases "q = Inl Conflict")
    case True
    then have "\<exists>j s0. j < Suc i + n \<and> starts j s0 \<and> fn j s0 = (s', r)"
      using Suc.IH[of "Suc i" t] Suc.prems conflict_starts[of i s t] f by simp
    then show ?thesis by simp
  next
    case False
    then have "fn i s = (s', r)" using Suc.prems(2) f by (auto split: sum.splits patch_error.splits)
    then show ?thesis using Suc.prems(1) by (intro exI[of _ i] exI[of _ s]) simp
  qed
qed simp

lemma retry_succeeds:
  assumes "starts i s" and "i \<le> q" and "q < i + n"
    and "\<And>j s0 e. starts j s0 \<Longrightarrow> snd (fn j s0) = Inl e \<Longrightarrow> e = Conflict"
    and "\<And>s0. starts q s0 \<Longrightarrow> snd (fn q s0) \<noteq> Inl Conflict"
  shows "\<exists>v. snd (RetryOnConflict n fn i s) = Inr v"
  using assms(1-3)
proof (induction n arbitrary: i s)
  case (Suc n)
  obtain t c where f: "fn i s = (t, c)" by (cases "fn i s")
  show ?case
  proof (cases c)
    case (Inl e)
    then have c: "c = Inl Conflict" using assms(4)[OF Suc.prems(1)] f by simp
    then have "i \<noteq> q" using assms(5)[of s] Suc.prems(1) f by auto
    then show ?thesis
      using Suc.IH[of "Suc i" t] Suc.prems conflict_starts[of i s t] f c by simp
  qed (use f in simp)
qed simp

end

text \<open>
  The stored node when attempt \<open>i\<close> starts, when it reads and when it writes, after attempts that wrote nothing.
\<close>

fun server_start :: "api_env \<Rightarrow> nat \<Rightarrow> versioned option \<Rightarrow> versioned option" where
  "server_start env 0 server = server"
| "server_start env (Suc i) server = before_patch env i (before_read env i (server_start env i server))"

definition server_at_read :: "api_env \<Rightarrow> nat \<Rightarrow> versioned option \<Rightarrow> versioned option" where
  "server_at_read env i server = before_read env i (server_start env i server)"

abbreviation server_at_write :: "api_env \<Rightarrow> nat \<Rightarrow> versioned option \<Rightarrow> versioned option" where
  "server_at_write env i server \<equiv> server_start env (Suc i) server"

lemma server_write_read: "server_at_write env i server = before_patch env i (server_at_read env i server)"
  by (simp add: server_at_read_def)

lemma locked_patch_conflict: "locked_patch env i v base new server = (server', Inl e) \<Longrightarrow> server' = server"
  by (auto simp: locked_patch_def Let_def split: if_splits option.splits)

lemma locked_patch_done:
  "locked_patch env i v base new server = (server', Inr stored) \<longleftrightarrow>
     \<not> patch_fault env i \<and>
     (\<exists>current. server = Some (current, v) \<and> stored = merge_patch env base new current \<and> server' = Some (stored, Suc v))"
  by (auto simp: locked_patch_def Let_def split: if_splits option.splits)

interpretation patching: retried "patch_attempt env mutate" "\<lambda>i s. s = server_start env i server" for env mutate server
  by unfold_locales
     (auto simp: patch_attempt_def Let_def dest: locked_patch_conflict
        split: read_result.splits option.splits if_splits prod.splits sum.splits)

text \<open>Between attempts only the merged annotation of the wrapper's node changes.\<close>

definition same_but :: "string \<Rightarrow> skyhookNode \<Rightarrow> skyhookNode \<Rightarrow> bool" where
  "same_but key node node' \<longleftrightarrow> (\<exists>anns. node' = put_node (\<lambda>n. n\<lparr>n_Annotations := anns\<rparr>) node \<and>
     (\<forall>a. a \<noteq> key \<longrightarrow> map_of anns a = map_of (n_Annotations (sn_Node node)) a))"
lemma same_but_refl: "same_but key node node"
  by (auto simp: same_but_def put_node_def intro!: exI[of _ "n_Annotations (sn_Node node)"])

lemma same_but_put: "same_but key node node' \<Longrightarrow> same_but key node (put_annotation key s node')"
proof -
  assume "same_but key node node'"
  then obtain anns where a: "node' = put_node (\<lambda>n. n\<lparr>n_Annotations := anns\<rparr>) node"
    "\<forall>a. a \<noteq> key \<longrightarrow> map_of anns a = map_of (n_Annotations (sn_Node node)) a"
    by (auto simp: same_but_def)
  then have "put_annotation key s node' = put_node (\<lambda>n. n\<lparr>n_Annotations := gput key s anns\<rparr>) node"
    by (simp add: put_annotation_def put_node_def)
  then show ?thesis using a(2) unfolding same_but_def by (intro exI[of _ "gput key s anns"]) simp
qed

lemma merge_current_same:
  "merge_current key delta kept fresh node' = Some node1 \<Longrightarrow> same_but key node node' \<Longrightarrow> same_but key node node1"
  by (auto simp: merge_current_def same_but_put split: if_splits option.splits)

interpretation saving: retried "save_attempt env original key delta kept"
  "\<lambda>i s. fst s = server_start env i server \<and> same_but key node (snd s)" for env original key delta kept server node
  by unfold_locales
     (auto simp: save_attempt_def Let_def dest: locked_patch_conflict merge_current_same
        split: read_result.splits option.splits if_splits prod.splits sum.splits)

lemma save_attempt_done:
  "save_attempt env original key delta kept i (server, node) = ((server', node'), Inr ()) \<Longrightarrow>
     (server' = before_read env i server \<and> readNodeForPatch env i server' = Absent) \<or>
     (\<exists>fresh v node1 current.
        readNodeForPatch env i (before_read env i server) = Found (fresh, v) \<and>
        merge_current key delta kept fresh node = Some node1 \<and>
        before_patch env i (before_read env i server) = Some (current, v) \<and>
        server' = Some (merge_patch env original (sn_Node node1) current, Suc v) \<and>
        ReloadState (node1\<lparr>sn_Node := merge_patch env original (sn_Node node1) current\<rparr>) = (node', Inr ()))"
  by (auto simp: save_attempt_def Let_def locked_patch_done
        split: read_result.splits option.splits if_splits prod.splits sum.splits)

section \<open>No update is lost\<close>

text \<open>
  What the code relies on: a resource version names one content of the node, and the patch the server applies
  changes exactly the annotations that differ between its two sides.
\<close>

definition versions_identify :: "api_env \<Rightarrow> versioned option \<Rightarrow> bool" where
  "versions_identify env server \<longleftrightarrow>
     (\<forall>i node v current. readNodeForPatch env i (server_at_read env i server) = Found (node, v) \<longrightarrow>
        server_at_write env i server = Some (current, v) \<longrightarrow> current = node)"

definition patches_annotations :: "api_env \<Rightarrow> bool" where
  "patches_annotations env \<longleftrightarrow>
     (\<forall>base new current a. map_of (n_Annotations (merge_patch env base new current)) a =
        (if map_of (n_Annotations base) a = map_of (n_Annotations new) a
         then map_of (n_Annotations current) a else map_of (n_Annotations new) a))"

lemma parseNodeState_ok: "parseNodeState node key = Some m \<Longrightarrow> gomap_ok m \<and> entries_canonical m"
proof (cases "map_of (n_Annotations node) key")
  case (Some raw)
  assume "parseNodeState node key = Some m"
  then show ?thesis using Some unmarshal_ok[of raw]
    by (cases "unmarshal_state raw") (auto simp: parseNodeState_def entries_canonical_def split: if_splits option.splits)
qed (simp add: parseNodeState_def entries_canonical_def)

lemma canonical_lookup:
  "gomap_ok m \<Longrightarrow> entries_canonical m \<longleftrightarrow> (\<forall>k s. map_of m k = Some s \<longrightarrow> status_canonical s)"
  by (auto simp: entries_canonical_def list_all_iff)

lemma delta_apply_ok: "gomap_ok current \<Longrightarrow> gomap_ok (delta_apply d current)"
  unfolding delta_apply_def by (rule fold_invariant_list[where P = gomap_ok]) (auto split: option.splits)

lemma merged_canonical:
  assumes "gomap_ok after" "gomap_ok current" "entries_canonical after" "entries_canonical current"
  shows "entries_canonical (delta_apply (computeNodeStateDelta before after) current)"
  using assms(3,4)
  unfolding canonical_lookup[OF delta_apply_ok[OF assms(2)]] canonical_lookup[OF assms(1)] canonical_lookup[OF assms(2)]
  by (auto simp: three_way_merge[OF assms(1)] split: if_splits)
lemma marshal_parses:
  assumes "gomap_ok m" and "entries_canonical m" and "map_of (n_Annotations n) key = Some (marshal_state m)"
  shows "parseNodeState n key = Some (sort_key fst m)"
proof -
  have "marshal_state m \<noteq> []" by (simp add: marshal_state_def encode_state_def)
  then show ?thesis using assms unmarshal_marshal by (simp add: parseNodeState_def)
qed

text \<open>
  The merged text differs from the text the pass started from, so the patch mentions the annotation and the
  stored node has the merged state.
\<close>

lemma merged_stored:
  assumes env: "patches_annotations env"
    and before: "parseNodeState original key = Some before"
    and after: "gomap_ok after" "entries_canonical after" and changed: "map_of before \<noteq> map_of after"
    and cs: "gomap_ok cs" "entries_canonical cs"
    and new: "map_of (n_Annotations new) key = Some (marshal_state (delta_apply (computeNodeStateDelta before after) cs))"
  defines "merged \<equiv> sort_key fst (delta_apply (computeNodeStateDelta before after) cs)"
  shows "map_of (n_Annotations (merge_patch env original new current)) key =
      Some (marshal_state (delta_apply (computeNodeStateDelta before after) cs))"
    and "parseNodeState (merge_patch env original new current) key = Some merged"
    and "map_of merged k = (if map_of before k = map_of after k then map_of cs k else map_of after k)"
proof -
  let ?m = "delta_apply (computeNodeStateDelta before after) cs"
  have ok: "gomap_ok ?m" "entries_canonical ?m"
    using delta_apply_ok merged_canonical after cs by blast+
  show lookup: "map_of merged k = (if map_of before k = map_of after k then map_of cs k else map_of after k)" for k
    unfolding merged_def using ok(1) by (simp add: three_way_merge[OF after(1)])
  have "map_of (n_Annotations original) key \<noteq> Some (marshal_state ?m)"
  proof
    assume "map_of (n_Annotations original) key = Some (marshal_state ?m)"
    then have "before = merged" using marshal_parses[OF ok] before unfolding merged_def by simp
    then have "map_of before k = map_of after k" for k using lookup[of k] by (auto split: if_splits)
    then show False using changed by blast
  qed
  then show raw: "map_of (n_Annotations (merge_patch env original new current)) key = Some (marshal_state ?m)"
    using env new by (simp add: patches_annotations_def)
  show "parseNodeState (merge_patch env original new current) key = Some merged"
    unfolding merged_def by (rule marshal_parses[OF ok raw])
qed

lemma reload_stored:
  assumes "ReloadState (node\<lparr>sn_Node := stored\<rparr>) = (node', Inr ())"
    and "gomap_ok m" "entries_canonical m" and "map_of (n_Annotations stored) (nodeState_key node) = Some (marshal_state m)"
  shows "nodeState node' = Some (sort_key fst m)"
  using assms(1,4) unmarshal_marshal[OF assms(2,3)]
  by (auto simp: ReloadState_def Node_State_def annotation_def nodeState_key_def Let_def split: sum.splits option.splits)

lemma nodeState_key_name: "nodeState_key node = nodeStateAnnotationKey (skyhookName node)"
  by (simp add: nodeState_key_def nodeStateAnnotationKey_def meta_key_def)

lemma same_but_other:
  "same_but key node node' \<Longrightarrow> a \<noteq> key \<Longrightarrow> map_of (n_Annotations (sn_Node node')) a = map_of (n_Annotations (sn_Node node)) a"
  by (auto simp: same_but_def)

lemma same_but_name: "same_but key node node' \<Longrightarrow> skyhookName node' = skyhookName node"
  by (auto simp: same_but_def)
lemma save_settles:
  assumes saved: "saveNodeChanges env (Some original) (skyhookName node) (server, node) = ((server', node'), Inr ())"
    and before: "parseNodeState original (nodeState_key node) = Some before"
    and after: "parseNodeState (sn_Node node) (nodeState_key node) = Some after"
    and kept: "map_of (n_Annotations (sn_Node node)) (nodeState_key node) \<noteq> None"
  shows "\<exists>i<5. (server' = server_at_read env i server \<and> readNodeForPatch env i server' = Absent) \<or>
     (\<exists>fresh v node0 node1 current. same_but (nodeState_key node) node node0 \<and>
        readNodeForPatch env i (server_at_read env i server) = Found (fresh, v) \<and>
        merge_current (nodeState_key node) (computeNodeStateDelta before after) True fresh node0 = Some node1 \<and>
        server_at_write env i server = Some (current, v) \<and>
        server' = Some (merge_patch env original (sn_Node node1) current, Suc v) \<and>
        ReloadState (node1\<lparr>sn_Node := merge_patch env original (sn_Node node1) current\<rparr>) = (node', Inr ()))"
proof -
  let ?key = "nodeState_key node" and ?delta = "computeNodeStateDelta before after"
  have retried: "RetryOnConflict 5 (save_attempt env original ?key ?delta True) 0 (server, node) = ((server', node'), Inr ())"
    using saved before after kept by (simp add: saveNodeChanges_def nodeState_key_name)
  obtain i s0 where i: "i < 5" and s0: "fst s0 = server_start env i server" "same_but ?key node (snd s0)"
    and fin: "save_attempt env original ?key ?delta True i s0 = ((server', node'), Inr ())"
    using saving.retry_settles[OF _ retried, of server node] same_but_refl by auto
  have "s0 = (server_start env i server, snd s0)" using s0(1) by (simp add: prod_eq_iff)
  then have "save_attempt env original ?key ?delta True i (server_start env i server, snd s0) = ((server', node'), Inr ())"
    using fin by simp
  from save_attempt_done[OF this] show ?thesis using i s0(2) by (force simp: server_at_read_def)
qed

text \<open>
  C13. Saving a node loses no update: when a pass that changed some package of a node saves it and no error is
  returned, either the node is gone, or the stored node was written over the node as it was at that moment, with
  everything other writers had done to it.  Every package the pass changed has the pass's value and every other
  package has the value it had at the moment of writing; every other annotation is treated the same way.  The
  wrapper's cached state is the stored one.
\<close>

theorem save_no_lost_update:
  assumes saved: "saveNodeChanges env (Some original) (skyhookName node) (server, node) = ((server', node'), Inr ())"
    and versions: "versions_identify env server" and patches: "patches_annotations env"
    and before: "parseNodeState original (nodeState_key node) = Some before"
    and after: "parseNodeState (sn_Node node) (nodeState_key node) = Some after"
    and kept: "map_of (n_Annotations (sn_Node node)) (nodeState_key node) \<noteq> None"
    and changed: "map_of before \<noteq> map_of after"
  shows "(\<exists>i<5. server' = server_at_read env i server \<and> readNodeForPatch env i server' = Absent) \<or>
     (\<exists>i<5. \<exists>current v stored cs ms. server_at_write env i server = Some (current, v) \<and>
        server' = Some (stored, Suc v) \<and> parseNodeState current (nodeState_key node) = Some cs \<and>
        parseNodeState stored (nodeState_key node) = Some ms \<and> nodeState node' = Some ms \<and>
        (\<forall>k. map_of ms k = (if map_of before k = map_of after k then map_of cs k else map_of after k)) \<and>
        (\<forall>a. a \<noteq> nodeState_key node \<longrightarrow> map_of (n_Annotations stored) a =
           (if map_of (n_Annotations original) a = map_of (n_Annotations (sn_Node node)) a
            then map_of (n_Annotations current) a else map_of (n_Annotations (sn_Node node)) a)))"
proof -
  let ?key = "nodeState_key node" and ?delta = "computeNodeStateDelta before after"
  have after_ok: "gomap_ok after" "entries_canonical after" using parseNodeState_ok[OF after] by simp_all
  have delta: "?delta \<noteq> []" using changed delta_empty_iff[OF after_ok(1)] by simp
  obtain i where i: "i < 5" and fin:
    "(server' = server_at_read env i server \<and> readNodeForPatch env i server' = Absent) \<or>
     (\<exists>fresh v node0 node1 current. same_but ?key node node0 \<and>
        readNodeForPatch env i (server_at_read env i server) = Found (fresh, v) \<and>
        merge_current ?key ?delta True fresh node0 = Some node1 \<and> server_at_write env i server = Some (current, v) \<and>
        server' = Some (merge_patch env original (sn_Node node1) current, Suc v) \<and>
        ReloadState (node1\<lparr>sn_Node := merge_patch env original (sn_Node node1) current\<rparr>) = (node', Inr ()))"
    using save_settles[OF saved before after kept] by blast
  show ?thesis
  proof (cases "server' = server_at_read env i server \<and> readNodeForPatch env i server' = Absent")
    case False
    then obtain fresh v node0 node1 current where same0: "same_but ?key node node0"
      and read: "readNodeForPatch env i (server_at_read env i server) = Found (fresh, v)"
      and merge: "merge_current ?key ?delta True fresh node0 = Some node1"
      and "write": "server_at_write env i server = Some (current, v)"
      and server': "server' = Some (merge_patch env original (sn_Node node1) current, Suc v)"
      and reload: "ReloadState (node1\<lparr>sn_Node := merge_patch env original (sn_Node node1) current\<rparr>) = (node', Inr ())"
      using fin by blast
    have fresh: "fresh = current" using versions read "write" unfolding versions_identify_def by blast
    obtain cs where cs: "parseNodeState current ?key = Some cs"
      and node1: "node1 = put_annotation ?key (marshal_state (delta_apply ?delta cs)) node0"
      using merge delta fresh by (auto simp: merge_current_def split: option.splits)
    have cs_ok: "gomap_ok cs" "entries_canonical cs" using parseNodeState_ok[OF cs] by simp_all
    have new: "map_of (n_Annotations (sn_Node node1)) ?key = Some (marshal_state (delta_apply ?delta cs))"
      by (simp add: node1 put_annotation_def)
    note stored = merged_stored[OF patches before after_ok changed cs_ok new]
    have same: "same_but ?key node node1" using same_but_put[OF same0] by (simp add: node1)
    have key: "nodeState_key node1 = ?key" using same_but_name[OF same] by (simp add: nodeState_key_name)
    have "nodeState node' = Some (sort_key fst (delta_apply ?delta cs))"
      by (rule reload_stored[OF reload delta_apply_ok[OF cs_ok(1)] merged_canonical[OF after_ok(1) cs_ok(1) after_ok(2) cs_ok(2)]])
         (use stored(1) key in simp)
    moreover have "map_of (n_Annotations (merge_patch env original (sn_Node node1) current)) a =
        (if map_of (n_Annotations original) a = map_of (n_Annotations (sn_Node node)) a
         then map_of (n_Annotations current) a else map_of (n_Annotations (sn_Node node)) a)" if "a \<noteq> ?key" for a
      using patches same_but_other[OF same that] by (simp add: patches_annotations_def)
    ultimately show ?thesis using i "write" server' cs stored(2)[of current] stored(3) by blast
  qed (use i in blast)
qed
section \<open>An undisturbed attempt succeeds\<close>

text \<open>No request fails, and the node stays there with a state that can be read.\<close>

definition calm :: "api_env \<Rightarrow> string \<Rightarrow> versioned option \<Rightarrow> bool" where
  "calm env key server \<longleftrightarrow> has_uncached env \<and>
     (\<forall>i. \<not> patch_fault env i \<and> server_at_write env i server \<noteq> None \<and>
        readNodeForPatch env i (server_at_read env i server) \<noteq> ReadError \<and>
        (\<forall>fresh v. readNodeForPatch env i (server_at_read env i server) = Found (fresh, v) \<longrightarrow>
           parseNodeState fresh key \<noteq> None))"

lemma reload_succeeds:
  assumes "gomap_ok m" "entries_canonical m" and "map_of (n_Annotations stored) (nodeState_key node) = Some (marshal_state m)"
  shows "\<exists>node'. ReloadState (node\<lparr>sn_Node := stored\<rparr>) = (node', Inr ())"
  using assms(3) unmarshal_marshal[OF assms(1,2)]
  by (simp add: ReloadState_def Node_State_def annotation_def nodeState_key_def Let_def)

lemma save_attempt_conflict:
  assumes patches: "patches_annotations env" and calm: "calm env (nodeState_key node) server"
    and before: "parseNodeState original (nodeState_key node) = Some before"
    and after: "gomap_ok after" "entries_canonical after" and changed: "map_of before \<noteq> map_of after"
    and same: "same_but (nodeState_key node) node node0"
    and res: "snd (save_attempt env original (nodeState_key node) (computeNodeStateDelta before after) True i
                (server_start env i server, node0)) = Inl e"
  shows "e = Conflict \<and> (\<exists>fresh v. readNodeForPatch env i (server_at_read env i server) = Found (fresh, v) \<and>
     (\<forall>current. server_at_write env i server \<noteq> Some (current, v)))"
proof -
  let ?key = "nodeState_key node" and ?delta = "computeNodeStateDelta before after"
  have delta: "?delta \<noteq> []" using changed delta_empty_iff[OF after(1)] by simp
  note defs = save_attempt_def Let_def server_at_read_def[symmetric]
  obtain fresh v where read: "readNodeForPatch env i (server_at_read env i server) = Found (fresh, v)"
    using res calm
    by (cases "readNodeForPatch env i (server_at_read env i server)") (auto simp: defs calm_def)
  then obtain cs where cs: "parseNodeState fresh ?key = Some cs" using calm by (auto simp: calm_def)
  have cs_ok: "gomap_ok cs" "entries_canonical cs" using parseNodeState_ok[OF cs] by simp_all
  define node1 where "node1 = put_annotation ?key (marshal_state (delta_apply ?delta cs)) node0"
  have merge: "merge_current ?key ?delta True fresh node0 = Some node1"
    using delta cs by (simp add: merge_current_def node1_def)
  have new: "map_of (n_Annotations (sn_Node node1)) ?key = Some (marshal_state (delta_apply ?delta cs))"
    by (simp add: node1_def put_annotation_def)
  have "same_but ?key node node1" using same_but_put[OF same] by (simp add: node1_def)
  then have key: "nodeState_key node1 = ?key" using same_but_name by (simp add: nodeState_key_name)
  obtain current w where server: "server_at_write env i server = Some (current, w)" and fault: "\<not> patch_fault env i"
    using calm unfolding calm_def by fastforce
  have reload: "\<exists>node'. ReloadState (node1\<lparr>sn_Node := merge_patch env original (sn_Node node1) current\<rparr>) = (node', Inr ())"
    using merged_stored(1)[OF patches before after changed cs_ok new] key
    by (intro reload_succeeds[OF delta_apply_ok[OF cs_ok(1)] merged_canonical[OF after(1) cs_ok(1) after(2) cs_ok(2)]]) simp
  have "w \<noteq> v" "e = Conflict"
    using res read merge server fault reload
    by (auto simp: defs locked_patch_def server_write_read[symmetric] simp del: server_start.simps split: if_splits)
  then show ?thesis using read server by auto
qed

lemma save_returns:
  assumes patches: "patches_annotations env" and calm: "calm env (nodeState_key node) server"
    and before: "parseNodeState original (nodeState_key node) = Some before"
    and after: "parseNodeState (sn_Node node) (nodeState_key node) = Some after"
    and kept: "map_of (n_Annotations (sn_Node node)) (nodeState_key node) \<noteq> None"
    and changed: "map_of before \<noteq> map_of after"
    and q: "0 < q" "q < 5" and quiet: "server_at_write env q server = server_at_read env q server"
  shows "\<exists>server' node'. saveNodeChanges env (Some original) (skyhookName node) (server, node) = ((server', node'), Inr ())"
proof -
  let ?key = "nodeState_key node" and ?delta = "computeNodeStateDelta before after"
  let ?fn = "save_attempt env original ?key ?delta True"
  have after_ok: "gomap_ok after" "entries_canonical after" using parseNodeState_ok[OF after] by simp_all
  note conflict = save_attempt_conflict[OF patches calm before after_ok changed]
  have "\<exists>u. snd (RetryOnConflict 5 ?fn 0 (server, node)) = Inr u"
  proof (rule saving.retry_succeeds[where server = server and node = node and q = q])
    fix j s0 e assume "fst s0 = server_start env j server \<and> same_but ?key node (snd s0)" and "snd (?fn j s0) = Inl e"
    then show "e = Conflict" using conflict[of "snd s0" j e] by (cases s0) simp
  next
    fix s0 assume s0: "fst s0 = server_start env q server \<and> same_but ?key node (snd s0)"
    show "snd (?fn q s0) \<noteq> Inl Conflict"
    proof
      assume "snd (?fn q s0) = Inl Conflict"
      then have "\<exists>fresh v. readNodeForPatch env q (server_at_read env q server) = Found (fresh, v) \<and>
          (\<forall>current. server_at_write env q server \<noteq> Some (current, v))"
        using conflict[of "snd s0" q Conflict] s0 by (cases s0) simp
      then show False
        using q(1) quiet calm by (auto simp: readNodeForPatch_def calm_def split: if_splits option.splits)
    qed
  qed (use q in \<open>simp_all add: same_but_refl\<close>)
  then show ?thesis
    using before after kept by (cases "RetryOnConflict 5 ?fn 0 (server, node)") (auto simp: saveNodeChanges_def nodeState_key_name)
qed
text \<open>
  Saving a node gets through: when no request fails and the node stays readable, one attempt after the first
  that no other writer disturbs is enough for the save to return without an error, whatever happened in the others.
\<close>

theorem save_succeeds:
  assumes "patches_annotations env" and "calm env (nodeState_key node) server"
    and "parseNodeState original (nodeState_key node) = Some before"
    and "parseNodeState (sn_Node node) (nodeState_key node) = Some after"
    and "map_of (n_Annotations (sn_Node node)) (nodeState_key node) \<noteq> None"
    and "map_of before \<noteq> map_of after"
    and "0 < q" "q < 5" and "server_at_write env q server = server_at_read env q server"
  shows "snd (saveNodeChanges env (Some original) (skyhookName node) (server, node)) = Inr ()"
  using save_returns[OF assms] by auto

section \<open>A save that meets another writer\<close>

text \<open>The merge of annotations, labels, taints and the scheduling flag that a strategic merge patch makes.\<close>

definition strategic_merge :: "Node \<Rightarrow> Node \<Rightarrow> Node \<Rightarrow> Node" where
  "strategic_merge base new current =
     current\<lparr>n_Annotations := delta_apply (computeNodeStateDelta (n_Annotations base) (AList.clearjunk (n_Annotations new))) (n_Annotations current),
       n_Labels := delta_apply (computeNodeStateDelta (n_Labels base) (AList.clearjunk (n_Labels new))) (n_Labels current),
       n_Taints := (if n_Taints base = n_Taints new then n_Taints current else n_Taints new),
       Unschedulable := (if Unschedulable base = Unschedulable new then Unschedulable current else Unschedulable new)\<rparr>"

definition entry :: "string \<Rightarrow> Stage \<Rightarrow> State \<Rightarrow> string \<times> PackageStatus" where
  "entry name stage state =
     (name @ ''|1.0.0'', \<lparr>ps_Name = name, ps_Version = ''1.0.0'', ps_Image = ''ghcr.io/pkg'', ps_ContainerSHA = [],
        ps_Stage = stage, ps_State = state, ps_Restarts = 0\<rparr>)"

definition noted :: "(string, PackageStatus) gomap \<Rightarrow> Node" where
  "noted m = sample_node\<lparr>n_Annotations := [(nodeStateAnnotationKey ''sample'', marshal_state m)]\<rparr>"

definition state_seen :: "(string, PackageStatus) gomap" where
  "state_seen = [entry ''tuning'' StageApply StateInProgress]"

definition state_passed :: "(string, PackageStatus) gomap" where
  "state_passed = [entry ''tuning'' StageApply StateInProgress, entry ''kernel'' StageApply StateInProgress]"

definition state_other :: "(string, PackageStatus) gomap" where
  "state_other = [entry ''tuning'' StageApply StateComplete]"

definition sample_pass :: skyhookNode where
  "sample_pass = NewSkyhookNodeOnly (noted state_passed) ''sample''"

text \<open>Between the first read and its write another controller records a completion.\<close>

definition sample_api :: api_env where
  "sample_api =
     \<lparr>cached = (\<lambda>_. Found (noted state_seen, 7)), has_uncached = True, read_fault = (\<lambda>_. False),
      patch_fault = (\<lambda>_. False), before_read = (\<lambda>_ s. s),
      before_patch = (\<lambda>i s. if i = 0 then Some (noted state_other, 8) else s),
      merge_patch = strategic_merge\<rparr>"

lemma sample_merges: "patches_annotations sample_api"
  by (simp add: patches_annotations_def sample_api_def strategic_merge_def three_way_merge map_of_clearjunk)

lemma noted_parses:
  "gomap_ok m \<Longrightarrow> entries_canonical m \<Longrightarrow> parseNodeState (noted m) (nodeStateAnnotationKey ''sample'') = Some (sort_key fst m)"
  by (rule marshal_parses) (simp_all add: noted_def)

lemma sample_states_ok:
  "gomap_ok state_seen" "entries_canonical state_seen" "gomap_ok state_passed" "entries_canonical state_passed"
  "gomap_ok state_other" "entries_canonical state_other"
  by code_simp+

lemma sample_key: "nodeState_key sample_pass = nodeStateAnnotationKey ''sample''" "skyhookName sample_pass = ''sample''"
    "sn_Node sample_pass = noted state_passed"
  by (simp_all add: sample_pass_def nodeState_key_name)

lemma sample_start: "server_start sample_api i (Some (noted state_seen, 7)) = Some (if i = 0 then (noted state_seen, 7) else (noted state_other, 8))"
  by (induction i) (simp_all add: sample_api_def)

lemma sample_read:
  "server_at_read sample_api i (Some (noted state_seen, 7)) = Some (if i = 0 then (noted state_seen, 7) else (noted state_other, 8))"
  unfolding server_at_read_def sample_start by (simp add: sample_api_def)

lemma sample_found:
  "readNodeForPatch sample_api i s = (if i = 0 then Found (noted state_seen, 7) else case s of None \<Rightarrow> Absent | Some f \<Rightarrow> Found f)"
  by (simp add: readNodeForPatch_def sample_api_def)

lemmas sample_parses = noted_parses[OF sample_states_ok(1,2)] noted_parses[OF sample_states_ok(3,4)] noted_parses[OF sample_states_ok(5,6)]

lemma sample_calm: "calm sample_api (nodeState_key sample_pass) (Some (noted state_seen, 7))"
  unfolding calm_def sample_key sample_start sample_read
  by (auto simp: sample_found sample_parses) (simp_all add: sample_api_def)

lemma sample_changed: "map_of (sort_key fst state_seen) \<noteq> map_of (sort_key fst state_passed)"
proof
  assume "map_of (sort_key fst state_seen) = map_of (sort_key fst state_passed)"
  then have "map_of state_seen (''kernel'' @ ''|1.0.0'') = map_of state_passed (''kernel'' @ ''|1.0.0'')"
    by (simp add: sample_states_ok)
  then show False by (simp add: state_seen_def state_passed_def entry_def)
qed

lemma sample_kept: "map_of (n_Annotations (sn_Node sample_pass)) (nodeState_key sample_pass) \<noteq> None"
  unfolding sample_key by (simp add: noted_def)

lemma sample_versions: "versions_identify sample_api (Some (noted state_seen, 7))"
  unfolding versions_identify_def sample_start sample_read by (auto simp: sample_found)

lemmas sample_save = sample_parses(1) [folded sample_key(1)] sample_parses(2) [folded sample_key(1,3)] sample_kept sample_changed

theorem save_succeeds_witness:
  "snd (saveNodeChanges sample_api (Some (noted state_seen)) ''sample'' (Some (noted state_seen, 7), sample_pass)) = Inr ()"
  unfolding sample_key(2)[symmetric]
  by (rule save_succeeds[OF sample_merges sample_calm sample_save, where q = 1]) (simp_all only: sample_start sample_read, simp_all)

theorem save_no_lost_update_witness:
  "\<exists>stored v node' ms.
     saveNodeChanges sample_api (Some (noted state_seen)) ''sample'' (Some (noted state_seen, 7), sample_pass) =
       ((Some (stored, v), node'), Inr ()) \<and>
     parseNodeState stored (nodeStateAnnotationKey ''sample'') = Some ms \<and>
     map_of ms ''tuning|1.0.0'' = map_of state_other ''tuning|1.0.0''"
proof -
  let ?server = "Some (noted state_seen, 7)"
  obtain server' node' where saved:
    "saveNodeChanges sample_api (Some (noted state_seen)) (skyhookName sample_pass) (?server, sample_pass) = ((server', node'), Inr ())"
    using save_returns[OF sample_merges sample_calm sample_save, of 1] unfolding sample_start sample_read by auto
  have present: "\<not> (server' = server_at_read sample_api i ?server \<and> readNodeForPatch sample_api i server' = Absent)" for i
    unfolding sample_read by (auto simp: sample_found)
  obtain i current v stored cs ms where w: "server_at_write sample_api i ?server = Some (current, v)"
    "server' = Some (stored, Suc v)" "parseNodeState current (nodeState_key sample_pass) = Some cs"
    "parseNodeState stored (nodeState_key sample_pass) = Some ms"
    and ms: "\<forall>k. map_of ms k = (if map_of (sort_key fst state_seen) k = map_of (sort_key fst state_passed) k then map_of cs k
                 else map_of (sort_key fst state_passed) k)"
    using save_no_lost_update[OF saved sample_versions sample_merges sample_save] present by blast
  have "cs = sort_key fst state_other" using w(1,3) unfolding sample_start sample_key by (auto simp: sample_parses)
  moreover have "map_of state_seen ''tuning|1.0.0'' = map_of state_passed ''tuning|1.0.0''"
    by (simp add: state_seen_def state_passed_def entry_def)
  ultimately have "map_of ms ''tuning|1.0.0'' = map_of state_other ''tuning|1.0.0''"
    using ms by (simp add: sample_states_ok)
  then show ?thesis using saved w(2,4) unfolding sample_key by blast
qed
section \<open>Changes through \<open>patchNodeState\<close> are atomic\<close>

lemma patch_settles:
  assumes "patchNodeState env mutate server = (server', Inr ())" and "versions_identify env server"
  shows "\<exists>i<5.
     (server' = server_at_read env i server \<and> readNodeForPatch env i server' = Absent) \<or>
     (\<exists>node v node'. server' = server_at_read env i server \<and> readNodeForPatch env i server' = Found (node, v) \<and>
        mutate node = Some (False, node')) \<or>
     (\<exists>current v node'. server_at_write env i server = Some (current, v) \<and> mutate current = Some (True, node') \<and>
        server' = Some (merge_patch env current node' current, Suc v))"
proof -
  have retry: "RetryOnConflict 5 (patch_attempt env mutate) 0 server = (server', Inr ())"
    using assms(1) by (simp add: patchNodeState_def)
  obtain i where i: "i < 5" and fin: "patch_attempt env mutate i (server_start env i server) = (server', Inr ())"
    using patching.retry_settles[OF _ retry, of server] by auto
  note attempt = fin[unfolded patch_attempt_def Let_def server_at_read_def[symmetric] server_write_read[symmetric]]
  show ?thesis
  proof (cases "readNodeForPatch env i (server_at_read env i server)")
    case (Found found)
    obtain node v where f: "found = (node, v)" by (cases found)
    obtain changed node' where m: "mutate node = Some (changed, node')" using attempt Found f by (cases "mutate node") auto
    show ?thesis
    proof (cases changed)
      case True
      obtain current where w: "server_at_write env i server = Some (current, v)"
        and s: "server' = Some (merge_patch env node node' current, Suc v)"
        using attempt Found f m True
        by (auto simp: locked_patch_done simp del: server_start.simps split: prod.splits sum.splits)
      have "current = node" using assms(2) Found f w unfolding versions_identify_def by blast
      then show ?thesis using w s m True by (intro exI[of _ i] conjI[OF i] disjI2) auto
    qed (use attempt Found f m i in auto)
  qed (use attempt i in auto)
qed

end
