(* ===== verification/Workloads.thy ===== *)
theory Workloads
  imports Rollout
begin

text \<open>
  The Kubernetes workloads the operator builds and watches, with the fields of \<open>k8s.io/api/core/v1\<close> and
  \<open>k8s.io/api/batch/v1\<close> it reads or writes, and the options of the operator
  (\<open>SkyhookOperatorOptions\<close> of \<open>operator/internal/controller/skyhook_controller.go\<close>) with the taints they name.
  Times and durations are in nanoseconds.
\<close>

section \<open>Pods\<close>

text \<open>A nil map of limits or requests is told from an empty one.\<close>

record ContainerResources =
  cr_Limits :: "(string, rat) gomap option"
  cr_Requests :: "(string, rat) gomap option"

record VolumeMount =
  vm_Name :: string
  vm_MountPath :: string
  vm_SubPath :: string
  vm_ReadOnly :: bool
  vm_Propagation :: string

record Container =
  ctr_Name :: string
  ctr_Image :: string
  ctr_PullPolicy :: string
  ctr_Command :: "string list"
  ctr_Args :: "string list"
  ctr_Env :: "EnvVar list"
  ctr_Resources :: ContainerResources
  ctr_Privileged :: bool
  ctr_Mounts :: "VolumeMount list"

datatype VolumeSource = HostPath string | ConfigMapVolume string | EmptyDir | OtherVolume

record Volume =
  vol_Name :: string
  vol_Source :: VolumeSource

record PodSpec =
  sp_NodeName :: string
  sp_RestartPolicy :: string
  sp_InitContainers :: "Container list"
  sp_Containers :: "Container list"
  sp_Volumes :: "Volume list"
  sp_HostPID :: bool
  sp_HostNetwork :: bool
  sp_Tolerations :: "Toleration list"
  sp_ImagePullSecrets :: "string list"
  sp_TerminationGracePeriodSeconds :: "int option"
  sp_ActiveDeadlineSeconds :: "int option"

text \<open>The state of a container: at most one of the three pointers is meant to be set.\<close>

record ContainerStatus =
  ct_Name :: string
  ct_Waiting :: "(string \<times> string) option"
  ct_Running :: bool
  ct_Terminated :: "(int \<times> string) option"
  ct_RestartCount :: int

text \<open>\<open>pod_Controller\<close> is the kind of the owner that controls the pod.\<close>

record Pod =
  pod_Name :: string
  pod_Namespace :: string
  pod_Labels :: "(string, string) gomap"
  pod_Annotations :: "(string, string) gomap"
  pod_Controller :: "string option"
  pod_Spec :: PodSpec
  pod_Phase :: string
  pod_Reason :: string
  pod_Conditions :: "(string \<times> string) list"
  InitContainerStatuses :: "ContainerStatus list"
  pod_DeletionTimestamp :: "int option"
  pod_CreationTimestamp :: int

section \<open>Jobs\<close>

record PodTemplate =
  tp_Labels :: "(string, string) gomap"
  tp_Annotations :: "(string, string) gomap"
  tp_Spec :: PodSpec

record PodFailurePolicyRule =
  fr_Action :: string
  fr_OnPodConditions :: "(string \<times> string) list"

record JobSpec =
  js_Parallelism :: int
  js_Completions :: int
  js_PodReplacementPolicy :: string
  js_PodFailurePolicy :: "PodFailurePolicyRule list option"
  js_BackoffLimit :: int
  js_ActiveDeadlineSeconds :: "int option"
  js_TTLSecondsAfterFinished :: "int option"
  js_Suspend :: bool
  js_Template :: PodTemplate

record JobCondition =
  jc_Type :: string
  jc_Status :: string
  jc_Reason :: string
  jc_LastTransitionTime :: int

record Job =
  job_Name :: string
  job_Namespace :: string
  job_Labels :: "(string, string) gomap"
  job_Annotations :: "(string, string) gomap"
  job_Spec :: JobSpec
  job_Conditions :: "JobCondition list"
  job_Failed :: int
  job_DeletionTimestamp :: "int option"

definition jobNodeName :: "Job \<Rightarrow> string" where
  "jobNodeName job = sp_NodeName (tp_Spec (js_Template (job_Spec job)))"

section \<open>Options\<close>

record SkyhookOperatorOptions =
  opt_Namespace :: string
  opt_MaxInterval :: int
  opt_ImagePullSecret :: string
  opt_CopyDirRoot :: string
  opt_ReapplyOnReboot :: bool
  opt_RuntimeRequiredTaint :: string
  opt_PauseImage :: string
  opt_AgentImage :: string
  opt_AgentLogRoot :: string
  opt_LegacyCleanupDelay :: int
  opt_PublishLegacyMetrics :: bool
  opt_JobTTLSucceeded :: int
  opt_JobTTLFailed :: int
  opt_JobStageTimeout :: int
  opt_JobBackoffLimit :: int

section \<open>Taints\<close>

text \<open>
  \<open>ParseTaints\<close> of \<open>k8s.io/kubernetes/pkg/util/taints\<close> for a single taint, as the operator calls it: the taints to
  add and the taints to remove; \<open>None\<close> is an error.
\<close>

definition validateTaintEffect :: "string \<Rightarrow> bool" where
  "validateTaintEffect effect \<longleftrightarrow> effect \<in> {''NoSchedule'', ''PreferNoSchedule'', ''NoExecute''}"

definition parseTaint :: "string \<Rightarrow> Taint option" where
  "parseTaint st =
     (let finish = (\<lambda>key value effect. if IsLabelKey key then Some \<lparr>t_Key = key, t_Value = value, t_Effect = effect\<rparr> else None)
      in case split_on CHR '':'' st of
           [key] \<Rightarrow> finish key [] []
         | [kv, effect] \<Rightarrow>
             if \<not> validateTaintEffect effect then None
             else
               (case split_on CHR ''='' kv of
                  [key] \<Rightarrow> finish key [] effect
                | [key, value] \<Rightarrow> if IsLabelValue value then finish key value effect else None
                | _ \<Rightarrow> None)
         | _ \<Rightarrow> None)"

definition ParseTaints :: "string \<Rightarrow> (Taint list \<times> Taint list) option" where
  "ParseTaints spec =
     (if has_suffix spec ''-'' then
        (case parseTaint (butlast spec) of
           None \<Rightarrow> None
         | Some t \<Rightarrow> Some ([], [\<lparr>t_Key = t_Key t, t_Value = [], t_Effect = t_Effect t\<rparr>]))
      else
        (case parseTaint spec of
           None \<Rightarrow> None
         | Some t \<Rightarrow> if t_Effect t = [] then None else Some ([t], [])))"

definition MatchTaint :: "Taint \<Rightarrow> Taint \<Rightarrow> bool" where
  "MatchTaint t u \<longleftrightarrow> t_Key t = t_Key u \<and> t_Effect t = t_Effect u"

definition TaintExists :: "Taint list \<Rightarrow> Taint \<Rightarrow> bool" where
  "TaintExists ts t = list_ex (\<lambda>u. MatchTaint u t) ts"

definition RemoveTaint :: "Taint list \<Rightarrow> Taint \<Rightarrow> Taint list \<times> bool" where
  "RemoveTaint ts t = (if TaintExists ts t then (filter (\<lambda>u. \<not> MatchTaint t u) ts, True) else (ts, False))"

text \<open>The loop of \<open>AddOrUpdateTaint\<close>: \<open>None\<close> when the taint is there already.\<close>

fun update_taint :: "Taint \<Rightarrow> Taint list \<Rightarrow> (Taint list \<times> bool) option" where
  "update_taint t [] = Some ([], False)"
| "update_taint t (u # us) =
     (if MatchTaint t u then
        (if t = u then None else map_option (\<lambda>(ts, _). (t # ts, True)) (update_taint t us))
      else map_option (\<lambda>(ts, updated). (u # ts, updated)) (update_taint t us))"

definition AddOrUpdateTaint :: "Taint list \<Rightarrow> Taint \<Rightarrow> Taint list \<times> bool" where
  "AddOrUpdateTaint ts t =
     (case update_taint t ts of
        None \<Rightarrow> (ts, False)
      | Some (us, updated) \<Rightarrow> (if updated then us else us @ [t], True))"

definition legacyRuntimeRequiredTaint :: string where
  "legacyRuntimeRequiredTaint = ''skyhook.nvidia.com=runtime-required:NoSchedule''"

text \<open>\<open>None\<close> is the panic of indexing an empty list; \<open>Validate\<close> rules it out.\<close>

definition GetRuntimeRequiredTaint :: "SkyhookOperatorOptions \<Rightarrow> Taint option" where
  "GetRuntimeRequiredTaint opts =
     (case ParseTaints (opt_RuntimeRequiredTaint opts) of Some (t # _, _) \<Rightarrow> Some t | _ \<Rightarrow> None)"

definition GetRuntimeRequiredTaints :: "SkyhookOperatorOptions \<Rightarrow> Taint list option" where
  "GetRuntimeRequiredTaints opts =
     (case GetRuntimeRequiredTaint opts of
        None \<Rightarrow> None
      | Some configured \<Rightarrow>
          (case ParseTaints legacyRuntimeRequiredTaint of
             Some (legacy # _, _) \<Rightarrow> Some (if MatchTaint configured legacy then [configured] else [configured, legacy])
           | _ \<Rightarrow> None))"

definition GetRuntimeRequiredTolerations :: "SkyhookOperatorOptions \<Rightarrow> Toleration list option" where
  "GetRuntimeRequiredTolerations opts =
     map_option (map (\<lambda>t. \<lparr>tol_Key = t_Key t, tol_Operator = ''Equal'', tol_Value = t_Value t, tol_Effect = t_Effect t\<rparr>))
       (GetRuntimeRequiredTaints opts)"

definition hasAnyTaint :: "Node \<Rightarrow> Taint list \<Rightarrow> bool" where
  "hasAnyTaint node ts = list_ex (TaintExists (n_Taints node)) ts"

datatype options_error =
    NamespaceUnset | CopyDirRootUnset | TaintUnset | MaxIntervalTooShort | CopyDirRootRelative | TaintInvalid | TaintDeletion
  | AgentImageUnset | AgentImageUntagged | PauseImageUnset | PauseImageUntagged
  | JobTTLSucceededTooShort | JobTTLFailedTooShort | JobStageTimeoutNegative | JobBackoffLimitNegative

definition minute :: int where
  "minute = 60 * 1000000000"

text \<open>The messages that are joined to the error; none means that the options are accepted.\<close>

definition Options_Validate :: "SkyhookOperatorOptions \<Rightarrow> options_error list" where
  "Options_Validate o' =
     (let on = (\<lambda>c e. if c then [e] else []) in
      on (opt_Namespace o' = []) NamespaceUnset @
      on (opt_CopyDirRoot o' = []) CopyDirRootUnset @
      on (opt_RuntimeRequiredTaint o' = []) TaintUnset @
      on (opt_MaxInterval o' < minute) MaxIntervalTooShort @
      on (\<not> has_prefix (opt_CopyDirRoot o') ''/'') CopyDirRootRelative @
      (case ParseTaints (opt_RuntimeRequiredTaint o') of
         None \<Rightarrow> [TaintInvalid]
       | Some (_, removed) \<Rightarrow> on (removed \<noteq> []) TaintDeletion) @
      on (opt_AgentImage o' = []) AgentImageUnset @
      on (CHR '':'' \<notin> set (opt_AgentImage o')) AgentImageUntagged @
      on (opt_PauseImage o' = []) PauseImageUnset @
      on (CHR '':'' \<notin> set (opt_PauseImage o')) PauseImageUntagged @
      on (opt_JobTTLSucceeded o' < minute) JobTTLSucceededTooShort @
      on (opt_JobTTLFailed o' < minute) JobTTLFailedTooShort @
      on (opt_JobStageTimeout o' < 0) JobStageTimeoutNegative @
      on (opt_JobBackoffLimit o' < 0) JobBackoffLimitNegative)"

definition AgentVersion :: "SkyhookOperatorOptions \<Rightarrow> string" where
  "AgentVersion o' = last (split_on CHR '':'' (opt_AgentImage o'))"

lemma options_valid_taints:
  assumes "Options_Validate opts = []"
  shows "\<exists>t ts. GetRuntimeRequiredTaint opts = Some t \<and> GetRuntimeRequiredTaints opts = Some (t # ts)"
proof -
  obtain added where "ParseTaints (opt_RuntimeRequiredTaint opts) = Some (added, [])"
    using assms by (auto simp: Options_Validate_def Let_def split: option.splits if_splits)
  then obtain t where t: "GetRuntimeRequiredTaint opts = Some t"
    by (auto simp: ParseTaints_def GetRuntimeRequiredTaint_def split: if_splits option.splits)
  moreover have "ParseTaints legacyRuntimeRequiredTaint =
      Some ([\<lparr>t_Key = ''skyhook.nvidia.com'', t_Value = ''runtime-required'', t_Effect = ''NoSchedule''\<rparr>], [])"
    by code_simp
  ultimately show ?thesis by (simp add: GetRuntimeRequiredTaints_def)
qed

end
