(* ===== verification/Safe_Name.thy ===== *)
theory Safe_Name
  imports Labels "HOL-Library.Word"
begin

unbundle bit_operations_syntax

text \<open>
  Names of Kubernetes objects: \<open>generateSafeName\<close>, \<open>trunstr\<close> and \<open>nodeLabelValue\<close> of
  \<open>operator/internal/controller/skyhook_controller.go\<close> and \<open>job_builder.go\<close>.

  A name is the parts joined by dashes, cut, and followed by eight hexadecimal digits of the SHA-256 digest of the
  joined parts.  The digest is computed as \<open>crypto/sha256\<close> of the standard library does.
\<close>

section \<open>SHA-256\<close>

type_synonym w32 = "32 word"

definition rotr :: "nat \<Rightarrow> w32 \<Rightarrow> w32" where
  "rotr n x = drop_bit n x OR push_bit (32 - n) x"

definition small_sigma0 :: "w32 \<Rightarrow> w32" where
  "small_sigma0 x = rotr 7 x XOR rotr 18 x XOR drop_bit 3 x"

definition small_sigma1 :: "w32 \<Rightarrow> w32" where
  "small_sigma1 x = rotr 17 x XOR rotr 19 x XOR drop_bit 10 x"

definition big_sigma0 :: "w32 \<Rightarrow> w32" where
  "big_sigma0 x = rotr 2 x XOR rotr 13 x XOR rotr 22 x"

definition big_sigma1 :: "w32 \<Rightarrow> w32" where
  "big_sigma1 x = rotr 6 x XOR rotr 11 x XOR rotr 25 x"

text \<open>
  The tables of constants of \<open>crypto/sha256\<close>: the first 32 bits of the fractional parts of the cube roots of the first
  64 primes, and of the square roots of the first eight.  A root is found bit by bit, from the highest.
\<close>

fun root_from :: "nat \<Rightarrow> nat \<Rightarrow> int \<Rightarrow> int \<Rightarrow> int" where
  "root_from k 0 n r = r"
| "root_from k (Suc b) n r = root_from k b n (if (r + 2 ^ b) ^ k \<le> n then r + 2 ^ b else r)"

definition fraction_bits :: "nat \<Rightarrow> int \<Rightarrow> w32" where
  "fraction_bits k p = of_int (root_from k 40 (p * 2 ^ (32 * k)) 0)"

definition primes_below :: "int \<Rightarrow> int list" where
  "primes_below n = filter (\<lambda>p. list_all (\<lambda>d. p mod d \<noteq> 0) [2..p - 1]) [2..n - 1]"

definition round_constants :: "w32 list" where
  "round_constants = map (fraction_bits 3) (primes_below 312)"

definition initial_hash :: "w32 list" where
  "initial_hash = map (fraction_bits 2) [2, 3, 5, 7, 11, 13, 17, 19]"

text \<open>The padded message, as bytes, and its big-endian words.\<close>

fun be_bytes :: "nat \<Rightarrow> int \<Rightarrow> int list" where
  "be_bytes 0 n = []"
| "be_bytes (Suc k) n = be_bytes k (n div 256) @ [n mod 256]"

definition pad_message :: "string \<Rightarrow> int list" where
  "pad_message s =
     (let m = map of_char s; zeros = (119 - length m mod 64) mod 64
      in m @ [128] @ replicate zeros 0 @ be_bytes 8 (8 * int (length m)))"

fun words_of :: "int list \<Rightarrow> w32 list" where
  "words_of (a # b # c # d # rest) = of_int (((a * 256 + b) * 256 + c) * 256 + d) # words_of rest"
| "words_of _ = []"

text \<open>The message schedule, latest word first.\<close>

fun schedule :: "nat \<Rightarrow> w32 list \<Rightarrow> w32 list" where
  "schedule 0 w = w"
| "schedule (Suc n) w = schedule n ((small_sigma1 (w ! 1) + w ! 6 + small_sigma0 (w ! 14) + w ! 15) # w)"

fun compress_round :: "w32 \<times> w32 \<Rightarrow> w32 list \<Rightarrow> w32 list" where
  "compress_round (k, w) [a, b, c, d, e, f, g, h] =
     (let t1 = h + big_sigma1 e + ((e AND f) XOR (NOT e AND g)) + k + w;
          t2 = big_sigma0 a + ((a AND b) XOR (a AND c) XOR (b AND c))
      in [t1 + t2, a, b, c, d + t1, e, f, g])"
| "compress_round _ hs = hs"

definition compress :: "w32 list \<Rightarrow> w32 list \<Rightarrow> w32 list" where
  "compress block hs =
     map2 (+) hs (fold compress_round (zip round_constants (rev (schedule 48 (rev block)))) hs)"

fun digest_blocks :: "nat \<Rightarrow> w32 list \<Rightarrow> w32 list \<Rightarrow> w32 list" where
  "digest_blocks 0 ws hs = hs"
| "digest_blocks (Suc n) ws hs = digest_blocks n (drop 16 ws) (compress (take 16 ws) hs)"

definition Sum256 :: "string \<Rightarrow> int list" where
  "Sum256 s =
     (let ws = words_of (pad_message s)
      in concat (map (\<lambda>h. be_bytes 4 (uint h)) (digest_blocks (length ws div 16) ws initial_hash)))"

definition EncodeToString :: "int list \<Rightarrow> string" where
  "EncodeToString bs = concat (map (\<lambda>b. [hex_digit (nat (b div 16)), hex_digit (nat (b mod 16))]) bs)"

section \<open>Safe names\<close>

text \<open>
  Every call passes 63 or 253 as the limit, so the cut of the source has a limit of at least zero.
\<close>

definition generateSafeName :: "nat \<Rightarrow> string list \<Rightarrow> string" where
  "generateSafeName maxLen nameParts =
     (let name = map (\<lambda>c. if c = CHR ''.'' then CHR ''-'' else c) (join_with ''-'' nameParts);
          uniqueStr = take 8 (EncodeToString (Sum256 name));
          maxlen = maxLen - length uniqueStr - 1
      in to_lower ((if length name > maxlen then take maxlen name else name) @ ''-'' @ uniqueStr))"

definition nodeLabelValue :: "string \<Rightarrow> string" where
  "nodeLabelValue nodeName = (if length nodeName > 63 then generateSafeName 63 [nodeName] else nodeName)"

definition trunstr :: "string \<Rightarrow> nat \<Rightarrow> string" where
  "trunstr str n = (if length str > n then take n str else str)"
section \<open>The digest\<close>

lemma length_compress [simp]: "length hs = 8 \<Longrightarrow> length (compress block hs) = 8"
proof -
  assume hs: "length hs = 8"
  have round: "length (compress_round kw hs) = length hs" for kw hs
    by (cases "(kw, hs)" rule: compress_round.cases) (auto simp: Let_def)
  have "length (fold compress_round kws hs) = length hs" for kws hs
    by (induction kws arbitrary: hs) (simp_all add: round)
  then show ?thesis using hs by (simp add: compress_def)
qed

lemma length_digest [simp]: "length hs = 8 \<Longrightarrow> length (digest_blocks n ws hs) = 8"
  by (induction n arbitrary: ws hs) simp_all

lemma length_be_bytes [simp]: "length (be_bytes k n) = k"
  by (induction k arbitrary: n) simp_all

lemma be_bytes_range: "b \<in> set (be_bytes k n) \<Longrightarrow> 0 \<le> b \<and> b < 256"
  by (induction k arbitrary: n) auto

lemma length_Sum256 [simp]: "length (Sum256 s) = 32"
proof -
  have "length (concat (map (\<lambda>h. be_bytes 4 (uint h)) hs)) = 4 * length hs" for hs :: "w32 list"
    by (induction hs) simp_all
  then show ?thesis by (simp add: Sum256_def Let_def initial_hash_def)
qed

lemma Sum256_range: "b \<in> set (Sum256 s) \<Longrightarrow> 0 \<le> b \<and> b < 256"
  by (auto simp: Sum256_def Let_def dest: be_bytes_range)

lemma length_EncodeToString [simp]: "length (EncodeToString bs) = 2 * length bs"
  by (induction bs) (simp_all add: EncodeToString_def)

lemma hex_digit_alnum: "n < 16 \<Longrightarrow> is_lower_alnum (hex_digit n)"
  by (simp add: hex_digit_def is_lower_alnum_def Let_def of_char_of)

lemma digest_alnum: "c \<in> set (EncodeToString (Sum256 s)) \<Longrightarrow> is_lower_alnum c"
  by (auto simp: EncodeToString_def intro!: hex_digit_alnum dest: Sum256_range)

section \<open>What a safe name looks like\<close>

text \<open>The characters of the parts: letters, digits, dashes and dots.\<close>

definition name_char :: "char \<Rightarrow> bool" where
  "name_char c \<longleftrightarrow> is_alnum c \<or> c = CHR ''-'' \<or> c = CHR ''.''"

lemma lower_alnum: "is_alnum c \<Longrightarrow> is_lower_alnum (lower_char c)"
  by (auto simp: is_alnum_def is_lower_alnum_def lower_char_def Let_def of_char_of)

lemma lower_lower: "is_lower_alnum c \<Longrightarrow> lower_char c = c"
  by (auto simp: lower_char_def is_lower_alnum_def Let_def)

lemma lower_dash [simp]: "lower_char CHR ''-'' = CHR ''-''"
  by code_simp

lemma generateSafeName_split:
  "\<exists>name hash. generateSafeName maxLen parts = to_lower name @ CHR ''-'' # hash \<and> length hash = 8 \<and>
     list_all is_lower_alnum hash \<and>
     name = take (maxLen - 9) (map (\<lambda>c. if c = CHR ''.'' then CHR ''-'' else c) (join_with ''-'' parts))"
proof -
  let ?name = "map (\<lambda>c. if c = CHR ''.'' then CHR ''-'' else c) (join_with ''-'' parts)"
  let ?hash = "take 8 (EncodeToString (Sum256 ?name))"
  have hash: "list_all is_lower_alnum ?hash" by (auto simp: list_all_iff intro: digest_alnum dest: in_set_takeD)
  then have low: "to_lower ?hash = ?hash" by (auto simp: to_lower_def list_all_iff intro!: map_idI lower_lower)
  have len: "length ?hash = 8" by simp
  have "generateSafeName maxLen parts = to_lower (take (maxLen - 9) ?name @ ''-'' @ ?hash)"
    unfolding generateSafeName_def Let_def len by simp
  then show ?thesis
    using hash len low by (intro exI[of _ "take (maxLen - 9) ?name"] exI[of _ ?hash]) (simp add: to_lower_def)
qed

lemma safe_name_chars:
  assumes "list_all name_char s"
  shows "list_all (\<lambda>c. is_lower_alnum c \<or> c = CHR ''-'')
     (to_lower (take n (map (\<lambda>c. if c = CHR ''.'' then CHR ''-'' else c) s)))"
proof -
  let ?sub = "\<lambda>c. if c = CHR ''.'' then CHR ''-'' else c"
  have "is_lower_alnum (lower_char (?sub c)) \<or> lower_char (?sub c) = CHR ''-''" if "c \<in> set s" for c
  proof (cases "c = CHR ''.''")
    case False
    then have "is_alnum c \<or> c = CHR ''-''" using that assms by (auto simp: name_char_def list_all_iff)
    then show ?thesis using False lower_alnum[of c] by auto
  qed simp
  then have "\<forall>c \<in> set (take n s). is_lower_alnum (lower_char (?sub c)) \<or> lower_char (?sub c) = CHR ''-''"
    using set_take_subset[of n s] by blast
  moreover have "to_lower (take n (map ?sub s)) = map (\<lambda>c. lower_char (?sub c)) (take n s)"
    by (simp add: to_lower_def take_map o_def)
  ultimately show ?thesis unfolding list_all_iff by simp
qed

lemma safe_name_label:
  assumes "10 \<le> maxLen" and "list_all name_char (join_with ''-'' parts)"
    and "join_with ''-'' parts \<noteq> []" and "is_alnum (hd (join_with ''-'' parts))"
  shows "length (generateSafeName maxLen parts) \<le> maxLen \<and> is_dns_label (generateSafeName maxLen parts)"
proof -
  let ?s = "join_with ''-'' parts" and ?sub = "\<lambda>c. if c = CHR ''.'' then CHR ''-'' else c"
  obtain name hash where g: "generateSafeName maxLen parts = to_lower name @ CHR ''-'' # hash" "length hash = 8"
    "list_all is_lower_alnum hash" "name = take (maxLen - 9) (map ?sub ?s)"
    using generateSafeName_split by blast
  obtain c cs k where c: "?s = c # cs" "maxLen - 9 = Suc k" using assms(1,3) by (cases ?s; cases "maxLen - 9") auto
  then have alnum: "is_alnum c" using assms(4) by simp
  moreover have "c \<noteq> CHR ''.''" using alnum by code_simp auto
  ultimately have first: "\<exists>rest. to_lower name = lower_char c # rest" "is_lower_alnum (lower_char c)"
    using g(4) c lower_alnum by (auto simp: to_lower_def)
  have "hash \<noteq> []" using g(2) by auto
  then have "is_lower_alnum (last hash)" using g(3) by (simp add: list_all_iff)
  then have "is_dns_label (generateSafeName maxLen parts)"
    using first g(3) \<open>hash \<noteq> []\<close> safe_name_chars[OF assms(2), of "maxLen - 9", folded g(4)]
    by (auto simp: g(1) is_dns_label_def framed_by_def list_all_iff)
  moreover have "length (to_lower name) \<le> maxLen - 9" by (simp add: g(4) to_lower_def)
  then have "length (generateSafeName maxLen parts) \<le> maxLen" using g(1,2) assms(1) by simp
  ultimately show ?thesis by simp
qed

text \<open>
  C28. Every generated name is acceptable to Kubernetes: it is at most as long as the limit, and it is a DNS label, of
  lower-case letters, digits and dashes with a letter or digit at both ends, whatever the parts are as long as
  they have only letters, digits, dashes and dots and the first character is a letter or digit.
\<close>

theorem safe_name_valid:
  assumes "10 \<le> maxLen" and "list_all name_char (join_with ''-'' parts)"
    and "join_with ''-'' parts \<noteq> []" and "is_alnum (hd (join_with ''-'' parts))"
  shows "length (generateSafeName maxLen parts) \<le> maxLen \<and> is_dns_label (generateSafeName maxLen parts)"
  using safe_name_label[OF assms] .

theorem safe_name_valid_witness:
  "length (generateSafeName 63 [''tune'', ''kernel'', ''1.2.0'', ''apply'', ''node-1.example'']) \<le> 63 \<and>
   is_dns_label (generateSafeName 63 [''tune'', ''kernel'', ''1.2.0'', ''apply'', ''node-1.example''])"
proof -
  let ?parts = "[''tune'', ''kernel'', ''1.2.0'', ''apply'', ''node-1.example'']"
  have "list_all name_char (join_with ''-'' ?parts)" "join_with ''-'' ?parts \<noteq> []" "is_alnum (hd (join_with ''-'' ?parts))"
    by code_simp+
  moreover have "(10 :: nat) \<le> 63" by simp
  ultimately show ?thesis using safe_name_valid[of 63 ?parts] by blast
qed

lemma split_on_chars:
  "list_all (list_all P) (split_on sep s) \<Longrightarrow> c \<in> set s \<Longrightarrow> P c \<or> c = sep"
  by (induction sep s rule: split_on.induct) (auto split: if_splits list.splits)

lemma split_on_first: "c \<noteq> sep \<Longrightarrow> \<exists>p ps. split_on sep (c # cs) = (c # p) # ps"
  by (auto split: list.splits)

lemma split_on_nonempty [simp]: "split_on sep s \<noteq> []"
  by (induction sep s rule: split_on.induct) (auto split: list.splits)

lemma split_on_empty: "split_on sep s = [[]] \<longleftrightarrow> s = []"
  by (cases s) (auto split: list.splits)

lemma split_on_last:
  "s \<noteq> [] \<Longrightarrow> last (split_on sep s) \<noteq> [] \<Longrightarrow> last (last (split_on sep s)) = last s"
  by (induction sep s rule: split_on.induct) (auto simp: split_on_empty split: if_splits list.splits)

lemma subdomain_chars:
  assumes "IsDNS1123Subdomain s"
  shows "list_all name_char s" "s \<noteq> []" "is_alnum (hd s)" "is_alnum (last s)"
proof -
  have labels: "list_all is_dns_label (split_on CHR ''.'' s)" using assms by (simp add: IsDNS1123Subdomain_def)
  have chars: "list_all (list_all (\<lambda>c. is_lower_alnum c \<or> c = CHR ''-'')) (split_on CHR ''.'' s)"
    using labels by (auto simp: is_dns_label_def framed_by_def list_all_iff)
  have "name_char c" if "c \<in> set s" for c
    using split_on_chars[OF chars that] by (auto simp: name_char_def is_alnum_def)
  then show "list_all name_char s" by (simp add: list_all_iff)
  show s: "s \<noteq> []" using labels by (auto simp: is_dns_label_def framed_by_def)
  then obtain c cs where c: "s = c # cs" by (cases s) auto
  have "c \<noteq> CHR ''.''" using labels by (auto simp: c is_dns_label_def framed_by_def)
  then obtain p ps where "split_on CHR ''.'' s = (c # p) # ps" using split_on_first c by blast
  then show "is_alnum (hd s)" using labels c by (auto simp: is_dns_label_def framed_by_def is_alnum_def)
  have "is_dns_label (last (split_on CHR ''.'' s))" using labels by (simp add: list_all_iff)
  then have "last (split_on CHR ''.'' s) \<noteq> []" "is_lower_alnum (last (last (split_on CHR ''.'' s)))"
    by (auto simp: is_dns_label_def framed_by_def)
  then show "is_alnum (last s)" using split_on_last[OF s] by (simp add: is_alnum_def)
qed

text \<open>The node label is a legal label value for every legal node name.\<close>

lemma node_label_valid:
  assumes "IsDNS1123Subdomain nodeName"
  shows "IsLabelValue (nodeLabelValue nodeName)"
proof (cases "length nodeName > 63")
  case True
  have "length (generateSafeName 63 [nodeName]) \<le> 63 \<and> is_dns_label (generateSafeName 63 [nodeName])"
    using safe_name_label[of 63 "[nodeName]"] subdomain_chars[OF assms] by simp
  then show ?thesis
    using True
    by (auto simp: nodeLabelValue_def IsLabelValue_def matches_label_key_def is_dns_label_def framed_by_def is_alnum_def list_all_iff)
next
  case False
  then show ?thesis
    using subdomain_chars[OF assms]
    by (auto simp: nodeLabelValue_def IsLabelValue_def matches_label_key_def framed_by_def name_char_def list_all_iff)
qed

text \<open>
  A name only depends on the joined parts, with dots and dashes alike.  So a resource \<open>a\<close> with a package
  \<open>b-c\<close> and a resource \<open>a-b\<close> with a package \<open>c\<close> get the same name for their Jobs on a node, whatever the
  rest of the name is.
\<close>

theorem safe_name_collision:
  "generateSafeName maxLen (a # (b @ ''-'' @ c) # rest) = generateSafeName maxLen ((a @ ''-'' @ b) # c # rest)"
proof -
  have "join_with ''-'' (a # (b @ ''-'' @ c) # rest) = join_with ''-'' ((a @ ''-'' @ b) # c # rest)"
    by (cases rest) simp_all
  then show ?thesis unfolding generateSafeName_def by simp
qed

end
