(* ===== verification/Package_Annotation.thy ===== *)
theory Package_Annotation
  imports Node
begin

text \<open>
  The annotation every package executor carries, \<open>operator/internal/controller/annotations.go\<close>: the package a Job or a
  pod runs, written as JSON when the executor is built and read back when its outcome is recorded.  An object is
  represented by its annotations; the checks for a nil object have no counterpart.
\<close>

section \<open>Data and encoding\<close>

definition packageAnnotationKey :: string where
  "packageAnnotationKey = METADATA_PREFIX @ ''/package''"

record PackageSkyhook =
  pks_Ref :: PackageRef
  pks_Skyhook :: string
  pks_Stage :: Stage
  pks_Image :: string
  pks_ContainerSHA :: string
  pks_Invalid :: bool

definition encode_package :: "PackageSkyhook \<Rightarrow> json" where
  "encode_package p =
     JObj ([(''name'', JStr (ref_Name (pks_Ref p))), (''version'', JStr (ref_Version (pks_Ref p))),
        (''skyhook'', JStr (pks_Skyhook p)), (''stage'', JStr (stage_string (pks_Stage p))), (''image'', JStr (pks_Image p))] @
       (if pks_ContainerSHA p = [] then [] else [(''containerSHA'', JStr (pks_ContainerSHA p))]) @
       (if pks_Invalid p then [(''invalid'', JBool True)] else []))"

definition marshal_package :: "PackageSkyhook \<Rightarrow> string" where
  "marshal_package p = print (encode_package p)"

text \<open>One member of the decoded object, with the same rules as for a package status.\<close>

definition set_package_field :: "string \<Rightarrow> json \<Rightarrow> PackageSkyhook \<Rightarrow> PackageSkyhook option" where
  "set_package_field k v p =
     (let str = (\<lambda>f. case v of JStr t \<Rightarrow> Some (f t) | JNull \<Rightarrow> Some p | _ \<Rightarrow> None); key = to_lower k
      in if key = ''name'' then str (\<lambda>t. p\<lparr>pks_Ref := (pks_Ref p)\<lparr>ref_Name := t\<rparr>\<rparr>)
         else if key = ''version'' then str (\<lambda>t. p\<lparr>pks_Ref := (pks_Ref p)\<lparr>ref_Version := t\<rparr>\<rparr>)
         else if key = ''skyhook'' then str (\<lambda>t. p\<lparr>pks_Skyhook := t\<rparr>)
         else if key = ''stage'' then str (\<lambda>t. p\<lparr>pks_Stage := stage_of t\<rparr>)
         else if key = ''image'' then str (\<lambda>t. p\<lparr>pks_Image := t\<rparr>)
         else if key = ''containersha'' then str (\<lambda>t. p\<lparr>pks_ContainerSHA := t\<rparr>)
         else if key = ''invalid'' then
           (case v of JBool b \<Rightarrow> Some (p\<lparr>pks_Invalid := b\<rparr>) | JNull \<Rightarrow> Some p | _ \<Rightarrow> None)
         else Some p)"

fun set_package_fields :: "(string \<times> json) list \<Rightarrow> PackageSkyhook \<Rightarrow> PackageSkyhook option" where
  "set_package_fields [] p = Some p"
| "set_package_fields ((k, v) # kvs) p =
     (case set_package_field k v p of None \<Rightarrow> None | Some p' \<Rightarrow> set_package_fields kvs p')"

definition zero_package :: PackageSkyhook where
  "zero_package =
     \<lparr>pks_Ref = \<lparr>ref_Name = [], ref_Version = []\<rparr>, pks_Skyhook = [], pks_Stage = StageOther [], pks_Image = [],
      pks_ContainerSHA = [], pks_Invalid = False\<rparr>"

section \<open>Operations\<close>

datatype package_error = PackageUnreadable

text \<open>A null annotation makes the pointer nil, so it reads as no package.\<close>

definition GetPackage :: "(string, string) gomap \<Rightarrow> package_error + PackageSkyhook option" where
  "GetPackage anns =
     (case map_of anns packageAnnotationKey of
        None \<Rightarrow> Inr None
      | Some s \<Rightarrow>
          (case parse_json s of
             Some (JObj kvs) \<Rightarrow>
               (case set_package_fields kvs zero_package of None \<Rightarrow> Inl PackageUnreadable | Some p \<Rightarrow> Inr (Some p))
           | Some JNull \<Rightarrow> Inr None
           | _ \<Rightarrow> Inl PackageUnreadable))"

definition SetPackages ::
  "(string, string) gomap \<Rightarrow> NodeWright \<Rightarrow> string \<Rightarrow> Stage \<Rightarrow> Package option \<Rightarrow> (string, string) gomap" where
  "SetPackages anns skyhook img stage po =
     (case po of
        None \<Rightarrow> anns
      | Some p \<Rightarrow>
          gput packageAnnotationKey
            (marshal_package \<lparr>pks_Ref = package_ref p, pks_Skyhook = nw_Name skyhook, pks_Stage = stage, pks_Image = img,
               pks_ContainerSHA = p_ContainerSHA p, pks_Invalid = False\<rparr>) anns)"

definition InvalidatePackage :: "(string, string) gomap \<Rightarrow> package_error + (string, string) gomap" where
  "InvalidatePackage anns =
     (case GetPackage anns of
        Inl e \<Rightarrow> Inl e
      | Inr None \<Rightarrow> Inr anns
      | Inr (Some p) \<Rightarrow> Inr (gput packageAnnotationKey (marshal_package (p\<lparr>pks_Invalid := True\<rparr>)) anns))"

definition IsInvalidPackage :: "(string, string) gomap \<Rightarrow> package_error + bool" where
  "IsInvalidPackage anns =
     (case GetPackage anns of
        Inl e \<Rightarrow> Inl e
      | Inr None \<Rightarrow> Inr False
      | Inr (Some p) \<Rightarrow> Inr (pks_Invalid p))"

section \<open>Round trips\<close>

lemma package_field_names [simp]: "to_lower ''skyhook'' = ''skyhook''" "to_lower ''invalid'' = ''invalid''"
  by code_simp+

lemma set_package_field_encoded [simp]:
  "set_package_field ''name'' (JStr t) p = Some (p\<lparr>pks_Ref := (pks_Ref p)\<lparr>ref_Name := t\<rparr>\<rparr>)"
  "set_package_field ''version'' (JStr t) p = Some (p\<lparr>pks_Ref := (pks_Ref p)\<lparr>ref_Version := t\<rparr>\<rparr>)"
  "set_package_field ''skyhook'' (JStr t) p = Some (p\<lparr>pks_Skyhook := t\<rparr>)"
  "set_package_field ''stage'' (JStr t) p = Some (p\<lparr>pks_Stage := stage_of t\<rparr>)"
  "set_package_field ''image'' (JStr t) p = Some (p\<lparr>pks_Image := t\<rparr>)"
  "set_package_field ''containerSHA'' (JStr t) p = Some (p\<lparr>pks_ContainerSHA := t\<rparr>)"
  "set_package_field ''invalid'' (JBool b) p = Some (p\<lparr>pks_Invalid := b\<rparr>)"
  by (simp_all add: set_package_field_def)

lemma GetPackage_marshal:
  assumes "stage_of (stage_string (pks_Stage p)) = pks_Stage p"
  shows "GetPackage (gput packageAnnotationKey (marshal_package p) anns) = Inr (Some p)"
proof -
  have "json_ok (encode_package p)" by (auto simp: encode_package_def)
  then have parse: "parse_json (marshal_package p) = Some (encode_package p)"
    unfolding marshal_package_def by (rule parse_json_print)
  obtain kvs where kvs: "encode_package p = JObj kvs" by (simp add: encode_package_def)
  have "set_package_fields kvs zero_package = Some p"
    using assms kvs by (cases p, cases "pks_Ref p") (auto simp: encode_package_def zero_package_def split: if_splits)
  then show ?thesis using parse kvs by (simp add: GetPackage_def)
qed

text \<open>
  The package an executor is given is the package its outcome is recorded for: what \<open>SetPackages\<close> writes is
  what \<open>GetPackage\<close> reads, whatever characters the names and images have; invalidating the annotation afterwards
  keeps all of it and only marks it invalid, and invalidating once more changes nothing.
\<close>

theorem package_annotation_roundtrip:
  assumes "stage_of (stage_string stage) = stage"
  shows "\<exists>q anns'. GetPackage (SetPackages anns skyhook img stage (Some p)) = Inr (Some q) \<and>
     pks_Ref q = package_ref p \<and> pks_Skyhook q = nw_Name skyhook \<and> pks_Stage q = stage \<and> pks_Image q = img \<and>
     pks_ContainerSHA q = p_ContainerSHA p \<and>
     IsInvalidPackage (SetPackages anns skyhook img stage (Some p)) = Inr False \<and>
     InvalidatePackage (SetPackages anns skyhook img stage (Some p)) = Inr anns' \<and>
     GetPackage anns' = Inr (Some (q\<lparr>pks_Invalid := True\<rparr>)) \<and> IsInvalidPackage anns' = Inr True \<and>
     InvalidatePackage anns' = Inr anns'"
proof -
  let ?q = "\<lparr>pks_Ref = package_ref p, pks_Skyhook = nw_Name skyhook, pks_Stage = stage, pks_Image = img,
      pks_ContainerSHA = p_ContainerSHA p, pks_Invalid = False\<rparr>"
  let ?anns = "SetPackages anns skyhook img stage (Some p)"
  let ?anns' = "gput packageAnnotationKey (marshal_package (?q\<lparr>pks_Invalid := True\<rparr>)) ?anns"
  have get: "GetPackage ?anns = Inr (Some ?q)" using GetPackage_marshal[of ?q anns] assms by (simp add: SetPackages_def)
  have get': "GetPackage ?anns' = Inr (Some (?q\<lparr>pks_Invalid := True\<rparr>))" using GetPackage_marshal[of "?q\<lparr>pks_Invalid := True\<rparr>" ?anns] assms by simp
  have idem: "gput k v (gput k v m) = gput k v m" for k v and m :: "(string, string) gomap"
    by (induction m) auto
  have "InvalidatePackage ?anns = Inr ?anns'" "InvalidatePackage ?anns' = Inr ?anns'"
    "IsInvalidPackage ?anns = Inr False" "IsInvalidPackage ?anns' = Inr True"
    using get get' idem by (simp_all add: InvalidatePackage_def IsInvalidPackage_def)
  then show ?thesis using get get' by (intro exI[of _ ?q] exI[of _ ?anns']) simp
qed

theorem package_annotation_roundtrip_witness:
  "\<exists>q. GetPackage (SetPackages [] sample_resource ''img'' StageApply (Some sample_package)) = Inr (Some q) \<and>
     ref_Name (pks_Ref q) = ''tuning'' \<and> pks_Skyhook q = ''tune''"
proof -
  have stage: "stage_of (stage_string StageApply) = StageApply" by code_simp
  have names: "ref_Name (package_ref sample_package) = ''tuning''" "nw_Name sample_resource = ''tune''" by code_simp+
  show ?thesis
    using package_annotation_roundtrip[OF stage, of "[]" sample_resource "''img''" sample_package] names by auto
qed

end
