(* ===== verification/Job_Builder.thy ===== *)
theory Job_Builder
  imports Workloads Safe_Name Package_Annotation
begin

text \<open>
  Building the Jobs that run package stages and interrupts, and telling whether a Job still is what the operator would
  build: \<open>operator/internal/controller/job_builder.go\<close> and the helpers it uses in \<open>skyhook_controller.go\<close>.
\<close>

section \<open>Helpers\<close>

definition ResourceID :: "Skyhook \<Rightarrow> string" where
  "ResourceID s =
     nw_Name (sk_NodeWright s) @ ''-'' @ nw_UID (sk_NodeWright s) @ ''-'' @ show_int (Generation (sk_NodeWright s))"

abbreviation sk_Name :: "Skyhook \<Rightarrow> string" where
  "sk_Name s \<equiv> nw_Name (sk_NodeWright s)"

definition getAgentImage :: "SkyhookOperatorOptions \<Rightarrow> Package \<Rightarrow> string" where
  "getAgentImage opts p = (if p_AgentImageOverride p \<noteq> [] then p_AgentImageOverride p else opt_AgentImage opts)"

definition getPackageImage :: "Package \<Rightarrow> string" where
  "getPackageImage p =
     (if p_ContainerSHA p \<noteq> [] then p_Image p @ ''@'' @ p_ContainerSHA p else p_Image p @ '':'' @ p_Version p)"

definition env_var :: "string \<Rightarrow> string \<Rightarrow> EnvVar" where
  "env_var name value = \<lparr>env_Name = name, env_Value = value, env_ValueFrom = None\<rparr>"

definition getAgentConfigEnvVars ::
  "SkyhookOperatorOptions \<Rightarrow> string \<Rightarrow> string \<Rightarrow> string \<Rightarrow> string \<Rightarrow> int \<Rightarrow> EnvVar list" where
  "getAgentConfigEnvVars opts packageName packageVersion resourceID name nodeOrder =
     [env_var ''SKYHOOK_LOG_DIR'' (opt_AgentLogRoot opts @ ''/'' @ name),
      env_var ''SKYHOOK_ROOT_DIR'' (opt_CopyDirRoot opts @ ''/'' @ name),
      env_var ''COPY_RESOLV'' ''false'',
      env_var ''SKYHOOK_RESOURCE_ID'' (resourceID @ ''_'' @ packageName @ ''_'' @ packageVersion),
      env_var ''SKYHOOK_NODE_ORDER'' (show_int nodeOrder)]"

definition FilterEnv :: "EnvVar list \<Rightarrow> string list \<Rightarrow> EnvVar list" where
  "FilterEnv envs exclude = filter (\<lambda>e. env_Name e \<notin> set exclude) envs"

definition effectiveStageTimeout :: "SkyhookOperatorOptions \<Rightarrow> Package \<Rightarrow> int" where
  "effectiveStageTimeout opts p = (case p_StageTimeout p of Some t \<Rightarrow> t | None \<Rightarrow> opt_JobStageTimeout opts)"

text \<open>\<open>time.Duration.Seconds\<close>, as a double: the whole seconds plus the rest divided by the nanoseconds of a second.\<close>

definition duration_seconds :: "int \<Rightarrow> rat" where
  "duration_seconds d =
     f64 (f64 (of_int (d sdiv 1000000000)) + f64 (of_int (d - d sdiv 1000000000 * 1000000000) / 1000000000))"

definition deadlineSeconds :: "int \<Rightarrow> int" where
  "deadlineSeconds timeout =
     (let seconds = \<lceil>duration_seconds timeout\<rceil> in if seconds > 2 ^ 31 - 1 then 2 ^ 31 - 1 else seconds)"

definition no_resources :: ContainerResources where
  "no_resources = \<lparr>cr_Limits = None, cr_Requests = None\<rparr>"

definition cpu_memory :: "rat \<Rightarrow> rat \<Rightarrow> ContainerResources" where
  "cpu_memory cpu memory =
     \<lparr>cr_Limits = Some [(''cpu'', cpu), (''memory'', memory)], cr_Requests = Some [(''cpu'', cpu), (''memory'', memory)]\<rparr>"

definition setPodResources :: "ResourceRequirements option \<Rightarrow> Container list \<Rightarrow> Container list" where
  "setPodResources res containers =
     (case res of
        None \<Rightarrow> containers
      | Some r \<Rightarrow>
          if CPURequest r \<noteq> 0 \<or> CPULimit r \<noteq> 0 \<or> MemoryRequest r \<noteq> 0 \<or> MemoryLimit r \<noteq> 0
          then map (\<lambda>c. c\<lparr>ctr_Resources :=
                 \<lparr>cr_Limits = Some [(''cpu'', CPULimit r), (''memory'', MemoryLimit r)],
                  cr_Requests = Some [(''cpu'', CPURequest r), (''memory'', MemoryRequest r)]\<rparr>\<rparr>) containers
          else containers)"

text \<open>
  The options are validated when the operator starts, so the list is there; see \<open>options_valid_taints\<close>.
\<close>

definition required_tolerations :: "SkyhookOperatorOptions \<Rightarrow> Toleration list" where
  "required_tolerations opts = (case GetRuntimeRequiredTolerations opts of None \<Rightarrow> [] | Some ts \<Rightarrow> ts)"

definition name_label :: string where "name_label = METADATA_PREFIX @ ''/name''"
definition package_label :: string where "package_label = METADATA_PREFIX @ ''/package''"
definition stage_label :: string where "stage_label = METADATA_PREFIX @ ''/stage''"
definition node_label :: string where "node_label = METADATA_PREFIX @ ''/node''"
definition generation_label :: string where "generation_label = METADATA_PREFIX @ ''/generation''"
definition interrupt_label :: string where "interrupt_label = METADATA_PREFIX @ ''/interrupt''"

definition package_label_value :: "Package \<Rightarrow> string" where
  "package_label_value p = p_Name p @ ''-'' @ p_Version p"

definition jobLabels :: "Skyhook \<Rightarrow> Package \<Rightarrow> Stage \<Rightarrow> string \<Rightarrow> bool \<Rightarrow> (string, string) gomap" where
  "jobLabels skyhook p stage nodeName interrupt =
     [(name_label, sk_Name skyhook), (package_label, package_label_value p), (stage_label, stage_string stage),
      (node_label, nodeLabelValue nodeName), (generation_label, show_int (Generation (sk_NodeWright skyhook)))] @
     (if interrupt then [(interrupt_label, ''True'')] else [])"

section \<open>Pods\<close>

definition copy_dir :: "SkyhookOperatorOptions \<Rightarrow> Skyhook \<Rightarrow> Package \<Rightarrow> string" where
  "copy_dir opts skyhook p =
     opt_CopyDirRoot opts @ ''/'' @ sk_Name skyhook @ ''/'' @ p_Name p @ ''-'' @ p_Version p @ ''-'' @
     nw_UID (sk_NodeWright skyhook) @ ''-'' @ show_int (Generation (sk_NodeWright skyhook))"

definition root_mount :: VolumeMount where
  "root_mount =
     \<lparr>vm_Name = ''root-mount'', vm_MountPath = ''/root'', vm_SubPath = [], vm_ReadOnly = False, vm_Propagation = ''HostToContainer''\<rparr>"

definition plain_mount :: "string \<Rightarrow> string \<Rightarrow> VolumeMount" where
  "plain_mount name path = \<lparr>vm_Name = name, vm_MountPath = path, vm_SubPath = [], vm_ReadOnly = False, vm_Propagation = []\<rparr>"

definition pause_container :: "SkyhookOperatorOptions \<Rightarrow> Container" where
  "pause_container opts =
     \<lparr>ctr_Name = ''pause'', ctr_Image = opt_PauseImage opts, ctr_PullPolicy = [], ctr_Command = [], ctr_Args = [], ctr_Env = [],
      ctr_Resources = cpu_memory (1 / 10) (20 * 1024 * 1024), ctr_Privileged = False, ctr_Mounts = []\<rparr>"

definition package_tolerations :: "SkyhookOperatorOptions \<Rightarrow> Skyhook \<Rightarrow> Toleration list" where
  "package_tolerations opts skyhook =
     \<lparr>tol_Key = ''node.kubernetes.io/unschedulable'', tol_Operator = ''Exists'', tol_Value = [], tol_Effect = []\<rparr> #
     required_tolerations opts @ AdditionalTolerations (sk_Spec skyhook)"

definition pull_secrets :: "SkyhookOperatorOptions \<Rightarrow> string list" where
  "pull_secrets opts = (if opt_ImagePullSecret opts \<noteq> [] then [opt_ImagePullSecret opts] else [])"

text \<open>A pod that is built but not created: no status and no controller yet.\<close>

definition new_pod :: "string \<Rightarrow> string \<Rightarrow> (string, string) gomap \<Rightarrow> PodSpec \<Rightarrow> Pod" where
  "new_pod name namespace labels spec =
     \<lparr>pod_Name = name, pod_Namespace = namespace, pod_Labels = labels, pod_Annotations = [], pod_Controller = None,
      pod_Spec = spec, pod_Phase = [], pod_Reason = [], pod_Conditions = [], InitContainerStatuses = [],
      pod_DeletionTimestamp = None, pod_CreationTimestamp = 0\<rparr>"

text \<open>The three init containers of a stage: copying the package, running the stage and checking it.\<close>

definition stage_containers ::
  "SkyhookOperatorOptions \<Rightarrow> Package \<Rightarrow> Skyhook \<Rightarrow> string \<Rightarrow> Stage \<Rightarrow> VolumeMount list \<Rightarrow> Container list" where
  "stage_containers opts p skyhook nodeName stage mounts =
     (let dir = copy_dir opts skyhook p; short = trunstr (p_Name p) 43;
          agentEnvs = p_Env p @ getAgentConfigEnvVars opts (p_Name p) (p_Version p) (ResourceID skyhook) (sk_Name skyhook)
                        (NodeOrder nodeName skyhook);
          agent = (\<lambda>name arg. \<lparr>ctr_Name = name, ctr_Image = getAgentImage opts p, ctr_PullPolicy = ''Always'', ctr_Command = [],
             ctr_Args = [to_lower arg, ''/root'', dir], ctr_Env = agentEnvs, ctr_Resources = no_resources, ctr_Privileged = True,
             ctr_Mounts = mounts\<rparr>)
      in [\<lparr>ctr_Name = short @ ''-init'', ctr_Image = getPackageImage p, ctr_PullPolicy = ''Always'', ctr_Command = [''/bin/sh''],
           ctr_Args = [''-c'', ''mkdir -p /root/${SKYHOOK_DIR} && cp -r /skyhook-package/* /root/${SKYHOOK_DIR}''],
           ctr_Env = [env_var ''SKYHOOK_DIR'' dir], ctr_Resources = no_resources, ctr_Privileged = True, ctr_Mounts = mounts\<rparr>,
          agent (short @ ''-'' @ stage_string stage) (stage_string stage),
          agent (short @ ''-'' @ stage_string stage @ ''check'') (stage_string stage @ ''-check'')])"

definition createPodFromPackage :: "SkyhookOperatorOptions \<Rightarrow> Package \<Rightarrow> Skyhook \<Rightarrow> string \<Rightarrow> Stage \<Rightarrow> Pod" where
  "createPodFromPackage opts p skyhook nodeName stage =
     (let volumeName = generateSafeName 63 [''metadata'', nodeName];
          configMapName = generateSafeName 253 [sk_Name skyhook, nodeName, ''metadata''];
          volumes = [\<lparr>vol_Name = ''root-mount'', vol_Source = HostPath ''/''\<rparr>,
                     \<lparr>vol_Name = volumeName, vol_Source = ConfigMapVolume configMapName\<rparr>] @
            (if p_ConfigMap p \<noteq> []
             then [\<lparr>vol_Name = p_Name p, vol_Source =
                     ConfigMapVolume (to_lower (sk_Name skyhook @ ''-'' @ p_Name p @ ''-'' @ p_Version p))\<rparr>]
             else []);
          volumeMounts = [root_mount, plain_mount volumeName ''/skyhook-package/node-metadata''] @
            map (\<lambda>key. \<lparr>vm_Name = p_Name p, vm_MountPath = ''/skyhook-package/configmaps/'' @ key, vm_SubPath = key,
                         vm_ReadOnly = True, vm_Propagation = []\<rparr>) (sort (gkeys (p_ConfigMap p)))
      in new_pod (generateSafeName 63 [sk_Name skyhook, p_Name p, p_Version p, stage_string stage, nodeName]) (opt_Namespace opts)
           [(name_label, sk_Name skyhook), (package_label, package_label_value p)]
           \<lparr>sp_NodeName = nodeName, sp_RestartPolicy = ''OnFailure'',
            sp_InitContainers = setPodResources (p_Resources p) (stage_containers opts p skyhook nodeName stage volumeMounts),
            sp_Containers = [pause_container opts], sp_Volumes = volumes, sp_HostPID = True, sp_HostNetwork = True,
            sp_Tolerations = package_tolerations opts skyhook, sp_ImagePullSecrets = pull_secrets opts,
            sp_TerminationGracePeriodSeconds = map_option (\<lambda>d. trunc_f64 (duration_seconds d)) (p_GracefulShutdown p),
            sp_ActiveDeadlineSeconds = None\<rparr>)"

definition createInterruptPodForPackage ::
  "SkyhookOperatorOptions \<Rightarrow> Interrupt \<Rightarrow> string \<Rightarrow> Package \<Rightarrow> Skyhook \<Rightarrow> string \<Rightarrow> Stage \<Rightarrow> Pod" where
  "createInterruptPodForPackage opts interrupt argEncode p skyhook nodeName stage =
     new_pod (generateSafeName 63 [sk_Name skyhook, stage_string stage, interrupt_type_string (int_Type interrupt), nodeName])
       (opt_Namespace opts)
       [(name_label, sk_Name skyhook), (package_label, package_label_value p), (interrupt_label, ''True'')]
       \<lparr>sp_NodeName = nodeName, sp_RestartPolicy = ''OnFailure'',
        sp_InitContainers =
          [\<lparr>ctr_Name = ''interrupt'', ctr_Image = getAgentImage opts p, ctr_PullPolicy = [], ctr_Command = [],
            ctr_Args = [''interrupt'', ''/root'', copy_dir opts skyhook p, argEncode],
            ctr_Env = getAgentConfigEnvVars opts (p_Name p) (p_Version p) (ResourceID skyhook) (sk_Name skyhook) (NodeOrder nodeName skyhook),
            ctr_Resources = cpu_memory (1 / 2) (64 * 1024 * 1024), ctr_Privileged = True, ctr_Mounts = [root_mount]\<rparr>],
        sp_Containers = [pause_container opts],
        sp_Volumes = [\<lparr>vol_Name = ''root-mount'', vol_Source = HostPath ''/''\<rparr>,
          \<lparr>vol_Name = generateSafeName 63 [sk_Name skyhook, nodeName, ''metadata''],
           vol_Source = ConfigMapVolume (generateSafeName 253 [sk_Name skyhook, nodeName, ''metadata''])\<rparr>],
        sp_HostPID = True, sp_HostNetwork = True, sp_Tolerations = package_tolerations opts skyhook,
        sp_ImagePullSecrets = pull_secrets opts, sp_TerminationGracePeriodSeconds = None, sp_ActiveDeadlineSeconds = None\<rparr>"
section \<open>Jobs\<close>

definition done_container :: "Package \<Rightarrow> Container \<Rightarrow> Container" where
  "done_container p c =
     (if ctr_Name c = ''pause''
      then c\<lparr>ctr_Name := ''done'', ctr_Image := getPackageImage p, ctr_Command := [''/bin/sh'', ''-c'', ''exit 0'']\<rparr> else c)"

definition node_down_tolerations :: "Toleration list" where
  "node_down_tolerations =
     [\<lparr>tol_Key = ''node.kubernetes.io/not-ready'', tol_Operator = ''Exists'', tol_Value = [], tol_Effect = ''NoExecute''\<rparr>,
      \<lparr>tol_Key = ''node.kubernetes.io/unreachable'', tol_Operator = ''Exists'', tol_Value = [], tol_Effect = ''NoExecute''\<rparr>]"

definition jobFromPod ::
  "SkyhookOperatorOptions \<Rightarrow> Pod \<Rightarrow> Skyhook \<Rightarrow> Package \<Rightarrow> Stage \<Rightarrow> string \<Rightarrow> bool \<Rightarrow> Job" where
  "jobFromPod opts pod skyhook p stage nodeName interrupt =
     (let labels = jobLabels skyhook p stage nodeName interrupt;
          timeout = effectiveStageTimeout opts p;
          deadline = (if timeout > 0 then Some (deadlineSeconds timeout) else None);
          spec = (pod_Spec pod)\<lparr>sp_Containers := map (done_container p) (sp_Containers (pod_Spec pod)),
             sp_Tolerations := sp_Tolerations (pod_Spec pod) @ node_down_tolerations,
             sp_RestartPolicy := if interrupt then ''OnFailure'' else ''Never'',
             sp_ActiveDeadlineSeconds := if \<not> interrupt \<and> deadline \<noteq> None then deadline
               else sp_ActiveDeadlineSeconds (pod_Spec pod)\<rparr>
      in \<lparr>job_Name = pod_Name pod, job_Namespace = opt_Namespace opts, job_Labels = labels,
          job_Annotations = [(METADATA_PREFIX @ ''/resource-id'', ResourceID skyhook)],
          job_Spec =
            \<lparr>js_Parallelism = 1, js_Completions = 1, js_PodReplacementPolicy = ''Failed'',
             js_PodFailurePolicy =
               (if interrupt then None
                else Some [\<lparr>fr_Action = ''Ignore'', fr_OnPodConditions = [(''DisruptionTarget'', ''True'')]\<rparr>]),
             js_BackoffLimit = (if interrupt then 2 ^ 31 - 1 else opt_JobBackoffLimit opts),
             js_ActiveDeadlineSeconds = (if interrupt then deadline else None),
             js_TTLSecondsAfterFinished = None, js_Suspend = False,
             js_Template = \<lparr>tp_Labels = labels, tp_Annotations = [], tp_Spec = spec\<rparr>\<rparr>,
          job_Conditions = [], job_Failed = 0, job_DeletionTimestamp = None\<rparr>)"

definition createJobFromPackage :: "SkyhookOperatorOptions \<Rightarrow> Package \<Rightarrow> Skyhook \<Rightarrow> string \<Rightarrow> Stage \<Rightarrow> Job" where
  "createJobFromPackage opts p skyhook nodeName stage =
     jobFromPod opts (createPodFromPackage opts p skyhook nodeName stage) skyhook p stage nodeName False"

definition createInterruptJobFromPackage ::
  "SkyhookOperatorOptions \<Rightarrow> Interrupt \<Rightarrow> string \<Rightarrow> Package \<Rightarrow> Skyhook \<Rightarrow> string \<Rightarrow> Stage \<Rightarrow> Job" where
  "createInterruptJobFromPackage opts interrupt argEncode p skyhook nodeName stage =
     jobFromPod opts (createInterruptPodForPackage opts interrupt argEncode p skyhook nodeName stage) skyhook p stage nodeName True"

definition setJobPackage :: "NodeWright \<Rightarrow> string \<Rightarrow> Stage \<Rightarrow> Package \<Rightarrow> Job \<Rightarrow> Job" where
  "setJobPackage skyhook img stage p job =
     (let template = js_Template (job_Spec job)
      in job\<lparr>job_Annotations := SetPackages (job_Annotations job) skyhook img stage (Some p),
             job_Spec := (job_Spec job)\<lparr>js_Template :=
               template\<lparr>tp_Annotations := SetPackages (tp_Annotations template) skyhook img stage (Some p)\<rparr>\<rparr>\<rparr>)"

section \<open>Does a Job still match?\<close>

text \<open>\<open>Semantic.DeepEqual\<close> on resources: quantities by value, a nil map like an empty one.\<close>

definition resources_equal :: "ContainerResources \<Rightarrow> ContainerResources \<Rightarrow> bool" where
  "resources_equal a b \<longleftrightarrow>
     same_gomap (or_empty (cr_Limits a)) (or_empty (cr_Limits b)) \<and> same_gomap (or_empty (cr_Requests a)) (or_empty (cr_Requests b))"

definition operator_env :: "SkyhookOperatorOptions \<Rightarrow> string list" where
  "operator_env opts = map env_Name (getAgentConfigEnvVars opts [] [] [] [] 0)"

definition container_matches ::
  "SkyhookOperatorOptions \<Rightarrow> bool \<Rightarrow> bool \<Rightarrow> ResourceRequirements option \<Rightarrow> Container \<Rightarrow> Container \<Rightarrow> bool" where
  "container_matches opts isInterrupt limitRange res expected actual \<longleftrightarrow>
     ctr_Name expected = ctr_Name actual \<and> ctr_Image expected = ctr_Image actual \<and>
     FilterEnv (ctr_Env expected) (operator_env opts) = FilterEnv (ctr_Env actual) (operator_env opts) \<and>
     (isInterrupt \<or>
      (if res \<noteq> None then resources_equal (ctr_Resources expected) (ctr_Resources actual)
       else limitRange \<or> (cr_Requests (ctr_Resources actual) = None \<and> cr_Limits (ctr_Resources actual) = None)))"

text \<open>
  The pod is given by the parts the comparison reads.  \<open>spec.Packages[name]\<close> of a name that is not there is the zero
  package, which has no resources.
\<close>

definition podMatchesPackage ::
  "SkyhookOperatorOptions \<Rightarrow> Package \<Rightarrow> PodTemplate \<Rightarrow> Skyhook \<Rightarrow> Stage \<Rightarrow> bool" where
  "podMatchesPackage opts p pod skyhook stage =
     (let isInterrupt = (map_of (tp_Labels pod) interrupt_label = Some ''True'');
          limitRange = (map_of (tp_Annotations pod) ''kubernetes.io/limit-ranger'' \<noteq> None);
          expected = (if isInterrupt
             then createInterruptPodForPackage opts \<lparr>int_Type = InterruptTypeOther [], int_Services = []\<rparr> [] p skyhook [] stage
             else createPodFromPackage opts p skyhook [] stage);
          res = Option.bind (map_of (spec_Packages (sk_Spec skyhook)) (p_Name p)) p_Resources
      in (case map_of (tp_Labels pod) package_label of None \<Rightarrow> [] | Some l \<Rightarrow> l) = package_label_value p \<and>
         length (sp_InitContainers (tp_Spec pod)) = length (sp_InitContainers (pod_Spec expected)) \<and>
         list_all2 (container_matches opts isInterrupt limitRange res)
           (sp_InitContainers (pod_Spec expected)) (sp_InitContainers (tp_Spec pod)))"

definition jobMatchesPackage :: "SkyhookOperatorOptions \<Rightarrow> Package \<Rightarrow> Job \<Rightarrow> Skyhook \<Rightarrow> Stage \<Rightarrow> bool" where
  "jobMatchesPackage opts p job skyhook stage = podMatchesPackage opts p (js_Template (job_Spec job)) skyhook stage"
section \<open>When a Job matches\<close>

lemma operator_env: "operator_env opts = [''SKYHOOK_LOG_DIR'', ''SKYHOOK_ROOT_DIR'', ''COPY_RESOLV'', ''SKYHOOK_RESOURCE_ID'', ''SKYHOOK_NODE_ORDER'']"
  by (simp add: operator_env_def getAgentConfigEnvVars_def env_var_def)

lemma FilterEnv_agent: "FilterEnv (getAgentConfigEnvVars opts a b c d n) (operator_env opts') = []"
  by (simp add: FilterEnv_def operator_env getAgentConfigEnvVars_def env_var_def)

lemma FilterEnv_append: "FilterEnv (xs @ ys) ex = FilterEnv xs ex @ FilterEnv ys ex"
  by (simp add: FilterEnv_def)

lemma FilterEnv_dir: "FilterEnv [env_var ''SKYHOOK_DIR'' dir] (operator_env opts) = [env_var ''SKYHOOK_DIR'' dir]"
  by (simp add: FilterEnv_def operator_env env_var_def)

lemma env_eq: "env_var n v = env_var n w \<longleftrightarrow> v = w"
  by (simp add: env_var_def)

text \<open>The resources every init container of a package pod has.\<close>

definition pod_resources :: "ResourceRequirements option \<Rightarrow> ContainerResources" where
  "pod_resources res =
     (case res of
        None \<Rightarrow> no_resources
      | Some r \<Rightarrow>
          if CPURequest r \<noteq> 0 \<or> CPULimit r \<noteq> 0 \<or> MemoryRequest r \<noteq> 0 \<or> MemoryLimit r \<noteq> 0
          then \<lparr>cr_Limits = Some [(''cpu'', CPULimit r), (''memory'', MemoryLimit r)],
                cr_Requests = Some [(''cpu'', CPURequest r), (''memory'', MemoryRequest r)]\<rparr>
          else no_resources)"

lemma setPodResources_stage:
  "setPodResources res (stage_containers opts p skyhook nodeName stage mounts) =
     map (\<lambda>c. c\<lparr>ctr_Resources := pod_resources res\<rparr>) (stage_containers opts p skyhook nodeName stage mounts)"
  by (simp add: setPodResources_def pod_resources_def stage_containers_def Let_def split: option.splits)

lemma same_gomap_refl [simp]: "gomap_ok m \<Longrightarrow> same_gomap m m"
  by (auto simp: same_gomap_def list_all_iff)

lemma resources_equal_refl [simp]: "resources_equal (pod_resources res) (pod_resources res)"
  by (auto simp: resources_equal_def pod_resources_def no_resources_def split: option.splits)

text \<open>The resources of the package in the specification, as the comparison looks them up.\<close>

definition spec_resources :: "Skyhook \<Rightarrow> Package \<Rightarrow> ResourceRequirements option" where
  "spec_resources skyhook p = Option.bind (map_of (spec_Packages (sk_Spec skyhook)) (p_Name p)) p_Resources"

lemma job_template:
  "js_Template (job_Spec (setJobPackage nw img sg p (createJobFromPackage opts p sk node stage))) =
     \<lparr>tp_Labels = jobLabels sk p stage node False,
      tp_Annotations = SetPackages [] nw img sg (Some p),
      tp_Spec = tp_Spec (js_Template (job_Spec (createJobFromPackage opts p sk node stage)))\<rparr>"
  by (simp add: setJobPackage_def createJobFromPackage_def jobFromPod_def Let_def)

lemma job_init_containers:
  "\<exists>mounts. sp_InitContainers (tp_Spec (js_Template (job_Spec (createJobFromPackage opts p sk node stage)))) =
     map (\<lambda>c. c\<lparr>ctr_Resources := pod_resources (p_Resources p)\<rparr>) (stage_containers opts p sk node stage mounts)"
  by (simp add: createJobFromPackage_def jobFromPod_def createPodFromPackage_def new_pod_def setPodResources_stage Let_def) blast

lemma no_limit_range: "map_of (SetPackages [] nw img sg (Some p)) ''kubernetes.io/limit-ranger'' = None"
  by (simp add: SetPackages_def packageAnnotationKey_def METADATA_PREFIX_def)

lemma job_labels_lookup:
  "map_of (jobLabels sk p stage node False) interrupt_label = None"
  "map_of (jobLabels sk p stage node i) package_label = Some (package_label_value p)"
  by (simp_all add: jobLabels_def interrupt_label_def package_label_def name_label_def stage_label_def node_label_def generation_label_def)

lemma job_match_iff:
  "jobMatchesPackage opts' q (setJobPackage nw img sg p (createJobFromPackage opts p sk node stage)) sk' stage' \<longleftrightarrow>
     package_label_value q = package_label_value p \<and> trunstr (p_Name q) 43 = trunstr (p_Name p) 43 \<and>
     stage_string stage' = stage_string stage \<and>
     getPackageImage q = getPackageImage p \<and> getAgentImage opts' q = getAgentImage opts p \<and>
     copy_dir opts' sk' q = copy_dir opts sk p \<and>
     FilterEnv (p_Env q) (operator_env opts') = FilterEnv (p_Env p) (operator_env opts') \<and>
     (if spec_resources sk' q \<noteq> None then resources_equal (pod_resources (p_Resources q)) (pod_resources (p_Resources p))
      else pod_resources (p_Resources p) = no_resources)"
proof -
  obtain mounts where actual: "sp_InitContainers (tp_Spec (js_Template (job_Spec (createJobFromPackage opts p sk node stage)))) =
     map (\<lambda>c. c\<lparr>ctr_Resources := pod_resources (p_Resources p)\<rparr>) (stage_containers opts p sk node stage mounts)"
    using job_init_containers by blast
  obtain mounts' where expected: "sp_InitContainers (pod_Spec (createPodFromPackage opts' q sk' [] stage')) =
     map (\<lambda>c. c\<lparr>ctr_Resources := pod_resources (p_Resources q)\<rparr>) (stage_containers opts' q sk' [] stage' mounts')"
    by (simp add: createPodFromPackage_def new_pod_def setPodResources_stage Let_def)
  have bare: "pod_resources (p_Resources p) = no_resources \<longleftrightarrow>
      cr_Requests (pod_resources (p_Resources p)) = None \<and> cr_Limits (pod_resources (p_Resources p)) = None"
    by (auto simp: pod_resources_def no_resources_def split: option.splits)
  show ?thesis
    unfolding jobMatchesPackage_def podMatchesPackage_def job_template
    by (auto simp: job_labels_lookup no_limit_range actual expected Let_def spec_resources_def[symmetric] bare
        stage_containers_def container_matches_def FilterEnv_append FilterEnv_agent FilterEnv_dir env_eq)
qed

text \<open>
  Whether a Job still is what the operator would build now is decided by exactly these things: the name and
  version of the package, its image, the agent's image, the stage, the directory the package is copied to, the
  environment the package asks for, and its resources.  Node, node order and operator environment play no part.
\<close>

theorem job_match_exact:
  "jobMatchesPackage opts' q (setJobPackage nw img sg p (createJobFromPackage opts p sk node stage)) sk' stage' \<longleftrightarrow>
     package_label_value q = package_label_value p \<and> trunstr (p_Name q) 43 = trunstr (p_Name p) 43 \<and>
     stage_string stage' = stage_string stage \<and>
     getPackageImage q = getPackageImage p \<and> getAgentImage opts' q = getAgentImage opts p \<and>
     copy_dir opts' sk' q = copy_dir opts sk p \<and>
     FilterEnv (p_Env q) (operator_env opts') = FilterEnv (p_Env p) (operator_env opts') \<and>
     (if spec_resources sk' q \<noteq> None then resources_equal (pod_resources (p_Resources q)) (pod_resources (p_Resources p))
      else pod_resources (p_Resources p) = no_resources)"
  by (rule job_match_iff)

lemma copy_dir_generation:
  "copy_dir opts (sk\<lparr>sk_NodeWright := (sk_NodeWright sk)\<lparr>Generation := g\<rparr>\<rparr>) p = copy_dir opts sk p \<longleftrightarrow> g = Generation (sk_NodeWright sk)"
proof -
  have "show_int a = show_int b \<longleftrightarrow> a = b" for a b using int_of_literal_show by (metis option.inject)
  then show ?thesis by (simp add: copy_dir_def)
qed

text \<open>
  The operator does not churn its own Jobs: a Job just built for a package of the specification matches that
  package, on whatever node it runs and however the order of the nodes, the status or the annotations of the resource
  change afterwards, as long as the resource's generation and the options of the operator stay.
\<close>

theorem fresh_job_matches:
  assumes "map_of (spec_Packages (sk_Spec sk)) (p_Name p) = Some p"
    and "nw_Name (sk_NodeWright sk') = nw_Name (sk_NodeWright sk)" and "nw_UID (sk_NodeWright sk') = nw_UID (sk_NodeWright sk)"
    and "Generation (sk_NodeWright sk') = Generation (sk_NodeWright sk)" and "sk_Spec sk' = sk_Spec sk"
  shows "jobMatchesPackage opts p (setJobPackage (sk_NodeWright sk) (p_Image p) stage p (createJobFromPackage opts p sk node stage)) sk' stage"
proof -
  have "copy_dir opts sk' p = copy_dir opts sk p" using assms(2-4) by (simp add: copy_dir_def)
  moreover have "spec_resources sk' p = p_Resources p" using assms(1,5) by (simp add: spec_resources_def)
  moreover have "p_Resources p = None \<Longrightarrow> pod_resources (p_Resources p) = no_resources" by (simp add: pod_resources_def)
  ultimately show ?thesis unfolding job_match_iff by simp
qed

text \<open>
  Any edit of the resource makes every unfinished package Job stale: a Job built at one generation never matches at
  another, even when the package itself is unchanged, because the directory in the environment of the first init
  container names the generation and only the agent's own variables are left out of the comparison.
\<close>

theorem edit_invalidates_jobs:
  assumes "g \<noteq> Generation (sk_NodeWright sk)"
  shows "\<not> jobMatchesPackage opts p (setJobPackage nw img sg p (createJobFromPackage opts p sk node stage))
     (sk\<lparr>sk_NodeWright := (sk_NodeWright sk)\<lparr>Generation := g\<rparr>\<rparr>) stage"
  using assms unfolding job_match_iff copy_dir_generation by simp
section \<open>Deadlines\<close>

lemma f64_abs: "0 \<le> x \<Longrightarrow> \<bar>f64 x - x\<bar> \<le> x / 2 ^ 53"
  using f64_near[of x] by (cases "x = 0") (auto simp: f64_def)

lemma f64_pos_iff: "0 \<le> x \<Longrightarrow> 0 \<le> f64 x \<and> (0 < f64 x \<longleftrightarrow> 0 < x)"
  using f64_between(3)[of x] by (cases "x = 0") (auto simp: f64_def)

lemma near_sum:
  fixes a b q r K :: rat
  assumes "\<bar>a - q\<bar> \<le> q / K" and "\<bar>b - r\<bar> \<le> r / K"
  shows "\<bar>(a + b) - (q + r)\<bar> \<le> (q + r) / K"
  using assms unfolding add_divide_distrib by linarith

lemma duration_near:
  assumes "0 < d"
  shows "0 < duration_seconds d" and "\<bar>duration_seconds d - of_int d / 1000000000\<bar> \<le> 3 * (of_int d / 1000000000) / 2 ^ 53"
proof -
  define q r where "q = d div 1000000000" and "r = d mod 1000000000"
  define a b where "a = f64 (of_int q)" and "b = f64 (of_int r / 1000000000)"
  define x where "x = (of_int d / 1000000000 :: rat)"
  have qr: "0 \<le> q" "0 \<le> r" using assms by (simp_all add: q_def r_def pos_imp_zdiv_nonneg_iff)
  have d: "d = q * 1000000000 + r" by (simp add: q_def r_def)
  then have x: "x = of_int q + of_int r / 1000000000" by (simp add: x_def field_simps)
  have dur: "duration_seconds d = f64 (a + b)"
  proof -
    have "d sdiv 1000000000 = q" using assms by (simp add: sdiv_nonneg q_def)
    moreover have "d - q * 1000000000 = r" by (simp add: q_def r_def minus_div_mult_eq_mod)
    ultimately show ?thesis by (simp add: duration_seconds_def a_def b_def)
  qed
  have "\<bar>a - of_int q\<bar> \<le> of_int q / 2 ^ 53" "\<bar>b - of_int r / 1000000000\<bar> \<le> (of_int r / 1000000000) / 2 ^ 53"
    using f64_abs[of "of_int q"] f64_abs[of "of_int r / 1000000000"] qr by (simp_all add: a_def b_def)
  then have s: "\<bar>(a + b) - x\<bar> \<le> x / 2 ^ 53" unfolding x by (rule near_sum)
  have "0 < x" using assms by (simp add: x_def)
  have ab: "0 < a + b"
    using f64_pos_iff[of "of_int q"] f64_pos_iff[of "of_int r / 1000000000"] qr \<open>0 < x\<close> unfolding a_def b_def x
    by (cases "q = 0") (auto intro: add_nonneg_pos add_pos_nonneg)
  then show "0 < duration_seconds d" using f64_between(3) dur by simp
  have "\<bar>f64 (a + b) - (a + b)\<bar> \<le> (a + b) / 2 ^ 53" using f64_abs ab by simp
  moreover have "a + b \<le> 2 * x" using s \<open>0 < x\<close> by (simp add: abs_if split: if_splits)
  ultimately have "\<bar>f64 (a + b) - x\<bar> \<le> 3 * x / 2 ^ 53" using s by (simp add: abs_if split: if_splits)
  then show "\<bar>duration_seconds d - of_int d / 1000000000\<bar> \<le> 3 * (of_int d / 1000000000) / 2 ^ 53" using dur x_def by simp
qed

text \<open>
  A stage timeout never becomes a deadline that fails every Job at once: a positive timeout gives a deadline of at
  least one second, at most what the API server accepts, and, unless it is cut there, the timeout rounded up to whole
  seconds, but for the rounding of the floating-point seconds by less than two microseconds.
\<close>

theorem deadline_bounds:
  assumes "0 < timeout"
  shows "1 \<le> deadlineSeconds timeout \<and> deadlineSeconds timeout \<le> 2 ^ 31 - 1 \<and>
     (deadlineSeconds timeout < 2 ^ 31 - 1 \<longrightarrow>
        timeout - 2000 \<le> deadlineSeconds timeout * 1000000000 \<and> deadlineSeconds timeout * 1000000000 \<le> timeout + 1000002000)"
proof -
  define y x where "y = duration_seconds timeout" and "x = (of_int timeout / 1000000000 :: rat)"
  have y: "0 < y" "\<bar>y - x\<bar> \<le> 3 * x / 2 ^ 53" using duration_near[OF assms] by (simp_all add: y_def x_def)
  have ceil: "1 \<le> \<lceil>y\<rceil>" "y \<le> of_int \<lceil>y\<rceil>" "of_int \<lceil>y\<rceil> < y + 1" using y(1) ceiling_correct[of y] by (simp_all add: one_le_ceiling)
  have d: "deadlineSeconds timeout = (if \<lceil>y\<rceil> > 2 ^ 31 - 1 then 2 ^ 31 - 1 else \<lceil>y\<rceil>)"
    by (simp add: deadlineSeconds_def y_def Let_def)
  have "timeout - 2000 \<le> \<lceil>y\<rceil> * 1000000000 \<and> \<lceil>y\<rceil> * 1000000000 \<le> timeout + 1000002000" if "\<lceil>y\<rceil> < 2 ^ 31 - 1"
  proof -
    have "y < 2 ^ 31" using that ceil(2) by (simp add: less_ceiling_iff flip: of_int_less_iff)
    moreover have "x \<le> 2 * y" using y by (simp add: abs_if split: if_splits)
    ultimately have "x < 2 ^ 32" by simp
    then have close: "\<bar>y - x\<bar> \<le> 2 / 1000000" using y(2) by (simp add: field_simps)
    have t: "of_int timeout = x * 1000000000" by (simp add: x_def)
    have yx: "x - 2 / 1000000 \<le> y" "y \<le> x + 2 / 1000000" using close by linarith+
    have "of_int (timeout - 2000) \<le> (of_int (\<lceil>y\<rceil> * 1000000000) :: rat)" using yx(1) ceil(2) t unfolding of_int_diff of_int_mult of_int_numeral by linarith
    moreover have "(of_int (\<lceil>y\<rceil> * 1000000000) :: rat) \<le> of_int (timeout + 1000002000)" using yx ceil(3) t by simp
    ultimately show ?thesis by (simp only: of_int_le_iff)
  qed
  then show ?thesis using ceil(1) by (simp add: d)
qed
section \<open>A package pod fits the nodes that are picked\<close>

text \<open>
  A node that the selection accepts can run the pod: every taint that the tolerations of the selection cover is
  covered by the tolerations of the pod of a package or interrupt Job, when the picker was given the tolerations
  of the same options.
\<close>

theorem picked_node_runs_pod:
  assumes "runtimeRequiredTolerations np = required_tolerations opts"
    and "CheckTaintToleration (pick_tolerations np (sk_Spec sk)) taints"
  shows "CheckTaintToleration (sp_Tolerations (tp_Spec (js_Template (job_Spec (createJobFromPackage opts p sk node stage))))) taints \<and>
     CheckTaintToleration (sp_Tolerations (tp_Spec (js_Template (job_Spec
       (createInterruptJobFromPackage opts interrupt args p sk node stage))))) taints"
proof -
  let ?tols = "package_tolerations opts sk @ node_down_tolerations"
  have "\<exists>t' \<in> set ?tols. ToleratesTaint t' taint"
    if "t \<in> set (pick_tolerations np (sk_Spec sk))" "ToleratesTaint t taint" for t taint
    using that assms(1) by (auto simp: pick_tolerations_def package_tolerations_def ToleratesTaint_def split: if_splits)
  then have "CheckTaintToleration ?tols taints"
    using assms(2) unfolding CheckTaintToleration_def list_all_iff list_ex_iff by blast
  moreover have
    "sp_Tolerations (tp_Spec (js_Template (job_Spec (createJobFromPackage opts p sk node stage)))) = ?tols"
    "sp_Tolerations (tp_Spec (js_Template (job_Spec (createInterruptJobFromPackage opts interrupt args p sk node stage)))) = ?tols"
    by (simp_all add: createJobFromPackage_def createInterruptJobFromPackage_def jobFromPod_def createPodFromPackage_def
        createInterruptPodForPackage_def new_pod_def Let_def)
  ultimately show ?thesis by simp
qed

section \<open>Witnesses\<close>

definition sample_options :: SkyhookOperatorOptions where
  "sample_options =
     \<lparr>opt_Namespace = ''nodewright'', opt_MaxInterval = 10 * minute, opt_ImagePullSecret = [],
      opt_CopyDirRoot = ''/var/lib/skyhook'', opt_ReapplyOnReboot = False,
      opt_RuntimeRequiredTaint = ''nodewright.nvidia.com=runtime-required:NoSchedule'',
      opt_PauseImage = ''registry.k8s.io/pause:3.10'', opt_AgentImage = ''ghcr.io/nvidia/nodewright/agent:latest'',
      opt_AgentLogRoot = ''/var/log/skyhook'', opt_LegacyCleanupDelay = 24 * 60 * minute, opt_PublishLegacyMetrics = True,
      opt_JobTTLSucceeded = 60 * minute, opt_JobTTLFailed = 24 * 60 * minute, opt_JobStageTimeout = 60 * minute,
      opt_JobBackoffLimit = 3\<rparr>"

lemma sample_options_valid: "Options_Validate sample_options = []"
  by code_simp

theorem fresh_job_matches_witness:
  "\<exists>job. jobMatchesPackage sample_options sample_package job sample_skyhook StageApply"
proof -
  have spec: "map_of (spec_Packages (sk_Spec sample_skyhook)) (p_Name sample_package) = Some sample_package" by code_simp
  show ?thesis
    using fresh_job_matches[OF spec refl refl refl refl, of sample_options StageApply "''node-1''"] by blast
qed

theorem edit_invalidates_jobs_witness:
  "\<not> jobMatchesPackage sample_options sample_package
     (setJobPackage sample_resource ''img'' StageApply sample_package
       (createJobFromPackage sample_options sample_package sample_skyhook ''node-1'' StageApply))
     (sample_skyhook\<lparr>sk_NodeWright := (sk_NodeWright sample_skyhook)\<lparr>Generation := 99\<rparr>\<rparr>) StageApply"
proof -
  have g: "99 \<noteq> Generation (sk_NodeWright sample_skyhook)" by code_simp
  show ?thesis using edit_invalidates_jobs[OF g] .
qed

theorem deadline_bounds_witness: "1 \<le> deadlineSeconds 1 \<and> deadlineSeconds (10 ^ 30) \<le> 2 ^ 31 - 1"
  using deadline_bounds[of 1] deadline_bounds[of "10 ^ 30"] by simp

theorem picked_node_runs_pod_witness:
  "CheckTaintToleration
     (sp_Tolerations (tp_Spec (js_Template (job_Spec (createJobFromPackage sample_options sample_package sample_skyhook ''node-1'' StageApply)))))
     [\<lparr>t_Key = ''node.kubernetes.io/unschedulable'', t_Value = [], t_Effect = ''NoSchedule''\<rparr>]"
proof -
  let ?np = "NewNodePicker (required_tolerations sample_options)"
  let ?taints = "[\<lparr>t_Key = ''node.kubernetes.io/unschedulable'', t_Value = [], t_Effect = ''NoSchedule''\<rparr>]"
  have "runtimeRequiredTolerations ?np = required_tolerations sample_options" by (simp add: NewNodePicker_def)
  moreover have "CheckTaintToleration (pick_tolerations ?np (sk_Spec sample_skyhook)) ?taints"
    by (simp add: CheckTaintToleration_def pick_tolerations_def ToleratesTaint_def)
  ultimately show ?thesis using picked_node_runs_pod by blast
qed

end
