(* ===== verification/Jobs.thy ===== *)
theory Jobs
  imports Lifecycle Node_Merge Job_Builder
begin

text \<open>
  Recording the outcome of package stages: the job controller and the pod controller,
  \<open>operator/internal/controller/job_controller.go\<close> and \<open>pod_controller.go\<close>.

  A package stage runs as a Job on one node.  The job controller writes the outcome of a finished Job into the node's
  state exactly once; the pod controller reports failures of attempts while the Job still runs.  Both write through
  \<open>patchNodeState\<close>.  What the API server answers is a parameter: the pods of the Job, the resource, whether a patch
  or a deletion of the Job and its pods goes through.  The watches, the events and the log messages are left out.
\<close>

section \<open>Jobs and pods\<close>

definition annotationStateRecorded :: string where
  "annotationStateRecorded = METADATA_PREFIX @ ''/state-recorded''"

definition annotationLastLogs :: string where
  "annotationLastLogs = METADATA_PREFIX @ ''/last-logs''"

definition InterruptContainerName :: string where
  "InterruptContainerName = ''interrupt''"

definition jobProcessed :: "Job \<Rightarrow> bool" where
  "jobProcessed job \<longleftrightarrow> map_of (job_Annotations job) annotationStateRecorded = Some ''true''"

definition isInterruptJob :: "Job \<Rightarrow> bool" where
  "isInterruptJob job \<longleftrightarrow> map_of (job_Labels job) interrupt_label = Some ''True''"

definition hasJobCondition :: "Job \<Rightarrow> string \<Rightarrow> bool" where
  "hasJobCondition job condition = list_ex (\<lambda>c. jc_Type c = condition \<and> jc_Status c = ''True'') (job_Conditions job)"

definition jobFailure :: "Job \<Rightarrow> bool \<times> string" where
  "jobFailure job =
     (case List.find (\<lambda>c. jc_Type c = ''Failed'' \<and> jc_Status c = ''True'') (job_Conditions job) of
        None \<Rightarrow> (False, [])
      | Some c \<Rightarrow> (True, jc_Reason c))"

definition jobFailedTerminally :: "Job \<Rightarrow> bool" where
  "jobFailedTerminally job = fst (jobFailure job)"

definition jobFinished :: "Job \<Rightarrow> bool" where
  "jobFinished job \<longleftrightarrow> hasJobCondition job ''Complete'' \<or> fst (jobFailure job)"

text \<open>Times are in nanoseconds.\<close>

definition second :: int where
  "second = 1000000000"

definition failureTargetGrace :: int where
  "failureTargetGrace = 5 * 60 * second"

definition failure_target :: "Job \<Rightarrow> JobCondition option" where
  "failure_target job = List.find (\<lambda>c. jc_Type c = ''FailureTarget'' \<and> jc_Status c = ''True'') (job_Conditions job)"

definition failureTargetStale :: "int \<Rightarrow> Job \<Rightarrow> bool" where
  "failureTargetStale now job =
     (case failure_target job of None \<Rightarrow> False | Some c \<Rightarrow> now - jc_LastTransitionTime c > failureTargetGrace)"

definition failureTargetRemaining :: "int \<Rightarrow> Job \<Rightarrow> int" where
  "failureTargetRemaining now job =
     (case failure_target job of
        None \<Rightarrow> 0
      | Some c \<Rightarrow>
          (let remaining = failureTargetGrace - (now - jc_LastTransitionTime c) + second
           in if remaining < second then second else remaining))"

definition hasDisruptionTarget :: "Pod \<Rightarrow> bool" where
  "hasDisruptionTarget pod = list_ex (\<lambda>(t, s). t = ''DisruptionTarget'' \<and> s = ''True'') (pod_Conditions pod)"

fun stuck_container :: "ContainerStatus list \<Rightarrow> string \<times> string \<times> string" where
  "stuck_container [] = ([], [], [])"
| "stuck_container (s # ss) =
     (if (case ct_Terminated s of None \<Rightarrow> False | Some (code, _) \<Rightarrow> code = 0) then stuck_container ss
      else (case ct_Waiting s of Some (reason, message) \<Rightarrow> (ct_Name s, reason, message) | None \<Rightarrow> (ct_Name s, [], [])))"

definition stuckInitContainer :: "Pod \<Rightarrow> string \<times> string \<times> string" where
  "stuckInitContainer pod = stuck_container (InitContainerStatuses pod)"

definition podDeadlineExceeded :: "Pod \<Rightarrow> bool" where
  "podDeadlineExceeded pod \<longleftrightarrow> pod_Phase pod = ''Failed'' \<and> pod_Reason pod = ''DeadlineExceeded''"

fun genuine_failure :: "ContainerStatus list \<Rightarrow> bool" where
  "genuine_failure [] = False"
| "genuine_failure (s # ss) =
     (case ct_Terminated s of
        Some (code, reason) \<Rightarrow> if code = 0 then genuine_failure ss else reason \<noteq> ''ContainerStatusUnknown''
      | None \<Rightarrow> (case ct_Waiting s of Some (reason, _) \<Rightarrow> reason = ''CrashLoopBackOff'' | None \<Rightarrow> False))"

definition podFailureIsGenuine :: "Pod \<Rightarrow> bool" where
  "podFailureIsGenuine pod = genuine_failure (InitContainerStatuses pod)"

definition podFailedGenuinely :: "Pod \<Rightarrow> bool" where
  "podFailedGenuinely pod =
     (if pod_Phase pod \<noteq> ''Failed'' \<or> hasDisruptionTarget pod then False
      else podDeadlineExceeded pod \<or> podFailureIsGenuine pod)"

definition check_status :: "ContainerStatus \<Rightarrow> string \<times> int" where
  "check_status s =
     (case ct_Terminated s of
        Some (code, _) \<Rightarrow> (if code = 0 then ''Success'' else ''Failed'', ct_RestartCount s)
      | None \<Rightarrow>
          if ct_Running s then (''Running'', ct_RestartCount s)
          else (case ct_Waiting s of
                  Some (reason, _) \<Rightarrow> (if reason = ''CrashLoopBackOff'' then ''Failed'' else ''Waiting'', ct_RestartCount s)
                | None \<Rightarrow> ([], 0)))"

fun exit_scan :: "ContainerStatus list \<Rightarrow> string \<times> string \<times> int \<Rightarrow> string \<times> string \<times> int" where
  "exit_scan [] acc = acc"
| "exit_scan (s # ss) acc =
     (let (state, restarts) = check_status s
      in if state = ''Failed'' then (ct_Name s, state, restarts) else exit_scan ss (ct_Name s, state, restarts))"

definition containerExitedSuccessfully :: "Pod \<Rightarrow> string \<times> string \<times> int" where
  "containerExitedSuccessfully pod = exit_scan (InitContainerStatuses pod) ([], [], 0)"

section \<open>Recording an outcome\<close>

definition unique_ref :: "PackageSkyhook \<Rightarrow> string" where
  "unique_ref pkg = PackageRef_GetUniqueName (pks_Ref pkg)"

definition entryOpenAtStage :: "NodeState \<Rightarrow> PackageSkyhook \<Rightarrow> bool" where
  "entryOpenAtStage state pkg =
     (case ns_get state (unique_ref pkg) of
        None \<Rightarrow> False
      | Some status \<Rightarrow> ps_Stage status = pks_Stage pkg \<and> ps_State status \<noteq> StateComplete)"

text \<open>\<open>None\<close> is an error: the state cannot be read.\<close>

definition shouldRecordCompletion :: "Job \<Rightarrow> PackageSkyhook \<Rightarrow> Node \<Rightarrow> bool option" where
  "shouldRecordCompletion job pkg node =
     (case Node_State (NewSkyhookNodeOnly node (pks_Skyhook pkg)) of
        Inl _ \<Rightarrow> None
      | Inr state \<Rightarrow>
          if isInterruptJob job \<and> list_ex (\<lambda>(k, s). ps_Stage s = StageInterrupt \<and> ps_State s = StateSkipped) (or_empty state)
          then Some True
          else Some (entryOpenAtStage state pkg))"

definition shouldRecordPodErroring :: "skyhookNode \<Rightarrow> PackageSkyhook \<Rightarrow> bool option" where
  "shouldRecordPodErroring node pkg =
     (case Node_State node of Inl _ \<Rightarrow> None | Inr state \<Rightarrow> Some (entryOpenAtStage state pkg))"

text \<open>The body of the loop that forgets the old versions of an upgraded package.\<close>

definition forget_old :: "PackageSkyhook \<Rightarrow> string \<Rightarrow> PackageStatus \<Rightarrow> skyhookNode \<Rightarrow> skyhookNode" where
  "forget_old pkg k status node =
     (if ps_Name status = ref_Name (pks_Ref pkg) \<and> ps_Version status \<noteq> ref_Version (pks_Ref pkg)
      then Node_RemoveState \<lparr>ref_Name = ps_Name status, ref_Version = ps_Version status\<rparr> node else node)"

text \<open>
  \<open>skyhook\<close> is what the lookup of the resource returns: \<open>None\<close> an error, \<open>Some None\<close> a deleted resource.  The result
  is the wrapper and whether the entry of the package was written; \<open>None\<close> is an error.
\<close>

definition HandleCompletePod ::
  "NodeWright option option \<Rightarrow> PackageSkyhook \<Rightarrow> string \<Rightarrow> skyhookNode \<Rightarrow> (skyhookNode \<times> bool) option" where
  "HandleCompletePod skyhook pkg containerName node =
     (if containerName = InterruptContainerName then
        (case skyhook of
           None \<Rightarrow> None
         | Some None \<Rightarrow> Some (node, False)
         | Some (Some nw) \<Rightarrow>
             (case Convert node nw of
                Inr (node1, Some sk) \<Rightarrow> Some (fst (Node_ProgressSkipped sk node1), False)
              | _ \<Rightarrow> None))
      else if pks_Stage pkg = StageUpgrade then
        (case Node_State node of
           Inl _ \<Rightarrow> None
         | Inr state \<Rightarrow>
             Some (grange (forget_old pkg) (\<lambda>n k. ns_get (case nodeState node of None \<Rightarrow> state | Some _ \<Rightarrow> nodeState n) k)
                     (gkeys (or_empty state)) node, False))
      else if pks_Stage pkg = StageUninstall then
        (case skyhook of
           None \<Rightarrow> None
         | Some None \<Rightarrow> Some (node, False)
         | Some (Some nw) \<Rightarrow>
             (case map_of (spec_Packages (nw_Spec nw)) (ref_Name (pks_Ref pkg)) of
                None \<Rightarrow> Some (Node_RemoveState (pks_Ref pkg) node, True)
              | Some p \<Rightarrow>
                  if p_Version p \<noteq> ref_Version (pks_Ref pkg) then Some (Node_RemoveState (pks_Ref pkg) node, True)
                  else if Package_HasInterrupt p
                  then Some (fst (Node_Upsert (pks_Ref pkg) (pks_Image pkg) StateInProgress StageUninstallInterrupt 0
                               (pks_ContainerSHA pkg) (node, None)), True)
                  else Some (Node_RemoveState (pks_Ref pkg) node, True)))
      else Some (node, False))"

definition succeededContainerName :: "Pod list option \<Rightarrow> string" where
  "succeededContainerName pods =
     (case pods of
        None \<Rightarrow> []
      | Some ps \<Rightarrow>
          (case List.find (\<lambda>p. pod_Phase p = ''Succeeded'' \<and> InitContainerStatuses p \<noteq> []) ps of
             None \<Rightarrow> []
           | Some p \<Rightarrow> ct_Name (last (InitContainerStatuses p))))"

definition record_completion :: "NodeWright option option \<Rightarrow> Pod list option \<Rightarrow> Job \<Rightarrow> PackageSkyhook \<Rightarrow> node_mutation" where
  "record_completion skyhook pods job pkg node =
     (case shouldRecordCompletion job pkg node of
        None \<Rightarrow> None
      | Some False \<Rightarrow> Some (False, node)
      | Some True \<Rightarrow>
          (let skyhookNode = NewSkyhookNodeOnly node (pks_Skyhook pkg);
               containerName = (if isInterruptJob job then InterruptContainerName else succeededContainerName pods)
           in case HandleCompletePod skyhook pkg containerName skyhookNode of
                None \<Rightarrow> None
              | Some (node1, updated) \<Rightarrow>
                  (case Node_State node1 of
                     Inl _ \<Rightarrow> None
                   | Inr state \<Rightarrow>
                       (let node2 =
                          (if \<not> updated \<and> entryOpenAtStage state pkg
                           then fst (Node_Upsert (pks_Ref pkg) (pks_Image pkg) StateComplete (pks_Stage pkg) (job_Failed job)
                                       (pks_ContainerSHA pkg) (node1, None))
                           else node1)
                        in Some (sn_updated node2, sn_Node node2)))))"

definition record_erroring :: "Job \<Rightarrow> PackageSkyhook \<Rightarrow> node_mutation" where
  "record_erroring job pkg node =
     (let skyhookNode = NewSkyhookNodeOnly node (pks_Skyhook pkg)
      in case Node_State skyhookNode of
           Inl _ \<Rightarrow> None
         | Inr state \<Rightarrow>
             (case ns_get state (unique_ref pkg) of
                None \<Rightarrow> Some (False, node)
              | Some status \<Rightarrow>
                  if ps_Stage status \<noteq> pks_Stage pkg \<or> ps_State status = StateErroring then Some (False, node)
                  else
                    (let node1 = fst (Node_SetStatus StatusErroring
                           (Node_Upsert (pks_Ref pkg) (pks_Image pkg) StateErroring (pks_Stage pkg) (job_Failed job)
                              (pks_ContainerSHA pkg) (skyhookNode, None)))
                     in Some (sn_updated node1, sn_Node node1))))"

definition record_pod_erroring :: "PackageSkyhook \<Rightarrow> int \<Rightarrow> node_mutation" where
  "record_pod_erroring pkg restarts node =
     (let skyhookNode = NewSkyhookNodeOnly node (pks_Skyhook pkg)
      in case shouldRecordPodErroring skyhookNode pkg of
           None \<Rightarrow> None
         | Some False \<Rightarrow> Some (False, node)
         | Some True \<Rightarrow>
             (let node1 = fst (Node_SetStatus StatusErroring
                    (Node_Upsert (pks_Ref pkg) (pks_Image pkg) StateErroring (pks_Stage pkg) restarts
                       (pks_ContainerSHA pkg) (skyhookNode, None)))
              in Some (sn_updated node1, sn_Node node1)))"
section \<open>The job controller\<close>

datatype job_error =
    PackageError
  | LookupFailed
  | WriteFailed patch_error
  | JobPatchFailed
  | JobDeleteFailed
  | PodsUnlisted
  | PodDeleteFailed

text \<open>
  What the API server answers while one event of a Job is handled.  \<open>je_pods\<close> are the pods of the Job, \<open>None\<close> an
  error; \<open>je_log\<close> is the tail of the log of a container of a pod.
\<close>

record job_env =
  je_api :: api_env
  je_node :: read_result
  je_skyhook :: "NodeWright option option"
  je_pods :: "Pod list option"
  je_log :: "string \<Rightarrow> string \<Rightarrow> string option"
  je_job_patch_ok :: bool
  je_job_delete_ok :: bool
  je_pod_delete_ok :: "string \<Rightarrow> bool"
  je_now :: int
  JobTTLSucceeded :: int
  JobTTLFailed :: int

text \<open>What the event changes: the node, the Job, and the pods of the Job that are deleted.\<close>

record job_world =
  jw_server :: "versioned option"
  jw_job :: Job
  jw_deleted :: bool
  jw_pruned :: "string list"

definition deleteJobForeground :: "job_env \<Rightarrow> job_world \<Rightarrow> job_world \<times> (job_error + int)" where
  "deleteJobForeground env w =
     (if je_job_delete_ok env then (w\<lparr>jw_deleted := True\<rparr>, Inr 0) else (w, Inl JobDeleteFailed))"

text \<open>The time to live is given in seconds; the conversion to 32 bits does not matter below 68 years.\<close>

definition markJobProcessed :: "job_env \<Rightarrow> int \<Rightarrow> job_world \<Rightarrow> job_world \<times> (job_error + int)" where
  "markJobProcessed env ttl w =
     (if je_job_patch_ok env
      then (w\<lparr>jw_job := (jw_job w)\<lparr>job_Annotations := gput annotationStateRecorded ''true'' (job_Annotations (jw_job w)),
               job_Spec := (job_Spec (jw_job w))\<lparr>js_TTLSecondsAfterFinished := Some (trunc_f64 (duration_seconds ttl))\<rparr>\<rparr>\<rparr>, Inr 0)
      else (w, Inl JobPatchFailed))"

definition write_node :: "job_env \<Rightarrow> node_mutation \<Rightarrow> job_world \<Rightarrow> job_world \<times> (job_error + unit)" where
  "write_node env mutate w =
     (case patchNodeState (je_api env) mutate (jw_server w) of
        (server, Inl e) \<Rightarrow> (w\<lparr>jw_server := server\<rparr>, Inl (WriteFailed e))
      | (server, Inr _) \<Rightarrow> (w\<lparr>jw_server := server\<rparr>, Inr ()))"

definition recordJobCompletion :: "job_env \<Rightarrow> PackageSkyhook \<Rightarrow> job_world \<Rightarrow> job_world \<times> (job_error + unit)" where
  "recordJobCompletion env pkg w = write_node env (record_completion (je_skyhook env) (je_pods env) (jw_job w) pkg) w"

definition recordJobErroring :: "job_env \<Rightarrow> PackageSkyhook \<Rightarrow> job_world \<Rightarrow> job_world \<times> (job_error + unit)" where
  "recordJobErroring env pkg w = write_node env (record_erroring (jw_job w) pkg) w"

definition handleCompleteJob :: "job_env \<Rightarrow> job_world \<Rightarrow> job_world \<times> (job_error + int)" where
  "handleCompleteJob env w =
     (case GetPackage (job_Annotations (jw_job w)) of
        Inl _ \<Rightarrow> (w, Inl PackageError)
      | Inr None \<Rightarrow> markJobProcessed env (JobTTLSucceeded env) w
      | Inr (Some pkg) \<Rightarrow>
          (case je_node env of
             ReadError \<Rightarrow> (w, Inl LookupFailed)
           | Absent \<Rightarrow> markJobProcessed env (JobTTLSucceeded env) w
           | Found _ \<Rightarrow>
               (case recordJobCompletion env pkg w of
                  (w1, Inl e) \<Rightarrow> (w1, Inl e)
                | (w1, Inr _) \<Rightarrow> markJobProcessed env (JobTTLSucceeded env) w1)))"

definition jobFailureIsGenuine :: "Pod list option \<Rightarrow> string \<Rightarrow> bool option" where
  "jobFailureIsGenuine pods reason =
     (if reason \<noteq> ''BackoffLimitExceeded'' then Some True
      else map_option (list_ex podFailedGenuinely) pods)"

definition handleFailedJob :: "job_env \<Rightarrow> string \<Rightarrow> job_world \<Rightarrow> job_world \<times> (job_error + int)" where
  "handleFailedJob env reason w =
     (case jobFailureIsGenuine (je_pods env) reason of
        None \<Rightarrow> (w, Inl PodsUnlisted)
      | Some False \<Rightarrow> markJobProcessed env (JobTTLFailed env) w
      | Some True \<Rightarrow>
          (case GetPackage (job_Annotations (jw_job w)) of
             Inl _ \<Rightarrow> (w, Inl PackageError)
           | Inr None \<Rightarrow> markJobProcessed env (JobTTLFailed env) w
           | Inr (Some pkg) \<Rightarrow>
               (case je_node env of
                  ReadError \<Rightarrow> (w, Inl LookupFailed)
                | Absent \<Rightarrow> markJobProcessed env (JobTTLFailed env) w
                | Found _ \<Rightarrow>
                    (case recordJobErroring env pkg w of
                       (w1, Inl e) \<Rightarrow> (w1, Inl e)
                     | (w1, Inr _) \<Rightarrow> markJobProcessed env (JobTTLFailed env) w1))))"

definition recordStaleFailureTarget :: "job_env \<Rightarrow> job_world \<Rightarrow> job_world \<times> (job_error + unit)" where
  "recordStaleFailureTarget env w =
     (case GetPackage (job_Annotations (jw_job w)) of
        Inl _ \<Rightarrow> (w, Inl PackageError)
      | Inr None \<Rightarrow> (w, Inr ())
      | Inr (Some pkg) \<Rightarrow> recordJobErroring env pkg w)"

text \<open>The pod to take the logs of: \<open>None\<close> when an archive of a genuine failure makes it needless.\<close>

fun snapshot_target :: "Pod list \<Rightarrow> Pod option \<Rightarrow> Pod option" where
  "snapshot_target [] target = target"
| "snapshot_target (p # ps) target =
     (if podFailedGenuinely p then None
      else snapshot_target ps
             (if target = None \<and> (pod_Phase p = ''Running'' \<or> pod_Phase p = ''Pending'') then Some p else target))"

text \<open>An error of the snapshot is only logged by the caller.\<close>

definition snapshotFailureLogs :: "job_env \<Rightarrow> job_world \<Rightarrow> job_world" where
  "snapshotFailureLogs env w =
     (if map_of (job_Annotations (jw_job w)) annotationLastLogs \<noteq> None then w
      else
        (case je_pods env of
           None \<Rightarrow> w
         | Some pods \<Rightarrow>
             (case snapshot_target pods None of
                None \<Rightarrow> w
              | Some target \<Rightarrow>
                  (let (container, reason, message) = stuckInitContainer target
                   in if container = [] then w
                      else
                        (case (if reason \<noteq> [] then Some (container @ '': '' @ reason @ '': '' @ message)
                               else map_option (\<lambda>logs. container @ '':'' @ [CHR 0x0A] @ logs) (je_log env (pod_Name target) container)) of
                           None \<Rightarrow> w
                         | Some snapshot \<Rightarrow>
                             if je_job_patch_ok env
                             then w\<lparr>jw_job := (jw_job w)\<lparr>job_Annotations :=
                                      gput annotationLastLogs snapshot (job_Annotations (jw_job w))\<rparr>\<rparr>
                             else w)))))"

text \<open>The archives a pruning pass deletes, in the order of the deletions.\<close>

definition archives :: "Pod list \<Rightarrow> Pod list" where
  "archives pods =
     sort_key (\<lambda>p. (pod_CreationTimestamp p, pod_Name p))
       (filter (\<lambda>p. podFailedGenuinely p \<and> pod_DeletionTimestamp p = None) pods)"

definition middle_archives :: "Pod list \<Rightarrow> Pod list" where
  "middle_archives pods = (if length (archives pods) \<le> 2 then [] else butlast (tl (archives pods)))"

fun delete_pods :: "(string \<Rightarrow> bool) \<Rightarrow> Pod list \<Rightarrow> string list" where
  "delete_pods ok [] = []"
| "delete_pods ok (p # ps) = (if ok (pod_Name p) then pod_Name p # delete_pods ok ps else [])"

definition pruneFailedAttempts :: "job_env \<Rightarrow> job_world \<Rightarrow> job_world" where
  "pruneFailedAttempts env w =
     (case je_pods env of
        None \<Rightarrow> w
      | Some pods \<Rightarrow> w\<lparr>jw_pruned := jw_pruned w @ delete_pods (je_pod_delete_ok env) (middle_archives pods)\<rparr>)"

definition handleActiveJob :: "job_env \<Rightarrow> job_world \<Rightarrow> job_world \<times> (job_error + int)" where
  "handleActiveJob env w =
     (if hasJobCondition (jw_job w) ''FailureTarget'' then
        (let w1 = snapshotFailureLogs env w
         in if failureTargetStale (je_now env) (jw_job w) then
              (case recordStaleFailureTarget env w1 of
                 (w2, Inl e) \<Rightarrow> (w2, Inl e)
               | (w2, Inr _) \<Rightarrow> (pruneFailedAttempts env w2, Inr 0))
            else (pruneFailedAttempts env w1, Inr (failureTargetRemaining (je_now env) (jw_job w))))
      else (pruneFailedAttempts env w, Inr 0))"

text \<open>The result is the time after which the Job is looked at again, zero for none.\<close>

definition JobReconcile :: "job_env \<Rightarrow> job_world \<Rightarrow> job_world \<times> (job_error + int)" where
  "JobReconcile env w =
     (if job_DeletionTimestamp (jw_job w) \<noteq> None then (w, Inr 0)
      else
        (case IsInvalidPackage (job_Annotations (jw_job w)) of
           Inl _ \<Rightarrow> (w, Inl PackageError)
         | Inr True \<Rightarrow> deleteJobForeground env w
         | Inr False \<Rightarrow>
             if jobProcessed (jw_job w) then (w, Inr 0)
             else if hasJobCondition (jw_job w) ''Complete'' then handleCompleteJob env w
             else (let (failed, reason) = jobFailure (jw_job w)
                   in if failed then handleFailedJob env reason w else handleActiveJob env w)))"

section \<open>The pod controller\<close>

definition recordPodErroring ::
  "api_env \<Rightarrow> Pod \<Rightarrow> int \<Rightarrow> versioned option \<Rightarrow> versioned option \<times> (job_error + unit)" where
  "recordPodErroring env pod restarts server =
     (case GetPackage (pod_Annotations pod) of
        Inl _ \<Rightarrow> (server, Inl PackageError)
      | Inr None \<Rightarrow> (server, Inr ())
      | Inr (Some pkg) \<Rightarrow>
          (case patchNodeState env (record_pod_erroring pkg restarts) server of
             (server', Inl e) \<Rightarrow> (server', Inl (WriteFailed e))
           | (server', Inr _) \<Rightarrow> (server', Inr ())))"

definition PodReconcile :: "api_env \<Rightarrow> Pod \<Rightarrow> versioned option \<Rightarrow> versioned option \<times> (job_error + unit)" where
  "PodReconcile env pod server =
     (if pod_DeletionTimestamp pod \<noteq> None \<or> hasDisruptionTarget pod then (server, Inr ())
      else
        (let (name, state, restarts) = containerExitedSuccessfully pod
         in if \<not> podDeadlineExceeded pod \<and> (state \<noteq> ''Failed'' \<or> \<not> podFailureIsGenuine pod) then (server, Inr ())
            else recordPodErroring env pod restarts server))"

section \<open>Pruning keeps the evidence\<close>

lemma sorted_key_between:
  assumes "sorted (map f xs)" and "x \<in> set xs"
  shows "f (hd xs) \<le> f x \<and> f x \<le> f (last xs)"
proof -
  have "f (hd xs) \<le> f x" using assms by (cases xs) auto
  moreover have "f x \<le> f (last xs)" using assms
    by (induction xs) (auto simp: last_in_set)
  ultimately show ?thesis by simp
qed
lemma delete_pods_subset: "set (delete_pods ok ps) \<subseteq> pod_Name ` set ps"
  by (induction ps) auto

lemma set_archives: "set (archives pods) = {p \<in> set pods. podFailedGenuinely p \<and> pod_DeletionTimestamp p = None}"
  by (auto simp: archives_def)

lemma middle_split:
  assumes "middle_archives pods \<noteq> []"
  shows "\<exists>a b. archives pods = a # middle_archives pods @ [b]"
proof -
  have "2 < length (archives pods)" using assms by (auto simp: middle_archives_def split: if_splits)
  then have "archives pods \<noteq> []" by auto
  then obtain a as where a: "archives pods = a # as" by (cases "archives pods") blast
  then have as: "as \<noteq> []" using \<open>2 < length (archives pods)\<close> by auto
  have "middle_archives pods = butlast as" using a \<open>2 < length (archives pods)\<close> by (simp add: middle_archives_def)
  then show ?thesis using a append_butlast_last_id[OF as] by metis
qed

text \<open>A pod that is pruned lies between two genuine failures that stay.\<close>

lemma pruned_between:
  assumes "distinct (map pod_Name pods)" and "p \<in> set pods" and "pod_Name p \<in> set (delete_pods ok (middle_archives pods))"
  shows "podFailedGenuinely p \<and> pod_DeletionTimestamp p = None \<and>
     (\<exists>a \<in> set pods. \<exists>b \<in> set pods. podFailedGenuinely a \<and> podFailedGenuinely b \<and> a \<noteq> b \<and>
        pod_Name a \<notin> set (delete_pods ok (middle_archives pods)) \<and> pod_Name b \<notin> set (delete_pods ok (middle_archives pods)) \<and>
        (pod_CreationTimestamp a, pod_Name a) \<le> (pod_CreationTimestamp p, pod_Name p) \<and>
        (pod_CreationTimestamp p, pod_Name p) \<le> (pod_CreationTimestamp b, pod_Name b))"
proof -
  let ?f = "\<lambda>p. (pod_CreationTimestamp p, pod_Name p)" and ?del = "set (delete_pods ok (middle_archives pods))"
  have "middle_archives pods \<noteq> []" using assms(3) by auto
  then obtain a b where ab: "archives pods = a # middle_archives pods @ [b]" using middle_split by blast
  have inj: "inj_on pod_Name (set pods)" using assms(1) by (simp add: distinct_map)
  have sub: "set (archives pods) \<subseteq> set pods" by (auto simp: set_archives)
  obtain q where q: "q \<in> set (middle_archives pods)" "pod_Name q = pod_Name p" using assms(3) delete_pods_subset by fastforce
  have "q \<in> set pods" using q(1) ab sub by auto
  then have p: "p \<in> set (middle_archives pods)" using inj_onD[OF inj q(2)] assms(2) q(1) by simp
  have dist: "distinct (map pod_Name (archives pods))"
  proof -
    have "distinct pods" using assms(1) by (simp add: distinct_map)
    then have "distinct (archives pods)" by (simp add: archives_def)
    then show ?thesis using inj sub by (simp add: distinct_map inj_on_subset)
  qed
  have in_pods: "a \<in> set pods" "b \<in> set pods" "podFailedGenuinely a" "podFailedGenuinely b" "podFailedGenuinely p" "pod_DeletionTimestamp p = None"
    using ab p set_archives[of pods] by auto
  have "pod_Name a \<notin> pod_Name ` set (middle_archives pods)" "pod_Name b \<notin> pod_Name ` set (middle_archives pods)" "a \<noteq> b"
    using dist unfolding ab by auto
  moreover have "sorted (map ?f (archives pods))" by (simp add: archives_def)
  then have "?f a \<le> ?f p" "?f p \<le> ?f b" using sorted_key_between[of ?f "archives pods" p] p unfolding ab by auto
  ultimately show ?thesis using in_pods delete_pods_subset by blast
qed

text \<open>
  Pruning never changes the verdict on a Job: the pods it deletes are genuine failures that are not
  terminating already, each lies between two other genuine failures that stay, whatever deletions fail, and so the
  Job counts as genuinely failed afterwards exactly if it did before.
\<close>

theorem prune_keeps_evidence:
  assumes "je_pods env = Some pods" and "distinct (map pod_Name pods)" and "jw_pruned w = []"
  shows "let pruned = jw_pruned (pruneFailedAttempts env w); left = filter (\<lambda>p. pod_Name p \<notin> set pruned) pods
     in (\<forall>p \<in> set pods. pod_Name p \<in> set pruned \<longrightarrow> podFailedGenuinely p \<and> pod_DeletionTimestamp p = None \<and>
           (\<exists>a \<in> set left. \<exists>b \<in> set left. podFailedGenuinely a \<and> podFailedGenuinely b \<and> a \<noteq> b \<and>
              (pod_CreationTimestamp a, pod_Name a) \<le> (pod_CreationTimestamp p, pod_Name p) \<and>
              (pod_CreationTimestamp p, pod_Name p) \<le> (pod_CreationTimestamp b, pod_Name b))) \<and>
        jobFailureIsGenuine (Some left) reason = jobFailureIsGenuine (Some pods) reason"
proof -
  define del where "del = delete_pods (je_pod_delete_ok env) (middle_archives pods)"
  define left where "left = filter (\<lambda>p. pod_Name p \<notin> set del) pods"
  have pruned: "jw_pruned (pruneFailedAttempts env w) = del" using assms(1,3) by (simp add: pruneFailedAttempts_def del_def)
  have between: "podFailedGenuinely p \<and> pod_DeletionTimestamp p = None \<and>
      (\<exists>a \<in> set left. \<exists>b \<in> set left. podFailedGenuinely a \<and> podFailedGenuinely b \<and> a \<noteq> b \<and>
        (pod_CreationTimestamp a, pod_Name a) \<le> (pod_CreationTimestamp p, pod_Name p) \<and>
        (pod_CreationTimestamp p, pod_Name p) \<le> (pod_CreationTimestamp b, pod_Name b))"
    if "p \<in> set pods" "pod_Name p \<in> set del" for p
    using pruned_between[OF assms(2) that(1), of "je_pod_delete_ok env"] that(2) unfolding left_def del_def[symmetric] set_filter by blast
  have "list_ex podFailedGenuinely left \<longleftrightarrow> list_ex podFailedGenuinely pods"
  proof
    assume "list_ex podFailedGenuinely pods"
    then obtain p where p: "p \<in> set pods" "podFailedGenuinely p" by (auto simp: list_ex_iff)
    show "list_ex podFailedGenuinely left"
    proof (cases "pod_Name p \<in> set del")
      case True
      then show ?thesis using between[OF p(1)] unfolding list_ex_iff by blast
    next
      case False
      then show ?thesis using p unfolding list_ex_iff left_def by auto
    qed
  qed (auto simp: list_ex_iff left_def)
  then have "jobFailureIsGenuine (Some left) reason = jobFailureIsGenuine (Some pods) reason"
    by (simp add: jobFailureIsGenuine_def)
  then show ?thesis using between unfolding Let_def pruned left_def by blast
qed
section \<open>What recording does to the stored state\<close>

text \<open>The package state a stored node has for a NodeWright; \<open>None\<close> when it cannot be read.\<close>

definition state_on :: "string \<Rightarrow> Node \<Rightarrow> NodeState option" where
  "state_on name node = (case Node_State (NewSkyhookNodeOnly node name) of Inl _ \<Rightarrow> None | Inr ns \<Rightarrow> Some ns)"

text \<open>The wrapper has a state, it is the one its node stores, and its entries are given by \<open>get\<close>.\<close>

definition tracks :: "skyhookNode \<Rightarrow> (string \<Rightarrow> PackageStatus option) \<Rightarrow> bool" where
  "tracks w get \<longleftrightarrow> in_sync w \<and> nodeState w \<noteq> None \<and> ns_get (nodeState w) = get"

lemma SetState_marks:
  assumes "in_sync w" and "nodeState w = Some m" and "gomap_ok m'" "entries_canonical m'" and "map_of m' \<noteq> map_of m"
  shows "sn_updated (SetState (Some m') (w\<lparr>nodeState := Some m'\<rparr>))"
proof -
  have "annotation w (nodeState_key w) \<noteq> Some (marshal_state m')"
    using assms unmarshal_marshal[OF assms(3,4)] by (auto simp: in_sync_def split: option.splits)
  then show ?thesis by (simp add: SetState_def annotation_def nodeState_key_def Let_def mark_def)
qed

lemma SetState_keeps [simp]:
  "skyhookName (SetState ns w) = skyhookName w" "sn_updated w \<Longrightarrow> sn_updated (SetState ns w)"
  by (auto simp: SetState_def Let_def put_annotation_def put_node_def mark_def split: option.splits)

lemma tracks_stored:
  assumes "tracks w get"
  shows "\<exists>ns. state_on (skyhookName w) (sn_Node w) = Some ns \<and> ns_get ns = get"
proof -
  obtain m s m' where "nodeState w = Some m" "annotation w (nodeState_key w) = Some s" "unmarshal_state s = Some (Some m')" "map_of m' = map_of m"
    using assms by (auto simp: tracks_def in_sync_def split: option.splits)
  moreover have "nodeState_key w = meta_key ''nodeState'' (skyhookName w)" by (simp add: nodeState_key_def)
  ultimately show ?thesis using assms
    by (auto simp: state_on_def NewSkyhookNodeOnly_def Node_State_def annotation_def nodeState_key_def tracks_def ns_get_def[abs_def] Let_def)
qed

lemma tracks_remove:
  assumes "tracks w get"
  shows "tracks (Node_RemoveState r w) (get(PackageRef_GetUniqueName r := None))"
    and "skyhookName (Node_RemoveState r w) = skyhookName w"
    and "sn_updated w \<or> get (PackageRef_GetUniqueName r) \<noteq> None \<Longrightarrow> sn_updated (Node_RemoveState r w)"
proof -
  obtain m where m: "nodeState w = Some m" and sync: "in_sync w" and get: "get = map_of m"
    using assms by (auto simp: tracks_def ns_get_def[abs_def])
  let ?k = "PackageRef_GetUniqueName r"
  have ok: "gomap_ok (gdel ?k m)" "entries_canonical (gdel ?k m)"
    using in_syncD[OF sync m] by simp (use in_syncD[OF sync m] in \<open>auto simp: entries_canonical_def list_all_iff AList.delete_eq\<close>)
  have state: "nodeState (Node_RemoveState r w) = fst (RemoveState (Some m) r)"
    using m by (simp add: Node_RemoveState_def split_beta Let_def)
  moreover have "ns_get (fst (RemoveState (Some m) r)) = get(?k := None)"
    by (rule ext) (simp add: RemoveState_lookup get ns_get_def)
  moreover have "fst (RemoveState (Some m) r) \<noteq> None" by (simp add: RemoveState_def)
  ultimately show "tracks (Node_RemoveState r w) (get(?k := None))"
    using RemoveState_in_sync[OF sync] by (simp add: tracks_def)
  show "skyhookName (Node_RemoveState r w) = skyhookName w" by (simp add: Node_RemoveState_def split_beta Let_def)
  show "sn_updated (Node_RemoveState r w)" if "sn_updated w \<or> get ?k \<noteq> None"
  proof (cases "get ?k")
    case (Some st)
    then have "map_of (gdel ?k m) \<noteq> map_of m" using get by (metis delete_conv' fun_upd_same option.distinct(1))
    then show ?thesis
      using SetState_marks[OF sync m ok] Some get m by (auto simp: Node_RemoveState_def RemoveState_def split_beta Let_def)
  qed (use that get m in \<open>auto simp: Node_RemoveState_def RemoveState_def split_beta Let_def\<close>)
qed

lemma tracks_upsert:
  fixes r :: PackageRef and img sha :: string and sk :: "Skyhook option"
  assumes "tracks w get" and "stage_of (stage_string sg) = sg" and "state_of (state_string st) = st"
    and "- (2 ^ 31) \<le> n" and "n < 2 ^ 31"
  defines "w' \<equiv> fst (Node_Upsert r img st sg n sha (w, sk))"
    and "e \<equiv> \<lparr>ps_Name = ref_Name r, ps_Version = ref_Version r, ps_Image = img, ps_ContainerSHA = sha,
                 ps_Stage = sg, ps_State = st, ps_Restarts = n\<rparr>"
  shows "tracks w' (get(PackageRef_GetUniqueName r := Some e))" and "skyhookName w' = skyhookName w"
    and "sn_updated w \<or> get (PackageRef_GetUniqueName r) \<noteq> Some e \<Longrightarrow> sn_updated w'"
proof -
  obtain m where m: "nodeState w = Some m" and sync: "in_sync w" and get: "get = map_of m"
    using assms(1) by (auto simp: tracks_def ns_get_def[abs_def])
  let ?k = "PackageRef_GetUniqueName r"
  note u = Upsert_in_sync[OF sync assms(2-5), where p = r and img = img and sha = sha and sk = sk, folded w'_def]
  have "ns_get (fst (Upsert (nodeState w) r img st sg n sha)) = get(?k := Some e)"
    by (rule ext) (simp add: Upsert_lookup get m e_def ns_get_def)
  then show "tracks w' (get(?k := Some e))"
    using u Upsert_Some[of "nodeState w" r img st sg n sha] by (auto simp: tracks_def)
  show "skyhookName w' = skyhookName w" by (simp add: w'_def Node_Upsert_def split_beta Let_def)
  show "sn_updated w'" if "sn_updated w \<or> get ?k \<noteq> Some e"
  proof (cases "get ?k = Some e")
    case False
    have e: "status_canonical e" using assms(2-5) by (simp add: status_canonical_def e_def)
    have ok: "gomap_ok (gput ?k e m)" "entries_canonical (gput ?k e m)"
      using in_syncD[OF sync m] entries_canonical_gput[OF _ e] by auto
    have "map_of (gput ?k e m) \<noteq> map_of m" using False get by (metis fun_upd_same update_conv')
    then show ?thesis
      using SetState_marks[OF sync m ok] False get m
      by (auto simp: w'_def Node_Upsert_def Upsert_def e_def[symmetric] split_beta Let_def)
  qed (use that in \<open>auto simp: w'_def Node_Upsert_def split_beta Let_def\<close>)
qed
lemma tracks_new:
  assumes "state_on name node = Some ns" and "ns \<noteq> None"
  shows "tracks (NewSkyhookNodeOnly node name) (ns_get ns)" and "Node_State (NewSkyhookNodeOnly node name) = Inr ns"
    and "nodeState (NewSkyhookNodeOnly node name) = ns" and "skyhookName (NewSkyhookNodeOnly node name) = name"
proof -
  let ?w = "NewSkyhookNodeOnly node name"
  show st: "Node_State ?w = Inr ns" using assms(1) by (simp add: state_on_def split: sum.splits)
  show name: "skyhookName ?w = name" by simp
  show ns: "nodeState ?w = ns"
    using st assms(2) by (auto simp: NewSkyhookNodeOnly_def Node_State_def annotation_def nodeState_key_def Let_def split: option.splits sum.splits)
  show "tracks ?w (ns_get ns)" using New_in_sync ns assms(2) by (simp add: tracks_def)
qed

lemma tracks_state: "tracks w get \<Longrightarrow> \<exists>ns. Node_State w = Inr ns \<and> ns_get ns = get"
  by (auto simp: tracks_def Node_State_def)

definition outdated :: "PackageSkyhook \<Rightarrow> PackageStatus \<Rightarrow> bool" where
  "outdated pkg st \<longleftrightarrow> ps_Name st = ref_Name (pks_Ref pkg) \<and> ps_Version st \<noteq> ref_Version (pks_Ref pkg)"

definition without_old :: "PackageSkyhook \<Rightarrow> string set \<Rightarrow> (string \<Rightarrow> PackageStatus option) \<Rightarrow> string \<Rightarrow> PackageStatus option" where
  "without_old pkg ks get k = (case get k of None \<Rightarrow> None | Some st \<Rightarrow> if k \<in> ks \<and> outdated pkg st then None else Some st)"

lemma forget_old_range:
  "tracks w get \<Longrightarrow> keyed (nodeState w) \<Longrightarrow>
   (let w' = grange (forget_old pkg) (\<lambda>n. ns_get (nodeState n)) ks w
    in tracks w' (without_old pkg (set ks) get) \<and> skyhookName w' = skyhookName w \<and> (sn_updated w \<longrightarrow> sn_updated w'))"
proof (induction ks arbitrary: w get)
  case Nil
  have "without_old pkg {} get = get" by (auto simp: without_old_def fun_eq_iff split: option.splits)
  then show ?case using Nil by (simp add: Let_def)
next
  case (Cons k ks)
  have get: "ns_get (nodeState w) = get" using Cons.prems(1) by (simp add: tracks_def)
  show ?case
  proof (cases "\<exists>st. get k = Some st \<and> outdated pkg st")
    case True
    then obtain st where st: "get k = Some st" "outdated pkg st" by blast
    let ?r = "\<lparr>ref_Name = ps_Name st, ref_Version = ps_Version st\<rparr>"
    have r: "PackageRef_GetUniqueName ?r = k"
      using Cons.prems(2) st(1) get by (simp add: keyed_def PackageRef_GetUniqueName_def)
    have step: "forget_old pkg k st w = Node_RemoveState ?r w" using st(2) by (simp add: forget_old_def outdated_def)
    note t = tracks_remove[OF Cons.prems(1), of ?r, unfolded r]
    have keyed: "keyed (nodeState (Node_RemoveState ?r w))"
      using t(1) Cons.prems(2) get by (auto simp: keyed_def tracks_def fun_upd_def split: if_splits)
    have "without_old pkg (set ks) (get(k := None)) = without_old pkg (set (k # ks)) get"
      using st by (auto simp: without_old_def fun_eq_iff split: option.splits)
    then show ?thesis using Cons.IH[OF t(1) keyed] st(1) step get t(2,3) by (simp add: Let_def fun_upd_def)
  next
    case False
    then have "without_old pkg (set ks) get = without_old pkg (set (k # ks)) get"
      by (auto simp: without_old_def fun_eq_iff split: option.splits)
    moreover have "(case get k of None \<Rightarrow> w | Some st \<Rightarrow> forget_old pkg k st w) = w"
      using False by (auto simp: forget_old_def outdated_def split: option.splits)
    ultimately show ?thesis using Cons.IH[OF Cons.prems] get by simp
  qed
qed

text \<open>The entries of the state a completed stage leaves behind.\<close>

definition completed ::
  "NodeWright option option \<Rightarrow> Job \<Rightarrow> PackageSkyhook \<Rightarrow> (string \<Rightarrow> PackageStatus option) \<Rightarrow> string \<Rightarrow> PackageStatus option" where
  "completed skyhook job pkg get =
     (let entry = (\<lambda>stage state n. \<lparr>ps_Name = ref_Name (pks_Ref pkg), ps_Version = ref_Version (pks_Ref pkg),
            ps_Image = pks_Image pkg, ps_ContainerSHA = pks_ContainerSHA pkg, ps_Stage = stage, ps_State = state, ps_Restarts = n\<rparr>)
      in case (if pks_Stage pkg = StageUninstall then Option.bind skyhook id else None) of
           Some nw \<Rightarrow>
             get(unique_ref pkg :=
               (case map_of (spec_Packages (nw_Spec nw)) (ref_Name (pks_Ref pkg)) of
                  None \<Rightarrow> None
                | Some p \<Rightarrow> if p_Version p = ref_Version (pks_Ref pkg) \<and> Package_HasInterrupt p
                            then Some (entry StageUninstallInterrupt StateInProgress 0) else None))
         | None \<Rightarrow>
             (if pks_Stage pkg = StageUpgrade then without_old pkg UNIV get else get)
               (unique_ref pkg := Some (entry (pks_Stage pkg) StateComplete (job_Failed job))))"
lemma open_entry:
  assumes "tracks w get" and "get (unique_ref pkg) = Some st" and "ps_Stage st = pks_Stage pkg"
  shows "stage_of (stage_string (pks_Stage pkg)) = pks_Stage pkg"
proof -
  obtain m where m: "nodeState w = Some m" "in_sync w" "map_of m = get" using assms(1) by (auto simp: tracks_def ns_get_def[abs_def])
  then have "status_canonical st"
    using in_syncD(2)[OF m(2,1)] assms(2) by (auto simp: entries_canonical_def list_all_iff dest: map_of_SomeD)
  then show ?thesis using assms(3) by (simp add: status_canonical_def)
qed

lemma entryOpen_get:
  "ns_get ns = get \<Longrightarrow> entryOpenAtStage ns pkg = (case get (unique_ref pkg) of None \<Rightarrow> False | Some st \<Rightarrow> ps_Stage st = pks_Stage pkg \<and> ps_State st \<noteq> StateComplete)"
  by (simp add: entryOpenAtStage_def)

text \<open>The final write of \<open>recordJobCompletion\<close> when the entry is still open.\<close>

lemma complete_upsert:
  assumes t: "tracks w get" and open_: "get (unique_ref pkg) = Some st" "ps_Stage st = pks_Stage pkg" "ps_State st \<noteq> StateComplete"
    and range: "- (2 ^ 31) \<le> job_Failed job" "job_Failed job < 2 ^ 31"
  defines "w' \<equiv> fst (Node_Upsert (pks_Ref pkg) (pks_Image pkg) StateComplete (pks_Stage pkg) (job_Failed job) (pks_ContainerSHA pkg) (w, None))"
  shows "sn_updated w' \<and> (\<exists>ns'. state_on (skyhookName w) (sn_Node w') = Some ns' \<and>
     ns_get ns' = get(unique_ref pkg := Some \<lparr>ps_Name = ref_Name (pks_Ref pkg), ps_Version = ref_Version (pks_Ref pkg),
            ps_Image = pks_Image pkg, ps_ContainerSHA = pks_ContainerSHA pkg, ps_Stage = pks_Stage pkg, ps_State = StateComplete,
            ps_Restarts = job_Failed job\<rparr>))"
proof -
  have canon: "state_of (state_string StateComplete) = StateComplete" by code_simp
  note u = tracks_upsert[OF t open_entry[OF t open_(1,2)] canon range, where r = "pks_Ref pkg" and img = "pks_Image pkg"
      and sha = "pks_ContainerSHA pkg" and sk = None, folded w'_def unique_ref_def]
  have "sn_updated w'" using u(3) open_ by (cases st) auto
  then show ?thesis using tracks_stored[OF u(1)] u(2) by simp
qed

lemma own_not_old:
  assumes "keyed ns" and "ns_get ns (unique_ref pkg) = Some st"
  shows "\<not> outdated pkg st"
proof
  assume "outdated pkg st"
  then have n: "ps_Name st = ref_Name (pks_Ref pkg)" "ps_Version st \<noteq> ref_Version (pks_Ref pkg)" by (simp_all add: outdated_def)
  have "unique_name (ref_Name (pks_Ref pkg)) (ref_Version (pks_Ref pkg)) = unique_name (ps_Name st) (ps_Version st)"
    using assms by (simp add: keyed_def unique_ref_def PackageRef_GetUniqueName_def)
  then show False using n by (simp add: unique_name_def)
qed

lemma completion_effect:
  assumes job: "\<not> isInterruptJob job" "succeededContainerName pods \<noteq> InterruptContainerName"
    and ns: "state_on (pks_Skyhook pkg) node = Some ns" "keyed ns" and "open": "entryOpenAtStage ns pkg"
    and range: "- (2 ^ 31) \<le> job_Failed job" "job_Failed job < 2 ^ 31"
    and run: "record_completion skyhook pods job pkg node = Some (changed, node')"
  shows "changed \<and> (\<exists>ns'. state_on (pks_Skyhook pkg) node' = Some ns' \<and> ns_get ns' = completed skyhook job pkg (ns_get ns))"
proof -
  let ?w = "NewSkyhookNodeOnly node (pks_Skyhook pkg)"
  obtain st where st: "ns_get ns (unique_ref pkg) = Some st" "ps_Stage st = pks_Stage pkg" "ps_State st \<noteq> StateComplete"
    using "open" by (auto simp: entryOpenAtStage_def split: option.splits)
  then have some: "ns \<noteq> None" by (cases ns) (auto simp: ns_get_def)
  note w = tracks_new[OF ns(1) some]
  have should: "shouldRecordCompletion job pkg node = Some True"
    using w(2) job(1) "open" by (simp add: shouldRecordCompletion_def)
  obtain w1 updated where h: "HandleCompletePod skyhook pkg (succeededContainerName pods) ?w = Some (w1, updated)"
    using run should job(1) by (auto simp: record_completion_def Let_def split: option.splits)
  have result: "Some (changed, node') = (case Node_State w1 of Inl _ \<Rightarrow> None | Inr state \<Rightarrow>
      (let node2 = (if \<not> updated \<and> entryOpenAtStage state pkg
           then fst (Node_Upsert (pks_Ref pkg) (pks_Image pkg) StateComplete (pks_Stage pkg) (job_Failed job) (pks_ContainerSHA pkg) (w1, None))
           else w1) in Some (sn_updated node2, sn_Node node2)))"
    using run should h job(1) by (simp add: record_completion_def Let_def)
  have finish: ?thesis if t: "tracks w1 get" "get (unique_ref pkg) = Some st" "\<not> updated" "skyhookName w1 = pks_Skyhook pkg"
    and eq: "completed skyhook job pkg (ns_get ns) = get(unique_ref pkg := Some \<lparr>ps_Name = ref_Name (pks_Ref pkg),
      ps_Version = ref_Version (pks_Ref pkg), ps_Image = pks_Image pkg, ps_ContainerSHA = pks_ContainerSHA pkg,
      ps_Stage = pks_Stage pkg, ps_State = StateComplete, ps_Restarts = job_Failed job\<rparr>)" for get
  proof -
    obtain ns1 where "Node_State w1 = Inr ns1" "ns_get ns1 = get" using tracks_state[OF t(1)] by blast
    then have "entryOpenAtStage ns1 pkg" using t(2) st by (simp add: entryOpenAtStage_def)
    then show ?thesis
      using complete_upsert[OF t(1,2) st(2,3) range] result t(3,4) eq \<open>Node_State w1 = Inr ns1\<close> by (simp add: Let_def)
  qed
  consider (upgrade) "pks_Stage pkg = StageUpgrade"
    | (uninstall) nw where "pks_Stage pkg = StageUninstall" "skyhook = Some (Some nw)"
    | (other) "pks_Stage pkg \<noteq> StageUpgrade" "pks_Stage pkg \<noteq> StageUninstall \<or> skyhook = Some None"
    using h job(2) by (cases skyhook) (auto simp: HandleCompletePod_def split: option.splits if_splits)
  then show ?thesis
  proof cases
    case upgrade
    obtain m where m: "ns = Some m" using some by blast
    have "w1 = grange (forget_old pkg) (\<lambda>n. ns_get (nodeState n)) (gkeys m) ?w" and u: "\<not> updated"
      using h job(2) upgrade w(2,3) m by (auto simp: HandleCompletePod_def)
    then have t: "tracks w1 (without_old pkg (set (gkeys m)) (ns_get ns))" and name: "skyhookName w1 = pks_Skyhook pkg"
      using forget_old_range[OF w(1), of pkg "gkeys m"] ns(2) w(3,4) by (simp_all add: Let_def)
    have all: "without_old pkg (set (gkeys m)) (ns_get ns) = without_old pkg UNIV (ns_get ns)"
      using gkeys_lookup[of _ m] m by (auto simp: without_old_def ns_get_def fun_eq_iff split: option.splits)
    have "without_old pkg UNIV (ns_get ns) (unique_ref pkg) = Some st"
      using st(1) own_not_old[OF ns(2) st(1)] by (simp add: without_old_def)
    then show ?thesis using finish[OF t[unfolded all] _ u name] upgrade by (simp add: completed_def Let_def)
  next
    case other
    then have "w1 = ?w" "\<not> updated" using h job(2) by (auto simp: HandleCompletePod_def split: option.splits if_splits)
    moreover have "(if pks_Stage pkg = StageUninstall then Option.bind skyhook id else None) = None" using other(2) by auto
    ultimately show ?thesis using finish[of "ns_get ns"] w(1,4) st(1) other(1) by (simp add: completed_def Let_def)
  next
    case uninstall
    show ?thesis
    proof (cases "\<exists>p. map_of (spec_Packages (nw_Spec nw)) (ref_Name (pks_Ref pkg)) = Some p \<and>
        p_Version p = ref_Version (pks_Ref pkg) \<and> Package_HasInterrupt p")
      case True
      have canon: "stage_of (stage_string StageUninstallInterrupt) = StageUninstallInterrupt"
        "state_of (state_string StateInProgress) = StateInProgress" by code_simp+
      have w1: "w1 = fst (Node_Upsert (pks_Ref pkg) (pks_Image pkg) StateInProgress StageUninstallInterrupt 0 (pks_ContainerSHA pkg) (?w, None))"
        and u: updated using h job(2) uninstall True by (auto simp: HandleCompletePod_def)
      note t = tracks_upsert[OF w(1) canon, of 0 "pks_Ref pkg" "pks_Image pkg" "pks_ContainerSHA pkg" None, folded w1 unique_ref_def]
      have "sn_updated w1" using t(3) st uninstall(1) by (cases st) auto
      then show ?thesis
        using tracks_stored[OF t(1)] tracks_state[OF t(1)] t(2) w(4) result u uninstall True by (auto simp: completed_def Let_def)
    next
      case False
      have w1: "w1 = Node_RemoveState (pks_Ref pkg) ?w" and u: updated
        using h job(2) uninstall False by (auto simp: HandleCompletePod_def split: option.splits if_splits)
      note t = tracks_remove[OF w(1), of "pks_Ref pkg", folded w1 unique_ref_def]
      have "sn_updated w1" using t(3) st by auto
      then show ?thesis
        using tracks_stored[OF t(1)] tracks_state[OF t(1)] t(2) w(4) result u uninstall False
        by (auto simp: completed_def Let_def split: option.splits)
    qed
  qed
qed
lemma completed_closed: "ns_get ns' = completed skyhook job pkg get \<Longrightarrow> \<not> entryOpenAtStage ns' pkg"
  by (auto simp: entryOpenAtStage_def completed_def Let_def split: option.splits if_splits)

lemma completed_other:
  assumes "k \<noteq> unique_ref pkg"
  shows "completed skyhook job pkg get k = get k \<or>
     (completed skyhook job pkg get k = None \<and> pks_Stage pkg = StageUpgrade \<and> (\<exists>st. get k = Some st \<and> outdated pkg st))"
  using assms by (auto simp: completed_def without_old_def Let_def split: option.splits)

lemma completed_no_old:
  "pks_Stage pkg = StageUpgrade \<Longrightarrow> completed skyhook job pkg get k = Some st \<Longrightarrow> \<not> outdated pkg st"
  by (auto simp: completed_def without_old_def outdated_def Let_def split: if_splits option.splits)

lemma completed_own:
  "pks_Stage pkg \<noteq> StageUninstall \<Longrightarrow>
     \<exists>st. completed skyhook job pkg get (unique_ref pkg) = Some st \<and> ps_State st = StateComplete \<and> ps_Stage st = pks_Stage pkg"
  by (simp add: completed_def Let_def)

text \<open>
  C6. A completed stage is recorded exactly once and never onto the wrong state.  If the package's entry on the node
  is gone, is complete already or is at another stage, nothing is written.  Otherwise the entry becomes complete (an
  uninstalled package is forgotten, or goes on to its interrupt), an upgrade forgets exactly the older versions of the
  package, no other entry changes and none is created, and the same completion served again writes nothing.
\<close>

theorem completion_recorded_once:
  assumes "\<not> isInterruptJob job" and "succeededContainerName pods \<noteq> InterruptContainerName"
    and "state_on (pks_Skyhook pkg) node = Some ns" and "keyed ns"
    and "- (2 ^ 31) \<le> job_Failed job" and "job_Failed job < 2 ^ 31"
    and "record_completion skyhook pods job pkg node = Some (changed, node')"
  shows "if entryOpenAtStage ns pkg then
       changed \<and>
       (\<exists>ns'. state_on (pks_Skyhook pkg) node' = Some ns' \<and> \<not> entryOpenAtStage ns' pkg \<and>
          (\<forall>k. k \<noteq> unique_ref pkg \<longrightarrow> ns_get ns' k = ns_get ns k \<or>
             (ns_get ns' k = None \<and> pks_Stage pkg = StageUpgrade \<and> (\<exists>st. ns_get ns k = Some st \<and> outdated pkg st))) \<and>
          (pks_Stage pkg = StageUpgrade \<longrightarrow> (\<forall>k st. ns_get ns' k = Some st \<longrightarrow> \<not> outdated pkg st)) \<and>
          (pks_Stage pkg \<noteq> StageUninstall \<longrightarrow>
             (\<exists>st. ns_get ns' (unique_ref pkg) = Some st \<and> ps_State st = StateComplete \<and> ps_Stage st = pks_Stage pkg))) \<and>
       record_completion skyhook pods job pkg node' = Some (False, node')
     else \<not> changed \<and> node' = node"
proof (cases "entryOpenAtStage ns pkg")
  case True
  obtain ns' where c: changed "state_on (pks_Skyhook pkg) node' = Some ns'" "ns_get ns' = completed skyhook job pkg (ns_get ns)"
    using completion_effect[OF assms(1-4) True assms(5-7)] by blast
  have closed: "\<not> entryOpenAtStage ns' pkg" using completed_closed[OF c(3)] .
  then have again: "record_completion skyhook pods job pkg node' = Some (False, node')"
    using c(2) assms(1) by (simp add: record_completion_def shouldRecordCompletion_def state_on_def split: sum.splits)
  show ?thesis
    using True c(1,2) closed again completed_other[of _ pkg skyhook job "ns_get ns"]
      completed_no_old[of pkg skyhook job "ns_get ns"] completed_own[of pkg skyhook job "ns_get ns"]
    unfolding c(3)[symmetric] by simp
next
  case False
  then show ?thesis
    using assms(1,3,7) by (auto simp: record_completion_def shouldRecordCompletion_def state_on_def split: sum.splits)
qed

text \<open>
  C27. A finished Job is processed once: when the controller has handled it without an error, and has not deleted it as
  invalid, the Job carries the marker, and any later event of it is ignored, whatever the cluster looks like then.
\<close>

theorem job_processed_once:
  assumes "JobReconcile env w = (w', Inr t)" and "jobFinished (jw_job w)" and "job_DeletionTimestamp (jw_job w) = None"
    and "\<not> jw_deleted w'"
  shows "jobProcessed (jw_job w') \<and> JobReconcile env' (w'\<lparr>jw_server := server\<rparr>) = (w'\<lparr>jw_server := server\<rparr>, Inr 0)"
proof -
  have write_job: "jw_job v' = jw_job v" if "write_node env mutate v = (v', r)" for mutate v v' r
    using that by (auto simp: write_node_def split: prod.splits sum.splits)
  have mark: "jobProcessed (jw_job v') \<and> job_DeletionTimestamp (jw_job v') = job_DeletionTimestamp (jw_job v) \<and>
      IsInvalidPackage (job_Annotations (jw_job v')) = IsInvalidPackage (job_Annotations (jw_job v))"
    if "markJobProcessed env ttl v = (v', Inr u)" for ttl v v' u
  proof -
    have "annotationStateRecorded \<noteq> packageAnnotationKey" by (simp add: annotationStateRecorded_def packageAnnotationKey_def)
    then show ?thesis
      using that by (auto simp: markJobProcessed_def jobProcessed_def IsInvalidPackage_def GetPackage_def split: if_splits)
  qed
  have valid: "IsInvalidPackage (job_Annotations (jw_job w)) = Inr False"
    using assms(1,3,4) by (auto simp: JobReconcile_def deleteJobForeground_def split: sum.splits bool.splits if_splits)
  have "jobProcessed (jw_job w') \<and> job_DeletionTimestamp (jw_job w') = None \<and> IsInvalidPackage (job_Annotations (jw_job w')) = Inr False"
  proof (cases "jobProcessed (jw_job w)")
    case True
    then show ?thesis using assms(1,3) valid by (simp add: JobReconcile_def)
  next
    case False
    then consider "handleCompleteJob env w = (w', Inr t)" | reason where "handleFailedJob env reason w = (w', Inr t)"
      using assms(1-3) valid by (auto simp: JobReconcile_def jobFinished_def split: prod.splits if_splits)
    then show ?thesis
    proof cases
      case 1
      then obtain v ttl where "markJobProcessed env ttl v = (w', Inr t)" "jw_job v = jw_job w"
        using write_job
        by (auto simp: handleCompleteJob_def recordJobCompletion_def split: sum.splits option.splits read_result.splits prod.splits)
      then show ?thesis using mark valid assms(3) by metis
    next
      case 2
      then obtain v ttl where "markJobProcessed env ttl v = (w', Inr t)" "jw_job v = jw_job w"
        using write_job
        by (auto simp: handleFailedJob_def recordJobErroring_def
            split: sum.splits option.splits read_result.splits prod.splits bool.splits)
      then show ?thesis using mark valid assms(3) by metis
    qed
  qed
  then show ?thesis by (simp add: JobReconcile_def)
qed
section \<open>Witnesses\<close>

definition sample_template :: PodTemplate where
  "sample_template =
     \<lparr>tp_Labels = [], tp_Annotations = [],
      tp_Spec = \<lparr>sp_NodeName = ''node-1'', sp_RestartPolicy = ''Never'', sp_InitContainers = [], sp_Containers = [], sp_Volumes = [],
        sp_HostPID = True, sp_HostNetwork = True, sp_Tolerations = [], sp_ImagePullSecrets = [],
        sp_TerminationGracePeriodSeconds = None, sp_ActiveDeadlineSeconds = None\<rparr>\<rparr>"

definition sample_job :: Job where
  "sample_job =
     \<lparr>job_Name = ''tuning-apply'', job_Namespace = ''nodewright'', job_Labels = [], job_Annotations = [],
      job_Spec = \<lparr>js_Parallelism = 1, js_Completions = 1, js_PodReplacementPolicy = ''Failed'', js_PodFailurePolicy = None,
        js_BackoffLimit = 3, js_ActiveDeadlineSeconds = None, js_TTLSecondsAfterFinished = None, js_Suspend = False,
        js_Template = sample_template\<rparr>,
      job_Conditions = [\<lparr>jc_Type = ''Complete'', jc_Status = ''True'', jc_Reason = [], jc_LastTransitionTime = 0\<rparr>],
      job_Failed = 1, job_DeletionTimestamp = None\<rparr>"

definition sample_work :: PackageSkyhook where
  "sample_work =
     \<lparr>pks_Ref = \<lparr>ref_Name = ''tuning'', ref_Version = ''1.0.0''\<rparr>, pks_Skyhook = ''sample'', pks_Stage = StageApply,
      pks_Image = ''ghcr.io/pkg'', pks_ContainerSHA = [], pks_Invalid = False\<rparr>"

definition failed_attempt :: "string \<Rightarrow> int \<Rightarrow> Pod" where
  "failed_attempt name t =
     \<lparr>pod_Name = name, pod_Namespace = ''nodewright'', pod_Labels = [], pod_Annotations = [], pod_Controller = Some ''Job'',
      pod_Spec = tp_Spec sample_template, pod_Phase = ''Failed'', pod_Reason = [],
      pod_Conditions = [],
      InitContainerStatuses = [\<lparr>ct_Name = ''apply'', ct_Waiting = None, ct_Running = False,
        ct_Terminated = Some (1, ''Error''), ct_RestartCount = 0\<rparr>],
      pod_DeletionTimestamp = None, pod_CreationTimestamp = t\<rparr>"

definition sample_pods :: "Pod list" where
  "sample_pods = [failed_attempt ''c'' 30, failed_attempt ''a'' 10, failed_attempt ''b'' 20]"

definition sample_env :: job_env where
  "sample_env =
     \<lparr>je_api = sample_api, je_node = Absent, je_skyhook = Some None, je_pods = Some sample_pods, je_log = (\<lambda>_ _. None),
      je_job_patch_ok = True, je_job_delete_ok = True, je_pod_delete_ok = (\<lambda>_. True), je_now = 0,
      JobTTLSucceeded = 60 * second, JobTTLFailed = 60 * second\<rparr>"

definition sample_world :: job_world where
  "sample_world = \<lparr>jw_server = None, jw_job = sample_job, jw_deleted = False, jw_pruned = []\<rparr>"

theorem prune_keeps_evidence_witness:
  "jw_pruned (pruneFailedAttempts sample_env sample_world) = [''b''] \<and>
   jobFailureIsGenuine (Some (filter (\<lambda>p. pod_Name p \<notin> {''b''}) sample_pods)) ''BackoffLimitExceeded'' =
     jobFailureIsGenuine (Some sample_pods) ''BackoffLimitExceeded''"
proof -
  have pods: "je_pods sample_env = Some sample_pods" "distinct (map pod_Name sample_pods)" "jw_pruned sample_world = []"
    by (simp_all add: sample_env_def sample_pods_def failed_attempt_def sample_world_def)
  have pruned: "jw_pruned (pruneFailedAttempts sample_env sample_world) = [''b'']" by code_simp
  show ?thesis
    using prune_keeps_evidence[OF pods, of "''BackoffLimitExceeded''"] unfolding pruned Let_def by simp
qed

lemma sample_state_on: "state_on ''sample'' (noted state_seen) = Some (Some state_seen)"
proof -
  have "unmarshal_state (marshal_state state_seen) = Some (Some (sort_key fst state_seen))"
    by (rule unmarshal_marshal) (rule sample_states_ok)+
  moreover have "sort_key fst state_seen = state_seen" by (simp add: state_seen_def)
  ultimately show ?thesis
    by (simp add: state_on_def NewSkyhookNodeOnly_def Node_State_def annotation_def nodeState_key_def Let_def noted_def
        nodeStateAnnotationKey_def meta_key_def)
qed

theorem completion_recorded_once_witness:
  "entryOpenAtStage (Some state_seen) sample_work \<and>
   (\<exists>node'. record_completion (Some None) None sample_job sample_work (noted state_seen) = Some (True, node') \<and>
      record_completion (Some None) None sample_job sample_work node' = Some (False, node'))"
proof -
  have conds: "\<not> isInterruptJob sample_job" "succeededContainerName None \<noteq> InterruptContainerName"
    "state_on (pks_Skyhook sample_work) (noted state_seen) = Some (Some state_seen)" "keyed (Some state_seen)"
    "- (2 ^ 31) \<le> job_Failed sample_job" "job_Failed sample_job < 2 ^ 31" "pks_Skyhook sample_work = ''sample''"
    using sample_state_on
    by (auto simp: sample_job_def isInterruptJob_def succeededContainerName_def InterruptContainerName_def sample_work_def
        keyed_def state_seen_def entry_def ns_get_def unique_name_def)
  have "open": "entryOpenAtStage (Some state_seen) sample_work" by code_simp
  have runs: "record_completion (Some None) None sample_job sample_work (noted state_seen) \<noteq> None"
    using tracks_new[OF conds(3)] conds(1) "open" conds(2)
    by (simp add: record_completion_def shouldRecordCompletion_def HandleCompletePod_def sample_work_def Let_def)
  then obtain changed node' where run: "record_completion (Some None) None sample_job sample_work (noted state_seen) = Some (changed, node')"
    by (metis option.exhaust surj_pair)
  show ?thesis
    using completion_recorded_once[OF conds(1-6) run] run "open" by auto
qed

theorem job_processed_once_witness:
  "jobFinished sample_job \<and> \<not> jobProcessed sample_job \<and>
   (\<exists>w'. JobReconcile sample_env sample_world = (w', Inr 0) \<and> jobProcessed (jw_job w') \<and>
      JobReconcile sample_env (w'\<lparr>jw_server := None\<rparr>) = (w'\<lparr>jw_server := None\<rparr>, Inr 0))"
proof -
  define w' where "w' = fst (JobReconcile sample_env sample_world)"
  have run: "JobReconcile sample_env sample_world = (w', Inr 0)" "\<not> jw_deleted w'"
    by (simp_all add: w'_def JobReconcile_def sample_world_def sample_job_def sample_env_def IsInvalidPackage_def GetPackage_def
        jobProcessed_def hasJobCondition_def handleCompleteJob_def markJobProcessed_def)
  have job: "jobFinished (jw_job sample_world)" "job_DeletionTimestamp (jw_job sample_world) = None" "jw_job sample_world = sample_job"
    "\<not> jobProcessed sample_job"
    by (simp_all add: sample_world_def sample_job_def jobFinished_def hasJobCondition_def jobProcessed_def)
  show ?thesis using job_processed_once[OF run(1) job(1,2) run(2), of sample_env None] run(1) job by auto
qed

end
