(* ===== verification/Rfc3339.thy ===== *)
theory Rfc3339
  imports Json
begin

text \<open>
  Time stamps in annotations: \<open>Time.Format\<close> and \<open>time.Parse\<close> of the standard library with the layout
  \<open>RFC3339Nano\<close>.  An instant is a number of nanoseconds since the epoch.  Formatting takes the offset of the local
  time zone in minutes; the clock is after 1970.  Parsing accepts the strict grammar of the standard, which is what the
  library tries first; a stamp outside of it is an error here.
\<close>

section \<open>The calendar\<close>

definition is_leap :: "nat \<Rightarrow> bool" where
  "is_leap y \<longleftrightarrow> y mod 4 = 0 \<and> (y mod 100 \<noteq> 0 \<or> y mod 400 = 0)"

definition year_length :: "nat \<Rightarrow> nat" where
  "year_length y = (if is_leap y then 366 else 365)"

definition month_lengths :: "nat \<Rightarrow> nat list" where
  "month_lengths y = [31, if is_leap y then 29 else 28, 31, 30, 31, 30, 31, 31, 30, 31, 30, 31]"

text \<open>The year of a day and the day in that year, counted from the start of year \<open>y\<close>.\<close>

function year_of :: "nat \<Rightarrow> nat \<Rightarrow> nat \<times> nat" where
  "year_of y days = (if days < year_length y then (y, days) else year_of (Suc y) (days - year_length y))"
  by pat_completeness auto
termination
  by (relation "measure snd") (auto simp: year_length_def split: if_splits)

declare year_of.simps [simp del]

text \<open>The number of whole months that fit in the days, and the days that are left.\<close>

fun month_of :: "nat list \<Rightarrow> nat \<Rightarrow> nat \<times> nat" where
  "month_of [] days = (0, days)"
| "month_of (l # ls) days = (if days < l then (0, days) else (let (m, d) = month_of ls (days - l) in (Suc m, d)))"

definition days_before_year :: "nat \<Rightarrow> int" where
  "days_before_year y =
     (if 1970 \<le> y then int (sum_list (map year_length [1970..<y])) else - int (sum_list (map year_length [y..<1970])))"

section \<open>Formatting\<close>

fun pad :: "nat \<Rightarrow> nat \<Rightarrow> string" where
  "pad 0 n = []"
| "pad (Suc k) n = pad k (n div 10) @ [char_of (48 + n mod 10)]"

definition frac_part :: "nat \<Rightarrow> string" where
  "frac_part ns = (if ns = 0 then [] else CHR ''.'' # rev (dropWhile (\<lambda>c. c = CHR ''0'') (rev (pad 9 ns))))"

definition zone_part :: "int \<Rightarrow> string" where
  "zone_part zone =
     (if zone = 0 then ''Z''
      else (if zone < 0 then CHR ''-'' else CHR ''+'') # pad 2 (nat \<bar>zone\<bar> div 60) @ '':'' @ pad 2 (nat \<bar>zone\<bar> mod 60))"

definition format_time :: "int \<Rightarrow> int \<Rightarrow> string" where
  "format_time zone t =
     (let local = t + zone * 60 * 1000000000; secs = nat (local div 1000000000); ns = nat (local mod 1000000000);
          (y, yd) = year_of 1970 (secs div 86400); (m, d) = month_of (month_lengths y) yd; s = secs mod 86400
      in pad 4 y @ ''-'' @ pad 2 (Suc m) @ ''-'' @ pad 2 (Suc d) @ ''T'' @ pad 2 (s div 3600) @ '':'' @ pad 2 (s mod 3600 div 60)
         @ '':'' @ pad 2 (s mod 60) @ frac_part ns @ zone_part zone)"

section \<open>Parsing\<close>

definition uint_in :: "nat \<Rightarrow> nat \<Rightarrow> string \<Rightarrow> nat option" where
  "uint_in lo hi s = (if list_all is_dig s \<and> lo \<le> dec_val s \<and> dec_val s \<le> hi then Some (dec_val s) else None)"

definition parse_frac :: "string \<Rightarrow> nat \<times> string" where
  "parse_frac s =
     (case s of
        c # d # _ \<Rightarrow>
          if c = CHR ''.'' \<and> is_dig d
          then (let ds = takeWhile is_dig (tl s) in (dec_val (take 9 (ds @ replicate 9 CHR ''0'')), dropWhile is_dig (tl s)))
          else (0, s)
      | _ \<Rightarrow> (0, s))"

text \<open>The offset in minutes.\<close>

definition parse_zone :: "string \<Rightarrow> int option" where
  "parse_zone s =
     (if s = ''Z'' then Some 0
      else if length s \<noteq> 6 \<or> s ! 3 \<noteq> CHR '':'' then None
      else
        (case (uint_in 0 23 (take 2 (drop 1 s)), uint_in 0 59 (drop 4 s)) of
           (Some h, Some m) \<Rightarrow>
             if s ! 0 = CHR ''-'' then Some (- int (h * 60 + m)) else if s ! 0 = CHR ''+'' then Some (int (h * 60 + m)) else None
         | _ \<Rightarrow> None))"

definition parse_time :: "string \<Rightarrow> int option" where
  "parse_time s =
     (if length s < 19 \<or> s ! 4 \<noteq> CHR ''-'' \<or> s ! 7 \<noteq> CHR ''-'' \<or> s ! 10 \<noteq> CHR ''T'' \<or> s ! 13 \<noteq> CHR '':'' \<or> s ! 16 \<noteq> CHR '':'' then None
      else
        (case (uint_in 0 9999 (take 4 s), uint_in 1 12 (take 2 (drop 5 s))) of
           (Some y, Some m) \<Rightarrow>
             (case (uint_in 1 (month_lengths y ! (m - 1)) (take 2 (drop 8 s)), uint_in 0 23 (take 2 (drop 11 s)),
                    uint_in 0 59 (take 2 (drop 14 s)), uint_in 0 59 (take 2 (drop 17 s))) of
                (Some d, Some hh, Some mm, Some ss) \<Rightarrow>
                  (let (ns, rest) = parse_frac (drop 19 s)
                   in case parse_zone rest of
                        None \<Rightarrow> None
                      | Some zone \<Rightarrow>
                          Some (((days_before_year y + int (sum_list (take (m - 1) (month_lengths y)) + (d - 1))) * 86400
                                  + int (hh * 3600 + mm * 60 + ss) - zone * 60) * 1000000000 + int ns))
              | _ \<Rightarrow> None)
         | _ \<Rightarrow> None))"

section \<open>The round trip\<close>

lemma year_of_sum:
  "year_of y days = (y', d) \<Longrightarrow> y \<le> y' \<and> d < year_length y' \<and> days = sum_list (map year_length [y..<y']) + d"
proof (induction y days rule: year_of.induct)
  case (1 y days)
  show ?case
  proof (cases "days < year_length y")
    case True
    then show ?thesis using 1(2) by (simp add: year_of.simps[of y])
  next
    case False
    then have "year_of (Suc y) (days - year_length y) = (y', d)" using 1(2) by (simp add: year_of.simps[of y])
    then have ih: "Suc y \<le> y' \<and> d < year_length y' \<and> days - year_length y = sum_list (map year_length [Suc y..<y']) + d"
      using 1(1)[OF False] by simp
    moreover have "[y..<y'] = y # [Suc y..<y']" using ih by (simp add: upt_conv_Cons)
    ultimately show ?thesis using False by auto
  qed
qed

lemma month_of_sum:
  "month_of ls days = (m, d) \<Longrightarrow> days < sum_list ls \<Longrightarrow> m < length ls \<and> d < ls ! m \<and> days = sum_list (take m ls) + d"
proof (induction ls arbitrary: days m)
  case (Cons l ls)
  show ?case
  proof (cases "days < l")
    case False
    then obtain m' where m': "month_of ls (days - l) = (m', d)" "m = Suc m'" using Cons.prems(1) by (auto split: prod.splits)
    have "days - l < sum_list ls" using Cons.prems(2) False by simp
    then show ?thesis using Cons.IH[OF m'(1)] m'(2) False by auto
  qed (use Cons.prems in auto)
qed simp

lemma month_lengths_sum: "sum_list (month_lengths y) = year_length y" "length (month_lengths y) = 12"
  by (simp_all add: month_lengths_def year_length_def)

lemma month_length_max: "i < 12 \<Longrightarrow> month_lengths y ! i \<le> 31"
proof -
  assume "i < 12"
  then have "month_lengths y ! i \<in> set (month_lengths y)" by (simp add: month_lengths_sum)
  then show ?thesis by (auto simp: month_lengths_def)
qed

lemma length_pad [simp]: "length (pad k n) = k"
  by (induction k arbitrary: n) simp_all

lemma pad_digits [simp]: "list_all is_dig (pad k n)"
  by (induction k arbitrary: n) (simp_all add: is_dig_def of_char_of)

lemma dec_val_snoc: "dec_val (ds @ [c]) = 10 * dec_val ds + (of_char c - 48)"
  by (simp add: dec_val_def)

lemma dec_val_pad [simp]: "dec_val (pad k n) = n mod 10 ^ k"
proof (induction k arbitrary: n)
  case (Suc k)
  have "n mod (10 * 10 ^ k) = 10 * (n div 10 mod 10 ^ k) + n mod 10" by (simp add: mod_mult2_eq)
  then show ?case using Suc by (simp add: dec_val_snoc of_char_of)
qed (simp add: dec_val_def)

lemma uint_in_pad: "n < 10 ^ k \<Longrightarrow> lo \<le> n \<Longrightarrow> n \<le> hi \<Longrightarrow> uint_in lo hi (pad k n) = Some n"
  by (simp add: uint_in_def)

lemma strip_zeros: "rev (dropWhile (\<lambda>c. c = z) (rev xs)) @ replicate (length xs - length (dropWhile (\<lambda>c. c = z) (rev xs))) z = xs"
proof -
  let ?t = "takeWhile (\<lambda>c. c = z) (rev xs)" and ?d = "dropWhile (\<lambda>c. c = z) (rev xs)"
  have "length ?t + length ?d = length xs" by (metis length_append length_rev takeWhile_dropWhile_id)
  moreover have "?t = replicate (length ?t) z" by (rule replicate_length_same[symmetric]) (auto dest: set_takeWhileD)
  ultimately have "?t = replicate (length xs - length ?d) z" by (metis add_diff_cancel_right')
  then have "rev ?d @ replicate (length xs - length ?d) z = rev (?t @ ?d)" by (simp add: rev_replicate)
  then show ?thesis by simp
qed

lemma span_at: "list_all P xs \<Longrightarrow> \<not> P c \<Longrightarrow> takeWhile P (xs @ c # cs) = xs \<and> dropWhile P (xs @ c # cs) = c # cs"
  by (induction xs) auto

lemma zone_start: "\<exists>c cs. zone_part zone = c # cs \<and> \<not> is_dig c \<and> c \<noteq> CHR ''.''"
  by (simp add: zone_part_def is_dig_def)

lemma parse_frac_part:
  assumes "ns < 10 ^ 9"
  shows "parse_frac (frac_part ns @ zone_part zone) = (ns, zone_part zone)"
proof (cases "ns = 0")
  case True
  then show ?thesis using zone_start[of zone] by (auto simp: frac_part_def parse_frac_def split: list.splits)
next
  case False
  let ?ds = "rev (dropWhile (\<lambda>c. c = CHR ''0'') (rev (pad 9 ns)))"
  have full: "?ds @ replicate (9 - length ?ds) CHR ''0'' = pad 9 ns" using strip_zeros[of "CHR ''0''" "pad 9 ns"] by simp
  have digs: "list_all is_dig ?ds" using pad_digits[of 9 ns] by (auto simp: list_all_iff dest!: set_dropWhileD)
  have "?ds \<noteq> []"
  proof
    assume none: "?ds = []"
    have "dec_val (replicate 9 CHR ''0'') = 0" by code_simp
    then show False using full[unfolded none] dec_val_pad[of 9 ns] assms False by simp
  qed
  then obtain d ds where d: "?ds = d # ds" "is_dig d" using digs by (cases ?ds) auto
  have "length ?ds \<le> 9" using full by (metis le_add1 length_append length_pad)
  then have "take 9 (?ds @ replicate 9 CHR ''0'') = pad 9 ns" using full by (simp add: take_replicate min_def)
  moreover have "takeWhile is_dig (?ds @ zone_part zone) = ?ds" "dropWhile is_dig (?ds @ zone_part zone) = zone_part zone"
  proof -
    obtain c cs where c: "zone_part zone = c # cs" "\<not> is_dig c" using zone_start by blast
    show "takeWhile is_dig (?ds @ zone_part zone) = ?ds" "dropWhile is_dig (?ds @ zone_part zone) = zone_part zone"
      using span_at[OF digs c(2), of cs] c(1) by simp_all
  qed
  moreover have "frac_part ns = CHR ''.'' # ?ds" using False by (simp add: frac_part_def)
  ultimately show ?thesis using d assms by (simp add: parse_frac_def)
qed

lemma parse_zone_part: "\<bar>zone\<bar> < 24 * 60 \<Longrightarrow> parse_zone (zone_part zone) = Some zone"
proof -
  assume z: "\<bar>zone\<bar> < 24 * 60"
  then have b: "nat \<bar>zone\<bar> div 60 \<le> 23" "nat \<bar>zone\<bar> mod 60 \<le> 59" by linarith (simp add: less_Suc_eq_le[symmetric])
  have u: "uint_in 0 23 (pad 2 (nat \<bar>zone\<bar> div 60)) = Some (nat \<bar>zone\<bar> div 60)" "uint_in 0 59 (pad 2 (nat \<bar>zone\<bar> mod 60)) = Some (nat \<bar>zone\<bar> mod 60)"
    using b by (simp_all add: uint_in_pad)
  have v: "int (nat \<bar>zone\<bar> div 60 * 60 + nat \<bar>zone\<bar> mod 60) = \<bar>zone\<bar>" by (simp add: div_mult_mod_eq)
  show ?thesis using u v by (simp add: parse_zone_def zone_part_def nth_append del: pad.simps)
qed

lemma year_of_bound:
  assumes "year_of 1970 days = (y, yd)" and "days < 365 * n"
  shows "y < 1970 + n"
proof (rule ccontr)
  assume "\<not> y < 1970 + n"
  have "365 * length ys \<le> sum_list (map year_length ys)" for ys
    by (induction ys) (auto simp: year_length_def)
  from this[of "[1970..<y]"] have "365 * (y - 1970) \<le> sum_list (map year_length [1970..<y])" by simp
  then have "365 * n \<le> days" using year_of_sum[OF assms(1)] \<open>\<not> y < 1970 + n\<close> by linarith
  then show False using assms(2) by simp
qed

text \<open>The text of an instant, by the fields of the local time.\<close>

lemma parse_fields:
  assumes "y \<le> 9999" and "m < 12" and "d < month_lengths y ! m" and "hh \<le> 23" and "mm \<le> 59" and "ss \<le> 59" and "ns < 10 ^ 9"
    and "\<bar>zone\<bar> < 24 * 60"
  shows "parse_time (pad 4 y @ ''-'' @ pad 2 (Suc m) @ ''-'' @ pad 2 (Suc d) @ ''T'' @ pad 2 hh @ '':'' @ pad 2 mm @ '':'' @ pad 2 ss
       @ frac_part ns @ zone_part zone) =
     Some (((days_before_year y + int (sum_list (take m (month_lengths y)) + d)) * 86400 + int (hh * 3600 + mm * 60 + ss)
        - zone * 60) * 1000000000 + int ns)"
proof -
  have "Suc d \<le> 31" using month_length_max[OF assms(2), of y] assms(3) by simp
  then have u: "uint_in 0 9999 (pad 4 y) = Some y" "uint_in 1 12 (pad 2 (Suc m)) = Some (Suc m)"
    "uint_in 1 (month_lengths y ! m) (pad 2 (Suc d)) = Some (Suc d)" "uint_in 0 23 (pad 2 hh) = Some hh"
    "uint_in 0 59 (pad 2 mm) = Some mm" "uint_in 0 59 (pad 2 ss) = Some ss"
    using assms by (simp_all add: uint_in_pad)
  show ?thesis
    using u parse_frac_part[OF assms(7)] parse_zone_part[OF assms(8)]
    by (simp add: parse_time_def nth_append del: pad.simps)
qed

lemma format_parse:
  assumes "0 \<le> t + zone * 60 * 1000000000" and "t + zone * 60 * 1000000000 < 2930950 * 86400 * 1000000000" and "\<bar>zone\<bar> < 24 * 60"
  shows "parse_time (format_time zone t) = Some t"
proof -
  define l where "l = t + zone * 60 * 1000000000"
  define secs ns where "secs = nat (l div 1000000000)" and "ns = nat (l mod 1000000000)"
  have "0 \<le> l" using assms(1) by (simp add: l_def)
  then have l: "l = int secs * 1000000000 + int ns" by (simp add: secs_def ns_def pos_imp_zdiv_nonneg_iff)
  have ns: "ns < 10 ^ 9" by (simp add: ns_def nat_less_iff)
  obtain y yd where y: "year_of 1970 (secs div 86400) = (y, yd)" by fastforce
  obtain m d where m: "month_of (month_lengths y) yd = (m, d)" by fastforce
  have "l < 2930950 * 86400 * 1000000000" using assms(2) by (simp add: l_def)
  then have "l div 1000000000 < 2930950 * 86400" by (simp add: int_div_less_iff)
  then have "secs < 2930950 * 86400" by (simp add: secs_def nat_less_iff)
  then have "secs div 86400 < 365 * 8030" by (simp add: less_mult_imp_div_less)
  then have y9: "y \<le> 9999" using year_of_bound[OF y, of 8030] by simp
  have ys: "1970 \<le> y" "yd < year_length y" "secs div 86400 = sum_list (map year_length [1970..<y]) + yd"
    using year_of_sum[OF y] by simp_all
  have ms: "m < 12" "d < month_lengths y ! m" "yd = sum_list (take m (month_lengths y)) + d"
    using month_of_sum[OF m] ys(2) by (simp_all add: month_lengths_sum)
  define s where "s = secs mod 86400"
  have hms: "s div 3600 \<le> 23" "s mod 3600 div 60 \<le> 59" "s mod 60 \<le> 59" by (simp_all add: s_def)
  have sdec: "s = s div 3600 * 3600 + s mod 3600 div 60 * 60 + s mod 60"
  proof -
    have "s mod 3600 mod 60 = s mod 60" by (rule mod_mod_cancel) simp
    then show ?thesis using div_mult_mod_eq[of s 3600] div_mult_mod_eq[of "s mod 3600" 60] by linarith
  qed
  have "secs = (sum_list (map year_length [1970..<y]) + (sum_list (take m (month_lengths y)) + d)) * 86400 + s"
    using div_mult_mod_eq[of secs 86400] unfolding ys(3) s_def[symmetric] ms(3)[symmetric] by simp
  moreover have "days_before_year y = int (sum_list (map year_length [1970..<y]))" using ys(1) by (simp add: days_before_year_def)
  ultimately have secs: "int secs = (days_before_year y + int (sum_list (take m (month_lengths y)) + d)) * 86400 +
      int (s div 3600 * 3600 + s mod 3600 div 60 * 60 + s mod 60)"
    unfolding sdec[symmetric] by simp
  have "format_time zone t = pad 4 y @ ''-'' @ pad 2 (Suc m) @ ''-'' @ pad 2 (Suc d) @ ''T'' @ pad 2 (s div 3600) @ '':'' @ pad 2 (s mod 3600 div 60)
         @ '':'' @ pad 2 (s mod 60) @ frac_part ns @ zone_part zone"
    unfolding format_time_def Let_def l_def[symmetric] secs_def[symmetric] ns_def[symmetric] s_def[symmetric] y prod.case m ..
  then show ?thesis
    using parse_fields[OF y9 ms(1,2) hms ns assms(3)] secs l by (simp add: l_def)
qed

end
