(* ===== verification/Drain.thy ===== *)
theory Drain
  imports Job_Builder Rfc3339
begin

text \<open>
  Draining a node before an interrupt: \<open>operator/internal/drain/drain.go\<close>, the drain marker of
  \<open>operator/internal/wrapper/node.go\<close>, and \<open>IsDrained\<close>, \<open>DrainNode\<close>, \<open>HasNonInterruptWork\<close> and
  \<open>EnsureNodeIsReadyForInterrupt\<close> of \<open>operator/internal/controller/skyhook_controller.go\<close>.

  The pods on a node and whether the API server takes an eviction or a deletion are parameters.  Events are left out.
\<close>

section \<open>Which pods are in the way\<close>

datatype Action = ActionIgnore | ActionBlock | ActionEvict | ActionDelete

datatype Reason =
    ReasonPhase | ReasonTerminating | ReasonSkyhookPackage | ReasonUnschedulableToleration | ReasonDaemonSet | ReasonKubeSystem
  | ReasonMirrorPod | ReasonUnmanaged | ReasonEmptyDir | ReasonEviction | ReasonDelete

record Decision =
  dec_Action :: Action
  dec_Reason :: Reason

record drain_Options =
  do_DisableEviction :: bool
  do_DeleteEmptyDirData :: bool
  do_Force :: bool
  do_IgnoreDaemonSets :: bool
  do_GracePeriodSeconds :: "int option"
  do_PackageNamespace :: string

definition DefaultOptions :: drain_Options where
  "DefaultOptions =
     \<lparr>do_DisableEviction = False, do_DeleteEmptyDirData = True, do_Force = True, do_IgnoreDaemonSets = True,
      do_GracePeriodSeconds = None, do_PackageNamespace = []\<rparr>"

text \<open>Go's division and remainder round towards zero.\<close>

definition grace_seconds :: "int \<Rightarrow> int" where
  "grace_seconds d = (let seconds = d sdiv 1000000000 in if d smod 1000000000 \<noteq> 0 then seconds + 1 else seconds)"

definition OptionsFromConfig :: "DrainConfig option \<Rightarrow> drain_Options" where
  "OptionsFromConfig config =
     (case config of
        None \<Rightarrow> DefaultOptions
      | Some c \<Rightarrow>
          DefaultOptions
            \<lparr>do_DisableEviction := (case DisableEviction c of None \<Rightarrow> do_DisableEviction DefaultOptions | Some b \<Rightarrow> b),
             do_DeleteEmptyDirData := (case DeleteEmptyDirData c of None \<Rightarrow> do_DeleteEmptyDirData DefaultOptions | Some b \<Rightarrow> b),
             do_Force := (case Force c of None \<Rightarrow> do_Force DefaultOptions | Some b \<Rightarrow> b),
             do_IgnoreDaemonSets := (case IgnoreDaemonSets c of None \<Rightarrow> do_IgnoreDaemonSets DefaultOptions | Some b \<Rightarrow> b),
             do_GracePeriodSeconds := map_option grace_seconds (dc_GracePeriod c)\<rparr>)"

definition TimedOut :: "int option \<Rightarrow> int option \<Rightarrow> int \<Rightarrow> bool" where
  "TimedOut startedAt timeout now =
     (case (startedAt, timeout) of
        (Some s, Some t) \<Rightarrow> t \<noteq> 0 \<and> \<not> now < s + t
      | _ \<Rightarrow> False)"

definition BlocksDrain :: "Decision \<Rightarrow> bool" where
  "BlocksDrain d \<longleftrightarrow> dec_Action d \<noteq> ActionIgnore"

definition RequiresAction :: "Decision \<Rightarrow> bool" where
  "RequiresAction d \<longleftrightarrow> dec_Action d = ActionEvict \<or> dec_Action d = ActionDelete"

definition isSkyhookPackagePod :: "Pod \<Rightarrow> string \<Rightarrow> bool" where
  "isSkyhookPackagePod pod packageNamespace \<longleftrightarrow>
     packageNamespace \<noteq> [] \<and> pod_Namespace pod = packageNamespace \<and>
     map_of (pod_Labels pod) name_label \<noteq> None \<and> map_of (pod_Labels pod) package_label \<noteq> None"

definition toleratesUnschedulable :: "Pod \<Rightarrow> bool" where
  "toleratesUnschedulable pod =
     list_ex (\<lambda>t. ToleratesTaint t \<lparr>t_Key = ''node.kubernetes.io/unschedulable'', t_Value = [], t_Effect = ''NoSchedule''\<rparr>)
       (sp_Tolerations (pod_Spec pod))"

definition isMirrorPod :: "Pod \<Rightarrow> bool" where
  "isMirrorPod pod \<longleftrightarrow> map_of (pod_Annotations pod) ''kubernetes.io/config.mirror'' \<noteq> None"

definition hasEmptyDir :: "Pod \<Rightarrow> bool" where
  "hasEmptyDir pod = list_ex (\<lambda>v. vol_Source v = EmptyDir) (sp_Volumes (pod_Spec pod))"

definition DecidePod :: "Pod \<Rightarrow> drain_Options \<Rightarrow> Decision" where
  "DecidePod pod options =
     (let decide = (\<lambda>a r. \<lparr>dec_Action = a, dec_Reason = r\<rparr>) in
      if pod_Phase pod \<noteq> ''Running'' \<and> pod_Phase pod \<noteq> ''Pending'' then decide ActionIgnore ReasonPhase
      else if isSkyhookPackagePod pod (do_PackageNamespace options) then decide ActionIgnore ReasonSkyhookPackage
      else if toleratesUnschedulable pod then decide ActionIgnore ReasonUnschedulableToleration
      else if do_IgnoreDaemonSets options \<and> pod_Controller pod = Some ''DaemonSet'' then decide ActionIgnore ReasonDaemonSet
      else if pod_Namespace pod = ''kube-system'' then decide ActionIgnore ReasonKubeSystem
      else if isMirrorPod pod then decide ActionIgnore ReasonMirrorPod
      else if pod_DeletionTimestamp pod \<noteq> None then decide ActionBlock ReasonTerminating
      else if pod_Controller pod = None \<and> \<not> do_Force options then decide ActionBlock ReasonUnmanaged
      else if hasEmptyDir pod \<and> \<not> do_DeleteEmptyDirData options then decide ActionBlock ReasonEmptyDir
      else if do_DisableEviction options then decide ActionDelete ReasonDelete
      else decide ActionEvict ReasonEviction)"

section \<open>The marker\<close>

definition StartDrain :: "int \<Rightarrow> int \<Rightarrow> skyhookNode \<Rightarrow> skyhookNode" where
  "StartDrain zone startedAt node =
     (if annotation node (drainStartAnnotationKey node) \<noteq> None then node
      else mark (put_annotation (drainStartAnnotationKey node) (format_time zone startedAt) node))"

text \<open>The outer \<open>None\<close> is an error: the stamp cannot be read.\<close>

definition DrainStartedAt :: "skyhookNode \<Rightarrow> int option option" where
  "DrainStartedAt node =
     (case annotation node (drainStartAnnotationKey node) of
        None \<Rightarrow> Some None
      | Some value \<Rightarrow> map_option Some (parse_time value))"

section \<open>Draining\<close>

text \<open>
  What the cluster answers while a node is made ready.  \<open>dr_pods\<close> lists the pods on the node, in turn: \<open>IsDrained\<close> and
  \<open>DrainNode\<close> each list them.  \<open>dr_labelled\<close> are the pods on the node that a selector chooses.
\<close>

record drain_env =
  dr_pods :: "nat \<Rightarrow> Pod list option"
  dr_labelled :: "requirement list \<Rightarrow> Pod list option"
  dr_evict_ok :: "Pod \<Rightarrow> bool"
  dr_delete_ok :: "Pod \<Rightarrow> bool"
  dr_zone :: int
  dr_now :: int
  dr_namespace :: string

datatype drain_error = PodListFailed | DrainStartUnreadable | DisruptionFailed "Pod list" | SelectorInvalid

definition drain_options :: "drain_env \<Rightarrow> Skyhook \<Rightarrow> drain_Options" where
  "drain_options env sk = (OptionsFromConfig (spec_DrainConfig (sk_Spec sk)))\<lparr>do_PackageNamespace := dr_namespace env\<rparr>"

definition IsDrained :: "drain_env \<Rightarrow> Skyhook \<Rightarrow> drain_error + bool" where
  "IsDrained env sk =
     (case dr_pods env 0 of
        None \<Rightarrow> Inl PodListFailed
      | Some pods \<Rightarrow> Inr (\<not> list_ex (\<lambda>pod. BlocksDrain (DecidePod pod (drain_options env sk))) pods))"

text \<open>The requests that were refused; a pod that only blocks asks for nothing.\<close>

definition refused :: "drain_env \<Rightarrow> drain_Options \<Rightarrow> Pod \<Rightarrow> bool" where
  "refused env options pod =
     (case dec_Action (DecidePod pod options) of
        ActionEvict \<Rightarrow> \<not> dr_evict_ok env pod
      | ActionDelete \<Rightarrow> \<not> dr_delete_ok env pod
      | _ \<Rightarrow> False)"

text \<open>
  The result has the requests that were sent: the pods to evict and the pods to delete.
\<close>

record disruptions =
  evicted :: "string list"
  deleted :: "string list"

definition no_disruption :: disruptions where
  "no_disruption = \<lparr>evicted = [], deleted = []\<rparr>"

definition disrupt_all :: "drain_Options \<Rightarrow> Pod list \<Rightarrow> disruptions" where
  "disrupt_all options pods =
     \<lparr>evicted = map pod_Name (filter (\<lambda>p. dec_Action (DecidePod p options) = ActionEvict) pods),
      deleted = map pod_Name (filter (\<lambda>p. dec_Action (DecidePod p options) = ActionDelete) pods)\<rparr>"

definition DrainNode :: "drain_env \<Rightarrow> skyhookNode \<times> Skyhook \<Rightarrow> (skyhookNode \<times> Skyhook) \<times> disruptions \<times> (drain_error + bool)" where
  "DrainNode env x =
     (let (node, sk) = x
      in case IsDrained env sk of
           Inl e \<Rightarrow> ((node, sk), no_disruption, Inl e)
         | Inr True \<Rightarrow> ((ClearDrainStart node, sk), no_disruption, Inr True)
         | Inr False \<Rightarrow>
             (case DrainStartedAt node of
                None \<Rightarrow> ((node, sk), no_disruption, Inl DrainStartUnreadable)
              | Some startedAt \<Rightarrow>
                  if startedAt \<noteq> None \<and>
                     (case spec_DrainConfig (sk_Spec sk) of None \<Rightarrow> False | Some c \<Rightarrow> TimedOut startedAt (dc_Timeout c) (dr_now env))
                  then (let (node1, sk1) = Node_SetStatus StatusErroring (node, Some sk)
                        in ((node1, the sk1), no_disruption, Inr False))
                  else
                    (let (node1, sk1) =
                       (if startedAt = None
                        then (let (n, s) = Node_SetStatus StatusInProgress (StartDrain (dr_zone env) (dr_now env) node, Some sk) in (n, the s))
                        else (node, sk));
                         options = drain_options env sk
                     in case dr_pods env 1 of
                          None \<Rightarrow> ((node1, sk1), no_disruption, Inl PodListFailed)
                        | Some pods \<Rightarrow>
                            (let bad = filter (refused env options) pods
                             in ((node1, sk1), disrupt_all options pods,
                                 if bad \<noteq> [] then Inl (DisruptionFailed bad)
                                 else Inr (\<not> list_ex (\<lambda>p. BlocksDrain (DecidePod p options)) pods))))))"

definition HasNonInterruptWork :: "drain_env \<Rightarrow> Skyhook \<Rightarrow> drain_error + bool" where
  "HasNonInterruptWork env sk =
     (case LabelSelectorAsSelector (PodNonInterruptLabels (sk_Spec sk)) of
        None \<Rightarrow> Inl SelectorInvalid
      | Some selector \<Rightarrow>
          if selector = [] then Inr False
          else
            (case dr_labelled env selector of
               None \<Rightarrow> Inl PodListFailed
             | Some pods \<Rightarrow> Inr (list_ex (\<lambda>p. pod_Phase p = ''Running'' \<or> pod_Phase p = ''Pending'') pods)))"

definition EnsureNodeIsReadyForInterrupt ::
  "drain_env \<Rightarrow> skyhookNode \<times> Skyhook \<Rightarrow> (skyhookNode \<times> Skyhook) \<times> disruptions \<times> (drain_error + bool)" where
  "EnsureNodeIsReadyForInterrupt env x =
     (let (node, sk) = x; (node1, cordoned) = Cordon node
      in if cordoned then ((node1, sk), no_disruption, Inr False)
         else
           (case HasNonInterruptWork env sk of
              Inl e \<Rightarrow> ((node1, sk), no_disruption, Inl e)
            | Inr True \<Rightarrow> ((node1, sk), no_disruption, Inr False)
            | Inr False \<Rightarrow> DrainNode env (node1, sk)))"
section \<open>What a drain touches\<close>

text \<open>The pods a drain must leave alone, whatever its options say.\<close>

definition exempt :: "drain_Options \<Rightarrow> Pod \<Rightarrow> bool" where
  "exempt options pod \<longleftrightarrow>
     pod_Phase pod \<noteq> ''Running'' \<and> pod_Phase pod \<noteq> ''Pending'' \<or> isSkyhookPackagePod pod (do_PackageNamespace options) \<or>
     toleratesUnschedulable pod \<or> (do_IgnoreDaemonSets options \<and> pod_Controller pod = Some ''DaemonSet'') \<or>
     pod_Namespace pod = ''kube-system'' \<or> isMirrorPod pod"

lemma ignored_iff_exempt: "dec_Action (DecidePod pod options) = ActionIgnore \<longleftrightarrow> exempt options pod"
  by (auto simp: DecidePod_def exempt_def Let_def)

lemma blocks_iff: "BlocksDrain (DecidePod pod options) \<longleftrightarrow> \<not> exempt options pod"
  by (simp add: BlocksDrain_def ignored_iff_exempt)

lemma DrainNode_disrupts:
  assumes "DrainNode env (node, sk) = (x, ds, r)" and "ds \<noteq> no_disruption"
  shows "\<exists>pods startedAt. dr_pods env 1 = Some pods \<and> ds = disrupt_all (drain_options env sk) pods \<and> DrainStartedAt node = Some startedAt \<and>
     (\<forall>c. spec_DrainConfig (sk_Spec sk) = Some c \<longrightarrow> \<not> TimedOut startedAt (dc_Timeout c) (dr_now env))"
  using assms
  by (auto simp: DrainNode_def Let_def TimedOut_def split: sum.splits bool.splits option.splits if_splits prod.splits)

lemma DrainNode_ready:
  assumes "DrainNode env (node, sk) = (x, ds, Inr True)"
  shows "\<exists>i pods. dr_pods env i = Some pods \<and> (\<forall>p \<in> set pods. exempt (drain_options env sk) p)"
  using assms
  by (auto simp: DrainNode_def IsDrained_def blocks_iff list_ex_iff Let_def split: option.splits if_splits prod.splits bool.splits)

text \<open>What the options allow: an unmanaged pod needs force, one with an empty directory the permission to lose it.\<close>

definition may_disrupt :: "drain_Options \<Rightarrow> Pod \<Rightarrow> bool" where
  "may_disrupt options p \<longleftrightarrow>
     \<not> exempt options p \<and> pod_DeletionTimestamp p = None \<and> (pod_Controller p \<noteq> None \<or> do_Force options) \<and>
     (\<not> hasEmptyDir p \<or> do_DeleteEmptyDirData options)"

lemma action_iff:
  "dec_Action (DecidePod p options) = ActionEvict \<longleftrightarrow> may_disrupt options p \<and> \<not> do_DisableEviction options"
  "dec_Action (DecidePod p options) = ActionDelete \<longleftrightarrow> may_disrupt options p \<and> do_DisableEviction options"
  by (auto simp: DecidePod_def exempt_def may_disrupt_def Let_def)

lemma disrupt_all_exact:
  "disrupt_all options pods =
     (let names = map pod_Name (filter (may_disrupt options) pods)
      in if do_DisableEviction options then \<lparr>evicted = [], deleted = names\<rparr> else \<lparr>evicted = names, deleted = []\<rparr>)"
  by (simp add: disrupt_all_def action_iff Let_def)

text \<open>
  C29. When \<open>EnsureNodeIsReadyForInterrupt\<close> disrupts any pod, the node was unschedulable and held this NodeWright's cordon before the pass,
  none of the workloads that must not be interrupted runs, and the drain has not timed out.  The pods disrupted are then exactly those
  of the listing that are running or pending workloads, not one of the operator's own, a daemon, a system or mirror pod, nor one that
  tolerates cordoned nodes, not terminating, managed by a controller unless the options force it, and without an empty directory unless the
  options let its data go; all of them are evicted, or, where the options disable eviction, all are deleted.
\<close>

theorem drain_safe:
  assumes "EnsureNodeIsReadyForInterrupt env (node, sk) = (x, ds, r)" and "ds \<noteq> no_disruption"
  shows "Unschedulable (sn_Node node) \<and> annotation node (cordonAnnotationKey (skyhookName node)) \<noteq> None \<and>
     HasNonInterruptWork env sk = Inr False \<and>
     (\<exists>startedAt. DrainStartedAt node = Some startedAt \<and>
        (\<forall>c. spec_DrainConfig (sk_Spec sk) = Some c \<longrightarrow> \<not> TimedOut startedAt (dc_Timeout c) (dr_now env))) \<and>
     (\<exists>pods names. dr_pods env 1 = Some pods \<and>
        names = map pod_Name (filter (\<lambda>p. \<not> exempt (drain_options env sk) p \<and> pod_DeletionTimestamp p = None \<and>
          (pod_Controller p \<noteq> None \<or> do_Force (drain_options env sk)) \<and>
          (\<not> hasEmptyDir p \<or> do_DeleteEmptyDirData (drain_options env sk))) pods) \<and>
        evicted ds = (if do_DisableEviction (drain_options env sk) then [] else names) \<and>
        deleted ds = (if do_DisableEviction (drain_options env sk) then names else []))"
proof -
  have cordoned: "Cordon node = (node, False)" "Unschedulable (sn_Node node)"
    "annotation node (cordonAnnotationKey (skyhookName node)) \<noteq> None"
    using assms by (auto simp: EnsureNodeIsReadyForInterrupt_def Cordon_def split: if_splits)
  then have work: "HasNonInterruptWork env sk = Inr False" and drain: "DrainNode env (node, sk) = (x, ds, r)"
    using assms by (auto simp: EnsureNodeIsReadyForInterrupt_def split: sum.splits bool.splits)
  from DrainNode_disrupts [OF drain assms(2)] obtain pods startedAt where d: "dr_pods env 1 = Some pods" "ds = disrupt_all (drain_options env sk) pods"
    "DrainStartedAt node = Some startedAt" "\<forall>c. spec_DrainConfig (sk_Spec sk) = Some c \<longrightarrow> \<not> TimedOut startedAt (dc_Timeout c) (dr_now env)"
    by blast
  let ?names = "map pod_Name (filter (may_disrupt (drain_options env sk)) pods)"
  have "evicted ds = (if do_DisableEviction (drain_options env sk) then [] else ?names)"
    "deleted ds = (if do_DisableEviction (drain_options env sk) then ?names else [])"
    by (simp_all add: d(2) disrupt_all_exact Let_def)
  with cordoned(2,3) work d(1,3,4) show ?thesis unfolding may_disrupt_def by blast
qed

text \<open>
  C3. A node is only reported ready for an interrupt when it is cordoned, none of the workloads that must not be
  interrupted runs on it, and a listing of its pods had none left but those a drain leaves alone.
\<close>

theorem ready_means_drained:
  assumes "EnsureNodeIsReadyForInterrupt env (node, sk) = ((node', sk'), ds, Inr True)"
  shows "Unschedulable (sn_Node node) \<and> annotation node (cordonAnnotationKey (skyhookName node)) \<noteq> None \<and>
     HasNonInterruptWork env sk = Inr False \<and>
     (\<exists>i pods. dr_pods env i = Some pods \<and> (\<forall>p \<in> set pods. exempt (drain_options env sk) p))"
proof -
  have cordoned: "Cordon node = (node, False)" "Unschedulable (sn_Node node)"
    "annotation node (cordonAnnotationKey (skyhookName node)) \<noteq> None"
    using assms by (auto simp: EnsureNodeIsReadyForInterrupt_def Cordon_def split: if_splits)
  then have "HasNonInterruptWork env sk = Inr False" and "DrainNode env (node, sk) = ((node', sk'), ds, Inr True)"
    using assms by (auto simp: EnsureNodeIsReadyForInterrupt_def split: sum.splits bool.splits)
  then show ?thesis using DrainNode_ready cordoned(2,3) by blast
qed

text \<open>
  The operator never drains its own work away: a pod of one of its Jobs is left alone, by its labels even if its
  tolerations are rewritten when it is admitted, and by its tolerations even if its labels are.
\<close>

theorem own_pods_survive:
  assumes "job = createJobFromPackage opts p sk' node stage \<or> job = createInterruptJobFromPackage opts i args p sk' node stage"
    and "pod_Namespace pod = opt_Namespace opts \<and> opt_Namespace opts \<noteq> [] \<and> dr_namespace env = opt_Namespace opts \<and>
           pod_Labels pod = tp_Labels (js_Template (job_Spec job)) \<or>
         set (sp_Tolerations (tp_Spec (js_Template (job_Spec job)))) \<subseteq> set (sp_Tolerations (pod_Spec pod))"
  shows "\<not> BlocksDrain (DecidePod pod (drain_options env sk))"
proof -
  have tmpl: "map_of (tp_Labels (js_Template (job_Spec job))) name_label \<noteq> None"
    "map_of (tp_Labels (js_Template (job_Spec job))) package_label \<noteq> None"
    "\<lparr>tol_Key = ''node.kubernetes.io/unschedulable'', tol_Operator = ''Exists'', tol_Value = [], tol_Effect = []\<rparr>
       \<in> set (sp_Tolerations (tp_Spec (js_Template (job_Spec job))))"
    using assms(1)
    by (auto simp: createJobFromPackage_def createInterruptJobFromPackage_def jobFromPod_def createPodFromPackage_def
        createInterruptPodForPackage_def new_pod_def package_tolerations_def jobLabels_def Let_def)
  have "isSkyhookPackagePod pod (do_PackageNamespace (drain_options env sk)) \<or> toleratesUnschedulable pod"
    using assms(2)
  proof
    assume "set (sp_Tolerations (tp_Spec (js_Template (job_Spec job)))) \<subseteq> set (sp_Tolerations (pod_Spec pod))"
    then show ?thesis using tmpl(3) unfolding toleratesUnschedulable_def list_ex_iff by (intro disjI2 bexI) (auto simp: ToleratesTaint_def)
  qed (use tmpl(1,2) in \<open>simp add: isSkyhookPackagePod_def drain_options_def\<close>)
  then show ?thesis unfolding blocks_iff exempt_def by blast
qed
section \<open>The timer of a drain\<close>

lemma SetStatus_annotation:
  "annotation (fst (Node_SetStatus st (node, sk))) (drainStartAnnotationKey node) = annotation node (drainStartAnnotationKey node)"
  if "st \<noteq> StatusComplete"
  using that
  by (simp add: Node_SetStatus_def annotation_def put_annotation_def put_node_def mark_def drainStartAnnotationKey_def status_key_def
      meta_key_def Let_def)

lemma SetStatus_name [simp]: "st \<noteq> StatusComplete \<Longrightarrow> skyhookName (fst (Node_SetStatus st (node, sk))) = skyhookName node"
  by (simp add: Node_SetStatus_def put_annotation_def put_node_def mark_def Let_def)

lemma SetStatus_status:
  "st \<in> {StatusInProgress, StatusErroring} \<Longrightarrow> Node_Status (fst (Node_SetStatus st (node, sk))) = st"
  by (auto simp: Node_SetStatus_def Node_Status_def annotation_def put_annotation_def put_node_def mark_def status_key_def Let_def
      GetStatus_def Statuses_def)

lemma StartDrain_started:
  assumes "annotation node (drainStartAnnotationKey node) = None"
    and "0 \<le> t + zone * 60 * 1000000000" and "t + zone * 60 * 1000000000 < 2930950 * 86400 * 1000000000" and "\<bar>zone\<bar> < 24 * 60"
  shows "DrainStartedAt (StartDrain zone t node) = Some (Some t)"
  using assms(1) format_parse[OF assms(2-4)]
  by (simp add: StartDrain_def DrainStartedAt_def annotation_def put_annotation_def put_node_def mark_def drainStartAnnotationKey_def)

lemma DrainStartedAt_cong:
  "skyhookName n = skyhookName n' \<Longrightarrow> annotation n (drainStartAnnotationKey n') = annotation n' (drainStartAnnotationKey n') \<Longrightarrow>
   DrainStartedAt n = DrainStartedAt n'"
  by (simp add: DrainStartedAt_def drainStartAnnotationKey_def)

lemma StartDrain_name [simp]: "skyhookName (StartDrain zone t node) = skyhookName node"
  by (simp add: StartDrain_def put_annotation_def put_node_def mark_def)

text \<open>
  The time limit of a drain counts from the pass that began it, whatever other passes run in between, and survives
  being written to the node: the first pass over a node that is not drained stamps the clock, and a later pass that
  still finds pods in the way gives up, evicting nothing and marking the node as erroring, exactly if the limit has
  passed since then; otherwise it evicts and deletes again and leaves the status alone.
\<close>

theorem drain_timer:
  assumes "annotation node (drainStartAnnotationKey node) = None" and "spec_DrainConfig (sk_Spec sk) = Some c"
    and "dc_Timeout c = Some limit" and "0 < limit"
    and "IsDrained env sk = Inr False" and "DrainNode env (node, sk) = ((node1, sk1), ds1, r1)"
    and "0 \<le> dr_now env + dr_zone env * 60 * 1000000000" and "dr_now env + dr_zone env * 60 * 1000000000 < 2930950 * 86400 * 1000000000"
    and "\<bar>dr_zone env\<bar> < 24 * 60"
    and "IsDrained env' sk = Inr False" and "dr_pods env' 1 = Some pods" and "DrainNode env' (node1, sk) = ((node2, sk2), ds2, r2)"
  shows "Node_Status node1 = StatusInProgress \<and>
     (if dr_now env + limit \<le> dr_now env'
      then ds2 = no_disruption \<and> r2 = Inr False \<and> Node_Status node2 = StatusErroring
      else ds2 = disrupt_all (drain_options env' sk) pods \<and> node2 = node1)"
proof -
  let ?n = "StartDrain (dr_zone env) (dr_now env) node"
  have start: "DrainStartedAt node = Some None" using assms(1) by (simp add: DrainStartedAt_def)
  have node1: "node1 = fst (Node_SetStatus StatusInProgress (?n, Some sk))"
    using assms(5,6) start by (auto simp: DrainNode_def Let_def split: prod.splits option.splits)
  have "skyhookName node1 = skyhookName ?n" "annotation node1 (drainStartAnnotationKey ?n) = annotation ?n (drainStartAnnotationKey ?n)"
    using SetStatus_annotation[of StatusInProgress ?n "Some sk"] by (simp_all add: node1)
  then have "DrainStartedAt node1 = Some (Some (dr_now env))"
    using DrainStartedAt_cong StartDrain_started[OF assms(1,7-9)] by metis
  then have second: "if dr_now env + limit \<le> dr_now env'
      then ds2 = no_disruption \<and> r2 = Inr False \<and> node2 = fst (Node_SetStatus StatusErroring (node1, Some sk))
      else ds2 = disrupt_all (drain_options env' sk) pods \<and> node2 = node1"
    using assms(2-4,10-12) by (auto simp: DrainNode_def TimedOut_def Let_def split: prod.splits if_splits)
  then show ?thesis using SetStatus_status[of StatusInProgress] SetStatus_status[of StatusErroring] by (auto simp: node1 split: if_splits)
qed

text \<open>Grace periods are rounded up to whole seconds.\<close>

lemma grace_seconds_up:
  assumes "0 \<le> d"
  shows "d \<le> grace_seconds d * 1000000000 \<and> grace_seconds d * 1000000000 < d + 1000000000"
proof -
  have "d sdiv 1000000000 = d div 1000000000" using assms by (simp add: sdiv_nonneg)
  moreover have "d smod 1000000000 = d mod 1000000000"
    using assms calculation by (cases "d = 0") (simp_all add: signed_modulo_int_def minus_div_mult_eq_mod)
  ultimately have g: "grace_seconds d = (if d mod 1000000000 \<noteq> 0 then d div 1000000000 + 1 else d div 1000000000)"
    by (simp add: grace_seconds_def Let_def)
  define q r where "q = d div 1000000000" and "r = d mod 1000000000"
  have "d = q * 1000000000 + r" "0 \<le> r" "r < 1000000000" by (simp_all add: q_def r_def)
  then show ?thesis unfolding g q_def[symmetric] r_def[symmetric] by (cases "r = 0") auto
qed
section \<open>Witnesses\<close>

definition workload :: "string \<Rightarrow> string \<Rightarrow> Pod" where
  "workload name namespace =
     new_pod name namespace []
       \<lparr>sp_NodeName = ''node-1'', sp_RestartPolicy = ''Always'', sp_InitContainers = [], sp_Containers = [], sp_Volumes = [],
        sp_HostPID = False, sp_HostNetwork = False, sp_Tolerations = [], sp_ImagePullSecrets = [],
        sp_TerminationGracePeriodSeconds = None, sp_ActiveDeadlineSeconds = None\<rparr>
       \<lparr>pod_Phase := ''Running'', pod_Controller := Some ''ReplicaSet''\<rparr>"

definition busy :: "int \<Rightarrow> drain_env" where
  "busy now =
     \<lparr>dr_pods = (\<lambda>_. Some [workload ''web'' ''default'', workload ''dns'' ''kube-system'']), dr_labelled = (\<lambda>_. Some []),
      dr_evict_ok = (\<lambda>_. True), dr_delete_ok = (\<lambda>_. True), dr_zone = 120, dr_now = now, dr_namespace = ''nodewright''\<rparr>"

definition quiet :: drain_env where
  "quiet = (busy 0)\<lparr>dr_pods := \<lambda>_. Some [workload ''dns'' ''kube-system'']\<rparr>"

definition cordoned_node :: skyhookNode where
  "cordoned_node = fst (Cordon sample_skyhookNode)"

definition limited :: Skyhook where
  "limited = sample_skyhook\<lparr>sk_NodeWright := (sk_NodeWright sample_skyhook)\<lparr>nw_Spec := (sk_Spec sample_skyhook)
     \<lparr>spec_DrainConfig := Some \<lparr>DisableEviction = None, DeleteEmptyDirData = None, Force = None, IgnoreDaemonSets = None,
        dc_Timeout = Some (60 * 1000000000), dc_GracePeriod = None\<rparr>\<rparr>\<rparr>\<rparr>"

theorem drain_safe_witness:
  "evicted (fst (snd (EnsureNodeIsReadyForInterrupt (busy 5) (cordoned_node, sample_skyhook)))) = [''web''] \<and>
   Unschedulable (sn_Node cordoned_node)"
proof -
  let ?r = "EnsureNodeIsReadyForInterrupt (busy 5) (cordoned_node, sample_skyhook)"
  have ev: "evicted (fst (snd ?r)) = [''web'']"
  proof -
    have "HasNonInterruptWork (busy 5) sample_skyhook = Inr False" "IsDrained (busy 5) sample_skyhook = Inr False"
      "Cordon cordoned_node = (cordoned_node, False)" "DrainStartedAt cordoned_node = Some None"
      "spec_DrainConfig (sk_Spec sample_skyhook) = None"
      "disrupt_all (drain_options (busy 5) sample_skyhook) [workload ''web'' ''default'', workload ''dns'' ''kube-system''] =
         \<lparr>evicted = [''web''], deleted = []\<rparr>"
      by code_simp+
    then show ?thesis
      by (simp add: EnsureNodeIsReadyForInterrupt_def DrainNode_def Let_def split: prod.splits) (simp add: busy_def)
  qed
  have "?r = (fst ?r, fst (snd ?r), snd (snd ?r))" by simp
  moreover have "fst (snd ?r) \<noteq> no_disruption" using ev by (metis disruptions.select_convs(1) list.distinct(1) no_disruption_def)
  ultimately have "Unschedulable (sn_Node cordoned_node)" by (rule conjunct1 [OF drain_safe])
  with ev show ?thesis by simp
qed

theorem ready_means_drained_witness:
  "\<exists>i pods. dr_pods quiet i = Some pods \<and> (\<forall>p \<in> set pods. exempt (drain_options quiet sample_skyhook) p)"
proof -
  let ?r = "EnsureNodeIsReadyForInterrupt quiet (cordoned_node, sample_skyhook)"
  have "snd (snd ?r) = Inr True" by code_simp
  then have "?r = ((fst (fst ?r), snd (fst ?r)), fst (snd ?r), Inr True)" by (metis prod.collapse)
  from ready_means_drained[OF this] show ?thesis by blast
qed

theorem own_pods_survive_witness:
  "\<not> BlocksDrain (DecidePod ((workload ''tuning'' ''nodewright'')
       \<lparr>pod_Labels := tp_Labels (js_Template (job_Spec (createJobFromPackage sample_options sample_package sample_skyhook ''node-1'' StageApply)))\<rparr>)
     (drain_options (busy 5) sample_skyhook))"
  by (rule own_pods_survive[where opts = sample_options and p = sample_package and sk' = sample_skyhook and node = "''node-1''"
        and stage = StageApply and job = "createJobFromPackage sample_options sample_package sample_skyhook ''node-1'' StageApply"])
    (simp_all add: workload_def new_pod_def sample_options_def busy_def)

theorem drain_timer_witness:
  "Node_Status (fst (fst (DrainNode (busy 5) (cordoned_node, limited)))) = StatusInProgress \<and>
   Node_Status (fst (fst (DrainNode (busy (10 ^ 12)) (fst (fst (DrainNode (busy 5) (cordoned_node, limited))), limited)))) = StatusErroring"
proof -
  obtain node1 sk1 ds1 r1 where 1: "DrainNode (busy 5) (cordoned_node, limited) = ((node1, sk1), ds1, r1)" by (metis surj_pair)
  obtain node2 sk2 ds2 r2 where 2: "DrainNode (busy (10 ^ 12)) (node1, limited) = ((node2, sk2), ds2, r2)" by (metis surj_pair)
  have unmarked: "annotation cordoned_node (drainStartAnnotationKey cordoned_node) = None" by code_simp
  have drained: "IsDrained (busy now) limited = Inr False" for now
  proof -
    have "IsDrained (busy 0) limited = Inr False" by code_simp
    then show ?thesis by (simp add: IsDrained_def busy_def drain_options_def)
  qed
  show ?thesis
    using drain_timer[OF unmarked _ _ _ drained 1 _ _ _ drained _ 2, where limit = "60 * 1000000000"] 1 2
    by (simp add: limited_def busy_def)
qed

end
