(* ===== verification/Execution.thy ===== *)
theory Execution
  imports Jobs Drain
begin

text \<open>
  Starting, keeping and clearing the Jobs of package stages and interrupts on a node:
  \<open>ApplyPackage\<close>, \<open>Interrupt\<close>, \<open>ProcessInterrupt\<close>, \<open>handleExistingJob\<close>, \<open>ValidateRunningPackages\<close> and what they call in
  \<open>operator/internal/controller/skyhook_controller.go\<close>, and the node metadata of \<open>skyhook_metadata.go\<close>.

  The Jobs of the operator's namespace are the state of the API server.  What a listing shows of them is a parameter,
  because the operator lists from a cache; so is whether a request goes through.  A deleted Job stays, marked with the time
  of the deletion, until its pods are gone, since deletions propagate in the foreground.  Events are left out.
\<close>

section \<open>Arguments of an interrupt\<close>

definition agent_type_string :: "InterruptType \<Rightarrow> string" where
  "agent_type_string t =
     (case t of
        REBOOT \<Rightarrow> ''node_restart''
      | SERVICE \<Rightarrow> ''service_restart''
      | NOOP \<Rightarrow> ''no_op''
      | RESTART_ALL_SERVICES \<Rightarrow> ''restart_all_services''
      | InterruptTypeOther s \<Rightarrow> s)"

definition encode_interrupt :: "string \<Rightarrow> string list \<Rightarrow> json" where
  "encode_interrupt type services =
     JObj ((''type'', JStr type) # (if services = [] then [] else [(''services'', JArr (map JStr services))]))"

definition base64_digit :: "nat \<Rightarrow> char" where
  "base64_digit n =
     (if n < 26 then char_of (65 + n) else if n < 52 then char_of (71 + n) else if n < 62 then char_of (n - 4)
      else if n = 62 then CHR ''+'' else CHR ''/'')"

text \<open>\<open>base64.StdEncoding.EncodeToString\<close>, three bytes at a time.\<close>

fun base64 :: "nat list \<Rightarrow> string" where
  "base64 (a # b # c # rest) =
     [base64_digit (a div 4), base64_digit (a mod 4 * 16 + b div 16), base64_digit (b mod 16 * 4 + c div 64), base64_digit (c mod 64)]
     @ base64 rest"
| "base64 [a, b] = [base64_digit (a div 4), base64_digit (a mod 4 * 16 + b div 16), base64_digit (b mod 16 * 4), CHR ''='']"
| "base64 [a] = [base64_digit (a div 4), base64_digit (a mod 4 * 16), CHR ''='', CHR ''='']"
| "base64 [] = []"

definition ToArgs :: "Interrupt \<Rightarrow> string" where
  "ToArgs i = base64 (map of_char (print (encode_interrupt (agent_type_string (int_Type i)) (int_Services i))))"

section \<open>Node metadata\<close>

definition encode_strings :: "(string, string) gomap \<Rightarrow> json" where
  "encode_strings m = JObj (map (\<lambda>(k, v). (k, JStr v)) (sort_key fst m))"

definition encode_spec_interrupt :: "Interrupt \<Rightarrow> json" where
  "encode_spec_interrupt i = encode_interrupt (interrupt_type_string (int_Type i)) (int_Services i)"

definition encode_package_metadata :: "Package \<Rightarrow> json" where
  "encode_package_metadata p =
     JObj ([(''name'', JStr (p_Name p)), (''version'', JStr (p_Version p)), (''image'', JStr (p_Image p))] @
       (if p_AgentImageOverride p = [] then [] else [(''agentImageOverride'', JStr (p_AgentImageOverride p))]) @
       (case p_Interrupt p of None \<Rightarrow> [] | Some i \<Rightarrow> [(''interrupt'', encode_spec_interrupt i)]) @
       (if p_ConfigInterrupts p = [] then []
        else [(''configInterrupts'', JObj (map (\<lambda>(k, i). (k, encode_spec_interrupt i)) (sort_key fst (p_ConfigInterrupts p))))]))"

definition SkyhookMetadata_Marshal :: "SkyhookOperatorOptions \<Rightarrow> Skyhook \<Rightarrow> string" where
  "SkyhookMetadata_Marshal opts s =
     print (JObj [(''agentVersion'', JStr (AgentVersion opts)),
       (''packages'', JObj (map (\<lambda>(k, p). (k, encode_package_metadata p)) (sort_key fst (spec_Packages (sk_Spec s)))))])"

section \<open>State and environment\<close>

text \<open>\<open>ex_meta\<close> are the config maps with the metadata of nodes, by name.\<close>

record exec_state =
  ex_jobs :: "Job list"
  ex_meta :: "(string, (string, string) gomap) gomap"

record exec_env =
  xe_opts :: SkyhookOperatorOptions
  xe_view :: "Job list \<Rightarrow> Job list option"
  xe_create_ok :: "string \<Rightarrow> bool"
  xe_delete_ok :: "string \<Rightarrow> bool"
  xe_patch_ok :: "string \<Rightarrow> bool"
  xe_meta_ok :: "string \<Rightarrow> bool"
  xe_drain :: drain_env
  xe_now :: int

datatype exec_error =
    JobsUnlisted
  | CreateRefused
  | DeleteRefused
  | PatchRefused
  | MetadataRefused
  | DrainError drain_error
  | NilInterrupt
  | BadAnnotation string
  | StateUnread node_error

text \<open>What a pass works on: the wrapper of a node, its resource, and the cluster.\<close>

type_synonym work = "(skyhookNode \<times> Skyhook) \<times> exec_state"

definition UpsertNodeLabelsAnnotationsPackages :: "exec_env \<Rightarrow> Skyhook \<Rightarrow> Node \<Rightarrow> exec_state \<Rightarrow> exec_state \<times> (exec_error + unit)" where
  "UpsertNodeLabelsAnnotationsPackages env sk node st =
     (if n_Labels node = [] \<and> n_Annotations node = [] then (st, Inr ())
      else
        (let name = generateSafeName 253 [sk_Name sk, n_Name node, ''metadata''];
             data = [(''annotations.json'', print (encode_strings (n_Annotations node))),
                     (''labels.json'', print (encode_strings (n_Labels node))),
                     (''packages.json'', SkyhookMetadata_Marshal (xe_opts env) sk)]
         in if \<not> xe_meta_ok env name then (st, Inl MetadataRefused)
            else
              (case map_of (ex_meta st) name of
                 None \<Rightarrow> (st\<lparr>ex_meta := gput name data (ex_meta st)\<rparr>, Inr ())
               | Some old \<Rightarrow> (if same_gomap old data then st else st\<lparr>ex_meta := gput name data (ex_meta st)\<rparr>, Inr ()))))"

section \<open>Looking for Jobs\<close>

definition has_labels :: "(string, string) gomap \<Rightarrow> Job \<Rightarrow> bool" where
  "has_labels ls job = list_all (\<lambda>(k, v). map_of (job_Labels job) k = Some v) ls"

definition GetJobs :: "exec_env \<Rightarrow> (Job \<Rightarrow> bool) \<Rightarrow> exec_state \<Rightarrow> exec_error + Job list" where
  "GetJobs env want st =
     (case xe_view env (ex_jobs st) of
        None \<Rightarrow> Inl JobsUnlisted
      | Some jobs \<Rightarrow> Inr (filter (\<lambda>j. job_Namespace j = opt_Namespace (xe_opts env) \<and> want j) jobs))"

definition package_jobs :: "string \<Rightarrow> string \<Rightarrow> Package \<Rightarrow> Job \<Rightarrow> bool" where
  "package_jobs nodeName skyhookName' p =
     has_labels [(name_label, skyhookName'), (package_label, package_label_value p), (node_label, nodeLabelValue nodeName)]"

definition JobExists :: "exec_env \<Rightarrow> string \<Rightarrow> string \<Rightarrow> Package \<Rightarrow> exec_state \<Rightarrow> exec_error + bool" where
  "JobExists env nodeName skyhookName' p st =
     (case GetJobs env (package_jobs nodeName skyhookName' p) st of
        Inl e \<Rightarrow> Inl e
      | Inr jobs \<Rightarrow> Inr (list_ex (\<lambda>j. \<not> jobFinished j) jobs))"

definition HasRunningPackages :: "exec_env \<Rightarrow> string \<Rightarrow> exec_state \<Rightarrow> exec_error + bool" where
  "HasRunningPackages env nodeName st =
     (case GetJobs env (\<lambda>j. map_of (job_Labels j) name_label \<noteq> None \<and> has_labels [(node_label, nodeLabelValue nodeName)] j) st of
        Inl e \<Rightarrow> Inl e
      | Inr jobs \<Rightarrow> Inr (list_ex (\<lambda>j. \<not> jobFinished j) jobs))"

section \<open>Requests\<close>

datatype create_result = Created | AlreadyExists | CreateFailed

definition create_job :: "exec_env \<Rightarrow> Job \<Rightarrow> exec_state \<Rightarrow> exec_state \<times> create_result" where
  "create_job env job st =
     (if \<not> xe_create_ok env (job_Name job) then (st, CreateFailed)
      else if list_ex (\<lambda>j. job_Name j = job_Name job) (ex_jobs st) then (st, AlreadyExists)
      else (st\<lparr>ex_jobs := ex_jobs st @ [job]\<rparr>, Created))"

definition on_job :: "string \<Rightarrow> (Job \<Rightarrow> Job) \<Rightarrow> exec_state \<Rightarrow> exec_state" where
  "on_job name f st = st\<lparr>ex_jobs := map (\<lambda>j. if job_Name j = name then f j else j) (ex_jobs st)\<rparr>"

definition delete_job :: "exec_env \<Rightarrow> string \<Rightarrow> exec_state \<Rightarrow> exec_state \<times> (exec_error + unit)" where
  "delete_job env name st =
     (if xe_delete_ok env name
      then (on_job name (\<lambda>j. if job_DeletionTimestamp j = None then j\<lparr>job_DeletionTimestamp := Some (xe_now env)\<rparr> else j) st, Inr ())
      else (st, Inl DeleteRefused))"

text \<open>Deletions in turn; the first refusal ends them.\<close>

fun delete_jobs :: "exec_env \<Rightarrow> Job list \<Rightarrow> exec_state \<Rightarrow> exec_state \<times> (exec_error + unit)" where
  "delete_jobs env [] st = (st, Inr ())"
| "delete_jobs env (j # js) st =
     (case delete_job env (job_Name j) st of
        (st1, Inl e) \<Rightarrow> (st1, Inl e)
      | (st1, Inr _) \<Rightarrow> delete_jobs env js st1)"

definition deleteConfigUpdateExecutors :: "exec_env \<Rightarrow> string \<Rightarrow> string \<Rightarrow> Package \<Rightarrow> exec_state \<Rightarrow> exec_state \<times> (exec_error + unit)" where
  "deleteConfigUpdateExecutors env nodeName skyhookName' p st =
     (case GetJobs env (package_jobs nodeName skyhookName' p) st of
        Inl e \<Rightarrow> (st, Inl e)
      | Inr jobs \<Rightarrow> delete_jobs env (filter (\<lambda>j. \<not> jobFinished j \<or> jobFailedTerminally j) jobs) st)"

definition deleteNodeJobs :: "exec_env \<Rightarrow> string \<Rightarrow> string \<Rightarrow> exec_state \<Rightarrow> exec_state \<times> (exec_error + unit)" where
  "deleteNodeJobs env skyhookName' nodeName st =
     (case GetJobs env (has_labels [(name_label, skyhookName'), (node_label, nodeLabelValue nodeName)]) st of
        Inl e \<Rightarrow> (st, Inl e)
      | Inr jobs \<Rightarrow> delete_jobs env jobs st)"

section \<open>A Job that is there already\<close>

definition entryErroringAtStage :: "skyhookNode \<Rightarrow> Package \<Rightarrow> Stage \<Rightarrow> bool" where
  "entryErroringAtStage node p stage =
     (case PackageStatusOf node (GetUniqueName p) of
        None \<Rightarrow> False
      | Some status \<Rightarrow> ps_Stage status = stage \<and> ps_State status = StateErroring)"

text \<open>What is decided about an existing Job: whether it is deleted.\<close>

definition replace_existing :: "SkyhookOperatorOptions \<Rightarrow> Package \<Rightarrow> skyhookNode \<Rightarrow> Skyhook \<Rightarrow> Stage \<Rightarrow> Job \<Rightarrow> bool" where
  "replace_existing opts p node sk stage existing =
     (if \<not> jobFinished existing then \<not> jobMatchesPackage opts p existing sk stage
      else if \<not> jobProcessed existing then False
      else \<not> (jobFailedTerminally existing \<and> entryErroringAtStage node p stage \<and> jobMatchesPackage opts p existing sk stage))"

definition handleExistingJob ::
  "exec_env \<Rightarrow> Job \<Rightarrow> Package \<Rightarrow> skyhookNode \<Rightarrow> Skyhook \<Rightarrow> Stage \<Rightarrow> exec_state \<Rightarrow> exec_state \<times> (exec_error + unit)" where
  "handleExistingJob env want p node sk stage st =
     (case xe_view env (ex_jobs st) of
        None \<Rightarrow> (st, Inl JobsUnlisted)
      | Some jobs \<Rightarrow>
          (case List.find (\<lambda>j. job_Namespace j = job_Namespace want \<and> job_Name j = job_Name want) jobs of
             None \<Rightarrow> (st, Inr ())
           | Some existing \<Rightarrow>
               if replace_existing (xe_opts env) p node sk stage existing then delete_job env (job_Name existing) st
               else (st, Inr ())))"
section \<open>Starting a Job\<close>

text \<open>
  The common end of \<open>ApplyPackage\<close> and \<open>Interrupt\<close>: create the Job and settle a name that is taken.  The result says
  whether the Job was created.
\<close>

definition start_job ::
  "exec_env \<Rightarrow> Job \<Rightarrow> Package \<Rightarrow> skyhookNode \<Rightarrow> Skyhook \<Rightarrow> Stage \<Rightarrow> exec_state \<Rightarrow> exec_state \<times> (exec_error + bool)" where
  "start_job env job p node sk stage st =
     (let want = setJobPackage (sk_NodeWright sk) (p_Image p) stage p job
      in case create_job env want st of
           (st1, Created) \<Rightarrow> (st1, Inr True)
         | (st1, CreateFailed) \<Rightarrow> (st1, Inl CreateRefused)
         | (st1, AlreadyExists) \<Rightarrow>
             (case handleExistingJob env want p node sk stage st1 of
                (st2, Inl e) \<Rightarrow> (st2, Inl e)
              | (st2, Inr _) \<Rightarrow> (st2, Inr False)))"

text \<open>An entry of the package's state on the node, written by the pass.\<close>

definition upsert :: "Package \<Rightarrow> State \<Rightarrow> Stage \<Rightarrow> skyhookNode \<times> Skyhook \<Rightarrow> skyhookNode \<times> Skyhook" where
  "upsert p state stage x =
     (let (node, sk) = Node_Upsert (package_ref p) (p_Image p) state stage 0 (p_ContainerSHA p) (fst x, Some (snd x)) in (node, the sk))"

definition Interrupt_run :: "exec_env \<Rightarrow> Package \<Rightarrow> Interrupt option \<Rightarrow> Stage \<Rightarrow> work \<Rightarrow> work \<times> (exec_error + unit)" where
  "Interrupt_run env p interrupt stage w =
     (let ((node, sk), st) = w; name = n_Name (sn_Node node)
      in case HasRunningPackages env name st of
           Inl e \<Rightarrow> (w, Inl e)
         | Inr True \<Rightarrow> (w, Inr ())
         | Inr False \<Rightarrow>
             (case JobExists env name (sk_Name sk) p st of
                Inl e \<Rightarrow> (w, Inl e)
              | Inr True \<Rightarrow> (w, Inr ())
              | Inr False \<Rightarrow>
                  (case UpsertNodeLabelsAnnotationsPackages env sk (sn_Node node) st of
                     (st1, Inl e) \<Rightarrow> (((node, sk), st1), Inl e)
                   | (st1, Inr _) \<Rightarrow>
                       (case interrupt of
                          None \<Rightarrow> (((node, sk), st1), Inl NilInterrupt)
                        | Some i \<Rightarrow>
                            (case start_job env (createInterruptJobFromPackage (xe_opts env) i (ToArgs i) p sk name stage) p node sk stage st1 of
                               (st2, Inl e) \<Rightarrow> (((node, sk), st2), Inl e)
                             | (st2, Inr False) \<Rightarrow> (((node, sk), st2), Inr ())
                             | (st2, Inr True) \<Rightarrow> ((upsert p StateInProgress stage (node, sk), st2), Inr ()))))))"

definition ensure_ready :: "exec_env \<Rightarrow> work \<Rightarrow> work \<times> (exec_error + bool)" where
  "ensure_ready env w =
     (case EnsureNodeIsReadyForInterrupt (xe_drain env) (fst w) of
        (x, _, Inl e) \<Rightarrow> ((x, snd w), Inl (DrainError e))
      | (x, _, Inr b) \<Rightarrow> ((x, snd w), Inr b))"

definition start_stage :: "Skyhook \<Rightarrow> skyhookNode \<Rightarrow> Package \<Rightarrow> Stage \<Rightarrow> Stage" where
  "start_stage sk node p stage = (case Node_NextStage sk node p of Some s \<Rightarrow> s | None \<Rightarrow> stage)"

text \<open>The end of \<open>ProcessInterrupt\<close>, on a node that is ready: run the interrupt, skip it, wait for it, or go on.\<close>

definition run_interrupt ::
  "exec_env \<Rightarrow> Package \<Rightarrow> Interrupt option \<Rightarrow> bool \<Rightarrow> Stage \<Rightarrow> PackageStatus option \<Rightarrow> work \<Rightarrow> work \<times> (exec_error + bool)" where
  "run_interrupt env p interrupt runInterrupt stage status w =
     (if stage = StageInterrupt \<and> runInterrupt then
        (case Interrupt_run env p interrupt StageInterrupt w of
           (w1, Inl e) \<Rightarrow> (w1, Inl e)
         | (w1, Inr _) \<Rightarrow> (w1, Inr False))
      else if stage = StageInterrupt then ((upsert p StateSkipped stage (fst w), snd w), Inr False)
      else
        (case status of
           None \<Rightarrow> (w, Inr True)
         | Some s \<Rightarrow>
             if ps_Stage s = StageUninstallInterrupt \<and> ps_State s \<noteq> StateComplete then
               (case Interrupt_run env p interrupt StageUninstallInterrupt w of
                  (w1, Inl e) \<Rightarrow> (w1, Inl e)
                | (w1, Inr _) \<Rightarrow> (w1, Inr False))
             else if IsInterruptStage status \<and> ps_State s \<noteq> StateComplete then (w, Inr False)
             else (w, Inr True)))"

text \<open>
  The result is whether the package may go on.  \<open>status\<close> points into the map of states and \<open>PackageStatus\<close> gives
  a pointer to a copy, so it keeps the value it had at the start.
\<close>

definition ProcessInterrupt ::
  "exec_env \<Rightarrow> Package \<Rightarrow> Interrupt option \<Rightarrow> bool \<Rightarrow> work \<Rightarrow> work \<times> (exec_error + bool)" where
  "ProcessInterrupt env p interrupt runInterrupt w =
     (let ((node, sk), st) = w
      in if \<not> Node_HasInterrupt sk p then (w, Inr True)
         else
           (let stage = start_stage sk node p StageApply;
                status = PackageStatusOf node (GetUniqueName p)
            in if IsSkipped status
               then ((if runInterrupt then (Node_ProgressSkipped sk node, st) else w), Inr False)
               else
                 (case (if IsActive status \<and> IsInterruptStage status
                        then Interrupt_run env p interrupt (ps_Stage (the status)) w else (w, Inr ())) of
                    (w1, Inl e) \<Rightarrow> (w1, Inl e)
                  | (w1, Inr _) \<Rightarrow>
                      (case (if stage = StageApply \<or> stage = StageUninstall then ensure_ready env w1 else (w1, Inr True)) of
                         (w2, Inl e) \<Rightarrow> (w2, Inl e)
                       | (w2, Inr False) \<Rightarrow> (w2, Inr False)
                       | (w2, Inr True) \<Rightarrow> run_interrupt env p interrupt runInterrupt stage status w2))))"

definition apply_condition :: "exec_env \<Rightarrow> Package \<Rightarrow> skyhookNode \<Rightarrow> Skyhook \<Rightarrow> Skyhook" where
  "apply_condition env p node sk =
     touch (fst (AddSkyhookConditionWithLegacy (xe_now env)
       \<lparr>c_Type = ''ApplyPackage'', c_Status = ''True'', c_ObservedGeneration = Generation (sk_NodeWright sk),
        c_LastTransitionTime = xe_now env, c_Reason = ''ApplyPackage'',
        c_Message = ''Applying package ['' @ p_Name p @ '':'' @ p_Version p @ ''] to node ['' @ n_Name (sn_Node node) @ '']''\<rparr> sk))"

definition apply_stage :: "Skyhook \<Rightarrow> skyhookNode \<Rightarrow> Package \<Rightarrow> Stage" where
  "apply_stage sk node p =
     start_stage sk node p
       (case PackageStatusOf node (GetUniqueName p) of
          None \<Rightarrow> StageApply
        | Some s \<Rightarrow>
            if ps_Stage s \<in> {StageConfig, StageUpgrade, StageUninstall, StageUninstallInterrupt} then ps_Stage s else StageApply)"

definition ApplyPackage :: "exec_env \<Rightarrow> Package \<Rightarrow> work \<Rightarrow> work \<times> (exec_error + unit)" where
  "ApplyPackage env p w =
     (let ((node, sk), st) = w; stage = apply_stage sk node p; name = n_Name (sn_Node node)
      in if stage = StageUninstallInterrupt then (w, Inr ())
         else
           (case JobExists env name (sk_Name sk) p st of
              Inl e \<Rightarrow> (w, Inl e)
            | Inr running \<Rightarrow>
                if IsSkipped (PackageStatusOf node (GetUniqueName p)) \<or> running then (w, Inr ())
                else
                  (case UpsertNodeLabelsAnnotationsPackages env sk (sn_Node node) st of
                     (st1, Inl e) \<Rightarrow> (((node, sk), st1), Inl e)
                   | (st1, Inr _) \<Rightarrow>
                       (case start_job env (createJobFromPackage (xe_opts env) p sk name stage) p node sk stage st1 of
                          (st2, Inl e) \<Rightarrow> (((node, sk), st2), Inl e)
                        | (st2, Inr False) \<Rightarrow> (((node, sk), st2), Inr ())
                        | (st2, Inr True) \<Rightarrow>
                            (let (node1, sk1) = upsert p StateInProgress stage (node, sk);
                                 (node2, sk2) = Node_SetStatus StatusInProgress (node1, Some sk1)
                             in (((node2, apply_condition env p node2 (the sk2)), st2), Inr ()))))))"

section \<open>Keeping the Jobs in line with the spec\<close>

definition jobSpecMatchesPackage :: "exec_env \<Rightarrow> Job \<Rightarrow> PackageSkyhook \<Rightarrow> Skyhook \<Rightarrow> bool" where
  "jobSpecMatchesPackage env job pkg sk =
     (list_ex (\<lambda>(_, v). jobMatchesPackage (xe_opts env) v job sk (pks_Stage pkg)) (spec_Packages (sk_Spec sk)) \<or>
      pks_Stage pkg = StageUninstall \<and>
      (case map_of (spec_Packages (sk_Spec sk)) (ref_Name (pks_Ref pkg)) of
         None \<Rightarrow> True
       | Some v \<Rightarrow> p_Version v \<noteq> ref_Version (pks_Ref pkg)))"

definition shouldDeleteFinishedJob :: "exec_env \<Rightarrow> Job \<Rightarrow> PackageSkyhook \<Rightarrow> NodeState \<Rightarrow> Skyhook \<Rightarrow> bool" where
  "shouldDeleteFinishedJob env job pkg state sk =
     (if \<not> jobProcessed job then False
      else
        (case ns_get state (unique_ref pkg) of
           None \<Rightarrow> True
         | Some status \<Rightarrow>
             if jobFailedTerminally job \<and> ps_Stage status = pks_Stage pkg \<and> ps_State status = StateErroring \<and>
                jobSpecMatchesPackage env job pkg sk
             then False
             else \<not> (ps_Stage status \<noteq> pks_Stage pkg \<or> ps_State status = StateComplete)))"

definition jobIsStale :: "exec_env \<Rightarrow> Job \<Rightarrow> PackageSkyhook \<Rightarrow> NodeState \<Rightarrow> Skyhook \<Rightarrow> bool" where
  "jobIsStale env job pkg state sk =
     (if \<not> jobSpecMatchesPackage env job pkg sk then True
      else (case ns_get state (unique_ref pkg) of None \<Rightarrow> True | Some status \<Rightarrow> ps_Stage status \<noteq> pks_Stage pkg))"

text \<open>The patch of the annotation alone; it is refused when the Job is gone.\<close>

definition patch_job :: "exec_env \<Rightarrow> string \<Rightarrow> (Job \<Rightarrow> Job) \<Rightarrow> exec_state \<Rightarrow> exec_state \<times> (exec_error + unit)" where
  "patch_job env name f st =
     (if xe_patch_ok env name \<and> list_ex (\<lambda>j. job_Name j = name) (ex_jobs st) then (on_job name f st, Inr ())
      else (st, Inl PatchRefused))"

definition InvalidPackage :: "exec_env \<Rightarrow> Job \<Rightarrow> exec_state \<Rightarrow> exec_state \<times> (exec_error + unit)" where
  "InvalidPackage env job st =
     (case InvalidatePackage (job_Annotations job) of
        Inl _ \<Rightarrow> (st, Inl (BadAnnotation (job_Name job)))
      | Inr anns \<Rightarrow>
          patch_job env (job_Name job)
            (\<lambda>j. case map_of anns packageAnnotationKey of
                   None \<Rightarrow> j
                 | Some v \<Rightarrow> j\<lparr>job_Annotations := gput packageAnnotationKey v (job_Annotations j)\<rparr>) st)"

text \<open>\<open>nodesByName\<close>, built in the order of the nodes.\<close>

definition nodesByName :: "skyhookNodes \<Rightarrow> (string, cnode) gomap" where
  "nodesByName s = fold (\<lambda>c. gput (cn_Name c) c) (sh_nodes s) []"

text \<open>One Job of the listing: the state, whether something was done, and the errors so far.\<close>

type_synonym validation = "exec_state \<times> bool \<times> exec_error list"

definition delete_and_note :: "exec_env \<Rightarrow> Job \<Rightarrow> validation \<Rightarrow> validation" where
  "delete_and_note env job acc =
     (case acc of (st, update, errs) \<Rightarrow>
        (case delete_job env (job_Name job) st of
           (st1, Inl e) \<Rightarrow> (st1, update, errs @ [e])
         | (st1, Inr _) \<Rightarrow> (st1, True, errs)))"

definition validate_job :: "exec_env \<Rightarrow> skyhookNodes \<Rightarrow> Job \<Rightarrow> validation \<Rightarrow> validation" where
  "validate_job env s job acc =
     (case acc of (st, update, errs) \<Rightarrow>
        (case GetPackage (job_Annotations job) of
           Inl _ \<Rightarrow> (st, update, errs @ [BadAnnotation (job_Name job)])
         | Inr None \<Rightarrow> acc
         | Inr (Some pkg) \<Rightarrow>
             (case map_of (nodesByName s) (jobNodeName job) of
                None \<Rightarrow> delete_and_note env job acc
              | Some c \<Rightarrow>
                  (case Node_State (cn_node c) of
                     Inl e \<Rightarrow> (st, update, errs @ [StateUnread e])
                   | Inr state \<Rightarrow>
                       if jobFinished job
                       then if shouldDeleteFinishedJob env job pkg state (sh_skyhook s) then delete_and_note env job acc else acc
                       else if jobIsStale env job pkg state (sh_skyhook s)
                       then (case InvalidPackage env job st of
                               (st1, Inl e) \<Rightarrow> (st1, True, errs @ [e])
                             | (st1, Inr _) \<Rightarrow> (st1, True, errs))
                       else acc))))"

definition ValidateRunningPackages :: "exec_env \<Rightarrow> skyhookNodes \<Rightarrow> exec_state \<Rightarrow> validation" where
  "ValidateRunningPackages env s st =
     (case GetJobs env (has_labels [(name_label, sh_Name s)]) st of
        Inl e \<Rightarrow> (st, False, [e])
      | Inr jobs \<Rightarrow> fold (validate_job env s) jobs (st, False, []))"

section \<open>Pausing and resuming\<close>

fun set_suspend :: "exec_env \<Rightarrow> bool \<Rightarrow> Job list \<Rightarrow> exec_state \<Rightarrow> exec_state \<times> (exec_error + unit)" where
  "set_suspend env suspend [] st = (st, Inr ())"
| "set_suspend env suspend (job # jobs) st =
     (if jobFinished job then set_suspend env suspend jobs st
      else
        (case IsInvalidPackage (job_Annotations job) of
           Inl _ \<Rightarrow> (st, Inl (BadAnnotation (job_Name job)))
         | Inr invalid \<Rightarrow>
             if invalid \<or> js_Suspend (job_Spec job) = suspend then set_suspend env suspend jobs st
             else
               (case patch_job env (job_Name job) (\<lambda>j. j\<lparr>job_Spec := (job_Spec j)\<lparr>js_Suspend := suspend\<rparr>\<rparr>) st of
                  (st1, Inl e) \<Rightarrow> (st1, Inl e)
                | (st1, Inr _) \<Rightarrow> set_suspend env suspend jobs st1)))"

definition setSuspendOnUnfinishedJobs :: "exec_env \<Rightarrow> skyhookNodes \<Rightarrow> bool \<Rightarrow> exec_state \<Rightarrow> exec_state \<times> (exec_error + unit)" where
  "setSuspendOnUnfinishedJobs env s suspend st =
     (case GetJobs env (has_labels [(name_label, sh_Name s)]) st of
        Inl e \<Rightarrow> (st, Inl e)
      | Inr jobs \<Rightarrow> set_suspend env suspend jobs st)"

definition suspendUnfinishedJobs :: "exec_env \<Rightarrow> skyhookNodes \<Rightarrow> exec_state \<Rightarrow> exec_state \<times> (exec_error + unit)" where
  "suspendUnfinishedJobs env s st = setSuspendOnUnfinishedJobs env s True st"

definition resumeSuspendedJobs :: "exec_env \<Rightarrow> skyhookNodes \<Rightarrow> exec_state \<Rightarrow> exec_state \<times> (exec_error + unit)" where
  "resumeSuspendedJobs env s st = (if sh_IsDisabled s then (st, Inr ()) else setSuspendOnUnfinishedJobs env s False st)"

section \<open>One Job per package and node\<close>

text \<open>A listing that shows the Jobs as they are.\<close>

definition fresh_view :: "exec_env \<Rightarrow> bool" where
  "fresh_view env \<longleftrightarrow> (\<forall>js. xe_view env js = Some js)"

definition runner_key :: "Job \<Rightarrow> string option \<times> string option \<times> string option" where
  "runner_key j = (map_of (job_Labels j) name_label, map_of (job_Labels j) package_label, map_of (job_Labels j) node_label)"

definition running :: "Job list \<Rightarrow> Job list" where
  "running js = filter (\<lambda>j. \<not> jobFinished j) js"

definition one_runner :: "string \<Rightarrow> Job list \<Rightarrow> bool" where
  "one_runner ns js \<longleftrightarrow>
     list_all (\<lambda>j. job_Namespace j = ns) js \<and> distinct (map job_Name js) \<and> distinct (map runner_key (running js))"

text \<open>
  The listing has caught up with the Jobs that are unfinished; it may still show Jobs that are gone, and finished Jobs as they were.
\<close>

definition caught_up :: "exec_env \<Rightarrow> exec_state \<Rightarrow> bool" where
  "caught_up env st \<longleftrightarrow> (\<exists>js. xe_view env (ex_jobs st) = Some js \<and> set (running (ex_jobs st)) \<subseteq> set js)"

text \<open>A change that starts nothing: identity, labels and node stay, and what is finished stays finished.\<close>

definition calm :: "(Job \<Rightarrow> Job) \<Rightarrow> bool" where
  "calm f \<longleftrightarrow> (\<forall>j. job_Name (f j) = job_Name j \<and> job_Namespace (f j) = job_Namespace j \<and> job_Labels (f j) = job_Labels j \<and>
     jobNodeName (f j) = jobNodeName j \<and> (jobFinished j \<longrightarrow> jobFinished (f j)))"

inductive evolves :: "Job list \<Rightarrow> Job list \<Rightarrow> bool" where
  evolves_refl [intro!, simp]: "evolves js js"
| evolves_change: "calm f \<Longrightarrow> evolves (map f js) ks \<Longrightarrow> evolves js ks"
| evolves_gone: "evolves (filter P js) ks \<Longrightarrow> evolves js ks"

lemma evolves_trans [trans]: "evolves a b \<Longrightarrow> evolves b c \<Longrightarrow> evolves a c"
  by (induction rule: evolves.induct) (auto intro: evolves.intros)

lemma running_change:
  assumes "calm f" shows "distinct (map runner_key (running js)) \<Longrightarrow> distinct (map runner_key (running (map f js)))"
proof (induction js)
  case (Cons j js)
  have key: "runner_key (f k) = runner_key k" for k using assms by (simp add: calm_def runner_key_def)
  have sub: "set (map runner_key (running (map f js))) \<subseteq> set (map runner_key (running js))"
    using assms key by (auto simp: running_def calm_def)
  show ?case
  proof (cases "jobFinished j")
    case True
    with assms have "jobFinished (f j)" by (simp add: calm_def)
    with True Cons show ?thesis by (simp add: running_def)
  next
    case False
    with Cons.prems have "runner_key j \<notin> set (map runner_key (running js))" "distinct (map runner_key (running js))"
      by (simp_all add: running_def)
    with Cons.IH sub key show ?thesis by (auto simp: running_def)
  qed
qed (simp add: running_def)

lemma evolves_one_runner: "evolves js ks \<Longrightarrow> one_runner ns js \<Longrightarrow> one_runner ns ks"
proof (induction rule: evolves.induct)
  case (evolves_change f js ks)
  have "map job_Name (map f js) = map job_Name js" "list_all (\<lambda>j. job_Namespace j = ns) (map f js) = list_all (\<lambda>j. job_Namespace j = ns) js"
    using evolves_change(1) by (auto simp: calm_def list_all_iff)
  then have "one_runner ns (map f js)"
    using evolves_change(1,4) running_change unfolding one_runner_def by (simp only: simp_thms)
  then show ?case by (rule evolves_change.IH)
next
  case (evolves_gone P js ks)
  have "running (filter P js) = filter P (running js)" by (simp add: running_def conj_commute)
  with evolves_gone show ?case by (auto simp: one_runner_def list_all_iff distinct_map_filter)
qed simp

lemma on_job_evolves: "calm f \<Longrightarrow> evolves (ex_jobs st) (ex_jobs (on_job name f st))"
  by (auto simp: on_job_def intro!: evolves_change [where f = "\<lambda>j. if job_Name j = name then f j else j"]) (simp add: calm_def)

lemma finished_update [simp]:
  "jobFinished (j\<lparr>job_DeletionTimestamp := t\<rparr>) = jobFinished j"
  "jobFinished (j\<lparr>job_Annotations := a\<rparr>) = jobFinished j"
  "jobFinished (j\<lparr>job_Spec := sp\<rparr>) = jobFinished j"
  by (simp_all add: jobFinished_def hasJobCondition_def jobFailure_def)

lemma node_update [simp]:
  "jobNodeName (j\<lparr>job_DeletionTimestamp := t\<rparr>) = jobNodeName j"
  "jobNodeName (j\<lparr>job_Annotations := a\<rparr>) = jobNodeName j"
  "jobNodeName (j\<lparr>job_Spec := (job_Spec j)\<lparr>js_Suspend := b\<rparr>\<rparr>) = jobNodeName j"
  by (simp_all add: jobNodeName_def)

lemma delete_job_evolves: "evolves (ex_jobs st) (ex_jobs (fst (delete_job env name st)))"
  by (auto simp: delete_job_def calm_def intro!: on_job_evolves)

lemma delete_jobs_evolves: "evolves (ex_jobs st) (ex_jobs (fst (delete_jobs env js st)))"
proof (induction js arbitrary: st)
  case (Cons j js)
  show ?case using delete_job_evolves [of st env "job_Name j"] Cons.IH
    by (auto split: prod.split sum.split intro: evolves_trans)
qed simp

lemma patch_job_evolves: "calm f \<Longrightarrow> evolves (ex_jobs st) (ex_jobs (fst (patch_job env name f st)))"
  by (simp add: patch_job_def on_job_evolves)

lemma set_suspend_evolves: "evolves (ex_jobs st) (ex_jobs (fst (set_suspend env b js st)))"
proof (induction js arbitrary: st)
  case (Cons j js)
  show ?case
    using patch_job_evolves [of "\<lambda>j. j\<lparr>job_Spec := (job_Spec j)\<lparr>js_Suspend := b\<rparr>\<rparr>" st env "job_Name j"] Cons.IH
    by (auto simp: calm_def split: prod.split sum.split intro: evolves_trans)
qed simp

lemma validate_job_evolves: "evolves (ex_jobs (fst acc)) (ex_jobs (fst (validate_job env s job acc)))"
proof -
  obtain st u es where acc: "acc = (st, u, es)" by (cases acc)
  have "evolves (ex_jobs st) (ex_jobs (fst (delete_and_note env job (st, u, es))))"
    using delete_job_evolves [of st env "job_Name job"] by (auto simp: delete_and_note_def split: prod.split sum.split)
  moreover have "evolves (ex_jobs st) (ex_jobs (fst (InvalidPackage env job st)))"
    unfolding InvalidPackage_def
    by (auto split: sum.split intro!: patch_job_evolves) (simp add: calm_def split: option.split)
  ultimately show ?thesis
    unfolding acc validate_job_def by (auto split: sum.split option.split prod.split)
qed

lemma validate_evolves: "evolves (ex_jobs st) (ex_jobs (fst (ValidateRunningPackages env s st)))"
proof -
  have "evolves (ex_jobs (fst acc)) (ex_jobs (fst (fold (validate_job env s) js acc)))" for js acc
  proof (induction js arbitrary: acc)
    case (Cons j js)
    then show ?case using validate_job_evolves [of acc env s j] evolves_trans by fastforce
  qed simp
  from this [of "(st, _)"] show ?thesis by (auto simp: ValidateRunningPackages_def split: sum.split)
qed

lemma metadata_jobs [simp]: "ex_jobs (fst (UpsertNodeLabelsAnnotationsPackages env sk n st)) = ex_jobs st"
  by (simp add: UpsertNodeLabelsAnnotationsPackages_def Let_def split: option.split)

text \<open>What the Jobs the operator starts have in common.\<close>

definition work_job :: "exec_env \<Rightarrow> Package \<Rightarrow> Skyhook \<Rightarrow> string \<Rightarrow> Job \<Rightarrow> bool" where
  "work_job env p sk name job \<longleftrightarrow>
     job_Namespace job = opt_Namespace (xe_opts env) \<and> \<not> jobFinished job \<and> job_DeletionTimestamp job = None \<and>
     runner_key job = (Some (sk_Name sk), Some (package_label_value p), Some (nodeLabelValue name))"

lemma labels_distinct [simp]:
  "name_label \<noteq> package_label" "name_label \<noteq> node_label" "package_label \<noteq> node_label" "name_label \<noteq> stage_label"
  "package_label \<noteq> name_label" "node_label \<noteq> name_label" "node_label \<noteq> package_label" "stage_label \<noteq> node_label"
  "node_label \<noteq> stage_label" "package_label \<noteq> stage_label" "stage_label \<noteq> name_label" "stage_label \<noteq> package_label"
  by (simp_all add: name_label_def package_label_def node_label_def stage_label_def)

lemma work_job_from_pod: "work_job env p sk name (setJobPackage nw img sg q (jobFromPod (xe_opts env) pod sk p stage name b))"
  by (simp add: work_job_def setJobPackage_def jobFromPod_def Let_def runner_key_def jobLabels_def jobFinished_def
      hasJobCondition_def jobFailure_def)

lemma work_job_built:
  "work_job env p sk name (setJobPackage nw img sg q (createJobFromPackage (xe_opts env) p sk name stage))"
  "work_job env p sk name (setJobPackage nw img sg q (createInterruptJobFromPackage (xe_opts env) i arg p sk name stage))"
  by (simp_all add: createJobFromPackage_def createInterruptJobFromPackage_def work_job_from_pod)

lemma has_labels_key:
  "package_jobs name sn p j \<longleftrightarrow> runner_key j = (Some sn, Some (package_label_value p), Some (nodeLabelValue name))"
  by (auto simp: package_jobs_def has_labels_def runner_key_def)

lemma JobExists_caught_up:
  assumes "caught_up env st" and "one_runner (opt_Namespace (xe_opts env)) (ex_jobs st)" and "JobExists env name sn p st = Inr False"
  shows "\<not> (\<exists>j \<in> set (running (ex_jobs st)). runner_key j = (Some sn, Some (package_label_value p), Some (nodeLabelValue name)))"
  using assms
  by (fastforce simp: JobExists_def GetJobs_def caught_up_def has_labels_key list_ex_iff running_def one_runner_def list_all_iff)

lemma create_one_runner:
  assumes "one_runner (opt_Namespace (xe_opts env)) (ex_jobs st)" and "work_job env p sk name job"
    and "\<not> (\<exists>j \<in> set (running (ex_jobs st)). runner_key j = runner_key job)"
  shows "one_runner (opt_Namespace (xe_opts env)) (ex_jobs (fst (create_job env job st)))"
  using assms by (auto simp: create_job_def one_runner_def work_job_def running_def list_ex_iff)

lemma handleExisting_evolves: "evolves (ex_jobs st) (ex_jobs (fst (handleExistingJob env want p node sk stage st)))"
  by (simp add: handleExistingJob_def delete_job_evolves split: option.split)

lemma start_one_runner:
  assumes "one_runner (opt_Namespace (xe_opts env)) (ex_jobs st)"
    and "work_job env p sk name (setJobPackage (sk_NodeWright sk) (p_Image p) stage p job)"
    and "JobExists env name (sk_Name sk) p st = Inr False" and "caught_up env st"
  shows "one_runner (opt_Namespace (xe_opts env)) (ex_jobs (fst (start_job env job p node sk stage st)))"
proof -
  let ?want = "setJobPackage (sk_NodeWright sk) (p_Image p) stage p job"
  have "one_runner (opt_Namespace (xe_opts env)) (ex_jobs (fst (create_job env ?want st)))"
    using assms(1,2) by (rule create_one_runner) (use assms JobExists_caught_up [OF assms(4,1,3)] in \<open>simp add: work_job_def\<close>)
  moreover have "evolves (ex_jobs (fst (create_job env ?want st))) (ex_jobs (fst (start_job env job p node sk stage st)))"
    using handleExisting_evolves
    by (auto simp: start_job_def Let_def split: prod.split create_result.split sum.split) (metis fst_conv)+
  ultimately show ?thesis using evolves_one_runner by blast
qed

lemma metadata_exists [simp]:
  "JobExists env name sn p (fst (UpsertNodeLabelsAnnotationsPackages env sk n st)) = JobExists env name sn p st"
  by (simp add: JobExists_def GetJobs_def)

lemma metadata_result:
  assumes "UpsertNodeLabelsAnnotationsPackages env sk n st = (st', r)"
  shows "ex_jobs st' = ex_jobs st" and "JobExists env name sn p st' = JobExists env name sn p st"
  using metadata_jobs [of env sk n st] metadata_exists [of env name sn p sk n st] assms by simp_all

lemma Interrupt_one_runner:
  assumes "one_runner (opt_Namespace (xe_opts env)) (ex_jobs (snd w))" and "caught_up env (snd w)"
  shows "one_runner (opt_Namespace (xe_opts env)) (ex_jobs (snd (fst (Interrupt_run env p i stage w))))"
proof -
  obtain node sk st where w: "w = ((node, sk), st)" by (cases w) auto
  have "one_runner (opt_Namespace (xe_opts env)) (ex_jobs st2)"
    if "JobExists env (n_Name (sn_Node node)) (sk_Name sk) p st = Inr False"
      and "UpsertNodeLabelsAnnotationsPackages env sk (sn_Node node) st = (st1, u)"
      and "start_job env (createInterruptJobFromPackage (xe_opts env) j (ToArgs j) p sk (n_Name (sn_Node node)) stage) p node sk stage st1 = (st2, r)"
    for st1 st2 u r j
    using start_one_runner [of env st1 p sk "n_Name (sn_Node node)" stage
        "createInterruptJobFromPackage (xe_opts env) j (ToArgs j) p sk (n_Name (sn_Node node)) stage" node]
      that assms metadata_result [OF that(2)] by (simp add: w work_job_built caught_up_def)
  then show ?thesis using assms(1) metadata_result
    unfolding Interrupt_run_def w
    by (auto simp: Let_def split: prod.split sum.split option.split bool.split)
qed

lemma Apply_one_runner:
  assumes "one_runner (opt_Namespace (xe_opts env)) (ex_jobs (snd w))" and "caught_up env (snd w)"
  shows "one_runner (opt_Namespace (xe_opts env)) (ex_jobs (snd (fst (ApplyPackage env p w))))"
proof -
  obtain node sk st where w: "w = ((node, sk), st)" by (cases w) auto
  let ?stage = "apply_stage sk node p"
  have "one_runner (opt_Namespace (xe_opts env)) (ex_jobs st2)"
    if "JobExists env (n_Name (sn_Node node)) (sk_Name sk) p st = Inr False"
      and "UpsertNodeLabelsAnnotationsPackages env sk (sn_Node node) st = (st1, u)"
      and "start_job env (createJobFromPackage (xe_opts env) p sk (n_Name (sn_Node node)) ?stage) p node sk ?stage st1 = (st2, r)"
    for st1 st2 u r
    using start_one_runner [of env st1 p sk "n_Name (sn_Node node)" ?stage
        "createJobFromPackage (xe_opts env) p sk (n_Name (sn_Node node)) ?stage" node]
      that assms metadata_result [OF that(2)] by (simp add: w work_job_built caught_up_def)
  then show ?thesis using assms(1) metadata_result
    unfolding ApplyPackage_def w
    by (auto simp: Let_def split: prod.split sum.split option.split bool.split)
qed

lemma ready_jobs: "snd (fst (ensure_ready env w)) = snd w"
  by (auto simp: ensure_ready_def split: prod.split sum.split)

text \<open>What every call of \<open>Interrupt\<close> and \<open>EnsureNodeIsReadyForInterrupt\<close> keeps of the work, \<open>ProcessInterrupt\<close> keeps.\<close>

lemma Process_keeps:
  assumes "\<And>w stage. Q w \<Longrightarrow> Q (fst (Interrupt_run env p i stage w))" and "\<And>w. Q w \<Longrightarrow> Q (fst (ensure_ready env w))"
    and "\<And>x st state stage. Q (x, st) \<Longrightarrow> Q (upsert p state stage x, st)" and "\<And>node sk st. Q ((node, sk), st) \<Longrightarrow> Q (Node_ProgressSkipped sk node, st)"
    and "Q w"
  shows "Q (fst (ProcessInterrupt env p i b w))"
proof -
  obtain node sk st where w: "w = ((node, sk), st)" by (cases w) auto
  have I: "Q w2" if "Interrupt_run env p i stage w1 = (w2, r)" "Q w1" for w1 w2 r stage
    using assms(1) [of w1 stage] that by simp
  have T: "Q (fst (run_interrupt env p i b stage status w1))" if "Q w1" for w1 stage status
    using that assms(3) [of "fst w1" "snd w1"] unfolding run_interrupt_def by (auto split: prod.split sum.split option.split dest: I)
  let ?status = "PackageStatusOf node (GetUniqueName p)" and ?stage = "start_stage sk node p StageApply"
  obtain w1 r1 where A: "(if IsActive ?status \<and> IsInterruptStage ?status
      then Interrupt_run env p i (ps_Stage (the ?status)) ((node, sk), st) else (((node, sk), st), Inr ())) = (w1, r1)" by fastforce
  obtain w2 r2 where R: "(if ?stage = StageApply \<or> ?stage = StageUninstall then ensure_ready env w1 else (w1, Inr True)) = (w2, r2)"
    by fastforce
  have Q1: "Q w1" using A assms(5) I by (auto simp: w split: if_splits)
  moreover have "Q w2" using R Q1 assms(2) [of w1] by (auto split: if_splits)
  moreover have "ProcessInterrupt env p i b w =
    (if \<not> Node_HasInterrupt sk p then (w, Inr True)
     else if IsSkipped ?status then ((if b then (Node_ProgressSkipped sk node, st) else w), Inr False)
     else case r1 of Inl e \<Rightarrow> (w1, Inl e)
       | Inr _ \<Rightarrow> (case r2 of Inl e \<Rightarrow> (w2, Inl e) | Inr False \<Rightarrow> (w2, Inr False)
            | Inr True \<Rightarrow> run_interrupt env p i b ?stage ?status w2))"
    unfolding ProcessInterrupt_def w Let_def prod.case A R ..
  ultimately show ?thesis using assms(4,5) T by (simp add: w split: sum.split bool.split)
qed

text \<open>
  What a name is made of.  The Job of a package stage is named after its resource, package and version, stage and node, so whatever a pass has
  seen, the API server refuses a second Job for the same of these.
\<close>

definition stage_key :: "Job \<Rightarrow> string option \<times> string option \<times> string option \<times> string" where
  "stage_key j = (map_of (job_Labels j) name_label, map_of (job_Labels j) package_label, map_of (job_Labels j) stage_label, jobNodeName j)"

definition named_by_key :: "Job \<Rightarrow> bool" where
  "named_by_key j \<longleftrightarrow> (map_of (job_Labels j) interrupt_label = None \<longrightarrow>
     (\<exists>r pl sg n. stage_key j = (Some r, Some pl, Some sg, n) \<and> job_Name j = generateSafeName 63 [r, pl, sg, n]))"

definition well_named :: "Job list \<Rightarrow> bool" where
  "well_named js \<longleftrightarrow> distinct (map job_Name js) \<and> list_all named_by_key js"

lemma safe_name_package: "generateSafeName n [a, b, c, d, e] = generateSafeName n [a, b @ ''-'' @ c, d, e]"
  by (simp add: generateSafeName_def)

lemma built_named:
  "named_by_key (setJobPackage nw img sg q (createJobFromPackage opts p sk name stage))"
  "named_by_key (setJobPackage nw img sg q (createInterruptJobFromPackage opts i arg p sk name stage))"
  by (simp_all add: named_by_key_def stage_key_def setJobPackage_def createJobFromPackage_def createInterruptJobFromPackage_def jobFromPod_def
      jobLabels_def jobNodeName_def createPodFromPackage_def new_pod_def Let_def package_label_value_def safe_name_package
      name_label_def package_label_def stage_label_def node_label_def generation_label_def interrupt_label_def)

lemma evolves_well_named: "evolves js ks \<Longrightarrow> well_named js \<Longrightarrow> well_named ks"
proof (induction rule: evolves.induct)
  case (evolves_change f js ks)
  have n: "map job_Name (map f js) = map job_Name js" using evolves_change(1) by (simp add: calm_def)
  have "named_by_key (f j)" if "named_by_key j" for j
    using that evolves_change(1) by (simp add: named_by_key_def stage_key_def calm_def)
  moreover have "distinct (map job_Name (map f js))" unfolding n using evolves_change(4) by (simp add: well_named_def)
  ultimately have "well_named (map f js)" using evolves_change(4) by (simp add: well_named_def list_all_iff)
  then show ?case by (rule evolves_change.IH)
next
  case (evolves_gone P js ks)
  then show ?case by (auto simp: well_named_def list_all_iff distinct_map_filter)
qed simp

lemma create_well_named: "well_named (ex_jobs st) \<Longrightarrow> named_by_key job \<Longrightarrow> well_named (ex_jobs (fst (create_job env job st)))"
  by (auto simp: create_job_def well_named_def list_ex_iff)

lemma start_well_named:
  assumes "well_named (ex_jobs st)" and "named_by_key (setJobPackage (sk_NodeWright sk) (p_Image p) stage p job)"
  shows "well_named (ex_jobs (fst (start_job env job p node sk stage st)))"
proof -
  let ?want = "setJobPackage (sk_NodeWright sk) (p_Image p) stage p job"
  have "evolves (ex_jobs (fst (create_job env ?want st))) (ex_jobs (fst (start_job env job p node sk stage st)))"
    using handleExisting_evolves
    by (auto simp: start_job_def Let_def split: prod.split create_result.split sum.split) (metis fst_conv)+
  then show ?thesis using create_well_named [OF assms] evolves_well_named by blast
qed

lemma Interrupt_well_named:
  assumes "well_named (ex_jobs (snd w))"
  shows "well_named (ex_jobs (snd (fst (Interrupt_run env p i stage w))))"
proof -
  obtain node sk st where w: "w = ((node, sk), st)" by (cases w) auto
  have "well_named (ex_jobs st2)"
    if "UpsertNodeLabelsAnnotationsPackages env sk (sn_Node node) st = (st1, u)"
      and "start_job env (createInterruptJobFromPackage (xe_opts env) j (ToArgs j) p sk (n_Name (sn_Node node)) stage) p node sk stage st1 = (st2, r)"
    for st1 st2 u r j
    using start_well_named [where st = st1 and env = env and node = node and sk = sk and p = p and stage = stage
        and job = "createInterruptJobFromPackage (xe_opts env) j (ToArgs j) p sk (n_Name (sn_Node node)) stage"]
      that assms metadata_result(1) [OF that(1)] by (simp add: w built_named)
  then show ?thesis using assms metadata_result(1)
    unfolding Interrupt_run_def w
    by (auto simp: Let_def split: prod.split sum.split option.split bool.split)
qed

lemma Apply_well_named:
  assumes "well_named (ex_jobs (snd w))"
  shows "well_named (ex_jobs (snd (fst (ApplyPackage env p w))))"
proof -
  obtain node sk st where w: "w = ((node, sk), st)" by (cases w) auto
  let ?stage = "apply_stage sk node p"
  have "well_named (ex_jobs st2)"
    if "UpsertNodeLabelsAnnotationsPackages env sk (sn_Node node) st = (st1, u)"
      and "start_job env (createJobFromPackage (xe_opts env) p sk (n_Name (sn_Node node)) ?stage) p node sk ?stage st1 = (st2, r)"
    for st1 st2 u r
    using start_well_named [where st = st1 and env = env and node = node and sk = sk and p = p and stage = ?stage
        and job = "createJobFromPackage (xe_opts env) p sk (n_Name (sn_Node node)) ?stage"]
      that assms metadata_result(1) [OF that(1)] by (simp add: w built_named)
  then show ?thesis using assms metadata_result(1)
    unfolding ApplyPackage_def w
    by (auto simp: Let_def split: prod.split sum.split bool.split)
qed

text \<open>
  What happens to the Jobs of the operator's namespace.  A pass starts or interrupts a package, or clears, marks, suspends or resumes Jobs, each on whatever
  listing its cache gives it; the Job controller and the garbage collector change and remove Jobs.  \<open>step_create\<close>, \<open>step_job\<close> and \<open>step_gone\<close>
  are single requests, so steps of theirs also stand for a pass whose requests are interleaved with those of another.
\<close>

inductive exec_step :: "string \<Rightarrow> exec_state \<Rightarrow> exec_state \<Rightarrow> bool" for ns where
  step_apply: "opt_Namespace (xe_opts env) = ns \<Longrightarrow> exec_step ns st (snd (fst (ApplyPackage env p (x, st))))"
| step_interrupt: "opt_Namespace (xe_opts env) = ns \<Longrightarrow> exec_step ns st (snd (fst (ProcessInterrupt env p i b (x, st))))"
| step_create: "opt_Namespace (xe_opts env) = ns \<Longrightarrow>
    job = createJobFromPackage (xe_opts env) p sk name stage \<or> job = createInterruptJobFromPackage (xe_opts env) i arg p sk name stage \<Longrightarrow>
    exec_step ns st (fst (create_job env (setJobPackage (sk_NodeWright sk) (p_Image p) stage p job) st))"
| step_validate: "exec_step ns st (fst (ValidateRunningPackages env s st))"
| step_suspend: "exec_step ns st (fst (suspendUnfinishedJobs env s st))"
| step_resume: "exec_step ns st (fst (resumeSuspendedJobs env s st))"
| step_config: "exec_step ns st (fst (deleteConfigUpdateExecutors env node sn p st))"
| step_reboot: "exec_step ns st (fst (deleteNodeJobs env sn node st))"
| step_job: "calm f \<Longrightarrow> exec_step ns st (on_job name f st)"
| step_gone: "exec_step ns st (st\<lparr>ex_jobs := filter P (ex_jobs st)\<rparr>)"

lemma exec_step_well_named: "exec_step ns st st' \<Longrightarrow> well_named (ex_jobs st) \<Longrightarrow> well_named (ex_jobs st')"
proof (induction rule: exec_step.induct)
  case (step_apply env st p x)
  then show ?case using Apply_well_named [of "(x, st)"] by simp
next
  case (step_interrupt env st p i b x)
  then show ?case
    using Process_keeps [where Q = "\<lambda>w. well_named (ex_jobs (snd w))" and w = "(x, st)"] Interrupt_well_named ready_jobs by auto
next
  case (step_create env job p sk name stage i arg st)
  then show ?case by (auto intro!: create_well_named built_named)
next
  case (step_validate st env s)
  then show ?case using evolves_well_named validate_evolves by blast
next
  case (step_suspend st env s)
  then show ?case
    by (auto simp: suspendUnfinishedJobs_def setSuspendOnUnfinishedJobs_def split: sum.split
        intro: evolves_well_named [OF set_suspend_evolves])
next
  case (step_resume st env s)
  then show ?case
    by (auto simp: resumeSuspendedJobs_def setSuspendOnUnfinishedJobs_def split: sum.split
        intro: evolves_well_named [OF set_suspend_evolves])
next
  case (step_config st env node sn p)
  then show ?case
    by (auto simp: deleteConfigUpdateExecutors_def split: sum.split intro: evolves_well_named [OF delete_jobs_evolves])
next
  case (step_reboot st env sn node)
  then show ?case by (auto simp: deleteNodeJobs_def split: sum.split intro: evolves_well_named [OF delete_jobs_evolves])
next
  case (step_job f st name)
  then show ?case using evolves_well_named on_job_evolves by blast
next
  case (step_gone st P)
  have "evolves (ex_jobs st) (filter P (ex_jobs st))" by (rule evolves_gone [where P = P]) simp
  with step_gone show ?case using evolves_well_named by simp
qed

text \<open>A pass that sees an unfinished Job of the package on the node starts none.\<close>

lemma seen_job_blocks:
  assumes "xe_view env (ex_jobs st) = Some js" and "j \<in> set js" and "job_Namespace j = opt_Namespace (xe_opts env)" and "\<not> jobFinished j"
    and "runner_key j = (Some (sk_Name sk), Some (package_label_value p), Some (nodeLabelValue (n_Name (sn_Node node))))"
  shows "ex_jobs (snd (fst (ApplyPackage env p ((node, sk), st)))) = ex_jobs st"
    and "ex_jobs (snd (fst (Interrupt_run env p i stage ((node, sk), st)))) = ex_jobs st"
proof -
  have "JobExists env (n_Name (sn_Node node)) (sk_Name sk) p st = Inr True"
    using assms by (auto simp: JobExists_def GetJobs_def has_labels_key list_ex_iff)
  then show "ex_jobs (snd (fst (ApplyPackage env p ((node, sk), st)))) = ex_jobs st"
    "ex_jobs (snd (fst (Interrupt_run env p i stage ((node, sk), st)))) = ex_jobs st"
    by (auto simp: ApplyPackage_def Interrupt_run_def Let_def split: sum.split bool.split)
qed

text \<open>
  C2. One Job at a time.  However passes of the operator, the Job controller and the garbage collector interleave, down to single requests, and whatever the
  caches of the passes show, two Jobs never exist for the same stage of one package and version of one resource on one node (the Jobs of
  interrupts, named after the type of the interrupt, aside).  Beyond the stage the code relies on its cache: no Job is started for a package when the listing the pass reads shows an unfinished one
  for it on the node, whatever its stage; so where the listing has caught up with the unfinished Jobs, starting keeps to one unfinished Job per
  package and node.
\<close>

theorem one_job_per_package:
  assumes "(exec_step ns)\<^sup>*\<^sup>* st st'" and "ex_jobs st = []"
  shows "(\<forall>j \<in> set (ex_jobs st'). \<forall>k \<in> set (ex_jobs st').
      map_of (job_Labels j) interrupt_label = None \<and> map_of (job_Labels k) interrupt_label = None \<and> stage_key j = stage_key k \<longrightarrow> j = k) \<and>
    (\<forall>env p i stage node sk st2. opt_Namespace (xe_opts env) = ns \<longrightarrow>
      st2 = snd (fst (ApplyPackage env p ((node, sk), st'))) \<or> st2 = snd (fst (Interrupt_run env p i stage ((node, sk), st'))) \<longrightarrow>
      (\<forall>js j. xe_view env (ex_jobs st') = Some js \<and> j \<in> set js \<and> job_Namespace j = ns \<and> \<not> jobFinished j \<and>
         runner_key j = (Some (sk_Name sk), Some (package_label_value p), Some (nodeLabelValue (n_Name (sn_Node node)))) \<longrightarrow>
         ex_jobs st2 = ex_jobs st') \<and>
      (caught_up env st' \<and> one_runner ns (ex_jobs st') \<longrightarrow> one_runner ns (ex_jobs st2)))"
proof -
  have well: "well_named (ex_jobs st')" using assms(1)
  proof (induction rule: rtranclp_induct)
    case base
    then show ?case using assms(2) by (simp add: well_named_def)
  next
    case (step st1 st2)
    then show ?case using exec_step_well_named by blast
  qed
  have "j = k" if "j \<in> set (ex_jobs st')" "k \<in> set (ex_jobs st')" "map_of (job_Labels j) interrupt_label = None"
    "map_of (job_Labels k) interrupt_label = None" "stage_key j = stage_key k" for j k
  proof -
    have "named_by_key j" "named_by_key k" using that(1,2) well by (simp_all add: well_named_def list_all_iff)
    then have "job_Name j = job_Name k" using that(3-5) by (auto simp: named_by_key_def)
    then show ?thesis using well that(1,2) by (simp add: well_named_def distinct_map inj_on_def)
  qed
  moreover have "one_runner ns (ex_jobs (snd (fst (ApplyPackage env p (x, st')))))" "one_runner ns (ex_jobs (snd (fst (Interrupt_run env p i stage (x, st')))))"
    if "opt_Namespace (xe_opts env) = ns" "caught_up env st'" "one_runner ns (ex_jobs st')" for env p i stage x
    using that Apply_one_runner [of env "(x, st')" p] Interrupt_one_runner [of env "(x, st')" p i stage] by simp_all
  moreover have "ex_jobs (snd (fst (ApplyPackage env p ((node, sk), st')))) = ex_jobs st'"
    "ex_jobs (snd (fst (Interrupt_run env p i stage ((node, sk), st')))) = ex_jobs st'"
    if "opt_Namespace (xe_opts env) = ns" "xe_view env (ex_jobs st') = Some js \<and> l \<in> set js \<and> job_Namespace l = ns \<and> \<not> jobFinished l \<and>
      runner_key l = (Some (sk_Name sk), Some (package_label_value p), Some (nodeLabelValue (n_Name (sn_Node node))))"
    for env p i stage node sk js l
    using that by (auto intro!: seen_job_blocks)
  ultimately show ?thesis
    by (intro conjI ballI allI impI; elim disjE conjE; simp)
qed

text \<open>
  An interrupt is run alone: \<open>Interrupt\<close> starts a Job only when no unfinished Job of any resource is on the
  node.
\<close>

theorem interrupt_alone:
  assumes "Interrupt_run env p i stage ((node, sk), st) = (w', r)" and "fresh_view env"
    and "list_all (\<lambda>j. job_Namespace j = opt_Namespace (xe_opts env)) (ex_jobs st)"
    and "length (ex_jobs (snd w')) > length (ex_jobs st)"
    and "j \<in> set (ex_jobs st)" and "map_of (job_Labels j) name_label \<noteq> None"
    and "map_of (job_Labels j) node_label = Some (nodeLabelValue (n_Name (sn_Node node)))"
  shows "jobFinished j"
proof (rule ccontr)
  assume "\<not> jobFinished j"
  then have "HasRunningPackages env (n_Name (sn_Node node)) st = Inr True"
    using assms(2,3,5-7)
    by (auto simp: HasRunningPackages_def GetJobs_def fresh_view_def has_labels_def list_ex_iff list_all_iff)
  then have "w' = ((node, sk), st)" using assms(1) by (simp add: Interrupt_run_def)
  with assms(4) show False by simp
qed

lemma on_job_length [simp]: "length (ex_jobs (on_job name f st)) = length (ex_jobs st)"
  by (simp add: on_job_def)

lemma handleExisting_length: "length (ex_jobs (fst (handleExistingJob env want p node sk stage st))) = length (ex_jobs st)"
  by (simp add: handleExistingJob_def delete_job_def split: option.split)

lemma start_job_created:
  assumes "start_job env job p node sk stage st = (st', r)"
  shows "if r = Inr True then ex_jobs st' = ex_jobs st @ [setJobPackage (sk_NodeWright sk) (p_Image p) stage p job]
    else length (ex_jobs st') = length (ex_jobs st)"
proof -
  let ?want = "setJobPackage (sk_NodeWright sk) (p_Image p) stage p job"
  show ?thesis
    using assms handleExisting_length [of env ?want p node sk stage st]
    by (auto simp: start_job_def create_job_def Let_def split: if_splits prod.splits sum.splits)
qed

text \<open>
  What a pass writes about a package it starts is backed by a Job: when \<open>ApplyPackage\<close> or \<open>Interrupt\<close> changes the
  node or the resource at all, a Job for the package on that node has just been created, whatever the listing showed
  and whichever requests failed; a name that is taken, a refusal or a wait leaves them as they were.
\<close>

theorem progress_backed_by_job:
  assumes "ApplyPackage env p ((node, sk), st) = ((x, st'), r) \<or> Interrupt_run env p i stage ((node, sk), st) = ((x, st'), r)"
    and "x \<noteq> (node, sk)"
  shows "r = Inr () \<and> (\<exists>job. ex_jobs st' = ex_jobs st @ [job] \<and> work_job env p sk (n_Name (sn_Node node)) job)"
proof -
  have job: "r1 = Inr True \<Longrightarrow> \<exists>job. ex_jobs st2 = ex_jobs st @ [job] \<and> work_job env p sk (n_Name (sn_Node node)) job"
    if "UpsertNodeLabelsAnnotationsPackages env sk (sn_Node node) st = (st1, u)"
      and "start_job env job p node sk stage' st1 = (st2, r1)"
      and "work_job env p sk (n_Name (sn_Node node)) (setJobPackage (sk_NodeWright sk) (p_Image p) stage' p job)" for st1 st2 u job stage' r1
    using start_job_created [OF that(2)] metadata_result(1) [OF that(1)] that(3) by auto
  show ?thesis
    using assms(1)
  proof
    assume "ApplyPackage env p ((node, sk), st) = ((x, st'), r)"
    with assms(2) show ?thesis
      by (auto simp: ApplyPackage_def Let_def split: prod.splits sum.splits bool.splits if_splits dest: job simp: work_job_built)
  next
    assume "Interrupt_run env p i stage ((node, sk), st) = ((x, st'), r)"
    with assms(2) show ?thesis
      by (auto simp: Interrupt_run_def Let_def split: prod.splits sum.splits bool.splits option.splits dest: job simp: work_job_built)
  qed
qed

section \<open>What validation leaves\<close>

text \<open>Changes made Job by Job, each under its own name, come together to one change of the list.\<close>

lemma fold_on_jobs:
  "ex_jobs (fold (\<lambda>j. on_job (job_Name j) (f j)) js st) =
     map (\<lambda>x. fold (\<lambda>j x. if job_Name x = job_Name j then f j x else x) js x) (ex_jobs st)"
proof (induction js arbitrary: st)
  case (Cons j js)
  have "ex_jobs (on_job (job_Name j) (f j) st) = map (\<lambda>x. if job_Name x = job_Name j then f j x else x) (ex_jobs st)"
    by (simp add: on_job_def)
  then show ?case by (simp add: Cons.IH comp_def)
qed simp

lemma fold_own_name:
  assumes "\<And>j x. job_Name (f j x) = job_Name x"
  shows "distinct (map job_Name js) \<Longrightarrow>
    fold (\<lambda>j x. if job_Name x = job_Name j then f j x else x) js x =
      (case List.find (\<lambda>j. job_Name j = job_Name x) js of None \<Rightarrow> x | Some j \<Rightarrow> f j x)"
proof (induction js arbitrary: x)
  case (Cons j js)
  have "List.find (\<lambda>k. job_Name k = job_Name j) js = None" using Cons.prems by (simp add: find_None_iff image_iff) metis
  with Cons show ?case by (auto simp: assms)
qed simp

lemma on_own_jobs:
  assumes "distinct (map job_Name (ex_jobs st))" and "\<And>j x. job_Name (f j x) = job_Name x"
  shows "ex_jobs (fold (\<lambda>j. on_job (job_Name j) (f j)) (filter P (ex_jobs st)) st) =
    map (\<lambda>x. if P x then f x x else x) (ex_jobs st)"
proof -
  have D: "distinct (map job_Name (filter P (ex_jobs st)))" using assms(1) by (rule distinct_map_filter)
  have "List.find (\<lambda>j. job_Name j = job_Name x) (filter P (ex_jobs st)) = (if P x then Some x else None)"
    if "x \<in> set (ex_jobs st)" for x
  proof (cases "P x")
    case True
    with that find_distinct [OF D] show ?thesis by simp
  next
    case False
    with that assms(1) show ?thesis by (auto simp: find_None_iff distinct_map inj_on_def)
  qed
  then show ?thesis by (auto simp: fold_on_jobs fold_own_name [OF assms(2) D])
qed

definition mark_deleted :: "exec_env \<Rightarrow> Job \<Rightarrow> Job" where
  "mark_deleted env j =
     (if job_DeletionTimestamp j = None \<and> xe_delete_ok env (job_Name j) then j\<lparr>job_DeletionTimestamp := Some (xe_now env)\<rparr> else j)"

definition mark_invalid :: "exec_env \<Rightarrow> Job \<Rightarrow> Job \<Rightarrow> Job" where
  "mark_invalid env seen j =
     (case InvalidatePackage (job_Annotations seen) of
        Inl _ \<Rightarrow> j
      | Inr anns \<Rightarrow>
          (case map_of anns packageAnnotationKey of
             Some v \<Rightarrow> if xe_patch_ok env (job_Name j) then j\<lparr>job_Annotations := gput packageAnnotationKey v (job_Annotations j)\<rparr> else j
           | None \<Rightarrow> j))"


lemma mark_names [simp]: "job_Name (mark_deleted env j) = job_Name j" "job_Name (mark_invalid env seen j) = job_Name j"
  by (auto simp: mark_deleted_def mark_invalid_def split: sum.split option.split)



lemma on_job_same: "(\<And>j. job_Name j = name \<Longrightarrow> f j = j) \<Longrightarrow> on_job name f st = st"
  by (auto simp: on_job_def intro!: exec_state.equality map_idI)
















section \<open>Pausing and resuming\<close>

abbreviation set_suspended :: "bool \<Rightarrow> Job \<Rightarrow> Job" where
  "set_suspended b j \<equiv> j\<lparr>job_Spec := (job_Spec j)\<lparr>js_Suspend := b\<rparr>\<rparr>"

text \<open>The Jobs a pause is about: unfinished, of the resource, and not marked for removal.\<close>

definition live_job :: "exec_env \<Rightarrow> skyhookNodes \<Rightarrow> Job \<Rightarrow> bool" where
  "live_job env s j \<longleftrightarrow>
     job_Namespace j = opt_Namespace (xe_opts env) \<and> map_of (job_Labels j) name_label = Some (sh_Name s) \<and>
     \<not> jobFinished j \<and> IsInvalidPackage (job_Annotations j) \<noteq> Inr True"

definition switch :: "bool \<Rightarrow> Job \<Rightarrow> Job \<Rightarrow> Job" where
  "switch b seen =
     (if jobFinished seen \<or> IsInvalidPackage (job_Annotations seen) = Inr True \<or> js_Suspend (job_Spec seen) = b then id
      else set_suspended b)"

lemma switch_name [simp]: "job_Name (switch b seen j) = job_Name j"
  by (simp add: switch_def)

definition readable :: "Job \<Rightarrow> bool" where
  "readable j \<longleftrightarrow> (case IsInvalidPackage (job_Annotations j) of Inl _ \<Rightarrow> False | Inr _ \<Rightarrow> True)"

lemma set_suspend_state:
  assumes "\<And>n. xe_patch_ok env n"
  shows "list_all readable js \<Longrightarrow> job_Name ` set js \<subseteq> job_Name ` set (ex_jobs st) \<Longrightarrow>
    set_suspend env b js st = (fold (\<lambda>j. on_job (job_Name j) (switch b j)) js st, Inr ())"
proof (induction js arbitrary: st)
  case (Cons j js)
  let ?st = "on_job (job_Name j) (switch b j) st"
  have "map job_Name (ex_jobs ?st) = map job_Name (ex_jobs st)" by (simp add: on_job_def)
  then have "job_Name ` set (ex_jobs ?st) = job_Name ` set (ex_jobs st)" by (metis set_map)
  with Cons.prems have "set_suspend env b js ?st = (fold (\<lambda>j. on_job (job_Name j) (switch b j)) js ?st, Inr ())"
    by (intro Cons.IH) simp_all
  moreover have "list_ex (\<lambda>k. job_Name k = job_Name j) (ex_jobs st)" using Cons.prems(2) by (auto simp: list_ex_iff)
  moreover obtain inv where "IsInvalidPackage (job_Annotations j) = Inr inv"
    using Cons.prems(1) by (auto simp: readable_def split: sum.splits)
  ultimately show ?case using assms
    by (auto simp: switch_def patch_job_def on_job_same [where f = id])
qed simp

lemma set_suspend_exact:
  assumes "fresh_view env" and "distinct (map job_Name (ex_jobs st))" and "\<And>n. xe_patch_ok env n" and "list_all readable (ex_jobs st)"
  shows "setSuspendOnUnfinishedJobs env s b st = (st', r) \<Longrightarrow>
    r = Inr () \<and> ex_jobs st' = map (\<lambda>j. if live_job env s j then set_suspended b j else j) (ex_jobs st)"
proof -
  let ?P = "\<lambda>j. job_Namespace j = opt_Namespace (xe_opts env) \<and> has_labels [(name_label, sh_Name s)] j"
  have "set_suspend env b (filter ?P (ex_jobs st)) st =
      (fold (\<lambda>j. on_job (job_Name j) (switch b j)) (filter ?P (ex_jobs st)) st, Inr ())"
    using assms(3,4) by (intro set_suspend_state) (auto simp: list_all_iff)
  moreover have "ex_jobs (fold (\<lambda>j. on_job (job_Name j) (switch b j)) (filter ?P (ex_jobs st)) st) =
      map (\<lambda>j. if live_job env s j then set_suspended b j else j) (ex_jobs st)"
    using on_own_jobs [OF assms(2), of "switch b" ?P] by (auto simp: switch_def live_job_def has_labels_def)
  moreover assume "setSuspendOnUnfinishedJobs env s b st = (st', r)"
  ultimately show ?thesis using assms(1) by (simp add: setSuspendOnUnfinishedJobs_def GetJobs_def fresh_view_def)
qed

lemma live_job_suspended [simp]: "live_job env s (set_suspended b j) = live_job env s j"
  by (simp add: live_job_def)

lemma readable_suspended [simp]: "readable (set_suspended b j) = readable j"
  by (simp add: readable_def)

lemma suspended_self: "set_suspended b j = j \<longleftrightarrow> js_Suspend (job_Spec j) = b"
proof
  assume "set_suspended b j = j"
  then have "js_Suspend (job_Spec (set_suspended b j)) = js_Suspend (job_Spec j)" by simp
  then show "js_Suspend (job_Spec j) = b" by simp
qed auto

text \<open>
  C30. Pausing stops the work of a resource and nothing else, and resuming gives it back: a pause suspends every
  unfinished Job of the resource that is not already marked for removal, resuming makes the Jobs what they were, and
  resuming a disabled resource changes nothing, so what the pause stopped stays stopped.
\<close>

theorem pause_resume:
  assumes "fresh_view env" and "distinct (map job_Name (ex_jobs st))" and "\<And>n. xe_patch_ok env n"
    and "list_all readable (ex_jobs st)" and "list_all (\<lambda>j. \<not> js_Suspend (job_Spec j)) (ex_jobs st)"
    and "suspendUnfinishedJobs env s st = (paused, r1)" and "resumeSuspendedJobs env s paused = (resumed, r2)"
  shows "r1 = Inr () \<and> r2 = Inr () \<and>
    ex_jobs paused = map (\<lambda>j. if live_job env s j then set_suspended True j else j) (ex_jobs st) \<and>
    ex_jobs resumed = (if sh_IsDisabled s then ex_jobs paused else ex_jobs st)"
proof -
  have P: "r1 = Inr () \<and> ex_jobs paused = map (\<lambda>j. if live_job env s j then set_suspended True j else j) (ex_jobs st)"
    using set_suspend_exact [OF assms(1-4)] assms(6) by (simp add: suspendUnfinishedJobs_def)
  have "map job_Name (ex_jobs paused) = map job_Name (ex_jobs st)" using P by simp
  then have D: "distinct (map job_Name (ex_jobs paused))" using assms(2) by simp
  have "list_all readable (ex_jobs paused)" using P assms(4) by (auto simp: list_all_iff)
  then have R: "setSuspendOnUnfinishedJobs env s False paused = (st', r) \<Longrightarrow> r = Inr () \<and>
      ex_jobs st' = map (\<lambda>j. if live_job env s j then set_suspended False j else j) (ex_jobs paused)" for st' r
    using set_suspend_exact [OF assms(1) D assms(3)] by blast
  have "map (\<lambda>j. if live_job env s j then set_suspended False j else j) (ex_jobs paused) = ex_jobs st"
    unfolding P [THEN conjunct2] map_map
  proof (rule map_idI)
    fix j assume "j \<in> set (ex_jobs st)"
    with assms(5) have "js_Suspend (job_Spec j) = False" by (simp add: list_all_iff)
    then have self: "set_suspended False j = j" by (rule suspended_self [THEN iffD2])
    have twice: "set_suspended False (set_suspended True j) = set_suspended False j" by simp
    show "((\<lambda>j. if live_job env s j then set_suspended False j else j) \<circ>
        (\<lambda>j. if live_job env s j then set_suspended True j else j)) j = j"
      by (cases "live_job env s j") (simp_all only: comp_apply live_job_suspended if_True if_False twice self simp_thms)
  qed
  with R have "setSuspendOnUnfinishedJobs env s False paused = (resumed, r2) \<Longrightarrow> r2 = Inr () \<and> ex_jobs resumed = ex_jobs st"
    by (metis (no_types))
  moreover have "sh_IsDisabled s \<Longrightarrow> r2 = Inr () \<and> resumed = paused"
    "\<not> sh_IsDisabled s \<Longrightarrow> setSuspendOnUnfinishedJobs env s False paused = (resumed, r2)"
    using assms(7) by (simp_all add: resumeSuspendedJobs_def)
  ultimately show ?thesis using P by (cases "sh_IsDisabled s") (simp_all only: if_True if_False simp_thms)
qed

section \<open>Starting a stage\<close>

lemma SetState_nodeState: "nodeState (SetState ns (node\<lparr>nodeState := ns\<rparr>)) = ns"
  by (simp add: SetState_def Let_def split: option.split)

lemma upsert_status_of:
  "PackageStatusOf (fst (upsert p state stage (node, sk))) (GetUniqueName p) =
     Some \<lparr>ps_Name = p_Name p, ps_Version = p_Version p, ps_Image = p_Image p, ps_ContainerSHA = p_ContainerSHA p,
           ps_Stage = stage, ps_State = state, ps_Restarts = 0\<rparr>"
proof -
  let ?U = "Upsert (nodeState node) (package_ref p) (p_Image p) state stage 0 (p_ContainerSHA p)"
  have "nodeState (fst (upsert p state stage (node, sk))) = fst ?U"
    by (auto simp: upsert_def Node_Upsert_def Let_def SetState_nodeState split: prod.split)
  then have "PackageStatusOf (fst (upsert p state stage (node, sk))) = ns_get (fst ?U)" by (simp add: PackageStatusOf_def fun_eq_iff)
  then show ?thesis unfolding ns_get_Upsert by (simp add: package_ref_def PackageRef_GetUniqueName_def GetUniqueName_def)
qed

lemma status_nodeState: "status \<noteq> StatusComplete \<Longrightarrow> nodeState (fst (Node_SetStatus status nr)) = nodeState (fst nr)"
  by (auto simp: Node_SetStatus_def Let_def split: prod.split)

definition stage_job :: "exec_env \<Rightarrow> Package \<Rightarrow> Skyhook \<Rightarrow> string \<Rightarrow> Stage \<Rightarrow> Job" where
  "stage_job env p sk name stage =
     setJobPackage (sk_NodeWright sk) (p_Image p) stage p (createJobFromPackage (xe_opts env) p sk name stage)"

lemma metadata_done:
  assumes "\<And>n. xe_meta_ok env n"
  obtains st1 where "UpsertNodeLabelsAnnotationsPackages env sk n st = (st1, Inr ())" and "ex_jobs st1 = ex_jobs st"
proof -
  have "snd (UpsertNodeLabelsAnnotationsPackages env sk n st) = Inr ()"
    using assms by (simp add: UpsertNodeLabelsAnnotationsPackages_def Let_def split: option.split)
  with that metadata_jobs show ?thesis by (metis prod.collapse)
qed

lemma stage_started:
  assumes "ApplyPackage env p ((node, sk), st) = (((node', sk'), st'), r)"
    and "fresh_view env" and "\<And>n. xe_meta_ok env n" and "\<And>n. xe_create_ok env n"
    and "apply_stage sk node p = stage" and "stage \<noteq> StageUninstallInterrupt"
    and "\<not> IsSkipped (PackageStatusOf node (GetUniqueName p))"
    and "list_all (\<lambda>j. jobFinished j \<or> \<not> package_jobs (n_Name (sn_Node node)) (sk_Name sk) p j) (ex_jobs st)"
    and "job_Name (stage_job env p sk (n_Name (sn_Node node)) stage) \<notin> job_Name ` set (ex_jobs st)"
  shows "r = Inr () \<and> ex_jobs st' = ex_jobs st @ [stage_job env p sk (n_Name (sn_Node node)) stage] \<and>
    map_option (\<lambda>s. (ps_Stage s, ps_State s)) (PackageStatusOf node' (GetUniqueName p)) = Some (stage, StateInProgress)"
proof -
  let ?name = "n_Name (sn_Node node)" and ?x = "upsert p StateInProgress stage (node, sk)"
  have "JobExists env ?name (sk_Name sk) p st = Inr False"
    using assms(2,8) by (auto simp: JobExists_def GetJobs_def fresh_view_def list_ex_iff list_all_iff)
  moreover obtain st1 where st1: "UpsertNodeLabelsAnnotationsPackages env sk (sn_Node node) st = (st1, Inr ())" "ex_jobs st1 = ex_jobs st"
    using metadata_done [OF assms(3)] by blast
  moreover have "\<not> list_ex (\<lambda>j. job_Name j = job_Name (stage_job env p sk ?name stage)) (ex_jobs st)"
    using assms(9) by (simp add: list_ex_iff image_iff) metis
  then have "start_job env (createJobFromPackage (xe_opts env) p sk ?name stage) p node sk stage st1 =
      (st1\<lparr>ex_jobs := ex_jobs st @ [stage_job env p sk ?name stage]\<rparr>, Inr True)"
    using assms(4) st1(2) by (simp add: start_job_def create_job_def stage_job_def Let_def)
  ultimately have "ApplyPackage env p ((node, sk), st) =
    (let (node2, sk2) = Node_SetStatus StatusInProgress (fst ?x, Some (snd ?x))
     in (((node2, apply_condition env p node2 (the sk2)), st1\<lparr>ex_jobs := ex_jobs st @ [stage_job env p sk ?name stage]\<rparr>), Inr ()))"
    using assms(5-7) by (simp add: ApplyPackage_def Let_def split_beta)
  then have "r = Inr ()" "ex_jobs st' = ex_jobs st @ [stage_job env p sk ?name stage]"
    "node' = fst (Node_SetStatus StatusInProgress (fst ?x, Some (snd ?x)))"
    using assms(1) by (auto simp: Let_def split_beta)
  moreover from this(3) have "PackageStatusOf node' = PackageStatusOf (fst ?x)"
    by (simp add: PackageStatusOf_def status_nodeState fun_eq_iff)
  ultimately show ?thesis by (simp add: upsert_status_of)
qed

text \<open>
  A stage that is due and that nothing stands in the way of is started in the pass: when the package is neither
  skipped nor at the interrupt of an uninstall, no unfinished Job of the package is on the node, and the name of the
  stage's Job is free, \<open>ApplyPackage\<close> creates that Job and records the stage as in progress.
\<close>

theorem apply_starts:
  assumes "ApplyPackage env p ((node, sk), st) = (((node', sk'), st'), r)"
    and "fresh_view env" and "\<And>n. xe_meta_ok env n" and "\<And>n. xe_create_ok env n"
    and "apply_stage sk node p = stage" and "stage \<noteq> StageUninstallInterrupt"
    and "\<not> IsSkipped (PackageStatusOf node (GetUniqueName p))"
    and "list_all (\<lambda>j. jobFinished j \<or> \<not> package_jobs (n_Name (sn_Node node)) (sk_Name sk) p j) (ex_jobs st)"
    and "job_Name (stage_job env p sk (n_Name (sn_Node node)) stage) \<notin> job_Name ` set (ex_jobs st)"
  shows "r = Inr () \<and> ex_jobs st' = ex_jobs st @ [stage_job env p sk (n_Name (sn_Node node)) stage] \<and>
    map_option (\<lambda>s. (ps_Stage s, ps_State s)) (PackageStatusOf node' (GetUniqueName p)) = Some (stage, StateInProgress)"
  using assms by (rule stage_started)

section \<open>Witnesses\<close>

definition sample_exec :: exec_env where
  "sample_exec =
     \<lparr>xe_opts = sample_options, xe_view = Some, xe_create_ok = (\<lambda>_. True), xe_delete_ok = (\<lambda>_. True),
      xe_patch_ok = (\<lambda>_. True), xe_meta_ok = (\<lambda>_. True), xe_drain = quiet, xe_now = 0\<rparr>"

definition no_jobs :: exec_state where
  "no_jobs = \<lparr>ex_jobs = [], ex_meta = []\<rparr>"

definition first_pass :: "work \<times> (exec_error + unit)" where
  "first_pass = ApplyPackage sample_exec sample_package ((sample_skyhookNode, sample_skyhook), no_jobs)"

lemma sample_exec_sel [simp]: "fresh_view sample_exec" "xe_meta_ok sample_exec n" "xe_create_ok sample_exec n" "xe_patch_ok sample_exec n"
  by (simp_all add: sample_exec_def fresh_view_def)

lemma no_jobs_sel [simp]: "ex_jobs no_jobs = []"
  by (simp add: no_jobs_def)

lemma sample_apply_stage: "apply_stage sample_skyhook sample_skyhookNode sample_package = StageApply"
  by code_simp

lemma sample_not_skipped: "\<not> IsSkipped (PackageStatusOf sample_skyhookNode (GetUniqueName sample_package))"
  by code_simp

lemma first_pass_started:
  "snd first_pass = Inr () \<and>
   ex_jobs (snd (fst first_pass)) = [stage_job sample_exec sample_package sample_skyhook (n_Name (sn_Node sample_skyhookNode)) StageApply] \<and>
   map_option (\<lambda>s. (ps_Stage s, ps_State s)) (PackageStatusOf (fst (fst (fst first_pass))) (GetUniqueName sample_package)) =
     Some (StageApply, StateInProgress)"
  using stage_started [of sample_exec sample_package sample_skyhookNode sample_skyhook no_jobs "fst (fst (fst first_pass))"
      "snd (fst (fst first_pass))" "snd (fst first_pass)" "snd first_pass" StageApply]
  by (simp add: first_pass_def sample_apply_stage sample_not_skipped)

theorem apply_starts_witness:
  "snd first_pass = Inr () \<and>
   ex_jobs (snd (fst first_pass)) = [stage_job sample_exec sample_package sample_skyhook (n_Name (sn_Node sample_skyhookNode)) StageApply] \<and>
   map_option (\<lambda>s. (ps_Stage s, ps_State s)) (PackageStatusOf (fst (fst (fst first_pass))) (GetUniqueName sample_package)) =
     Some (StageApply, StateInProgress)"
  using apply_starts [of sample_exec sample_package sample_skyhookNode sample_skyhook no_jobs "fst (fst (fst first_pass))"
      "snd (fst (fst first_pass))" "snd (fst first_pass)" "snd first_pass" StageApply]
  by (simp add: first_pass_def sample_apply_stage sample_not_skipped)

theorem one_job_per_package_witness:
  "(exec_step ''nodewright'')\<^sup>*\<^sup>* no_jobs (snd (fst first_pass)) \<and>
   ex_jobs (snd (fst (ApplyPackage sample_exec sample_package ((sample_skyhookNode, sample_skyhook), snd (fst first_pass))))) =
     ex_jobs (snd (fst first_pass)) \<and> length (ex_jobs (snd (fst first_pass))) = 1"
proof -
  let ?j = "stage_job sample_exec sample_package sample_skyhook (n_Name (sn_Node sample_skyhookNode)) StageApply"
  have ns: "opt_Namespace (xe_opts sample_exec) = ''nodewright''" by (simp add: sample_exec_def sample_options_def)
  have "exec_step ''nodewright'' no_jobs (snd (fst first_pass))"
    unfolding first_pass_def by (rule step_apply [OF ns])
  then have steps: "(exec_step ''nodewright'')\<^sup>*\<^sup>* no_jobs (snd (fst first_pass))" by (rule r_into_rtranclp)
  have jobs: "ex_jobs (snd (fst first_pass)) = [?j]" using first_pass_started by (elim conjE)
  have j: "\<not> jobFinished ?j" "job_Namespace ?j = ''nodewright''"
    "runner_key ?j = (Some (sk_Name sample_skyhook), Some (package_label_value sample_package), Some (nodeLabelValue (n_Name (sn_Node sample_skyhookNode))))"
    using work_job_built(1) [of sample_exec sample_package sample_skyhook] ns by (simp_all add: work_job_def stage_job_def)
  have "xe_view sample_exec (ex_jobs (snd (fst first_pass))) = Some [?j]" by (simp add: jobs) (simp add: sample_exec_def)
  then have "ex_jobs (snd (fst (ApplyPackage sample_exec sample_package ((sample_skyhookNode, sample_skyhook), snd (fst first_pass))))) =
     ex_jobs (snd (fst first_pass))"
    using conjunct2 [OF one_job_per_package [OF steps no_jobs_sel]] ns j by (metis list.set_intros(1))
  then show ?thesis using steps jobs by simp
qed

theorem progress_backed_by_job_witness:
  "\<exists>job. ex_jobs (snd (fst first_pass)) = [job] \<and>
     work_job sample_exec sample_package sample_skyhook (n_Name (sn_Node sample_skyhookNode)) job"
proof -
  have "PackageStatusOf sample_skyhookNode (GetUniqueName sample_package) = None" by code_simp
  then have "fst (fst (fst first_pass)) \<noteq> sample_skyhookNode" using first_pass_started by auto
  then have "fst (fst first_pass) \<noteq> (sample_skyhookNode, sample_skyhook)" by (metis fst_conv)
  then show ?thesis
    using progress_backed_by_job [of sample_exec sample_package sample_skyhookNode sample_skyhook no_jobs "fst (fst first_pass)"
        "snd (fst first_pass)" "snd first_pass"]
    by (simp add: first_pass_def)
qed

lemma safe_name_long: "9 \<le> length (generateSafeName n parts)"
  using generateSafeName_split [of n parts] by auto

text \<open>A Job that finished earlier on the node of the sample.\<close>

definition old_job :: Job where
  "old_job = sample_job\<lparr>job_Name := ''old'',
     job_Labels := [(name_label, sk_Name sample_skyhook), (node_label, nodeLabelValue (n_Name (sn_Node sample_skyhookNode)))]\<rparr>"

definition one_job :: "Job \<Rightarrow> exec_state" where
  "one_job j = no_jobs\<lparr>ex_jobs := [j]\<rparr>"

definition reboot_pass :: "work \<times> (exec_error + unit)" where
  "reboot_pass = Interrupt_run sample_exec sample_package (Some \<lparr>int_Type = REBOOT, int_Services = []\<rparr>) StageInterrupt
     ((sample_skyhookNode, sample_skyhook), one_job old_job)"

lemma old_job_finished: "jobFinished old_job"
  by (simp add: old_job_def sample_job_def jobFinished_def hasJobCondition_def)

lemma reboot_pass_started: "length (ex_jobs (snd (fst reboot_pass))) = 2"
proof -
  let ?job = "createInterruptJobFromPackage (xe_opts sample_exec) \<lparr>int_Type = REBOOT, int_Services = []\<rparr>
    (ToArgs \<lparr>int_Type = REBOOT, int_Services = []\<rparr>) sample_package sample_skyhook (n_Name (sn_Node sample_skyhookNode)) StageInterrupt"
  have idle: "HasRunningPackages sample_exec n (one_job old_job) = Inr False" "JobExists sample_exec n sn p (one_job old_job) = Inr False" for n sn p
    using old_job_finished
    by (simp_all add: HasRunningPackages_def JobExists_def GetJobs_def sample_exec_def one_job_def)
  obtain st1 where st1: "UpsertNodeLabelsAnnotationsPackages sample_exec sample_skyhook (sn_Node sample_skyhookNode) (one_job old_job) = (st1, Inr ())"
    "ex_jobs st1 = [old_job]"
    using metadata_done [OF sample_exec_sel(2), of sample_skyhook "sn_Node sample_skyhookNode" "one_job old_job"]
    by (auto simp: one_job_def)
  have "job_Name old_job \<noteq> job_Name (setJobPackage nw img sg q ?job)" for nw img sg q
  proof -
    have "9 \<le> length (job_Name (setJobPackage nw img sg q ?job))"
      by (simp add: setJobPackage_def createInterruptJobFromPackage_def createInterruptPodForPackage_def jobFromPod_def Let_def
          new_pod_def safe_name_long)
    moreover have "length (job_Name old_job) = 3" by (simp add: old_job_def)
    ultimately have "length (job_Name (setJobPackage nw img sg q ?job)) \<noteq> length (job_Name old_job)" by linarith
    then show ?thesis by metis
  qed
  then show ?thesis
    using idle st1 by (simp add: reboot_pass_def Interrupt_run_def start_job_def create_job_def Let_def split_beta)
qed

theorem interrupt_alone_witness:
  "length (ex_jobs (snd (fst reboot_pass))) = 2 \<and> jobFinished old_job"
proof -
  have ns: "job_Namespace old_job = opt_Namespace (xe_opts sample_exec)"
    by (simp add: old_job_def sample_job_def sample_exec_def sample_options_def)
  have "jobFinished old_job"
    by (rule interrupt_alone [of sample_exec sample_package "Some \<lparr>int_Type = REBOOT, int_Services = []\<rparr>" StageInterrupt sample_skyhookNode
          sample_skyhook "one_job old_job" "fst reboot_pass" "snd reboot_pass"])
      (use reboot_pass_started ns in \<open>simp_all add: one_job_def reboot_pass_def\<close>, simp_all add: old_job_def)
  then show ?thesis using reboot_pass_started by simp
qed

definition sample_set :: "skyhookNode \<Rightarrow> skyhookNodes" where
  "sample_set node =
     \<lparr>sh_skyhook = sample_skyhook, sh_nodes = [\<lparr>cn_node = node, cn_Updated = False\<rparr>], priorStatus = StatusUnknown,
      compartments = [], deploymentPolicy = None\<rparr>"

definition live_sample :: Job where
  "live_sample = old_job\<lparr>job_Conditions := []\<rparr>"

theorem pause_resume_witness:
  "map (js_Suspend \<circ> job_Spec) (ex_jobs (fst (suspendUnfinishedJobs sample_exec (sample_set sample_skyhookNode) (one_job live_sample)))) = [True] \<and>
   ex_jobs (fst (resumeSuspendedJobs sample_exec (sample_set sample_skyhookNode)
     (fst (suspendUnfinishedJobs sample_exec (sample_set sample_skyhookNode) (one_job live_sample))))) = [live_sample]"
proof -
  let ?s = "sample_set sample_skyhookNode"
  let ?p = "suspendUnfinishedJobs sample_exec ?s (one_job live_sample)"
  let ?r = "resumeSuspendedJobs sample_exec ?s (fst ?p)"
  have job: "ex_jobs (one_job live_sample) = [live_sample]" by (simp add: one_job_def)
  have live: "live_job sample_exec ?s live_sample" "readable live_sample" "\<not> js_Suspend (job_Spec live_sample)"
    by (simp_all add: live_job_def readable_def live_sample_def old_job_def sample_job_def sample_exec_def sample_options_def sample_set_def
        jobFinished_def hasJobCondition_def jobFailure_def IsInvalidPackage_def GetPackage_def)
  have enabled: "\<not> sh_IsDisabled ?s" by code_simp
  have "ex_jobs (fst ?p) = map (\<lambda>j. if live_job sample_exec ?s j then set_suspended True j else j) (ex_jobs (one_job live_sample)) \<and>
      ex_jobs (fst ?r) = (if sh_IsDisabled ?s then ex_jobs (fst ?p) else ex_jobs (one_job live_sample))"
    using pause_resume [of sample_exec "one_job live_sample" ?s "fst ?p" "snd ?p" "fst ?r" "snd ?r"]
    by (simp add: job live)
  then show ?thesis using enabled live by (simp add: job)
qed





end
