(* ===== verification/Pass.thy ===== *)
theory Pass
  imports Execution
begin

text \<open>
  A pass of the operator over the resources: saving nodes and resource (\<open>SaveNodesAndSkyhook\<close>), running the packages of a
  resource on its nodes (\<open>RunSkyhookPackages\<close>) and going through the resources in order (\<open>processSkyhooksPerNode\<close>), from
  \<open>operator/internal/controller/skyhook_controller.go\<close>.

  The nodes of the API server are kept with their resource versions, next to the Jobs and the stored status of the
  resources.  The tracker's snapshot of a node and what the API server does in a request are parameters.
  Merging the services of several packages into one interrupt changes the interrupt of the first package in memory too;
  nothing but the metadata of later nodes would show it, and it is left out.
\<close>

section \<open>Environment\<close>

record pass_world =
  pw_exec :: exec_state
  pw_nodes :: "(string, versioned) gomap"
  pw_status :: "(string, NodeWrightStatus) gomap"

text \<open>\<open>pe_api\<close> is the API server as the save of a node meets it, by resource and node; \<open>pe_drain\<close> are the pods of a node.\<close>

record pass_env =
  pe_exec :: exec_env
  pe_drain :: "string \<Rightarrow> drain_env"
  pe_api :: "string \<Rightarrow> string \<Rightarrow> api_env"
  pe_original :: "string \<Rightarrow> Node option"
  pe_node_status_ok :: "string \<Rightarrow> bool"
  pe_resource_ok :: "string \<Rightarrow> bool"

abbreviation pe_now :: "pass_env \<Rightarrow> int" where
  "pe_now env \<equiv> xe_now (pe_exec env)"

definition at_node :: "pass_env \<Rightarrow> string \<Rightarrow> exec_env" where
  "at_node env name = (pe_exec env)\<lparr>xe_drain := pe_drain env name\<rparr>"

datatype pass_error =
    NodeSave string patch_error
  | MetadataSave string exec_error
  | NodeStatusSave string
  | ResourceSave
  | StateFailed node_error
  | ChangeFailed change_error
  | ExecFailed exec_error
  | Panicked

section \<open>Saving\<close>

text \<open>The status patch of a node: conditions are merged by type over what the server has.\<close>

definition put_node_condition :: "NodeCondition \<Rightarrow> NodeCondition list \<Rightarrow> NodeCondition list" where
  "put_node_condition c cs =
     (if list_ex (\<lambda>d. nc_Type d = nc_Type c) cs then map (\<lambda>d. if nc_Type d = nc_Type c then c else d) cs else cs @ [c])"

definition merge_conditions :: "NodeCondition list \<Rightarrow> NodeCondition list \<Rightarrow> NodeCondition list \<Rightarrow> NodeCondition list" where
  "merge_conditions base new current = fold put_node_condition (filter (\<lambda>c. c \<notin> set base) new) current"

definition put_cnode :: "string \<Rightarrow> skyhookNode \<Rightarrow> skyhookNodes \<Rightarrow> skyhookNodes" where
  "put_cnode name node s = s\<lparr>sh_nodes := map (\<lambda>c. if cn_Name c = name then c\<lparr>cn_node := node\<rparr> else c) (sh_nodes s)\<rparr>"

definition store_node :: "string \<Rightarrow> versioned option \<Rightarrow> pass_world \<Rightarrow> pass_world" where
  "store_node name server w =
     w\<lparr>pw_nodes := (case server of None \<Rightarrow> gdel name (pw_nodes w) | Some v \<Rightarrow> gput name v (pw_nodes w))\<rparr>"

type_synonym save_acc = "skyhookNodes \<times> pass_world \<times> bool \<times> pass_error list"

definition save_changes :: "pass_env \<Rightarrow> string \<Rightarrow> skyhookNode \<Rightarrow> save_acc \<Rightarrow> save_acc" where
  "save_changes env name node acc =
     (let (s, w, saved, errs) = acc;
          ((server, node1), r) = saveNodeChanges (pe_api env (sh_Name s) name) (pe_original env name) (sh_Name s)
                                   (map_of (pw_nodes w) name, node);
          (ex, m) = UpsertNodeLabelsAnnotationsPackages (pe_exec env) (sh_skyhook s) (sn_Node node1) (pw_exec w);
          s1 = put_cnode name node1 s
      in (if Node_IsComplete (sh_skyhook s) node1 then put_skyhook (RemoveNodePriority name) s1 else s1,
          (store_node name server w)\<lparr>pw_exec := ex\<rparr>, True,
          errs @ (case r of Inl e \<Rightarrow> [NodeSave name e] | Inr _ \<Rightarrow> []) @ (case m of Inl e \<Rightarrow> [MetadataSave name e] | Inr _ \<Rightarrow> [])))"

definition save_conditions :: "pass_env \<Rightarrow> string \<Rightarrow> skyhookNode \<Rightarrow> save_acc \<Rightarrow> save_acc" where
  "save_conditions env name node acc =
     (let (s, w, saved, errs) = acc; node1 = UpdateCondition (pe_now env) (sh_skyhook s) node
      in if \<not> sn_updated node1 then (put_cnode name node1 s, w, saved, errs)
         else
           (case (if pe_node_status_ok env name then map_of (pw_nodes w) name else None) of
              None \<Rightarrow> (put_cnode name node1 s, w, True, errs @ [NodeStatusSave name])
            | Some (current, v) \<Rightarrow>
                (let stored = current\<lparr>n_Conditions :=
                       merge_conditions (n_Conditions (sn_Node node)) (n_Conditions (sn_Node node1)) (n_Conditions current)\<rparr>
                 in (put_cnode name (node1\<lparr>sn_Node := stored\<rparr>) s, store_node name (Some (stored, Suc v)) w, True, errs))))"

definition save_node :: "pass_env \<Rightarrow> string \<Rightarrow> save_acc \<Rightarrow> save_acc" where
  "save_node env name acc =
     (case find_node (fst acc) name of
        None \<Rightarrow> acc
      | Some c \<Rightarrow>
          (let acc1 = (if sn_updated (cn_node c) then save_changes env name (cn_node c) acc else acc)
           in case find_node (fst acc1) name of
                None \<Rightarrow> acc1
              | Some c1 \<Rightarrow>
                  (let (s2, rest) = save_conditions env name (cn_node c1) acc1
                   in (if cn_Updated c1 then put_skyhook touch s2 else s2, rest))))"

definition SaveNodesAndSkyhook :: "pass_env \<Rightarrow> skyhookNodes \<Rightarrow> pass_world \<Rightarrow> save_acc" where
  "SaveNodesAndSkyhook env s w =
     (let (s1, w1, saved, errs) = fold (save_node env) (map cn_Name (sh_nodes s)) (s, w, False, [])
      in if errs \<noteq> [] then (s1, w1, False, errs)
         else
           (let s2 = fst (UpdateCondition_sh (pe_now env) s1)
            in if \<not> Updated (sh_skyhook s2) then (s2, w1, saved, [])
               else if pe_resource_ok env (sh_Name s2)
               then (s2, w1\<lparr>pw_status := gput (sh_Name s2) (sk_Status (sh_skyhook s2)) (pw_status w1)\<rparr>, True, [])
               else (s2, w1, False, [ResourceSave])))"

section \<open>Running packages\<close>

text \<open>How the loops over packages and nodes end: to the last one, having to wait or not; at the first package of a serial
  resource; or with an error.\<close>

datatype loop_end = Ran bool | SerialStop | LoopFailed pass_error

fun run_packages ::
  "exec_env \<Rightarrow> bool \<Rightarrow> (Interrupt \<times> string) option \<Rightarrow> Package list \<Rightarrow> bool \<Rightarrow> work \<Rightarrow> work \<times> loop_end" where
  "run_packages env serial chosen [] requeue w = (w, Ran requeue)"
| "run_packages env serial chosen (f # fs) requeue w =
     (case ProcessInterrupt env f (map_option fst chosen)
             (case chosen of None \<Rightarrow> False | Some (_, pack) \<Rightarrow> p_Name f = pack) w of
        (w1, Inl e) \<Rightarrow> (w1, LoopFailed (ExecFailed e))
      | (w1, Inr False) \<Rightarrow> run_packages env serial chosen fs True w1
      | (w1, Inr True) \<Rightarrow>
          (case ApplyPackage env f w1 of
             (w2, Inl e) \<Rightarrow> (w2, LoopFailed (ExecFailed e))
           | (w2, Inr _) \<Rightarrow> if serial then (w2, SerialStop) else run_packages env serial chosen fs requeue w2))"

definition to_run :: "Package list \<Rightarrow> skyhookNodes \<Rightarrow> skyhookNode \<Rightarrow> node_error + Package list" where
  "to_run toUninstall s node =
     (case RunNext (sh_skyhook s) node of
        Inl e \<Rightarrow> Inl e
      | Inr next_up \<Rightarrow>
          (case Node_State node of
             Inl e \<Rightarrow> Inl e
           | Inr ns \<Rightarrow>
               Inr (filterUninstallForNode toUninstall ns @
                    filter (\<lambda>p. \<not> shouldSkipApplyForUninstall p ns (being_deleted s)) next_up)))"

text \<open>The wrapper of a node with the resource as its methods see it, and back.\<close>

definition node_work :: "skyhookNodes \<Rightarrow> cnode \<Rightarrow> skyhookNode \<times> Skyhook" where
  "node_work s c = (cn_node c, (sh_skyhook s)\<lparr>Updated := cn_Updated c\<rparr>)"

definition put_work :: "string \<Rightarrow> skyhookNode \<times> Skyhook \<Rightarrow> skyhookNodes \<Rightarrow> skyhookNodes" where
  "put_work name x s =
     s\<lparr>sh_skyhook := (sh_skyhook s)\<lparr>sk_NodeWright := sk_NodeWright (snd x)\<rparr>,
       sh_nodes := map (\<lambda>c. if cn_Name c = name then \<lparr>cn_node = fst x, cn_Updated = Updated (snd x)\<rparr> else c) (sh_nodes s)\<rparr>"

fun run_nodes ::
  "pass_env \<Rightarrow> skyhookNodes list \<Rightarrow> Package list \<Rightarrow> string list \<Rightarrow> bool \<Rightarrow> skyhookNodes \<times> exec_state \<Rightarrow>
   (skyhookNodes \<times> exec_state) \<times> loop_end" where
  "run_nodes env ss toUninstall [] requeue x = (x, Ran requeue)"
| "run_nodes env ss toUninstall (name # names) requeue x =
     (let (s, st) = x
      in case find_node s name of
           None \<Rightarrow> run_nodes env ss toUninstall names requeue x
         | Some c \<Rightarrow>
             if \<not> IsNodeReadyForSkyhook name s ss \<or> (node_complete s c \<and> \<not> sn_updated (cn_node c))
             then run_nodes env ss toUninstall names requeue x
             else
               (case to_run toUninstall s (cn_node c) of
                  Inl e \<Rightarrow> (x, LoopFailed (StateFailed e))
                | Inr ps \<Rightarrow>
                    (let chosen = fudgeInterruptWithPriority ps (GetConfigUpdates (sh_skyhook s)) (GetConfigInterrupts (sh_skyhook s))
                     in case run_packages (at_node env name) (Serial (sh_Spec s)) chosen ps requeue (node_work s c, st) of
                          ((y, st1), Ran r) \<Rightarrow> run_nodes env ss toUninstall names r (put_work name y s, st1)
                        | ((y, st1), e) \<Rightarrow> ((put_work name y s, st1), e))))"

section \<open>A resource\<close>

text \<open>Requeue intervals are in nanoseconds; the pass gives none when there is nothing left to do.\<close>

definition soon :: int where
  "soon = 2 * second"

type_synonym run_result = "int option \<times> pass_error list"

definition RunSkyhookPackages ::
  "pass_env \<Rightarrow> skyhookNodes list \<Rightarrow> NodePicker \<Rightarrow> skyhookNodes \<Rightarrow> pass_world \<Rightarrow>
   NodePicker \<times> skyhookNodes \<times> pass_world \<times> run_result" where
  "RunSkyhookPackages env ss np s w =
     (case HandleUninstallRequests s of
        (s1, Inl e) \<Rightarrow> (np, s1, w, None, [StateFailed e])
      | (s1, Inr explicit) \<Rightarrow>
          (case HandleCancelledUninstalls s1 of
             (s2, Inl e) \<Rightarrow> (np, s2, w, None, [StateFailed e])
           | (s2, Inr _) \<Rightarrow>
               (case HandleVersionChange s2 of
                  (s3, Inl e) \<Rightarrow> (np, s3, w, None, [ChangeFailed e])
                | (s3, Inr changes) \<Rightarrow>
                    (let (s4, changed) = IntrospectSkyhook (pe_now env) ss s3
                     in if \<not> changed \<and> sh_IsComplete s4 then (np, s4, w, None, [])
                        else
                          (case SelectNodes (pe_now env) np s4 of
                             None \<Rightarrow> (np, s4, w, None, [Panicked])
                           | Some (np1, s5, names) \<Rightarrow>
                               (case run_nodes env ss (explicit @ changes) names False (s5, pw_exec w) of
                                  ((s6, st), LoopFailed e) \<Rightarrow> (np1, s6, w\<lparr>pw_exec := st\<rparr>, None, [e])
                                | ((s6, st), SerialStop) \<Rightarrow> (np1, s6, w\<lparr>pw_exec := st\<rparr>, Some soon, [])
                                | ((s6, st), Ran requeue) \<Rightarrow>
                                    (let (s7, w1, saved, errs) = SaveNodesAndSkyhook env s6 (w\<lparr>pw_exec := st\<rparr>)
                                     in if errs \<noteq> [] then (np1, s7, w1, Some 0, errs)
                                        else (np1, s7, w1, (if \<not> sh_IsComplete s7 \<or> requeue \<or> saved then Some soon else None), []))))))))"

section \<open>The resources in order\<close>

definition hasReadyNodesForSkyhook :: "skyhookNodes \<Rightarrow> skyhookNodes list \<Rightarrow> node_error + bool" where
  "hasReadyNodesForSkyhook s ss =
     (case HasUninstallWork s of
        Inl e \<Rightarrow> Inl e
      | Inr pending \<Rightarrow>
          Inr (list_ex (\<lambda>c. \<not> (node_complete s c \<and> \<not> pending) \<and> IsNodeReadyForSkyhook (cn_Name c) s ss) (sh_nodes s)))"

text \<open>Whether the turn of a resource has come, or the error that skips it.\<close>

definition has_turn :: "skyhookNodes \<Rightarrow> skyhookNodes list \<Rightarrow> node_error + bool" where
  "has_turn s ss =
     (if sh_IsDisabled s \<or> sh_IsPaused s then Inr False
      else
        (case HasUninstallWork s of
           Inl e \<Rightarrow> Inl e
         | Inr hasWork \<Rightarrow> if sh_IsComplete s \<and> \<not> hasWork then Inr False else hasReadyNodesForSkyhook s ss))"

text \<open>\<open>earlier\<close> are the resources that have had their turn, as the pass has left them.\<close>

fun process_resources ::
  "pass_env \<Rightarrow> NodePicker \<Rightarrow> skyhookNodes list \<Rightarrow> skyhookNodes list \<Rightarrow> pass_world \<Rightarrow> run_result \<Rightarrow>
   skyhookNodes list \<times> pass_world \<times> run_result" where
  "process_resources env np earlier [] w res = (earlier, w, res)"
| "process_resources env np earlier (s # later) w res =
     (case has_turn s (earlier @ s # later) of
        Inl e \<Rightarrow> process_resources env np (earlier @ [s]) later w (fst res, snd res @ [StateFailed e])
      | Inr False \<Rightarrow> process_resources env np (earlier @ [s]) later w res
      | Inr True \<Rightarrow>
          (let (np1, s1, w1, r, errs) = RunSkyhookPackages env (earlier @ s # later) np s w
           in process_resources env np1 (earlier @ [s1]) later w1
                (case r of None \<Rightarrow> fst res | Some t \<Rightarrow> Some t, snd res @ errs)))"

definition processSkyhooksPerNode ::
  "pass_env \<Rightarrow> NodePicker \<Rightarrow> skyhookNodes list \<Rightarrow> pass_world \<Rightarrow> skyhookNodes list \<times> pass_world \<times> run_result" where
  "processSkyhooksPerNode env np ss w = process_resources env np [] ss w (None, [])"

definition shouldReturn :: "bool \<Rightarrow> pass_error list \<Rightarrow> run_result option" where
  "shouldReturn updates errs = (if errs \<noteq> [] then Some (Some 0, errs) else if updates then Some (Some soon, []) else None)"

definition configSyncRetryInterval :: int where
  "configSyncRetryInterval = 30 * second"

definition reconcileResult :: "int option \<Rightarrow> bool \<Rightarrow> int \<Rightarrow> int" where
  "reconcileResult result configSyncPending maxInterval =
     (case result of Some t \<Rightarrow> t | None \<Rightarrow> if configSyncPending then configSyncRetryInterval else maxInterval)"

section \<open>What the steps on a node leave alone\<close>

definition same_target :: "skyhookNode \<times> Skyhook \<Rightarrow> skyhookNode \<times> Skyhook \<Rightarrow> bool" where
  "same_target x y \<longleftrightarrow>
     n_Name (sn_Node (fst x)) = n_Name (sn_Node (fst y)) \<and> nw_Name (sk_NodeWright (snd x)) = nw_Name (sk_NodeWright (snd y)) \<and>
     sk_Spec (snd x) = sk_Spec (snd y)"

lemma same_target_refl [simp, intro!]: "same_target x x"
  by (simp add: same_target_def)

lemma same_target_trans [trans]: "same_target x y \<Longrightarrow> same_target y z \<Longrightarrow> same_target x z"
  by (simp add: same_target_def)

lemma SetNode_resource [simp]:
  "nw_Name (sk_NodeWright (SetNodeState n ns k)) = nw_Name (sk_NodeWright k)"
  "nw_Name (sk_NodeWright (SetNodeStatus n st k)) = nw_Name (sk_NodeWright k)"
  by (simp_all add: SetNodeState_def SetNodeStatus_def put_status_def touch_def Let_def split: option.splits)

lemma condition_name [simp]: "nw_Name (sk_NodeWright (fst (AddSkyhookConditionWithLegacy now c k))) = nw_Name (sk_NodeWright k)"
  by (simp add: AddSkyhookConditionWithLegacy_def AddSkyhookCondition_def add_condition_def put_status_def Let_def split_beta)

lemma SetStatus_target: "Node_SetStatus st (node, Some k) = (node', sk') \<Longrightarrow> same_target (node', the sk') (node, k) \<and> sk' \<noteq> None"
  by (auto simp: Node_SetStatus_def Let_def same_target_def)

lemma upsert_target: "same_target (upsert p state stage x) x"
  by (cases x) (auto simp: upsert_def Node_Upsert_def Let_def same_target_def split: prod.splits)

lemma Progress_target: "same_target (Node_ProgressSkipped k node) (node, k)"
  by (auto simp: Node_ProgressSkipped_def Let_def same_target_def split: prod.splits)

lemma condition_target: "same_target (node, apply_condition env p node' k) (node, k)"
  by (simp add: apply_condition_def same_target_def)

lemma drain_marks_name [simp]:
  "n_Name (sn_Node (StartDrain z t node)) = n_Name (sn_Node node)" "n_Name (sn_Node (ClearDrainStart node)) = n_Name (sn_Node node)"
  "n_Name (sn_Node (fst (Cordon node))) = n_Name (sn_Node node)"
  by (auto simp: StartDrain_def ClearDrainStart_def Cordon_def del_annotation_def Let_def)

lemma DrainNode_target: "same_target (fst (DrainNode env x)) x"
proof -
  obtain node k where x: "x = (node, k)" by (cases x)
  have err: "same_target (case Node_SetStatus StatusErroring (node, Some k) of (n, s) \<Rightarrow> (n, the s)) (node, k)"
    using SetStatus_target [of StatusErroring node k] by (auto split: prod.split)
  have "same_target (case Node_SetStatus StatusInProgress (StartDrain z t node, Some k) of (n, s) \<Rightarrow> (n, the s)) (StartDrain z t node, k)" for z t
    using SetStatus_target [of StatusInProgress "StartDrain z t node" k] by (auto split: prod.split)
  then have prog: "same_target (case Node_SetStatus StatusInProgress (StartDrain z t node, Some k) of (n, s) \<Rightarrow> (n, the s)) (node, k)" for z t
    by (rule same_target_trans) (simp add: same_target_def)
  show ?thesis using err prog
    by (auto simp: DrainNode_def x Let_def split: sum.split bool.split option.split prod.split) (simp_all add: same_target_def)
qed

lemma ensure_ready_target: "same_target (fst (fst (ensure_ready env w))) (fst w)"
proof -
  have "same_target (fst (EnsureNodeIsReadyForInterrupt d x)) x" for d x
  proof -
    obtain node k where x: "x = (node, k)" by (cases x)
    obtain node1 c where C: "Cordon node = (node1, c)" by (cases "Cordon node")
    then have n: "n_Name (sn_Node node1) = n_Name (sn_Node node)" by (metis drain_marks_name(3) fst_conv)
    have "same_target (fst (DrainNode d (node1, k))) (node1, k)" by (rule DrainNode_target)
    then have "same_target (fst (DrainNode d (node1, k))) (node, k)" using n by (simp add: same_target_def)
    then show ?thesis using n
      by (auto simp: EnsureNodeIsReadyForInterrupt_def x C same_target_def split: sum.split bool.split)
  qed
  moreover obtain x d r where E: "EnsureNodeIsReadyForInterrupt (xe_drain env) (fst w) = (x, d, r)"
    by (cases "EnsureNodeIsReadyForInterrupt (xe_drain env) (fst w)")
  ultimately have "same_target x (fst w)" by (metis fst_conv)
  then show ?thesis by (cases r) (simp_all add: ensure_ready_def E)
qed

lemma Interrupt_target: "same_target (fst (fst (Interrupt_run env p i stage w))) (fst w)"
proof -
  obtain node sk st where w: "w = ((node, sk), st)" by (cases w) auto
  show ?thesis using upsert_target
    by (auto simp: Interrupt_run_def w Let_def split: prod.split sum.split option.split bool.split)
qed

lemma Apply_target: "same_target (fst (fst (ApplyPackage env p w))) (fst w)"
proof -
  obtain node sk st where w: "w = ((node, sk), st)" by (cases w) auto
  have "same_target (node2, apply_condition env p node2 (the sk2)) (node, sk)"
    if "upsert p s stage (node, sk) = (node1, sk1)" "Node_SetStatus StatusInProgress (node1, Some sk1) = (node2, sk2)" for s stage node1 sk1 node2 sk2
    using condition_target SetStatus_target [OF that(2)] upsert_target [of p s stage "(node, sk)"] that(1) by (metis same_target_trans)
  then show ?thesis
    by (auto simp: ApplyPackage_def w Let_def split: prod.split sum.split bool.split)
qed

section \<open>The resource of a pass stays the same\<close>

definition whose :: "skyhookNodes \<Rightarrow> string \<times> NodeWrightSpec" where
  "whose s = (sh_Name s, sh_Spec s)"

lemma whose_work: "same_work (sh_skyhook s) (sh_skyhook s') \<Longrightarrow> whose s = whose s'"
  by (simp add: whose_def same_work_def)

lemma whose_nodes: "same_nodes s s' \<Longrightarrow> whose s' = whose s"
  by (simp add: whose_def same_nodes_def same_work_def)

lemma whose_framed: "framed s s' \<Longrightarrow> whose s' = whose s"
  by (simp add: whose_def framed_def same_work_def)

lemma whose_put:
  "nw_Name (sk_NodeWright (f (sh_skyhook s))) = sh_Name s \<Longrightarrow> sk_Spec (f (sh_skyhook s)) = sh_Spec s \<Longrightarrow> whose (put_skyhook f s) = whose s"
  by (simp add: whose_def put_skyhook_def)

lemma whose_on_node:
  assumes "\<And>node k node' k'. f (node, Some k) = (node', Some k') \<Longrightarrow> nw_Name (sk_NodeWright k') = nw_Name (sk_NodeWright k) \<and> sk_Spec k' = sk_Spec k"
  shows "whose (on_node f x s) = whose s"
  using assms by (auto simp: on_node_def whose_def Let_def split: option.split prod.split)

lemma whose_node_steps [simp]:
  "whose (set_node_status st x s) = whose s"
  "whose (upsert_node p state stage x s) = whose s"
  "whose (remove_node_state p x s) = whose s"
  by (auto simp: set_node_status_def intro!: whose_on_node)
    (auto simp: Node_SetStatus_def Node_Upsert_def Let_def split: prod.splits if_splits)

lemma whose_config [simp]: "whose (put_skyhook (RemoveConfigUpdates n) s) = whose s"
  by (rule whose_put) (simp_all add: RemoveConfigUpdates_def put_status_def Let_def split: option.split)

lemma over_nodes_keeps: "(\<And>x s a. P s \<Longrightarrow> P (fst (body x s a))) \<Longrightarrow> P s \<Longrightarrow> P (fst (over_nodes body xs s a))"
proof (induction xs arbitrary: s a)
  case (Cons x xs)
  then show ?case by (auto split: prod.split sum.split) (metis fst_conv)+
qed simp

lemma whose_uninstall: "whose (fst (HandleUninstallRequests s)) = whose s"
proof -
  have step: "whose (fst (uninstall_package d x st kp acc)) = whose (fst acc)" for d x st kp acc
    by (simp add: uninstall_package_def Let_def split: prod.split option.split)
  have "whose (fst (fold (uninstall_package d x st) pk acc)) = whose (fst acc)" for d x st pk acc
    by (induction pk arbitrary: acc) (simp_all add: step)
  then have "whose (fst (uninstall_node d pk x t a)) = whose t" for d pk x t a
    by (simp add: uninstall_node_def split_beta split: sum.split)
  then show ?thesis
    unfolding HandleUninstallRequests_def by (intro over_nodes_keeps [where P = "\<lambda>t. whose t = whose s"]) simp_all
qed

lemma whose_cancel: "whose (fst (HandleCancelledUninstalls s)) = whose s"
proof -
  have "whose (cancel_entry d pk x k v t) = whose t" for d pk x k v t
    by (simp add: cancel_entry_def split: option.split)
  then have "whose (grange (cancel_entry d pk x) look ks t) = whose t" for d pk x look ks t
    using grange_invariant [where P = "\<lambda>t'. whose t' = whose t" and body = "cancel_entry d pk x"] by simp
  then have "whose (fst (cancel_node d pk x t a)) = whose t" for d pk x t a
    by (simp add: cancel_node_def split: sum.split)
  then show ?thesis
    unfolding HandleCancelledUninstalls_def by (intro over_nodes_keeps [where P = "\<lambda>t. whose t = whose s"]) simp_all
qed

lemma whose_reset: "whose (resetSkyhookBatchState s) = whose s"
proof -
  have "nw_Name (fst (ResetCompartmentBatchStates nw)) = nw_Name nw" "nw_Spec (fst (ResetCompartmentBatchStates nw)) = nw_Spec nw" for nw
    by (simp_all add: ResetCompartmentBatchStates_def split: option.split list.split)
  then show ?thesis by (simp add: resetSkyhookBatchState_def whose_def put_skyhook_def Let_def touch_def split_beta)
qed

lemma whose_version: "whose (fst (HandleVersionChange s)) = whose s"
proof -
  have "whose (fst (version_entry pk x st k v acc)) = whose (fst acc)" for pk x st k v acc
    by (simp add: version_entry_def Let_def split: prod.split option.split)
  then have "whose (fst (grange (version_entry pk x st) look ks acc)) = whose (fst acc)" for pk x st look ks acc
    using grange_invariant [where P = "\<lambda>a. whose (fst a) = whose (fst acc)" and body = "version_entry pk x st"] by simp
  then have "whose (fst (version_node pk x t a)) = whose t" for pk x t a
    by (simp add: version_node_def split_beta split: sum.split)
  then have "whose (fst (over_nodes (version_node pk) xs s a)) = whose s" for pk xs a
    by (intro over_nodes_keeps [where P = "\<lambda>t. whose t = whose s"]) simp_all
  then show ?thesis
    unfolding HandleVersionChange_def by (auto simp: whose_reset split: prod.split sum.split) (metis fst_conv)+
qed

lemma whose_introspect: "whose (fst (IntrospectSkyhook now ss s)) = whose s"
proof -
  have st: "whose (sh_SetStatus st s) = whose s" for st
    by (auto simp: sh_SetStatus_def Let_def whose_reset intro!: whose_put) (simp_all add: whose_def SetStatus_def put_skyhook_def put_status_def touch_def Let_def)
  show ?thesis
    unfolding IntrospectSkyhook_def Let_def split_beta
    by (simp add: whose_nodes [OF UpdateCondition_same] whose_nodes [OF evaluate_same] whose_nodes [OF prune_same]
        whose_framed [OF introspect_framed [unfolded Let_def split_beta]] st)
qed

lemma whose_select: "SelectNodes now np s = Some (np', s', names) \<Longrightarrow> whose s' = whose s"
proof -
  have pick: "whose (snd (upsertPick now n x)) = whose (snd x)" for n x
    by (auto simp: upsertPick_def Let_def split_beta split: option.split intro!: whose_put) (simp_all add: put_status_def touch_def)
  have picks: "whose (snd (fold (upsertPick now) ns x)) = whose (snd x)" for ns x
    by (induction ns arbitrary: x) (simp_all add: pick)
  have "pick_batches now tols ws x sel = Some (np', s', names) \<Longrightarrow> whose s' = whose (snd x)" for tols ws x sel np' s' names
    by (induction ws arbitrary: x sel) (auto simp: Let_def picks split: option.splits)
  moreover have "whose (updateIgnoredNodesCondition now ns t) = whose t" "whose (updateTaintToleranceCondition now ns t) = whose t" for ns t
    by (auto simp: updateIgnoredNodesCondition_def updateTaintToleranceCondition_def set_condition_legacy_def
        intro!: whose_put)
  moreover have "whose (fst (fold (scan_node tols) ns x)) = whose (fst x)" for tols ns x
    by (rule whose_framed [OF scan_framed])
  moreover have "whose (snd (primeAndPruneNodes np s)) = whose s"
    by (simp add: primeAndPruneNodes_def Let_def whose_nodes [OF prune_same])
  moreover assume "SelectNodes now np s = Some (np', s', names)"
  ultimately show ?thesis
    by (auto simp: SelectNodes_def selectNodesWithCompartments_def Let_def split_beta)
qed

section \<open>Where a pass starts Jobs\<close>

text \<open>All Jobs that were not there before, by name and labels, have a property.\<close>

definition only_adds :: "(Job \<Rightarrow> bool) \<Rightarrow> Job list \<Rightarrow> Job list \<Rightarrow> bool" where
  "only_adds P js ks \<longleftrightarrow> (\<forall>k \<in> set ks. P k \<or> (\<exists>j \<in> set js. job_Name j = job_Name k \<and> job_Labels j = job_Labels k))"

lemma only_adds_refl [simp, intro!]: "only_adds P js js"
  by (auto simp: only_adds_def)

lemma only_adds_trans:
  assumes "\<And>j k. P j \<Longrightarrow> job_Labels j = job_Labels k \<Longrightarrow> P k"
  shows "only_adds P a b \<Longrightarrow> only_adds P b c \<Longrightarrow> only_adds P a c"
  unfolding only_adds_def using assms by metis

lemma only_adds_mono: "only_adds P a b \<Longrightarrow> (\<And>k. P k \<Longrightarrow> Q k) \<Longrightarrow> only_adds Q a b"
  unfolding only_adds_def by blast

lemma evolves_only_adds: "evolves js ks \<Longrightarrow> only_adds P js ks"
proof -
  assume "evolves js ks"
  then have "\<forall>k \<in> set ks. \<exists>j \<in> set js. job_Name j = job_Name k \<and> job_Labels j = job_Labels k"
    by (induction rule: evolves.induct) (auto simp: calm_def)
  then show ?thesis by (auto simp: only_adds_def)
qed

definition placed :: "string \<Rightarrow> string \<Rightarrow> Job \<Rightarrow> bool" where
  "placed resource name j \<longleftrightarrow>
     map_of (job_Labels j) name_label = Some resource \<and> map_of (job_Labels j) node_label = Some (nodeLabelValue name)"

lemma work_job_placed: "work_job env p sk name j \<Longrightarrow> placed (sk_Name sk) name j"
  by (simp add: work_job_def runner_key_def placed_def)

lemma start_adds:
  assumes "work_job env p sk name (setJobPackage (sk_NodeWright sk) (p_Image p) stage p job)"
  shows "only_adds (placed (sk_Name sk) name) (ex_jobs st) (ex_jobs (fst (start_job env job p node sk stage st)))"
proof -
  let ?want = "setJobPackage (sk_NodeWright sk) (p_Image p) stage p job"
  have "only_adds (placed (sk_Name sk) name) (ex_jobs st) (ex_jobs (fst (handleExistingJob env ?want p node sk stage st)))"
    by (rule evolves_only_adds [OF handleExisting_evolves])
  moreover have "only_adds (placed (sk_Name sk) name) (ex_jobs st) (ex_jobs st @ [?want])"
    using work_job_placed [OF assms] by (auto simp: only_adds_def)
  ultimately show ?thesis
    by (auto simp: start_job_def create_job_def Let_def split: prod.split sum.split)
qed

lemma Interrupt_adds:
  "only_adds (placed (sk_Name (snd (fst w))) (n_Name (sn_Node (fst (fst w))))) (ex_jobs (snd w)) (ex_jobs (snd (fst (Interrupt_run env p i stage w))))"
proof -
  obtain node sk st where w: "w = ((node, sk), st)" by (cases w) auto
  have "only_adds (placed (sk_Name sk) (n_Name (sn_Node node))) (ex_jobs st) (ex_jobs st2)"
    if "UpsertNodeLabelsAnnotationsPackages env sk (sn_Node node) st = (st1, u)"
      and "start_job env (createInterruptJobFromPackage (xe_opts env) j (ToArgs j) p sk (n_Name (sn_Node node)) stage) p node sk stage st1 = (st2, r)"
    for st1 st2 u r j
  proof -
    have "only_adds (placed (sk_Name sk) (n_Name (sn_Node node))) (ex_jobs st1) (ex_jobs (fst (start_job env
        (createInterruptJobFromPackage (xe_opts env) j (ToArgs j) p sk (n_Name (sn_Node node)) stage) p node sk stage st1)))"
      by (rule start_adds [OF work_job_built(2)])
    then show ?thesis using metadata_result(1) [OF that(1)] that(2) by simp
  qed
  then show ?thesis using metadata_result(1)
    by (auto simp: w Interrupt_run_def Let_def split: prod.split sum.split option.split bool.split)
qed

lemma Apply_adds:
  "only_adds (placed (sk_Name (snd (fst w))) (n_Name (sn_Node (fst (fst w))))) (ex_jobs (snd w)) (ex_jobs (snd (fst (ApplyPackage env p w))))"
proof -
  obtain node sk st where w: "w = ((node, sk), st)" by (cases w) auto
  let ?stage = "apply_stage sk node p"
  have "only_adds (placed (sk_Name sk) (n_Name (sn_Node node))) (ex_jobs st) (ex_jobs st2)"
    if "UpsertNodeLabelsAnnotationsPackages env sk (sn_Node node) st = (st1, u)"
      and "start_job env (createJobFromPackage (xe_opts env) p sk (n_Name (sn_Node node)) ?stage) p node sk ?stage st1 = (st2, r)"
    for st1 st2 u r
  proof -
    have "only_adds (placed (sk_Name sk) (n_Name (sn_Node node))) (ex_jobs st1) (ex_jobs (fst (start_job env
        (createJobFromPackage (xe_opts env) p sk (n_Name (sn_Node node)) ?stage) p node sk ?stage st1)))"
      by (rule start_adds [OF work_job_built(1)])
    then show ?thesis using metadata_result(1) [OF that(1)] that(2) by simp
  qed
  then show ?thesis using metadata_result(1)
    by (auto simp: w ApplyPackage_def Let_def split: prod.split sum.split bool.split)
qed

lemma placed_trans: "only_adds (placed r n) a b \<Longrightarrow> only_adds (placed r n) b c \<Longrightarrow> only_adds (placed r n) a c"
  by (rule only_adds_trans) (auto simp: placed_def)

definition on_target :: "work \<Rightarrow> work \<Rightarrow> bool" where
  "on_target w0 w \<longleftrightarrow> same_target (fst w) (fst w0) \<and>
     only_adds (placed (sk_Name (snd (fst w0))) (n_Name (sn_Node (fst (fst w0))))) (ex_jobs (snd w0)) (ex_jobs (snd w))"

lemma on_target_step:
  assumes "on_target w0 w" and "same_target (fst w') (fst w)"
    and "only_adds (placed (sk_Name (snd (fst w))) (n_Name (sn_Node (fst (fst w))))) (ex_jobs (snd w)) (ex_jobs (snd w'))"
  shows "on_target w0 w'"
proof -
  have "sk_Name (snd (fst w)) = sk_Name (snd (fst w0))" "n_Name (sn_Node (fst (fst w))) = n_Name (sn_Node (fst (fst w0)))"
    using assms(1) by (simp_all add: on_target_def same_target_def)
  moreover have "same_target (fst w') (fst w0)" using assms(1,2) same_target_trans by (auto simp: on_target_def)
  ultimately show ?thesis using assms(1,3) placed_trans by (auto simp: on_target_def)
qed

lemma Process_on_target: "on_target w0 w \<Longrightarrow> on_target w0 (fst (ProcessInterrupt env p i b w))"
proof (rule Process_keeps)
  show "on_target w0 (fst (Interrupt_run env p i stage w))" if "on_target w0 w" for w stage
    using that Interrupt_target Interrupt_adds by (rule on_target_step)
  show "on_target w0 (fst (ensure_ready env w))" if "on_target w0 w" for w
    using that ensure_ready_target by (rule on_target_step) (simp add: ready_jobs)
  show "on_target w0 (upsert p state stage x, st)" if "on_target w0 (x, st)" for x st state stage
    by (rule on_target_step [OF that]) (simp_all add: upsert_target)
  show "on_target w0 (Node_ProgressSkipped sk node, st)" if "on_target w0 ((node, sk), st)" for node sk st
    by (rule on_target_step [OF that]) (simp_all add: Progress_target)
qed

lemma Apply_on_target: "on_target w0 w \<Longrightarrow> on_target w0 (fst (ApplyPackage env p w))"
  by (rule on_target_step [OF _ Apply_target Apply_adds])

lemma run_packages_on_target: "on_target w0 w \<Longrightarrow> on_target w0 (fst (run_packages env serial chosen ps requeue w))"
proof (induction ps arbitrary: requeue w)
  case (Cons f fs)
  let ?run = "case chosen of None \<Rightarrow> False | Some (_, pack) \<Rightarrow> p_Name f = pack"
  obtain w1 r1 where P: "ProcessInterrupt env f (map_option fst chosen) ?run w = (w1, r1)" by fastforce
  obtain w2 r2 where A: "ApplyPackage env f w1 = (w2, r2)" by fastforce
  have t1: "on_target w0 w1" using Process_on_target [OF Cons.prems, of env f "map_option fst chosen" ?run] by (simp add: P)
  have t2: "on_target w0 w2" using Apply_on_target [OF t1, of env f] by (simp add: A)
  have "on_target w0 (fst (run_packages env serial chosen fs True w1))" "on_target w0 (fst (run_packages env serial chosen fs requeue w2))"
    by (rule Cons.IH [OF t1], rule Cons.IH [OF t2])
  with t1 t2 show ?case by (cases serial) (simp_all add: P A split: sum.split bool.split)
qed simp

lemma ready_whose: "whose s = whose t \<Longrightarrow> IsNodeReadyForSkyhook n s ss = IsNodeReadyForSkyhook n t ss"
  by (simp add: IsNodeReadyForSkyhook_def comes_before_def whose_def)

lemma put_work_whose: "same_target y (node_work s c) \<Longrightarrow> whose (put_work name y s) = whose s"
  by (simp add: same_target_def node_work_def put_work_def whose_def)

definition ready_place :: "skyhookNodes \<Rightarrow> skyhookNodes list \<Rightarrow> Job \<Rightarrow> bool" where
  "ready_place s ss j \<longleftrightarrow> (\<exists>n. IsNodeReadyForSkyhook n s ss \<and> placed (sh_Name s) n j)"

lemma ready_place_trans:
  "only_adds (ready_place s ss) a b \<Longrightarrow> only_adds (ready_place s ss) b c \<Longrightarrow> only_adds (ready_place s ss) a c"
  by (rule only_adds_trans) (auto simp: ready_place_def placed_def)

definition works_on :: "skyhookNodes list \<Rightarrow> skyhookNodes \<Rightarrow> cnode \<Rightarrow> bool" where
  "works_on ss s c \<longleftrightarrow> IsNodeReadyForSkyhook (cn_Name c) s ss \<and> (node_complete s c \<longrightarrow> sn_updated (cn_node c))"

definition node_run :: "pass_env \<Rightarrow> skyhookNodes \<Rightarrow> cnode \<Rightarrow> Package list \<Rightarrow> bool \<Rightarrow> exec_state \<Rightarrow> work \<times> loop_end" where
  "node_run env s c ps requeue st =
     run_packages (at_node env (cn_Name c)) (Serial (sh_Spec s))
       (fudgeInterruptWithPriority ps (GetConfigUpdates (sh_skyhook s)) (GetConfigInterrupts (sh_skyhook s))) ps requeue (node_work s c, st)"

lemma run_nodes_simps:
  "find_node s name = None \<Longrightarrow> run_nodes env ss tu (name # names) requeue (s, st) = run_nodes env ss tu names requeue (s, st)"
  "find_node s name = Some c \<Longrightarrow> \<not> works_on ss s c \<Longrightarrow>
     run_nodes env ss tu (name # names) requeue (s, st) = run_nodes env ss tu names requeue (s, st)"
  "find_node s name = Some c \<Longrightarrow> works_on ss s c \<Longrightarrow> to_run tu s (cn_node c) = Inl e \<Longrightarrow>
     run_nodes env ss tu (name # names) requeue (s, st) = ((s, st), LoopFailed (StateFailed e))"
  "find_node s name = Some c \<Longrightarrow> works_on ss s c \<Longrightarrow> to_run tu s (cn_node c) = Inr ps \<Longrightarrow>
     node_run env s c ps requeue st = ((y, st1), end) \<Longrightarrow>
     run_nodes env ss tu (name # names) requeue (s, st) =
       (case end of Ran r \<Rightarrow> run_nodes env ss tu names r (put_work name y s, st1) | _ \<Rightarrow> ((put_work name y s, st1), end))"
  using find_node_Some [of s name c] by (auto simp: works_on_def node_run_def Let_def split: loop_end.split)

lemma node_run_adds:
  assumes "find_node s name = Some c" and "works_on ss s c" and "node_run env s c ps requeue st = ((y, st1), e)" and "whose s = whose s0"
  shows "whose (put_work name y s) = whose s0 \<and> only_adds (ready_place s0 ss) (ex_jobs st) (ex_jobs st1)"
proof -
  let ?w = "(node_work s c, st)"
  let ?chosen = "fudgeInterruptWithPriority ps (GetConfigUpdates (sh_skyhook s)) (GetConfigInterrupts (sh_skyhook s))"
  have c: "cn_Name c = name" using find_node_Some [OF assms(1)] by simp
  have "on_target ?w (fst (run_packages (at_node env (cn_Name c)) (Serial (sh_Spec s)) ?chosen ps requeue ?w))"
    by (rule run_packages_on_target) (simp add: on_target_def)
  then have "on_target ?w (y, st1)" using assms(3) by (simp add: node_run_def)
  then have t: "same_target y (node_work s c)" and a: "only_adds (placed (sh_Name s) name) (ex_jobs st) (ex_jobs st1)"
    using c by (simp_all add: on_target_def node_work_def)
  have "sh_Name s = sh_Name s0" using assms(4) by (simp add: whose_def)
  then have "ready_place s0 ss k" if "placed (sh_Name s) name k" for k
    using that assms(2) c ready_whose [OF assms(4)] by (auto simp: ready_place_def works_on_def)
  then have "only_adds (ready_place s0 ss) (ex_jobs st) (ex_jobs st1)" by (rule only_adds_mono [OF a])
  then show ?thesis using put_work_whose [OF t] assms(4) by simp
qed

lemma run_nodes_adds:
  "whose s = whose s0 \<Longrightarrow> whose (fst (fst (run_nodes env ss tu names requeue (s, st)))) = whose s0 \<and>
    only_adds (ready_place s0 ss) (ex_jobs st) (ex_jobs (snd (fst (run_nodes env ss tu names requeue (s, st)))))"
proof (induction names arbitrary: requeue s st)
  case (Cons name names)
  show ?case
  proof (cases "find_node s name")
    case None
    with Cons show ?thesis by (simp add: run_nodes_simps(1) del: run_nodes.simps)
  next
    case (Some c)
    show ?thesis
    proof (cases "works_on ss s c")
      case False
      with Some Cons show ?thesis by (simp add: run_nodes_simps(2) del: run_nodes.simps)
    next
      case True
      show ?thesis
      proof (cases "to_run tu s (cn_node c)")
        case (Inl e)
        with Some True Cons.prems show ?thesis by (simp add: run_nodes_simps(3) del: run_nodes.simps)
      next
        case (Inr ps)
        obtain y st1 e where R: "node_run env s c ps requeue st = ((y, st1), e)" by (metis surj_pair)
        note a = node_run_adds [OF Some True R Cons.prems]
        note step = run_nodes_simps(4) [OF Some True Inr R]
        show ?thesis
        proof (cases e)
          case (Ran r)
          from a have "whose (put_work name y s) = whose s0" ..
          from Cons.IH [OF this, of r st1] a show ?thesis
            unfolding step Ran loop_end.case using ready_place_trans by blast
        qed (use step a in simp_all)
      qed
    qed
  qed
qed simp
lemma save_keeps_jobs: "ex_jobs (pw_exec (fst (snd (save_node env name acc)))) = ex_jobs (pw_exec (fst (snd acc)))"
proof -
  obtain s w saved errs where a: "acc = (s, w, saved, errs)" by (cases acc)
  have c: "ex_jobs (pw_exec (fst (snd (save_conditions env name node acc)))) = ex_jobs (pw_exec (fst (snd acc)))" for node acc
    by (auto simp: save_conditions_def store_node_def Let_def split: prod.split option.split)
  have "ex_jobs (pw_exec (fst (snd (save_changes env name node acc)))) = ex_jobs (pw_exec w)" for node
    by (simp add: a save_changes_def split_beta Let_def)
  with c show ?thesis
    by (simp add: save_node_def a Let_def split_beta split: option.split)
qed

lemma save_nodes_jobs: "ex_jobs (pw_exec (fst (snd (fold (save_node env) names acc)))) = ex_jobs (pw_exec (fst (snd acc)))"
  by (induction names arbitrary: acc) (simp_all add: save_keeps_jobs)

lemma Save_jobs: "SaveNodesAndSkyhook env s w = (s', w', saved, errs) \<Longrightarrow> ex_jobs (pw_exec w') = ex_jobs (pw_exec w)"
  using save_nodes_jobs [of env "map cn_Name (sh_nodes s)" "(s, w, False, [])"]
  by (auto simp: SaveNodesAndSkyhook_def Let_def split_beta split: if_splits)

lemma put_cnode_whose [simp]: "whose (put_cnode name node s) = whose s"
  by (simp add: put_cnode_def whose_def)

lemma save_keeps_whose: "whose (fst (save_node env name acc)) = whose (fst acc)"
proof -
  obtain s w saved errs where a: "acc = (s, w, saved, errs)" by (cases acc)
  have t: "whose (put_skyhook touch s) = whose s" for s by (rule whose_put) simp_all
  have p: "whose (put_skyhook (RemoveNodePriority n) s) = whose s" for n s
    by (rule whose_put) (simp_all add: RemoveNodePriority_def put_status_def touch_def split: option.split)
  have c: "whose (fst (save_conditions env name node acc)) = whose (fst acc)" for node acc
    by (auto simp: save_conditions_def Let_def split: prod.split option.split)
  have "whose (fst (save_changes env name node acc)) = whose s" for node
    by (simp add: a save_changes_def split_beta Let_def p)
  with c t show ?thesis
    by (simp add: save_node_def a Let_def split_beta split: option.split)
qed

lemma save_nodes_whose: "whose (fst (fold (save_node env) names acc)) = whose (fst acc)"
  by (induction names arbitrary: acc) (simp_all add: save_keeps_whose)

lemma Save_whose: "SaveNodesAndSkyhook env s w = (s', w', saved, errs) \<Longrightarrow> whose s' = whose s"
  using save_nodes_whose [of env "map cn_Name (sh_nodes s)" "(s, w, False, [])"]
  by (auto simp: SaveNodesAndSkyhook_def Let_def split_beta whose_nodes [OF UpdateCondition_same] split: if_splits)

text \<open>The part of a pass before its loop over the nodes: the resource as the loop meets it, the picked nodes and the packages to
  uninstall.  \<open>None\<close> when the pass ends before the loop.\<close>

definition prepared :: "pass_env \<Rightarrow> skyhookNodes list \<Rightarrow> NodePicker \<Rightarrow> skyhookNodes \<Rightarrow>
    (NodePicker \<times> skyhookNodes \<times> string list \<times> Package list) option" where
  "prepared env ss np s =
     (case HandleUninstallRequests s of
        (s1, Inl e) \<Rightarrow> None
      | (s1, Inr explicit) \<Rightarrow>
          (case HandleCancelledUninstalls s1 of
             (s2, Inl e) \<Rightarrow> None
           | (s2, Inr _) \<Rightarrow>
               (case HandleVersionChange s2 of
                  (s3, Inl e) \<Rightarrow> None
                | (s3, Inr changes) \<Rightarrow>
                    (let (s4, changed) = IntrospectSkyhook (pe_now env) ss s3
                     in if \<not> changed \<and> sh_IsComplete s4 then None
                        else map_option (\<lambda>(np1, s5, names). (np1, s5, names, explicit @ changes)) (SelectNodes (pe_now env) np s4)))))"

lemma prepared_whose: "prepared env ss np s = Some (np1, s5, names, tu) \<Longrightarrow> whose s5 = whose s"
proof -
  assume p: "prepared env ss np s = Some (np1, s5, names, tu)"
  obtain s1 r1 where 1: "HandleUninstallRequests s = (s1, r1)" by fastforce
  obtain s2 r2 where 2: "HandleCancelledUninstalls s1 = (s2, r2)" by fastforce
  obtain s3 r3 where 3: "HandleVersionChange s2 = (s3, r3)" by fastforce
  obtain s4 ch where 4: "IntrospectSkyhook (pe_now env) ss s3 = (s4, ch)" by fastforce
  have "whose s4 = whose s"
    using whose_uninstall [of s] whose_cancel [of s1] whose_version [of s2] whose_introspect [of "pe_now env" ss s3] by (simp add: 1 2 3 4)
  moreover have "whose s5 = whose s4"
    using p whose_select by (auto simp: prepared_def 1 2 3 4 split: sum.splits if_splits)
  ultimately show ?thesis by simp
qed

lemma Run_unprepared:
  "prepared env ss np s = None \<Longrightarrow> \<exists>s' r. RunSkyhookPackages env ss np s w = (np, s', w, None, r) \<and> whose s' = whose s"
proof -
  assume p: "prepared env ss np s = None"
  obtain s1 r1 where 1: "HandleUninstallRequests s = (s1, r1)" by fastforce
  obtain s2 r2 where 2: "HandleCancelledUninstalls s1 = (s2, r2)" by fastforce
  obtain s3 r3 where 3: "HandleVersionChange s2 = (s3, r3)" by fastforce
  obtain s4 ch where 4: "IntrospectSkyhook (pe_now env) ss s3 = (s4, ch)" by fastforce
  have "whose s1 = whose s" "whose s2 = whose s" "whose s3 = whose s" "whose s4 = whose s"
    using whose_uninstall [of s] whose_cancel [of s1] whose_version [of s2] whose_introspect [of "pe_now env" ss s3] by (simp_all add: 1 2 3 4)
  with p show ?thesis by (auto simp: prepared_def RunSkyhookPackages_def 1 2 3 4 split: sum.splits if_splits)
qed

lemma Run_prepared:
  "prepared env ss np s = Some (np1, s5, names, tu) \<Longrightarrow> run_nodes env ss tu names False (s5, pw_exec w) = ((s6, st), e) \<Longrightarrow>
   RunSkyhookPackages env ss np s w =
     (case e of
        LoopFailed f \<Rightarrow> (np1, s6, w\<lparr>pw_exec := st\<rparr>, None, [f])
      | SerialStop \<Rightarrow> (np1, s6, w\<lparr>pw_exec := st\<rparr>, Some soon, [])
      | Ran requeue \<Rightarrow>
          (let (s7, w1, saved, errs) = SaveNodesAndSkyhook env s6 (w\<lparr>pw_exec := st\<rparr>)
           in if errs \<noteq> [] then (np1, s7, w1, Some 0, errs)
              else (np1, s7, w1, (if \<not> sh_IsComplete s7 \<or> requeue \<or> saved then Some soon else None), [])))"
  by (auto simp: prepared_def RunSkyhookPackages_def split: sum.splits prod.splits if_splits loop_end.split)

lemma Run_adds:
  assumes "RunSkyhookPackages env ss np s w = (np', s', w', r)"
  shows "whose s' = whose s \<and> only_adds (ready_place s ss) (ex_jobs (pw_exec w)) (ex_jobs (pw_exec w'))"
proof (cases "prepared env ss np s")
  case None
  then show ?thesis using Run_unprepared [of env ss np s w] assms by auto
next
  case (Some x)
  obtain np1 s5 names tu where x: "x = (np1, s5, names, tu)" by (cases x)
  note P = Some [unfolded x]
  obtain s6 st e where R: "run_nodes env ss tu names False (s5, pw_exec w) = ((s6, st), e)" by (metis surj_pair)
  obtain s7 w1 saved errs where S: "SaveNodesAndSkyhook env s6 (w\<lparr>pw_exec := st\<rparr>) = (s7, w1, saved, errs)"
    by (cases "SaveNodesAndSkyhook env s6 (w\<lparr>pw_exec := st\<rparr>)")
  have "whose s6 = whose s \<and> only_adds (ready_place s ss) (ex_jobs (pw_exec w)) (ex_jobs st)"
    using run_nodes_adds [OF prepared_whose [OF P], of env ss tu names False "pw_exec w"] by (simp add: R)
  moreover have "whose s7 = whose s6" "ex_jobs (pw_exec w1) = ex_jobs st"
    using Save_whose [OF S] Save_jobs [OF S] by simp_all
  ultimately show ?thesis using assms by (cases e) (auto simp: Run_prepared [OF P R] S split: if_splits)
qed
lemma process_prefix: "process_resources env np earlier later w res = (ss', w', r) \<Longrightarrow> \<exists>rest. ss' = earlier @ rest \<and> length rest = length later"
proof (induction later arbitrary: np earlier w res)
  case (Cons s later)
  obtain np1 s1 w1 r1 errs where R: "RunSkyhookPackages env (earlier @ s # later) np s w = (np1, s1, w1, r1, errs)"
    by (cases "RunSkyhookPackages env (earlier @ s # later) np s w")
  have "\<exists>x np2 w2 res2. process_resources env np2 (earlier @ [x]) later w2 res2 = (ss', w', r)"
    using Cons.prems by (cases res) (auto simp: R split: sum.splits bool.splits, blast+)
  with Cons.IH show ?case by fastforce
qed simp

text \<open>A Job stands for a resource that is due: one of the pass, neither disabled nor paused, on a node no resource before it
  still works on.\<close>

definition due_place :: "skyhookNodes list \<Rightarrow> skyhookNodes list \<Rightarrow> Job \<Rightarrow> bool" where
  "due_place ss ss' j \<longleftrightarrow>
     (\<exists>i < length ss. \<not> sh_IsDisabled (ss ! i) \<and> \<not> sh_IsPaused (ss ! i) \<and>
        (\<exists>n. IsNodeReadyForSkyhook n (ss ! i) (take i ss' @ drop i ss) \<and> placed (sh_Name (ss ! i)) n j))"

lemma due_place_trans:
  "only_adds (due_place ss ss') a b \<Longrightarrow> only_adds (due_place ss ss') b c \<Longrightarrow> only_adds (due_place ss ss') a c"
  by (rule only_adds_trans) (auto simp: due_place_def placed_def)

lemma process_adds:
  "process_resources env np earlier later w res = (ss', w', r) \<Longrightarrow> length earlier = length before \<Longrightarrow>
   only_adds (due_place (before @ later) ss') (ex_jobs (pw_exec w)) (ex_jobs (pw_exec w'))"
proof (induction later arbitrary: np earlier before w res)
  case (Cons s later)
  note len = Cons.prems(2)
  have skip: ?case if "process_resources env np (earlier @ [s]) later w res' = (ss', w', r)" for res'
    using Cons.IH [OF that, of "before @ [s]"] len by simp
  show ?case
  proof (cases "has_turn s (earlier @ s # later) = Inr True")
    case False
    then show ?thesis using Cons.prems(1) skip by (auto split: sum.splits bool.splits)
  next
    case True
    obtain np1 s1 w1 r1 errs where R: "RunSkyhookPackages env (earlier @ s # later) np s w = (np1, s1, w1, r1, errs)"
      by (cases "RunSkyhookPackages env (earlier @ s # later) np s w")
    obtain res1 where step: "process_resources env np1 (earlier @ [s1]) later w1 res1 = (ss', w', r)"
      using Cons.prems(1) by (simp add: True R)
    have on: "\<not> sh_IsDisabled s \<and> \<not> sh_IsPaused s" using True by (auto simp: has_turn_def split: if_splits)
    obtain rest where "ss' = (earlier @ [s1]) @ rest" using process_prefix [OF step] by blast
    then have seen: "take (length before) ss' = earlier" using len by simp
    have "due_place (before @ s # later) ss' k" if k: "ready_place s (earlier @ s # later) k" for k
      unfolding due_place_def using on k seen by (intro exI [of _ "length before"]) (auto simp: ready_place_def)
    then have "only_adds (due_place (before @ s # later) ss') (ex_jobs (pw_exec w)) (ex_jobs (pw_exec w1))"
      using Run_adds [OF R] only_adds_mono by blast
    then show ?thesis using Cons.IH [OF step, of "before @ [s]"] len due_place_trans by force
  qed
qed simp

text \<open>
  C7. A pass starts Jobs only where they are due: a Job that is there after \<open>processSkyhooksPerNode\<close> and was not before carries the
  labels of one of the resources of the pass, which is neither disabled nor paused, and of a node that is ready for it, that is, on
  which no resource of a higher priority (as the pass has left it by then) still has work.
\<close>

theorem pass_starts_where_due:
  assumes "processSkyhooksPerNode env np ss w = (ss', w', r)" and "k \<in> set (ex_jobs (pw_exec w'))"
    and "\<And>j. j \<in> set (ex_jobs (pw_exec w)) \<Longrightarrow> job_Name j \<noteq> job_Name k"
  shows "\<exists>i < length ss. \<not> sh_IsDisabled (ss ! i) \<and> \<not> sh_IsPaused (ss ! i) \<and>
    (\<exists>n. IsNodeReadyForSkyhook n (ss ! i) (take i ss' @ drop i ss) \<and>
         map_of (job_Labels k) name_label = Some (sh_Name (ss ! i)) \<and> map_of (job_Labels k) node_label = Some (nodeLabelValue n))"
  using process_adds [OF assms(1) [unfolded processSkyhooksPerNode_def], of "[]"] assms(2,3)
  by (auto simp: only_adds_def due_place_def placed_def)
section \<open>Serial resources\<close>

lemma interrupts_trans:
  "only_adds isInterruptJob a b \<Longrightarrow> only_adds isInterruptJob b c \<Longrightarrow> only_adds isInterruptJob a c"
  by (rule only_adds_trans) (auto simp: isInterruptJob_def)

lemma Interrupt_adds_interrupts: "only_adds isInterruptJob (ex_jobs (snd w)) (ex_jobs (snd (fst (Interrupt_run env p i stage w))))"
proof -
  obtain node sk st where w: "w = ((node, sk), st)" by (cases w) auto
  have "only_adds isInterruptJob (ex_jobs st) (ex_jobs st2)"
    if "UpsertNodeLabelsAnnotationsPackages env sk (sn_Node node) st = (st1, u)"
      and "start_job env (createInterruptJobFromPackage (xe_opts env) j (ToArgs j) p sk (n_Name (sn_Node node)) stage) p node sk stage st1 = (st2, r)"
    for st1 st2 u r j
  proof -
    let ?job = "createInterruptJobFromPackage (xe_opts env) j (ToArgs j) p sk (n_Name (sn_Node node)) stage"
    let ?want = "setJobPackage (sk_NodeWright sk) (p_Image p) stage p ?job"
    have "only_adds isInterruptJob (ex_jobs st1) (ex_jobs (fst (handleExistingJob env ?want p node sk stage st1)))"
      by (rule evolves_only_adds [OF handleExisting_evolves])
    moreover have "isInterruptJob ?want"
      by (simp add: isInterruptJob_def setJobPackage_def createInterruptJobFromPackage_def jobFromPod_def jobLabels_def
          interrupt_label_def name_label_def stage_label_def node_label_def generation_label_def package_label_def Let_def)
    ultimately show ?thesis using metadata_result(1) [OF that(1)] that(2)
      by (auto simp: start_job_def create_job_def Let_def only_adds_def split: prod.splits sum.splits if_splits)
  qed
  then show ?thesis using metadata_result(1)
    by (auto simp: w Interrupt_run_def Let_def split: prod.split sum.split option.split bool.split)
qed

lemma Process_adds_interrupts: "only_adds isInterruptJob (ex_jobs (snd w)) (ex_jobs (snd (fst (ProcessInterrupt env p i b w))))"
proof (rule Process_keeps [where Q = "\<lambda>v. only_adds isInterruptJob (ex_jobs (snd w)) (ex_jobs (snd v))"])
  show "only_adds isInterruptJob (ex_jobs (snd w)) (ex_jobs (snd (fst (Interrupt_run env p i stage v))))"
    if "only_adds isInterruptJob (ex_jobs (snd w)) (ex_jobs (snd v))" for v stage
    using that Interrupt_adds_interrupts by (rule interrupts_trans)
qed (simp_all add: ready_jobs)

lemma serial_packages:
  "run_packages env True chosen ps requeue w = (w', Ran r) \<Longrightarrow> only_adds isInterruptJob (ex_jobs (snd w)) (ex_jobs (snd w'))"
proof (induction ps arbitrary: requeue w)
  case (Cons f fs)
  let ?run = "case chosen of None \<Rightarrow> False | Some (_, pack) \<Rightarrow> p_Name f = pack"
  obtain w1 r1 where P: "ProcessInterrupt env f (map_option fst chosen) ?run w = (w1, r1)" by fastforce
  have "only_adds isInterruptJob (ex_jobs (snd w)) (ex_jobs (snd w1))"
    using Process_adds_interrupts [of w env f "map_option fst chosen" ?run] by (simp add: P)
  moreover have "run_packages env True chosen fs True w1 = (w', Ran r)"
    using Cons.prems by (auto simp: P split: sum.splits bool.splits prod.splits)
  ultimately show ?case using Cons.IH interrupts_trans by blast
qed simp

lemma serial_nodes:
  "run_nodes env ss tu names requeue (s, st) = ((s', st'), Ran r) \<Longrightarrow> Serial (sh_Spec s) \<Longrightarrow>
   only_adds isInterruptJob (ex_jobs st) (ex_jobs st')"
proof (induction names arbitrary: requeue s st)
  case (Cons name names)
  show ?case
  proof (cases "find_node s name")
    case None
    with Cons show ?thesis by (simp add: run_nodes_simps(1) del: run_nodes.simps)
  next
    case (Some c)
    show ?thesis
    proof (cases "works_on ss s c")
      case False
      with Some Cons show ?thesis by (simp add: run_nodes_simps(2) del: run_nodes.simps)
    next
      case True
      obtain ps where ps: "to_run tu s (cn_node c) = Inr ps"
        using Cons.prems(1) run_nodes_simps(3) [OF Some True] by (cases "to_run tu s (cn_node c)") (auto simp del: run_nodes.simps)
      obtain y st1 e where R: "node_run env s c ps requeue st = ((y, st1), e)" by (metis surj_pair)
      obtain q where e: "e = Ran q" and rest: "run_nodes env ss tu names q (put_work name y s, st1) = ((s', st'), Ran r)"
        using Cons.prems(1) unfolding run_nodes_simps(4) [OF Some True ps R] by (cases e) auto
      have "whose (put_work name y s) = whose s" using node_run_adds [OF Some True R] by blast
      then have "Serial (sh_Spec (put_work name y s))" using Cons.prems(2) by (simp add: whose_def)
      then have "only_adds isInterruptJob (ex_jobs st1) (ex_jobs st')" by (rule Cons.IH [OF rest])
      moreover have "only_adds isInterruptJob (ex_jobs st) (ex_jobs st1)"
        using serial_packages [OF R [unfolded node_run_def e, simplified Cons.prems(2) simp_thms]] by simp
      ultimately show ?thesis using interrupts_trans by blast
    qed
  qed
qed simp

lemma serial_run_unsaved:
  assumes "RunSkyhookPackages env ss np s w = (np', s', w', r)" and "Serial (sh_Spec s)"
    and "\<not> only_adds isInterruptJob (ex_jobs (pw_exec w)) (ex_jobs (pw_exec w'))"
  shows "pw_nodes w' = pw_nodes w \<and> pw_status w' = pw_status w"
proof (cases "prepared env ss np s")
  case None
  then show ?thesis using Run_unprepared [of env ss np s w] assms(1) by auto
next
  case (Some x)
  obtain np1 s5 names tu where x: "x = (np1, s5, names, tu)" by (cases x)
  note P = Some [unfolded x]
  obtain s6 st e where R: "run_nodes env ss tu names False (s5, pw_exec w) = ((s6, st), e)" by (metis surj_pair)
  show ?thesis
  proof (cases e)
    case (Ran q)
    obtain s7 w1 saved errs where S: "SaveNodesAndSkyhook env s6 (w\<lparr>pw_exec := st\<rparr>) = (s7, w1, saved, errs)"
      by (cases "SaveNodesAndSkyhook env s6 (w\<lparr>pw_exec := st\<rparr>)")
    have "Serial (sh_Spec s5)" using prepared_whose [OF P] assms(2) by (simp add: whose_def)
    then have "only_adds isInterruptJob (ex_jobs (pw_exec w)) (ex_jobs st)" using serial_nodes [OF R [unfolded Ran]] by blast
    moreover have "ex_jobs (pw_exec w') = ex_jobs st"
      using assms(1) Save_jobs [OF S] by (auto simp: Run_prepared [OF P R] Ran S split: if_splits)
    ultimately show ?thesis using assms(3) by simp
  qed (use assms(1) in \<open>auto simp: Run_prepared [OF P R]\<close>)
qed

lemma unentered_lost:
  assumes "Node_State (NewSkyhookNodeOnly node (pks_Skyhook pkg)) = Inr ns" and "ns_get ns (unique_ref pkg) = None" and "\<not> isInterruptJob job"
  shows "record_completion skyhook pods job pkg node = Some (False, node)"
  using assms by (simp add: record_completion_def shouldRecordCompletion_def entryOpenAtStage_def)
text \<open>
  C31. A serial resource loses completions.  \<open>RunSkyhookPackages\<close> returns right after the first package it applies on a serial
  resource, before the save at its end: when a pass over a serial resource starts the Job of a package stage, the nodes and the
  resource are as stored before.  A package that had no entry in the stored state of the node then has none when its Job
  completes, and the Job controller discards the completion, leaving the node as it is; the next pass starts from the same
  stored node.
\<close>

theorem serial_pass_loses_completion:
  assumes "RunSkyhookPackages env ss np s w = (np', s', w', r)" and "Serial (sh_Spec s)"
    and "k \<in> set (ex_jobs (pw_exec w'))" and "\<not> isInterruptJob k" and "\<And>j. j \<in> set (ex_jobs (pw_exec w)) \<Longrightarrow> job_Name j \<noteq> job_Name k"
    and "map_of (pw_nodes w) n = Some (stored, v)" and "pks_Skyhook pkg = sh_Name s"
    and "Node_State (NewSkyhookNodeOnly stored (sh_Name s)) = Inr ns" and "ns_get ns (unique_ref pkg) = None"
    and "job_Labels finished = job_Labels k"
  shows "pw_nodes w' = pw_nodes w \<and> pw_status w' = pw_status w \<and> map_of (pw_nodes w') n = Some (stored, v) \<and>
    record_completion skyhook pods finished pkg stored = Some (False, stored)"
proof -
  have "\<not> only_adds isInterruptJob (ex_jobs (pw_exec w)) (ex_jobs (pw_exec w'))" using assms(3-5) by (auto simp: only_adds_def)
  from serial_run_unsaved [OF assms(1,2) this] have "pw_nodes w' = pw_nodes w" "pw_status w' = pw_status w" by simp_all
  moreover have "record_completion skyhook pods finished pkg stored = Some (False, stored)"
    using assms(4,7-10) by (intro unentered_lost [of _ _ ns]) (simp_all add: isInterruptJob_def)
  ultimately show ?thesis using assms(6) by simp
qed

section \<open>Witnesses\<close>

definition calm_package :: Package where
  "calm_package = sample_package\<lparr>p_Interrupt := None\<rparr>"

definition serial_resource :: NodeWright where
  "serial_resource = (sample_nodewright [(''tuning'', calm_package)] [])
     \<lparr>nw_Spec := (sample_spec [(''tuning'', calm_package)])\<lparr>Serial := True\<rparr>\<rparr>"

definition serial_set :: skyhookNodes where
  "serial_set = (case BuildState 5 [serial_resource] [sample_node] [] of Inr ss \<Rightarrow> ss ! 0 | Inl _ \<Rightarrow> sample_set sample_skyhookNode)"

definition calm_env :: pass_env where
  "calm_env = \<lparr>pe_exec = sample_exec, pe_drain = (\<lambda>_. quiet), pe_api = (\<lambda>_ _. sample_api), pe_original = (\<lambda>_. Some sample_node),
     pe_node_status_ok = (\<lambda>_. True), pe_resource_ok = (\<lambda>_. True)\<rparr>"

definition first_world :: pass_world where
  "first_world = \<lparr>pw_exec = no_jobs, pw_nodes = [(''node1'', (sample_node, 1))], pw_status = []\<rparr>"

definition serial_prepared :: "(NodePicker \<times> skyhookNodes \<times> string list \<times> Package list) option" where
  "serial_prepared = prepared calm_env [serial_set] (NewNodePicker []) serial_set"

definition serial_ready :: bool where
  "serial_ready \<longleftrightarrow>
     (case serial_prepared of None \<Rightarrow> False
      | Some (np, s, names, tu) \<Rightarrow> names = [''node1''] \<and> sh_Name s = ''tune'' \<and>
          (case find_node s ''node1'' of None \<Rightarrow> False
           | Some c \<Rightarrow> works_on [serial_set] s c \<and> to_run tu s (cn_node c) = Inr [calm_package] \<and> cn_Name c = ''node1'' \<and>
               \<not> Node_HasInterrupt (snd (node_work s c)) calm_package \<and> \<not> IsSkipped (PackageStatusOf (cn_node c) (GetUniqueName calm_package)) \<and>
               apply_stage (snd (node_work s c)) (cn_node c) calm_package = StageApply))"

lemma serial_ready_holds: "serial_ready"
  by code_simp

lemma serial_turn: "has_turn serial_set [serial_set] = Inr True" "Serial (sh_Spec serial_set)" "sh_Name serial_set = ''tune''"
  by code_simp+
lemma serial_first:
  assumes "find_node s name = Some c" "works_on ss s c" "to_run tu s (cn_node c) = Inr (p # ps)" "Serial (sh_Spec s)"
    and "\<not> Node_HasInterrupt (snd (node_work s c)) p" and "ApplyPackage (at_node env (cn_Name c)) p (node_work s c, st) = ((y, st1), Inr ())"
  shows "run_nodes env ss tu (name # names) requeue (s, st) = ((put_work name y s, st1), SerialStop)"
proof -
  obtain node k where n: "node_work s c = (node, k)" by (cases "node_work s c")
  have "ProcessInterrupt (at_node env (cn_Name c)) p i b (node_work s c, st) = ((node_work s c, st), Inr True)" for i b
    using assms(5) by (simp add: ProcessInterrupt_def n Let_def)
  then have "node_run env s c (p # ps) requeue st = ((y, st1), SerialStop)"
    using assms(4,6) by (simp add: node_run_def)
  from run_nodes_simps(4) [OF assms(1-3) this] show ?thesis by simp
qed

lemma calm_env_at: "fresh_view (at_node calm_env n)" "xe_meta_ok (at_node calm_env n) m" "xe_create_ok (at_node calm_env n) m"
  by (simp_all add: at_node_def calm_env_def fresh_view_def sample_exec_def)

lemma serial_pass_result:
  "\<exists>np s' w' sk. RunSkyhookPackages calm_env [serial_set] (NewNodePicker []) serial_set first_world = (np, s', w', Some soon, []) \<and>
     ex_jobs (pw_exec w') = [stage_job (at_node calm_env ''node1'') calm_package sk ''node1'' StageApply]"
proof -
  obtain np s tu c where P: "prepared calm_env [serial_set] (NewNodePicker []) serial_set = Some (np, s, [''node1''], tu)"
    and c: "find_node s ''node1'' = Some c" "works_on [serial_set] s c" "to_run tu s (cn_node c) = Inr [calm_package]"
      "\<not> Node_HasInterrupt (snd (node_work s c)) calm_package"
    and n: "cn_Name c = ''node1''" "\<not> IsSkipped (PackageStatusOf (cn_node c) (GetUniqueName calm_package))"
      "apply_stage (snd (node_work s c)) (cn_node c) calm_package = StageApply"
    using serial_ready_holds by (auto simp: serial_ready_def serial_prepared_def split: option.splits)
  have serial: "Serial (sh_Spec s)" using prepared_whose [OF P] serial_turn(2) by (simp add: whose_def)
  have jobs: "ex_jobs (pw_exec first_world) = []" by (simp add: first_world_def)
  obtain node k where w: "node_work s c = (node, k)" by (cases "node_work s c")
  have node: "node = cn_node c" using w by (simp add: node_work_def)
  obtain y st1 r where A: "ApplyPackage (at_node calm_env ''node1'') calm_package (node_work s c, pw_exec first_world) = ((y, st1), r)"
    by (metis surj_pair)
  obtain y1 y2 where y: "y = (y1, y2)" by (cases y)
  have started: "r = Inr () \<and> ex_jobs st1 = ex_jobs (pw_exec first_world) @ [stage_job (at_node calm_env ''node1'') calm_package k (n_Name (sn_Node node)) StageApply] \<and>
      map_option (\<lambda>s. (ps_Stage s, ps_State s)) (PackageStatusOf y1 (GetUniqueName calm_package)) = Some (StageApply, StateInProgress)"
    by (rule stage_started [OF A [unfolded w y] calm_env_at]) (use n jobs w node in simp_all)
  have "run_nodes calm_env [serial_set] tu [''node1''] False (s, pw_exec first_world) = ((put_work ''node1'' y s, st1), SerialStop)"
    using serial_first [OF c(1-3) serial c(4)] A started n(1) by simp
  then show ?thesis using Run_prepared [OF P] started jobs node n(1) by fastforce
qed

theorem serial_pass_loses_completion_witness:
  "\<exists>np s' w' k. RunSkyhookPackages calm_env [serial_set] (NewNodePicker []) serial_set first_world = (np, s', w', Some soon, []) \<and>
     ex_jobs (pw_exec w') = [k] \<and> pw_nodes w' = pw_nodes first_world \<and>
     record_completion (Some None) None k (sample_work\<lparr>pks_Skyhook := ''tune''\<rparr>) sample_node = Some (False, sample_node)"
proof -
  obtain np s' w' sk where R: "RunSkyhookPackages calm_env [serial_set] (NewNodePicker []) serial_set first_world = (np, s', w', Some soon, [])"
    and J: "ex_jobs (pw_exec w') = [stage_job (at_node calm_env ''node1'') calm_package sk ''node1'' StageApply]"
    using serial_pass_result by blast
  let ?k = "stage_job (at_node calm_env ''node1'') calm_package sk ''node1'' StageApply" and ?pkg = "sample_work\<lparr>pks_Skyhook := ''tune''\<rparr>"
  have plain: "\<not> isInterruptJob ?k"
    using job_labels_lookup(1) by (simp add: isInterruptJob_def stage_job_def setJobPackage_def createJobFromPackage_def jobFromPod_def Let_def)
  have none: "Node_State (NewSkyhookNodeOnly sample_node (sh_Name serial_set)) = Inr None"
    unfolding serial_turn(3) by code_simp
  have stored: "map_of (pw_nodes first_world) ''node1'' = Some (sample_node, 1)" by (simp add: first_world_def)
  have "pw_nodes w' = pw_nodes first_world \<and> pw_status w' = pw_status first_world \<and> map_of (pw_nodes w') ''node1'' = Some (sample_node, 1) \<and>
      record_completion (Some None) None ?k ?pkg sample_node = Some (False, sample_node)"
    by (rule serial_pass_loses_completion [OF R serial_turn(2) _ plain _ stored _ none])
      (simp_all add: J serial_turn(3) first_world_def ns_get_def)
  then show ?thesis using R J by blast
qed

theorem pass_starts_where_due_witness:
  "\<exists>ss' w' k. processSkyhooksPerNode calm_env (NewNodePicker []) [serial_set] first_world = (ss', w', Some soon, []) \<and>
     ex_jobs (pw_exec w') = [k] \<and> map_of (job_Labels k) name_label = Some ''tune'' \<and>
     (\<exists>n. IsNodeReadyForSkyhook n serial_set [serial_set] \<and> map_of (job_Labels k) node_label = Some (nodeLabelValue n))"
proof -
  obtain np s' w' sk where R: "RunSkyhookPackages calm_env [serial_set] (NewNodePicker []) serial_set first_world = (np, s', w', Some soon, [])"
    and J: "ex_jobs (pw_exec w') = [stage_job (at_node calm_env ''node1'') calm_package sk ''node1'' StageApply]"
    using serial_pass_result by blast
  have P: "processSkyhooksPerNode calm_env (NewNodePicker []) [serial_set] first_world = ([s'], w', Some soon, [])"
    by (simp add: processSkyhooksPerNode_def serial_turn(1) R)
  from pass_starts_where_due [OF P, of "stage_job (at_node calm_env ''node1'') calm_package sk ''node1'' StageApply"] show ?thesis
    using P J serial_turn(3) by (auto simp: first_world_def)
qed

end
