(* ===== verification/Runtime_Required.thy ===== *)
theory Runtime_Required
  imports Pass
begin

text \<open>
  The taint that keeps workloads off a node until the resources that must run first are complete on it, from
  \<open>operator/internal/controller/skyhook_controller.go\<close> and \<open>cluster_state_v2.go\<close>: tainting new nodes (\<open>HandleAutoTaint\<close>), starting over
  after a reboot (\<open>TrackReboots\<close>), and removing the taint, with a cordon in its place where one is asked for
  (\<open>HandleRuntimeRequired\<close>).

  What the API server does in the requests of each of them is a parameter, by node and, for a reboot, by resource.
\<close>

section \<open>Requests\<close>

record taint_env =
  te_pass :: pass_env
  te_auto :: "string \<Rightarrow> api_env"
  te_remove :: "string \<Rightarrow> api_env"
  te_stale :: "string \<Rightarrow> api_env"
  te_reboot :: "string \<Rightarrow> string \<Rightarrow> api_env"

abbreviation te_opts :: "taint_env \<Rightarrow> SkyhookOperatorOptions" where
  "te_opts env \<equiv> xe_opts (pe_exec (te_pass env))"

text \<open>The options are validated at the start, so there is a configured taint; the code panics without one.\<close>

definition recognised_taints :: "SkyhookOperatorOptions \<Rightarrow> Taint list" where
  "recognised_taints opts = (case GetRuntimeRequiredTaints opts of None \<Rightarrow> [] | Some ts \<Rightarrow> ts)"

text \<open>A patch without a lock: the difference between \<open>base\<close> and \<open>new\<close> is laid over whatever is stored.\<close>

definition open_patch :: "api_env \<Rightarrow> Node \<Rightarrow> Node \<Rightarrow> versioned option \<Rightarrow> versioned option \<times> (patch_error + Node)" where
  "open_patch api base new server =
     (let server1 = before_patch api 0 server
      in if patch_fault api 0 then (server1, Inl PatchFailed)
         else
           (case server1 of
              None \<Rightarrow> (server1, Inl NodeNotFound)
            | Some (current, v) \<Rightarrow> let stored = merge_patch api base new current in (Some (stored, Suc v), Inr stored)))"

definition annotationTrueValue :: string where
  "annotationTrueValue = ''true''"

section \<open>New nodes\<close>

text \<open>The nodes of one resource; \<open>seen\<close> are the nodes looked at before, by their identity.\<close>

fun auto_taint_of :: "Taint list \<Rightarrow> cnode list \<Rightarrow> string list \<times> Node list \<Rightarrow> string list \<times> Node list" where
  "auto_taint_of recognised [] acc = acc"
| "auto_taint_of recognised (c # cs) (seen, result) =
     (let node = sn_Node (cn_node c)
      in auto_taint_of recognised cs
           (if n_UID node \<in> set seen then (seen, result)
            else (n_UID node # seen,
                  if hasAnyTaint node recognised \<or> HasSkyhookAnnotations (cn_node c) then result else result @ [node])))"

definition wants_auto_taint :: "skyhookNodes \<Rightarrow> bool" where
  "wants_auto_taint s \<longleftrightarrow> RuntimeRequired (sh_Spec s) \<and> AutoTaintNewNodes (sh_Spec s)"

definition getAutoTaintNodes :: "Taint list \<Rightarrow> skyhookNodes list \<Rightarrow> Node list" where
  "getAutoTaintNodes recognised ss =
     snd (fold (\<lambda>s acc. if wants_auto_taint s then auto_taint_of recognised (sh_nodes s) acc else acc) ss ([], []))"

definition autoTaint_key :: "Taint \<Rightarrow> string" where
  "autoTaint_key taint = METADATA_PREFIX @ ''/autoTaint_'' @ t_Key taint"

definition auto_tainted :: "Taint \<Rightarrow> Taint list \<Rightarrow> Node \<Rightarrow> Node" where
  "auto_tainted taint ts node =
     node\<lparr>n_Taints := ts, n_Annotations := gput (autoTaint_key taint) annotationTrueValue (n_Annotations node)\<rparr>"

definition auto_taint_node ::
  "taint_env \<Rightarrow> Taint \<Rightarrow> Node \<Rightarrow> pass_world \<times> bool \<times> pass_error list \<Rightarrow> pass_world \<times> bool \<times> pass_error list" where
  "auto_taint_node env taint node acc =
     (let (w, changed, errs) = acc; (ts, updated) = AddOrUpdateTaint (n_Taints node) taint
      in if \<not> updated then acc
         else
           (let (server, r) = open_patch (te_auto env (n_Name node)) node (auto_tainted taint ts node) (map_of (pw_nodes w) (n_Name node))
            in (store_node (n_Name node) server w, True,
                errs @ (case r of Inl e \<Rightarrow> [NodeSave (n_Name node) e] | Inr _ \<Rightarrow> []))))"

definition HandleAutoTaint :: "taint_env \<Rightarrow> skyhookNodes list \<Rightarrow> pass_world \<Rightarrow> pass_world \<times> bool \<times> pass_error list" where
  "HandleAutoTaint env ss w =
     (case GetRuntimeRequiredTaint (te_opts env) of
        None \<Rightarrow> (w, False, [Panicked])
      | Some taint \<Rightarrow> fold (auto_taint_node env taint) (getAutoTaintNodes (recognised_taints (te_opts env)) ss) (w, False, []))"

section \<open>Reboots\<close>

type_synonym reboot_acc = "skyhookNodes \<times> pass_world \<times> bool \<times> pass_error list"

definition boot_ids :: "skyhookNodes \<Rightarrow> (string, string) gomap" where
  "boot_ids s = or_empty (NodeBootIds (sk_Status (sh_skyhook s)))"

definition note_boot :: "string \<Rightarrow> string \<Rightarrow> Skyhook \<Rightarrow> Skyhook" where
  "note_boot name boot sk = touch (put_status (\<lambda>st. st\<lparr>NodeBootIds := Some (gput name boot (or_empty (NodeBootIds st)))\<rparr>) sk)"

definition retaint :: "SkyhookOperatorOptions \<Rightarrow> NodeWrightSpec \<Rightarrow> Node \<Rightarrow> Node" where
  "retaint opts spec node =
     (if RuntimeRequired spec \<and> AutoTaintNewNodes spec \<and> \<not> hasAnyTaint node (recognised_taints opts)
      then (case GetRuntimeRequiredTaint opts of
              None \<Rightarrow> node
            | Some taint \<Rightarrow> let (ts, updated) = AddOrUpdateTaint (n_Taints node) taint in if updated then node\<lparr>n_Taints := ts\<rparr> else node)
      else node)"

text \<open>The node starts over: in memory, its Jobs, and, when it is written, on the server.  The last component is whether the loop goes on
  to note the new boot.\<close>

definition reset_node :: "taint_env \<Rightarrow> string \<Rightarrow> cnode \<Rightarrow> reboot_acc \<Rightarrow> reboot_acc \<times> bool" where
  "reset_node env name c acc =
     (let (s, w, updates, errs) = acc; (node, sk) = (case node_work s c of (n, k) \<Rightarrow> Reset k n);
          (ex, r) = deleteNodeJobs (pe_exec (te_pass env)) (sh_Name s) name (pw_exec w);
          node1 = put_node (retaint (te_opts env) (sh_Spec s)) node;
          errs1 = errs @ (case r of Inl e \<Rightarrow> [ExecFailed e] | Inr _ \<Rightarrow> []); w1 = w\<lparr>pw_exec := ex\<rparr>
      in if \<not> sn_updated node1 then ((put_work name (node1, sk) s, w1, updates, errs1), True)
         else
           (case pe_original (te_pass env) name of
              None \<Rightarrow> ((put_work name (node1, sk) s, w1, True, errs1 @ [NodeSave name NoSnapshot]), False)
            | Some original \<Rightarrow>
                (case open_patch (te_reboot env (sh_Name s) name) original (sn_Node node1) (map_of (pw_nodes w) name) of
                   (server, Inl e) \<Rightarrow> ((put_work name (node1, sk) s, store_node name server w1, True, errs1 @ [NodeSave name e]), False)
                 | (server, Inr stored) \<Rightarrow>
                     ((put_work name (node1\<lparr>sn_Node := stored\<rparr>, sk) s, store_node name server w1, True, errs1), True))))"

definition rebooted :: "skyhookNodes \<Rightarrow> cnode \<Rightarrow> bool" where
  "rebooted s c \<longleftrightarrow>
     (case map_of (boot_ids s) (cn_Name c) of None \<Rightarrow> False | Some known \<Rightarrow> known \<noteq> [] \<and> known \<noteq> n_BootID (sn_Node (cn_node c)))"

definition boot_of :: "skyhookNodes \<Rightarrow> string \<Rightarrow> string" where
  "boot_of s name = (case find_node s name of None \<Rightarrow> [] | Some c \<Rightarrow> n_BootID (sn_Node (cn_node c)))"

definition note_boot_of :: "string \<Rightarrow> reboot_acc \<Rightarrow> reboot_acc" where
  "note_boot_of name acc = (let (s, rest) = acc in (put_skyhook (note_boot name (boot_of s name)) s, rest))"

definition track_node :: "taint_env \<Rightarrow> string \<Rightarrow> reboot_acc \<Rightarrow> reboot_acc" where
  "track_node env name acc =
     (case find_node (fst acc) name of
        None \<Rightarrow> acc
      | Some c \<Rightarrow>
          if map_of (boot_ids (fst acc)) name = None then note_boot_of name acc
          else if \<not> rebooted (fst acc) c then acc
          else if \<not> opt_ReapplyOnReboot (te_opts env) then note_boot_of name acc
          else let (acc1, landed) = reset_node env name c acc in if landed then note_boot_of name acc1 else acc1)"

definition track_resource :: "taint_env \<Rightarrow> skyhookNodes \<Rightarrow> pass_world \<times> bool \<times> pass_error list \<Rightarrow> reboot_acc" where
  "track_resource env s acc =
     (let s0 = put_skyhook (put_status (\<lambda>st. st\<lparr>NodeBootIds := Some (or_empty (NodeBootIds st))\<rparr>)) s;
          (s1, w, updates, errs) = fold (track_node env) (map cn_Name (sh_nodes s)) (s0, acc)
      in if \<not> Updated (sh_skyhook s1) then (s1, w, updates, errs)
         else if pe_resource_ok (te_pass env) (sh_Name s1)
         then (s1, w\<lparr>pw_status := gput (sh_Name s1) (sk_Status (sh_skyhook s1)) (pw_status w)\<rparr>, True, errs)
         else (s1, w, True, errs @ [ResourceSave]))"

fun track_resources ::
  "taint_env \<Rightarrow> skyhookNodes list \<Rightarrow> pass_world \<times> bool \<times> pass_error list \<Rightarrow> skyhookNodes list \<times> pass_world \<times> bool \<times> pass_error list" where
  "track_resources env [] acc = ([], acc)"
| "track_resources env (s # ss) acc =
     (let (s1, acc1) = track_resource env s acc; (ss1, acc2) = track_resources env ss acc1 in (s1 # ss1, acc2))"

definition TrackReboots ::
  "taint_env \<Rightarrow> skyhookNodes list \<Rightarrow> pass_world \<Rightarrow> skyhookNodes list \<times> pass_world \<times> bool \<times> pass_error list" where
  "TrackReboots env ss w = track_resources env ss (w, False, [])"

section \<open>Removing the taint\<close>

definition runtimeRequiredCordonAfterEnabled :: "skyhookNodes list \<Rightarrow> bool" where
  "runtimeRequiredCordonAfterEnabled ss = list_ex (\<lambda>s. RuntimeRequired (sh_Spec s) \<and> RuntimeRequiredCordonAfter (sh_Spec s)) ss"

type_synonym node_groups = "(string, skyhookNodes list) gomap \<times> (string, Node) gomap"

definition group_node :: "skyhookNodes \<Rightarrow> cnode \<Rightarrow> node_groups \<Rightarrow> node_groups" where
  "group_node s c groups =
     (let (by_node, nodes) = groups; node = sn_Node (cn_node c)
      in case map_of by_node (n_UID node) of
           None \<Rightarrow> (gput (n_UID node) [s] by_node, gput (n_UID node) node nodes)
         | Some ss \<Rightarrow> (gput (n_UID node) (ss @ [s]) by_node, nodes))"

definition groupSkyhooksByNode :: "skyhookNodes list \<Rightarrow> node_groups" where
  "groupSkyhooksByNode ss =
     fold (\<lambda>s groups. if RuntimeRequired (sh_Spec s) then fold (group_node s) (sh_nodes s) groups else groups) ss ([], [])"

definition complete_on :: "Node \<Rightarrow> skyhookNodes \<Rightarrow> bool" where
  "complete_on node s = (case find_node s (n_Name node) of None \<Rightarrow> False | Some c \<Rightarrow> node_complete s c)"

definition getRuntimeRequiredTaintCompleteNodes :: "node_groups \<Rightarrow> Node list" where
  "getRuntimeRequiredTaintCompleteNodes groups =
     concat (map (\<lambda>(uid, ss). case map_of (snd groups) uid of
                    None \<Rightarrow> [] | Some node \<Rightarrow> if list_all (complete_on node) ss then [node] else []) (fst groups))"

definition strip_taint :: "Taint \<Rightarrow> bool \<times> Node \<Rightarrow> bool \<times> Node" where
  "strip_taint t x =
     (let (changed, node) = x; (ts, updated) = RemoveTaint (n_Taints node) t in if updated then (True, node\<lparr>n_Taints := ts\<rparr>) else x)"

definition runtime_cordon :: "Node \<Rightarrow> Node" where
  "runtime_cordon node =
     node\<lparr>n_Annotations := gput RuntimeRequiredCordonAnnotation annotationTrueValue (n_Annotations node), Unschedulable := True\<rparr>"

definition strip_taints :: "Taint list \<Rightarrow> bool \<Rightarrow> node_mutation" where
  "strip_taints taintsToRemove cordonAfter node =
     (let (changed, current) = fold strip_taint taintsToRemove (False, node)
      in Some (changed, if changed \<and> cordonAfter then runtime_cordon current else current))"

text \<open>Read, computed and written in each attempt, under the lock.\<close>

definition removeRuntimeRequiredTaints :: "api_env \<Rightarrow> Taint list \<Rightarrow> bool \<Rightarrow> versioned option \<Rightarrow> versioned option \<times> (patch_error + unit)" where
  "removeRuntimeRequiredTaints api taintsToRemove cordonAfter server =
     RetryOnConflict DefaultRetry_Steps (patch_attempt api (strip_taints taintsToRemove cordonAfter)) 0 server"

definition remove_from :: "taint_env \<Rightarrow> node_groups \<Rightarrow> Node \<Rightarrow> pass_world \<times> pass_error list \<Rightarrow> pass_world \<times> pass_error list" where
  "remove_from env groups node acc =
     (let (w, errs) = acc;
          cordonAfter = runtimeRequiredCordonAfterEnabled (case map_of (fst groups) (n_UID node) of None \<Rightarrow> [] | Some ss \<Rightarrow> ss);
          (server, r) = removeRuntimeRequiredTaints (te_remove env (n_Name node)) (recognised_taints (te_opts env)) cordonAfter
                          (map_of (pw_nodes w) (n_Name node))
      in (store_node (n_Name node) server w, errs @ (case r of Inl e \<Rightarrow> [NodeSave (n_Name node) e] | Inr _ \<Rightarrow> [])))"

text \<open>A node of the listing that was uncordoned by somebody else, who left our annotation.\<close>

definition forget_cordon :: "taint_env \<Rightarrow> versioned \<Rightarrow> pass_world \<times> pass_error list \<Rightarrow> pass_world \<times> pass_error list" where
  "forget_cordon env listed acc =
     (let (w, errs) = acc; (node, v) = listed
      in if Unschedulable node \<or> map_of (n_Annotations node) RuntimeRequiredCordonAnnotation = None then acc
         else
           (let api = te_stale env (n_Name node);
                (server, r) = locked_patch api 0 v node (node\<lparr>n_Annotations := gdel RuntimeRequiredCordonAnnotation (n_Annotations node)\<rparr>)
                                (before_patch api 0 (map_of (pw_nodes w) (n_Name node)))
            in (store_node (n_Name node) server w, errs @ (case r of Inl e \<Rightarrow> [NodeSave (n_Name node) e] | Inr _ \<Rightarrow> []))))"

definition HandleRuntimeRequired ::
  "taint_env \<Rightarrow> skyhookNodes list \<Rightarrow> versioned list \<Rightarrow> pass_world \<Rightarrow> pass_world \<times> pass_error list" where
  "HandleRuntimeRequired env ss listing w =
     (let groups = groupSkyhooksByNode ss
      in fold (forget_cordon env) listing (fold (remove_from env groups) (getRuntimeRequiredTaintCompleteNodes groups) (w, [])))"
section \<open>Which nodes lose the taint\<close>

definition runtime_pairs :: "skyhookNodes list \<Rightarrow> (skyhookNodes \<times> cnode) list" where
  "runtime_pairs ss = concat (map (\<lambda>s. if RuntimeRequired (sh_Spec s) then map (Pair s) (sh_nodes s) else []) ss)"

abbreviation uid_of :: "cnode \<Rightarrow> string" where
  "uid_of c \<equiv> n_UID (sn_Node (cn_node c))"

text \<open>Names and identities of the nodes agree, as they do in a cluster.\<close>

definition names_identify :: "skyhookNodes list \<Rightarrow> bool" where
  "names_identify ss \<longleftrightarrow>
     (\<forall>(s, c) \<in> set (runtime_pairs ss). \<forall>(t, d) \<in> set (runtime_pairs ss). uid_of c = uid_of d \<longleftrightarrow> cn_Name c = cn_Name d)"

lemma names_identifyD:
  "names_identify ss \<Longrightarrow> (s, c) \<in> set (runtime_pairs ss) \<Longrightarrow> (t, d) \<in> set (runtime_pairs ss) \<Longrightarrow> uid_of c = uid_of d \<longleftrightarrow> cn_Name c = cn_Name d"
  unfolding names_identify_def by fastforce

text \<open>A resource that must run first has the node, and each of them that has it is complete on it.\<close>

definition runtime_complete :: "skyhookNodes list \<Rightarrow> string \<Rightarrow> bool" where
  "runtime_complete ss name \<longleftrightarrow>
     (\<exists>s \<in> set ss. RuntimeRequired (sh_Spec s) \<and> find_node s name \<noteq> None) \<and>
     (\<forall>s \<in> set ss. RuntimeRequired (sh_Spec s) \<longrightarrow> (case find_node s name of None \<Rightarrow> True | Some c \<Rightarrow> node_complete s c))"

lemma group_pairs: "groupSkyhooksByNode ss = fold (\<lambda>(s, c). group_node s c) (runtime_pairs ss) ([], [])"
proof -
  have inner: "fold (group_node s) cs x = fold (\<lambda>(s, c). group_node s c) (map (Pair s) cs) x" for s cs x
    by (induction cs arbitrary: x) simp_all
  have "fold (\<lambda>s groups. if RuntimeRequired (sh_Spec s) then fold (group_node s) (sh_nodes s) groups else groups) ss x =
      fold (\<lambda>(s, c). group_node s c) (runtime_pairs ss) x" for x
    by (induction ss arbitrary: x) (simp_all add: runtime_pairs_def inner)
  then show ?thesis by (simp add: groupSkyhooksByNode_def)
qed

lemma group_lookup:
  "gomap_ok (fst (fold (\<lambda>(s, c). group_node s c) ps ([], []))) \<and>
   (let here = filter (\<lambda>(s, c). uid_of c = uid) ps; groups = fold (\<lambda>(s, c). group_node s c) ps ([], [])
    in map_of (fst groups) uid = (if here = [] then None else Some (map fst here)) \<and>
       map_of (snd groups) uid = (if here = [] then None else Some (sn_Node (cn_node (snd (hd here))))))"
proof (induction ps rule: rev_induct)
  case (snoc p ps)
  obtain s c where p: "p = (s, c)" by (cases p)
  obtain b n where g: "fold (\<lambda>(s, c). group_node s c) ps ([], []) = (b, n)" by (cases "fold (\<lambda>(s, c). group_node s c) ps ([], [])")
  have step: "group_node s c (b, n) = (case map_of b (uid_of c) of
      None \<Rightarrow> (gput (uid_of c) [s] b, gput (uid_of c) (sn_Node (cn_node c)) n) | Some ss \<Rightarrow> (gput (uid_of c) (ss @ [s]) b, n))"
    by (simp add: group_node_def Let_def)
  note IH = snoc.IH [unfolded g Let_def fst_conv snd_conv]
  show ?case
  proof (cases "uid_of c = uid")
    case True
    with IH show ?thesis by (cases "filter (\<lambda>(s, c). uid_of c = uid) ps = []") (simp_all add: p g step)
  next
    case False
    with IH show ?thesis by (cases "map_of b (uid_of c)") (simp_all add: p g step)
  qed
qed simp

lemma pairs_iff: "(s, c) \<in> set (runtime_pairs ss) \<longleftrightarrow> s \<in> set ss \<and> RuntimeRequired (sh_Spec s) \<and> c \<in> set (sh_nodes s)"
  by (auto simp: runtime_pairs_def)

lemma find_node_pair:
  "s \<in> set ss \<Longrightarrow> RuntimeRequired (sh_Spec s) \<Longrightarrow> find_node s name = Some c \<Longrightarrow> (s, c) \<in> set (runtime_pairs ss) \<and> cn_Name c = name"
  using find_node_Some [of s name c] by (simp add: pairs_iff)

lemma node_found: "c \<in> set (sh_nodes s) \<Longrightarrow> \<exists>d. find_node s (cn_Name c) = Some d"
  by (cases "find_node s (cn_Name c)") (auto simp: find_node_def find_None_iff)

lemma to_remove_iff:
  "node \<in> set (getRuntimeRequiredTaintCompleteNodes (groupSkyhooksByNode ss)) \<longleftrightarrow>
   (let here = filter (\<lambda>(s, c). uid_of c = n_UID node) (runtime_pairs ss)
    in here \<noteq> [] \<and> node = sn_Node (cn_node (snd (hd here))) \<and> (\<forall>(s, c) \<in> set here. complete_on node s))"
proof -
  let ?g = "groupSkyhooksByNode ss" and ?here = "\<lambda>uid. filter (\<lambda>(s, c). uid_of c = uid) (runtime_pairs ss)"
  have ok: "gomap_ok (fst ?g)" and l: "\<And>uid. map_of (fst ?g) uid = (if ?here uid = [] then None else Some (map fst (?here uid)))"
    "\<And>uid. map_of (snd ?g) uid = (if ?here uid = [] then None else Some (sn_Node (cn_node (snd (hd (?here uid))))))"
    using group_lookup [of "runtime_pairs ss"] unfolding group_pairs Let_def by blast+
  have m: "(uid, l) \<in> set (fst ?g) \<longleftrightarrow> ?here uid \<noteq> [] \<and> l = map fst (?here uid)" for uid l
    using map_of_eq_Some_iff [OF ok, of uid l] l(1) [of uid] by (auto split: if_splits)
  have hd: "uid_of (snd (hd (?here uid))) = uid" if "?here uid \<noteq> []" for uid
    using hd_in_set [OF that] by auto
  have own: "n_UID node = uid" if "?here uid \<noteq> []" "node = sn_Node (cn_node (snd (hd (?here uid))))" for uid
    using hd [OF that(1)] that(2) by simp
  have "node \<in> set (getRuntimeRequiredTaintCompleteNodes ?g) \<longleftrightarrow>
      (\<exists>uid l. (uid, l) \<in> set (fst ?g) \<and> map_of (snd ?g) uid = Some node \<and> list_all (complete_on node) l)"
    unfolding getRuntimeRequiredTaintCompleteNodes_def by (auto split: option.splits if_splits) metis+
  also have "\<dots> \<longleftrightarrow> (\<exists>uid. ?here uid \<noteq> [] \<and> node = sn_Node (cn_node (snd (hd (?here uid)))) \<and> (\<forall>(s, c) \<in> set (?here uid). complete_on node s))"
    by (simp only: m l(2)) (auto simp: list_all_iff split: if_splits)
  also have "\<dots> \<longleftrightarrow> (let here = ?here (n_UID node) in here \<noteq> [] \<and> node = sn_Node (cn_node (snd (hd here))) \<and> (\<forall>(s, c) \<in> set here. complete_on node s))"
    unfolding Let_def
  proof (intro iffI, elim exE conjE)
    fix uid
    assume h: "?here uid \<noteq> []" "node = sn_Node (cn_node (snd (hd (?here uid))))" and c: "\<forall>(s, c) \<in> set (?here uid). complete_on node s"
    show "?here (n_UID node) \<noteq> [] \<and> node = sn_Node (cn_node (snd (hd (?here (n_UID node))))) \<and> (\<forall>(s, c) \<in> set (?here (n_UID node)). complete_on node s)"
      unfolding own [OF h] using h c by (intro conjI)
  qed (rule exI)
  finally show ?thesis .
qed
lemma first_here:
  assumes "node \<in> set (getRuntimeRequiredTaintCompleteNodes (groupSkyhooksByNode ss))"
  shows "\<exists>s0 c0. (s0, c0) \<in> set (runtime_pairs ss) \<and> node = sn_Node (cn_node c0) \<and>
    (\<forall>s c. (s, c) \<in> set (runtime_pairs ss) \<longrightarrow> uid_of c = n_UID node \<longrightarrow> complete_on node s)"
proof -
  let ?here = "filter (\<lambda>(s, c). uid_of c = n_UID node) (runtime_pairs ss)"
  obtain s0 c0 where hd: "hd ?here = (s0, c0)" by (cases "hd ?here")
  have h: "?here \<noteq> []" "node = sn_Node (cn_node (snd (hd ?here)))" "\<forall>(s, c) \<in> set ?here. complete_on node s"
    using assms [unfolded to_remove_iff Let_def] by - (elim conjE, assumption)+
  have "(s0, c0) \<in> set ?here" using hd_in_set [OF h(1)] unfolding hd .
  then show ?thesis using h(2,3) unfolding hd by auto
qed

lemma to_remove_names:
  assumes "names_identify ss"
  shows "name \<in> n_Name ` set (getRuntimeRequiredTaintCompleteNodes (groupSkyhooksByNode ss)) \<longleftrightarrow> runtime_complete ss name"
proof
  assume "name \<in> n_Name ` set (getRuntimeRequiredTaintCompleteNodes (groupSkyhooksByNode ss))"
  then obtain node where "node \<in> set (getRuntimeRequiredTaintCompleteNodes (groupSkyhooksByNode ss))" and n: "n_Name node = name" by blast
  then obtain s0 c0 where h: "(s0, c0) \<in> set (runtime_pairs ss)" "node = sn_Node (cn_node c0)"
    and all: "\<And>s c. (s, c) \<in> set (runtime_pairs ss) \<Longrightarrow> uid_of c = n_UID node \<Longrightarrow> complete_on node s"
    using first_here by blast
  have "node_complete s c" if "s \<in> set ss" "RuntimeRequired (sh_Spec s)" "find_node s name = Some c" for s c
  proof -
    have sc: "(s, c) \<in> set (runtime_pairs ss)" "cn_Name c = name" using find_node_pair [OF that] by simp_all
    then have "uid_of c = n_UID node" using assms h n unfolding names_identify_def by fastforce
    then show ?thesis using all [OF sc(1)] that(3) n by (simp add: complete_on_def)
  qed
  moreover have "\<exists>s \<in> set ss. RuntimeRequired (sh_Spec s) \<and> find_node s name \<noteq> None"
    using h n node_found [of c0 s0] by (auto simp: pairs_iff)
  ultimately show "runtime_complete ss name" by (auto simp: runtime_complete_def split: option.split)
next
  assume r: "runtime_complete ss name"
  then obtain s0 c0 where s0: "s0 \<in> set ss" "RuntimeRequired (sh_Spec s0)" "find_node s0 name = Some c0" by (auto simp: runtime_complete_def)
  let ?here = "filter (\<lambda>(s, c). uid_of c = uid_of c0) (runtime_pairs ss)"
  have p0: "(s0, c0) \<in> set ?here" "cn_Name c0 = name" using find_node_pair [OF s0] by simp_all
  then have ne: "?here \<noteq> []" by (metis empty_iff empty_set)
  obtain s1 c1 where hd: "hd ?here = (s1, c1)" by (cases "hd ?here")
  have p1: "(s1, c1) \<in> set ?here" using hd_in_set [OF ne] by (simp add: hd)
  then have same: "cn_Name c1 = name" "uid_of c1 = uid_of c0" using p0 assms unfolding names_identify_def by fastforce+
  have "complete_on (sn_Node (cn_node c1)) s" if "(s, c) \<in> set ?here" for s c
  proof -
    have sc: "s \<in> set ss" "RuntimeRequired (sh_Spec s)" "c \<in> set (sh_nodes s)" using that by (auto simp: pairs_iff)
    have "cn_Name c = name" using that p0 assms unfolding names_identify_def by fastforce
    then obtain d where d: "find_node s name = Some d" using node_found [OF sc(3)] by auto
    then have "node_complete s d" using r sc by (auto simp: runtime_complete_def)
    then show ?thesis using d same by (simp add: complete_on_def)
  qed
  then have "sn_Node (cn_node c1) \<in> set (getRuntimeRequiredTaintCompleteNodes (groupSkyhooksByNode ss))"
    unfolding to_remove_iff Let_def same(2) using ne hd by (auto simp del: filter_empty_conv)
  then show "name \<in> n_Name ` set (getRuntimeRequiredTaintCompleteNodes (groupSkyhooksByNode ss))" using same(1) by force
qed
section \<open>What the removal writes\<close>

definition recognised :: "Taint list \<Rightarrow> Taint \<Rightarrow> bool" where
  "recognised ts u \<longleftrightarrow> list_ex (\<lambda>t. MatchTaint t u) ts"

lemma MatchTaint_sym: "MatchTaint t u \<longleftrightarrow> MatchTaint u t"
  by (auto simp: MatchTaint_def)

lemma hasAny_iff: "hasAnyTaint node ts \<longleftrightarrow> list_ex (recognised ts) (n_Taints node)"
  unfolding hasAnyTaint_def TaintExists_def recognised_def list_ex_iff using MatchTaint_sym by blast

lemma strip_taint_step:
  "strip_taint t (changed, node) =
     (changed \<or> TaintExists (n_Taints node) t, node\<lparr>n_Taints := filter (\<lambda>u. \<not> MatchTaint t u) (n_Taints node)\<rparr>)"
proof (cases "TaintExists (n_Taints node) t")
  case False
  then have "filter (\<lambda>u. \<not> MatchTaint t u) (n_Taints node) = n_Taints node"
    using MatchTaint_sym by (auto simp: TaintExists_def list_ex_iff filter_id_conv)
  with False show ?thesis by (simp add: strip_taint_def RemoveTaint_def)
qed (simp add: strip_taint_def RemoveTaint_def)

lemma strip_all:
  "fold strip_taint ts (changed, node) =
     (changed \<or> hasAnyTaint node ts, node\<lparr>n_Taints := filter (\<lambda>u. \<not> recognised ts u) (n_Taints node)\<rparr>)"
proof (induction ts arbitrary: changed node)
  case (Cons t ts)
  let ?f = "\<lambda>ts. filter (\<lambda>u. \<not> MatchTaint t u) ts"
  have "TaintExists (n_Taints node) t \<or> list_ex (recognised ts) (?f (n_Taints node)) \<longleftrightarrow> hasAnyTaint node (t # ts)"
    using MatchTaint_sym by (auto simp: hasAny_iff recognised_def TaintExists_def list_ex_iff)
  moreover have "filter (\<lambda>u. \<not> recognised ts u) (?f (n_Taints node)) = filter (\<lambda>u. \<not> recognised (t # ts) u) (n_Taints node)"
    by (simp add: recognised_def conj_commute)
  ultimately show ?case unfolding fold_simps strip_taint_step Cons.IH by (simp add: hasAny_iff)
qed (simp_all add: hasAnyTaint_def recognised_def)

text \<open>A patch replaces the list of taints and the scheduling flag where its two sides differ.\<close>

definition patches_scheduling :: "api_env \<Rightarrow> bool" where
  "patches_scheduling api \<longleftrightarrow>
     (\<forall>base new current.
        n_Taints (merge_patch api base new current) = (if n_Taints base = n_Taints new then n_Taints current else n_Taints new) \<and>
        Unschedulable (merge_patch api base new current) =
          (if Unschedulable base = Unschedulable new then Unschedulable current else Unschedulable new))"

text \<open>
  C32. Removing the taint never opens a node that is to stay closed.  Whatever other writers do, and however often the write has to be
  tried again, a removal that succeeds has found the node gone or without a recognised taint, or has replaced the node as it was
  stored at that moment by one without the recognised taints, with every other taint and annotation kept, and in the same write, where a
  cordon was asked for, unschedulable and marked so.
\<close>

theorem removal_keeps_gate:
  assumes "removeRuntimeRequiredTaints api ts cordonAfter server = (server', Inr ())"
    and "versions_identify api server" and "patches_scheduling api" and "patches_annotations api"
  shows "\<exists>i<5.
     (server' = server_at_read api i server \<and> readNodeForPatch api i server' = Absent) \<or>
     (\<exists>node v. server' = server_at_read api i server \<and> readNodeForPatch api i server' = Found (node, v) \<and> \<not> hasAnyTaint node ts) \<or>
     (\<exists>current v stored. server_at_write api i server = Some (current, v) \<and> server' = Some (stored, Suc v) \<and> hasAnyTaint current ts \<and>
        n_Taints stored = filter (\<lambda>u. \<not> recognised ts u) (n_Taints current) \<and>
        Unschedulable stored = (cordonAfter \<or> Unschedulable current) \<and>
        (\<forall>a. map_of (n_Annotations stored) a =
           (if cordonAfter \<and> a = RuntimeRequiredCordonAnnotation then Some ''true'' else map_of (n_Annotations current) a)))"
proof -
  let ?m = "strip_taints ts cordonAfter"
  have mut: "?m node = Some (hasAnyTaint node ts, if hasAnyTaint node ts \<and> cordonAfter
      then runtime_cordon (node\<lparr>n_Taints := filter (\<lambda>u. \<not> recognised ts u) (n_Taints node)\<rparr>)
      else node\<lparr>n_Taints := filter (\<lambda>u. \<not> recognised ts u) (n_Taints node)\<rparr>)" for node
    by (simp add: strip_taints_def strip_all)
  have "patchNodeState api ?m server = (server', Inr ())"
    using assms(1) by (simp add: patchNodeState_def removeRuntimeRequiredTaints_def)
  from patch_settles [OF this assms(2)] obtain i where i: "i < 5" and
    cases: "(server' = server_at_read api i server \<and> readNodeForPatch api i server' = Absent) \<or>
     (\<exists>node v node'. server' = server_at_read api i server \<and> readNodeForPatch api i server' = Found (node, v) \<and> ?m node = Some (False, node')) \<or>
     (\<exists>current v node'. server_at_write api i server = Some (current, v) \<and> ?m current = Some (True, node') \<and>
        server' = Some (merge_patch api current node' current, Suc v))" by blast
  have "n_Taints (merge_patch api current node' current) = filter (\<lambda>u. \<not> recognised ts u) (n_Taints current) \<and>
      Unschedulable (merge_patch api current node' current) = (cordonAfter \<or> Unschedulable current) \<and>
      (\<forall>a. map_of (n_Annotations (merge_patch api current node' current)) a =
        (if cordonAfter \<and> a = RuntimeRequiredCordonAnnotation then Some ''true'' else map_of (n_Annotations current) a)) \<and> hasAnyTaint current ts"
    if "?m current = Some (True, node')" for current node'
    using that assms(3,4) unfolding mut patches_scheduling_def patches_annotations_def
    by (auto simp: runtime_cordon_def annotationTrueValue_def split: if_splits)
  with cases i show ?thesis unfolding mut by (intro exI [of _ i]) auto
qed
section \<open>The taint in a quiet cluster\<close>

text \<open>The API server in a pass that meets no other writer: the cache is fresh, requests succeed, and a patch of the stored node gives the
  node it was made for.\<close>

definition quiet_api :: "api_env \<Rightarrow> versioned option \<Rightarrow> bool" where
  "quiet_api api server \<longleftrightarrow>
     cached api 0 = (case server of None \<Rightarrow> Absent | Some found \<Rightarrow> Found found) \<and> \<not> patch_fault api 0 \<and>
     before_read api 0 = (\<lambda>s. s) \<and> before_patch api 0 = (\<lambda>s. s) \<and> (\<forall>base new. merge_patch api base new base = new)"

definition gated :: "Taint list \<Rightarrow> bool \<Rightarrow> Node \<Rightarrow> Node" where
  "gated ts cordonAfter node = snd (the (strip_taints ts cordonAfter node))"

lemma quiet_removal:
  assumes "quiet_api api server"
  shows "removeRuntimeRequiredTaints api ts cordonAfter server =
    (map_option (\<lambda>(node, v). if hasAnyTaint node ts then (gated ts cordonAfter node, Suc v) else (node, v)) server, Inr ())"
  using assms
  by (auto simp: quiet_api_def removeRuntimeRequiredTaints_def numeral_eq_Suc patch_attempt_def readNodeForPatch_def Let_def gated_def
      strip_taints_def strip_all locked_patch_def split: option.split)

definition asks_cordon :: "skyhookNodes list \<Rightarrow> string \<Rightarrow> bool" where
  "asks_cordon ss name \<longleftrightarrow>
     (\<exists>s \<in> set ss. RuntimeRequired (sh_Spec s) \<and> RuntimeRequiredCordonAfter (sh_Spec s) \<and> find_node s name \<noteq> None)"

lemma store_lookup [simp]: "map_of (pw_nodes (store_node name server w)) n = (if n = name then server else map_of (pw_nodes w) n)"
  by (simp add: store_node_def split: option.split)

lemma group_cordon:
  assumes "names_identify ss" and "node \<in> set (getRuntimeRequiredTaintCompleteNodes (groupSkyhooksByNode ss))"
  shows "runtimeRequiredCordonAfterEnabled (case map_of (fst (groupSkyhooksByNode ss)) (n_UID node) of None \<Rightarrow> [] | Some l \<Rightarrow> l) \<longleftrightarrow>
    asks_cordon ss (n_Name node)"
proof -
  let ?here = "filter (\<lambda>(s, c). uid_of c = n_UID node) (runtime_pairs ss)"
  obtain s0 c0 where h: "(s0, c0) \<in> set (runtime_pairs ss)" "node = sn_Node (cn_node c0)" using first_here [OF assms(2)] by blast
  have l: "map_of (fst (groupSkyhooksByNode ss)) (n_UID node) = (if ?here = [] then None else Some (map fst ?here))"
    using group_lookup [of "runtime_pairs ss" "n_UID node"] unfolding group_pairs Let_def by blast
  have "s \<in> fst ` set ?here \<longleftrightarrow> s \<in> set ss \<and> RuntimeRequired (sh_Spec s) \<and> find_node s (n_Name node) \<noteq> None" for s
  proof
    assume "s \<in> fst ` set ?here"
    then obtain c where c: "(s, c) \<in> set (runtime_pairs ss)" "uid_of c = uid_of c0" using h(2) by auto
    then have "cn_Name c = cn_Name c0" using assms(1) h(1) unfolding names_identify_def by fastforce
    then show "s \<in> set ss \<and> RuntimeRequired (sh_Spec s) \<and> find_node s (n_Name node) \<noteq> None"
      using c(1) h(2) node_found [of c s] by (auto simp: pairs_iff)
  next
    assume s: "s \<in> set ss \<and> RuntimeRequired (sh_Spec s) \<and> find_node s (n_Name node) \<noteq> None"
    then obtain c where "find_node s (n_Name node) = Some c" by blast
    with s have c: "(s, c) \<in> set (runtime_pairs ss)" "cn_Name c = cn_Name c0" using find_node_pair h(2) by auto
    then have "uid_of c = n_UID node" using assms(1) h unfolding names_identify_def by fastforce
    with c(1) show "s \<in> fst ` set ?here" by force
  qed
  moreover have "(case map_of (fst (groupSkyhooksByNode ss)) (n_UID node) of None \<Rightarrow> [] | Some l \<Rightarrow> l) = map fst ?here" by (simp add: l)
  ultimately show ?thesis unfolding runtimeRequiredCordonAfterEnabled_def asks_cordon_def list_ex_iff by (simp only: set_map) blast
qed

definition after_removal :: "Taint list \<Rightarrow> skyhookNodes list \<Rightarrow> string \<Rightarrow> versioned option \<Rightarrow> versioned option" where
  "after_removal ts ss name server =
     map_option (\<lambda>(node, v). if hasAnyTaint node ts then (gated ts (asks_cordon ss name) node, Suc v) else (node, v)) server"

lemma remove_fold:
  assumes "names_identify ss" and "set nodes \<subseteq> set (getRuntimeRequiredTaintCompleteNodes (groupSkyhooksByNode ss))"
    and "distinct (map n_Name nodes)" and "\<And>node. node \<in> set nodes \<Longrightarrow> quiet_api (te_remove env (n_Name node)) (map_of (pw_nodes w) (n_Name node))"
  shows "map_of (pw_nodes (fst (fold (remove_from env (groupSkyhooksByNode ss)) nodes (w, errs)))) name =
    (if name \<in> n_Name ` set nodes then after_removal (recognised_taints (te_opts env)) ss name (map_of (pw_nodes w) name) else map_of (pw_nodes w) name)"
  using assms(2-)
proof (induction nodes arbitrary: w errs)
  case (Cons node nodes)
  let ?w = "fst (remove_from env (groupSkyhooksByNode ss) node (w, errs))" and ?e = "snd (remove_from env (groupSkyhooksByNode ss) node (w, errs))"
  have l: "map_of (pw_nodes ?w) n =
      (if n = n_Name node then after_removal (recognised_taints (te_opts env)) ss n (map_of (pw_nodes w) n) else map_of (pw_nodes w) n)" for n
    using group_cordon [OF assms(1), of node] quiet_removal [OF Cons.prems(3) [of node]] Cons.prems(1)
    by (simp add: remove_from_def Let_def after_removal_def)
  have "quiet_api (te_remove env (n_Name m)) (map_of (pw_nodes ?w) (n_Name m))" if "m \<in> set nodes" for m
    using Cons.prems(2) Cons.prems(3) [of m] that by (auto simp: l image_iff)
  then show ?case using Cons.IH [of ?w ?e] Cons.prems(1,2) l by auto
qed simp

lemma apart: "A \<subseteq> {a} \<Longrightarrow> B \<subseteq> C \<Longrightarrow> a \<notin> C \<Longrightarrow> A \<inter> B = {}"
  by blast

lemma to_remove_distinct:
  assumes "names_identify ss"
  shows "distinct (map n_Name (getRuntimeRequiredTaintCompleteNodes (groupSkyhooksByNode ss)))"
proof -
  let ?g = "groupSkyhooksByNode ss" and ?r = "getRuntimeRequiredTaintCompleteNodes (groupSkyhooksByNode ss)"
  have look: "gomap_ok (fst ?g)" "\<And>uid node. map_of (snd ?g) uid = Some node \<Longrightarrow> n_UID node = uid"
  proof -
    show "gomap_ok (fst ?g)" using group_lookup [of "runtime_pairs ss"] unfolding group_pairs Let_def by blast
    fix uid node
    let ?here = "filter (\<lambda>(s, c). uid_of c = uid) (runtime_pairs ss)"
    assume "map_of (snd ?g) uid = Some node"
    then have "?here \<noteq> [] \<and> node = sn_Node (cn_node (snd (hd ?here)))"
      using group_lookup [of "runtime_pairs ss" uid] unfolding group_pairs Let_def by (metis option.distinct(1) option.inject)
    then show "n_UID node = uid" using hd_in_set [of ?here] by auto
  qed
  define picked where "picked = (\<lambda>(uid, l). case map_of (snd ?g) uid of
      None \<Rightarrow> [] | Some node \<Rightarrow> if list_all (complete_on node) l then [node] else [])"
  have one: "map n_UID (picked x) = [] \<or> map n_UID (picked x) = [fst x]" for x
    using look(2) by (cases x) (simp add: picked_def split: option.split)
  then have own: "n_UID ` set (picked x) \<subseteq> {fst x}" for x by (metis empty_subsetI image_set list.set(1,2) order_refl)
  have "distinct (map n_UID (concat (map picked xs)))" if "gomap_ok xs" for xs
    using that
  proof (induction xs)
    case (Cons x xs)
    have "n_UID n \<in> fst ` set xs" if "y \<in> set xs" "n \<in> set (picked y)" for y n using own [of y] that by auto
    then have below: "n_UID ` set (concat (map picked xs)) \<subseteq> fst ` set xs" by auto
    have "n_UID ` set (picked x) \<inter> n_UID ` set (concat (map picked xs)) = {}"
      by (rule apart [OF own below]) (use Cons.prems in simp)
    moreover have "distinct (map n_UID (picked x))" using one [of x] by auto
    ultimately show ?case using Cons by simp
  qed simp
  then have d: "distinct (map n_UID ?r)" using look(1) by (simp add: getRuntimeRequiredTaintCompleteNodes_def picked_def)
  have u: "n_UID a = n_UID b" if h: "a \<in> set ?r" "b \<in> set ?r" "n_Name a = n_Name b" for a b
  proof -
    obtain s c where a: "(s, c) \<in> set (runtime_pairs ss)" "a = sn_Node (cn_node c)" using first_here [OF h(1)] by blast
    obtain t d where b: "(t, d) \<in> set (runtime_pairs ss)" "b = sn_Node (cn_node d)" using first_here [OF h(2)] by blast
    show ?thesis using names_identifyD [OF assms a(1) b(1)] h(3) a(2) b(2) by simp
  qed
  have r: "distinct ?r" "inj_on n_UID (set ?r)" using d unfolding distinct_map by simp_all
  have "inj_on n_Name (set ?r)" using inj_onD [OF r(2) u] by (intro inj_onI)
  then show ?thesis unfolding distinct_map using r(1) by simp
qed
text \<open>What the sweep of forgotten cordons leaves as it is.\<close>

definition gate :: "versioned option \<Rightarrow> (Taint list \<times> bool \<times> bool) option" where
  "gate server = map_option (\<lambda>(node, v). (n_Taints node, Unschedulable node,
     Unschedulable node \<and> map_of (n_Annotations node) RuntimeRequiredCordonAnnotation \<noteq> None)) server"

definition follows :: "versioned list \<Rightarrow> pass_world \<Rightarrow> bool" where
  "follows listing w \<longleftrightarrow>
     (\<forall>(node, v) \<in> set listing. \<exists>current u. map_of (pw_nodes w) (n_Name node) = Some (current, u) \<and> v \<le> u \<and> (u = v \<longrightarrow> current = node))"

lemma forget_step:
  assumes "follows listing w" and "(node, v) \<in> set listing" and "quiet_api (te_stale env (n_Name node)) s0"
    and same: "\<And>m u. (m, u) \<in> set listing \<Longrightarrow> n_Name m = n_Name node \<Longrightarrow> (m, u) = (node, v)"
  shows "follows listing (fst (forget_cordon env (node, v) (w, errs))) \<and>
    gate (map_of (pw_nodes (fst (forget_cordon env (node, v) (w, errs)))) name) = gate (map_of (pw_nodes w) name)"
proof -
  let ?api = "te_stale env (n_Name node)" and ?new = "node\<lparr>n_Annotations := gdel RuntimeRequiredCordonAnnotation (n_Annotations node)\<rparr>"
  obtain current u where cur: "map_of (pw_nodes w) (n_Name node) = Some (current, u)" "v \<le> u" "u = v \<longrightarrow> current = node"
    using assms(1,2) unfolding follows_def by fastforce
  have q: "before_patch ?api 0 = (\<lambda>s. s)" "\<not> patch_fault ?api 0" "\<And>b n. merge_patch ?api b n b = n" using assms(3) by (simp_all add: quiet_api_def)
  show ?thesis
  proof (cases "Unschedulable node \<or> map_of (n_Annotations node) RuntimeRequiredCordonAnnotation = None \<or> u \<noteq> v")
    case True
    have "map_of (pw_nodes (fst (forget_cordon env (node, v) (w, errs)))) n = map_of (pw_nodes w) n" for n
      using True cur q by (auto simp: forget_cordon_def locked_patch_def Let_def)
    then show ?thesis using assms(1) by (simp add: follows_def)
  next
    case False
    then have l: "map_of (pw_nodes (fst (forget_cordon env (node, v) (w, errs)))) n = (if n = n_Name node then Some (?new, Suc v) else map_of (pw_nodes w) n)" for n
      using cur q by (auto simp: forget_cordon_def locked_patch_def Let_def)
    have "follows listing (fst (forget_cordon env (node, v) (w, errs)))"
      using assms(1) same unfolding follows_def l by fastforce
    then show ?thesis using False cur by (auto simp: l gate_def)
  qed
qed

lemma forget_all:
  assumes "\<And>node v m u. (node, v) \<in> set listing \<Longrightarrow> (m, u) \<in> set listing \<Longrightarrow> n_Name m = n_Name node \<Longrightarrow> (m, u) = (node, v)"
    and "\<And>name. \<exists>s0. quiet_api (te_stale env name) s0"
  shows "set part \<subseteq> set listing \<Longrightarrow> follows listing (fst acc) \<Longrightarrow>
    gate (map_of (pw_nodes (fst (fold (forget_cordon env) part acc))) name) = gate (map_of (pw_nodes (fst acc)) name)"
proof (induction part arbitrary: acc)
  case (Cons x part)
  obtain node v where x: "x = (node, v)" by (cases x)
  obtain w errs where acc: "acc = (w, errs)" by (cases acc)
  obtain s0 where q: "quiet_api (te_stale env (n_Name node)) s0" using assms(2) by blast
  have "(node, v) \<in> set listing" using Cons.prems(1) by (simp add: x)
  from forget_step [OF Cons.prems(2) [unfolded acc fst_conv] this q assms(1) [OF this], of errs name] Cons show ?case
    by (simp add: x acc)
qed simp

text \<open>
  C8. The taint goes exactly when it may.  In a pass that meets no other writer, a node loses the taints the operator recognises if and
  only if a resource that must run first has it and every such resource is complete on it; its other taints stay, and so do all taints
  of the other nodes.  A node becomes unschedulable exactly when it loses such a taint and one of these resources asks for a cordon
  afterwards, and it carries the annotation for it; the sweep of forgotten cordons does not undo it.
\<close>

theorem runtime_gate_exact:
  assumes "HandleRuntimeRequired env ss listing w = (w', errs)" and "names_identify ss"
    and "\<And>n. quiet_api (te_remove env n) (map_of (pw_nodes w) n)" and "\<And>n. \<exists>s0. quiet_api (te_stale env n) s0"
    and "\<And>n v. (n, v) \<in> set listing \<Longrightarrow> map_of (pw_nodes w) (n_Name n) = Some (n, v)"
    and "map_of (pw_nodes w) name = Some (node, v)"
  shows "\<exists>node' v'. map_of (pw_nodes w') name = Some (node', v') \<and>
    n_Taints node' =
      (if runtime_complete ss name then filter (\<lambda>t. \<not> recognised (recognised_taints (te_opts env)) t) (n_Taints node) else n_Taints node) \<and>
    (Unschedulable node' \<longleftrightarrow> Unschedulable node \<or>
       (runtime_complete ss name \<and> hasAnyTaint node (recognised_taints (te_opts env)) \<and> asks_cordon ss name)) \<and>
    (runtime_complete ss name \<longrightarrow> hasAnyTaint node (recognised_taints (te_opts env)) \<longrightarrow> asks_cordon ss name \<longrightarrow>
       map_of (n_Annotations node') RuntimeRequiredCordonAnnotation \<noteq> None)"
proof -
  let ?ts = "recognised_taints (te_opts env)" and ?g = "groupSkyhooksByNode ss"
  obtain w1 errs1 where W: "fold (remove_from env ?g) (getRuntimeRequiredTaintCompleteNodes ?g) (w, []) = (w1, errs1)"
    by (cases "fold (remove_from env ?g) (getRuntimeRequiredTaintCompleteNodes ?g) (w, [])")
  have w1: "map_of (pw_nodes w1) n = (if runtime_complete ss n then after_removal ?ts ss n (map_of (pw_nodes w) n) else map_of (pw_nodes w) n)" for n
    using remove_fold [OF assms(2) subset_refl to_remove_distinct [OF assms(2)], of env w "[]" n] assms(3) to_remove_names [OF assms(2)] by (simp add: W)
  have unique: "(m, u) = (n, x)" if "(n, x) \<in> set listing" "(m, u) \<in> set listing" "n_Name m = n_Name n" for n x m u
    using assms(5) [OF that(1)] assms(5) [OF that(2)] that(3) by simp
  have follows: "follows listing w1"
    unfolding follows_def using assms(5) by (auto simp: w1 after_removal_def)
  have "gate (map_of (pw_nodes w') name) = gate (map_of (pw_nodes w1) name)"
    using forget_all [OF unique assms(4), of listing listing "(w1, errs1)" name] assms(1) follows
    by (simp add: HandleRuntimeRequired_def W)
  moreover have plain: "filter (\<lambda>t. \<not> recognised ?ts t) (n_Taints node) = n_Taints node" if "\<not> hasAnyTaint node ?ts"
    using that by (auto simp: hasAny_iff list_ex_iff filter_id_conv)
  moreover have "gate (map_of (pw_nodes w1) name) = gate (if runtime_complete ss name then after_removal ?ts ss name (Some (node, v)) else Some (node, v))"
    by (simp add: w1 assms(6))
  ultimately show ?thesis
    by (auto simp: gate_def after_removal_def gated_def strip_taints_def strip_all runtime_cordon_def split: if_splits)
qed
section \<open>After a reboot\<close>

text \<open>The answer to a patch carries the name of the node the patch was for.\<close>

definition answers_named :: "api_env \<Rightarrow> bool" where
  "answers_named api \<longleftrightarrow> (\<forall>base new current. n_Name (merge_patch api base new current) = n_Name new)"

lemma find_map_other: "(\<And>x. x \<in> set xs \<Longrightarrow> P x \<or> P (f x) \<Longrightarrow> f x = x) \<Longrightarrow> List.find P (map f xs) = List.find P xs"
  by (induction xs) (simp, simp, metis)

lemma put_work_find:
  "n_Name (sn_Node (fst y)) = name' \<Longrightarrow> name \<noteq> name' \<Longrightarrow> find_node (put_work name' y s) name = find_node s name"
  unfolding find_node_def put_work_def by (simp, rule find_map_other) auto

lemma put_work_found:
  "find_node s name = Some c \<Longrightarrow> n_Name (sn_Node (fst y)) = name \<Longrightarrow>
   find_node (put_work name y s) name = Some \<lparr>cn_node = fst y, cn_Updated = Updated (snd y)\<rparr>"
proof -
  assume "find_node s name = Some c" and y: "n_Name (sn_Node (fst y)) = name"
  moreover have "List.find (\<lambda>c. cn_Name c = name) (map (\<lambda>c. if cn_Name c = name then \<lparr>cn_node = fst y, cn_Updated = Updated (snd y)\<rparr> else c) cs) =
      map_option (\<lambda>_. \<lparr>cn_node = fst y, cn_Updated = Updated (snd y)\<rparr>) (List.find (\<lambda>c. cn_Name c = name) cs)" for cs
    using y by (induction cs) auto
  ultimately show ?thesis by (simp add: find_node_def put_work_def)
qed

lemma Reset_frame:
  assumes "Reset k node = (node', k')"
  shows "n_Name (sn_Node node') = n_Name (sn_Node node) \<and> n_BootID (sn_Node node') = n_BootID (sn_Node node) \<and>
    skyhookName node' = skyhookName node \<and> map_of (n_Annotations (sn_Node node')) (nodeState_key node) = None \<and> sn_updated node' \<and>
    NodeBootIds (sk_Status k') = NodeBootIds (sk_Status k) \<and> nw_Name (sk_NodeWright k') = nw_Name (sk_NodeWright k) \<and> sk_Spec k' = sk_Spec k"
  using assms by (auto simp: Reset_def Let_def put_node_def del_annotation_def mark_def put_status_def touch_def)

lemma retaint_frame [simp]:
  "n_Name (retaint opts spec node) = n_Name node" "n_Annotations (retaint opts spec node) = n_Annotations node"
  by (simp_all add: retaint_def split_beta split: option.split)

lemma boot_ids_noted [simp]: "boot_ids (put_skyhook (note_boot name boot) s) = gput name boot (boot_ids s)"
  by (simp add: boot_ids_def put_skyhook_def note_boot_def put_status_def touch_def)

lemma note_boot_nodes [simp]: "find_node (put_skyhook (note_boot name boot) s) n = find_node s n" "sh_Name (put_skyhook (note_boot name boot) s) = sh_Name s"
  by (simp_all add: find_node_def put_skyhook_def note_boot_def put_status_def touch_def)

text \<open>How the reset of a node ends.\<close>

lemma reset_node_result:
  assumes "find_node s name = Some c" and "\<And>r n. answers_named (te_reboot env r n)"
    and "reset_node env name c (s, w, updates, errs) = ((s', w', updates', errs'), landed)"
  shows "boot_ids s' = boot_ids s \<and> sh_Name s' = sh_Name s \<and> set errs \<subseteq> set errs' \<and>
    (\<forall>n. n \<noteq> name \<longrightarrow> find_node s' n = find_node s n \<and> map_of (pw_nodes w') n = map_of (pw_nodes w) n) \<and>
    (if landed then \<exists>original new current v stored. pe_original (te_pass env) name = Some original \<and>
         stored = merge_patch (te_reboot env (sh_Name s) name) original new current \<and>
         map_of (n_Annotations new) (nodeState_key (cn_node c)) = None \<and>
         map_of (pw_nodes w') name = Some (stored, v) \<and> boot_of s' name = n_BootID stored
     else \<exists>e. NodeSave name e \<in> set errs')"
proof -
  let ?api = "te_reboot env (sh_Name s) name"
  have c: "cn_Name c = name" using find_node_Some [OF assms(1)] by simp
  obtain node k where R: "Reset (snd (node_work s c)) (fst (node_work s c)) = (node, k)" by fastforce
  obtain ex r where D: "deleteNodeJobs (pe_exec (te_pass env)) (sh_Name s) name (pw_exec w) = (ex, r)" by fastforce
  define node1 where "node1 = put_node (retaint (te_opts env) (sh_Spec s)) node"
  note F = Reset_frame [OF R]
  have n1: "n_Name (sn_Node node1) = name" "sn_updated node1" "map_of (n_Annotations (sn_Node node1)) (nodeState_key (cn_node c)) = None"
    using F c by (simp_all add: node1_def put_node_def node_work_def)
  have frame: "boot_ids (put_work name (x, k) s) = boot_ids s" "sh_Name (put_work name (x, k) s) = sh_Name s" for x
    using F by (simp_all add: boot_ids_def put_work_def node_work_def)
  obtain server q where P: "open_patch ?api orig (sn_Node node1) (map_of (pw_nodes w) name) = (server, q)"
    if "pe_original (te_pass env) name = Some orig" for orig by (cases "pe_original (te_pass env) name") (auto, metis surj_pair)
  show ?thesis
  proof (cases "pe_original (te_pass env) name")
    case None
    then show ?thesis using assms(3) n1 frame put_work_find [of "(node1, k)" name]
      by (auto simp: reset_node_def Let_def split_beta R D simp flip: node1_def)
  next
    case (Some original)
    show ?thesis
    proof (cases q)
      case (Inl e)
      then show ?thesis using assms(3) n1 frame put_work_find [of "(node1, k)" name]
        by (auto simp: reset_node_def Let_def split_beta R D Some P [OF Some] simp flip: node1_def)
    next
      case (Inr stored)
      obtain current v where st: "server = Some (stored, Suc v)" "stored = merge_patch ?api original (sn_Node node1) current"
        using P [OF Some] Inr by (auto simp: open_patch_def Let_def split: if_splits option.splits)
      then have nm: "n_Name stored = name" using assms(2) n1(1) by (simp add: answers_named_def)
      let ?y = "(node1\<lparr>sn_Node := stored\<rparr>, k)"
      have res: "s' = put_work name ?y s" "w' = store_node name server (w\<lparr>pw_exec := ex\<rparr>)" "set errs \<subseteq> set errs'" "landed"
        using assms(3) n1 by (auto simp: reset_node_def Let_def split_beta R D Some P [OF Some] Inr simp flip: node1_def)
      have found: "find_node s' name = Some \<lparr>cn_node = fst ?y, cn_Updated = Updated (snd ?y)\<rparr>"
        unfolding res(1) by (rule put_work_found [OF assms(1)]) (simp add: nm)
      have "\<exists>orig new current v stored. pe_original (te_pass env) name = Some orig \<and> stored = merge_patch ?api orig new current \<and>
         map_of (n_Annotations new) (nodeState_key (cn_node c)) = None \<and>
         map_of (pw_nodes w') name = Some (stored, v) \<and> boot_of s' name = n_BootID stored"
        by (intro exI [of _ original] exI [of _ "sn_Node node1"] exI [of _ current] exI [of _ "Suc v"] exI [of _ stored])
          (simp add: Some n1(3) st(2) [symmetric] boot_of_def found, simp add: res(2) st(1))
      then show ?thesis using frame res nm put_work_find [of ?y name] by simp
    qed
  qed
qed
definition other_node :: "string \<Rightarrow> reboot_acc \<Rightarrow> reboot_acc \<Rightarrow> bool" where
  "other_node name a b \<longleftrightarrow>
     find_node (fst b) name = find_node (fst a) name \<and> map_of (boot_ids (fst b)) name = map_of (boot_ids (fst a)) name \<and>
     sh_Name (fst b) = sh_Name (fst a) \<and> map_of (pw_nodes (fst (snd b))) name = map_of (pw_nodes (fst (snd a))) name \<and>
     set (snd (snd (snd a))) \<subseteq> set (snd (snd (snd b)))"

lemma other_node_refl [simp, intro!]: "other_node name a a"
  by (simp add: other_node_def)

lemma other_node_trans: "other_node name a b \<Longrightarrow> other_node name b c \<Longrightarrow> other_node name a c"
  by (auto simp: other_node_def)

lemma note_other: "n \<noteq> name \<Longrightarrow> other_node n a (note_boot_of name a)"
  by (cases a) (simp add: other_node_def note_boot_of_def, simp add: note_boot_def put_status_def touch_def)

lemma track_other:
  assumes "n \<noteq> name" and "\<And>r n. answers_named (te_reboot env r n)"
  shows "other_node n acc (track_node env name acc)"
proof (cases "find_node (fst acc) name")
  case (Some c)
  obtain s w u e where a: "acc = (s, w, u, e)" by (cases acc)
  obtain acc1 landed where R: "reset_node env name c acc = (acc1, landed)" by fastforce
  obtain s1 w1 u1 e1 where a1: "acc1 = (s1, w1, u1, e1)" by (cases acc1)
  have "other_node n acc acc1"
    using reset_node_result [OF _ assms(2) R [unfolded a a1]] Some assms(1) by (auto simp: other_node_def a a1)
  then show ?thesis using Some R note_other [OF assms(1)] other_node_trans by (auto simp: track_node_def Let_def)
qed (simp add: track_node_def)

lemma tracks_other:
  assumes "n \<notin> set names" and "\<And>r n. answers_named (te_reboot env r n)"
  shows "other_node n acc (fold (track_node env) names acc)"
  using assms(1)
proof (induction names arbitrary: acc)
  case (Cons name names)
  have "other_node n acc (track_node env name acc)" using Cons.prems by (intro track_other assms(2)) simp
  moreover have "other_node n (track_node env name acc) (fold (track_node env) names (track_node env name acc))"
    using Cons.prems by (intro Cons.IH) simp
  ultimately show ?case unfolding fold_simps by (rule other_node_trans)
qed simp

text \<open>
  C33. A reboot is not lost.  Where packages are to be applied again after a reboot, and a node of a resource has another boot identifier
  than the one noted, either the reset is stored (the node as stored is the answer to a patch that takes the state of the resource
  from the snapshot of the node, so that the stored node has no state when the snapshot had one) and the identifier that is noted is
  the one of the stored node; or the write failed, the failure is reported, and the old identifier stays, so that the reboot
  is seen again.
\<close>

theorem reboot_reset_or_pending:
  assumes "track_resource env s (w, False, []) = (s', w', updates, errs)" and "opt_ReapplyOnReboot (te_opts env)"
    and "distinct (map cn_Name (sh_nodes s))" and "find_node s name = Some c" and "rebooted s c"
    and "\<And>r n. answers_named (te_reboot env r n)" and "\<And>r n. patches_annotations (te_reboot env r n)"
  shows "(\<exists>original stored v. pe_original (te_pass env) name = Some original \<and> map_of (pw_nodes w') name = Some (stored, v) \<and>
       map_of (boot_ids s') name = Some (n_BootID stored) \<and>
       (map_of (n_Annotations original) (nodeState_key (cn_node c)) \<noteq> None \<longrightarrow> map_of (n_Annotations stored) (nodeState_key (cn_node c)) = None)) \<or>
    (map_of (boot_ids s') name = map_of (boot_ids s) name \<and> (\<exists>e. NodeSave name e \<in> set errs))"
proof -
  let ?key = "nodeState_key (cn_node c)"
  define s0 where "s0 = put_skyhook (put_status (\<lambda>st. st\<lparr>NodeBootIds := Some (or_empty (NodeBootIds st))\<rparr>)) s"
  have s0: "find_node s0 n = find_node s n" "boot_ids s0 = boot_ids s" for n
    by (simp_all add: s0_def find_node_def put_skyhook_def put_status_def boot_ids_def)
  have n: "cn_Name c = name" "name \<in> set (map cn_Name (sh_nodes s))" using find_node_Some [OF assms(4)] by auto
  obtain pre post where names: "map cn_Name (sh_nodes s) = pre @ name # post" using split_list [OF n(2)] by blast
  have out: "name \<notin> set pre" "name \<notin> set post" using assms(3) by (simp_all add: names)
  define a where "a = fold (track_node env) pre (s0, w, False, [])"
  define d where "d = track_node env name a"
  define z where "z = fold (track_node env) post d"
  have a: "other_node name (s0, w, False, []) a" and z: "other_node name d z" unfolding a_def z_def by (rule tracks_other; fact)+
  have fin: "s' = fst z \<and> map_of (pw_nodes w') name = map_of (pw_nodes (fst (snd z))) name \<and> set (snd (snd (snd z))) \<subseteq> set errs"
    using assms(1) by (auto simp: track_resource_def names Let_def split_beta s0_def [symmetric] a_def [symmetric] d_def [symmetric] z_def [symmetric] split: if_splits)
  obtain sa wa ua ea where av: "a = (sa, wa, ua, ea)" by (cases a)
  have ca: "find_node sa name = Some c" "map_of (boot_ids sa) name = map_of (boot_ids s) name" using a s0 assms(4) by (simp_all add: other_node_def av)
  have "rebooted sa c" using assms(5) ca(2) n(1) by (simp add: rebooted_def)
  moreover have "map_of (boot_ids sa) name \<noteq> None" using assms(5) ca(2) n(1) by (auto simp: rebooted_def split: option.splits)
  moreover obtain sb wb ub eb landed where R: "reset_node env name c a = ((sb, wb, ub, eb), landed)" by (metis surj_pair)
  ultimately have dv: "d = (if landed then note_boot_of name (sb, wb, ub, eb) else (sb, wb, ub, eb))"
    using ca(1) assms(2) by (auto simp: d_def track_node_def av R [unfolded av])
  note res = reset_node_result [OF ca(1) assms(6) R [unfolded av]]
  show ?thesis
  proof (cases landed)
    case True
    then obtain original new current v stored where l: "pe_original (te_pass env) name = Some original"
        "stored = merge_patch (te_reboot env (sh_Name sa) name) original new current" "map_of (n_Annotations new) ?key = None"
        "map_of (pw_nodes wb) name = Some (stored, v)" "boot_of sb name = n_BootID stored"
      using res by auto
    have "map_of (n_Annotations original) ?key \<noteq> None \<longrightarrow> map_of (n_Annotations stored) ?key = None"
      using assms(7) l(2,3) by (auto simp: patches_annotations_def)
    moreover have "map_of (boot_ids s') name = Some (n_BootID stored)" "map_of (pw_nodes w') name = Some (stored, v)"
      using fin z dv True l(4,5) by (simp_all add: other_node_def note_boot_of_def)
    ultimately show ?thesis using l(1) by blast
  next
    case False
    then have "map_of (boot_ids s') name = map_of (boot_ids s) name" "\<exists>e. NodeSave name e \<in> set errs"
      using fin z dv res ca(2) by (auto simp: other_node_def)
    then show ?thesis by blast
  qed
qed
section \<open>New nodes are tainted once\<close>

definition is_new :: "Taint list \<Rightarrow> cnode \<Rightarrow> bool" where
  "is_new ts c \<longleftrightarrow> \<not> hasAnyTaint (sn_Node (cn_node c)) ts \<and> \<not> HasSkyhookAnnotations (cn_node c)"

text \<open>The nodes picked so far are new, told apart by their identity, and among those looked at.\<close>

definition picked_new :: "Taint list \<Rightarrow> string list \<times> Node list \<Rightarrow> bool" where
  "picked_new ts acc \<longleftrightarrow>
     distinct (map n_UID (snd acc)) \<and> n_UID ` set (snd acc) \<subseteq> set (fst acc) \<and>
     (\<forall>node \<in> set (snd acc). \<exists>c. node = sn_Node (cn_node c) \<and> is_new ts c)"

lemma auto_taint_of_new: "picked_new ts acc \<Longrightarrow> picked_new ts (auto_taint_of ts cs acc)"
proof (induction cs arbitrary: acc)
  case (Cons c cs)
  obtain seen result where acc: "acc = (seen, result)" by (cases acc)
  let ?node = "sn_Node (cn_node c)"
  have "picked_new ts (if n_UID ?node \<in> set seen then (seen, result)
      else (n_UID ?node # seen, if hasAnyTaint ?node ts \<or> HasSkyhookAnnotations (cn_node c) then result else result @ [?node]))"
    using Cons.prems by (auto simp: acc picked_new_def is_new_def)
  from Cons.IH [OF this] show ?case by (simp add: acc Let_def)
qed simp

lemma getAuto_new: "picked_new ts (fold (\<lambda>s acc. if wants_auto_taint s then auto_taint_of ts (sh_nodes s) acc else acc) ss ([], []))"
  by (rule fold_invariant_list [where P = "picked_new ts"]) (simp add: picked_new_def, simp add: auto_taint_of_new)

lemma getAuto_facts:
  "distinct (map n_UID (getAutoTaintNodes ts ss))"
  "node \<in> set (getAutoTaintNodes ts ss) \<Longrightarrow> \<not> hasAnyTaint node ts \<and> map_of (n_Annotations node) (autoTaint_key t) = None"
proof -
  show "distinct (map n_UID (getAutoTaintNodes ts ss))"
    using getAuto_new [of ts ss] by (simp add: picked_new_def getAutoTaintNodes_def)
  assume "node \<in> set (getAutoTaintNodes ts ss)"
  then obtain c where c: "node = sn_Node (cn_node c)" "is_new ts c"
    using getAuto_new [of ts ss] by (auto simp: picked_new_def getAutoTaintNodes_def)
  have "has_prefix (autoTaint_key t) (METADATA_PREFIX @ ''/'')" by (simp add: autoTaint_key_def has_prefix_def)
  then have "autoTaint_key t \<notin> set (gkeys (n_Annotations node))"
    using c by (auto simp: is_new_def HasSkyhookAnnotations_def list_ex_iff)
  then show "\<not> hasAnyTaint node ts \<and> map_of (n_Annotations node) (autoTaint_key t) = None"
    using c by (simp add: is_new_def map_of_eq_None_iff)
qed

lemma update_taint_new: "\<not> TaintExists ts t \<Longrightarrow> update_taint t ts = Some (ts, False)"
  using MatchTaint_sym by (induction ts) (auto simp: TaintExists_def)

lemma taint_new: "\<not> TaintExists ts t \<Longrightarrow> AddOrUpdateTaint ts t = (ts @ [t], True)"
  by (simp add: AddOrUpdateTaint_def update_taint_new)

definition tainted_new :: "Taint \<Rightarrow> Node \<Rightarrow> Node" where
  "tainted_new t node = auto_tainted t (n_Taints node @ [t]) node"

lemma quiet_open_patch: "quiet_api api s0 \<Longrightarrow> open_patch api base new (Some (base, v)) = (Some (new, Suc v), Inr new)"
  by (simp add: quiet_api_def open_patch_def)

lemma auto_fold:
  assumes "distinct (map n_Name nodes)" and "\<And>n. n \<in> set nodes \<Longrightarrow> \<not> TaintExists (n_Taints n) t"
    and "\<And>n. \<exists>s0. quiet_api (te_auto env n) s0" and "\<And>n. n \<in> set nodes \<Longrightarrow> \<exists>v. map_of (pw_nodes w) (n_Name n) = Some (n, v)"
  shows "snd (snd (fold (auto_taint_node env t) nodes (w, b, errs))) = errs \<and>
    map_of (pw_nodes (fst (fold (auto_taint_node env t) nodes (w, b, errs)))) name =
      (if name \<in> n_Name ` set nodes then map_option (\<lambda>(n, v). (tainted_new t n, Suc v)) (map_of (pw_nodes w) name) else map_of (pw_nodes w) name)"
  using assms(1,2,4)
proof (induction nodes arbitrary: w b)
  case (Cons node nodes)
  obtain v where v: "map_of (pw_nodes w) (n_Name node) = Some (node, v)" using Cons.prems(3) [of node] by auto
  obtain s0 where q: "quiet_api (te_auto env (n_Name node)) s0" using assms(3) by blast
  let ?w = "store_node (n_Name node) (Some (tainted_new t node, Suc v)) w"
  have step: "auto_taint_node env t node (w, b, errs) = (?w, True, errs)"
    using Cons.prems(2) [of node] by (simp add: auto_taint_node_def taint_new v quiet_open_patch [OF q] tainted_new_def)
  have keep: "\<exists>u. map_of (pw_nodes ?w) (n_Name n) = Some (n, u)" if "n \<in> set nodes" for n
    using Cons.prems(1,3) that by (auto simp: image_iff)
  have IH: "snd (snd (fold (auto_taint_node env t) nodes (?w, True, errs))) = errs \<and>
    map_of (pw_nodes (fst (fold (auto_taint_node env t) nodes (?w, True, errs)))) name =
      (if name \<in> n_Name ` set nodes then map_option (\<lambda>(n, v). (tainted_new t n, Suc v)) (map_of (pw_nodes ?w) name) else map_of (pw_nodes ?w) name)"
    using Cons.prems(1,2) by (intro Cons.IH keep) simp_all
  show ?case unfolding fold_simps step using IH Cons.prems(1) v by auto
qed simp

text \<open>
  A new node is tainted once.  In a pass that meets no other writer, exactly the nodes picked by \<open>getAutoTaintNodes\<close> are changed: each
  gets the configured taint after its own ones and the annotation that remembers it, and nothing else of it changes.  A node with this
  annotation is never picked again, with whatever resources, so that a node whose taint was removed does not get it back here.
\<close>

theorem auto_taint_once:
  assumes "HandleAutoTaint env ss w = (w', changed, errs)" and "GetRuntimeRequiredTaint (te_opts env) = Some t"
    and "t \<in> set (recognised_taints (te_opts env))"
    and "picks = getAutoTaintNodes (recognised_taints (te_opts env)) ss"
    and "\<And>a b. a \<in> set picks \<Longrightarrow> b \<in> set picks \<Longrightarrow> n_Name a = n_Name b \<Longrightarrow> n_UID a = n_UID b"
    and "\<And>n. \<exists>s0. quiet_api (te_auto env n) s0" and "\<And>n. n \<in> set picks \<Longrightarrow> \<exists>v. map_of (pw_nodes w) (n_Name n) = Some (n, v)"
  shows "errs = [] \<and>
    (\<forall>name. map_of (pw_nodes w') name =
       (if name \<in> n_Name ` set picks
        then map_option (\<lambda>(n, v). (n\<lparr>n_Taints := n_Taints n @ [t], n_Annotations := gput (autoTaint_key t) ''true'' (n_Annotations n)\<rparr>, Suc v))
               (map_of (pw_nodes w) name)
        else map_of (pw_nodes w) name)) \<and>
    (\<forall>ts ss'. \<forall>n \<in> set (getAutoTaintNodes ts ss'). map_of (n_Annotations n) (autoTaint_key t) = None)"
proof -
  have d: "distinct (map n_UID picks)" unfolding assms(4) by (rule getAuto_facts(1))
  then have "distinct picks" "inj_on n_UID (set picks)" unfolding distinct_map by simp_all
  then have names: "distinct (map n_Name picks)" using assms(5) unfolding distinct_map by (meson inj_on_def)
  have fresh: "\<not> TaintExists (n_Taints n) t" if "n \<in> set picks" for n
    using getAuto_facts(2) [of n "recognised_taints (te_opts env)" ss] that assms(3) unfolding assms(4) by (auto simp: hasAnyTaint_def list_ex_iff)
  have "fold (auto_taint_node env t) picks (w, False, []) = (w', changed, errs)"
    using assms(1,2,4) by (simp add: HandleAutoTaint_def)
  with auto_fold [OF names fresh assms(6) assms(7), of False "[]"] show ?thesis
    using getAuto_facts(2) by (auto simp: tainted_new_def auto_tainted_def annotationTrueValue_def)
qed

text \<open>
  The taint of a new node can undo what others did.  The patch of \<open>HandleAutoTaint\<close> carries the whole list of taints, computed from
  the copy of the node in the cache, without a lock: whatever list of taints is stored when the patch arrives, the stored list is
  afterwards that of the copy with the taint added.  A taint that somebody else has added in the meantime is lost, and one that somebody
  has removed comes back.
\<close>

theorem auto_taint_overwrites:
  assumes "auto_taint_node env t node (w, b, errs) = (w', changed, errs')" and "\<not> TaintExists (n_Taints node) t"
    and "patches_scheduling (te_auto env (n_Name node))" and "\<not> patch_fault (te_auto env (n_Name node)) 0"
    and "before_patch (te_auto env (n_Name node)) 0 (map_of (pw_nodes w) (n_Name node)) = Some (current, v)"
  shows "\<exists>stored. map_of (pw_nodes w') (n_Name node) = Some (stored, Suc v) \<and> n_Taints stored = n_Taints node @ [t]"
  using assms by (auto simp: auto_taint_node_def taint_new open_patch_def auto_tainted_def patches_scheduling_def Let_def)
section \<open>Witnesses\<close>

definition gate_taint :: Taint where
  "gate_taint = \<lparr>t_Key = ''nodewright.nvidia.com'', t_Value = ''runtime-required'', t_Effect = ''NoSchedule''\<rparr>"

definition pressure_taint :: Taint where
  "pressure_taint = \<lparr>t_Key = ''node.kubernetes.io/disk-pressure'', t_Value = [], t_Effect = ''NoSchedule''\<rparr>"

definition gate_node :: Node where
  "gate_node = sample_node\<lparr>n_Taints := [gate_taint]\<rparr>"

definition pressed_node :: Node where
  "pressed_node = sample_node\<lparr>n_Taints := [gate_taint, pressure_taint]\<rparr>"

definition quiet_server :: "versioned option \<Rightarrow> api_env" where
  "quiet_server server =
     \<lparr>cached = (\<lambda>_. case server of None \<Rightarrow> Absent | Some found \<Rightarrow> Found found), has_uncached = True, read_fault = (\<lambda>_. False),
      patch_fault = (\<lambda>_. False), before_read = (\<lambda>_ s. s), before_patch = (\<lambda>_ s. s),
      merge_patch = (\<lambda>base new current. if current = base then new else strategic_merge base new current)\<rparr>"

lemma quiet_server_quiet: "quiet_api (quiet_server server) server"
  by (simp add: quiet_api_def quiet_server_def)

text \<open>Another controller adds a taint between the first read and its write.\<close>

definition racing :: api_env where
  "racing = (quiet_server (Some (gate_node, 1)))\<lparr>before_patch := \<lambda>i s. if i = 0 then Some (pressed_node, 2) else s, merge_patch := strategic_merge\<rparr>"

lemma strategic_patches:
  "merge_patch api = strategic_merge \<Longrightarrow> patches_scheduling api" "merge_patch api = strategic_merge \<Longrightarrow> patches_annotations api"
  by (simp_all add: patches_scheduling_def patches_annotations_def strategic_merge_def three_way_merge map_of_clearjunk)

lemma racing_start: "server_start racing (Suc i) s = Some (pressed_node, 2)"
  by (induction i) (simp_all add: racing_def quiet_server_def)

lemma racing_read: "server_at_read racing i s = (if i = 0 then s else Some (pressed_node, 2))"
  using racing_start by (cases i) (simp_all add: server_at_read_def racing_def quiet_server_def)

lemma racing_reads: "readNodeForPatch racing i s = (if i = 0 then Found (gate_node, 1) else case s of None \<Rightarrow> Absent | Some f \<Rightarrow> Found f)"
  by (simp add: readNodeForPatch_def racing_def quiet_server_def)

lemma racing_versions: "versions_identify racing (Some (gate_node, 1))"
  unfolding versions_identify_def racing_start racing_reads racing_read by auto

definition raced :: "versioned option \<times> (patch_error + unit)" where
  "raced = removeRuntimeRequiredTaints racing [gate_taint] True (Some (gate_node, 1))"

lemma raced_value: "snd raced = Inr () \<and> map_option snd (fst raced) = Some 3"
  by code_simp

theorem removal_keeps_gate_witness:
  "\<exists>stored. raced = (Some (stored, 3), Inr ()) \<and> n_Taints stored = [pressure_taint] \<and> Unschedulable stored"
proof -
  obtain server res where rr: "raced = (server, res)" by (cases raced)
  obtain stored where r: "raced = (Some (stored, 3), Inr ())" using raced_value unfolding rr by (cases server) auto
  have racing_merge: "merge_patch racing = strategic_merge" by (simp add: racing_def)
  obtain i where "i < 5" and
    "(Some (stored, 3) = server_at_read racing i (Some (gate_node, 1)) \<and> readNodeForPatch racing i (Some (stored, 3)) = Absent) \<or>
     (\<exists>node v. Some (stored, 3) = server_at_read racing i (Some (gate_node, 1)) \<and> readNodeForPatch racing i (Some (stored, 3)) = Found (node, v) \<and> \<not> hasAnyTaint node [gate_taint]) \<or>
     (\<exists>current v new. server_at_write racing i (Some (gate_node, 1)) = Some (current, v) \<and> Some (stored, 3) = Some (new, Suc v) \<and> hasAnyTaint current [gate_taint] \<and>
        n_Taints new = filter (\<lambda>u. \<not> recognised [gate_taint] u) (n_Taints current) \<and> Unschedulable new = (True \<or> Unschedulable current) \<and>
        (\<forall>a. map_of (n_Annotations new) a = (if True \<and> a = RuntimeRequiredCordonAnnotation then Some ''true'' else map_of (n_Annotations current) a)))"
    using removal_keeps_gate [OF r [unfolded raced_def] racing_versions strategic_patches(1) [OF racing_merge] strategic_patches(2) [OF racing_merge]] by blast
  then have "n_Taints stored = filter (\<lambda>u. \<not> recognised [gate_taint] u) (n_Taints pressed_node) \<and> Unschedulable stored"
    unfolding racing_start racing_read by (auto split: if_splits)
  moreover have "filter (\<lambda>u. \<not> recognised [gate_taint] u) (n_Taints pressed_node) = [pressure_taint]" by code_simp
  ultimately show ?thesis using r by (intro exI [of _ stored]) simp
qed

definition gate_spec :: NodeWrightSpec where
  "gate_spec = (sample_spec [])\<lparr>RuntimeRequired := True, RuntimeRequiredCordonAfter := True, AutoTaintNewNodes := True\<rparr>"

definition gate_set :: "Node \<Rightarrow> skyhookNodes list" where
  "gate_set node = (case BuildState 5 [(sample_nodewright [] [])\<lparr>nw_Spec := gate_spec\<rparr>] [node] [] of Inr ss \<Rightarrow> ss | Inl _ \<Rightarrow> [])"

definition gate_env :: "Node \<Rightarrow> taint_env" where
  "gate_env node = \<lparr>te_pass = calm_env\<lparr>pe_exec := sample_exec\<lparr>xe_opts := sample_options\<lparr>opt_ReapplyOnReboot := True\<rparr>\<rparr>, pe_original := \<lambda>_. Some node\<rparr>,
     te_auto = (\<lambda>_. quiet_server (Some (node, 1))), te_remove = (\<lambda>n. quiet_server (if n = ''node1'' then Some (node, 1) else None)),
     te_stale = (\<lambda>_. quiet_server (Some (node, 1))),
     te_reboot = (\<lambda>_ _. (quiet_server (Some (node, 1)))\<lparr>merge_patch := \<lambda>base new current. (strategic_merge base new current)\<lparr>n_Name := n_Name new\<rparr>\<rparr>)\<rparr>"

definition gate_world :: "Node \<Rightarrow> pass_world" where
  "gate_world node = \<lparr>pw_exec = no_jobs, pw_nodes = [(''node1'', (node, 1))], pw_status = []\<rparr>"

lemma gate_opts: "te_opts (gate_env node) = sample_options\<lparr>opt_ReapplyOnReboot := True\<rparr>"
  by (simp add: gate_env_def calm_env_def sample_exec_def)

lemma gate_recognised: "recognised_taints (sample_options\<lparr>opt_ReapplyOnReboot := True\<rparr>) =
    [gate_taint, \<lparr>t_Key = ''skyhook.nvidia.com'', t_Value = ''runtime-required'', t_Effect = ''NoSchedule''\<rparr>]"
  "GetRuntimeRequiredTaint (sample_options\<lparr>opt_ReapplyOnReboot := True\<rparr>) = Some gate_taint"
  by code_simp+

definition gate_as_expected :: bool where
  "gate_as_expected \<longleftrightarrow>
     (case gate_set gate_node of
        [s] \<Rightarrow> RuntimeRequired (sh_Spec s) \<and> RuntimeRequiredCordonAfter (sh_Spec s) \<and>
          (case sh_nodes s of [c] \<Rightarrow> cn_Name c = ''node1'' \<and> node_complete s c | _ \<Rightarrow> False)
      | _ \<Rightarrow> False)"

lemma gate_set_facts: "names_identify (gate_set gate_node) \<and> runtime_complete (gate_set gate_node) ''node1'' \<and> asks_cordon (gate_set gate_node) ''node1''"
proof -
  have "gate_as_expected" by code_simp
  then obtain s c where s: "gate_set gate_node = [s]" "RuntimeRequired (sh_Spec s)" "RuntimeRequiredCordonAfter (sh_Spec s)"
    "sh_nodes s = [c]" "cn_Name c = ''node1''" "node_complete s c"
    by (auto simp: gate_as_expected_def split: list.splits)
  then show ?thesis by (simp add: names_identify_def runtime_pairs_def runtime_complete_def asks_cordon_def find_node_def)
qed

theorem runtime_gate_exact_witness:
  "\<exists>node' v'. map_of (pw_nodes (fst (HandleRuntimeRequired (gate_env gate_node) (gate_set gate_node) [(gate_node, 1)] (gate_world gate_node)))) ''node1'' =
     Some (node', v') \<and> n_Taints node' = [] \<and> Unschedulable node' \<and> map_of (n_Annotations node') RuntimeRequiredCordonAnnotation \<noteq> None"
proof -
  let ?r = "HandleRuntimeRequired (gate_env gate_node) (gate_set gate_node) [(gate_node, 1)] (gate_world gate_node)"
  have q: "quiet_api (te_remove (gate_env gate_node) n) (map_of (pw_nodes (gate_world gate_node)) n)" "\<exists>s0. quiet_api (te_stale (gate_env gate_node) n) s0" for n
    using quiet_server_quiet by (auto simp: gate_env_def gate_world_def)
  have n: "n_Name gate_node = ''node1''" by (simp add: gate_node_def sample_node_def)
  have has: "hasAnyTaint gate_node (recognised_taints (te_opts (gate_env gate_node)))"
      "filter (\<lambda>t. \<not> recognised (recognised_taints (te_opts (gate_env gate_node))) t) (n_Taints gate_node) = []"
    unfolding gate_opts gate_recognised by code_simp+
  have "\<exists>node' v'. map_of (pw_nodes (fst ?r)) ''node1'' = Some (node', v') \<and>
    n_Taints node' = (if runtime_complete (gate_set gate_node) ''node1''
      then filter (\<lambda>t. \<not> recognised (recognised_taints (te_opts (gate_env gate_node))) t) (n_Taints gate_node) else n_Taints gate_node) \<and>
    (Unschedulable node' \<longleftrightarrow> Unschedulable gate_node \<or> (runtime_complete (gate_set gate_node) ''node1'' \<and>
       hasAnyTaint gate_node (recognised_taints (te_opts (gate_env gate_node))) \<and> asks_cordon (gate_set gate_node) ''node1'')) \<and>
    (runtime_complete (gate_set gate_node) ''node1'' \<longrightarrow> hasAnyTaint gate_node (recognised_taints (te_opts (gate_env gate_node))) \<longrightarrow>
       asks_cordon (gate_set gate_node) ''node1'' \<longrightarrow> map_of (n_Annotations node') RuntimeRequiredCordonAnnotation \<noteq> None)"
    by (rule runtime_gate_exact [of "gate_env gate_node" "gate_set gate_node" "[(gate_node, 1)]" "gate_world gate_node" _ "snd ?r" _ _ 1])
      (use gate_set_facts q n in \<open>simp_all add: gate_world_def\<close>)
  then show ?thesis using gate_set_facts has by auto
qed
definition stated_node :: Node where
  "stated_node = sample_node\<lparr>n_Annotations := [(nodeStateAnnotationKey ''tune'', marshal_state (or_empty (sample_state StageApply StateComplete)))]\<rparr>"

definition rebooted_set :: skyhookNodes where
  "rebooted_set = put_skyhook (put_status (\<lambda>st. st\<lparr>NodeBootIds := Some [(''node1'', ''before'')]\<rparr>)) (hd (gate_set stated_node))"

definition reboot_as_expected :: bool where
  "reboot_as_expected \<longleftrightarrow>
     (case sh_nodes rebooted_set of
        [c] \<Rightarrow> cn_Name c = ''node1'' \<and> rebooted rebooted_set c \<and> nodeState_key (cn_node c) = nodeStateAnnotationKey ''tune'' \<and>
          map_of (n_Annotations stated_node) (nodeStateAnnotationKey ''tune'') \<noteq> None
      | _ \<Rightarrow> False) \<and>
     (case track_resource (gate_env stated_node) rebooted_set (gate_world stated_node, False, []) of (s, w, updates, errs) \<Rightarrow> updates \<and> errs = [])"

theorem reboot_reset_or_pending_witness:
  "\<exists>stored v. map_of (pw_nodes (fst (snd (track_resource (gate_env stated_node) rebooted_set (gate_world stated_node, False, []))))) ''node1'' = Some (stored, v) \<and>
     map_of (n_Annotations stored) (nodeStateAnnotationKey ''tune'') = None"
proof -
  let ?env = "gate_env stated_node"
  obtain s' w' u errs where T: "track_resource ?env rebooted_set (gate_world stated_node, False, []) = (s', w', u, errs)"
    by (cases "track_resource ?env rebooted_set (gate_world stated_node, False, [])")
  have "reboot_as_expected" by code_simp
  then obtain c where c: "sh_nodes rebooted_set = [c]" "cn_Name c = ''node1''" "rebooted rebooted_set c"
      "nodeState_key (cn_node c) = nodeStateAnnotationKey ''tune''" "map_of (n_Annotations stated_node) (nodeStateAnnotationKey ''tune'') \<noteq> None"
    and e: "errs = []"
    by (auto simp: reboot_as_expected_def T split: list.splits)
  have api: "answers_named (te_reboot ?env r n)" "patches_annotations (te_reboot ?env r n)" for r n
    by (simp_all add: gate_env_def answers_named_def patches_annotations_def strategic_merge_def three_way_merge map_of_clearjunk)
  have "(\<exists>original stored v. pe_original (te_pass ?env) ''node1'' = Some original \<and> map_of (pw_nodes w') ''node1'' = Some (stored, v) \<and>
       map_of (boot_ids s') ''node1'' = Some (n_BootID stored) \<and>
       (map_of (n_Annotations original) (nodeState_key (cn_node c)) \<noteq> None \<longrightarrow> map_of (n_Annotations stored) (nodeState_key (cn_node c)) = None)) \<or>
    (map_of (boot_ids s') ''node1'' = map_of (boot_ids rebooted_set) ''node1'' \<and> (\<exists>e. NodeSave ''node1'' e \<in> set errs))"
    by (rule reboot_reset_or_pending [OF T _ _ _ c(3) api]) (simp_all add: gate_opts c find_node_def)
  moreover have "pe_original (te_pass ?env) ''node1'' = Some stated_node" by (simp add: gate_env_def)
  ultimately show ?thesis using c(4,5) e by (auto simp: T)
qed

definition new_picks :: "Node list" where
  "new_picks = getAutoTaintNodes (recognised_taints (te_opts (gate_env sample_node))) (gate_set sample_node)"

lemma new_picks_value: "new_picks = [sample_node]"
  unfolding new_picks_def gate_opts by code_simp

theorem auto_taint_once_witness:
  "map_of (pw_nodes (fst (HandleAutoTaint (gate_env sample_node) (gate_set sample_node) (gate_world sample_node)))) ''node1'' =
     Some (sample_node\<lparr>n_Taints := [gate_taint], n_Annotations := [(autoTaint_key gate_taint, ''true'')]\<rparr>, 2)"
proof -
  let ?env = "gate_env sample_node" and ?w = "gate_world sample_node"
  let ?r = "HandleAutoTaint ?env (gate_set sample_node) ?w"
  have n: "n_Name sample_node = ''node1''" "n_Taints sample_node = []" "n_Annotations sample_node = []" by (simp_all add: sample_node_def)
  have q: "\<exists>s0. quiet_api (te_auto ?env n) s0" for n using quiet_server_quiet by (auto simp: gate_env_def)
  have "snd (snd ?r) = [] \<and>
    (\<forall>name. map_of (pw_nodes (fst ?r)) name =
       (if name \<in> n_Name ` set [sample_node]
        then map_option (\<lambda>(n, v). (n\<lparr>n_Taints := n_Taints n @ [gate_taint], n_Annotations := gput (autoTaint_key gate_taint) ''true'' (n_Annotations n)\<rparr>, Suc v))
               (map_of (pw_nodes ?w) name)
        else map_of (pw_nodes ?w) name)) \<and>
    (\<forall>ts ss'. \<forall>n \<in> set (getAutoTaintNodes ts ss'). map_of (n_Annotations n) (autoTaint_key gate_taint) = None)"
    by (rule auto_taint_once [of ?env "gate_set sample_node" ?w "fst ?r" "fst (snd ?r)" "snd (snd ?r)" gate_taint])
      (use q n new_picks_value in \<open>simp_all add: gate_opts gate_recognised gate_world_def new_picks_def\<close>)
  then show ?thesis using n by (simp add: gate_world_def)
qed

definition overwriting :: taint_env where
  "overwriting = (gate_env sample_node)\<lparr>te_auto := \<lambda>_. (quiet_server (Some (sample_node, 1)))
     \<lparr>before_patch := \<lambda>_ _. Some (sample_node\<lparr>n_Taints := [pressure_taint]\<rparr>, 2), merge_patch := strategic_merge\<rparr>\<rparr>"

theorem auto_taint_overwrites_witness:
  "\<exists>stored. map_of (pw_nodes (fst (auto_taint_node overwriting gate_taint sample_node (gate_world sample_node, False, [])))) ''node1'' = Some (stored, 3) \<and>
     n_Taints stored = [gate_taint] \<and> pressure_taint \<notin> set (n_Taints stored)"
proof -
  let ?r = "auto_taint_node overwriting gate_taint sample_node (gate_world sample_node, False, [])"
  have n: "n_Name sample_node = ''node1''" "n_Taints sample_node = []" by (simp_all add: sample_node_def)
  have m: "merge_patch (te_auto overwriting (n_Name sample_node)) = strategic_merge" by (simp add: overwriting_def)
  have "\<exists>stored. map_of (pw_nodes (fst ?r)) (n_Name sample_node) = Some (stored, Suc 2) \<and> n_Taints stored = n_Taints sample_node @ [gate_taint]"
    by (rule auto_taint_overwrites [of _ _ _ _ _ _ "fst ?r" "fst (snd ?r)" "snd (snd ?r)", OF _ _ strategic_patches(1) [OF m]])
      (simp_all add: n overwriting_def quiet_server_def TaintExists_def)
  then show ?thesis by (auto simp: n gate_taint_def pressure_taint_def)
qed

end
