(* ===== verification/Finalizer.thy ===== *)
theory Finalizer
  imports Runtime_Required
begin

text \<open>
  The end of a resource: \<open>HandleFinalizer\<close> of \<open>operator/internal/controller/skyhook_controller.go\<close>.  A resource carries a finalizer from its
  first pass on; once it is being deleted, the finalizer is kept while packages that have to be uninstalled are still recorded on a
  node, then the nodes are uncordoned and cleaned, and the finalizer is removed.

  The finalizers the API server has for the resource are part of the state; whether its requests succeed is a parameter.
\<close>

section \<open>Environment\<close>

definition SkyhookFinalizer :: string where
  "SkyhookFinalizer = ''nodewright.nvidia.com/nodewright''"

definition SkyhookConditionDeletionBlocked :: string where
  "SkyhookConditionDeletionBlocked = ''DeletionBlocked''"

record final_env =
  fe_pass :: pass_env
  fe_node :: "string \<Rightarrow> api_env"
  fe_status_ok :: bool
  fe_finalizer_ok :: bool

datatype final_error =
    FinalizerPatch
  | FinalStatus
  | FinalState node_error
  | FinalSave "pass_error list"
  | FinalNodes "pass_error list"

type_synonym final_state = "skyhookNodes \<times> pass_world \<times> string list"

definition finalizers_of :: "skyhookNodes \<Rightarrow> string list" where
  "finalizers_of s = nw_Finalizers (sk_NodeWright (sh_skyhook s))"

definition put_finalizers :: "string list \<Rightarrow> skyhookNodes \<Rightarrow> skyhookNodes" where
  "put_finalizers fs = put_skyhook (\<lambda>k. k\<lparr>sk_NodeWright := (sk_NodeWright k)\<lparr>nw_Finalizers := fs\<rparr>\<rparr>)"

section \<open>What is still installed\<close>

text \<open>A state that cannot be read ends the scan.\<close>

fun scan_nodes :: "Package \<Rightarrow> cnode list \<Rightarrow> bool \<Rightarrow> node_error + bool" where
  "scan_nodes p [] pending = Inr pending"
| "scan_nodes p (c # cs) pending =
     (case Node_State (cn_node c) of
        Inl e \<Rightarrow> Inl e
      | Inr ns \<Rightarrow> scan_nodes p cs (pending \<or> ns_get ns (GetUniqueName p) \<noteq> None))"

fun scan_packages :: "Package list \<Rightarrow> cnode list \<Rightarrow> bool \<Rightarrow> node_error + bool" where
  "scan_packages [] cs pending = Inr pending"
| "scan_packages (p # ps) cs pending =
     (if \<not> UninstallEnabled p then scan_packages ps cs pending
      else
        (case scan_nodes p cs pending of
           Inl e \<Rightarrow> Inl e
         | Inr pending1 \<Rightarrow> scan_packages ps cs pending1))"

definition hasPendingUninstall :: "skyhookNodes \<Rightarrow> node_error + bool" where
  "hasPendingUninstall s = scan_packages (map snd (spec_Packages (sh_Spec s))) (sh_nodes s) False"

section \<open>Cleaning the nodes\<close>

definition final_node :: "final_env \<Rightarrow> string \<Rightarrow> skyhookNodes \<times> pass_world \<times> pass_error list \<Rightarrow> skyhookNodes \<times> pass_world \<times> pass_error list" where
  "final_node env name acc =
     (let (s, w, errs) = acc
      in case find_node s name of
           None \<Rightarrow> acc
         | Some c \<Rightarrow>
             (let node = CleanupSCRMetadata (Uncordon (cn_node c))
              in if \<not> sn_updated node then (put_cnode name node s, w, errs)
                 else
                   (case open_patch (fe_node env name) (sn_Node (cn_node c)) (sn_Node node) (map_of (pw_nodes w) name) of
                      (server, Inl e) \<Rightarrow> (put_cnode name node s, store_node name server w, errs @ [NodeSave name e])
                    | (server, Inr stored) \<Rightarrow> (put_cnode name (node\<lparr>sn_Node := stored\<rparr>) s, store_node name server w, errs))))"

section \<open>The handler\<close>

text \<open>A blocked deletion: the condition, and the save that stores it.\<close>

definition block_deletion :: "final_env \<Rightarrow> string \<Rightarrow> string \<Rightarrow> final_state \<Rightarrow> final_state \<times> pass_error list" where
  "block_deletion env reason message st =
     (let (s, w, fs) = st;
          (s1, w1, saved, errs) = SaveNodesAndSkyhook (fe_pass env)
             (set_condition (pe_now (fe_pass env)) SkyhookConditionDeletionBlocked ''True'' reason message s) w
      in ((s1, w1, fs), errs))"

definition release :: "final_env \<Rightarrow> final_state \<Rightarrow> final_state \<times> (final_error + bool)" where
  "release env st =
     (let (s, w, fs) = st; (s1, w1, errs) = fold (final_node env) (map cn_Name (sh_nodes s)) (s, w, [])
      in if errs \<noteq> [] then ((s1, w1, fs), Inl (FinalNodes errs))
         else if \<not> fe_status_ok env then ((s1, w1, fs), Inl FinalStatus)
         else
           (let w2 = w1\<lparr>pw_status := gput (sh_Name s1) (sk_Status (sh_skyhook s1)) (pw_status w1)\<rparr>;
                s2 = put_finalizers (removeAll SkyhookFinalizer (finalizers_of s1)) s1
            in if fe_finalizer_ok env then ((s2, w2, removeAll SkyhookFinalizer fs), Inr True)
               else ((s2, w2, fs), Inl FinalizerPatch)))"

definition HandleFinalizer :: "final_env \<Rightarrow> final_state \<Rightarrow> final_state \<times> (final_error + bool)" where
  "HandleFinalizer env st =
     (let (s, w, fs) = st
      in if \<not> being_deleted s then
           (if SkyhookFinalizer \<in> set (finalizers_of s) then (st, Inr False)
            else
              (let s1 = put_finalizers (finalizers_of s @ [SkyhookFinalizer]) s
               in if fe_finalizer_ok env then ((s1, w, fs @ [SkyhookFinalizer]), Inr False) else ((s1, w, fs), Inl FinalizerPatch)))
         else if SkyhookFinalizer \<notin> set (finalizers_of s) then (st, Inr False)
         else
           (case hasPendingUninstall s of
              Inl e \<Rightarrow>
                (let (st1, errs) = block_deletion env ''MalformedNodeState''
                       (''Cannot safely delete NodeWright: malformed nodeState on one or more nodes. '' @
                        ''Repair the nodeState annotation before deletion.'') st
                 in (st1, if errs \<noteq> [] then Inl (FinalSave errs) else Inl (FinalState e)))
            | Inr pending \<Rightarrow>
                if sh_IsPaused s \<and> pending then
                  (let (st1, errs) = block_deletion env ''PausedWithPendingUninstall''
                         (''NodeWright is paused with uninstall-enabled packages still tracked in nodeState. '' @
                          ''Unpause to let uninstall complete before deletion.'') st
                   in (st1, if errs \<noteq> [] then Inl (FinalSave errs) else Inr False))
                else if sh_IsDisabled s \<and> pending then
                  (let (st1, errs) = block_deletion env ''DisabledWithPendingUninstall''
                         (''NodeWright is disabled with uninstall-enabled packages still tracked in nodeState. '' @
                          ''Re-enable the NodeWright to let uninstall complete before deletion.'') st
                   in (st1, if errs \<noteq> [] then Inl (FinalSave errs) else Inr False))
                else if pending then ((clear_condition SkyhookConditionDeletionBlocked s, w, fs), Inr False)
                else release env (clear_condition SkyhookConditionDeletionBlocked s, w, fs)))"
section \<open>When the finalizer goes\<close>

lemma scan_nodes_iff:
  "scan_nodes p cs pending = Inr False \<longleftrightarrow> \<not> pending \<and> (\<forall>c \<in> set cs. \<exists>ns. Node_State (cn_node c) = Inr ns \<and> ns_get ns (GetUniqueName p) = None)"
  by (induction cs arbitrary: pending) (auto split: sum.split)

lemma scan_nodes_pending: "scan_nodes p cs True = Inr b \<Longrightarrow> b"
  by (induction cs) (auto split: sum.splits)

lemma scan_packages_pending: "scan_packages ps cs True = Inr b \<Longrightarrow> b"
  by (induction ps) (auto split: sum.splits if_splits dest: scan_nodes_pending)

lemma scan_packages_none:
  "scan_packages ps cs False = Inr False \<longleftrightarrow>
     (\<forall>p \<in> set ps. UninstallEnabled p \<longrightarrow> (\<forall>c \<in> set cs. \<exists>ns. Node_State (cn_node c) = Inr ns \<and> ns_get ns (GetUniqueName p) = None))"
proof (induction ps)
  case (Cons p ps)
  show ?case
  proof (cases "UninstallEnabled p")
    case True
    show ?thesis
    proof (cases "scan_nodes p cs False")
      case (Inr b)
      then show ?thesis using Cons True scan_nodes_iff [of p cs False] scan_packages_pending [of ps cs False] by (cases b) auto
    qed (use True scan_nodes_iff [of p cs False] in auto)
  qed (use Cons in simp)
qed simp

text \<open>Every package that has to be uninstalled is gone from every node.\<close>

definition all_uninstalled :: "skyhookNodes \<Rightarrow> bool" where
  "all_uninstalled s \<longleftrightarrow>
     (\<forall>(k, p) \<in> set (spec_Packages (sh_Spec s)). UninstallEnabled p \<longrightarrow>
        (\<forall>c \<in> set (sh_nodes s). \<exists>ns. Node_State (cn_node c) = Inr ns \<and> ns_get ns (GetUniqueName p) = None))"

lemma pending_none_iff: "hasPendingUninstall s = Inr False \<longleftrightarrow> all_uninstalled s"
  unfolding hasPendingUninstall_def scan_packages_none all_uninstalled_def by force

lemma cleanup_name [simp]: "n_Name (sn_Node (CleanupSCRMetadata (Uncordon node))) = n_Name (sn_Node node)"
  by (simp add: CleanupSCRMetadata_def Uncordon_def del_annotation_def Let_def)

lemma put_cnode_find:
  "n_Name (sn_Node node) = name' \<Longrightarrow> name \<noteq> name' \<Longrightarrow> find_node (put_cnode name' node s) name = find_node s name"
  unfolding find_node_def put_cnode_def by (simp, rule find_map_other) auto

definition final_frame :: "string \<Rightarrow> skyhookNodes \<times> pass_world \<times> pass_error list \<Rightarrow> skyhookNodes \<times> pass_world \<times> pass_error list \<Rightarrow> bool" where
  "final_frame name a b \<longleftrightarrow>
     find_node (fst b) name = find_node (fst a) name \<and> map_of (pw_nodes (fst (snd b))) name = map_of (pw_nodes (fst (snd a))) name"

lemma final_node_errs: "\<exists>es. snd (snd (final_node env name acc)) = snd (snd acc) @ es"
  by (auto simp: final_node_def Let_def split_beta split: option.split sum.split)

lemma final_errs: "\<exists>es. snd (snd (fold (final_node env) names acc)) = snd (snd acc) @ es"
proof (induction names arbitrary: acc)
  case (Cons name names)
  obtain es fs where "snd (snd (final_node env name acc)) = snd (snd acc) @ es"
    "snd (snd (fold (final_node env) names (final_node env name acc))) = snd (snd (final_node env name acc)) @ fs"
    using final_node_errs Cons.IH by blast
  then show ?case by simp
qed simp

lemma open_patch_stored:
  "open_patch api base new server = (server', Inr stored) \<Longrightarrow> \<exists>current v. stored = merge_patch api base new current \<and> server' = Some (stored, Suc v)"
  by (auto simp: open_patch_def Let_def split: if_splits option.splits)

lemma final_node_other:
  assumes "n \<noteq> name" and "\<And>n. answers_named (fe_node env n)"
  shows "final_frame n acc (final_node env name acc)"
proof -
  obtain s w errs where acc: "acc = (s, w, errs)" by (cases acc)
  show ?thesis
  proof (cases "find_node s name")
    case (Some c)
    let ?node = "CleanupSCRMetadata (Uncordon (cn_node c))"
    have c: "cn_Name c = name" using find_node_Some [OF Some] by simp
    obtain server r where P: "open_patch (fe_node env name) (sn_Node (cn_node c)) (sn_Node ?node) (map_of (pw_nodes w) name) = (server, r)" by fastforce
    have "n_Name stored = name" if "r = Inr stored" for stored
      using open_patch_stored [OF P [unfolded that]] assms(2) c by (auto simp: answers_named_def)
    then show ?thesis using Some assms(1) c put_cnode_find
      by (cases r) (auto simp: final_node_def acc Let_def P final_frame_def)
  qed (simp add: final_node_def acc final_frame_def)
qed

lemma final_nodes_other:
  assumes "n \<notin> set names" and "\<And>n. answers_named (fe_node env n)"
  shows "final_frame n acc (fold (final_node env) names acc)"
  using assms(1)
proof (induction names arbitrary: acc)
  case (Cons name names)
  have "final_frame n acc (final_node env name acc)" using Cons.prems by (intro final_node_other assms(2)) simp
  moreover have "final_frame n (final_node env name acc) (fold (final_node env) names (final_node env name acc))"
    using Cons.prems by (intro Cons.IH) simp
  ultimately show ?case by (simp add: final_frame_def)
qed (simp add: final_frame_def)

text \<open>A node is clean on the server: nothing was to be changed, or the patch that cleans it was stored.\<close>

definition cleaned :: "final_env \<Rightarrow> cnode \<Rightarrow> versioned option \<Rightarrow> bool" where
  "cleaned env c server \<longleftrightarrow>
     (let node = CleanupSCRMetadata (Uncordon (cn_node c))
      in \<not> sn_updated node \<or>
         (\<exists>current v. server = Some (merge_patch (fe_node env (cn_Name c)) (sn_Node (cn_node c)) (sn_Node node) current, v)))"

lemma final_nodes_clean:
  assumes "fold (final_node env) names (s, w, []) = (s', w', [])" and "distinct names" and "\<And>n. answers_named (fe_node env n)"
    and "find_node s name = Some c" and "name \<in> set names"
  shows "cleaned env c (map_of (pw_nodes w') name)"
proof -
  obtain pre post where names: "names = pre @ name # post" using split_list [OF assms(5)] by blast
  define a where "a = fold (final_node env) pre (s, w, [])"
  define d where "d = final_node env name a"
  have z: "fold (final_node env) post d = (s', w', [])" using assms(1) by (simp add: names a_def d_def)
  have "final_frame name (s, w, []) a" unfolding a_def using assms(2,3) by (intro final_nodes_other) (auto simp: names)
  then have fa: "find_node (fst a) name = Some c" using assms(4) by (simp add: final_frame_def)
  have "final_frame name d (fold (final_node env) post d)" using assms(2,3) by (intro final_nodes_other) (auto simp: names)
  then have w': "map_of (pw_nodes w') name = map_of (pw_nodes (fst (snd d))) name" by (simp add: final_frame_def z)
  have de: "snd (snd d) = []" using final_errs [of env post d] by (auto simp: z)
  obtain sa wa ea where av: "a = (sa, wa, ea)" by (cases a)
  let ?node = "CleanupSCRMetadata (Uncordon (cn_node c))"
  obtain server r where P: "open_patch (fe_node env name) (sn_Node (cn_node c)) (sn_Node ?node) (map_of (pw_nodes wa) name) = (server, r)" by fastforce
  have c: "cn_Name c = name" using find_node_Some [OF fa] by simp
  show ?thesis
  proof (cases "sn_updated ?node")
    case True
    then obtain stored where r: "r = Inr stored" using de fa by (cases r) (auto simp: d_def final_node_def av Let_def P)
    then show ?thesis using open_patch_stored [OF P [unfolded r]] True fa w' c
      by (auto simp: d_def final_node_def av Let_def P cleaned_def)
  qed (simp add: cleaned_def)
qed
text \<open>
  C9. A resource is released only when nothing of it is left.  When \<open>HandleFinalizer\<close> reports that it has finished, the resource is being
  deleted, no node still records a package that has to be uninstalled (at the version of the specification), every node has been
  uncordoned and cleaned on the API server where there was something to change, so that the annotations of the resource that the pass
  saw there are gone except the state and its version where packages stay installed, and the finalizer is no longer stored.
\<close>

theorem released_when_clean:
  assumes "HandleFinalizer env (s, w, fs) = ((s', w', fs'), Inr True)"
    and "distinct (map cn_Name (sh_nodes s))" and "\<And>n. answers_named (fe_node env n)" and "\<And>n. patches_annotations (fe_node env n)"
  shows "being_deleted s \<and> all_uninstalled s \<and> SkyhookFinalizer \<notin> set fs' \<and>
    (\<forall>c \<in> set (sh_nodes s). cleaned env c (map_of (pw_nodes w') (cn_Name c))) \<and>
    (\<forall>c \<in> set (sh_nodes s). \<forall>k. sn_updated (CleanupSCRMetadata (Uncordon (cn_node c))) \<and> annotation (cn_node c) k \<noteq> None \<and>
       annotation (CleanupSCRMetadata (Uncordon (cn_node c))) k = None \<longrightarrow>
       (\<exists>stored v. map_of (pw_nodes w') (cn_Name c) = Some (stored, v) \<and> map_of (n_Annotations stored) k = None))"
proof -
  let ?s = "clear_condition SkyhookConditionDeletionBlocked s"
  have cl: "sh_nodes ?s = sh_nodes s" by (simp add: clear_condition_def put_skyhook_def)
  have d: "being_deleted s" and p: "hasPendingUninstall s = Inr False" and r: "release env (?s, w, fs) = ((s', w', fs'), Inr True)"
    using assms(1) by (auto simp: HandleFinalizer_def Let_def split: if_splits sum.splits prod.splits bool.splits)
  obtain s1 w1 where f: "fold (final_node env) (map cn_Name (sh_nodes s)) (?s, w, []) = (s1, w1, [])"
    and w': "pw_nodes w' = pw_nodes w1" and fs': "fs' = removeAll SkyhookFinalizer fs"
    using r by (auto simp: release_def cl Let_def split: prod.splits if_splits)
  have clean: "cleaned env c (map_of (pw_nodes w') (cn_Name c))" if "c \<in> set (sh_nodes s)" for c
  proof -
    have "find_node ?s (cn_Name c) = Some c" using find_distinct [OF assms(2) that] by (simp add: find_node_def cl)
    then show ?thesis using final_nodes_clean [OF f assms(2,3)] that by (simp add: w')
  qed
  have gone: "\<exists>stored v. map_of (pw_nodes w') (cn_Name c) = Some (stored, v) \<and> map_of (n_Annotations stored) k = None"
    if "c \<in> set (sh_nodes s)" "sn_updated (CleanupSCRMetadata (Uncordon (cn_node c)))" "annotation (cn_node c) k \<noteq> None"
      "annotation (CleanupSCRMetadata (Uncordon (cn_node c))) k = None" for c k
    using clean [OF that(1)] that(2-4) assms(4) by (auto simp: cleaned_def Let_def annotation_def patches_annotations_def)
  show ?thesis using d p clean gone by (simp add: pending_none_iff fs')
qed

text \<open>
  C34. A deletion gets through.  A resource that is being deleted, whose packages to uninstall are gone from every node, is released in the
  next pass when the requests of that pass succeed and its nodes are still there: nothing else holds the finalizer back, pausing and
  disabling included.
\<close>

theorem deletion_released:
  assumes "being_deleted s" and "SkyhookFinalizer \<in> set (finalizers_of s)" and "all_uninstalled s"
    and "fe_status_ok env" and "fe_finalizer_ok env" and "\<And>n. answers_named (fe_node env n)" and "distinct (map cn_Name (sh_nodes s))"
    and "\<And>c. c \<in> set (sh_nodes s) \<Longrightarrow> \<not> patch_fault (fe_node env (cn_Name c)) 0 \<and>
       before_patch (fe_node env (cn_Name c)) 0 (map_of (pw_nodes w) (cn_Name c)) \<noteq> None"
  shows "snd (HandleFinalizer env (s, w, fs)) = Inr True"
proof -
  let ?s = "clear_condition SkyhookConditionDeletionBlocked s"
  have cl: "sh_nodes ?s = sh_nodes s" by (simp add: clear_condition_def put_skyhook_def)
  have "snd (snd (fold (final_node env) names (t, v, []))) = []"
    if "distinct names" "\<And>n. n \<in> set names \<Longrightarrow> map_of (pw_nodes v) n = map_of (pw_nodes w) n"
      "\<And>n. n \<in> set names \<Longrightarrow> \<not> patch_fault (fe_node env n) 0 \<and> before_patch (fe_node env n) 0 (map_of (pw_nodes w) n) \<noteq> None" for names t v
    using that
  proof (induction names arbitrary: t v)
    case (Cons name names)
    obtain t1 v1 es where step: "final_node env name (t, v, []) = (t1, v1, es)" by (cases "final_node env name (t, v, [])")
    have "es = []" using Cons.prems(2,3) [of name] step
      by (auto simp: final_node_def open_patch_def Let_def split: option.splits if_splits prod.splits)
    moreover have "map_of (pw_nodes v1) n = map_of (pw_nodes w) n" if "n \<in> set names" for n
    proof -
      have "final_frame n (t, v, []) (final_node env name (t, v, []))" using Cons.prems(1) that assms(6) by (intro final_node_other) auto
      then show ?thesis using Cons.prems(2) that by (simp add: final_frame_def step)
    qed
    ultimately show ?case using Cons.IH [of v1 t1] Cons.prems(1,3) by (simp add: step)
  qed simp
  from this [OF assms(7), of w ?s] have "snd (snd (fold (final_node env) (map cn_Name (sh_nodes s)) (?s, w, []))) = []"
    using assms(8) by auto
  then have "snd (release env (?s, w, fs)) = Inr True"
    using assms(4,5) by (auto simp: release_def cl Let_def split: prod.split)
  then show ?thesis using assms(1-3) pending_none_iff [of s] by (simp add: HandleFinalizer_def Let_def)
qed

text \<open>
  The conditions of the resource stay on the nodes.  The patch that cleans a node is a patch of the node itself, which leaves the status of
  the node as it is stored; the conditions that \<open>CleanupSCRMetadata\<close> takes from the node in memory are in the status, so they are
  still on the API server when the finalizer is gone.
\<close>

theorem release_leaves_conditions:
  assumes "HandleFinalizer env (s, w, fs) = ((s', w', fs'), Inr True)"
    and "\<And>n base new current. n_Conditions (merge_patch (fe_node env n) base new current) = n_Conditions current"
    and "\<And>n. before_patch (fe_node env n) 0 = (\<lambda>x. x)"
    and "c \<in> set (sh_nodes s)" and "map_of (pw_nodes w) (cn_Name c) = Some (node, v)"
  shows "\<exists>node' v'. map_of (pw_nodes w') (cn_Name c) = Some (node', v') \<and> n_Conditions node' = n_Conditions node"
proof -
  let ?s = "clear_condition SkyhookConditionDeletionBlocked s"
  have cl: "sh_nodes ?s = sh_nodes s" by (simp add: clear_condition_def put_skyhook_def)
  have r: "release env (?s, w, fs) = ((s', w', fs'), Inr True)"
    using assms(1) by (auto simp: HandleFinalizer_def Let_def split: if_splits sum.splits prod.splits bool.splits)
  obtain s1 w1 where f: "fold (final_node env) (map cn_Name (sh_nodes s)) (?s, w, []) = (s1, w1, [])" and w': "pw_nodes w' = pw_nodes w1"
    using r by (auto simp: release_def cl Let_def split: prod.splits if_splits)
  let ?P = "\<lambda>x. \<exists>node' v'. map_of (pw_nodes (fst (snd x))) (cn_Name c) = Some (node', v') \<and> n_Conditions node' = n_Conditions node"
  have step: "?P (final_node env name x)" if "?P x" for name x
    using that assms(2,3) by (auto simp: final_node_def open_patch_def Let_def split: prod.split option.split)
  have "?P (fold (final_node env) (map cn_Name (sh_nodes s)) (?s, w, []))"
    by (rule fold_invariant_list [where P = ?P]) (use assms(5) step in auto)
  then show ?thesis by (simp add: f w')
qed
section \<open>Witnesses\<close>

definition worn_node :: Node where
  "worn_node = sample_node\<lparr>n_Annotations := [(METADATA_PREFIX @ ''/status_tune'', ''complete'')],
     n_Conditions := [\<lparr>nc_Type = METADATA_PREFIX @ ''/tune/NotReady'', nc_Status = ''False'', nc_LastHeartbeatTime = 0, nc_LastTransitionTime = 0,
        nc_Reason = ''Complete'', nc_Message = ''NodeWright tune Ready''\<rparr>]\<rparr>"

definition deleted_resource :: NodeWright where
  "deleted_resource = (sample_nodewright [(''tuning'', sample_uninstallable)] [])\<lparr>DeletionTimestamp := Some 3, nw_Finalizers := [SkyhookFinalizer]\<rparr>"

definition deleted_set :: skyhookNodes where
  "deleted_set = (case BuildState 5 [deleted_resource] [worn_node] [] of Inr ss \<Rightarrow> hd ss | Inl _ \<Rightarrow> sample_set sample_skyhookNode)"

definition final_sample :: final_env where
  "final_sample = \<lparr>fe_pass = calm_env,
     fe_node = (\<lambda>_. (quiet_server None)\<lparr>merge_patch := \<lambda>base new current. (strategic_merge base new current)\<lparr>n_Name := n_Name new\<rparr>\<rparr>),
     fe_status_ok = True, fe_finalizer_ok = True\<rparr>"

definition final_world :: pass_world where
  "final_world = \<lparr>pw_exec = no_jobs, pw_nodes = [(''node1'', (worn_node, 1))], pw_status = []\<rparr>"

definition deleted_as_expected :: bool where
  "deleted_as_expected \<longleftrightarrow>
     being_deleted deleted_set \<and> SkyhookFinalizer \<in> set (finalizers_of deleted_set) \<and> hasPendingUninstall deleted_set = Inr False \<and>
     (case sh_nodes deleted_set of
        [c] \<Rightarrow> cn_Name c = ''node1'' \<and> sn_updated (CleanupSCRMetadata (Uncordon (cn_node c))) \<and>
          annotation (cn_node c) (METADATA_PREFIX @ ''/status_tune'') \<noteq> None \<and>
          annotation (CleanupSCRMetadata (Uncordon (cn_node c))) (METADATA_PREFIX @ ''/status_tune'') = None
      | _ \<Rightarrow> False)"

lemma deleted_expected: "deleted_as_expected"
  by code_simp

lemma final_sample_api: "answers_named (fe_node final_sample n)" "patches_annotations (fe_node final_sample n)"
    "n_Conditions (merge_patch (fe_node final_sample n) base new current) = n_Conditions current"
    "before_patch (fe_node final_sample n) 0 = (\<lambda>x. x)" "\<not> patch_fault (fe_node final_sample n) 0"
  by (simp_all add: final_sample_def quiet_server_def answers_named_def patches_annotations_def strategic_merge_def three_way_merge map_of_clearjunk)

lemma deleted_node:
  "\<exists>c. sh_nodes deleted_set = [c] \<and> cn_Name c = ''node1'' \<and> sn_updated (CleanupSCRMetadata (Uncordon (cn_node c))) \<and>
     annotation (cn_node c) (METADATA_PREFIX @ ''/status_tune'') \<noteq> None \<and>
     annotation (CleanupSCRMetadata (Uncordon (cn_node c))) (METADATA_PREFIX @ ''/status_tune'') = None"
  using deleted_expected by (auto simp: deleted_as_expected_def split: list.splits)

lemma deleted_ready: "being_deleted deleted_set" "SkyhookFinalizer \<in> set (finalizers_of deleted_set)" "all_uninstalled deleted_set"
  using deleted_expected unfolding deleted_as_expected_def pending_none_iff by simp_all

lemma deleted_runs: "snd (HandleFinalizer final_sample (deleted_set, final_world, [SkyhookFinalizer])) = Inr True"
proof -
  have "snd (release final_sample (clear_condition SkyhookConditionDeletionBlocked deleted_set, final_world, [SkyhookFinalizer])) = Inr True"
    by code_simp
  then show ?thesis using deleted_ready pending_none_iff [of deleted_set] by (simp add: HandleFinalizer_def Let_def)
qed

theorem deletion_released_witness: "snd (HandleFinalizer final_sample (deleted_set, final_world, [SkyhookFinalizer])) = Inr True"
proof -
  obtain c where c: "sh_nodes deleted_set = [c]" "cn_Name c = ''node1''" using deleted_node by blast
  show ?thesis
    by (rule deletion_released [OF deleted_ready _ _ final_sample_api(1)])
      (use c in \<open>auto simp: final_sample_api(4,5) final_world_def\<close>, simp_all add: final_sample_def)
qed

theorem released_when_clean_witness:
  "\<exists>stored v. map_of (pw_nodes (fst (snd (fst (HandleFinalizer final_sample (deleted_set, final_world, [SkyhookFinalizer])))))) ''node1'' = Some (stored, v) \<and>
     map_of (n_Annotations stored) (METADATA_PREFIX @ ''/status_tune'') = None"
proof -
  obtain s' w' fs' where H: "HandleFinalizer final_sample (deleted_set, final_world, [SkyhookFinalizer]) = ((s', w', fs'), Inr True)"
    using deleted_runs by (metis prod.collapse)
  obtain c where c: "sh_nodes deleted_set = [c]" "cn_Name c = ''node1''" "sn_updated (CleanupSCRMetadata (Uncordon (cn_node c)))"
    "annotation (cn_node c) (METADATA_PREFIX @ ''/status_tune'') \<noteq> None"
    "annotation (CleanupSCRMetadata (Uncordon (cn_node c))) (METADATA_PREFIX @ ''/status_tune'') = None" using deleted_node by blast
  have "distinct (map cn_Name (sh_nodes deleted_set))" by (simp add: c)
  from released_when_clean [OF H this final_sample_api(1,2)] show ?thesis using c by (auto simp: H)
qed

theorem release_leaves_conditions_witness:
  "\<exists>node' v'. map_of (pw_nodes (fst (snd (fst (HandleFinalizer final_sample (deleted_set, final_world, [SkyhookFinalizer])))))) ''node1'' = Some (node', v') \<and>
     map nc_Type (n_Conditions node') = [METADATA_PREFIX @ ''/tune/NotReady'']"
proof -
  obtain s' w' fs' where H: "HandleFinalizer final_sample (deleted_set, final_world, [SkyhookFinalizer]) = ((s', w', fs'), Inr True)"
    using deleted_runs by (metis prod.collapse)
  obtain c where c: "c \<in> set (sh_nodes deleted_set)" "cn_Name c = ''node1''" using deleted_node by auto
  have "map_of (pw_nodes final_world) (cn_Name c) = Some (worn_node, 1)" by (simp add: c final_world_def)
  from release_leaves_conditions [OF H final_sample_api(3,4) c(1) this] show ?thesis by (auto simp: H c worn_node_def)
qed

end
