(* ===== verification/Config_Maps.thy ===== *)
theory Config_Maps
  imports Finalizer
begin

text \<open>
  The config maps of a resource, from \<open>operator/internal/controller/skyhook_controller.go\<close>: one for the configuration of each package
  (\<open>UpsertConfigmaps\<close>, \<open>HandleConfigUpdates\<close>) and one for the metadata of each node (\<open>ValidateNodeConfigmaps\<close>).

  The config maps of packages are kept by name, with the resource their label names and their data.  A label that belongs to a config map
  with metadata, the lookup of the resource (which is nil when there is none) and which requests the API server refuses are parameters.  Setting the owner of a config map
  is left out: it does not fail for an object just made.
\<close>

section \<open>State\<close>

record cmap =
  cm_Owner :: string
  cm_Data :: "(string, string) gomap"

type_synonym cmaps = "(string, cmap) gomap"

record config_env =
  ce_pass :: pass_env
  ce_list_ok :: bool
  ce_delete_ok :: "string \<Rightarrow> bool"
  ce_create_ok :: "string \<Rightarrow> bool"
  ce_update_ok :: "string \<Rightarrow> bool"
  ce_meta_owner :: "string \<Rightarrow> string"
  ce_lookup :: "string \<Rightarrow> unit + NodeWright option"

datatype config_error =
    MapsUnlisted
  | MapDelete string
  | MapCreate string
  | MapUpdate string
  | ConfigJobs exec_error
  | ConfigState node_error
  | ConfigSave "pass_error list"
  | ResourceUnread
  | ConfigPanic
  | MetaMaps "string list"

abbreviation ce_exec :: "config_env \<Rightarrow> exec_env" where
  "ce_exec env \<equiv> pe_exec (ce_pass env)"

definition package_map_name :: "string \<Rightarrow> Package \<Rightarrow> string" where
  "package_map_name resource p = to_lower (resource @ ''-'' @ p_Name p @ ''-'' @ p_Version p)"

section \<open>A changed configuration\<close>

text \<open>Which nodes have completed the package, and whether one is erroring in a stage that reads the configuration; its unfinished and
  failed Jobs are cleared on the way.\<close>

definition erroring_at_config :: "skyhookNode \<Rightarrow> Package \<Rightarrow> bool" where
  "erroring_at_config node p \<longleftrightarrow>
     (case PackageStatusOf node (GetUniqueName p) of
        None \<Rightarrow> False
      | Some status \<Rightarrow> ps_Stage status \<in> {StageConfig, StageInterrupt, StagePostInterrupt} \<and> ps_State status = StateErroring)"

fun config_scan ::
  "config_env \<Rightarrow> skyhookNodes \<Rightarrow> Package \<Rightarrow> cnode list \<Rightarrow> nat \<Rightarrow> bool \<Rightarrow> exec_state \<Rightarrow> exec_state \<times> (config_error + nat \<times> bool)" where
  "config_scan env s p [] ended erroring st = (st, Inr (ended, erroring))"
| "config_scan env s p (c # cs) ended erroring st =
     (case JobExists (ce_exec env) (cn_Name c) (sh_Name s) p st of
        Inl e \<Rightarrow> (st, Inl (ConfigJobs e))
      | Inr exists \<Rightarrow>
          (let ended1 = (if \<not> exists \<and> Node_IsPackageComplete (sh_skyhook s) (cn_node c) p then Suc ended else ended)
           in if erroring_at_config (cn_node c) p
              then (case deleteConfigUpdateExecutors (ce_exec env) (cn_Name c) (sh_Name s) p st of
                      (st1, Inl e) \<Rightarrow> (st1, Inl (ConfigJobs e))
                    | (st1, Inr _) \<Rightarrow> config_scan env s p cs ended1 True st1)
              else config_scan env s p cs ended1 erroring st))"

definition changed_keys :: "(string, string) gomap \<Rightarrow> (string, string) gomap \<Rightarrow> string list" where
  "changed_keys old new = map fst (filter (\<lambda>(k, v). map_of old k \<noteq> Some v) new)"

definition back_to_config :: "Package \<Rightarrow> string \<Rightarrow> skyhookNodes \<Rightarrow> skyhookNodes" where
  "back_to_config p name s = set_node_status StatusInProgress name (upsert_node p StateInProgress StageConfig name s)"

definition restart_config :: "Package \<Rightarrow> bool \<Rightarrow> string list \<Rightarrow> skyhookNodes \<Rightarrow> skyhookNodes" where
  "restart_config p all_done keys s =
     (let s1 = (if all_done then put_skyhook (RemoveConfigUpdates (p_Name p)) s else s);
          s2 = put_skyhook (AddConfigUpdates (p_Name p) keys) s1
      in fold (back_to_config p) (map cn_Name (sh_nodes s2)) s2)"

type_synonym config_state = "skyhookNodes \<times> pass_world \<times> cmaps"

definition HandleConfigUpdates ::
  "config_env \<Rightarrow> Package \<Rightarrow> string \<Rightarrow> (string, string) gomap \<Rightarrow> (string, string) gomap \<Rightarrow> config_state \<Rightarrow>
   config_state \<times> (config_error + bool \<times> bool)" where
  "HandleConfigUpdates env p name old new st =
     (let (s, w, cms) = st
      in if same_gomap old new then (st, Inr (False, False))
         else
           (case config_scan env s p (sh_nodes s) 0 False (pw_exec w) of
              (ex, Inl e) \<Rightarrow> ((s, w\<lparr>pw_exec := ex\<rparr>, cms), Inl e)
            | (ex, Inr (ended, erroring)) \<Rightarrow>
                (let all_done = (ended = length (sh_nodes s)); w1 = w\<lparr>pw_exec := ex\<rparr>
                 in if \<not> all_done \<and> \<not> erroring then ((s, w1, cms), Inr (False, True))
                    else
                      (let (s2, w2, saved, errs) = SaveNodesAndSkyhook (ce_pass env) (restart_config p all_done (changed_keys old new) s) w1
                       in if errs \<noteq> [] then ((s2, w2, cms), Inl (ConfigSave errs))
                          else if \<not> ce_update_ok env name then ((s2, w2, cms), Inl (MapUpdate name))
                          else ((s2, w2, gput name \<lparr>cm_Owner = sh_Name s, cm_Data = new\<rparr> cms), Inr (True, False))))))"

section \<open>The config maps of the packages\<close>

fun delete_maps :: "config_env \<Rightarrow> string list \<Rightarrow> cmaps \<Rightarrow> cmaps \<times> (config_error + unit)" where
  "delete_maps env [] cms = (cms, Inr ())"
| "delete_maps env (n # ns) cms = (if ce_delete_ok env n then delete_maps env ns (gdel n cms) else (cms, Inl (MapDelete n)))"

fun uninstalling :: "Packages \<Rightarrow> cnode list \<Rightarrow> string list \<Rightarrow> node_error + string list" where
  "uninstalling pk [] found = Inr found"
| "uninstalling pk (c # cs) found =
     (case Node_State (cn_node c) of
        Inl e \<Rightarrow> Inl e
      | Inr ns \<Rightarrow> uninstalling pk cs (found @ map (p_Name \<circ> snd) (filter (\<lambda>(k, p). IsUninstallCycleInProgress ns (GetUniqueName p)) pk)))"

fun upsert_maps ::
  "config_env \<Rightarrow> cmaps \<Rightarrow> string list \<Rightarrow> Package list \<Rightarrow> bool \<Rightarrow> bool \<Rightarrow> config_state \<Rightarrow> config_state \<times> (config_error + bool \<times> bool)" where
  "upsert_maps env existing leave [] updated pending st = (st, Inr (updated, pending))"
| "upsert_maps env existing leave (p # ps) updated pending st =
     (if p_Name p \<in> set leave \<or> p_ConfigMap p = [] then upsert_maps env existing leave ps updated pending st
      else
        (let (s, w, cms) = st; name = package_map_name (sh_Name s) p
         in case map_of existing name of
              Some old \<Rightarrow>
                (case HandleConfigUpdates env p name (cm_Data old) (p_ConfigMap p) st of
                   (st1, Inl e) \<Rightarrow> (st1, Inl e)
                 | (st1, Inr (u, d)) \<Rightarrow> upsert_maps env existing leave ps (updated \<or> u) (pending \<or> d) st1)
            | None \<Rightarrow>
                if ce_create_ok env name \<and> map_of cms name = None
                then upsert_maps env existing leave ps updated pending (s, w, gput name \<lparr>cm_Owner = sh_Name s, cm_Data = p_ConfigMap p\<rparr> cms)
                else (st, Inl (MapCreate name))))"

definition UpsertConfigmaps :: "config_env \<Rightarrow> config_state \<Rightarrow> config_state \<times> (config_error + bool \<times> bool)" where
  "UpsertConfigmaps env st =
     (let (s, w, cms) = st; pk = spec_Packages (sh_Spec s);
          existing = filter (\<lambda>(n, m). cm_Owner m = sh_Name s) cms;
          expected = map (package_map_name (sh_Name s) \<circ> snd) pk
      in if \<not> ce_list_ok env then (st, Inl MapsUnlisted)
         else
           (case delete_maps env (filter (\<lambda>n. n \<notin> set expected) (gkeys existing)) cms of
              (cms1, Inl e) \<Rightarrow> ((s, w, cms1), Inl e)
            | (cms1, Inr _) \<Rightarrow>
                (case uninstalling pk (sh_nodes s) [] of
                   Inl e \<Rightarrow> ((s, w, cms1), Inl (ConfigState e))
                 | Inr leave \<Rightarrow> upsert_maps env existing leave (map snd pk) False False (s, w, cms1))))"

section \<open>The config maps of the nodes\<close>

definition meta_name :: "string \<Rightarrow> string \<Rightarrow> string" where
  "meta_name resource node = generateSafeName 253 [resource, node, ''metadata'']"

type_synonym meta_acc = "(string, (string, string) gomap) gomap \<times> bool \<times> string list"

definition drop_meta :: "config_env \<Rightarrow> string list \<Rightarrow> string \<Rightarrow> meta_acc \<Rightarrow> meta_acc" where
  "drop_meta env expected n acc =
     (let (meta, update, errs) = acc
      in if n \<in> set expected then acc
         else if ce_delete_ok env n then (gdel n meta, True, errs) else (meta, True, errs @ [n]))"

definition refresh_meta :: "config_env \<Rightarrow> string list \<Rightarrow> string \<Rightarrow> string \<times> (string, string) gomap \<Rightarrow> meta_acc \<Rightarrow> meta_acc" where
  "refresh_meta env expected packages item acc =
     (let (meta, update, errs) = acc; (n, data) = item
      in if n \<notin> set expected \<or> map_of data ''packages.json'' = Some packages then acc
         else if ce_update_ok env n then (gput n (gput ''packages.json'' packages data) meta, True, errs)
         else (meta, update, errs @ [n]))"

definition ValidateNodeConfigmaps :: "config_env \<Rightarrow> string \<Rightarrow> string list \<Rightarrow> exec_state \<Rightarrow> exec_state \<times> bool \<times> (config_error + unit)" where
  "ValidateNodeConfigmaps env resource nodes st =
     (let listed = filter (\<lambda>(n, d). ce_meta_owner env n = resource) (ex_meta st); expected = map (meta_name resource) nodes
      in if \<not> ce_list_ok env then (st, False, Inl MapsUnlisted)
         else if listed = [] then (st, False, Inr ())
         else
           (let (meta, update, errs) = fold (drop_meta env expected) (gkeys listed) (ex_meta st, False, [])
            in case ce_lookup env resource of
                 Inl _ \<Rightarrow> (st\<lparr>ex_meta := meta\<rparr>, update, Inl ResourceUnread)
               | Inr None \<Rightarrow> (st\<lparr>ex_meta := meta\<rparr>, update, Inl ConfigPanic)
               | Inr (Some nw) \<Rightarrow>
                   (let packages = SkyhookMetadata_Marshal (xe_opts (ce_exec env)) (NewSkyhookWrapper nw);
                        (meta1, update1, errs1) = fold (refresh_meta env expected packages) listed (meta, update, errs)
                    in (st\<lparr>ex_meta := meta1\<rparr>, update1, if errs1 = [] then Inr () else Inl (MetaMaps errs1)))))"
section \<open>A change of configuration is not lost\<close>

lemma add_config_nodes [simp]: "cached_state (put_skyhook f s) n = cached_state s n" "sh_nodes (put_skyhook f s) = sh_nodes s"
  by (simp_all add: cached_state_def find_node_def put_skyhook_def)

lemma put_skyhook_find [simp]: "find_node (put_skyhook f s) n = find_node s n"
  by (simp add: find_node_def put_skyhook_def)

definition at_config :: "Package \<Rightarrow> skyhookNodes \<Rightarrow> string \<Rightarrow> bool" where
  "at_config p s name \<longleftrightarrow>
     map_option (\<lambda>t. (ps_Stage t, ps_State t)) (ns_get (cached_state s name) (GetUniqueName p)) = Some (StageConfig, StateInProgress)"

lemma Upsert_entry:
  "map_option (\<lambda>t. (ps_Stage t, ps_State t)) (ns_get (fst (Upsert ns (package_ref p) img state stage restarts sha)) (GetUniqueName p)) = Some (stage, state)"
  by (auto simp: Upsert_def ns_get_def GetUniqueName_def package_ref_def PackageRef_GetUniqueName_def unique_name_def Let_def split: option.splits)

lemma back_to_config_frame:
  "map cn_Name (sh_nodes (back_to_config p name s)) = map cn_Name (sh_nodes s)"
  "(find_node (back_to_config p name s) n = None) = (find_node s n = None)"
  "cached_state (back_to_config p name s) n =
     (if n = name \<and> find_node s name \<noteq> None
      then fst (Upsert (cached_state s name) (package_ref p) (p_Image p) StateInProgress StageConfig 0 (p_ContainerSHA p)) else cached_state s n)"
  by (auto simp: back_to_config_def)

lemma restart_fold:
  "\<forall>n \<in> set names. find_node s n \<noteq> None \<Longrightarrow> n \<in> set names \<or> at_config p s n \<Longrightarrow> at_config p (fold (back_to_config p) names s) n"
proof (induction names arbitrary: s)
  case (Cons name names)
  have "n \<in> set names \<or> at_config p (back_to_config p name s) n"
    using Cons.prems by (auto simp: at_config_def back_to_config_frame Upsert_entry)
  moreover have "\<forall>m \<in> set names. find_node (back_to_config p name s) m \<noteq> None"
    using Cons.prems(1) back_to_config_frame(2) by auto
  ultimately show ?case using Cons.IH by simp
qed simp

lemma restart_at_config: "c \<in> set (sh_nodes s) \<Longrightarrow> at_config p (restart_config p b keys s) (cn_Name c)"
proof -
  assume c: "c \<in> set (sh_nodes s)"
  have found: "\<forall>n \<in> set (map cn_Name (sh_nodes s)). find_node s n \<noteq> None" using node_found by fastforce
  show ?thesis unfolding restart_config_def Let_def by (rule restart_fold) (use c found in auto)
qed

lemma config_ordered:
  assumes "HandleConfigUpdates env p name old new (s, w, cms) = ((s', w', cms'), r)"
  shows "(if r = Inr (True, False)
      then cms' = gput name \<lparr>cm_Owner = sh_Name s, cm_Data = new\<rparr> cms \<and>
        (\<exists>s1 w1 saved. SaveNodesAndSkyhook (ce_pass env) s1 w1 = (s', w', saved, []) \<and> (\<forall>c \<in> set (sh_nodes s). at_config p s1 (cn_Name c)))
      else cms' = cms) \<and>
    (\<not> same_gomap old new \<longrightarrow> r \<noteq> Inr (False, False))"
proof (cases "same_gomap old new")
  case True
  then show ?thesis using assms by (auto simp: HandleConfigUpdates_def)
next
  case False
  obtain ex q where C: "config_scan env s p (sh_nodes s) 0 False (pw_exec w) = (ex, q)" by fastforce
  show ?thesis
  proof (cases q)
    case (Inl e)
    then show ?thesis using assms False by (auto simp: HandleConfigUpdates_def C)
  next
    case (Inr x)
    obtain n erroring where x: "x = (n, erroring)" by (cases x)
    obtain alld where alld: "(n = length (sh_nodes s)) = alld" by blast
    obtain s2 w2 saved errs where S: "SaveNodesAndSkyhook (ce_pass env) (restart_config p alld (changed_keys old new) s) (w\<lparr>pw_exec := ex\<rparr>) = (s2, w2, saved, errs)"
      by (cases "SaveNodesAndSkyhook (ce_pass env) (restart_config p alld (changed_keys old new) s) (w\<lparr>pw_exec := ex\<rparr>)")
    have H: "HandleConfigUpdates env p name old new (s, w, cms) =
        (if \<not> alld \<and> \<not> erroring then ((s, w\<lparr>pw_exec := ex\<rparr>, cms), Inr (False, True))
         else if errs \<noteq> [] then ((s2, w2, cms), Inl (ConfigSave errs))
         else if \<not> ce_update_ok env name then ((s2, w2, cms), Inl (MapUpdate name))
         else ((s2, w2, gput name \<lparr>cm_Owner = sh_Name s, cm_Data = new\<rparr> cms), Inr (True, False)))"
      using False S by (cases alld) (simp_all add: HandleConfigUpdates_def C Inr x alld)
    have "\<exists>s1 w1 saved. SaveNodesAndSkyhook (ce_pass env) s1 w1 = (s2, w2, saved, []) \<and> (\<forall>c \<in> set (sh_nodes s). at_config p s1 (cn_Name c))"
      if "errs = []" using S restart_at_config that by blast
    then show ?thesis using assms unfolding H by (auto split: if_splits)
  qed
qed

text \<open>
  C10. A change of configuration is not lost.  \<open>HandleConfigUpdates\<close> stores the new data of a config map only after every node of the
  resource has been put back to the config stage of the package and this has been saved without an error; in every other case (nothing
  changed, a package still at work, a failed request) the stored config maps are as before, so that the difference is seen again, and
  when the work is only put off the caller is told to come back.
\<close>

theorem config_change_ordered:
  assumes "HandleConfigUpdates env p name old new (s, w, cms) = ((s', w', cms'), r)"
  shows "(if r = Inr (True, False)
      then cms' = gput name \<lparr>cm_Owner = sh_Name s, cm_Data = new\<rparr> cms \<and>
        (\<exists>s1 w1 saved. SaveNodesAndSkyhook (ce_pass env) s1 w1 = (s', w', saved, []) \<and> (\<forall>c \<in> set (sh_nodes s). at_config p s1 (cn_Name c)))
      else cms' = cms) \<and>
    (\<not> same_gomap old new \<longrightarrow> r \<noteq> Inr (False, False))"
  by (rule config_ordered [OF assms])

section \<open>One config map for each package\<close>

lemma add_config_same: "nw_Name (sk_NodeWright (add_config_update pkg k sk)) = nw_Name (sk_NodeWright sk)" "sk_Spec (add_config_update pkg k sk) = sk_Spec sk"
  by (simp_all add: add_config_update_def put_status_def touch_def Let_def)

lemma whose_add_config: "whose (put_skyhook (AddConfigUpdates pkg keys) s) = whose s"
proof (rule whose_put)
  have "nw_Name (sk_NodeWright (fold (add_config_update pkg) keys sk)) = nw_Name (sk_NodeWright sk) \<and> sk_Spec (fold (add_config_update pkg) keys sk) = sk_Spec sk" for sk
    by (induction keys arbitrary: sk) (simp_all add: add_config_same)
  then show "nw_Name (sk_NodeWright (AddConfigUpdates pkg keys (sh_skyhook s))) = sh_Name s" "sk_Spec (AddConfigUpdates pkg keys (sh_skyhook s)) = sh_Spec s"
    by (simp_all add: AddConfigUpdates_def put_status_def)
qed

lemma whose_restart: "whose (restart_config p b keys s) = whose s"
proof -
  have "whose (fold (back_to_config p) names t) = whose t" for names t
    by (induction names arbitrary: t) (simp_all add: back_to_config_def)
  then show ?thesis by (simp add: restart_config_def Let_def whose_add_config)
qed

lemma config_whose:
  assumes "HandleConfigUpdates env p name old new (s, w, cms) = ((s', w', cms'), r)"
  shows "whose s' = whose s"
proof -
  obtain ex q where C: "config_scan env s p (sh_nodes s) 0 False (pw_exec w) = (ex, q)" by fastforce
  have "whose s2 = whose s" if "SaveNodesAndSkyhook (ce_pass env) (restart_config p b keys s) w1 = (s2, w2, saved, errs)" for b keys w1 s2 w2 saved errs
    using Save_whose [OF that] by (simp add: whose_restart)
  then show ?thesis using assms by (auto simp: HandleConfigUpdates_def C Let_def split: if_splits sum.splits prod.splits)
qed

lemma upsert_pending: "upsert_maps env ex leave ps u True st = (st', Inr (u', d')) \<Longrightarrow> d'"
proof (induction ps arbitrary: u st)
  case (Cons p ps)
  obtain s w cms where st: "st = (s, w, cms)" by (cases st)
  have "\<exists>u1 st1. upsert_maps env ex leave ps u1 True st1 = (st', Inr (u', d'))"
    using Cons.prems unfolding st by (auto simp: Let_def split: if_splits option.splits prod.splits sum.splits simp del: split_paired_Ex)
  then show ?case using Cons.IH by blast
qed simp

lemma upsert_not_pending: "upsert_maps env ex leave ps u d st = (st', Inr (u', False)) \<Longrightarrow> \<not> d"
proof
  assume "upsert_maps env ex leave ps u d st = (st', Inr (u', False))" and d
  then have "upsert_maps env ex leave ps u True st = (st', Inr (u', False))" by (simp only: eqTrueI)
  from upsert_pending [OF this] show False .
qed

definition keeps_map :: "string list \<Rightarrow> Package \<Rightarrow> bool" where
  "keeps_map leave p \<longleftrightarrow> p_Name p \<notin> set leave \<and> p_ConfigMap p \<noteq> []"

lemma upsert_step:
  assumes "upsert_maps env ex leave (p # ps) u d (s, w, cms) = (st', Inr (u', False))" and "keeps_map leave p" and "gomap_ok (p_ConfigMap p)"
    and "\<And>old. map_of ex (package_map_name (sh_Name s) p) = Some old \<Longrightarrow> map_of cms (package_map_name (sh_Name s) p) = Some old"
  shows "\<exists>u1 s1 w1 cms1 m. upsert_maps env ex leave ps u1 False (s1, w1, cms1) = (st', Inr (u', False)) \<and> sh_Name s1 = sh_Name s \<and>
    map_of cms1 (package_map_name (sh_Name s) p) = Some m \<and> same_gomap (cm_Data m) (p_ConfigMap p) \<and>
    (\<forall>n. n \<noteq> package_map_name (sh_Name s) p \<longrightarrow> map_of cms1 n = map_of cms n)"
proof -
  let ?n = "package_map_name (sh_Name s) p"
  have d: "\<not> d" using upsert_not_pending [OF assms(1)] .
  show ?thesis
  proof (cases "map_of ex ?n")
    case None
    let ?m = "\<lparr>cm_Owner = sh_Name s, cm_Data = p_ConfigMap p\<rparr>"
    have "upsert_maps env ex leave ps u False (s, w, gput ?n ?m cms) = (st', Inr (u', False))"
      using assms(1,2) None d by (auto simp: keeps_map_def Let_def split: if_splits)
    then show ?thesis using assms(3)
      by (intro exI [of _ u] exI [of _ s] exI [of _ w] exI [of _ "gput ?n ?m cms"] exI [of _ ?m]) simp
  next
    case (Some om)
    obtain s1 w1 cms1 r where H: "HandleConfigUpdates env p ?n (cm_Data om) (p_ConfigMap p) (s, w, cms) = ((s1, w1, cms1), r)" by (metis surj_pair)
    obtain u1 d1 where r: "r = Inr (u1, d1)" and rest: "upsert_maps env ex leave ps (u \<or> u1) (d \<or> d1) (s1, w1, cms1) = (st', Inr (u', False))"
      using assms(1,2) Some by (cases r) (auto simp: keeps_map_def Let_def H)
    have d1: "\<not> d1" using upsert_not_pending [OF rest] by simp
    have n1: "sh_Name s1 = sh_Name s" using config_whose [OF H] by (simp add: whose_def)
    note O = config_ordered [OF H]
    have "\<exists>m. map_of cms1 ?n = Some m \<and> same_gomap (cm_Data m) (p_ConfigMap p)"
    proof (cases u1)
      case True
      then show ?thesis using O r d1 assms(3) by simp
    next
      case False
      then have "cms1 = cms" "same_gomap (cm_Data om) (p_ConfigMap p)" using O r d1 by auto
      then show ?thesis using assms(4) Some by auto
    qed
    moreover have "\<forall>n. n \<noteq> ?n \<longrightarrow> map_of cms1 n = map_of cms n" using O by (auto split: if_splits)
    moreover have "upsert_maps env ex leave ps (u \<or> u1) False (s1, w1, cms1) = (st', Inr (u', False))" using rest d d1 by simp
    ultimately show ?thesis using n1 by blast
  qed
qed
lemma upsert_all:
  assumes "upsert_maps env ex leave ps u d (s, w, cms) = ((s', w', cms'), Inr (u', False))" and "sh_Name s = R"
    and "distinct (map (package_map_name R) ps)" and "\<And>p. p \<in> set ps \<Longrightarrow> gomap_ok (p_ConfigMap p)"
    and "\<And>p old. p \<in> set ps \<Longrightarrow> map_of ex (package_map_name R p) = Some old \<Longrightarrow> map_of cms (package_map_name R p) = Some old"
  shows "(\<forall>n. n \<notin> package_map_name R ` set (filter (keeps_map leave) ps) \<longrightarrow> map_of cms' n = map_of cms n) \<and>
    (\<forall>p \<in> set ps. keeps_map leave p \<longrightarrow> (\<exists>m. map_of cms' (package_map_name R p) = Some m \<and> same_gomap (cm_Data m) (p_ConfigMap p)))"
  using assms
proof (induction ps arbitrary: u d s w cms)
  case (Cons p ps)
  show ?case
  proof (cases "keeps_map leave p")
    case False
    then have "upsert_maps env ex leave ps u d (s, w, cms) = ((s', w', cms'), Inr (u', False))" using Cons.prems(1) by (auto simp: keeps_map_def)
    from Cons.IH [OF this Cons.prems(2)] Cons.prems(3-5) False show ?thesis by simp
  next
    case True
    let ?n = "package_map_name R p"
    obtain u1 s1 w1 cms1 m where step: "upsert_maps env ex leave ps u1 False (s1, w1, cms1) = ((s', w', cms'), Inr (u', False))" "sh_Name s1 = R"
      "map_of cms1 ?n = Some m" "same_gomap (cm_Data m) (p_ConfigMap p)" "\<forall>n. n \<noteq> ?n \<longrightarrow> map_of cms1 n = map_of cms n"
      using upsert_step [OF Cons.prems(1) True] Cons.prems(2,4,5) by (metis list.set_intros(1))
    have other: "package_map_name R q \<noteq> ?n" if "q \<in> set ps" for q using Cons.prems(3) that by (metis distinct.simps(2) imageI list.simps(9) set_map)
    have IH: "(\<forall>n. n \<notin> package_map_name R ` set (filter (keeps_map leave) ps) \<longrightarrow> map_of cms' n = map_of cms1 n) \<and>
      (\<forall>p \<in> set ps. keeps_map leave p \<longrightarrow> (\<exists>m. map_of cms' (package_map_name R p) = Some m \<and> same_gomap (cm_Data m) (p_ConfigMap p)))"
      using Cons.prems(3-5) step(5) other by (intro Cons.IH [OF step(1,2)]) auto
    have mine: "map_of cms' ?n = Some m" using IH other step(3) by (metis (no_types, lifting) filter_is_subset imageE subsetD)
    have "map_of cms' n = map_of cms n" if "n \<notin> package_map_name R ` set (filter (keeps_map leave) (p # ps))" for n
      using IH step(5) that True by simp
    then show ?thesis using IH mine step(4) by simp
  qed
qed simp

lemma delete_maps_result:
  "delete_maps env ns cms = (cms', Inr ()) \<Longrightarrow> map_of cms' n = (if n \<in> set ns then None else map_of cms n)"
  by (induction ns arbitrary: cms) (auto split: if_splits)

text \<open>The maps of the resource, once nothing fails and nothing is put off.\<close>

lemma settled_maps:
  assumes "UpsertConfigmaps env (s, w, cms) = ((s', w', cms'), Inr (u, False))" and "gomap_ok cms"
    and "distinct (map (package_map_name (sh_Name s) \<circ> snd) (spec_Packages (sh_Spec s)))"
    and "\<And>k p. (k, p) \<in> set (spec_Packages (sh_Spec s)) \<Longrightarrow> gomap_ok (p_ConfigMap p)"
    and "uninstalling (spec_Packages (sh_Spec s)) (sh_nodes s) [] = Inr leave"
  shows "(\<forall>(k, p) \<in> set (spec_Packages (sh_Spec s)).
      if p_Name p \<notin> set leave \<and> p_ConfigMap p \<noteq> []
      then \<exists>m. map_of cms' (package_map_name (sh_Name s) p) = Some m \<and> same_gomap (cm_Data m) (p_ConfigMap p)
      else map_of cms' (package_map_name (sh_Name s) p) = map_of cms (package_map_name (sh_Name s) p)) \<and>
    (\<forall>n m. map_of cms n = Some m \<longrightarrow> cm_Owner m = sh_Name s \<longrightarrow>
      n \<notin> (package_map_name (sh_Name s) \<circ> snd) ` set (spec_Packages (sh_Spec s)) \<longrightarrow> map_of cms' n = None)"
proof -
  let ?R = "sh_Name s" and ?pk = "spec_Packages (sh_Spec s)"
  let ?ex = "filter (\<lambda>(n, m). cm_Owner m = ?R) cms" and ?want = "map (package_map_name ?R \<circ> snd) ?pk"
  let ?drop = "filter (\<lambda>n. n \<notin> set ?want) (gkeys ?ex)"
  have ex: "map_of ?ex n = Some m \<longleftrightarrow> map_of cms n = Some m \<and> cm_Owner m = ?R" for n m
    using assms(2) map_of_eq_Some_iff [of ?ex n m] map_of_eq_Some_iff [of cms n m] by (auto simp: distinct_map_filter)
  obtain cms1 q where D: "delete_maps env ?drop cms = (cms1, q)" by fastforce
  have q: "q = Inr ()" and U: "upsert_maps env ?ex leave (map snd ?pk) False False (s, w, cms1) = ((s', w', cms'), Inr (u, False))"
    using assms(1,5) D by (auto simp: UpsertConfigmaps_def Let_def split: if_splits sum.splits)
  have c1: "map_of cms1 n = (if n \<in> set ?drop then None else map_of cms n)" for n using delete_maps_result [of env ?drop cms cms1 n] D q by simp
  have "map_of cms1 (package_map_name ?R p) = Some old" if "p \<in> set (map snd ?pk)" "map_of ?ex (package_map_name ?R p) = Some old" for p old
    using that ex c1 by auto
  moreover have "gomap_ok (p_ConfigMap p)" if "p \<in> set (map snd ?pk)" for p using assms(4) that by auto
  moreover have "distinct (map (package_map_name ?R) (map snd ?pk))" using assms(3) by simp
  ultimately have AB: "(\<forall>n. n \<notin> package_map_name ?R ` set (filter (keeps_map leave) (map snd ?pk)) \<longrightarrow> map_of cms' n = map_of cms1 n) \<and>
      (\<forall>p \<in> set (map snd ?pk). keeps_map leave p \<longrightarrow> (\<exists>m. map_of cms' (package_map_name ?R p) = Some m \<and> same_gomap (cm_Data m) (p_ConfigMap p)))"
    by (intro upsert_all [OF U refl])
  note A = conjunct1 [OF AB] and B = conjunct2 [OF AB]
  have old: "map_of cms' n = map_of cms1 n" if "n \<notin> (package_map_name ?R \<circ> snd) ` set ?pk" for n using A that by auto
  have keys: "n \<in> set (gkeys ?ex) \<longleftrightarrow> (\<exists>m. map_of cms n = Some m \<and> cm_Owner m = ?R)" for n using ex gkeys_lookup [of n ?ex] by auto
  have "map_of cms' n = (if cm_Owner m = ?R then None else Some m)" if "map_of cms n = Some m" "n \<notin> (package_map_name ?R \<circ> snd) ` set ?pk" for n m
    using old [OF that(2)] c1 [of n] keys [of n] that by simp
  moreover have "map_of cms' (package_map_name ?R p) = map_of cms (package_map_name ?R p)" if "(k, p) \<in> set ?pk" "\<not> keeps_map leave p" for k p
  proof -
    have "package_map_name ?R p \<notin> package_map_name ?R ` set (filter (keeps_map leave) (map snd ?pk))"
    proof
      assume "package_map_name ?R p \<in> package_map_name ?R ` set (filter (keeps_map leave) (map snd ?pk))"
      then obtain k' q where q: "(k', q) \<in> set ?pk" "keeps_map leave q" "package_map_name ?R p = package_map_name ?R q" by auto
      then have "(k, p) = (k', q)" using assms(3) that(1) inj_onD [of "package_map_name ?R \<circ> snd" "set ?pk" "(k, p)" "(k', q)"] by (simp add: distinct_map)
      with q(2) that(2) show False by simp
    qed
    then have "map_of cms' (package_map_name ?R p) = map_of cms1 (package_map_name ?R p)" using A by blast
    also have "\<dots> = map_of cms (package_map_name ?R p)" using c1 that(1) by force
    finally show ?thesis .
  qed
  ultimately show ?thesis using B by (fastforce simp: keeps_map_def)
qed

lemma config_other_maps:
  assumes "HandleConfigUpdates env p name old new (s, w, cms) = ((s2, w2, cms2), r)" and "n \<noteq> name" shows "map_of cms2 n = map_of cms n"
proof -
  obtain ex q where C: "config_scan env s p (sh_nodes s) 0 False (pw_exec w) = (ex, q)" by fastforce
  show ?thesis using assms by (auto simp: HandleConfigUpdates_def C Let_def split: if_splits sum.splits prod.splits)
qed

text \<open>Whatever becomes of it: a config map that is not among those listed for the resource stays.\<close>

lemma upsert_foreign:
  "upsert_maps env ex leave ps u d (s, w, cms) = ((s', w', cms'), r) \<Longrightarrow> map_of ex n = None \<Longrightarrow> map_of cms n = Some m \<Longrightarrow> map_of cms' n = Some m"
proof (induction ps arbitrary: u d s w cms)
  case (Cons p ps)
  let ?n = "package_map_name (sh_Name s) p"
  consider "\<not> keeps_map leave p" | "keeps_map leave p" "map_of ex ?n = None" | om where "keeps_map leave p" "map_of ex ?n = Some om"
    by (cases "keeps_map leave p"; cases "map_of ex ?n") auto
  then show ?case
  proof cases
    case 1
    then have "upsert_maps env ex leave ps u d (s, w, cms) = ((s', w', cms'), r)" using Cons.prems(1) by (auto simp: keeps_map_def)
    then show ?thesis using Cons.IH Cons.prems(2,3) by blast
  next
    case 2
    show ?thesis
    proof (cases "ce_create_ok env ?n \<and> map_of cms ?n = None")
      case True
      then have "upsert_maps env ex leave ps u d (s, w, gput ?n \<lparr>cm_Owner = sh_Name s, cm_Data = p_ConfigMap p\<rparr> cms) = ((s', w', cms'), r)"
        using Cons.prems(1) 2 by (simp add: keeps_map_def Let_def)
      moreover have "n \<noteq> ?n" using True Cons.prems(3) by auto
      ultimately show ?thesis using Cons.IH Cons.prems(2,3) by simp
    next
      case False
      then show ?thesis using Cons.prems(1,3) 2 by (auto simp: keeps_map_def Let_def)
    qed
  next
    case 3
    obtain s1 w1 cms1 q where H: "HandleConfigUpdates env p ?n (cm_Data om) (p_ConfigMap p) (s, w, cms) = ((s1, w1, cms1), q)" by (metis surj_pair)
    have "n \<noteq> ?n" using 3(2) Cons.prems(2) by auto
    then have keep: "map_of cms1 n = Some m" using config_other_maps [OF H] Cons.prems(3) by simp
    show ?thesis
    proof (cases q)
      case (Inl e)
      then show ?thesis using Cons.prems(1) 3 keep by (simp add: keeps_map_def Let_def H)
    next
      case (Inr ud)
      obtain u1 d1 where "ud = (u1, d1)" by (cases ud)
      then have "upsert_maps env ex leave ps (u \<or> u1) (d \<or> d1) (s1, w1, cms1) = ((s', w', cms'), r)"
        using Cons.prems(1) 3 Inr by (simp add: keeps_map_def Let_def H)
      then show ?thesis using Cons.IH Cons.prems(2) keep by blast
    qed
  qed
qed simp

lemma delete_maps_other: "delete_maps env ns cms = (cms', q) \<Longrightarrow> n \<notin> set ns \<Longrightarrow> map_of cms' n = map_of cms n"
  by (induction ns arbitrary: cms) (auto split: if_splits)

lemma own_maps:
  assumes "gomap_ok (cms :: cmaps)"
  shows "map_of (filter (\<lambda>(n, m). cm_Owner m = R) cms) n = (case map_of cms n of None \<Rightarrow> None | Some m \<Rightarrow> if cm_Owner m = R then Some m else None)"
proof -
  have d: "distinct (map fst (filter (\<lambda>(n, m). cm_Owner m = R) cms))" using assms by (simp add: distinct_map_filter)
  show ?thesis
  proof (cases "map_of (filter (\<lambda>(n, m). cm_Owner m = R) cms) n")
    case None
    then show ?thesis using assms map_of_eq_Some_iff [OF d] by (auto simp: map_of_eq_None_iff split: option.split)
  next
    case (Some m)
    then have "(n, m) \<in> set cms" "cm_Owner m = R" using map_of_SomeD by fastforce+
    then show ?thesis using Some assms by simp
  qed
qed

lemma foreign_kept:
  assumes "UpsertConfigmaps env (s, w, cms) = ((s', w', cms'), r)" and "gomap_ok cms" and "map_of cms n = Some m" and "cm_Owner m \<noteq> sh_Name s"
  shows "map_of cms' n = Some m"
proof -
  let ?ex = "filter (\<lambda>(n, m). cm_Owner m = sh_Name s) cms"
  let ?drop = "filter (\<lambda>n. n \<notin> set (map (package_map_name (sh_Name s) \<circ> snd) (spec_Packages (sh_Spec s)))) (gkeys ?ex)"
  have none: "map_of ?ex n = None" using own_maps [OF assms(2)] assms(3,4) by simp
  then have "n \<notin> set ?drop" using gkeys_lookup [of n ?ex] by auto
  obtain cms1 q where D: "delete_maps env ?drop cms = (cms1, q)" by fastforce
  have kept: "map_of cms1 n = Some m" using delete_maps_other [OF D \<open>n \<notin> set ?drop\<close>] assms(3) by simp
  show ?thesis using assms(1,3) kept upsert_foreign [OF _ none] D
    by (auto simp: UpsertConfigmaps_def Let_def split: if_splits sum.splits)
qed

text \<open>
  C35. The config maps follow the specification.  Whatever the outcome of \<open>UpsertConfigmaps\<close>, a config map of another resource stays as it is, also
  one that has the name a map of this resource would have.  When it ends without an error and with nothing put off, each package with a
  configuration that is not being uninstalled has its config map, with the data of the specification; a config map of the resource
  that belongs to no package and version of the specification is gone; and the config map of a package that is being uninstalled, or
  whose configuration has been emptied, is left as it was.
\<close>

theorem config_maps_exact:
  assumes "UpsertConfigmaps env (s, w, cms) = ((s', w', cms'), r)" and "gomap_ok cms"
  shows "(\<forall>n m. map_of cms n = Some m \<longrightarrow> cm_Owner m \<noteq> sh_Name s \<longrightarrow> map_of cms' n = Some m) \<and>
    (\<forall>u leave. r = Inr (u, False) \<longrightarrow> uninstalling (spec_Packages (sh_Spec s)) (sh_nodes s) [] = Inr leave \<longrightarrow>
      distinct (map (package_map_name (sh_Name s) \<circ> snd) (spec_Packages (sh_Spec s))) \<longrightarrow>
      (\<forall>(k, p) \<in> set (spec_Packages (sh_Spec s)). gomap_ok (p_ConfigMap p)) \<longrightarrow>
      (\<forall>(k, p) \<in> set (spec_Packages (sh_Spec s)).
        if p_Name p \<notin> set leave \<and> p_ConfigMap p \<noteq> []
        then \<exists>m. map_of cms' (package_map_name (sh_Name s) p) = Some m \<and> same_gomap (cm_Data m) (p_ConfigMap p)
        else map_of cms' (package_map_name (sh_Name s) p) = map_of cms (package_map_name (sh_Name s) p)) \<and>
      (\<forall>n m. map_of cms n = Some m \<longrightarrow> cm_Owner m = sh_Name s \<longrightarrow>
        n \<notin> (package_map_name (sh_Name s) \<circ> snd) ` set (spec_Packages (sh_Spec s)) \<longrightarrow> map_of cms' n = None))"
proof (rule conjI; intro allI impI)
  show "map_of cms' n = Some m" if "map_of cms n = Some m" "cm_Owner m \<noteq> sh_Name s" for n m
    by (rule foreign_kept [OF assms that])
  fix u leave
  assume r: "r = Inr (u, False)" and u: "uninstalling (spec_Packages (sh_Spec s)) (sh_nodes s) [] = Inr leave"
    and d: "distinct (map (package_map_name (sh_Name s) \<circ> snd) (spec_Packages (sh_Spec s)))"
    and g: "\<forall>(k, p) \<in> set (spec_Packages (sh_Spec s)). gomap_ok (p_ConfigMap p)"
  have "gomap_ok (p_ConfigMap p)" if "(k, p) \<in> set (spec_Packages (sh_Spec s))" for k p using g that by auto
  from settled_maps [OF assms(1) [unfolded r] assms(2) d this u] 
  show "(\<forall>(k, p) \<in> set (spec_Packages (sh_Spec s)).
        if p_Name p \<notin> set leave \<and> p_ConfigMap p \<noteq> []
        then \<exists>m. map_of cms' (package_map_name (sh_Name s) p) = Some m \<and> same_gomap (cm_Data m) (p_ConfigMap p)
        else map_of cms' (package_map_name (sh_Name s) p) = map_of cms (package_map_name (sh_Name s) p)) \<and>
      (\<forall>n m. map_of cms n = Some m \<longrightarrow> cm_Owner m = sh_Name s \<longrightarrow>
        n \<notin> (package_map_name (sh_Name s) \<circ> snd) ` set (spec_Packages (sh_Spec s)) \<longrightarrow> map_of cms' n = None)" .
qed

section \<open>Witnesses\<close>

definition tuned_package :: Package where
  "tuned_package = sample_package\<lparr>p_ConfigMap := [(''a.conf'', ''1'')]\<rparr>"

definition tuned_set :: skyhookNodes where
  "tuned_set = put_skyhook (\<lambda>k. k\<lparr>sk_NodeWright := sample_nodewright [(''tuning'', tuned_package)] []\<rparr>) (sample_set sample_skyhookNode)"

definition config_sample :: config_env where
  "config_sample = \<lparr>ce_pass = calm_env, ce_list_ok = True, ce_delete_ok = (\<lambda>_. True), ce_create_ok = (\<lambda>_. True), ce_update_ok = (\<lambda>_. True),
     ce_meta_owner = (\<lambda>_. ''tune''), ce_lookup = (\<lambda>_. Inr None)\<rparr>"

definition stored_maps :: cmaps where
  "stored_maps = [(''tune-old-1'', \<lparr>cm_Owner = ''tune'', cm_Data = []\<rparr>), (''other-x-1'', \<lparr>cm_Owner = ''other'', cm_Data = []\<rparr>)]"

lemma tuned_facts:
  "map cn_Name (sh_nodes tuned_set) = [''node1'']" "sh_Name tuned_set = ''tune''" "spec_Packages (sh_Spec tuned_set) = [(''tuning'', tuned_package)]"
  "package_map_name ''tune'' tuned_package = ''tune-tuning-1.0.0''" "uninstalling (spec_Packages (sh_Spec tuned_set)) (sh_nodes tuned_set) [] = Inr []"
  by code_simp+

lemma tuned_upsert: "snd (UpsertConfigmaps config_sample (tuned_set, first_world, stored_maps)) = Inr (False, False)"
  by code_simp

lemma tuned_deferred:
  "snd (HandleConfigUpdates config_sample tuned_package ''tune-tuning-1.0.0'' [(''a.conf'', ''0'')] [(''a.conf'', ''1'')] (tuned_set, first_world, stored_maps)) = Inr (False, True)"
  by code_simp

theorem config_change_ordered_witness:
  "snd (snd (fst (HandleConfigUpdates config_sample tuned_package ''tune-tuning-1.0.0'' [(''a.conf'', ''0'')] [(''a.conf'', ''1'')]
     (tuned_set, first_world, stored_maps)))) = stored_maps"
proof -
  obtain s' w' cms' where H: "HandleConfigUpdates config_sample tuned_package ''tune-tuning-1.0.0'' [(''a.conf'', ''0'')] [(''a.conf'', ''1'')]
      (tuned_set, first_world, stored_maps) = ((s', w', cms'), Inr (False, True))"
    using tuned_deferred by (metis prod.collapse)
  from config_change_ordered [OF H] show ?thesis by (simp add: H)
qed

theorem config_maps_exact_witness:
  "let cms' = snd (snd (fst (UpsertConfigmaps config_sample (tuned_set, first_world, stored_maps))))
   in (\<exists>m. map_of cms' ''tune-tuning-1.0.0'' = Some m \<and> same_gomap (cm_Data m) (p_ConfigMap tuned_package)) \<and>
      map_of cms' ''tune-old-1'' = None \<and> map_of cms' ''other-x-1'' = Some \<lparr>cm_Owner = ''other'', cm_Data = []\<rparr>"
proof -
  obtain s' w' cms' where U: "UpsertConfigmaps config_sample (tuned_set, first_world, stored_maps) = ((s', w', cms'), Inr (False, False))"
    using tuned_upsert by (metis prod.collapse)
  have c: "p_ConfigMap tuned_package \<noteq> []" "gomap_ok (p_ConfigMap tuned_package)" by (simp_all add: tuned_package_def)
  have g: "gomap_ok stored_maps" by (simp add: stored_maps_def)
  note E = config_maps_exact [OF U g]
  have "map_of cms' ''other-x-1'' = Some \<lparr>cm_Owner = ''other'', cm_Data = []\<rparr>"
    using conjunct1 [OF E] by (simp add: tuned_facts(2) stored_maps_def)
  moreover have "(\<exists>m. map_of cms' ''tune-tuning-1.0.0'' = Some m \<and> same_gomap (cm_Data m) (p_ConfigMap tuned_package)) \<and> map_of cms' ''tune-old-1'' = None"
    using mp [OF spec [OF spec [OF conjunct2 [OF E]]] refl] tuned_facts(5) by (simp add: tuned_facts(2-4) c stored_maps_def)
  ultimately show ?thesis unfolding U by simp
qed

end
