(* ===== verification/Legacy_Conversion.thy ===== *)
theory Legacy_Conversion
  imports NodeWright_Types
begin

text \<open>
  The conversion of the resources of the old API group \<open>skyhook.nvidia.com\<close> into those of the new group
  \<open>nodewright.nvidia.com\<close>: \<open>operator/api/v1alpha1/nodewright_conversion.go\<close>, with the old types of
  \<open>operator/api/v1alpha1/skyhook_types.go\<close> where they differ from the new ones.

  The types with the same fields in both groups (interrupts, budgets, strategies, statuses) are one type here, so that their conversion is a
  copy field by field.  The package and the specification have fields of their own in the new group and are separate records.  The
  metadata, which the converters treat alike for both kinds, is in \<open>object\<close>, the common form of the resources the mirror handles.
  A converter writes into an object it is given: the fields it does not write keep their value.
\<close>

section \<open>The old types\<close>

record legacy_Package =
  lp_Ref :: PackageRef
  lp_Image :: string
  lp_ContainerSHA :: string
  lp_AgentImageOverride :: string
  lp_Interrupt :: "Interrupt option"
  lp_DependsOn :: "(string, string) gomap"
  lp_ConfigInterrupts :: "(string, Interrupt) gomap"
  lp_ConfigMap :: "(string, string) gomap"
  lp_Env :: "EnvVar list"
  lp_Resources :: "ResourceRequirements option"
  lp_GracefulShutdown :: "int option"
  lp_Uninstall :: "Uninstall option"

record SkyhookSpec =
  ls_Serial :: bool
  ls_PodNonInterruptLabels :: LabelSelector
  ls_NodeSelector :: LabelSelector
  ls_DeploymentPolicy :: string
  ls_DeploymentPolicyOptions :: "DeploymentPolicyOptions option"
  ls_InterruptionBudget :: InterruptionBudget
  ls_DrainConfig :: "DrainConfig option"
  ls_Packages :: "(string, legacy_Package) gomap"
  ls_RuntimeRequired :: bool
  ls_AutoTaintNewNodes :: bool
  ls_AdditionalTolerations :: "Toleration list"
  ls_Priority :: int
  ls_Sequencing :: SequencingMode

record ('spec, 'status) object =
  ob_APIVersion :: string
  ob_Kind :: string
  ob_Name :: string
  ob_UID :: string
  ob_ResourceVersion :: string
  ob_Generation :: int
  ob_Labels :: "(string, string) gomap option"
  ob_Annotations :: "(string, string) gomap option"
  ob_Finalizers :: "string list"
  ob_DeletionTimestamp :: "int option"
  ob_Spec :: 'spec
  ob_Status :: 'status

type_synonym legacy_Skyhook = "(SkyhookSpec, NodeWrightStatus) object"
type_synonym nodewright_object = "(NodeWrightSpec, NodeWrightStatus) object"
type_synonym policy_object = "(DeploymentPolicySpec, unit) object"

definition LEGACY_PREFIX :: string where
  "LEGACY_PREFIX = ''skyhook.nvidia.com''"

definition GroupVersion :: string where
  "GroupVersion = METADATA_PREFIX @ ''/v1alpha1''"

definition annotation_of :: "('spec, 'status) object \<Rightarrow> string \<Rightarrow> string option" where
  "annotation_of ob = map_of (or_empty (ob_Annotations ob))"

definition legacy_IsPaused :: "legacy_Skyhook \<Rightarrow> bool" where
  "legacy_IsPaused s \<longleftrightarrow> annotation_of s (LEGACY_PREFIX @ ''/pause'') = Some ''true''"

definition legacy_IsDisabled :: "legacy_Skyhook \<Rightarrow> bool" where
  "legacy_IsDisabled s \<longleftrightarrow> annotation_of s (LEGACY_PREFIX @ ''/disable'') = Some ''true''"

section \<open>Metadata\<close>

text \<open>The keys of other prefixes first; then the old keys under the new prefix, unless the key is there already.\<close>

definition is_legacy_key :: "string \<Rightarrow> bool" where
  "is_legacy_key k \<longleftrightarrow> has_prefix k (LEGACY_PREFIX @ ''/'')"

definition new_key :: "string \<Rightarrow> string" where
  "new_key k = (METADATA_PREFIX @ ''/'') @ drop (length (LEGACY_PREFIX @ ''/'')) k"

definition rekey_one :: "string \<times> string \<Rightarrow> (string, string) gomap \<Rightarrow> (string, string) gomap" where
  "rekey_one kv out =
     (case kv of (k, v) \<Rightarrow>
        if \<not> is_legacy_key k then out
        else if map_of out (new_key k) \<noteq> None then out
        else gput (new_key k) v out)"

definition rekeyPrefix :: "(string, string) gomap option \<Rightarrow> (string, string) gomap option" where
  "rekeyPrefix m =
     (case m of
        None \<Rightarrow> None
      | Some l \<Rightarrow> Some (fold rekey_one l (fold (\<lambda>(k, v). gput k v) (filter (\<lambda>(k, v). \<not> is_legacy_key k) l) [])))"

definition nil_if_empty :: "'a list option \<Rightarrow> 'a list option" where
  "nil_if_empty m = (case m of Some [] \<Rightarrow> None | _ \<Rightarrow> m)"

definition prepareObjectMeta :: "('spec, 'status) object \<Rightarrow> ('spec, 'status) object" where
  "prepareObjectMeta ob =
     ob\<lparr>ob_ResourceVersion := [], ob_UID := [], ob_Finalizers := [],
       ob_Annotations := nil_if_empty (rekeyPrefix (ob_Annotations ob)),
       ob_Labels := nil_if_empty (rekeyPrefix (ob_Labels ob))\<rparr>"

definition copy_meta :: "('spec, 'status) object \<Rightarrow> ('spec1, 'status1) object \<Rightarrow> ('spec1, 'status1) object" where
  "copy_meta src out =
     out\<lparr>ob_Name := ob_Name src, ob_UID := ob_UID src, ob_ResourceVersion := ob_ResourceVersion src, ob_Generation := ob_Generation src,
       ob_Labels := ob_Labels src, ob_Annotations := ob_Annotations src, ob_Finalizers := ob_Finalizers src,
       ob_DeletionTimestamp := ob_DeletionTimestamp src\<rparr>"

section \<open>Specification\<close>

definition convertDrainConfig :: "DrainConfig option \<Rightarrow> DrainConfig option" where
  "convertDrainConfig d =
     (case d of
        None \<Rightarrow> None
      | Some c \<Rightarrow> Some \<lparr>DisableEviction = DisableEviction c, DeleteEmptyDirData = DeleteEmptyDirData c, Force = Force c,
          IgnoreDaemonSets = IgnoreDaemonSets c, dc_Timeout = dc_Timeout c, dc_GracePeriod = dc_GracePeriod c\<rparr>)"

definition convertInterruptionBudget :: "InterruptionBudget \<Rightarrow> InterruptionBudget" where
  "convertInterruptionBudget b = \<lparr>ib_Percent = ib_Percent b, ib_Count = ib_Count b\<rparr>"

definition convertDeploymentPolicyOptions :: "DeploymentPolicyOptions option \<Rightarrow> DeploymentPolicyOptions option" where
  "convertDeploymentPolicyOptions opts =
     (case opts of None \<Rightarrow> None | Some c \<Rightarrow> Some \<lparr>dpo_ResetBatchStateOnCompletion = dpo_ResetBatchStateOnCompletion c\<rparr>)"

definition convertInterrupt :: "Interrupt \<Rightarrow> Interrupt" where
  "convertInterrupt i = \<lparr>int_Type = int_Type i, int_Services = int_Services i\<rparr>"

definition convertResourceRequirements :: "ResourceRequirements option \<Rightarrow> ResourceRequirements option" where
  "convertResourceRequirements r =
     (case r of
        None \<Rightarrow> None
      | Some c \<Rightarrow> Some \<lparr>CPURequest = CPURequest c, CPULimit = CPULimit c, MemoryRequest = MemoryRequest c, MemoryLimit = MemoryLimit c\<rparr>)"

definition convertUninstall :: "Uninstall option \<Rightarrow> Uninstall option" where
  "convertUninstall u = (case u of None \<Rightarrow> None | Some c \<Rightarrow> Some \<lparr>Enabled = Enabled c, Apply = Apply c\<rparr>)"

definition convertPackage :: "legacy_Package \<Rightarrow> Package" where
  "convertPackage p =
     \<lparr>p_Name = ref_Name (lp_Ref p), p_Version = ref_Version (lp_Ref p), p_Image = lp_Image p, p_ContainerSHA = lp_ContainerSHA p,
      p_AgentImageOverride = lp_AgentImageOverride p, p_Interrupt = map_option convertInterrupt (lp_Interrupt p),
      p_DependsOn = lp_DependsOn p, p_ConfigInterrupts = map (\<lambda>(k, v). (k, convertInterrupt v)) (lp_ConfigInterrupts p),
      p_ConfigMap = lp_ConfigMap p, p_Env = lp_Env p, p_Resources = convertResourceRequirements (lp_Resources p),
      p_GracefulShutdown = lp_GracefulShutdown p, p_StageTimeout = None, p_Uninstall = convertUninstall (lp_Uninstall p)\<rparr>"

definition convertPackages :: "(string, legacy_Package) gomap \<Rightarrow> Packages" where
  "convertPackages pk = map (\<lambda>(k, v). (k, convertPackage v)) pk"

definition convertSkyhookSpec :: "SkyhookSpec \<Rightarrow> NodeWrightSpec \<Rightarrow> NodeWrightSpec" where
  "convertSkyhookSpec s out =
     out\<lparr>Serial := ls_Serial s, RuntimeRequired := ls_RuntimeRequired s, AutoTaintNewNodes := ls_AutoTaintNewNodes s,
       Priority := ls_Priority s, spec_DeploymentPolicy := ls_DeploymentPolicy s, Sequencing := ls_Sequencing s,
       PodNonInterruptLabels := ls_PodNonInterruptLabels s, NodeSelector := ls_NodeSelector s,
       spec_DeploymentPolicyOptions := convertDeploymentPolicyOptions (ls_DeploymentPolicyOptions s),
       spec_InterruptionBudget := convertInterruptionBudget (ls_InterruptionBudget s),
       spec_DrainConfig := convertDrainConfig (ls_DrainConfig s), spec_Packages := convertPackages (ls_Packages s),
       AdditionalTolerations := ls_AdditionalTolerations s\<rparr>"

section \<open>Status\<close>

definition convertPackageStatus :: "PackageStatus \<Rightarrow> PackageStatus" where
  "convertPackageStatus s =
     \<lparr>ps_Name = ps_Name s, ps_Version = ps_Version s, ps_Image = ps_Image s, ps_ContainerSHA = ps_ContainerSHA s,
      ps_Stage = ps_Stage s, ps_State = ps_State s, ps_Restarts = ps_Restarts s\<rparr>"

definition convertNodeState :: "NodeState \<Rightarrow> NodeState" where
  "convertNodeState ns = map_option (map (\<lambda>(k, v). (k, convertPackageStatus v))) ns"

definition convertNodeStateMap :: "(string, NodeState) gomap option \<Rightarrow> (string, NodeState) gomap option" where
  "convertNodeStateMap m = map_option (map (\<lambda>(k, v). (k, convertNodeState v))) m"

definition convertBatchProcessingState :: "BatchProcessingState option \<Rightarrow> BatchProcessingState option" where
  "convertBatchProcessingState b =
     (case b of
        None \<Rightarrow> None
      | Some s \<Rightarrow> Some \<lparr>CurrentBatch = CurrentBatch s, ConsecutiveFailures = ConsecutiveFailures s, CompletedNodes = CompletedNodes s,
          FailedNodes = FailedNodes s, ShouldStop = ShouldStop s, LastBatchSize = LastBatchSize s, LastBatchFailed = LastBatchFailed s\<rparr>)"

definition convertCompartmentStatus :: "CompartmentStatus \<Rightarrow> CompartmentStatus" where
  "convertCompartmentStatus s =
     \<lparr>cs_Matched = cs_Matched s, cs_Ceiling = cs_Ceiling s, cs_InProgress = cs_InProgress s, cs_Completed = cs_Completed s,
      cs_ProgressPercent = cs_ProgressPercent s, cs_BatchState = convertBatchProcessingState (cs_BatchState s)\<rparr>"

definition convertSkyhookStatus :: "NodeWrightStatus \<Rightarrow> NodeWrightStatus \<Rightarrow> NodeWrightStatus" where
  "convertSkyhookStatus s out =
     out\<lparr>ObservedGeneration := ObservedGeneration s, st_Status := st_Status s, NodeOrderOffset := NodeOrderOffset s,
       NodesInProgress := NodesInProgress s, CompleteNodes := CompleteNodes s, PackageList := PackageList s,
       st_NodeState := convertNodeStateMap (st_NodeState s), st_NodeStatus := st_NodeStatus s, st_Conditions := st_Conditions s,
       NodeBootIds := NodeBootIds s, NodePriority := NodePriority s, ConfigUpdates := ConfigUpdates s,
       CompartmentStatuses := map_option (map (\<lambda>(k, v). (k, convertCompartmentStatus v))) (CompartmentStatuses s)\<rparr>"

section \<open>Deployment policies\<close>

definition convertDeploymentBudget :: "DeploymentBudget \<Rightarrow> DeploymentBudget" where
  "convertDeploymentBudget b = \<lparr>Percent = Percent b, Count = Count b\<rparr>"

definition convertFixedStrategy :: "FixedStrategy option \<Rightarrow> FixedStrategy option" where
  "convertFixedStrategy f =
     (case f of
        None \<Rightarrow> None
      | Some s \<Rightarrow> Some \<lparr>fx_InitialBatch = fx_InitialBatch s, fx_BatchThreshold = fx_BatchThreshold s,
          fx_FailureThreshold = fx_FailureThreshold s, fx_SafetyLimit = fx_SafetyLimit s\<rparr>)"

definition convertLinearStrategy :: "LinearStrategy option \<Rightarrow> LinearStrategy option" where
  "convertLinearStrategy f =
     (case f of
        None \<Rightarrow> None
      | Some s \<Rightarrow> Some \<lparr>ln_InitialBatch = ln_InitialBatch s, ln_Delta = ln_Delta s, ln_BatchThreshold = ln_BatchThreshold s,
          ln_FailureThreshold = ln_FailureThreshold s, ln_SafetyLimit = ln_SafetyLimit s\<rparr>)"

definition convertExponentialStrategy :: "ExponentialStrategy option \<Rightarrow> ExponentialStrategy option" where
  "convertExponentialStrategy f =
     (case f of
        None \<Rightarrow> None
      | Some s \<Rightarrow> Some \<lparr>ex_InitialBatch = ex_InitialBatch s, ex_GrowthFactor = ex_GrowthFactor s, ex_BatchThreshold = ex_BatchThreshold s,
          ex_FailureThreshold = ex_FailureThreshold s, ex_SafetyLimit = ex_SafetyLimit s\<rparr>)"

definition convertDeploymentStrategy :: "DeploymentStrategy option \<Rightarrow> DeploymentStrategy option" where
  "convertDeploymentStrategy d =
     (case d of
        None \<Rightarrow> None
      | Some s \<Rightarrow> Some \<lparr>Fixed = convertFixedStrategy (Fixed s), Linear = convertLinearStrategy (Linear s),
          Exponential = convertExponentialStrategy (Exponential s)\<rparr>)"

definition convertPolicyDefault :: "PolicyDefault \<Rightarrow> PolicyDefault" where
  "convertPolicyDefault d = \<lparr>pd_Budget = convertDeploymentBudget (pd_Budget d), pd_Strategy = convertDeploymentStrategy (pd_Strategy d)\<rparr>"

definition convertCompartment :: "Compartment \<Rightarrow> Compartment" where
  "convertCompartment c =
     \<lparr>cp_Name = cp_Name c, cp_Selector = cp_Selector c, cp_Budget = convertDeploymentBudget (cp_Budget c),
      cp_Strategy = convertDeploymentStrategy (cp_Strategy c)\<rparr>"

definition convertDeploymentPolicySpec :: "DeploymentPolicySpec \<Rightarrow> DeploymentPolicySpec \<Rightarrow> DeploymentPolicySpec" where
  "convertDeploymentPolicySpec s out =
     (let out1 = out\<lparr>Default := convertPolicyDefault (Default s), Compartments := map convertCompartment (Compartments s)\<rparr>
      in case ResetBatchStateOnCompletion s of
           None \<Rightarrow> out1
         | Some v \<Rightarrow> out1\<lparr>ResetBatchStateOnCompletion := Some v\<rparr>)"

section \<open>Resources\<close>

definition Convert_Skyhook_To_NodeWright :: "legacy_Skyhook \<Rightarrow> nodewright_object \<Rightarrow> nodewright_object" where
  "Convert_Skyhook_To_NodeWright src out =
     (let out1 = (prepareObjectMeta (copy_meta src out))\<lparr>ob_APIVersion := GroupVersion, ob_Kind := ''NodeWright''\<rparr>
      in out1\<lparr>ob_Spec := convertSkyhookSpec (ob_Spec src) (ob_Spec out), ob_Status := convertSkyhookStatus (ob_Status src) (ob_Status out)\<rparr>)"

definition Convert_DeploymentPolicy_To_NodeWright :: "policy_object \<Rightarrow> policy_object \<Rightarrow> policy_object" where
  "Convert_DeploymentPolicy_To_NodeWright src out =
     (let out1 = (prepareObjectMeta (copy_meta src out))\<lparr>ob_APIVersion := GroupVersion, ob_Kind := ''DeploymentPolicy''\<rparr>
      in out1\<lparr>ob_Spec := convertDeploymentPolicySpec (ob_Spec src) (ob_Spec out)\<rparr>)"

section \<open>Keys\<close>

definition old_key :: "string \<Rightarrow> string" where
  "old_key k = (LEGACY_PREFIX @ ''/'') @ drop (length (METADATA_PREFIX @ ''/'')) k"

definition is_new_key :: "string \<Rightarrow> bool" where
  "is_new_key k \<longleftrightarrow> has_prefix k (METADATA_PREFIX @ ''/'')"

lemma key_cases: "is_legacy_key k \<longleftrightarrow> (\<exists>r. k = LEGACY_PREFIX @ ''/'' @ r)" "is_new_key k \<longleftrightarrow> (\<exists>r. k = METADATA_PREFIX @ ''/'' @ r)"
  by (auto simp: is_legacy_key_def is_new_key_def has_prefix_def prefix_def)

lemma new_not_legacy: "is_new_key k \<Longrightarrow> \<not> is_legacy_key k"
  by (auto simp: key_cases METADATA_PREFIX_def LEGACY_PREFIX_def)

lemma key_inverse: "is_legacy_key k \<Longrightarrow> is_new_key (new_key k) \<and> old_key (new_key k) = k"
  by (auto simp: key_cases new_key_def old_key_def)

lemma new_key_eq: "is_legacy_key k \<Longrightarrow> new_key k = n \<longleftrightarrow> is_new_key n \<and> k = old_key n"
  by (auto simp: key_cases new_key_def old_key_def)

lemma old_key_legacy: "is_legacy_key (old_key k)"
  by (auto simp: key_cases old_key_def)

lemma rekey_fold:
  assumes "gomap_ok l"
  shows "map_of (fold rekey_one l out) k =
    (case map_of out k of Some v \<Rightarrow> Some v | None \<Rightarrow> if is_new_key k then map_of l (old_key k) else None)"
  using assms
proof (induction l arbitrary: out)
  case (Cons kv l)
  obtain k1 v1 where kv: "kv = (k1, v1)" by (cases kv)
  show ?case
  proof (cases "is_legacy_key k1 \<and> new_key k1 = k")
    case True
    then have k: "is_new_key k" "old_key k = k1" using key_inverse by auto
    have "map_of l k1 = None" using Cons.prems by (simp add: kv map_of_eq_None_iff)
    then show ?thesis using Cons k True by (auto simp: kv rekey_one_def split: option.split)
  next
    case False
    have same: "map_of (rekey_one kv out) k = map_of out k" using False by (auto simp: kv rekey_one_def)
    have "k1 \<noteq> old_key k" if "is_new_key k" using False that old_key_legacy new_key_eq by metis
    then show ?thesis using Cons by (simp add: kv same [unfolded kv] split: option.split) auto
  qed
qed (simp split: option.split)

lemma puts_lookup: "gomap_ok l \<Longrightarrow> map_of (fold (\<lambda>(k, v). gput k v) l out) k = (case map_of l k of Some v \<Rightarrow> Some v | None \<Rightarrow> map_of out k)"
proof (induction l arbitrary: out)
  case (Cons kv l)
  obtain k1 v1 where kv: "kv = (k1, v1)" by (cases kv)
  have "map_of l k1 = None" using Cons.prems by (simp add: kv map_of_eq_None_iff)
  then show ?case using Cons by (cases "k = k1") (simp_all add: kv split: option.split)
qed simp

lemma filter_lookup: "map_of (filter (\<lambda>(k, v). P k) l) k = (if P k then map_of l k else None)"
  by (induction l) auto

lemma rekey_lookup:
  assumes "gomap_ok l"
  shows "map_of (or_empty (rekeyPrefix (Some l))) k =
    (if is_legacy_key k then None
     else case map_of l k of Some v \<Rightarrow> Some v | None \<Rightarrow> if is_new_key k then map_of l (old_key k) else None)"
proof -
  have "gomap_ok (filter (\<lambda>(k, v). \<not> is_legacy_key k) l)" using assms by (simp add: distinct_map_filter)
  from puts_lookup [OF this] show ?thesis
    using rekey_fold [OF assms] new_not_legacy [of k] by (simp add: rekeyPrefix_def filter_lookup split: option.split)
qed

text \<open>
  Explicit metadata of the new group wins.  The rewriting of the keys leaves no key of the old prefix; every other key of the source keeps its value;
  and a key of the new prefix that the source does not have gets the value of the old key it replaces, whatever the order in which
  the map is read.
\<close>

theorem rekey_exact:
  assumes "gomap_ok l"
  shows "map_of (or_empty (rekeyPrefix (Some l))) k =
    (if is_legacy_key k then None
     else case map_of l k of Some v \<Rightarrow> Some v | None \<Rightarrow> if is_new_key k then map_of l (old_key k) else None)"
  by (rule rekey_lookup [OF assms])

theorem rekey_exact_witness:
  "let m = or_empty (rekeyPrefix (Some [(''skyhook.nvidia.com/pause'', ''true''), (''nodewright.nvidia.com/pause'', ''false''), (''skyhook.nvidia.com/x'', ''y'')]))
   in map_of m ''nodewright.nvidia.com/pause'' = Some ''false'' \<and> map_of m ''nodewright.nvidia.com/x'' = Some ''y'' \<and> map_of m ''skyhook.nvidia.com/x'' = None"
  using rekey_exact [of "[(''skyhook.nvidia.com/pause'', ''true''), (''nodewright.nvidia.com/pause'', ''false''), (''skyhook.nvidia.com/x'', ''y'')]"]
  by (simp add: is_legacy_key_def is_new_key_def old_key_def has_prefix_def LEGACY_PREFIX_def METADATA_PREFIX_def)

section \<open>Nothing is lost\<close>

definition legacy_package :: "Package \<Rightarrow> legacy_Package" where
  "legacy_package p =
     \<lparr>lp_Ref = package_ref p, lp_Image = p_Image p, lp_ContainerSHA = p_ContainerSHA p, lp_AgentImageOverride = p_AgentImageOverride p,
      lp_Interrupt = p_Interrupt p, lp_DependsOn = p_DependsOn p, lp_ConfigInterrupts = p_ConfigInterrupts p, lp_ConfigMap = p_ConfigMap p,
      lp_Env = p_Env p, lp_Resources = p_Resources p, lp_GracefulShutdown = p_GracefulShutdown p, lp_Uninstall = p_Uninstall p\<rparr>"

definition legacy_spec :: "NodeWrightSpec \<Rightarrow> SkyhookSpec" where
  "legacy_spec s =
     \<lparr>ls_Serial = Serial s, ls_PodNonInterruptLabels = PodNonInterruptLabels s, ls_NodeSelector = NodeSelector s,
      ls_DeploymentPolicy = spec_DeploymentPolicy s, ls_DeploymentPolicyOptions = spec_DeploymentPolicyOptions s,
      ls_InterruptionBudget = spec_InterruptionBudget s, ls_DrainConfig = spec_DrainConfig s,
      ls_Packages = map (\<lambda>(k, p). (k, legacy_package p)) (spec_Packages s), ls_RuntimeRequired = RuntimeRequired s,
      ls_AutoTaintNewNodes = AutoTaintNewNodes s, ls_AdditionalTolerations = AdditionalTolerations s, ls_Priority = Priority s,
      ls_Sequencing = Sequencing s\<rparr>"

lemma copied [simp]: "convertDrainConfig d = d" "convertInterruptionBudget b = b" "convertDeploymentPolicyOptions opts = opts" "convertInterrupt i = i"
    "convertResourceRequirements r = r" "convertUninstall u = u"
  by (simp_all add: convertDrainConfig_def convertInterruptionBudget_def convertDeploymentPolicyOptions_def convertInterrupt_def
      convertResourceRequirements_def convertUninstall_def split: option.split)

lemma convertInterrupt_fun: "convertInterrupt = (\<lambda>i. i)"
  by (rule ext) simp

lemma convertPackageStatus_eq [simp]: "convertPackageStatus ps = ps"
  by (simp add: convertPackageStatus_def)

lemma convertNodeState_eq [simp]: "convertNodeState ns = ns"
  by (simp add: convertNodeState_def case_prod_eta option.map_id)

lemma convertNodeStateMap_eq [simp]: "convertNodeStateMap nm = nm"
  by (simp add: convertNodeStateMap_def case_prod_eta option.map_id)

lemma copied_batch [simp]: "convertBatchProcessingState bs = bs"
  by (simp add: convertBatchProcessingState_def split: option.split)

lemma convertCompartmentStatus_eq [simp]: "convertCompartmentStatus cst = cst"
  by (simp add: convertCompartmentStatus_def)

lemma copied_policy [simp]: "convertDeploymentBudget db = db" "convertFixedStrategy fs = fs" "convertLinearStrategy ls = ls" "convertExponentialStrategy es = es"
    "convertDeploymentStrategy ds = ds" "convertPolicyDefault pd = pd" "convertCompartment cp = cp"
  by (simp_all add: convertDeploymentBudget_def convertFixedStrategy_def convertLinearStrategy_def convertExponentialStrategy_def
      convertDeploymentStrategy_def convertPolicyDefault_def convertCompartment_def split: option.split)

lemma convertCompartment_fun: "convertCompartment = (\<lambda>c. c)"
  by (rule ext) simp

lemma convertSkyhookStatus_eq [simp]: "convertSkyhookStatus s out = s"
  by (simp add: convertSkyhookStatus_def case_prod_eta option.map_id)

lemma legacy_package_back [simp]: "legacy_package (convertPackage p) = p"
  by (simp add: legacy_package_def convertPackage_def package_ref_def convertInterrupt_fun option.map_ident)

lemma legacy_spec_back [simp]: "legacy_spec (convertSkyhookSpec s out) = s"
  by (simp add: legacy_spec_def convertSkyhookSpec_def convertPackages_def comp_def split_def)

lemma policy_spec_back: "convertDeploymentPolicySpec s out = s\<lparr>ResetBatchStateOnCompletion := (case ResetBatchStateOnCompletion s of None \<Rightarrow> ResetBatchStateOnCompletion out | r \<Rightarrow> r)\<rparr>"
  by (cases s; cases out) (simp add: convertDeploymentPolicySpec_def Let_def convertCompartment_fun split: option.split)

lemma new_only_fields:
  "RuntimeRequiredCordonAfter (convertSkyhookSpec s out) = RuntimeRequiredCordonAfter out"
  "list_all (\<lambda>(k, p). p_StageTimeout p = None) (spec_Packages (convertSkyhookSpec s out))"
  by (auto simp: convertSkyhookSpec_def convertPackages_def convertPackage_def list_all_iff)

text \<open>
  The conversion loses nothing.  The specification of the old resource can be read back from the converted one, its status is carried over as
  it is, what only the new group has keeps the value it had in the object written to, and the object is ready to be created:
  no version, no identity and no finalizer of the old one, and the API group of the new.
\<close>

theorem conversion_lossless:
  "let ob = Convert_Skyhook_To_NodeWright src out
   in legacy_spec (ob_Spec ob) = ob_Spec src \<and> ob_Status ob = ob_Status src \<and>
      RuntimeRequiredCordonAfter (ob_Spec ob) = RuntimeRequiredCordonAfter (ob_Spec out) \<and>
      list_all (\<lambda>(k, p). p_StageTimeout p = None) (spec_Packages (ob_Spec ob)) \<and>
      ob_Name ob = ob_Name src \<and> ob_ResourceVersion ob = [] \<and> ob_UID ob = [] \<and> ob_Finalizers ob = [] \<and>
      ob_APIVersion ob = ''nodewright.nvidia.com/v1alpha1'' \<and> ob_Kind ob = ''NodeWright''"
  by (simp add: Convert_Skyhook_To_NodeWright_def Let_def prepareObjectMeta_def copy_meta_def new_only_fields GroupVersion_def METADATA_PREFIX_def)

end
