(* ===== verification/Mirror.thy ===== *)
theory Mirror
  imports Legacy_Conversion
begin

text \<open>
  The bridge from the old API group to the new one.  The mirror (\<open>operator/internal/controller/mirror_controller.go\<close>) keeps for each old
  resource one of the new group, as long as that one is its own; the hold (\<open>migration_hold.go\<close>) stops the reconciler while an old resource
  is still rolling out; and admission (\<open>operator/api/v1alpha1/legacy_readonly_webhook.go\<close>) makes the old resources read-only.

  \<open>reconcileMirror\<close> is generic in both kinds, as in the code.  The state is what the API server has for the old and the new resource;
  the reads (from a cache, so possibly old), the answers of the API server to a write and which requests fail are parameters.  The API
  server itself refuses to create what exists, refuses an update whose version is not the stored one, and drops an object being
  deleted with its last finalizer.  The converters return no error, so that branch is left out.
\<close>

section \<open>State\<close>

definition MirroredFromAnnotation :: string where
  "MirroredFromAnnotation = METADATA_PREFIX @ ''/mirrored-from''"

definition MirroredGenerationAnnotation :: string where
  "MirroredGenerationAnnotation = METADATA_PREFIX @ ''/mirrored-generation''"

definition legacySkyhookFinalizer :: string where
  "legacySkyhookFinalizer = ''skyhook.nvidia.com/skyhook''"

definition legacyMigratedAtAnnotation :: string where
  "legacyMigratedAtAnnotation = METADATA_PREFIX @ ''/legacy-migrated-at''"

definition preservedTargetAnnotations :: "string list" where
  "preservedTargetAnnotations = [METADATA_PREFIX @ ''/pause'', METADATA_PREFIX @ ''/disable'', legacyMigratedAtAnnotation]"

datatype 'a fetched = Fetched 'a | NotFound | FetchFailed

record ('ls, 'lt, 's, 't) mirror_state =
  ms_legacy :: "('ls, 'lt) object option"
  ms_target :: "('s, 't) object option"

record ('ls, 'lt, 's, 't) mirror_env =
  me_get_legacy :: "('ls, 'lt) object option \<Rightarrow> ('ls, 'lt) object fetched"
  me_get_target :: "('s, 't) object option \<Rightarrow> ('s, 't) object fetched"
  me_create :: "('s, 't) object \<Rightarrow> ('s, 't) object option"
  me_update :: "('s, 't) object \<Rightarrow> ('s, 't) object \<Rightarrow> ('s, 't) object option"
  me_update_legacy :: "('ls, 'lt) object \<Rightarrow> ('ls, 'lt) object \<Rightarrow> ('ls, 'lt) object option"

datatype mirror_error = LegacyUnread | TargetUnread | FinalizerNotRemoved | NotCreated | NotUpdated

section \<open>Bookkeeping\<close>

definition stampMirror :: "string \<Rightarrow> int \<Rightarrow> ('s, 't) object \<Rightarrow> ('s, 't) object" where
  "stampMirror name generation ob =
     ob\<lparr>ob_Annotations := Some (gput MirroredGenerationAnnotation (show_int generation) (gput MirroredFromAnnotation name (or_empty (ob_Annotations ob))))\<rparr>"

definition keep_annotation :: "(string, string) gomap \<Rightarrow> string \<Rightarrow> (string, string) gomap option \<Rightarrow> (string, string) gomap option" where
  "keep_annotation live k ann = (case map_of live k of None \<Rightarrow> ann | Some v \<Rightarrow> Some (gput k v (or_empty ann)))"

definition syncMirrorOntoExisting :: "('s, 't) object \<Rightarrow> ('s, 't) object \<Rightarrow> string \<Rightarrow> int \<Rightarrow> ('s, 't) object" where
  "syncMirrorOntoExisting existing desired name generation =
     (let ann = fold (keep_annotation (or_empty (ob_Annotations existing))) preservedTargetAnnotations (ob_Annotations desired)
      in (stampMirror name generation (existing\<lparr>ob_Labels := ob_Labels desired, ob_Annotations := ann\<rparr>))\<lparr>ob_Spec := ob_Spec desired\<rparr>)"

text \<open>Reading a key a Go map does not have gives the empty string.\<close>

definition read_annotation :: "('s, 't) object \<Rightarrow> string \<Rightarrow> string" where
  "read_annotation ob k = (case annotation_of ob k of None \<Rightarrow> [] | Some v \<Rightarrow> v)"

section \<open>The API server\<close>

definition server_create :: "('ls, 'lt, 's, 't) mirror_env \<Rightarrow> ('s, 't) object \<Rightarrow> ('ls, 'lt, 's, 't) mirror_state \<Rightarrow>
    ('ls, 'lt, 's, 't) mirror_state \<times> (mirror_error + unit)" where
  "server_create env ob st =
     (case ms_target st of
        Some _ \<Rightarrow> (st, Inr ())
      | None \<Rightarrow> (case me_create env ob of None \<Rightarrow> (st, Inl NotCreated) | Some stored \<Rightarrow> (st\<lparr>ms_target := Some stored\<rparr>, Inr ())))"

definition server_update :: "('ls, 'lt, 's, 't) mirror_env \<Rightarrow> ('s, 't) object \<Rightarrow> ('ls, 'lt, 's, 't) mirror_state \<Rightarrow>
    ('ls, 'lt, 's, 't) mirror_state \<times> (mirror_error + unit)" where
  "server_update env ob st =
     (case ms_target st of
        None \<Rightarrow> (st, Inl NotUpdated)
      | Some current \<Rightarrow>
          if ob_ResourceVersion ob \<noteq> ob_ResourceVersion current then (st, Inl NotUpdated)
          else (case me_update env current ob of None \<Rightarrow> (st, Inl NotUpdated) | Some stored \<Rightarrow> (st\<lparr>ms_target := Some stored\<rparr>, Inr ())))"

definition server_update_legacy :: "('ls, 'lt, 's, 't) mirror_env \<Rightarrow> ('ls, 'lt) object \<Rightarrow> ('ls, 'lt, 's, 't) mirror_state \<Rightarrow>
    ('ls, 'lt, 's, 't) mirror_state \<times> (mirror_error + unit)" where
  "server_update_legacy env ob st =
     (case ms_legacy st of
        None \<Rightarrow> (st, Inl FinalizerNotRemoved)
      | Some current \<Rightarrow>
          if ob_ResourceVersion ob \<noteq> ob_ResourceVersion current then (st, Inl FinalizerNotRemoved)
          else
            (case me_update_legacy env current ob of
               None \<Rightarrow> (st, Inl FinalizerNotRemoved)
             | Some stored \<Rightarrow>
                 (st\<lparr>ms_legacy := (if ob_DeletionTimestamp stored \<noteq> None \<and> ob_Finalizers stored = [] then None else Some stored)\<rparr>, Inr ())))"

section \<open>Mirroring\<close>

definition reconcileMirror ::
  "('ls, 'lt, 's, 't) mirror_env \<Rightarrow> string \<Rightarrow> string \<Rightarrow> ('s, 't) object \<Rightarrow> (('ls, 'lt) object \<Rightarrow> ('s, 't) object \<Rightarrow> ('s, 't) object) \<Rightarrow>
   (('s, 't) object \<Rightarrow> ('s, 't) object) \<Rightarrow> ('ls, 'lt, 's, 't) mirror_state \<Rightarrow> ('ls, 'lt, 's, 't) mirror_state \<times> (mirror_error + unit)" where
  "reconcileMirror env key finalizer target convert resetTargetSpec st =
     (case me_get_legacy env (ms_legacy st) of
        NotFound \<Rightarrow> (st, Inr ())
      | FetchFailed \<Rightarrow> (st, Inl LegacyUnread)
      | Fetched legacy \<Rightarrow>
          if ob_DeletionTimestamp legacy \<noteq> None
          then if finalizer \<noteq> [] \<and> finalizer \<in> set (ob_Finalizers legacy)
               then server_update_legacy env (legacy\<lparr>ob_Finalizers := filter (\<lambda>f. f \<noteq> finalizer) (ob_Finalizers legacy)\<rparr>) st
               else (st, Inr ())
          else
            (let desired = convert legacy target
             in case me_get_target env (ms_target st) of
                  NotFound \<Rightarrow> server_create env (stampMirror key (ob_Generation legacy) desired) st
                | FetchFailed \<Rightarrow> (st, Inl TargetUnread)
                | Fetched existing \<Rightarrow>
                    if read_annotation existing MirroredFromAnnotation \<noteq> key then (st, Inr ())
                    else if read_annotation existing MirroredGenerationAnnotation = show_int (ob_Generation legacy) then (st, Inr ())
                    else server_update env (syncMirrorOntoExisting existing (convert legacy (resetTargetSpec desired)) key (ob_Generation legacy)) st))"

definition zero_spec :: NodeWrightSpec where
  "zero_spec = \<lparr>Serial = False, PodNonInterruptLabels = \<lparr>matchLabels = None, matchExpressions = None\<rparr>,
     NodeSelector = \<lparr>matchLabels = None, matchExpressions = None\<rparr>, spec_DeploymentPolicy = [], spec_DeploymentPolicyOptions = None,
     spec_InterruptionBudget = \<lparr>ib_Percent = None, ib_Count = None\<rparr>, spec_DrainConfig = None, spec_Packages = [], RuntimeRequired = False,
     RuntimeRequiredCordonAfter = False, AutoTaintNewNodes = False, AdditionalTolerations = [], Priority = 0, Sequencing = SequencingOther []\<rparr>"

definition zero_status :: NodeWrightStatus where
  "zero_status = \<lparr>ObservedGeneration = 0, st_NodeState = None, st_NodeStatus = None, st_Status = StatusOther [], st_Conditions = [],
     NodeBootIds = None, NodePriority = None, NodeOrderOffset = 0, ConfigUpdates = None, CompartmentStatuses = None, NodesInProgress = 0,
     CompleteNodes = [], PackageList = []\<rparr>"

definition zero_policy_spec :: DeploymentPolicySpec where
  "zero_policy_spec = \<lparr>Default = \<lparr>pd_Budget = \<lparr>Percent = None, Count = None\<rparr>, pd_Strategy = None\<rparr>, Compartments = [], ResetBatchStateOnCompletion = None\<rparr>"

definition zero_object :: "'s \<Rightarrow> 't \<Rightarrow> ('s, 't) object" where
  "zero_object spec status = \<lparr>ob_APIVersion = [], ob_Kind = [], ob_Name = [], ob_UID = [], ob_ResourceVersion = [], ob_Generation = 0,
     ob_Labels = None, ob_Annotations = None, ob_Finalizers = [], ob_DeletionTimestamp = None, ob_Spec = spec, ob_Status = status\<rparr>"

type_synonym skyhook_mirror = "(SkyhookSpec, NodeWrightStatus, NodeWrightSpec, NodeWrightStatus) mirror_state"
type_synonym skyhook_mirror_env = "(SkyhookSpec, NodeWrightStatus, NodeWrightSpec, NodeWrightStatus) mirror_env"
type_synonym policy_mirror = "(DeploymentPolicySpec, unit, DeploymentPolicySpec, unit) mirror_state"
type_synonym policy_mirror_env = "(DeploymentPolicySpec, unit, DeploymentPolicySpec, unit) mirror_env"

definition SkyhookMirror_Reconcile :: "skyhook_mirror_env \<Rightarrow> string \<Rightarrow> skyhook_mirror \<Rightarrow> skyhook_mirror \<times> (mirror_error + unit)" where
  "SkyhookMirror_Reconcile env key =
     reconcileMirror env key legacySkyhookFinalizer (zero_object zero_spec zero_status) Convert_Skyhook_To_NodeWright (\<lambda>t. t\<lparr>ob_Spec := zero_spec\<rparr>)"

definition DeploymentPolicyMirror_Reconcile :: "policy_mirror_env \<Rightarrow> string \<Rightarrow> policy_mirror \<Rightarrow> policy_mirror \<times> (mirror_error + unit)" where
  "DeploymentPolicyMirror_Reconcile env key =
     reconcileMirror env key [] (zero_object zero_policy_spec ()) Convert_DeploymentPolicy_To_NodeWright (\<lambda>t. t\<lparr>ob_Spec := zero_policy_spec\<rparr>)"

text \<open>Which updates of the old resource reach the mirror.\<close>

definition mirrorTriggerPredicate :: "('ls, 'lt) object \<Rightarrow> ('ls, 'lt) object \<Rightarrow> bool" where
  "mirrorTriggerPredicate old new \<longleftrightarrow> ob_Generation old \<noteq> ob_Generation new \<or> ob_DeletionTimestamp new \<noteq> None"

section \<open>The hold\<close>

definition in_flight :: "legacy_Skyhook \<Rightarrow> bool" where
  "in_flight sh \<longleftrightarrow>
     \<not> legacy_IsPaused sh \<and> \<not> legacy_IsDisabled sh \<and>
     st_Status (ob_Status sh) \<notin> {StatusOther [], StatusComplete, StatusPaused, StatusDisabled}"

text \<open>The list of old resources: the kind may be unknown to the API server, which is no error here.\<close>

definition inFlightLegacySkyhooks :: "legacy_Skyhook list fetched \<Rightarrow> unit + string list" where
  "inFlightLegacySkyhooks listing =
     (case listing of
        NotFound \<Rightarrow> Inr []
      | FetchFailed \<Rightarrow> Inl ()
      | Fetched items \<Rightarrow> Inr (map ob_Name (filter in_flight items)))"

definition legacyMigrationHoldRequeue :: int where
  "legacyMigrationHoldRequeue = 20 * 1000000000"

definition legacyMigrationHold :: "legacy_Skyhook list fetched \<Rightarrow> int option" where
  "legacyMigrationHold listing =
     (case inFlightLegacySkyhooks listing of
        Inl _ \<Rightarrow> Some legacyMigrationHoldRequeue
      | Inr names \<Rightarrow> if names = [] then None else Some legacyMigrationHoldRequeue)"

section \<open>The old resources are read-only\<close>

text \<open>The comparison of specifications belongs to the Kubernetes libraries and is a parameter.\<close>

definition legacyReadOnlyError :: "(SkyhookSpec \<Rightarrow> SkyhookSpec \<Rightarrow> bool) \<Rightarrow> legacy_Skyhook option \<Rightarrow> legacy_Skyhook \<Rightarrow> string + unit" where
  "legacyReadOnlyError same_spec old new =
     (case old of
        None \<Rightarrow> Inr ()
      | Some o1 \<Rightarrow>
          if ob_DeletionTimestamp new \<noteq> None then Inr ()
          else if same_spec (ob_Spec o1) (ob_Spec new) \<and>
            read_annotation o1 (LEGACY_PREFIX @ ''/pause'') = read_annotation new (LEGACY_PREFIX @ ''/pause'') \<and>
            read_annotation o1 (LEGACY_PREFIX @ ''/disable'') = read_annotation new (LEGACY_PREFIX @ ''/disable'')
          then Inr () else Inl (ob_Name new))"

definition legacyDeploymentPolicyReadOnlyError ::
  "(DeploymentPolicySpec \<Rightarrow> DeploymentPolicySpec \<Rightarrow> bool) \<Rightarrow> policy_object option \<Rightarrow> policy_object \<Rightarrow> string + unit" where
  "legacyDeploymentPolicyReadOnlyError same_spec old new =
     (case old of
        None \<Rightarrow> Inr ()
      | Some o1 \<Rightarrow>
          if ob_DeletionTimestamp new \<noteq> None then Inr ()
          else if same_spec (ob_Spec o1) (ob_Spec new) then Inr () else Inl (ob_Name new))"

section \<open>What the mirror relies on\<close>

text \<open>The API server stores the metadata and the specification it is sent, and an update of a resource leaves its status and identity.\<close>

definition stores_as_sent :: "('ls, 'lt, 's, 't) mirror_env \<Rightarrow> bool" where
  "stores_as_sent env \<longleftrightarrow>
     (\<forall>ob stored. me_create env ob = Some stored \<longrightarrow> ob_Spec stored = ob_Spec ob \<and> ob_Annotations stored = ob_Annotations ob) \<and>
     (\<forall>current ob stored. me_update env current ob = Some stored \<longrightarrow>
        ob_Spec stored = ob_Spec ob \<and> ob_Annotations stored = ob_Annotations ob \<and> ob_Status stored = ob_Status current \<and> ob_UID stored = ob_UID current)"

text \<open>A version names one state of an object.\<close>

definition version_identifies :: "('ls, 'lt, 's, 't) mirror_env \<Rightarrow> bool" where
  "version_identifies env \<longleftrightarrow>
     (\<forall>current seen. me_get_target env (Some current) = Fetched seen \<and> ob_ResourceVersion seen = ob_ResourceVersion current \<longrightarrow> seen = current)"

definition fresh_reads :: "('ls, 'lt, 's, 't) mirror_env \<Rightarrow> bool" where
  "fresh_reads env \<longleftrightarrow>
     (\<forall>x. me_get_legacy env x = (case x of None \<Rightarrow> NotFound | Some ob \<Rightarrow> Fetched ob)) \<and>
     (\<forall>x. me_get_target env x = (case x of None \<Rightarrow> NotFound | Some ob \<Rightarrow> Fetched ob))"

definition accepts_writes :: "('ls, 'lt, 's, 't) mirror_env \<Rightarrow> bool" where
  "accepts_writes env \<longleftrightarrow>
     (\<forall>ob. me_create env ob \<noteq> None) \<and> (\<forall>current ob. me_update env current ob \<noteq> None) \<and>
     (\<forall>current ob. me_update_legacy env current ob \<noteq> None)"

text \<open>The two kinds differ in their converter only; what the shared core needs of it is that a second conversion gives the same object.\<close>

locale mirrored_kind =
  fixes convert :: "('ls, 'lt) object \<Rightarrow> ('s, 't) object \<Rightarrow> ('s, 't) object"
    and reset :: "('s, 't) object \<Rightarrow> ('s, 't) object"
    and zero :: "('s, 't) object"
    and finalizer :: string
  assumes convert_again: "convert l (reset (convert l zero)) = convert l zero"
begin

lemma stamp_lookup:
  "annotation_of (stampMirror name gen ob) k =
     (if k = MirroredGenerationAnnotation then Some (show_int gen) else if k = MirroredFromAnnotation then Some name else annotation_of ob k)"
  by (simp add: stampMirror_def annotation_of_def)

lemma keep_fold:
  "map_of (or_empty (fold (keep_annotation live) ks ann)) k =
     (if k \<in> set ks \<and> map_of live k \<noteq> None then map_of live k else map_of (or_empty ann) k)"
  by (induction ks arbitrary: ann) (auto simp: keep_annotation_def split: option.splits)

lemma sync_lookup:
  "annotation_of (syncMirrorOntoExisting existing desired name gen) k =
     (if k = MirroredGenerationAnnotation then Some (show_int gen) else if k = MirroredFromAnnotation then Some name
      else if k \<in> set preservedTargetAnnotations \<and> annotation_of existing k \<noteq> None then annotation_of existing k
      else annotation_of desired k)"
  using keep_fold [of "or_empty (ob_Annotations existing)" preservedTargetAnnotations "ob_Annotations desired" k]
  by (simp add: syncMirrorOntoExisting_def Let_def stampMirror_def annotation_of_def) auto

lemma sync_frame:
  "ob_Spec (syncMirrorOntoExisting existing desired name gen) = ob_Spec desired"
  "ob_ResourceVersion (syncMirrorOntoExisting existing desired name gen) = ob_ResourceVersion existing"
  by (simp_all add: syncMirrorOntoExisting_def stampMirror_def Let_def)

lemma annotation_cong: "ob_Annotations a = ob_Annotations b \<Longrightarrow> annotation_of a = annotation_of b"
  by (simp add: annotation_of_def)

lemma own_only:
  assumes "reconcileMirror env key finalizer zero convert reset st = (st', r)" and "stores_as_sent env" and "version_identifies env"
  shows "ms_target st' = ms_target st \<or>
    (\<exists>legacy new. me_get_legacy env (ms_legacy st) = Fetched legacy \<and> ob_DeletionTimestamp legacy = None \<and>
       ms_target st' = Some new \<and> ob_Spec new = ob_Spec (convert legacy zero) \<and> read_annotation new MirroredFromAnnotation = key \<and>
       (case ms_target st of
          None \<Rightarrow> True
        | Some current \<Rightarrow> read_annotation current MirroredFromAnnotation = key \<and> ob_Status new = ob_Status current \<and> ob_UID new = ob_UID current \<and>
            (\<forall>k \<in> set preservedTargetAnnotations. annotation_of current k \<noteq> None \<longrightarrow> annotation_of new k = annotation_of current k)))"
proof -
  have kept: "k \<noteq> MirroredGenerationAnnotation \<and> k \<noteq> MirroredFromAnnotation" if "k \<in> set preservedTargetAnnotations" for k
    using that by (auto simp: preservedTargetAnnotations_def MirroredGenerationAnnotation_def MirroredFromAnnotation_def legacyMigratedAtAnnotation_def)
  have ne: "MirroredFromAnnotation \<noteq> MirroredGenerationAnnotation" by (simp add: MirroredGenerationAnnotation_def MirroredFromAnnotation_def)
  show ?thesis
  proof (cases "ms_target st' = ms_target st")
    case False
    then obtain legacy where l: "me_get_legacy env (ms_legacy st) = Fetched legacy" "ob_DeletionTimestamp legacy = None"
      using assms(1) by (auto simp: reconcileMirror_def server_update_legacy_def split: fetched.splits if_splits option.splits)
    let ?d = "convert legacy zero"
    show ?thesis
    proof (cases "me_get_target env (ms_target st)")
      case NotFound
      then obtain new where "ms_target st = None" "me_create env (stampMirror key (ob_Generation legacy) ?d) = Some new" "ms_target st' = Some new"
        using assms(1) False by (auto simp: reconcileMirror_def l Let_def server_create_def split: option.splits)
      moreover from this have "ob_Spec new = ob_Spec ?d" "ob_Annotations new = ob_Annotations (stampMirror key (ob_Generation legacy) ?d)"
        using assms(2) by (auto simp: stores_as_sent_def stampMirror_def)
      ultimately show ?thesis using l ne by (auto simp: read_annotation_def annotation_cong [of new] stamp_lookup)
    next
      case (Fetched seen)
      let ?o = "syncMirrorOntoExisting seen ?d key (ob_Generation legacy)"
      have own: "read_annotation seen MirroredFromAnnotation = key" and "server_update env ?o st = (st', r)"
        using assms(1) False by (auto simp: reconcileMirror_def l Let_def Fetched convert_again split: if_splits)
      then obtain current new where c: "ms_target st = Some current" "ob_ResourceVersion seen = ob_ResourceVersion current"
          "me_update env current ?o = Some new" "ms_target st' = Some new"
        using False by (auto simp: server_update_def sync_frame split: option.splits if_splits)
      have seen: "seen = current" using assms(3) Fetched c(1,2) by (simp add: version_identifies_def)
      have "ob_Spec new = ob_Spec ?o" "ob_Annotations new = ob_Annotations ?o" "ob_Status new = ob_Status current" "ob_UID new = ob_UID current"
        using assms(2) c(3) unfolding stores_as_sent_def by blast+
      then show ?thesis using l ne own c(1,4) kept by (auto simp: seen sync_frame read_annotation_def annotation_cong [of new ?o] sync_lookup)
    next
      case FetchFailed
      then show ?thesis using assms(1) False by (simp add: reconcileMirror_def l Let_def)
    qed
  qed simp
qed

lemma converges:
  assumes "fresh_reads env" and "accepts_writes env" and "stores_as_sent env" and "ms_legacy st = Some legacy" and "ob_DeletionTimestamp legacy = None"
    and "reconcileMirror env key finalizer zero convert reset st = (st', r)"
  shows "r = Inr () \<and> ms_legacy st' = Some legacy \<and>
    (\<exists>t. ms_target st' = Some t \<and>
      (if read_annotation t MirroredFromAnnotation \<noteq> key then ms_target st = Some t
       else read_annotation t MirroredGenerationAnnotation = show_int (ob_Generation legacy) \<and>
         (ms_target st = Some t \<or> ob_Spec t = ob_Spec (convert legacy zero))))"
proof -
  have ne: "MirroredFromAnnotation \<noteq> MirroredGenerationAnnotation" by (simp add: MirroredGenerationAnnotation_def MirroredFromAnnotation_def)
  let ?d = "convert legacy zero"
  have R: "reconcileMirror env key finalizer zero convert reset st =
      (case ms_target st of
         None \<Rightarrow> server_create env (stampMirror key (ob_Generation legacy) ?d) st
       | Some t \<Rightarrow> if read_annotation t MirroredFromAnnotation \<noteq> key then (st, Inr ())
           else if read_annotation t MirroredGenerationAnnotation = show_int (ob_Generation legacy) then (st, Inr ())
           else server_update env (syncMirrorOntoExisting t ?d key (ob_Generation legacy)) st)"
    using assms(1,4,5) by (simp add: reconcileMirror_def fresh_reads_def Let_def convert_again split: option.split)
  show ?thesis
  proof (cases "ms_target st")
    case None
    obtain new where n: "me_create env (stampMirror key (ob_Generation legacy) ?d) = Some new" using assms(2) unfolding accepts_writes_def by blast
    then have "ob_Spec new = ob_Spec ?d" "ob_Annotations new = ob_Annotations (stampMirror key (ob_Generation legacy) ?d)"
      using assms(3) by (auto simp: stores_as_sent_def stampMirror_def)
    then have "read_annotation new MirroredFromAnnotation = key" "read_annotation new MirroredGenerationAnnotation = show_int (ob_Generation legacy)" "ob_Spec new = ob_Spec ?d"
      using ne by (simp_all add: read_annotation_def annotation_cong [of new] stamp_lookup)
    moreover have "st' = st\<lparr>ms_target := Some new\<rparr>" "r = Inr ()" using assms(6) by (simp_all add: R None server_create_def n)
    ultimately show ?thesis using assms(4) by simp
  next
    case (Some t)
    let ?o = "syncMirrorOntoExisting t ?d key (ob_Generation legacy)"
    obtain new where n: "me_update env t ?o = Some new" using assms(2) unfolding accepts_writes_def by blast
    then have new: "ob_Spec new = ob_Spec ?d" "ob_Annotations new = ob_Annotations ?o"
      using assms(3) sync_frame(1) [of t ?d key "ob_Generation legacy"] unfolding stores_as_sent_def by metis+
    show ?thesis
    proof (cases "read_annotation t MirroredFromAnnotation \<noteq> key \<or> read_annotation t MirroredGenerationAnnotation = show_int (ob_Generation legacy)")
      case True
      then have "st' = st" "r = Inr ()" using assms(6) by (auto simp: R Some split: if_splits)
      then show ?thesis using assms(4) True Some by (intro conjI exI [of _ t]) auto
    next
      case False
      then have "st' = st\<lparr>ms_target := Some new\<rparr>" "r = Inr ()" using assms(6) by (auto simp: R Some server_update_def sync_frame n)
      moreover have "read_annotation new MirroredFromAnnotation = key" "read_annotation new MirroredGenerationAnnotation = show_int (ob_Generation legacy)"
        using new(2) ne by (simp_all add: read_annotation_def annotation_cong [of new ?o] sync_lookup)
      ultimately show ?thesis using assms(4) new(1) by simp
    qed
  qed
qed

lemma settled:
  assumes "fresh_reads env" and "ms_legacy st = Some new" and "ob_DeletionTimestamp new = None" and "ms_target st = Some t"
    and "read_annotation t MirroredFromAnnotation \<noteq> key \<or> read_annotation t MirroredGenerationAnnotation = show_int (ob_Generation new)"
  shows "reconcileMirror env key finalizer zero convert reset st = (st, Inr ())"
  using assms by (auto simp: reconcileMirror_def fresh_reads_def Let_def)

end

interpretation skyhook: mirrored_kind Convert_Skyhook_To_NodeWright "\<lambda>t. t\<lparr>ob_Spec := zero_spec\<rparr>" "zero_object zero_spec zero_status" legacySkyhookFinalizer
  by unfold_locales (simp add: Convert_Skyhook_To_NodeWright_def Let_def prepareObjectMeta_def copy_meta_def zero_object_def)

interpretation policy: mirrored_kind Convert_DeploymentPolicy_To_NodeWright "\<lambda>t. t\<lparr>ob_Spec := zero_policy_spec\<rparr>" "zero_object zero_policy_spec ()" "[]"
  by unfold_locales (simp add: Convert_DeploymentPolicy_To_NodeWright_def Let_def prepareObjectMeta_def copy_meta_def zero_object_def)

section \<open>The mirror\<close>

text \<open>
  C11. The mirror touches only what is its own.  Whatever it has read, a run of the mirror changes the resource of the new group only to create it or,
  when it carries the stamp of this old resource, to bring its specification up to date; status and identity stay, and so do the
  annotations that express the intent of an operator (paused, disabled, the time of migration).  In particular the
  deletion of the old resource never reaches the new one.
\<close>

theorem mirror_own_only:
  assumes "SkyhookMirror_Reconcile env key st = (st', r)" and "stores_as_sent env" and "version_identifies env"
  shows "ms_target st' = ms_target st \<or>
    (\<exists>legacy new. me_get_legacy env (ms_legacy st) = Fetched legacy \<and> ob_DeletionTimestamp legacy = None \<and>
       ms_target st' = Some new \<and> legacy_spec (ob_Spec new) = ob_Spec legacy \<and> read_annotation new MirroredFromAnnotation = key \<and>
       (case ms_target st of
          None \<Rightarrow> True
        | Some current \<Rightarrow> read_annotation current MirroredFromAnnotation = key \<and> ob_Status new = ob_Status current \<and> ob_UID new = ob_UID current \<and>
            (\<forall>k \<in> set preservedTargetAnnotations. annotation_of current k \<noteq> None \<longrightarrow> annotation_of new k = annotation_of current k)))"
proof -
  have "legacy_spec (ob_Spec new) = ob_Spec legacy" if "ob_Spec new = ob_Spec (Convert_Skyhook_To_NodeWright legacy out)" for new :: nodewright_object and legacy out
    by (simp add: that Convert_Skyhook_To_NodeWright_def Let_def)
  then show ?thesis using skyhook.own_only [OF assms(1) [unfolded SkyhookMirror_Reconcile_def] assms(2,3)] by blast
qed

text \<open>
  C36. The mirror settles, and sleeps on nothing.  With fresh reads and requests that succeed, a run for an old resource that is not being deleted ends
  without an error with a resource of the new group that is either not the mirror's or stamped with the generation
  of the old one, and written from its specification unless it was so stamped before.  After it, an update of the old resource that the trigger of the mirror filters out
  leaves the mirror nothing to do.
\<close>

theorem mirror_settles:
  assumes "fresh_reads env" and "accepts_writes env" and "stores_as_sent env" and "ms_legacy st = Some legacy" and "ob_DeletionTimestamp legacy = None"
    and "SkyhookMirror_Reconcile env key st = (st', r)"
  shows "r = Inr () \<and>
    (\<exists>t. ms_target st' = Some t \<and>
      (ms_target st = Some t \<or> read_annotation t MirroredFromAnnotation = key \<and> legacy_spec (ob_Spec t) = ob_Spec legacy) \<and>
      (read_annotation t MirroredFromAnnotation = key \<longrightarrow> read_annotation t MirroredGenerationAnnotation = show_int (ob_Generation legacy))) \<and>
    (\<forall>legacy1. \<not> mirrorTriggerPredicate legacy legacy1 \<longrightarrow>
      SkyhookMirror_Reconcile env key (st'\<lparr>ms_legacy := Some legacy1\<rparr>) = (st'\<lparr>ms_legacy := Some legacy1\<rparr>, Inr ()))"
proof -
  obtain t where t: "r = Inr ()" "ms_target st' = Some t"
      "if read_annotation t MirroredFromAnnotation \<noteq> key then ms_target st = Some t
       else read_annotation t MirroredGenerationAnnotation = show_int (ob_Generation legacy) \<and>
         (ms_target st = Some t \<or> ob_Spec t = ob_Spec (Convert_Skyhook_To_NodeWright legacy (zero_object zero_spec zero_status)))"
    using skyhook.converges [OF assms(1-5) assms(6) [unfolded SkyhookMirror_Reconcile_def]] by blast
  have "SkyhookMirror_Reconcile env key (st'\<lparr>ms_legacy := Some legacy1\<rparr>) = (st'\<lparr>ms_legacy := Some legacy1\<rparr>, Inr ())"
    if "\<not> mirrorTriggerPredicate legacy legacy1" for legacy1
    unfolding SkyhookMirror_Reconcile_def
    by (rule skyhook.settled [OF assms(1), where new = legacy1 and t = t]) (use t that in \<open>auto simp: mirrorTriggerPredicate_def\<close>)
  moreover have "legacy_spec (ob_Spec t) = ob_Spec legacy" if "ob_Spec t = ob_Spec (Convert_Skyhook_To_NodeWright legacy (zero_object zero_spec zero_status))"
    by (simp add: that Convert_Skyhook_To_NodeWright_def Let_def)
  ultimately show ?thesis using t by (cases "read_annotation t MirroredFromAnnotation = key") auto
qed

section \<open>Paused resources\<close>

definition as_nodewright :: "nodewright_object \<Rightarrow> NodeWright" where
  "as_nodewright ob = \<lparr>nw_Name = ob_Name ob, nw_UID = ob_UID ob, Generation = ob_Generation ob, nw_Annotations = ob_Annotations ob,
     nw_Finalizers = ob_Finalizers ob, DeletionTimestamp = ob_DeletionTimestamp ob, CreationTimestamp = 0, nw_Spec = ob_Spec ob, nw_Status = ob_Status ob\<rparr>"

lemma converted_annotation:
  assumes "gomap_ok (or_empty (ob_Annotations legacy))" and "is_new_key k" and "annotation_of legacy k = None"
  shows "annotation_of (Convert_Skyhook_To_NodeWright legacy out) k = annotation_of legacy (old_key k)"
proof -
  have a: "ob_Annotations (Convert_Skyhook_To_NodeWright legacy out) = nil_if_empty (rekeyPrefix (ob_Annotations legacy))"
    by (simp add: Convert_Skyhook_To_NodeWright_def Let_def prepareObjectMeta_def copy_meta_def)
  have e: "or_empty (nil_if_empty m) = or_empty m" for m :: "(string, string) gomap option" by (simp add: nil_if_empty_def split: option.split list.split)
  show ?thesis
  proof (cases "ob_Annotations legacy")
    case None
    then show ?thesis by (simp add: annotation_of_def a e rekeyPrefix_def)
  next
    case (Some l)
    then show ?thesis using assms rekey_lookup [of l k] new_not_legacy by (simp add: annotation_of_def a e)
  qed
qed

lemma pause_keys: "is_new_key (METADATA_PREFIX @ ''/'' @ k)" "old_key (METADATA_PREFIX @ ''/'' @ k) = LEGACY_PREFIX @ ''/'' @ k"
  by (auto simp: key_cases old_key_def)

text \<open>What a run that writes leaves of an annotation that states intent: the answer the mirror carries already, else that of the old resource.\<close>

definition to_write :: "string \<Rightarrow> ('ls, 'lt, 's, 't) mirror_state \<Rightarrow> int \<Rightarrow> bool" where
  "to_write key st gen \<longleftrightarrow>
     (case ms_target st of
        None \<Rightarrow> True
      | Some t \<Rightarrow> read_annotation t MirroredFromAnnotation = key \<and> read_annotation t MirroredGenerationAnnotation \<noteq> show_int gen)"

definition own_intent :: "('ls, 'lt, 's, 't) mirror_state \<Rightarrow> string \<Rightarrow> string option" where
  "own_intent st k = (case ms_target st of None \<Rightarrow> None | Some t \<Rightarrow> annotation_of t k)"

definition intent_keys :: "string list" where
  "intent_keys = [''pause'', ''disable'']"

lemma written_intent:
  assumes "fresh_reads env" and "accepts_writes env" and "stores_as_sent env"
    and "ms_legacy st = Some legacy" and "ob_DeletionTimestamp legacy = None" and "gomap_ok (or_empty (ob_Annotations legacy))"
    and "to_write key st (ob_Generation legacy)"
  shows "\<exists>new. ms_target (fst (SkyhookMirror_Reconcile env key st)) = Some new \<and>
    (\<forall>k \<in> set intent_keys. annotation_of legacy (METADATA_PREFIX @ ''/'' @ k) = None \<longrightarrow>
      annotation_of new (METADATA_PREFIX @ ''/'' @ k) =
        (case own_intent st (METADATA_PREFIX @ ''/'' @ k) of None \<Rightarrow> annotation_of legacy (LEGACY_PREFIX @ ''/'' @ k) | Some v \<Rightarrow> Some v))"
proof -
  let ?d = "Convert_Skyhook_To_NodeWright legacy (zero_object zero_spec zero_status)"
  have k: "METADATA_PREFIX @ ''/'' @ k \<noteq> MirroredFromAnnotation" "METADATA_PREFIX @ ''/'' @ k \<noteq> MirroredGenerationAnnotation"
    "METADATA_PREFIX @ ''/'' @ k \<in> set preservedTargetAnnotations" if "k \<in> set intent_keys" for k
    using that by (auto simp: intent_keys_def MirroredFromAnnotation_def MirroredGenerationAnnotation_def preservedTargetAnnotations_def)
  have d: "annotation_of ?d (METADATA_PREFIX @ ''/'' @ k) = annotation_of legacy (LEGACY_PREFIX @ ''/'' @ k)"
    if "annotation_of legacy (METADATA_PREFIX @ ''/'' @ k) = None" for k
    using converted_annotation [OF assms(6) _ that] pause_keys [of k] by simp
  show ?thesis
  proof (cases "ms_target st")
    case None
    let ?o = "stampMirror key (ob_Generation legacy) ?d"
    obtain new where n: "me_create env ?o = Some new" using assms(2) unfolding accepts_writes_def by blast
    then have "annotation_of new = annotation_of ?o" using assms(3) by (auto simp: stores_as_sent_def annotation_of_def)
    moreover have "ms_target (fst (SkyhookMirror_Reconcile env key st)) = Some new" using assms(1,4,5) None n
      by (simp add: SkyhookMirror_Reconcile_def reconcileMirror_def fresh_reads_def Let_def server_create_def)
    ultimately show ?thesis using None k d by (simp add: own_intent_def skyhook.stamp_lookup)
  next
    case (Some t)
    let ?o = "syncMirrorOntoExisting t ?d key (ob_Generation legacy)"
    obtain new where n: "me_update env t ?o = Some new" using assms(2) unfolding accepts_writes_def by blast
    then have "annotation_of new = annotation_of ?o" using assms(3) by (auto simp: stores_as_sent_def annotation_of_def)
    moreover have "ms_target (fst (SkyhookMirror_Reconcile env key st)) = Some new" using assms(1,4,5,7) Some n
      by (simp add: SkyhookMirror_Reconcile_def reconcileMirror_def fresh_reads_def Let_def skyhook.convert_again server_update_def skyhook.sync_frame
          to_write_def)
    ultimately show ?thesis using Some k d by (simp add: own_intent_def skyhook.sync_lookup split: option.split)
  qed
qed

text \<open>
  C37. What the hold lets through is at rest, or stays stopped when it is taken over.  The hold ends a pass exactly when the old resources cannot be listed
  or one of them is neither paused nor disabled and its status is not one at rest (never reconciled, complete, paused or disabled).
  And when the mirror writes the resource of an old one that is paused or disabled, creating it or bringing it up to a new generation, the result is paused or
  disabled too, unless it carried an answer of its own already, which an operator gave and which wins.  The old resource must not
  itself carry annotations of the new group.  A mirror at the current generation is not written, so an operator who
  resumes it is not overruled.
\<close>

theorem hold_covers:
  assumes "ms_legacy st = Some legacy" and "ob_DeletionTimestamp legacy = None" and "gomap_ok (or_empty (ob_Annotations legacy))"
    and "\<forall>k \<in> set intent_keys. annotation_of legacy (METADATA_PREFIX @ ''/'' @ k) = None"
    and "fresh_reads env" and "accepts_writes env" and "stores_as_sent env" and "to_write key st (ob_Generation legacy)"
  shows "(legacyMigrationHold listing = None \<longleftrightarrow>
      listing = NotFound \<or> (\<exists>items. listing = Fetched items \<and> (\<forall>l \<in> set items.
        legacy_IsPaused l \<or> legacy_IsDisabled l \<or> st_Status (ob_Status l) \<in> {StatusOther [], StatusComplete, StatusPaused, StatusDisabled}))) \<and>
    (\<exists>new. ms_target (fst (SkyhookMirror_Reconcile env key st)) = Some new \<and>
      (legacy_IsPaused legacy \<longrightarrow> own_intent st (METADATA_PREFIX @ ''/pause'') \<in> {None, Some ''true''} \<longrightarrow> IsPaused (as_nodewright new)) \<and>
      (legacy_IsDisabled legacy \<longrightarrow> own_intent st (METADATA_PREFIX @ ''/disable'') \<in> {None, Some ''true''} \<longrightarrow> IsDisabled (as_nodewright new)))"
proof -
  have "legacyMigrationHold listing = None \<longleftrightarrow>
      listing = NotFound \<or> (\<exists>items. listing = Fetched items \<and> (\<forall>l \<in> set items.
        legacy_IsPaused l \<or> legacy_IsDisabled l \<or> st_Status (ob_Status l) \<in> {StatusOther [], StatusComplete, StatusPaused, StatusDisabled}))"
    by (cases listing) (auto simp: legacyMigrationHold_def inFlightLegacySkyhooks_def filter_empty_conv in_flight_def)
  moreover obtain new where "ms_target (fst (SkyhookMirror_Reconcile env key st)) = Some new"
    "\<forall>k \<in> set intent_keys. annotation_of new (METADATA_PREFIX @ ''/'' @ k) =
        (case own_intent st (METADATA_PREFIX @ ''/'' @ k) of None \<Rightarrow> annotation_of legacy (LEGACY_PREFIX @ ''/'' @ k) | Some v \<Rightarrow> Some v)"
    using written_intent [OF assms(5-7,1,2,3,8)] assms(4) by blast
  ultimately show ?thesis
    by (auto simp: intent_keys_def IsPaused_def IsDisabled_def as_nodewright_def annotation_of_def legacy_IsPaused_def legacy_IsDisabled_def)
qed

text \<open>
  A resumed resource is paused again.  The annotations kept on a re-sync are kept only where they are present: when an operator has
  resumed the new resource by taking the pause annotation away, and the old resource still has its own, the next change of the old
  specification brings the pause back.
\<close>

theorem resync_pauses_again:
  assumes "fresh_reads env" and "accepts_writes env" and "stores_as_sent env"
    and "ms_legacy st = Some legacy" and "ob_DeletionTimestamp legacy = None" and "legacy_IsPaused legacy"
    and "gomap_ok (or_empty (ob_Annotations legacy))" and "annotation_of legacy (METADATA_PREFIX @ ''/pause'') = None"
    and "ms_target st = Some t" and "read_annotation t MirroredFromAnnotation = key"
    and "read_annotation t MirroredGenerationAnnotation \<noteq> show_int (ob_Generation legacy)" and "annotation_of t (METADATA_PREFIX @ ''/pause'') = None"
  shows "\<not> IsPaused (as_nodewright t) \<and>
    (\<exists>new. ms_target (fst (SkyhookMirror_Reconcile env key st)) = Some new \<and> IsPaused (as_nodewright new))"
proof -
  have "to_write key st (ob_Generation legacy)" "own_intent st (METADATA_PREFIX @ ''/pause'') = None"
    using assms(9-12) by (simp_all add: to_write_def own_intent_def)
  then have "\<exists>new. ms_target (fst (SkyhookMirror_Reconcile env key st)) = Some new \<and> IsPaused (as_nodewright new)"
    using written_intent [OF assms(1-5,7)] assms(6,8)
    by (auto simp: intent_keys_def IsPaused_def as_nodewright_def annotation_of_def legacy_IsPaused_def)
  then show ?thesis using assms(12) by (simp add: IsPaused_def as_nodewright_def annotation_of_def)
qed

text \<open>
  The deletion of an old resource completes.  An old resource held only by the finalizer of the old operator is gone after a run of
  the mirror, and the resource of the new group is as before.
\<close>

theorem legacy_deletion_completes:
  assumes "fresh_reads env" and "accepts_writes env" and "ms_legacy st = Some legacy" and "ob_DeletionTimestamp legacy \<noteq> None"
    and "set (ob_Finalizers legacy) = {legacySkyhookFinalizer}"
    and "\<And>current ob stored. me_update_legacy env current ob = Some stored \<Longrightarrow>
      ob_Finalizers stored = ob_Finalizers ob \<and> ob_DeletionTimestamp stored = ob_DeletionTimestamp current"
  shows "SkyhookMirror_Reconcile env key st = (st\<lparr>ms_legacy := None\<rparr>, Inr ())"
proof -
  let ?o = "legacy\<lparr>ob_Finalizers := filter (\<lambda>f. f \<noteq> legacySkyhookFinalizer) (ob_Finalizers legacy)\<rparr>"
  obtain stored where s: "me_update_legacy env legacy ?o = Some stored" using assms(2) unfolding accepts_writes_def by blast
  have "filter (\<lambda>f. f \<noteq> legacySkyhookFinalizer) (ob_Finalizers legacy) = []" using assms(5) by (simp add: filter_empty_conv)
  then have "ob_Finalizers stored = []" "ob_DeletionTimestamp stored \<noteq> None" using assms(4) assms(6) [OF s] by simp_all
  moreover have "legacySkyhookFinalizer \<noteq> []" by (simp add: legacySkyhookFinalizer_def)
  ultimately show ?thesis using assms(1,3-5) s
    by (simp add: SkyhookMirror_Reconcile_def reconcileMirror_def fresh_reads_def server_update_legacy_def)
qed

section \<open>Witnesses\<close>

definition mirror_sample :: skyhook_mirror_env where
  "mirror_sample = \<lparr>me_get_legacy = (\<lambda>x. case x of None \<Rightarrow> NotFound | Some ob \<Rightarrow> Fetched ob),
     me_get_target = (\<lambda>x. case x of None \<Rightarrow> NotFound | Some ob \<Rightarrow> Fetched ob), me_create = Some,
     me_update = (\<lambda>current ob. Some (ob\<lparr>ob_Status := ob_Status current, ob_UID := ob_UID current\<rparr>)), me_update_legacy = (\<lambda>current ob. Some (ob\<lparr>ob_DeletionTimestamp := ob_DeletionTimestamp current\<rparr>))\<rparr>"

definition sample_legacy :: legacy_Skyhook where
  "sample_legacy = (zero_object (legacy_spec zero_spec) (zero_status\<lparr>st_Status := StatusInProgress\<rparr>))
     \<lparr>ob_Name := ''tune'', ob_Generation := 2, ob_Finalizers := [legacySkyhookFinalizer], ob_Annotations := Some [(LEGACY_PREFIX @ ''/pause'', ''true'')]\<rparr>"

definition sample_mirrored :: nodewright_object where
  "sample_mirrored = (zero_object zero_spec zero_status)\<lparr>ob_Name := ''tune'', ob_UID := ''u'',
     ob_Annotations := Some [(MirroredFromAnnotation, ''tune''), (MirroredGenerationAnnotation, ''1'')]\<rparr>"

definition sample_bridge :: skyhook_mirror where
  "sample_bridge = \<lparr>ms_legacy = Some sample_legacy, ms_target = Some sample_mirrored\<rparr>"

lemma mirror_sample_api: "fresh_reads mirror_sample" "accepts_writes mirror_sample" "stores_as_sent mirror_sample" "version_identifies mirror_sample"
  by (auto simp: mirror_sample_def fresh_reads_def accepts_writes_def stores_as_sent_def version_identifies_def)

lemma sample_keys: "MirroredFromAnnotation \<noteq> MirroredGenerationAnnotation" "METADATA_PREFIX @ ''/pause'' \<noteq> LEGACY_PREFIX @ ''/pause''"
  "METADATA_PREFIX @ ''/disable'' \<noteq> LEGACY_PREFIX @ ''/pause''"
  "METADATA_PREFIX @ ''/pause'' \<noteq> MirroredFromAnnotation" "METADATA_PREFIX @ ''/pause'' \<noteq> MirroredGenerationAnnotation" "show_int 2 \<noteq> ''1''" "''1'' \<noteq> show_int 2"
  by code_simp+

lemma sample_legacy_facts: "ob_DeletionTimestamp sample_legacy = None" "legacy_IsPaused sample_legacy" "gomap_ok (or_empty (ob_Annotations sample_legacy))"
  "annotation_of sample_legacy (METADATA_PREFIX @ ''/pause'') = None" "annotation_of sample_legacy (METADATA_PREFIX @ ''/disable'') = None"
  "ob_Generation sample_legacy = 2"
  using sample_keys by (simp_all add: sample_legacy_def zero_object_def legacy_IsPaused_def annotation_of_def)

lemma sample_mirrored_facts: "read_annotation sample_mirrored MirroredFromAnnotation = ''tune''" "read_annotation sample_mirrored MirroredGenerationAnnotation = ''1''"
  "annotation_of sample_mirrored (METADATA_PREFIX @ ''/pause'') = None"
  using sample_keys by (simp_all add: sample_mirrored_def read_annotation_def annotation_of_def)

theorem resync_pauses_again_witness:
  "\<exists>new. ms_target (fst (SkyhookMirror_Reconcile mirror_sample ''tune'' sample_bridge)) = Some new \<and> IsPaused (as_nodewright new)"
  using resync_pauses_again [OF mirror_sample_api(1-3), of sample_bridge sample_legacy sample_mirrored "''tune''"]
  by (simp add: sample_legacy_facts sample_mirrored_facts sample_keys) (simp add: sample_bridge_def)

theorem mirror_own_only_witness:
  "let st' = fst (SkyhookMirror_Reconcile mirror_sample ''tune'' sample_bridge)
   in ms_target st' = Some sample_mirrored \<or> (\<exists>new. ms_target st' = Some new \<and> ob_UID new = ''u'' \<and> legacy_spec (ob_Spec new) = ob_Spec sample_legacy)"
proof -
  obtain st' r where R: "SkyhookMirror_Reconcile mirror_sample ''tune'' sample_bridge = (st', r)" by fastforce
  from mirror_own_only [OF R mirror_sample_api(3,4)] show ?thesis
    unfolding R by (auto simp: sample_bridge_def mirror_sample_def sample_mirrored_def)
qed

theorem mirror_settles_witness:
  "snd (SkyhookMirror_Reconcile mirror_sample ''tune'' sample_bridge) = Inr ()"
proof -
  obtain st' r where R: "SkyhookMirror_Reconcile mirror_sample ''tune'' sample_bridge = (st', r)" by fastforce
  have "ms_legacy sample_bridge = Some sample_legacy" by (simp add: sample_bridge_def)
  from mirror_settles [OF mirror_sample_api(1-3) this sample_legacy_facts(1) R] show ?thesis by (simp add: R)
qed

theorem hold_covers_witness:
  "legacyMigrationHold (Fetched [sample_legacy]) = None \<and>
   (\<exists>new. ms_target (fst (SkyhookMirror_Reconcile mirror_sample ''tune'' sample_bridge)) = Some new \<and> IsPaused (as_nodewright new))"
proof -
  have k: "\<forall>k \<in> set intent_keys. annotation_of sample_legacy (METADATA_PREFIX @ ''/'' @ k) = None"
    using sample_legacy_facts(4,5) by (simp add: intent_keys_def)
  have m: "ms_legacy sample_bridge = Some sample_legacy" "to_write ''tune'' sample_bridge (ob_Generation sample_legacy)"
    "own_intent sample_bridge (METADATA_PREFIX @ ''/pause'') = None"
    using sample_mirrored_facts sample_keys(6,7) by (simp_all add: sample_bridge_def to_write_def own_intent_def sample_legacy_facts(6))
  from hold_covers [OF m(1) sample_legacy_facts(1,3) k mirror_sample_api(1-3) m(2), of "Fetched [sample_legacy]"] show ?thesis
    using sample_legacy_facts(2) m(3) by auto
qed

theorem legacy_deletion_completes_witness:
  "SkyhookMirror_Reconcile mirror_sample ''tune'' (sample_bridge\<lparr>ms_legacy := Some (sample_legacy\<lparr>ob_DeletionTimestamp := Some 9\<rparr>)\<rparr>) =
     (sample_bridge\<lparr>ms_legacy := None\<rparr>, Inr ())"
proof -
  let ?l = "sample_legacy\<lparr>ob_DeletionTimestamp := Some 9\<rparr>"
  have "SkyhookMirror_Reconcile mirror_sample ''tune'' (sample_bridge\<lparr>ms_legacy := Some ?l\<rparr>) = (sample_bridge\<lparr>ms_legacy := Some ?l\<rparr>\<lparr>ms_legacy := None\<rparr>, Inr ())"
    by (rule legacy_deletion_completes [OF mirror_sample_api(1,2), where legacy = ?l]) (auto simp: mirror_sample_def sample_legacy_def)
  then show ?thesis by simp
qed

end
