(* ===== verification/Migration.thy ===== *)
theory Migration
  imports Mirror Runtime_Required
begin

text \<open>
  The migration of a cluster to the current operator: the adoption of the metadata an operator under the old name left on a node and its
  later removal (\<open>operator/internal/wrapper/zz.migration.0.18.0.go\<close>), the migration of the states of old releases
  (\<open>operator/internal/wrapper/zz.migration.0.5.0.go\<close>, \<open>Migrate\<close> of \<open>node.go\<close> and \<open>cluster_state_v2.go\<close>), and \<open>HandleMigrations\<close> of
  \<open>operator/internal/controller/skyhook_controller.go\<close>, which runs them for each resource, converts the workloads of the old operator and
  keeps the time from which they may be removed.

  The keys under the old prefix and their new names are those of the conversion of the resources.  The version the operator was built with, the clock and the
  delay before the removal are arguments.
\<close>

section \<open>Whose metadata\<close>

definition nameScopedAnnotationPrefixes :: "string list" where
  "nameScopedAnnotationPrefixes = [''nodeState_'', ''status_'', ''version_'', ''cordon_'', ''drainStart_'']"

definition nodeScopedAnnotationPrefixes :: "string list" where
  "nodeScopedAnnotationPrefixes = [''autoTaint_'']"

definition isOperatorOwnedAnnotation :: "string \<Rightarrow> bool" where
  "isOperatorOwnedAnnotation rest = list_ex (has_prefix rest) (nameScopedAnnotationPrefixes @ nodeScopedAnnotationPrefixes)"

definition isOperatorOwnedLabel :: "string \<Rightarrow> bool" where
  "isOperatorOwnedLabel rest \<longleftrightarrow> rest = ''ignore'' \<or> has_prefix rest ''status_''"

definition isOperatorOwnedCondition :: "string \<Rightarrow> bool" where
  "isOperatorOwnedCondition rest \<longleftrightarrow> has_suffix rest ''/NotReady'' \<or> has_suffix rest ''/Erroring''"

definition ownedByAnnotation :: "string \<Rightarrow> string \<Rightarrow> bool" where
  "ownedByAnnotation name rest = list_ex (\<lambda>p. rest = p @ name) nameScopedAnnotationPrefixes"

definition ownedByLabel :: "string \<Rightarrow> string \<Rightarrow> bool" where
  "ownedByLabel name rest \<longleftrightarrow> rest = ''status_'' @ name"

definition ownedByCondition :: "string \<Rightarrow> string \<Rightarrow> bool" where
  "ownedByCondition name rest \<longleftrightarrow> rest = name @ ''/NotReady'' \<or> rest = name @ ''/Erroring''"

text \<open>A key under the old prefix whose rest satisfies a predicate.\<close>

definition legacy_suffix :: "string \<Rightarrow> string" where
  "legacy_suffix k = drop (length (LEGACY_PREFIX @ ''/'')) k"

definition legacy_and :: "(string \<Rightarrow> bool) \<Rightarrow> string \<Rightarrow> bool" where
  "legacy_and owned k \<longleftrightarrow> is_legacy_key k \<and> owned (legacy_suffix k)"

definition HasOperatorOwnedLegacyMetadata :: "Node \<Rightarrow> string \<Rightarrow> bool" where
  "HasOperatorOwnedLegacyMetadata n name \<longleftrightarrow>
     list_ex (legacy_and (ownedByAnnotation name)) (gkeys (n_Annotations n)) \<or>
     list_ex (legacy_and (ownedByLabel name)) (gkeys (n_Labels n)) \<or>
     list_ex (\<lambda>c. legacy_and (ownedByCondition name) (nc_Type c)) (n_Conditions n)"

section \<open>Adopting and removing it\<close>

definition copy_key :: "string \<Rightarrow> (string, string) gomap \<times> bool \<Rightarrow> (string, string) gomap \<times> bool" where
  "copy_key k acc =
     (case acc of (m, changed) \<Rightarrow>
        if map_of m (new_key k) \<noteq> None then acc
        else (case map_of m k of None \<Rightarrow> acc | Some v \<Rightarrow> (gput (new_key k) v m, True)))"

definition copyPrefixedMap :: "(string \<Rightarrow> bool) \<Rightarrow> (string, string) gomap \<times> bool \<Rightarrow> (string, string) gomap \<times> bool" where
  "copyPrefixedMap owned acc = fold copy_key (filter (legacy_and owned) (gkeys (fst acc))) acc"

definition dropPrefixedKeys :: "(string \<Rightarrow> bool) \<Rightarrow> (string, string) gomap \<times> bool \<Rightarrow> (string, string) gomap \<times> bool" where
  "dropPrefixedKeys owned acc =
     (case acc of (m, changed) \<Rightarrow> (filter (\<lambda>(k, v). \<not> legacy_and owned k) m, changed \<or> list_ex (legacy_and owned) (gkeys m)))"

definition hasCondition :: "NodeCondition list \<Rightarrow> string \<Rightarrow> bool" where
  "hasCondition cs t = list_ex (\<lambda>c. nc_Type c = t) cs"

definition adopted_conditions :: "NodeCondition list \<Rightarrow> NodeCondition list" where
  "adopted_conditions cs =
     map (\<lambda>c. c\<lparr>nc_Type := new_key (nc_Type c)\<rparr>)
       (filter (\<lambda>c. legacy_and isOperatorOwnedCondition (nc_Type c) \<and> \<not> hasCondition cs (new_key (nc_Type c))) cs)"

definition migrateNodePrefixToNodeWright :: "skyhookNode \<Rightarrow> skyhookNode" where
  "migrateNodePrefixToNodeWright node =
     (let n = sn_Node node;
          (anns, c1) = copyPrefixedMap isOperatorOwnedAnnotation (n_Annotations n, False);
          (labels, c2) = copyPrefixedMap isOperatorOwnedLabel (n_Labels n, c1);
          added = adopted_conditions (n_Conditions n);
          node1 = put_node (\<lambda>n. n\<lparr>n_Annotations := anns, n_Labels := labels, n_Conditions := n_Conditions n @ added\<rparr>) node
      in if c2 \<or> added \<noteq> [] then mark node1 else node1)"

definition pruneLegacyNodePrefix :: "skyhookNode \<Rightarrow> skyhookNode \<times> bool" where
  "pruneLegacyNodePrefix node =
     (let n = sn_Node node; name = skyhookName node;
          (anns, c1) = dropPrefixedKeys (ownedByAnnotation name) (n_Annotations n, False);
          (labels, c2) = dropPrefixedKeys (ownedByLabel name) (n_Labels n, c1);
          kept = filter (\<lambda>c. \<not> legacy_and (ownedByCondition name) (nc_Type c)) (n_Conditions n);
          changed = (c2 \<or> list_ex (\<lambda>c. legacy_and (ownedByCondition name) (nc_Type c)) (n_Conditions n));
          node1 = put_node (\<lambda>n. n\<lparr>n_Annotations := anns, n_Labels := labels, n_Conditions := kept\<rparr>) node
      in (if changed then mark node1 else node1, changed))"

section \<open>States of old releases\<close>

datatype migrate_error = MigrateState node_error | MigratePanic

type_synonym migrated = "(skyhookNode \<times> Skyhook) \<times> (migrate_error + unit)"

text \<open>What the state kept by the node becomes once a package has been dealt with.\<close>

definition store_state :: "NodeState \<Rightarrow> skyhookNode \<times> Skyhook \<Rightarrow> skyhookNode \<times> Skyhook" where
  "store_state ns x =
     (let (node, sk) = x; node1 = SetState ns (node\<lparr>nodeState := ns\<rparr>)
      in (mark node1, SetNodeState (n_Name (sn_Node node1)) (nodeState node1) sk))"

definition migrate_package :: "PackageStatus \<Rightarrow> skyhookNode \<times> Skyhook \<Rightarrow> skyhookNode \<times> Skyhook" where
  "migrate_package status x =
     (let (node, sk) = x;
          ref = \<lparr>ref_Name = ps_Name status, ref_Version = ps_Version status\<rparr>;
          found = map_of (spec_Packages (sk_Spec sk)) (ps_Name status);
          old_name = (case found of None \<Rightarrow> [] | Some p \<Rightarrow> p_Name p)
      in if ps_Image status \<noteq> [] then x
         else
           (case (case found of Some p \<Rightarrow> if ps_Version status = p_Version p then Some p else None | None \<Rightarrow> None) of
              Some p \<Rightarrow>
                (let (node1, sk1) = Node_Upsert ref (p_Image p) (ps_State status) (ps_Stage status) (ps_Restarts status) [] (node, Some sk)
                 in store_state (map_option (gdel (p_Name p)) (nodeState node1)) (node1, the sk1))
            | None \<Rightarrow>
                (let ns = nodeState node; ns1 = map_option (gdel (PackageRef_GetUniqueName ref)) ns; ns2 = map_option (gdel old_name) ns1
                 in if ns_get ns (PackageRef_GetUniqueName ref) \<noteq> None \<or> ns_get ns1 old_name \<noteq> None then store_state ns2 x else x)))"

text \<open>
  The loop over the states.  When the node has its state in memory, the map that is read is the one that is changed: an entry removed on the way
  is not visited any more, and an entry changed on the way is seen as it is then.
\<close>

fun migrate_packages :: "bool \<Rightarrow> (string \<times> PackageStatus) list \<Rightarrow> skyhookNode \<times> Skyhook \<Rightarrow> skyhookNode \<times> Skyhook" where
  "migrate_packages shared [] x = x"
| "migrate_packages shared ((k, seen) # rest) x =
     (case (if shared then ns_get (nodeState (fst x)) k else Some seen) of
        None \<Rightarrow> migrate_packages shared rest x
      | Some status \<Rightarrow> migrate_packages shared rest (migrate_package status x))"

text \<open>
  The loop over the conditions ranges over the slice as it was at the start, while the removal of an entry moves the rest of the same array
  down: \<open>arr\<close> is that array and \<open>len\<close> the length of the slice the node has.  Cutting beyond that length panics.
\<close>

definition stale_condition :: "string \<Rightarrow> NodeCondition \<Rightarrow> bool" where
  "stale_condition name c \<longleftrightarrow>
     has_prefix (nc_Type c) (METADATA_PREFIX @ ''/'' @ name @ ''/'') \<and>
     split_on CHR ''/'' (nc_Type c) ! 2 \<notin> {''Erroring'', ''NotReady''}"

fun drop_stale :: "string \<Rightarrow> nat list \<Rightarrow> NodeCondition list \<Rightarrow> nat \<Rightarrow> (NodeCondition list \<times> nat) option" where
  "drop_stale name [] arr len = Some (arr, len)"
| "drop_stale name (i # js) arr len =
     (if \<not> stale_condition name (arr ! i) then drop_stale name js arr len
      else if len < Suc i then None
      else drop_stale name js (take i arr @ drop (Suc i) (take len arr) @ drop (len - 1) arr) (len - 1))"

definition migrateNodeTo_0_5_0 :: "skyhookNode \<times> Skyhook \<Rightarrow> migrated" where
  "migrateNodeTo_0_5_0 x =
     (case Node_State (fst x) of
        Inl e \<Rightarrow> (x, Inl (MigrateState e))
      | Inr ns \<Rightarrow>
          (let (node, sk) = migrate_packages (nodeState (fst x) \<noteq> None) (or_empty ns) x;
               cs = n_Conditions (sn_Node node)
           in case drop_stale (skyhookName node) [0..<length cs] cs (length cs) of
                None \<Rightarrow> ((node, sk), Inl MigratePanic)
              | Some (arr, len) \<Rightarrow> ((put_node (\<lambda>n. n\<lparr>n_Conditions := take len arr\<rparr>) node, sk), Inr ())))"

definition MajorMinor :: "string \<Rightarrow> string" where
  "MajorMinor v =
     (case with_v v of
        None \<Rightarrow> []
      | Some w \<Rightarrow> (case parse w of None \<Rightarrow> [] | Some p \<Rightarrow> ''v'' @ major p @ ''.'' @ minor p))"

definition Node_Migrate :: "string \<Rightarrow> skyhookNode \<times> Skyhook \<Rightarrow> migrated" where
  "Node_Migrate VERSION x =
     (let (node, sk) = x;
          node1 = (if Node_GetVersion node = [] then migrateNodePrefixToNodeWright node else node);
          from_version = Node_GetVersion node1
      in if from_version = VERSION then ((node1, sk), Inr ())
         else if MajorMinor from_version \<in> {[], ''v0.5'', ''v0.6'', ''v0.7''}
         then (case migrateNodeTo_0_5_0 (node1, sk) of
                 (y, Inl e) \<Rightarrow> (y, Inl e)
               | ((node2, sk2), Inr _) \<Rightarrow> ((Node_SetVersion VERSION node2, sk2), Inr ()))
         else ((node1, sk), Inr ()))"

fun migrate_nodes :: "string \<Rightarrow> string list \<Rightarrow> skyhookNodes \<Rightarrow> skyhookNodes \<times> (migrate_error + unit)" where
  "migrate_nodes VERSION [] s = (s, Inr ())"
| "migrate_nodes VERSION (name # names) s =
     (case find_node s name of
        None \<Rightarrow> migrate_nodes VERSION names s
      | Some c \<Rightarrow>
          if Node_GetVersion (cn_node c) = VERSION then migrate_nodes VERSION names s
          else
            (let ((node, sk), r) = Node_Migrate VERSION (cn_node c, (sh_skyhook s)\<lparr>Updated := cn_Updated c\<rparr>);
                 s1 = on_node (\<lambda>_. (node, Some sk)) name s
             in case r of Inl e \<Rightarrow> (s1, Inl e) | Inr _ \<Rightarrow> migrate_nodes VERSION names s1))"

definition skyhookNodes_Migrate :: "string \<Rightarrow> skyhookNodes \<Rightarrow> skyhookNodes \<times> (migrate_error + unit)" where
  "skyhookNodes_Migrate VERSION s =
     (case migrate_nodes VERSION (map cn_Name (sh_nodes s)) s of
        (s1, Inl e) \<Rightarrow> (s1, Inl e)
      | (s1, Inr _) \<Rightarrow>
          (let from_version = Skyhook_GetVersion (sh_skyhook s1)
           in if from_version = VERSION then (s1, Inr ())
              else
                (let s2 = put_skyhook (Skyhook_Migrate VERSION) s1
                 in (if from_version = [] then ReportState s2 else s2, Inr ()))))"

section \<open>Adoption\<close>

lemma legacy_suffix_old: "is_new_key k \<Longrightarrow> legacy_suffix (old_key k) = drop (length (METADATA_PREFIX @ ''/'')) k"
  by (simp add: legacy_suffix_def old_key_def)

lemma copy_fold:
  assumes "\<forall>k \<in> set ks. is_legacy_key k"
  shows "map_of (fst (fold copy_key ks (m, b))) k =
    (case map_of m k of Some v \<Rightarrow> Some v | None \<Rightarrow> if is_new_key k \<and> old_key k \<in> set ks then map_of m (old_key k) else None)"
  using assms
proof (induction ks arbitrary: m b)
  case (Cons k1 ks)
  show ?case
  proof (cases "map_of m (new_key k1) \<noteq> None \<or> map_of m k1 = None")
    case True
    then have s: "copy_key k1 (m, b) = (m, b)" by (auto simp: copy_key_def split: option.split)
    have "map_of m (old_key k) = None" if "map_of m k = None" "is_new_key k" "old_key k = k1"
      using True that Cons.prems new_key_eq [of k1 k] by auto
    then show ?thesis using Cons by (auto simp: s split: option.split)
  next
    case False
    then obtain v where v: "map_of m k1 = Some v" "map_of m (new_key k1) = None" by auto
    have s: "copy_key k1 (m, b) = (gput (new_key k1) v m, True)" by (simp add: copy_key_def v)
    have ne: "old_key k \<noteq> new_key k1" using old_key_legacy [of k] key_inverse [of k1] new_not_legacy Cons.prems by auto
    have IH: "map_of (fst (fold copy_key ks (gput (new_key k1) v m, True))) k =
        (case map_of (gput (new_key k1) v m) k of Some v \<Rightarrow> Some v
         | None \<Rightarrow> if is_new_key k \<and> old_key k \<in> set ks then map_of (gput (new_key k1) v m) (old_key k) else None)"
      using Cons by simp
    show ?thesis
    proof (cases "k = new_key k1")
      case True
      then have "is_new_key k" "old_key k = k1" using key_inverse [of k1] Cons.prems by auto
      then show ?thesis using IH v True by (simp add: s)
    next
      case False
      then have "\<not> (is_new_key k \<and> old_key k = k1)" using new_key_eq [of k1 k] Cons.prems by auto
      then show ?thesis using IH ne False by (auto simp: s split: option.split)
    qed
  qed
qed (simp split: option.split)

lemma copy_stays: "\<forall>k \<in> set ks. map_of m (new_key k) \<noteq> None \<Longrightarrow> fold copy_key ks (m, b) = (m, b)"
  by (induction ks) (auto simp: copy_key_def)

lemma copy_lookup:
  "map_of (fst (copyPrefixedMap owned (m, b))) k =
     (case map_of m k of Some v \<Rightarrow> Some v
      | None \<Rightarrow> if is_new_key k \<and> owned (legacy_suffix (old_key k)) then map_of m (old_key k) else None)"
proof -
  have "old_key k \<in> set (filter (legacy_and owned) (gkeys m)) \<longleftrightarrow> owned (legacy_suffix (old_key k)) \<and> map_of m (old_key k) \<noteq> None"
    using gkeys_lookup [of "old_key k" m] old_key_legacy by (auto simp: legacy_and_def)
  then show ?thesis
    using copy_fold [of "filter (legacy_and owned) (gkeys m)" m b k] by (auto simp: copyPrefixedMap_def legacy_and_def split: option.split)
qed

lemma copy_again: "copyPrefixedMap owned (fst (copyPrefixedMap owned (m, b)), b1) = (fst (copyPrefixedMap owned (m, b)), b1)"
proof -
  let ?m = "fst (copyPrefixedMap owned (m, b))"
  have "map_of ?m (new_key k) \<noteq> None" if k: "k \<in> set (filter (legacy_and owned) (gkeys ?m))" for k
  proof -
    have l: "is_legacy_key k" "owned (legacy_suffix k)" "map_of ?m k \<noteq> None" using k gkeys_lookup [of k ?m] by (auto simp: legacy_and_def)
    then have n: "is_new_key (new_key k)" "old_key (new_key k) = k" using key_inverse by auto
    have "map_of m k \<noteq> None" using l(1,3) new_not_legacy copy_lookup [of owned m b k] by (auto split: option.splits if_splits)
    then show ?thesis using n l(2) copy_lookup [of owned m b "new_key k"] by (auto split: option.split)
  qed
  then show ?thesis using copy_stays [of _ ?m b1] by (simp add: copyPrefixedMap_def)
qed

lemma adopted_again: "adopted_conditions (cs @ adopted_conditions cs) = []"
proof -
  let ?a = "adopted_conditions cs"
  have "hasCondition (cs @ ?a) (new_key (nc_Type c)) \<or> \<not> legacy_and isOperatorOwnedCondition (nc_Type c)" if here: "c \<in> set (cs @ ?a)" for c
  proof (cases "c \<in> set cs")
    case True
    show ?thesis
    proof (cases "hasCondition cs (new_key (nc_Type c)) \<or> \<not> legacy_and isOperatorOwnedCondition (nc_Type c)")
      case False
      then have "c\<lparr>nc_Type := new_key (nc_Type c)\<rparr> \<in> set ?a" using \<open>c \<in> set cs\<close> by (auto simp: adopted_conditions_def)
      moreover have "nc_Type (c\<lparr>nc_Type := new_key (nc_Type c)\<rparr>) = new_key (nc_Type c)" by simp
      ultimately show ?thesis unfolding hasCondition_def list_ex_iff set_append by blast
    qed (auto simp: hasCondition_def)
  next
    case False
    then obtain d where "legacy_and isOperatorOwnedCondition (nc_Type d)" "c = d\<lparr>nc_Type := new_key (nc_Type d)\<rparr>"
      using here by (auto simp: adopted_conditions_def)
    then have "is_legacy_key (nc_Type d)" "nc_Type c = new_key (nc_Type d)" by (simp_all add: legacy_and_def)
    then show ?thesis using key_inverse new_not_legacy by (auto simp: legacy_and_def)
  qed
  then show ?thesis by (auto simp: adopted_conditions_def [of "cs @ ?a"] filter_empty_conv)
qed

lemma copy_flag: "fst (copyPrefixedMap owned (m, b)) = fst (copyPrefixedMap owned (m, False))"
proof -
  have "fst (fold copy_key ks (m1, b1)) = fst (fold copy_key ks (m1, b2))" for ks m1 b1 b2
  proof (induction ks arbitrary: m1 b1 b2)
    case (Cons k ks)
    show ?case
    proof (cases "map_of m1 (new_key k) \<noteq> None \<or> map_of m1 k = None")
      case True
      then have "copy_key k (m1, b) = (m1, b)" for b by (auto simp: copy_key_def split: option.split)
      then show ?thesis using Cons.IH [of m1 b1 b2] by simp
    next
      case False
      then obtain v where "copy_key k (m1, b) = (gput (new_key k) v m1, True)" for b by (auto simp: copy_key_def)
      then show ?thesis by simp
    qed
  qed simp
  then show ?thesis by (simp add: copyPrefixedMap_def)
qed

lemma adopt_sel:
  "n_Annotations (sn_Node (migrateNodePrefixToNodeWright node)) = fst (copyPrefixedMap isOperatorOwnedAnnotation (n_Annotations (sn_Node node), False))"
  "n_Labels (sn_Node (migrateNodePrefixToNodeWright node)) = fst (copyPrefixedMap isOperatorOwnedLabel (n_Labels (sn_Node node), False))"
  "n_Conditions (sn_Node (migrateNodePrefixToNodeWright node)) = n_Conditions (sn_Node node) @ adopted_conditions (n_Conditions (sn_Node node))"
  "skyhookName (migrateNodePrefixToNodeWright node) = skyhookName node" "nodeState (migrateNodePrefixToNodeWright node) = nodeState node"
proof -
  obtain anns c1 where A: "copyPrefixedMap isOperatorOwnedAnnotation (n_Annotations (sn_Node node), False) = (anns, c1)" by fastforce
  obtain labels c2 where L: "copyPrefixedMap isOperatorOwnedLabel (n_Labels (sn_Node node), c1) = (labels, c2)" by fastforce
  have l: "fst (copyPrefixedMap isOperatorOwnedLabel (n_Labels (sn_Node node), False)) = labels"
    using copy_flag [of isOperatorOwnedLabel "n_Labels (sn_Node node)" c1] by (simp add: L)
  show "n_Annotations (sn_Node (migrateNodePrefixToNodeWright node)) = fst (copyPrefixedMap isOperatorOwnedAnnotation (n_Annotations (sn_Node node), False))"
    "n_Labels (sn_Node (migrateNodePrefixToNodeWright node)) = fst (copyPrefixedMap isOperatorOwnedLabel (n_Labels (sn_Node node), False))"
    "n_Conditions (sn_Node (migrateNodePrefixToNodeWright node)) = n_Conditions (sn_Node node) @ adopted_conditions (n_Conditions (sn_Node node))"
    "skyhookName (migrateNodePrefixToNodeWright node) = skyhookName node" "nodeState (migrateNodePrefixToNodeWright node) = nodeState node"
    by (simp_all add: migrateNodePrefixToNodeWright_def Let_def put_node_def mark_def A L l)
qed

lemma adopt_again: "migrateNodePrefixToNodeWright (migrateNodePrefixToNodeWright node) = migrateNodePrefixToNodeWright node"
proof -
  let ?n = "migrateNodePrefixToNodeWright node"
  have c: "copyPrefixedMap isOperatorOwnedAnnotation (n_Annotations (sn_Node ?n), False) = (n_Annotations (sn_Node ?n), False)"
    "copyPrefixedMap isOperatorOwnedLabel (n_Labels (sn_Node ?n), False) = (n_Labels (sn_Node ?n), False)"
    "adopted_conditions (n_Conditions (sn_Node ?n)) = []"
    unfolding adopt_sel by (rule copy_again copy_again adopted_again)+
  show ?thesis unfolding migrateNodePrefixToNodeWright_def [of ?n] Let_def by (simp add: c put_node_def)
qed

text \<open>
  C38. Adoption is additive.  A key of a node keeps its value, under the old prefix and under the new; a key of the new prefix that is missing gets the value of
  the old key when it is one the operator writes, and no key of a user is copied; the conditions are extended; and a second run
  changes nothing.  So an operator under the old name still finds its state after a rollback.
\<close>

theorem adoption_additive:
  "let node1 = migrateNodePrefixToNodeWright node
   in annotation node1 k =
        (case annotation node k of Some v \<Rightarrow> Some v
         | None \<Rightarrow> if is_new_key k \<and> isOperatorOwnedAnnotation (legacy_suffix (old_key k)) then annotation node (old_key k) else None) \<and>
      map_of (n_Labels (sn_Node node1)) k =
        (case map_of (n_Labels (sn_Node node)) k of Some v \<Rightarrow> Some v
         | None \<Rightarrow> if is_new_key k \<and> isOperatorOwnedLabel (legacy_suffix (old_key k)) then map_of (n_Labels (sn_Node node)) (old_key k) else None) \<and>
      take (length (n_Conditions (sn_Node node))) (n_Conditions (sn_Node node1)) = n_Conditions (sn_Node node) \<and>
      migrateNodePrefixToNodeWright node1 = node1"
  by (simp add: Let_def annotation_def adopt_sel copy_lookup adopt_again split: option.split) (auto simp: annotation_def)

section \<open>Removal\<close>

lemma owned_unique: "ownedByAnnotation a r \<Longrightarrow> ownedByAnnotation b r \<Longrightarrow> a = b" "ownedByLabel a r \<Longrightarrow> ownedByLabel b r \<Longrightarrow> a = b"
  "ownedByCondition a r \<Longrightarrow> ownedByCondition b r \<Longrightarrow> a = b"
  by (auto simp: ownedByAnnotation_def nameScopedAnnotationPrefixes_def ownedByLabel_def ownedByCondition_def append_eq_append_conv2 append_eq_Cons_conv Cons_eq_append_conv)

lemma pruned_node_sel:
  "n_Annotations (sn_Node (fst (pruneLegacyNodePrefix node))) = filter (\<lambda>(k, v). \<not> legacy_and (ownedByAnnotation (skyhookName node)) k) (n_Annotations (sn_Node node))"
  "n_Labels (sn_Node (fst (pruneLegacyNodePrefix node))) = filter (\<lambda>(k, v). \<not> legacy_and (ownedByLabel (skyhookName node)) k) (n_Labels (sn_Node node))"
  "n_Conditions (sn_Node (fst (pruneLegacyNodePrefix node))) = filter (\<lambda>c. \<not> legacy_and (ownedByCondition (skyhookName node)) (nc_Type c)) (n_Conditions (sn_Node node))"
  by (simp_all add: pruneLegacyNodePrefix_def dropPrefixedKeys_def Let_def put_node_def mark_def)

text \<open>
  C39. Removal is scoped.  Pruning the metadata of a resource on a node removes what is under the old prefix for this resource and nothing else: the keys of a user, the keys
  of the new prefix and the old state of every other resource stay.  Afterwards the node has none left for this resource, so that the stamp of
  the rollback window can be cleared, and has as before what it had for another.
\<close>

theorem prune_scoped:
  "let node1 = fst (pruneLegacyNodePrefix node); name = skyhookName node
   in annotation node1 k = (if legacy_and (ownedByAnnotation name) k then None else annotation node k) \<and>
      map_of (n_Labels (sn_Node node1)) k = (if legacy_and (ownedByLabel name) k then None else map_of (n_Labels (sn_Node node)) k) \<and>
      HasOperatorOwnedLegacyMetadata (sn_Node node1) other = (other \<noteq> name \<and> HasOperatorOwnedLegacyMetadata (sn_Node node) other) \<and>
      snd (pruneLegacyNodePrefix node) = HasOperatorOwnedLegacyMetadata (sn_Node node) name"
proof -
  let ?name = "skyhookName node"
  have f: "map_of (filter (\<lambda>(k, v). \<not> legacy_and owned k) m) k = (if legacy_and owned k then None else map_of m k)" for owned and m :: "(string, string) gomap"
    using filter_lookup [of "\<lambda>k. \<not> legacy_and owned k" m k] by simp
  have e: "list_ex (legacy_and q) (gkeys (filter (\<lambda>(k, v). \<not> legacy_and p k) m)) = (\<exists>x \<in> set (gkeys m). legacy_and q x \<and> \<not> legacy_and p x)"
    for p q and m :: "(string, string) gomap" by (force simp: list_ex_iff)
  have e2: "list_ex (\<lambda>c. legacy_and q (nc_Type c)) (filter (\<lambda>c. \<not> legacy_and p (nc_Type c)) cs) =
      (\<exists>c \<in> set cs. legacy_and q (nc_Type c) \<and> \<not> legacy_and p (nc_Type c))" for p q cs by (auto simp: list_ex_iff)
  have "HasOperatorOwnedLegacyMetadata (sn_Node (fst (pruneLegacyNodePrefix node))) other = (other \<noteq> ?name \<and> HasOperatorOwnedLegacyMetadata (sn_Node node) other)"
  proof (cases "other = ?name")
    case True
    then show ?thesis unfolding HasOperatorOwnedLegacyMetadata_def pruned_node_sel e e2 by simp
  next
    case False
    then have d: "legacy_and (ownedByAnnotation other) x \<and> \<not> legacy_and (ownedByAnnotation ?name) x \<longleftrightarrow> legacy_and (ownedByAnnotation other) x"
      "legacy_and (ownedByLabel other) x \<and> \<not> legacy_and (ownedByLabel ?name) x \<longleftrightarrow> legacy_and (ownedByLabel other) x"
      "legacy_and (ownedByCondition other) x \<and> \<not> legacy_and (ownedByCondition ?name) x \<longleftrightarrow> legacy_and (ownedByCondition other) x" for x
      using owned_unique by (auto simp: legacy_and_def)
    show ?thesis unfolding HasOperatorOwnedLegacyMetadata_def pruned_node_sel e e2 unfolding d list_ex_iff using False by blast
  qed
  then show ?thesis by (auto simp: Let_def annotation_def pruned_node_sel f) (auto simp: pruneLegacyNodePrefix_def dropPrefixedKeys_def HasOperatorOwnedLegacyMetadata_def Let_def)
qed

section \<open>A reset inside the rollback window\<close>

lemma legacy_of_meta: "is_new_key (meta_key kind name)" "old_key (meta_key kind name) = LEGACY_PREFIX @ ''/'' @ kind @ ''_'' @ name"
  "legacy_suffix (old_key (meta_key kind name)) = kind @ ''_'' @ name"
  by (auto simp: key_cases old_key_def meta_key_def legacy_suffix_def)

lemma scoped_owned: "kind \<in> {''nodeState'', ''version''} \<Longrightarrow> isOperatorOwnedAnnotation (kind @ ''_'' @ name)"
  by (auto simp: isOperatorOwnedAnnotation_def nameScopedAnnotationPrefixes_def nodeScopedAnnotationPrefixes_def has_prefix_def)

lemma adopted_annotation:
  "annotation node (meta_key kind name) = None \<Longrightarrow> kind \<in> {''nodeState'', ''version''} \<Longrightarrow>
     annotation (migrateNodePrefixToNodeWright node) (meta_key kind name) = annotation node (LEGACY_PREFIX @ ''/'' @ kind @ ''_'' @ name)"
  using scoped_owned [of kind name] by (simp add: annotation_def adopt_sel copy_lookup legacy_of_meta(1,3)) (simp add: legacy_of_meta(2))

lemma reset_sel:
  "annotation (fst (Reset sk node)) k =
     (if k \<in> {cordonAnnotationKey (skyhookName node), drainStartAnnotationKey node, nodeState_key node, status_key node, version_key_node node}
      then None else annotation node k)"
  "nodeState (fst (Reset sk node)) = None" "skyhookName (fst (Reset sk node)) = skyhookName node"
  by (auto simp: Reset_def Let_def mark_def put_node_def del_annotation_def annotation_def delete_conv')

text \<open>
  C40. A reset inside the rollback window is undone.  \<open>Reset\<close>, which a reboot triggers to have the packages applied again, deletes the state and the version
  of the node under the new prefix only.  While the state of the old operator is still kept for a rollback, the next pass takes the missing version
  for a node not yet adopted and copies the old state back, so that the node reads as it was before the migration and the packages it lists
  as complete are not applied again.
\<close>

theorem reset_undone:
  assumes "annotation node (LEGACY_PREFIX @ ''/nodeState_'' @ skyhookName node) = Some old_state" and "unmarshal_state old_state = Some ns"
    and "annotation node (LEGACY_PREFIX @ ''/version_'' @ skyhookName node) = Some old_version" and "old_version \<noteq> []"
    and "MajorMinor old_version \<notin> {[], ''v0.5'', ''v0.6'', ''v0.7''}"
  shows "let node1 = fst (Reset sk node); ((node2, sk2), r) = Node_Migrate VERSION (node1, sk1)
    in Node_State node1 = Inr None \<and> r = Inr () \<and> Node_State node2 = Inr ns \<and> Node_GetVersion node2 = old_version"
proof -
  let ?n = "fst (Reset sk node)" and ?name = "skyhookName node"
  have keys: "nodeState_key ?n = meta_key ''nodeState'' ?name" "version_key_node ?n = meta_key ''version'' ?name"
    by (simp_all add: nodeState_key_def version_key_node_def reset_sel)
  have gone: "annotation ?n (meta_key ''nodeState'' ?name) = None" "annotation ?n (meta_key ''version'' ?name) = None"
    by (simp_all add: reset_sel nodeState_key_def version_key_node_def)
  have kept: "annotation ?n (LEGACY_PREFIX @ k) = annotation node (LEGACY_PREFIX @ k)" for k
    by (simp add: reset_sel cordonAnnotationKey_def drainStartAnnotationKey_def nodeState_key_def status_key_def version_key_node_def meta_key_def
        LEGACY_PREFIX_def METADATA_PREFIX_def)
  let ?m = "migrateNodePrefixToNodeWright ?n"
  have a: "annotation ?m (meta_key ''nodeState'' ?name) = Some old_state" "annotation ?m (meta_key ''version'' ?name) = Some old_version"
    using adopted_annotation [OF gone(1)] adopted_annotation [OF gone(2)] kept assms(1,3) by simp_all
  have k: "nodeState_key ?m = meta_key ''nodeState'' ?name" "version_key_node ?m = meta_key ''version'' ?name"
    by (simp_all add: nodeState_key_def version_key_node_def adopt_sel reset_sel)
  have v: "Node_GetVersion ?n = []" "Node_GetVersion ?m = old_version" by (simp_all add: Node_GetVersion_def keys gone k a)
  have "Node_State ?n = Inr None" "Node_State ?m = Inr ns" using assms(2) by (simp_all add: Node_State_def reset_sel(2) adopt_sel keys gone k a)
  moreover have "Node_Migrate VERSION (?n, sk1) = ((?m, sk1), Inr ())" using v assms(4,5) by (auto simp: Node_Migrate_def Let_def)
  ultimately show ?thesis using v by (simp add: Let_def)
qed

section \<open>Conditions of old releases\<close>

lemma drop_stale_skip:
  "\<forall>i \<in> set is1. \<not> stale_condition name (arr ! i) \<Longrightarrow> drop_stale name (is1 @ is2) arr len = drop_stale name is2 arr len"
  by (induction is1) auto

lemma store_state_conditions: "n_Conditions (sn_Node (fst (store_state ns x))) = n_Conditions (sn_Node (fst x))" "skyhookName (fst (store_state ns x)) = skyhookName (fst x)"
  by (auto simp: store_state_def Let_def SetState_def mark_def put_annotation_def put_node_def split: option.splits prod.splits)

lemma Upsert_conditions: "n_Conditions (sn_Node (fst (Node_Upsert p img st sg n sha x))) = n_Conditions (sn_Node (fst x))"
  "skyhookName (fst (Node_Upsert p img st sg n sha x)) = skyhookName (fst x)"
  by (auto simp: Node_Upsert_def Let_def SetState_def mark_def put_annotation_def put_node_def split: option.splits prod.splits)

lemma migrate_package_conditions:
  "n_Conditions (sn_Node (fst (migrate_package status x))) = n_Conditions (sn_Node (fst x)) \<and> skyhookName (fst (migrate_package status x)) = skyhookName (fst x)"
proof -
  obtain node sk where x: "x = (node, sk)" by (cases x)
  have "n_Conditions (sn_Node a) = n_Conditions (sn_Node node) \<and> skyhookName a = skyhookName node"
    if "Node_Upsert r img st sg n sha (node, Some sk) = (a, b)" for r img st sg n sha a b
    using Upsert_conditions [of r img st sg n sha "(node, Some sk)"] that by simp
  then show ?thesis by (auto simp: x migrate_package_def Let_def store_state_conditions split: prod.splits option.splits)
qed

lemma migrate_packages_conditions:
  "n_Conditions (sn_Node (fst (migrate_packages shared es x))) = n_Conditions (sn_Node (fst x)) \<and> skyhookName (fst (migrate_packages shared es x)) = skyhookName (fst x)"
proof (induction es arbitrary: x)
  case (Cons e es)
  then show ?case using migrate_package_conditions by (cases e; cases shared) (simp_all split: option.split)
qed simp

text \<open>
  Two stale conditions crash the migration.  The loop that removes conditions of old releases goes on over the indices of the list it started with while the list gets
  shorter: when the last two conditions of a node are both of a kind that is no longer valid, the second removal cuts
  beyond the end of the list, whatever comes before them, and the operator panics.
\<close>

theorem stale_conditions_panic:
  assumes "n_Conditions (sn_Node node) = cs @ [c1, c2]" and "stale_condition (skyhookName node) c1" and "stale_condition (skyhookName node) c2"
    and "\<forall>c \<in> set cs. \<not> stale_condition (skyhookName node) c" and "Node_State node = Inr ns"
  shows "snd (migrateNodeTo_0_5_0 (node, sk)) = Inl MigratePanic"
proof -
  obtain node1 sk1 where M: "migrate_packages (nodeState node \<noteq> None) (or_empty ns) (node, sk) = (node1, sk1)" by fastforce
  have f: "n_Conditions (sn_Node node1) = cs @ [c1, c2]" "skyhookName node1 = skyhookName node"
    using migrate_packages_conditions [of "nodeState node \<noteq> None" "or_empty ns" "(node, sk)", unfolded M] assms(1) by simp_all
  let ?n = "length cs" and ?a = "cs @ [c1, c2]"
  have "[0..<length ?a] = [0..<?n] @ [?n, Suc ?n]" by simp
  moreover have "\<forall>i \<in> set [0..<?n]. \<not> stale_condition (skyhookName node) (?a ! i)" using assms(4) by (simp add: nth_append)
  ultimately have "drop_stale (skyhookName node) [0..<length ?a] ?a (length ?a) = drop_stale (skyhookName node) [?n, Suc ?n] ?a (length ?a)"
    by (simp only: drop_stale_skip)
  also have "\<dots> = None" using assms(2,3) by (simp add: nth_append)
  finally show ?thesis using assms(5) M f by (simp add: migrateNodeTo_0_5_0_def Let_def)
qed

section \<open>The workloads of the old operator\<close>

record owner_ref =
  or_APIVersion :: string
  or_Kind :: string
  or_Name :: string
  or_UID :: string
  or_Controller :: bool

record labelled_map =
  lc_Name :: string
  lc_Labels :: "(string, string) gomap"
  lc_Owners :: "owner_ref list"

text \<open>Whether two references name one object: group, kind and name; \<open>SetControllerReference\<close> refuses an object that another one controls.\<close>

definition group_of :: "string \<Rightarrow> string option" where
  "group_of v = (case split_on CHR ''/'' v of [w] \<Rightarrow> Some [] | [g, w] \<Rightarrow> Some g | _ \<Rightarrow> None)"

definition referSameObject :: "owner_ref \<Rightarrow> owner_ref \<Rightarrow> bool" where
  "referSameObject a b \<longleftrightarrow>
     group_of (or_APIVersion a) \<noteq> None \<and> group_of (or_APIVersion a) = group_of (or_APIVersion b) \<and> or_Kind a = or_Kind b \<and> or_Name a = or_Name b"

fun upsertOwnerRef :: "owner_ref \<Rightarrow> owner_ref list \<Rightarrow> owner_ref list" where
  "upsertOwnerRef ref [] = [ref]"
| "upsertOwnerRef ref (r # rs) = (if referSameObject r ref then ref # rs else r # upsertOwnerRef ref rs)"

definition SetControllerReference :: "NodeWright \<Rightarrow> owner_ref list \<Rightarrow> owner_ref list option" where
  "SetControllerReference nw owners =
     (let ref = \<lparr>or_APIVersion = GroupVersion, or_Kind = ''NodeWright'', or_Name = nw_Name nw, or_UID = nw_UID nw, or_Controller = True\<rparr>
      in case List.find or_Controller owners of
           Some existing \<Rightarrow> if referSameObject existing ref then Some (upsertOwnerRef ref owners) else None
         | None \<Rightarrow> Some (upsertOwnerRef ref owners))"

definition reparentToNodeWright :: "NodeWright \<Rightarrow> labelled_map \<Rightarrow> labelled_map \<times> bool" where
  "reparentToNodeWright nw cm =
     (let kept = filter (\<lambda>r. \<not> has_prefix (or_APIVersion r) (LEGACY_PREFIX @ ''/'')) (lc_Owners cm);
          dropped = (length kept < length (lc_Owners cm)); cm1 = cm\<lparr>lc_Owners := kept\<rparr>;
          controlled = (case List.find or_Controller kept of None \<Rightarrow> False | Some r \<Rightarrow> or_UID r = nw_UID nw)
      in if \<not> dropped \<and> controlled then (cm1, False)
         else (case SetControllerReference nw kept of
                 None \<Rightarrow> (cm1, dropped)
               | Some owners \<Rightarrow> (cm\<lparr>lc_Owners := owners\<rparr>, True)))"

definition addNodeWrightMetaLabel :: "(string, string) gomap \<Rightarrow> (string, string) gomap \<times> bool" where
  "addNodeWrightMetaLabel labels = copyPrefixedMap (\<lambda>_. True) (labels, False)"

definition relabelLegacyMetadataPrefix :: "(string, string) gomap \<Rightarrow> (string, string) gomap \<times> bool" where
  "relabelLegacyMetadataPrefix labels =
     (fold (\<lambda>(k, v) m. if is_legacy_key k then gput (new_key k) v (gdel k m) else m) labels labels, list_ex is_legacy_key (gkeys labels))"

text \<open>A pod that is being deleted is taken to be gone at once; the config maps are kept by name.\<close>

record migrate_world =
  mw_pass :: pass_world
  mw_pods :: "(string, (string, string) gomap) gomap"
  mw_maps :: "labelled_map list"
  mw_resources :: "(string, NodeWright) gomap"

record migrate_env =
  mg_VERSION :: string
  mg_now :: int
  mg_zone :: int
  mg_delay :: int
  mg_original :: "string \<Rightarrow> Node"
  mg_node :: "string \<Rightarrow> api_env"
  mg_node_status :: "string \<Rightarrow> Node \<Rightarrow> Node \<Rightarrow> Node \<Rightarrow> Node option"
  mg_pods_listed :: bool
  mg_pod_deleted :: "string \<Rightarrow> bool"
  mg_maps_listed :: "string \<Rightarrow> bool"
  mg_map_updated :: "string \<Rightarrow> bool"
  mg_status_update :: "NodeWright \<Rightarrow> NodeWright option"
  mg_lookup_ok :: "string \<Rightarrow> bool"
  mg_patched :: "string \<Rightarrow> bool"

datatype migrations_error =
    MigrateFailed migrate_error
  | Invalid
  | PodsUnlisted
  | PodNotDeleted string
  | MapsNotListed string
  | MapNotUpdated string
  | StatusNotUpdated
  | ResourceNotRead
  | ResourceNotPatched
  | NodesNotPatched "string list"
  | MigrationsPanic

definition legacyNodeMetaLabel :: string where
  "legacyNodeMetaLabel = LEGACY_PREFIX @ ''/skyhook-node-meta''"

definition legacyNameLabel :: string where
  "legacyNameLabel = LEGACY_PREFIX @ ''/name''"

definition legacyCleanupShouldPrune :: "string \<Rightarrow> int \<Rightarrow> int \<Rightarrow> bool" where
  "legacyCleanupShouldPrune stamp delay now =
     (if delay \<le> 0 then True
      else if stamp = [] then False
      else (case parse_time stamp of None \<Rightarrow> True | Some t \<Rightarrow> \<not> now < t + delay))"

fun delete_pods :: "migrate_env \<Rightarrow> string list \<Rightarrow> migrate_world \<Rightarrow> migrate_world \<times> (migrations_error + unit)" where
  "delete_pods env [] w = (w, Inr ())"
| "delete_pods env (p # ps) w =
     (if mg_pod_deleted env p then delete_pods env ps (w\<lparr>mw_pods := gdel p (mw_pods w)\<rparr>) else (w, Inl (PodNotDeleted p)))"

definition put_map :: "labelled_map \<Rightarrow> labelled_map list \<Rightarrow> labelled_map list" where
  "put_map cm cms = map (\<lambda>c. if lc_Name c = lc_Name cm then cm else c) cms"

fun convert_maps ::
  "migrate_env \<Rightarrow> NodeWright \<Rightarrow> bool \<Rightarrow> labelled_map list \<Rightarrow> string list \<times> bool \<Rightarrow> migrate_world \<Rightarrow>
   migrate_world \<times> (migrations_error + string list \<times> bool)" where
  "convert_maps env nw prune [] acc w = (w, Inr acc)"
| "convert_maps env nw prune (cm # cms) acc w =
     (let (seen, changed) = acc
      in if lc_Name cm \<in> set seen then convert_maps env nw prune cms acc w
         else
           (let (cm1, reparented) = reparentToNodeWright nw cm;
                (labels, relabelled) = (if prune then relabelLegacyMetadataPrefix (lc_Labels cm1) else addNodeWrightMetaLabel (lc_Labels cm1));
                seen1 = lc_Name cm # seen
            in if relabelled \<or> reparented
               then if mg_map_updated env (lc_Name cm)
                    then convert_maps env nw prune cms (seen1, True) (w\<lparr>mw_maps := put_map (cm1\<lparr>lc_Labels := labels\<rparr>) (mw_maps w)\<rparr>)
                    else (w, Inl (MapNotUpdated (lc_Name cm)))
               else convert_maps env nw prune cms (seen1, changed) w))"

fun convert_by_label ::
  "migrate_env \<Rightarrow> NodeWright \<Rightarrow> bool \<Rightarrow> string list \<Rightarrow> string list \<times> bool \<Rightarrow> migrate_world \<Rightarrow>
   migrate_world \<times> (migrations_error + string list \<times> bool)" where
  "convert_by_label env nw prune [] acc w = (w, Inr acc)"
| "convert_by_label env nw prune (key # keys) acc w =
     (if \<not> mg_maps_listed env key then (w, Inl (MapsNotListed key))
      else
        (case convert_maps env nw prune (filter (\<lambda>c. map_of (lc_Labels c) key = Some (nw_Name nw)) (mw_maps w)) acc w of
           (w1, Inl e) \<Rightarrow> (w1, Inl e)
         | (w1, Inr acc1) \<Rightarrow> convert_by_label env nw prune keys acc1 w1))"

definition reconcileLegacyLabeledWorkloads :: "migrate_env \<Rightarrow> NodeWright \<Rightarrow> bool \<Rightarrow> migrate_world \<Rightarrow> migrate_world \<times> (migrations_error + bool \<times> bool)" where
  "reconcileLegacyLabeledWorkloads env nw prune w =
     (let pods = gkeys (filter (\<lambda>(p, labels). map_of labels legacyNameLabel = Some (nw_Name nw)) (mw_pods w))
      in if \<not> mg_pods_listed env then (w, Inl PodsUnlisted)
         else
           (case (if prune then delete_pods env pods w else (w, Inr ())) of
              (w1, Inl e) \<Rightarrow> (w1, Inl e)
            | (w1, Inr _) \<Rightarrow>
                (case convert_by_label env nw prune [legacyNodeMetaLabel, legacyNameLabel] ([], prune \<and> pods \<noteq> []) w1 of
                   (w2, Inl e) \<Rightarrow> (w2, Inl e)
                 | (w2, Inr (seen, changed)) \<Rightarrow> (w2, Inr (pods \<noteq> [] \<or> seen \<noteq> [], changed)))))"

section \<open>The handler\<close>

definition anyNodeHasLegacyMetadata :: "cnode list \<Rightarrow> string \<Rightarrow> bool" where
  "anyNodeHasLegacyMetadata cs name = list_ex (\<lambda>c. HasOperatorOwnedLegacyMetadata (sn_Node (cn_node c)) name) cs"

definition stamp_of :: "NodeWright \<Rightarrow> string" where
  "stamp_of nw = (case map_of (or_empty (nw_Annotations nw)) legacyMigratedAtAnnotation of None \<Rightarrow> [] | Some v \<Rightarrow> v)"

text \<open>A resource that is not found is nil for the caller, which then fails on it.\<close>

definition patchLegacyMigratedStamp :: "migrate_env \<Rightarrow> string \<Rightarrow> string option \<Rightarrow> migrate_world \<Rightarrow> migrate_world \<times> (migrations_error + unit)" where
  "patchLegacyMigratedStamp env name value w =
     (if \<not> mg_lookup_ok env name then (w, Inl ResourceNotRead)
      else
        (case map_of (mw_resources w) name of
           None \<Rightarrow> (w, Inl MigrationsPanic)
         | Some nw \<Rightarrow>
             (case (value, nw_Annotations nw) of
                (None, None) \<Rightarrow> (w, Inr ())
              | (None, Some m) \<Rightarrow>
                  if mg_patched env name
                  then (w\<lparr>mw_resources := gput name (nw\<lparr>nw_Annotations := Some (gdel legacyMigratedAtAnnotation m)\<rparr>) (mw_resources w)\<rparr>, Inr ())
                  else (w, Inl ResourceNotPatched)
              | (Some v, m) \<Rightarrow>
                  if mg_patched env name
                  then (w\<lparr>mw_resources := gput name (nw\<lparr>nw_Annotations := Some (gput legacyMigratedAtAnnotation v (or_empty m))\<rparr>) (mw_resources w)\<rparr>, Inr ())
                  else (w, Inl ResourceNotPatched))))"

definition reconcileLegacyMigratedStamp ::
  "migrate_env \<Rightarrow> skyhookNodes \<Rightarrow> bool \<Rightarrow> bool \<Rightarrow> migrate_world \<Rightarrow> migrate_world \<times> (migrations_error + bool)" where
  "reconcileLegacyMigratedStamp env s prune hadWorkloads w =
     (let stamp = stamp_of (sk_NodeWright (sh_skyhook s)); name = sh_Name s; had = (hadWorkloads \<or> anyNodeHasLegacyMetadata (sh_nodes s) name);
          run = (\<lambda>value. case patchLegacyMigratedStamp env name value w of (w1, Inl e) \<Rightarrow> (w1, Inl e) | (w1, Inr _) \<Rightarrow> (w1, Inr True))
      in if prune then (if stamp \<noteq> [] \<and> \<not> had then run None else (w, Inr False))
         else if stamp = [] \<and> had then run (Some (format_time (mg_zone env) (mg_now env div 1000000000 * 1000000000)))
         else (w, Inr False))"

definition migrate_save_node :: "migrate_env \<Rightarrow> string \<Rightarrow> skyhookNodes \<times> migrate_world \<times> bool \<times> string list \<Rightarrow> skyhookNodes \<times> migrate_world \<times> bool \<times> string list" where
  "migrate_save_node env name acc =
     (let (s, w, updates, errs) = acc
      in case find_node s name of
           None \<Rightarrow> acc
         | Some c \<Rightarrow>
             if \<not> sn_updated (cn_node c) then acc
             else
               (let node = cn_node c; pw = mw_pass w;
                    answer = (case map_of (pw_nodes pw) name of None \<Rightarrow> None
                              | Some (current, v) \<Rightarrow> map_option (\<lambda>n. (n, Suc v)) (mg_node_status env name (mg_original env name) (sn_Node node) current));
                    (pw1, node1, errs1) = (case answer of None \<Rightarrow> (pw, node, errs @ [name])
                                           | Some (n, v) \<Rightarrow> (store_node name (Some (n, v)) pw, node\<lparr>sn_Node := n\<rparr>, errs))
                in case open_patch (mg_node env name) (mg_original env name) (sn_Node node1) (map_of (pw_nodes pw1) name) of
                     (server, Inl e) \<Rightarrow> (put_cnode name node1 s, w\<lparr>mw_pass := store_node name server pw1\<rparr>, True, errs1 @ [name])
                   | (server, Inr stored) \<Rightarrow> (put_cnode name (node1\<lparr>sn_Node := stored\<rparr>) s, w\<lparr>mw_pass := store_node name server pw1\<rparr>, True, errs1)))"

definition migrate_save_resource :: "migrate_env \<Rightarrow> skyhookNodes \<Rightarrow> migrate_world \<Rightarrow> (skyhookNodes \<times> migrate_world) \<times> (migrations_error + bool)" where
  "migrate_save_resource env s w =
     (if \<not> Updated (sh_skyhook s) then ((s, w), Inr False)
      else
        (case mg_status_update env (sk_NodeWright (sh_skyhook s)) of
           None \<Rightarrow> ((s, w), Inl StatusNotUpdated)
         | Some nw \<Rightarrow>
             (let s1 = put_skyhook (\<lambda>k. k\<lparr>sk_NodeWright := nw\<rparr>) s; name = sh_Name s
              in if \<not> mg_lookup_ok env name then ((s1, w), Inl ResourceNotRead)
                 else
                   (case map_of (mw_resources w) name of
                      None \<Rightarrow> ((s1, w), Inl MigrationsPanic)
                    | Some fresh \<Rightarrow>
                        if mg_patched env name
                        then ((s1, w\<lparr>mw_resources := gput name (sk_NodeWright (Skyhook_SetVersion (mg_VERSION env) (NewSkyhookWrapper fresh))) (mw_resources w)\<rparr>), Inr True)
                        else ((s1, w), Inl ResourceNotPatched)))))"

definition handle_migration ::
  "migrate_env \<Rightarrow> skyhookNodes \<times> migrate_world \<times> bool \<times> string list \<Rightarrow> (skyhookNodes \<times> migrate_world) \<times> (migrations_error + bool \<times> string list)" where
  "handle_migration env st =
     (let (s, w, updates, errs) = st
      in case skyhookNodes_Migrate (mg_VERSION env) s of
           (s1, Inl e) \<Rightarrow> ((s1, w), Inl (MigrateFailed e))
         | (s1, Inr _) \<Rightarrow>
             if NodeWright_Validate (sk_NodeWright (sh_skyhook s1)) \<noteq> Inr () then ((s1, w), Inl Invalid)
             else
               (let prune = legacyCleanupShouldPrune (stamp_of (sk_NodeWright (sh_skyhook s1))) (mg_delay env) (mg_now env);
                    s2 = (if prune then s1\<lparr>sh_nodes := map (\<lambda>c. c\<lparr>cn_node := fst (pruneLegacyNodePrefix (cn_node c))\<rparr>) (sh_nodes s1)\<rparr> else s1);
                    (s3, w3, updates3, errs3) = fold (migrate_save_node env) (map cn_Name (sh_nodes s2)) (s2, w, updates, errs)
                in case reconcileLegacyLabeledWorkloads env (sk_NodeWright (sh_skyhook s3)) prune w3 of
                     (w4, Inl e) \<Rightarrow> ((s3, w4), Inl e)
                   | (w4, Inr (had, changed)) \<Rightarrow>
                       (case migrate_save_resource env s3 w4 of
                          (x, Inl e) \<Rightarrow> (x, Inl e)
                        | ((s5, w5), Inr saved) \<Rightarrow>
                            (case reconcileLegacyMigratedStamp env s5 prune had w5 of
                               (w6, Inl e) \<Rightarrow> ((s5, w6), Inl e)
                             | (w6, Inr stamped) \<Rightarrow> ((s5, w6), Inr (updates3 \<or> changed \<or> saved \<or> stamped, errs3))))))"

fun handle_migrations ::
  "migrate_env \<Rightarrow> skyhookNodes list \<Rightarrow> migrate_world \<times> bool \<times> string list \<Rightarrow> (skyhookNodes list \<times> migrate_world) \<times> (migrations_error + bool)" where
  "handle_migrations env [] acc =
     (let (w, updates, errs) = acc in (([], w), if errs \<noteq> [] then Inl (NodesNotPatched errs) else Inr updates))"
| "handle_migrations env (s # ss) acc =
     (case handle_migration env (s, acc) of
        ((s1, w1), Inl e) \<Rightarrow> ((s1 # ss, w1), Inl e)
      | ((s1, w1), Inr (updates, errs)) \<Rightarrow>
          (case handle_migrations env ss (w1, updates, errs) of ((ss1, w2), r) \<Rightarrow> ((s1 # ss1, w2), r)))"

definition HandleMigrations :: "migrate_env \<Rightarrow> skyhookNodes list \<Rightarrow> migrate_world \<Rightarrow> (skyhookNodes list \<times> migrate_world) \<times> (migrations_error + bool)" where
  "HandleMigrations env ss w = (if mg_VERSION env = [] then ((ss, w), Inr False) else handle_migrations env ss (w, False, []))"

section \<open>The rollback window\<close>

definition keeps_labels :: "labelled_map \<Rightarrow> labelled_map \<Rightarrow> bool" where
  "keeps_labels a b \<longleftrightarrow> lc_Name b = lc_Name a \<and> map_of (lc_Labels a) \<subseteq>\<^sub>m map_of (lc_Labels b)"

lemma keeps_labels_refl: "list_all2 keeps_labels cms cms"
  by (simp add: keeps_labels_def list_all2_same)

lemma keeps_labels_trans: "list_all2 keeps_labels a b \<Longrightarrow> list_all2 keeps_labels b c \<Longrightarrow> list_all2 keeps_labels a c"
  by (rule list_all2_trans [of keeps_labels keeps_labels keeps_labels]) (auto simp: keeps_labels_def intro: map_le_trans)

lemma keeps_names: "list_all2 keeps_labels a b \<Longrightarrow> map lc_Name b = map lc_Name a"
  by (induction rule: list_all2_induct) (auto simp: keeps_labels_def)

lemma put_map_keeps:
  "distinct (map lc_Name cms) \<Longrightarrow> cm \<in> set cms \<Longrightarrow> keeps_labels cm cm1 \<Longrightarrow> list_all2 keeps_labels cms (put_map cm1 cms)"
proof (induction cms)
  case (Cons c cms)
  have other: "put_map cm1 cms = cms" if away: "lc_Name cm1 \<notin> set (map lc_Name cms)"
  proof -
    have "lc_Name d \<noteq> lc_Name cm1" if "d \<in> set cms" for d
    proof
      assume "lc_Name d = lc_Name cm1"
      then have "lc_Name cm1 \<in> set (map lc_Name cms)" using that by (metis imageI set_map)
      with away show False by simp
    qed
    then show ?thesis unfolding put_map_def by (intro map_idI) simp
  qed
  show ?case
  proof (cases "c = cm")
    case True
    then have "lc_Name cm1 = lc_Name c" "lc_Name cm1 \<notin> set (map lc_Name cms)" using Cons.prems(1,3) by (auto simp: keeps_labels_def)
    then have "put_map cm1 (c # cms) = cm1 # cms" using other by (simp add: put_map_def)
    then show ?thesis using Cons.prems(3) keeps_labels_refl True by simp
  next
    case False
    then have "cm \<in> set cms" "lc_Name c \<noteq> lc_Name cm1" using Cons.prems by (auto simp: keeps_labels_def)
    then show ?thesis using Cons by (simp add: put_map_def keeps_labels_def)
  qed
qed simp

lemma converge_labels: "lc_Labels (fst (reparentToNodeWright nw cm)) = lc_Labels cm" "lc_Name (fst (reparentToNodeWright nw cm)) = lc_Name cm"
  "map_of m \<subseteq>\<^sub>m map_of (fst (addNodeWrightMetaLabel m))"
  by (auto simp: reparentToNodeWright_def Let_def addNodeWrightMetaLabel_def copy_lookup map_le_def split: option.split)

lemma convert_maps_keep:
  "convert_maps env nw False cms acc w = (w', r) \<Longrightarrow> distinct (map lc_Name (mw_maps w)) \<Longrightarrow> distinct (map lc_Name cms) \<Longrightarrow> set cms \<subseteq> set (mw_maps w) \<Longrightarrow>
     list_all2 keeps_labels (mw_maps w) (mw_maps w') \<and> mw_pods w' = mw_pods w"
proof (induction cms arbitrary: acc w)
  case (Cons cm cms)
  obtain seen changed where acc: "acc = (seen, changed)" by (cases acc)
  obtain cm1 reparented where P: "reparentToNodeWright nw cm = (cm1, reparented)" by fastforce
  obtain labels relabelled where L: "addNodeWrightMetaLabel (lc_Labels cm1) = (labels, relabelled)" by fastforce
  let ?w = "w\<lparr>mw_maps := put_map (cm1\<lparr>lc_Labels := labels\<rparr>) (mw_maps w)\<rparr>"
  have keep: "keeps_labels cm (cm1\<lparr>lc_Labels := labels\<rparr>)"
    using converge_labels(1,2) [of nw cm, unfolded P] converge_labels(3) [of "lc_Labels cm1", unfolded L] by (simp add: keeps_labels_def)
  have step: "list_all2 keeps_labels (mw_maps w) (mw_maps ?w)" using put_map_keeps [OF Cons.prems(2) _ keep] Cons.prems(4) by simp
  have rest: "set cms \<subseteq> set (mw_maps ?w)" "distinct (map lc_Name (mw_maps ?w))"
  proof -
    have "c \<in> set (put_map (cm1\<lparr>lc_Labels := labels\<rparr>) (mw_maps w))" if "c \<in> set cms" for c
    proof -
      have "lc_Name c \<in> lc_Name ` set cms" using that by (rule imageI)
      moreover have "lc_Name cm \<notin> lc_Name ` set cms" using Cons.prems(3) by simp
      ultimately have "lc_Name c \<noteq> lc_Name cm" by metis
      moreover have "c \<in> set (mw_maps w)" using that Cons.prems(4) by auto
      ultimately show ?thesis using keep by (force simp: put_map_def keeps_labels_def)
    qed
    then show "set cms \<subseteq> set (mw_maps ?w)" by auto
    show "distinct (map lc_Name (mw_maps ?w))" using keeps_names [OF step] Cons.prems(2) by simp
  qed
  have go: "list_all2 keeps_labels (mw_maps w) (mw_maps w') \<and> mw_pods w' = mw_pods w"
    if "convert_maps env nw False cms a ?w = (w', r)" for a
    using Cons.IH [OF that rest(2) _ rest(1)] Cons.prems(3) keeps_labels_trans [OF step] by simp
  have stay: "list_all2 keeps_labels (mw_maps w) (mw_maps w') \<and> mw_pods w' = mw_pods w"
    if "convert_maps env nw False cms a w = (w', r)" for a
    using Cons.IH [OF that] Cons.prems(2-4) by simp
  show ?case using Cons.prems(1) go stay keeps_labels_refl by (auto simp: acc P L Let_def split: if_splits)
qed (simp add: keeps_labels_refl)

lemma convert_by_label_keep:
  "convert_by_label env nw False keys acc w = (w', r) \<Longrightarrow> distinct (map lc_Name (mw_maps w)) \<Longrightarrow>
     list_all2 keeps_labels (mw_maps w) (mw_maps w') \<and> mw_pods w' = mw_pods w"
proof (induction keys arbitrary: acc w)
  case (Cons key keys)
  show ?case
  proof (cases "mg_maps_listed env key")
    case True
    let ?l = "filter (\<lambda>c. map_of (lc_Labels c) key = Some (nw_Name nw)) (mw_maps w)"
    obtain w1 q where C: "convert_maps env nw False ?l acc w = (w1, q)" by fastforce
    have "distinct (map lc_Name ?l)" using Cons.prems(2) by (simp add: distinct_map_filter)
    with convert_maps_keep [OF C Cons.prems(2)] have k: "list_all2 keeps_labels (mw_maps w) (mw_maps w1)" "mw_pods w1 = mw_pods w" by auto
    have d: "distinct (map lc_Name (mw_maps w1))" using keeps_names [OF k(1)] Cons.prems(2) by simp
    show ?thesis
    proof (cases q)
      case (Inl e)
      then show ?thesis using Cons.prems(1) k True by (simp add: C)
    next
      case (Inr a)
      then have "convert_by_label env nw False keys a w1 = (w', r)" using Cons.prems(1) True by (simp add: C)
      from Cons.IH [OF this d] show ?thesis using k keeps_labels_trans by auto
    qed
  qed (use Cons.prems in \<open>simp add: keeps_labels_refl\<close>)
qed (simp add: keeps_labels_refl)

lemma workloads_keep:
  assumes "reconcileLegacyLabeledWorkloads env nw False w = (w', r)" and "distinct (map lc_Name (mw_maps w))"
  shows "list_all2 keeps_labels (mw_maps w) (mw_maps w') \<and> mw_pods w' = mw_pods w"
proof -
  obtain w2 q where C: "convert_by_label env nw False [legacyNodeMetaLabel, legacyNameLabel] ([], False) w = (w2, q)" by fastforce
  show ?thesis using assms(1) convert_by_label_keep [OF C assms(2)] keeps_labels_refl
    by (auto simp: reconcileLegacyLabeledWorkloads_def C Let_def simp del: convert_by_label.simps split: if_splits sum.splits prod.splits)
qed

lemma save_frame:
  "mw_maps (fst (snd (fold (migrate_save_node env) names (s, w, u, errs)))) = mw_maps w \<and>
   mw_pods (fst (snd (fold (migrate_save_node env) names (s, w, u, errs)))) = mw_pods w"
proof (induction names arbitrary: s w u errs)
  case (Cons name names)
  obtain s1 w1 u1 errs1 where M: "migrate_save_node env name (s, w, u, errs) = (s1, w1, u1, errs1)" by (metis prod_cases4)
  have "mw_maps w1 = mw_maps w \<and> mw_pods w1 = mw_pods w"
    using M by (auto simp: migrate_save_node_def Let_def split: option.splits prod.splits if_splits sum.splits)
  then show ?case using Cons.IH [of s1 w1 u1 errs1] by (simp add: M)
qed simp

lemma resource_frame: "migrate_save_resource env s w = ((s', w'), r) \<Longrightarrow> mw_maps w' = mw_maps w \<and> mw_pods w' = mw_pods w"
  by (auto simp: migrate_save_resource_def Let_def split: if_splits option.splits)

lemma stamp_frame: "reconcileLegacyMigratedStamp env s prune had w = (w', r) \<Longrightarrow> mw_maps w' = mw_maps w \<and> mw_pods w' = mw_pods w"
  by (auto simp: reconcileLegacyMigratedStamp_def patchLegacyMigratedStamp_def Let_def split: if_splits option.splits sum.splits prod.splits)

lemma annotations_put_status [simp]: "nw_Annotations (sk_NodeWright (put_status f sk)) = nw_Annotations (sk_NodeWright sk)"
  "nw_Annotations (sk_NodeWright (touch sk)) = nw_Annotations (sk_NodeWright sk)"
  by (simp_all add: put_status_def touch_def)

lemma annotations_SetNodeState [simp]: "nw_Annotations (sk_NodeWright (SetNodeState n ns sk)) = nw_Annotations (sk_NodeWright sk)"
  by (simp add: SetNodeState_def Let_def)

lemma annotations_migrate_package: "nw_Annotations (sk_NodeWright (snd (migrate_package status x))) = nw_Annotations (sk_NodeWright (snd x))"
proof -
  obtain node sk where x: "x = (node, sk)" by (cases x)
  have "\<exists>k. b = Some k \<and> nw_Annotations (sk_NodeWright k) = nw_Annotations (sk_NodeWright sk)"
    if "Node_Upsert r img st sg n sha (node, Some sk) = (a, b)" for r img st sg n sha a b
    using that by (auto simp: Node_Upsert_def Let_def split: prod.splits if_splits)
  then show ?thesis by (fastforce simp: x migrate_package_def store_state_def Let_def split: prod.splits option.splits)
qed

lemma annotations_Node_Migrate: "nw_Annotations (sk_NodeWright (snd (fst (Node_Migrate VERSION x)))) = nw_Annotations (sk_NodeWright (snd x))"
proof -
  have p: "nw_Annotations (sk_NodeWright (snd (migrate_packages shared es y))) = nw_Annotations (sk_NodeWright (snd y))" for shared es y
    by (induction shared es y rule: migrate_packages.induct) (auto simp: annotations_migrate_package split: option.splits if_splits)
  have m: "nw_Annotations (sk_NodeWright (snd (fst (migrateNodeTo_0_5_0 y)))) = nw_Annotations (sk_NodeWright (snd y))" for y
  proof (cases "Node_State (fst y)")
    case (Inr ns)
    obtain node1 sk1 where M: "migrate_packages (nodeState (fst y) \<noteq> None) (or_empty ns) y = (node1, sk1)" by fastforce
    have "nw_Annotations (sk_NodeWright sk1) = nw_Annotations (sk_NodeWright (snd y))"
      using p [of "nodeState (fst y) \<noteq> None" "or_empty ns" y, unfolded M] by simp
    then show ?thesis unfolding migrateNodeTo_0_5_0_def Inr sum.case M Let_def by (simp split: option.split prod.split)
  qed (simp add: migrateNodeTo_0_5_0_def)
  obtain node sk where x: "x = (node, sk)" by (cases x)
  define n where "n = (if Node_GetVersion node = [] then migrateNodePrefixToNodeWright node else node)"
  obtain node2 sk2 r where M: "migrateNodeTo_0_5_0 (n, sk) = ((node2, sk2), r)" by (metis prod.collapse)
  have "nw_Annotations (sk_NodeWright sk2) = nw_Annotations (sk_NodeWright sk)" using m [of "(n, sk)", unfolded M] by simp
  then show ?thesis unfolding x Node_Migrate_def Let_def n_def [symmetric] prod.case M by (simp split: sum.split)
qed

abbreviation sk_ann :: "Skyhook \<Rightarrow> (string, string) gomap option" where
  "sk_ann k \<equiv> nw_Annotations (sk_NodeWright k)"

lemma annotations_put: "sk_ann (f (sh_skyhook s)) = sk_ann (sh_skyhook s) \<Longrightarrow> sk_ann (sh_skyhook (put_skyhook f s)) = sk_ann (sh_skyhook s)"
  by (simp add: put_skyhook_def)

lemma annotations_fold: "(\<And>x k. sk_ann (f x k) = sk_ann k) \<Longrightarrow> sk_ann (fold f xs k) = sk_ann k"
  by (induction xs arbitrary: k) simp_all

lemma annotations_RemoveNodePriority: "sk_ann (RemoveNodePriority n k) = sk_ann k"
  by (simp add: RemoveNodePriority_def Let_def split: option.split)

lemma annotations_cleanup: "sk_ann (sh_skyhook (CleanupRemovedNodes s)) = sk_ann (sh_skyhook s)"
  by (simp add: CleanupRemovedNodes_def Let_def annotations_fold annotations_RemoveNodePriority split: prod.split)

lemma annotations_update: "sk_ann (sh_skyhook (updateCompartmentStatuses s)) = sk_ann (sh_skyhook s)"
proof -
  let ?f = "\<lambda>(name, w) k.
            let newStatus = buildCompartmentStatus (sh_skyhook s) (deref s w)
            in case map_of (or_empty (CompartmentStatuses (sk_Status k))) name of
                 Some existing \<Rightarrow> if compartmentStatusEqual existing newStatus then k else put_compartment_status name newStatus k
               | None \<Rightarrow> put_compartment_status name newStatus k"
  have "sk_ann (?f x k) = sk_ann k" for x k by (simp add: Let_def put_compartment_status_def split: option.split prod.split)
  from annotations_fold [of ?f, OF this] show ?thesis by (simp add: updateCompartmentStatuses_def put_skyhook_def)
qed

lemma annotations_stale: "sk_ann (sh_skyhook (cleanupStaleCompartmentStatuses s)) = sk_ann (sh_skyhook s)"
  by (simp add: cleanupStaleCompartmentStatuses_def Let_def put_skyhook_def split: option.split)

lemma annotations_ReportState: "sk_ann (sh_skyhook (ReportState s)) = sk_ann (sh_skyhook s)"
proof -
  have p: "sk_ann (sh_skyhook (put_skyhook (SetCompleteNodes c) t)) = sk_ann (sh_skyhook t)"
    "sk_ann (sh_skyhook (put_skyhook (SetNodesInProgress i) t)) = sk_ann (sh_skyhook t)"
    "sk_ann (sh_skyhook (put_skyhook (SetPackageList c) t)) = sk_ann (sh_skyhook t)" for c i t
    by (rule annotations_put; simp add: SetCompleteNodes_def SetNodesInProgress_def SetPackageList_def)+
  show ?thesis unfolding ReportState_def Let_def by (simp only: p if_distrib [of "\<lambda>t. sk_ann (sh_skyhook t)"] annotations_stale annotations_update annotations_cleanup if_cancel)
qed

lemma annotations_migrate_nodes: "migrate_nodes VERSION names s = (s', r) \<Longrightarrow> sk_ann (sh_skyhook s') = sk_ann (sh_skyhook s)"
proof (induction names arbitrary: s)
  case (Cons name names)
  show ?case
  proof (cases "find_node s name")
    case (Some c)
    obtain node sk q where M: "Node_Migrate VERSION (cn_node c, (sh_skyhook s)\<lparr>Updated := cn_Updated c\<rparr>) = ((node, sk), q)" by (metis prod.collapse)
    let ?s = "on_node (\<lambda>_. (node, Some sk)) name s"
    have "sk_ann sk = sk_ann (sh_skyhook s)"
      using annotations_Node_Migrate [of VERSION "(cn_node c, (sh_skyhook s)\<lparr>Updated := cn_Updated c\<rparr>)", unfolded M] by simp
    then have "sk_ann (sh_skyhook ?s) = sk_ann (sh_skyhook s)" by (simp add: on_node_def Some)
    then show ?thesis using Cons Some by (auto simp: M Let_def split: if_splits sum.splits)
  qed (use Cons in simp)
qed simp

lemma migrate_stamp: "skyhookNodes_Migrate VERSION s = (s', r) \<Longrightarrow> stamp_of (sk_NodeWright (sh_skyhook s')) = stamp_of (sk_NodeWright (sh_skyhook s))"
proof -
  assume M: "skyhookNodes_Migrate VERSION s = (s', r)"
  obtain s1 q where N: "migrate_nodes VERSION (map cn_Name (sh_nodes s)) s = (s1, q)" by fastforce
  have ne: "version_key_sk \<noteq> legacyMigratedAtAnnotation" by (simp add: version_key_sk_def legacyMigratedAtAnnotation_def)
  have st: "stamp_of a = stamp_of b" if "nw_Annotations a = nw_Annotations b" for a b using that by (simp add: stamp_of_def)
  have v: "stamp_of (sk_NodeWright (Skyhook_Migrate VERSION k)) = stamp_of (sk_NodeWright k)" for k
    using ne by (auto simp: Skyhook_Migrate_def Skyhook_SetVersion_def Let_def stamp_of_def touch_def)
  have "stamp_of (sk_NodeWright (sh_skyhook s1)) = stamp_of (sk_NodeWright (sh_skyhook s))" using annotations_migrate_nodes [OF N] st by blast
  moreover have "stamp_of (sk_NodeWright (sh_skyhook (ReportState t))) = stamp_of (sk_NodeWright (sh_skyhook t))" for t using annotations_ReportState st by blast
  ultimately show ?thesis using M v by (auto simp: skyhookNodes_Migrate_def N Let_def put_skyhook_def split: sum.splits if_splits)
qed

text \<open>
  C12. The rollback window is kept.  While a delay is set and a resource has either not been stamped yet or been stamped less than the delay ago, handling its migration, whatever its
  outcome, deletes no pod of the old operator and takes no label from a config map: it may only add labels, so that an operator rolled back to finds its workloads.
\<close>

theorem rollback_window_kept:
  assumes "handle_migration env (s, w, updates, errs) = ((s', w'), r)" and "0 < mg_delay env" and "distinct (map lc_Name (mw_maps w))"
    and "stamp_of (sk_NodeWright (sh_skyhook s)) = [] \<or>
      (\<exists>t. parse_time (stamp_of (sk_NodeWright (sh_skyhook s))) = Some t \<and> mg_now env < t + mg_delay env)"
  shows "mw_pods w' = mw_pods w \<and>
    (\<forall>cm \<in> set (mw_maps w). \<exists>cm' \<in> set (mw_maps w'). lc_Name cm' = lc_Name cm \<and> (\<forall>k v. map_of (lc_Labels cm) k = Some v \<longrightarrow> map_of (lc_Labels cm') k = Some v))"
proof -
  have "list_all2 keeps_labels (mw_maps w) (mw_maps w') \<and> mw_pods w' = mw_pods w"
  proof -
    obtain s1 q where M: "skyhookNodes_Migrate (mg_VERSION env) s = (s1, q)" by fastforce
    have np: "\<not> legacyCleanupShouldPrune (stamp_of (sk_NodeWright (sh_skyhook s1))) (mg_delay env) (mg_now env)"
      using assms(2,4) by (auto simp: legacyCleanupShouldPrune_def migrate_stamp [OF M])
    obtain s3 w3 u3 errs3 where F: "fold (migrate_save_node env) (map cn_Name (sh_nodes s1)) (s1, w, updates, errs) = (s3, w3, u3, errs3)" by (metis prod_cases4)
    have f: "mw_maps w3 = mw_maps w" "mw_pods w3 = mw_pods w" using save_frame [of env "map cn_Name (sh_nodes s1)" s1 w updates errs] by (simp_all add: F)
    obtain w4 p where W: "reconcileLegacyLabeledWorkloads env (sk_NodeWright (sh_skyhook s3)) False w3 = (w4, p)" by fastforce
    have k: "list_all2 keeps_labels (mw_maps w) (mw_maps w4)" "mw_pods w4 = mw_pods w" using workloads_keep [OF W] assms(3) by (simp_all add: f)
    have "w' = w \<or> mw_maps w' = mw_maps w4 \<and> mw_pods w' = mw_pods w4"
      using assms(1) by (auto simp: handle_migration_def M np F W Let_def split: sum.splits if_splits prod.splits dest!: resource_frame stamp_frame)
    then show ?thesis using k keeps_labels_refl by auto
  qed
  moreover have "\<exists>b \<in> set bs. keeps_labels a b" if "list_all2 keeps_labels as bs" "a \<in> set as" for as bs a
    using that by (induction rule: list_all2_induct) auto
  ultimately show ?thesis unfolding keeps_labels_def map_le_def dom_def by fastforce
qed

section \<open>Witnesses\<close>

definition done_before :: "(string, PackageStatus) gomap" where
  "done_before = [entry ''tuning'' StagePostInterrupt StateComplete]"

definition adopted_node :: skyhookNode where
  "adopted_node = NewSkyhookNodeOnly (sample_node\<lparr>n_Annotations :=
     [(LEGACY_PREFIX @ ''/nodeState_tune'', marshal_state done_before), (LEGACY_PREFIX @ ''/version_tune'', ''v0.17.0'')]\<rparr>) ''tune''"

definition stale_node :: skyhookNode where
  "stale_node = NewSkyhookNodeOnly (sample_node\<lparr>n_Conditions := map (\<lambda>t. \<lparr>nc_Type = METADATA_PREFIX @ ''/tune/'' @ t, nc_Status = ''True'',
     nc_LastHeartbeatTime = 0, nc_LastTransitionTime = 0, nc_Reason = [], nc_Message = []\<rparr>) [''NotReady'', ''Drained'', ''Waiting'']\<rparr>) ''tune''"

definition legacy_maps :: "labelled_map list" where
  "legacy_maps = [\<lparr>lc_Name = ''tune-tuning-1'', lc_Labels = [(legacyNameLabel, ''tune'')], lc_Owners = []\<rparr>]"

definition migrate_sample :: migrate_env where
  "migrate_sample = \<lparr>mg_VERSION = ''v0.18.0'', mg_now = 100, mg_zone = 0, mg_delay = 50, mg_original = (\<lambda>_. sample_node), mg_node = (\<lambda>_. sample_api),
     mg_node_status = (\<lambda>_ _ new _. Some new), mg_pods_listed = True, mg_pod_deleted = (\<lambda>_. True), mg_maps_listed = (\<lambda>_. True), mg_map_updated = (\<lambda>_. True),
     mg_status_update = Some, mg_lookup_ok = (\<lambda>_. True), mg_patched = (\<lambda>_. True)\<rparr>"

definition migrate_before :: migrate_world where
  "migrate_before = \<lparr>mw_pass = \<lparr>pw_exec = no_jobs, pw_nodes = [], pw_status = []\<rparr>, mw_pods = [(''p'', [(legacyNameLabel, ''tune'')])], mw_maps = legacy_maps, mw_resources = []\<rparr>"

theorem reset_undone_witness:
  "let node1 = fst (Reset sample_skyhook adopted_node) in Node_State node1 = Inr None \<and>
     Node_State (fst (fst (Node_Migrate ''v0.18.0'' (node1, sample_skyhook)))) = Inr (Some done_before)"
proof -
  have ok: "gomap_ok done_before" "entries_canonical done_before" "sort_key fst done_before = done_before"
    by (simp_all add: done_before_def entry_def entries_canonical_def stage_of_def state_of_def Stages_def States_def status_canonical_def)
  have u: "unmarshal_state (marshal_state done_before) = Some (Some done_before)" using unmarshal_marshal [OF ok(1,2)] ok(3) by simp
  have a: "skyhookName adopted_node = ''tune''" by (simp add: adopted_node_def NewSkyhookNodeOnly_def Let_def split: sum.split)
  have "annotation adopted_node (LEGACY_PREFIX @ ''/nodeState_'' @ skyhookName adopted_node) = Some (marshal_state done_before)"
    "annotation adopted_node (LEGACY_PREFIX @ ''/version_'' @ skyhookName adopted_node) = Some ''v0.17.0''"
    unfolding a by (simp_all add: adopted_node_def NewSkyhookNodeOnly_def annotation_def Let_def split: sum.split)
  moreover have "MajorMinor ''v0.17.0'' \<notin> {[], ''v0.5'', ''v0.6'', ''v0.7''}" by code_simp
  ultimately show ?thesis using reset_undone [OF _ u, of adopted_node "''v0.17.0''" sample_skyhook "''v0.18.0''" sample_skyhook] by (auto simp: Let_def split: prod.splits)
qed

theorem stale_conditions_panic_witness: "snd (migrateNodeTo_0_5_0 (stale_node, sample_skyhook)) = Inl MigratePanic"
proof -
  let ?c = "\<lambda>t. \<lparr>nc_Type = METADATA_PREFIX @ ''/tune/'' @ t, nc_Status = ''True'', nc_LastHeartbeatTime = 0, nc_LastTransitionTime = 0, nc_Reason = [], nc_Message = []\<rparr>"
  have s: "n_Conditions (sn_Node stale_node) = [?c ''NotReady''] @ [?c ''Drained'', ?c ''Waiting'']" "skyhookName stale_node = ''tune''" "Node_State stale_node = Inr None"
    by (simp_all add: stale_node_def NewSkyhookNodeOnly_def Node_State_def annotation_def sample_node_def Let_def)
  have c: "stale_condition ''tune'' (?c ''Drained'')" "stale_condition ''tune'' (?c ''Waiting'')" "\<not> stale_condition ''tune'' (?c ''NotReady'')" by code_simp+
  show ?thesis by (rule stale_conditions_panic [OF s(1) _ _ _ s(3)]) (use c s(2) in simp_all)
qed

theorem rollback_window_kept_witness:
  "mw_pods (snd (fst (handle_migration migrate_sample (sample_set sample_skyhookNode, migrate_before, False, [])))) = [(''p'', [(legacyNameLabel, ''tune'')])]"
proof -
  obtain s' w' r where H: "handle_migration migrate_sample (sample_set sample_skyhookNode, migrate_before, False, []) = ((s', w'), r)" by (metis prod.collapse)
  have "stamp_of (sk_NodeWright (sh_skyhook (sample_set sample_skyhookNode))) = []" by code_simp
  moreover have "0 < mg_delay migrate_sample" "distinct (map lc_Name (mw_maps migrate_before))" by (simp_all add: migrate_sample_def migrate_before_def legacy_maps_def)
  ultimately have "mw_pods w' = mw_pods migrate_before" using rollback_window_kept [OF H] by simp
  then show ?thesis by (simp add: H) (simp add: migrate_before_def)
qed

end
