(* ===== verification/Spec2Isabelle.thy ===== *)
theory Spec2Isabelle
  imports Config_Maps Migration
begin

text \<open>
  A verification development of the NodeWright operator (\<open>operator/\<close>), a Kubernetes controller that installs, configures,
  interrupts and uninstalls packages on the nodes of a cluster.

  \<^bold>\<open>The program.\<close>  A NodeWright resource names packages with versions, dependencies, configuration and interrupts, and
  selects nodes.  On every pass the controller builds a picture of the cluster (resources, the nodes each selects, the
  compartments a deployment policy puts them in), decides which resource may work on which node and which nodes of a
  batch are next, and for each package that is next on a node starts a Kubernetes Job for the stage it is at, after
  cordoning and draining the node where the package has an interrupt.  The Job and pod controllers watch those Jobs and
  write the outcome of a stage into an annotation of the node, which is the only durable record; the passes read it back.
  Several writers share that annotation and the node, so it is saved by a three-way merge under an optimistic lock.

  \<^bold>\<open>Theories and sources.\<close>
  \<^item> \<open>Prelude\<close>: Go maps as association lists (\<open>gput\<close>, \<open>gdel\<close>), strings, sorting, lemmas the rest shares.
  \<^item> \<open>Labels\<close>: label selectors, from the vendored \<open>apimachinery\<close>.
  \<^item> \<open>Graph\<close>: \<open>internal/graph/dependency_graph.go\<close>.
  \<^item> \<open>Deployment_Policy\<close>: \<open>api/nodewright/v1alpha1/deployment_policy_types.go\<close> and its webhook.
  \<^item> \<open>NodeWright_Types\<close>: \<open>nodewright_types.go\<close>: packages, interrupts, the state of packages on a node, stages.
  \<^item> \<open>Version\<close>, \<open>Webhook\<close>: version comparison and admission (\<open>internal/version\<close>, \<open>nodewright_webhook.go\<close>).
  \<^item> \<open>Json\<close>, \<open>Package_Annotation\<close>, \<open>Rfc3339\<close>: the texts the operator stores in annotations, written and read.
  \<^item> \<open>Skyhook_Wrapper\<close>, \<open>Node\<close>, \<open>Compartment\<close>: \<open>internal/wrapper\<close>; \<open>Float64\<close>: the arithmetic of percentages.
  \<^item> \<open>Cluster_State\<close>, \<open>Rollout\<close>: \<open>internal/controller/cluster_state_v2.go\<close>.
  \<^item> \<open>Lifecycle\<close>: what a change of the specification starts on a node; \<open>Node_Merge\<close>: saving nodes under concurrent writers.
  \<^item> \<open>Safe_Name\<close>, \<open>Workloads\<close>, \<open>Job_Builder\<close>: names, options, pods and Jobs (\<open>job_builder.go\<close>).
  \<^item> \<open>Jobs\<close>: \<open>job_controller.go\<close> and \<open>pod_controller.go\<close>.
  \<^item> \<open>Drain\<close>: \<open>internal/drain/drain.go\<close> and the drain of a node.
  \<^item> \<open>Execution\<close>: starting, keeping, pausing and clearing Jobs (\<open>skyhook_controller.go\<close>); \<open>Pass\<close>: saving the nodes and the
    resource, running the packages of a resource on its nodes, going through the resources.
  \<^item> \<open>Runtime_Required\<close>: the taint that keeps workloads off a node, its removal, and starting over after a reboot; \<open>Finalizer\<close>: the
    end of a resource; \<open>Config_Maps\<close>: the config maps of packages and nodes and what a change of one starts (all \<open>skyhook_controller.go\<close>).
  \<^item> \<open>Legacy_Conversion\<close>, \<open>Mirror\<close>: the conversion of resources of the old API group, the controllers that mirror them, the hold while one of
    them is rolling out, and their read-only admission (\<open>api/v1alpha1/nodewright_conversion.go\<close>, \<open>mirror_controller.go\<close>,
    \<open>migration_hold.go\<close>, \<open>legacy_readonly_webhook.go\<close>); \<open>Migration\<close>: the metadata, states and workloads of older operators
    (\<open>zz.migration.*.go\<close>, \<open>HandleMigrations\<close>).

  \<^bold>\<open>Correspondence.\<close>  Definitions keep the names of the functions they translate; a suffix or prefix (\<open>Node_\<close>, \<open>sh_\<close>)
  tells methods of different receivers apart.  Structs are records, enumerations datatypes with a constructor for a
  value outside the enumeration.  A Go map is an association list whose order is the order of iteration, so theorems
  hold for every order the runtime picks; a map that may be nil is an option.  Integers are \<open>int\<close> with the wrap-around
  written out where the code can overflow, and words in \<open>Safe_Name\<close>.  Errors are values of a sum type, a nil
  dereference that the code could reach is an error value of its own.  A node wrapper and the resource it shares with
  the other wrappers of a pass are passed explicitly.

  \<^bold>\<open>Parameters.\<close>  What the code does not decide is an argument: the clock, the version of the build, what a cached or
  uncached read returns, which requests the API server accepts, what other writers store between two requests, which
  evictions are refused, and what a listing of Jobs shows.  Laws that are assumed of them are hypotheses of the theorem that
  needs them (that a listing shows the unfinished Jobs, that one attempt is undisturbed).

  \<^bold>\<open>What is shown.\<close>
  \<^item> The life of a package: complete on a node exactly when the specification asks for nothing more, never stuck, at most
    four moves; the graph walk ends and respects dependencies; what runs next is exact and exists.
  \<^item> Rollouts: batch sizes are within bounds, a finished batch is judged exactly by its nodes and so is the stop, batches do not overlap, every
    node is in one compartment, one resource works on a node at a time and resources do not wait for each other in a circle.
  \<^item> Concurrency: a save loses no update of either side and succeeds after one undisturbed attempt; a node stays cordoned
    while anyone holds it; a completed stage is recorded exactly once.
  \<^item> Execution: one Job per stage of a package on a node, under every interleaving and whatever the caches show, and one unfinished Job
    per package and node where the listings have caught up; interrupts run alone on a drained node, whose pods are disrupted exactly as the options
    ask; progress is recorded only with a Job behind it; retained Jobs of the packages of an admitted
    specification are judged alike by the sweep and where a name is taken.
  \<^item> Passes: Jobs start only for resources that are neither disabled nor paused, on nodes that are ready for them; a node loses the runtime-required
    taint exactly when all that must run first is complete; a reboot is reset or stays pending; a change of a configuration is stored only
    once every node has been sent back for it; a resource is released only when nothing is left to uninstall, and then it is.
  \<^item> Migration: the mirror touches only what is its own and settles; nothing in flight is taken over, and what is paused stays paused
    when the mirror writes it; adoption is additive, removal scoped to
    one resource, and the rollback window is kept.  Some theorems record behaviour that is not intended: the unsaved pass of a serial
    resource, a reset undone inside the rollback window, conditions left behind by the finalizer, a panic over stale conditions, a
    resource paused again by a re-sync.
  \<^item> Texts: the annotations read back as what was written, names are valid, time stamps round-trip.

  \<^bold>\<open>Interfaces.\<close>  The promises one component makes to another are locales: the tables of \<open>Prelude\<close>, the store of package states in
  \<open>NodeWright_Types\<close>, the converter of a mirrored kind in \<open>Mirror\<close>, and others next to their first client, each interpreted on the definitions of the provider.

  \<^bold>\<open>Bounds and fuel.\<close>  Loops are structural or have a measure; the graph walk has fuel for one more wave than there are
  vertices, which \<open>walk_correct\<close> shows to be enough for every acyclic graph; the retry loop has the five
  steps of \<open>retry.DefaultRetry\<close>.

  \<^bold>\<open>Not modelled.\<close>  The top level of the reconciler, which calls the handlers above in order and turns their results into requeue times; the
  methods and webhooks of the old API group, which are copies of those of the new one; webhook certificates, the event handlers and
  the manager set-up; metrics, events and logs; the command line tool and the agent that runs inside the Jobs; generated deep copies and mocks.
  The wrappers that several resources make of one node in one pass are kept apart here until they are saved; in the code they share
  the maps of its labels and annotations.
\<close>

end
